(* ===== verification/Weblens_Prelude.thy ===== *)
theory Weblens_Prelude
  imports Main "HOL-Library.Product_Lexorder"
begin

text \<open>
  Shared vocabulary of the development: results of fallible code as sums, tables of a relational
  store as lists of rows with the statements the sources issue over them (\<open>update ... where\<close>,
  \<open>count(*) filter\<close>, \<open>order by ... limit n\<close>), nullable columns as options, and the collections
  of facts the component theories extend.
\<close>

named_theorems schema_simps \<open>definitions of the row constraints of the stores\<close>
named_theorems op_defs \<open>definitions of the operations of a store\<close>
named_theorems row_simps \<open>rows after an update\<close>

section \<open>Results: an error on the left, a value on the right\<close>

definition rbind :: "'e + 'a \<Rightarrow> ('a \<Rightarrow> 'e + 'b) \<Rightarrow> 'e + 'b" where
  "rbind m f = (case m of Inl e \<Rightarrow> Inl e | Inr x \<Rightarrow> f x)"

definition require :: "bool \<Rightarrow> 'e \<Rightarrow> 'e + unit" where
  "require b e = (if b then Inr () else Inl e)"

lemma rbind_simps [simp]:
  "rbind (Inl e) f = Inl e"
  "rbind (Inr x) f = f x"
  by (simp_all add: rbind_def)

lemma rbind_eq_Inr [simp]: "(rbind m f = Inr y) = (\<exists>x. m = Inr x \<and> f x = Inr y)"
  by (cases m) simp_all

lemma rbind_eq_Inl: "(rbind m f = Inl e) = (m = Inl e \<or> (\<exists>x. m = Inr x \<and> f x = Inl e))"
  by (cases m) simp_all

lemma require_eq_Inr [simp]: "(require b e = Inr u) = b"
  by (simp add: require_def)

lemma require_eq_Inl [simp]: "(require b e = Inl e') = (\<not> b \<and> e = e')"
  by (simp add: require_def)

lemma require_True [simp]: "require True e = Inr ()"
  by (simp add: require_def)

lemma require_False [simp]: "require False e = Inl e"
  by (simp add: require_def)

lemma rbind_assoc: "rbind (rbind m f) g = rbind m (\<lambda>x. rbind (f x) g)"
  by (cases m) simp_all

text \<open>A loop whose body may fail: the first error stops it.\<close>

fun rfold :: "('a \<Rightarrow> 's \<Rightarrow> 'e + 's) \<Rightarrow> 'a list \<Rightarrow> 's \<Rightarrow> 'e + 's" where
  "rfold f [] s = Inr s"
| "rfold f (x # xs) s = rbind (f x s) (rfold f xs)"

lemma rfold_append: "rfold f (xs @ ys) s = rbind (rfold f xs s) (rfold f ys)"
proof (induction xs arbitrary: s)
  case Nil
  show ?case by simp
next
  case (Cons x xs)
  show ?case by (cases "f x s") (simp_all add: Cons.IH)
qed

lemma rfold_inv:
  assumes "rfold f xs s = Inr t" "I s"
    and "\<And>x s t. x \<in> set xs \<Longrightarrow> I s \<Longrightarrow> f x s = Inr t \<Longrightarrow> I t"
  shows "I t"
  using assms by (induction xs arbitrary: s) auto

text \<open>
  Each element is a key of the state that its own step consumes: \<open>K\<close> says that the step for a key may
  run, and a step for another key keeps it.
\<close>

lemma rfold_distinct:
  assumes "rfold f ks s = Inr t" "distinct ks" "I s" "\<And>k. k \<in> set ks \<Longrightarrow> K k s"
    and step: "\<And>k s s'. I s \<Longrightarrow> K k s \<Longrightarrow> f k s = Inr s' \<Longrightarrow> I s'"
    and frame: "\<And>k l s s'. I s \<Longrightarrow> K l s \<Longrightarrow> K k s \<Longrightarrow> k \<noteq> l \<Longrightarrow> f l s = Inr s' \<Longrightarrow> K k s'"
  shows "I t"
  using assms(1-4)
proof (induction ks arbitrary: s)
  case Nil
  then show ?case by simp
next
  case (Cons l ks)
  from Cons.prems(1) obtain s1 where s1: "f l s = Inr s1" and rest: "rfold f ks s1 = Inr t"
    by auto
  have Kl: "K l s" using Cons.prems by simp
  have "K k s1" if "k \<in> set ks" for k
    using that Cons.prems by (intro frame [OF Cons.prems(3) Kl _ _ s1]) auto
  moreover have "I s1" using step [OF Cons.prems(3) Kl s1] .
  ultimately show ?case using Cons.IH [OF rest] Cons.prems(2) by simp
qed

section \<open>Nullable columns\<close>

text \<open>A comparison with SQL null is never true.\<close>

definition le_opt :: "'a::order option \<Rightarrow> 'a \<Rightarrow> bool" where
  "le_opt x t = (case x of None \<Rightarrow> False | Some v \<Rightarrow> v \<le> t)"

definition gt_opt :: "'a::order option \<Rightarrow> 'a \<Rightarrow> bool" where
  "gt_opt x t = (case x of None \<Rightarrow> False | Some v \<Rightarrow> t < v)"

definition all_opt :: "('a \<Rightarrow> bool) \<Rightarrow> 'a option \<Rightarrow> bool" where
  "all_opt P x = (case x of None \<Rightarrow> True | Some v \<Rightarrow> P v)"

definition coalesce :: "'a option \<Rightarrow> 'a \<Rightarrow> 'a" where
  "coalesce x d = (case x of None \<Rightarrow> d | Some v \<Rightarrow> v)"

lemma opt_simps [simp]:
  "le_opt None t = False" "le_opt (Some v) t = (v \<le> t)"
  "gt_opt None t = False" "gt_opt (Some v) t = (t < v)"
  by (simp_all add: le_opt_def gt_opt_def)

lemma all_opt_simps [simp]: "all_opt P None = True" "all_opt P (Some v) = P v"
  by (simp_all add: all_opt_def)

lemma coalesce_simps [simp]: "coalesce None d = d" "coalesce (Some v) d = v"
  by (simp_all add: coalesce_def)

lemma coalesce_ge: "all_opt (\<lambda>v. t \<le> v) x \<Longrightarrow> t \<le> d \<Longrightarrow> t \<le> coalesce x (d::'a::order)"
  by (cases x) auto

lemma coalesce_le: "all_opt (\<lambda>v. v \<le> t) x \<Longrightarrow> d \<le> t \<Longrightarrow> coalesce x d \<le> (t::'a::order)"
  by (cases x) auto

section \<open>Tables as lists of rows\<close>

definition update_where :: "('r \<Rightarrow> bool) \<Rightarrow> ('r \<Rightarrow> 'r) \<Rightarrow> 'r list \<Rightarrow> 'r list" where
  "update_where P f = map (\<lambda>r. if P r then f r else r)"

definition count_where :: "('r \<Rightarrow> bool) \<Rightarrow> 'r list \<Rightarrow> nat" where
  "count_where P rows = length (filter P rows)"

definition sum_where :: "('r \<Rightarrow> bool) \<Rightarrow> ('r \<Rightarrow> nat) \<Rightarrow> 'r list \<Rightarrow> nat" where
  "sum_where P f rows = sum_list (map f (filter P rows))"

definition order_by :: "('r \<Rightarrow> 'k::linorder) \<Rightarrow> ('r \<Rightarrow> bool) \<Rightarrow> 'r list \<Rightarrow> 'r list" where
  "order_by k P rows = sort_key k (filter P rows)"

definition first_by :: "('r \<Rightarrow> 'k::linorder) \<Rightarrow> ('r \<Rightarrow> bool) \<Rightarrow> 'r list \<Rightarrow> 'r option" where
  "first_by k P rows = (case order_by k P rows of [] \<Rightarrow> None | r # _ \<Rightarrow> Some r)"

lemma update_where_Nil [simp]: "update_where P f [] = []"
  by (simp add: update_where_def)

lemma update_where_Cons [simp]:
  "update_where P f (r # rs) = (if P r then f r else r) # update_where P f rs"
  by (simp add: update_where_def)

lemma length_update_where [simp]: "length (update_where P f rs) = length rs"
  by (simp add: update_where_def)

lemma set_update_where: "set (update_where P f rs) = (\<lambda>r. if P r then f r else r) ` set rs"
  by (simp add: update_where_def)

lemma in_update_whereE:
  assumes "r' \<in> set (update_where P f rs)"
  obtains r where "r \<in> set rs" "r' = (if P r then f r else r)"
  using assms by (auto simp: set_update_where)

lemma ball_update_where [simp]:
  "(\<forall>r \<in> set (update_where P f rs). Q r) = (\<forall>r \<in> set rs. Q (if P r then f r else r))"
  by (auto simp: set_update_where)

lemma list_all_update_where [simp]:
  "list_all Q (update_where P f rs) = (\<forall>r \<in> set rs. Q (if P r then f r else r))"
  by (auto simp: list_all_iff set_update_where)

lemma map_update_where_key:
  assumes "\<And>r. key (f r) = key r"
  shows "map key (update_where P f rs) = map key rs"
  using assms by (simp add: update_where_def)

lemma update_where_none: "(\<And>r. r \<in> set rs \<Longrightarrow> \<not> P r) \<Longrightarrow> update_where P f rs = rs"
  by (induction rs) auto

lemma count_where_simps [simp]:
  "count_where P [] = 0"
  "count_where P (r # rs) = (if P r then Suc (count_where P rs) else count_where P rs)"
  "count_where P (xs @ ys) = count_where P xs + count_where P ys"
  by (simp_all add: count_where_def)

lemma sum_where_simps [simp]:
  "sum_where P f [] = 0"
  "sum_where P f (r # rs) = (if P r then f r + sum_where P f rs else sum_where P f rs)"
  "sum_where P f (xs @ ys) = sum_where P f xs + sum_where P f ys"
  by (simp_all add: sum_where_def)

lemma count_where_0: "(count_where P rs = 0) = (\<forall>r \<in> set rs. \<not> P r)"
  by (induction rs) auto

lemma count_where_pos: "r \<in> set rs \<Longrightarrow> P r \<Longrightarrow> 0 < count_where P rs"
  using count_where_0 [of P rs] by auto

lemma count_where_mono: "(\<And>r. r \<in> set rs \<Longrightarrow> P r \<Longrightarrow> Q r) \<Longrightarrow> count_where P rs \<le> count_where Q rs"
proof (induction rs)
  case Nil
  then show ?case by simp
next
  case (Cons r rs)
  then have "count_where P rs \<le> count_where Q rs" and "P r \<Longrightarrow> Q r" by auto
  then show ?case by (cases "P r"; cases "Q r") simp_all
qed

lemma count_where_cong: "(\<And>r. r \<in> set rs \<Longrightarrow> P r = Q r) \<Longrightarrow> count_where P rs = count_where Q rs"
  by (induction rs) auto

lemma count_where_le_length: "count_where P rs \<le> length rs"
  by (simp add: count_where_def)

lemma count_where_disj:
  "(\<And>r. r \<in> set rs \<Longrightarrow> \<not> (P r \<and> Q r)) \<Longrightarrow>
    count_where (\<lambda>r. P r \<or> Q r) rs = count_where P rs + count_where Q rs"
  by (induction rs) auto

lemma count_where_update_same:
  "(\<And>r. r \<in> set rs \<Longrightarrow> P r \<Longrightarrow> Q (f r) = Q r) \<Longrightarrow>
    count_where Q (update_where P f rs) = count_where Q rs"
  by (induction rs) auto

lemma sum_where_update_same:
  "(\<And>r. r \<in> set rs \<Longrightarrow> P r \<Longrightarrow> Q (f r) = Q r \<and> (Q r \<longrightarrow> g (f r) = g r)) \<Longrightarrow>
    sum_where Q g (update_where P f rs) = sum_where Q g rs"
  by (induction rs) auto

text \<open>
  An update that hits exactly one row, the one that carries a key: what the aggregates over the
  table change by.
\<close>

lemma update_where_other:
  assumes "key r \<notin> key ` set rs"
  shows "update_where (\<lambda>x. key x = key r \<and> G x) f rs = rs"
  using assms by (intro update_where_none) (metis image_eqI)

lemma count_update_one:
  assumes "distinct (map key rs)" "r \<in> set rs" "G r"
  shows "count_where Q (update_where (\<lambda>x. key x = key r \<and> G x) f rs) + of_bool (Q r)
       = count_where Q rs + of_bool (Q (f r))"
  using assms
proof (induction rs)
  case Nil
  then show ?case by simp
next
  case (Cons x rs)
  show ?case
  proof (cases "x = r")
    case True
    with Cons.prems have "key r \<notin> key ` set rs" by auto
    then have "update_where (\<lambda>y. key y = key r \<and> G y) f rs = rs" by (rule update_where_other)
    with True Cons.prems show ?thesis by simp
  next
    case False
    with Cons.prems have "key x \<noteq> key r" by auto
    with Cons False show ?thesis by auto
  qed
qed

lemma sum_update_one:
  assumes "distinct (map key rs)" "r \<in> set rs" "G r"
  shows "sum_where Q g (update_where (\<lambda>x. key x = key r \<and> G x) f rs) + (if Q r then g r else 0)
       = sum_where Q g rs + (if Q (f r) then g (f r) else 0)"
  using assms
proof (induction rs)
  case Nil
  then show ?case by simp
next
  case (Cons x rs)
  show ?case
  proof (cases "x = r")
    case True
    with Cons.prems have "key r \<notin> key ` set rs" by auto
    then have "update_where (\<lambda>y. key y = key r \<and> G y) f rs = rs" by (rule update_where_other)
    with True Cons.prems show ?thesis by simp
  next
    case False
    with Cons.prems have "key x \<noteq> key r" by auto
    with Cons False show ?thesis by auto
  qed
qed

lemma map_eq_update_where: "map (\<lambda>r. if P r then f r else r) rs = update_where P f rs"
  by (simp add: update_where_def)

lemma distinct_key_unique:
  "distinct (map key rs) \<Longrightarrow> r \<in> set rs \<Longrightarrow> s \<in> set rs \<Longrightarrow> key r = key s \<Longrightarrow> r = s"
  by (induction rs) (auto simp: image_iff)

section \<open>Histories of a table\<close>

text \<open>
  How a table looks after a transaction: no row disappears, each row has moved along \<open>R\<close> and new rows
  come at the end.
\<close>

definition rows_evolve :: "('r \<Rightarrow> 'r \<Rightarrow> bool) \<Rightarrow> 'r list \<Rightarrow> 'r list \<Rightarrow> bool" where
  "rows_evolve R rs rs' \<longleftrightarrow> (\<exists>old new. rs' = old @ new \<and> list_all2 R rs old)"

lemma rows_evolve_refl: "(\<And>r. R r r) \<Longrightarrow> rows_evolve R rs rs"
  unfolding rows_evolve_def by (rule exI [of _ rs]) (simp add: list_all2_refl)

lemma rows_evolve_append: "(\<And>r. R r r) \<Longrightarrow> rows_evolve R rs (rs @ new)"
  unfolding rows_evolve_def by (rule exI [of _ rs]) (simp add: list_all2_refl)

lemma rows_evolve_trans:
  assumes trans: "\<And>r s t. R r s \<Longrightarrow> R s t \<Longrightarrow> R r t"
    and 1: "rows_evolve R xs ys" and 2: "rows_evolve R ys zs"
  shows "rows_evolve R xs zs"
proof -
  from 1 obtain o1 n1 where 1: "ys = o1 @ n1" "list_all2 R xs o1" by (auto simp: rows_evolve_def)
  from 2 obtain o2 n2 where 2: "zs = o2 @ n2" "list_all2 R ys o2" by (auto simp: rows_evolve_def)
  from 1(1) 2(2) obtain u v where uv: "o2 = u @ v" "list_all2 R o1 u"
    by (auto simp: list_all2_append1)
  have "list_all2 R xs u" by (rule list_all2_trans [OF trans 1(2) uv(2)])
  with 2(1) uv(1) show ?thesis unfolding rows_evolve_def by auto
qed

lemma rows_evolve_map: "(\<And>r. r \<in> set rs \<Longrightarrow> R r (g r)) \<Longrightarrow> rows_evolve R rs (map g rs)"
  unfolding rows_evolve_def by (rule exI [of _ "map g rs"]) (auto simp: list_all2_map2 intro: list.rel_refl_strong)

lemma rows_evolve_update:
  assumes "\<And>r. R r r" "\<And>r. r \<in> set rs \<Longrightarrow> P r \<Longrightarrow> R r (f r)"
  shows "rows_evolve R rs (update_where P f rs)"
  unfolding update_where_def by (rule rows_evolve_map) (simp add: assms)

lemma rows_evolve_same_length:
  assumes "rows_evolve R rs rs'" "length rs' = length rs"
  shows "list_all2 R rs rs'"
proof -
  from assms(1) obtain old new where *: "rs' = old @ new" "list_all2 R rs old"
    by (auto simp: rows_evolve_def)
  from *(2) have "length rs = length old" by (rule list_all2_lengthD)
  with * assms(2) have "new = []" by simp
  with * show ?thesis by simp
qed

lemma list_all2_source:
  assumes "list_all2 R xs ys" "y \<in> set ys"
  obtains x where "x \<in> set xs" "R x y"
  using assms by (induction arbitrary: thesis rule: list_all2_induct) auto

lemma rows_evolve_row:
  assumes "rows_evolve R rs rs'" "r \<in> set rs"
  obtains r' where "r' \<in> set rs'" "R r r'"
proof -
  from assms(1) obtain old new where *: "rs' = old @ new" "list_all2 R rs old"
    by (auto simp: rows_evolve_def)
  from assms(2) obtain i where i: "i < length rs" "rs ! i = r" by (auto simp: in_set_conv_nth)
  with *(2) have "old ! i \<in> set old" "R r (old ! i)" by (auto simp: list_all2_conv_all_nth)
  with *(1) that show thesis by auto
qed

section \<open>\<open>order by ... limit\<close>\<close>

lemma set_order_by [simp]: "set (order_by k P rows) = {r \<in> set rows. P r}"
  by (auto simp: order_by_def)

lemma order_by_simps:
  "order_by k P [] = []"
  "order_by k P (r # rs) = (if P r then insort_key k r (order_by k P rs) else order_by k P rs)"
  by (simp_all add: order_by_def)

lemma sorted_order_by: "sorted (map k (order_by k P rows))"
  by (simp add: order_by_def)

lemma first_by_Some:
  assumes "first_by k P rows = Some r"
  shows "r \<in> set rows" "P r" "\<And>s. s \<in> set rows \<Longrightarrow> P s \<Longrightarrow> k r \<le> k s"
proof -
  from assms obtain rs where rs: "order_by k P rows = r # rs"
    by (auto simp: first_by_def split: list.splits)
  have set_eq: "set (r # rs) = {x \<in> set rows. P x}" by (metis rs set_order_by)
  then show "r \<in> set rows" "P r" by auto
  fix s assume "s \<in> set rows" "P s"
  with set_eq have "s \<in> set (r # rs)" by blast
  moreover have "sorted (map k (r # rs))" by (metis rs sorted_order_by)
  ultimately show "k r \<le> k s" by auto
qed

lemma first_by_None: "(first_by k P rows = None) = (\<forall>r \<in> set rows. \<not> P r)"
proof -
  have "(first_by k P rows = None) = (order_by k P rows = [])"
    by (simp add: first_by_def split: list.splits)
  also have "\<dots> = (set (order_by k P rows) = {})" by (rule set_empty [symmetric])
  also have "\<dots> = ({r \<in> set rows. P r} = {})" by (simp only: set_order_by)
  finally show ?thesis by auto
qed

section \<open>Time\<close>

text \<open>Timestamps are microseconds since an epoch, the resolution of \<open>timestamptz\<close>.\<close>

type_synonym time = nat
type_synonym uuid = nat

definition seconds :: "nat \<Rightarrow> time" where
  "seconds n = n * 1000000"

definition minutes :: "nat \<Rightarrow> time" where
  "minutes n = seconds (60 * n)"

definition days :: "nat \<Rightarrow> time" where
  "days n = seconds (86400 * n)"

lemma seconds_pos [simp]: "(0 < seconds n) = (0 < n)"
  by (simp add: seconds_def)

lemma minutes_pos [simp]: "(0 < minutes n) = (0 < n)"
  by (simp add: minutes_def)

lemma days_pos [simp]: "(0 < days n) = (0 < n)"
  by (simp add: days_def)

text \<open>\<open>Math.min(30, 2 ** n)\<close>, the retry delay in seconds of every worker.\<close>

definition backoff_seconds :: "nat \<Rightarrow> nat" where
  "backoff_seconds attempt = min 30 (2 ^ attempt)"

lemma backoff_bounds: "1 \<le> backoff_seconds n" "backoff_seconds n \<le> 30"
  by (simp_all add: backoff_seconds_def)

end
