(* ===== verification/Js_Text.thy ===== *)
theory Js_Text
  imports Weblens_Prelude "HOL-Library.Char_ord"
begin

text \<open>
  The JavaScript string operations the sources use, on ASCII text: case mapping, character classes,
  \<open>slice\<close>, and the error codes the workers persist. A \<open>string\<close> is a list of characters; outside
  ASCII the case mapping here is the identity.
\<close>

definition between :: "char \<Rightarrow> char \<Rightarrow> char \<Rightarrow> bool" where
  "between lo hi c \<longleftrightarrow> lo \<le> c \<and> c \<le> hi"

definition upper_char :: "char \<Rightarrow> char" where
  "upper_char c = (if between (CHR ''a'') (CHR ''z'') c then char_of (of_char c - 32 :: nat) else c)"

definition lower_char :: "char \<Rightarrow> char" where
  "lower_char c = (if between (CHR ''A'') (CHR ''Z'') c then char_of (of_char c + 32 :: nat) else c)"

definition toUpperCase :: "string \<Rightarrow> string" where
  "toUpperCase = map upper_char"

definition toLowerCase :: "string \<Rightarrow> string" where
  "toLowerCase = map lower_char"

definition upper_alpha :: "char \<Rightarrow> bool" where
  "upper_alpha c \<longleftrightarrow> between (CHR ''A'') (CHR ''Z'') c"

definition lower_alpha :: "char \<Rightarrow> bool" where
  "lower_alpha c \<longleftrightarrow> between (CHR ''a'') (CHR ''z'') c"

definition digit :: "char \<Rightarrow> bool" where
  "digit c \<longleftrightarrow> between (CHR ''0'') (CHR ''9'') c"

definition replace_class :: "(char \<Rightarrow> bool) \<Rightarrow> char \<Rightarrow> string \<Rightarrow> string" where
  "replace_class bad c = map (\<lambda>x. if bad x then c else x)"

lemma length_case [simp]:
  "length (toUpperCase s) = length s" "length (toLowerCase s) = length s"
  "length (replace_class bad c s) = length s"
  by (simp_all add: toUpperCase_def toLowerCase_def replace_class_def)

lemma set_replace_class: "x \<in> set (replace_class bad c s) \<Longrightarrow> x = c \<or> \<not> bad x"
  by (auto simp: replace_class_def)

lemma lower_char_idem [simp]: "lower_char (lower_char c) = lower_char c"
proof (cases "between (CHR ''A'') (CHR ''Z'') c")
  case True
  then have "65 \<le> (of_char c :: nat)" "(of_char c :: nat) \<le> 90"
    by (simp_all add: between_def less_eq_char_def)
  then have "\<not> between (CHR ''A'') (CHR ''Z'') (char_of (of_char c + 32 :: nat))"
    by (simp add: between_def less_eq_char_def)
  then show ?thesis by (simp add: lower_char_def)
next
  case False
  then show ?thesis by (simp add: lower_char_def)
qed

lemma toLowerCase_idem [simp]: "toLowerCase (toLowerCase s) = toLowerCase s"
  by (simp add: toLowerCase_def)

text \<open>\<open>startsWith\<close>, \<open>endsWith\<close>, \<open>includes\<close> and \<open>split\<close> on one character.\<close>

definition starts_with :: "string \<Rightarrow> string \<Rightarrow> bool" where
  "starts_with p s \<longleftrightarrow> take (length p) s = p"

definition ends_with :: "string \<Rightarrow> string \<Rightarrow> bool" where
  "ends_with p s \<longleftrightarrow> length p \<le> length s \<and> drop (length s - length p) s = p"

fun contains_text :: "string \<Rightarrow> string \<Rightarrow> bool" where
  "contains_text needle [] \<longleftrightarrow> needle = []"
| "contains_text needle (c # s) \<longleftrightarrow> starts_with needle (c # s) \<or> contains_text needle s"

fun split_on :: "char \<Rightarrow> string \<Rightarrow> string list" where
  "split_on c [] = [[]]"
| "split_on c (x # s) = (if x = c then [] # split_on c s
     else (case split_on c s of [] \<Rightarrow> [[x]] | y # ys \<Rightarrow> (x # y) # ys))"

fun join_with :: "char \<Rightarrow> string list \<Rightarrow> string" where
  "join_with c [] = []"
| "join_with c [s] = s"
| "join_with c (s # t # ss) = s @ [c] @ join_with c (t # ss)"

lemma split_on_not_Nil [simp]: "split_on c s \<noteq> []"
  by (induction s) (auto split: list.splits)

lemma join_split [simp]: "join_with c (split_on c s) = s"
proof (induction s)
  case Nil
  show ?case by simp
next
  case (Cons x s)
  obtain y ys where y: "split_on c s = y # ys" by (cases "split_on c s") auto
  with Cons show ?case by (cases ys) auto
qed

lemma split_on_free: "p \<in> set (split_on c s) \<Longrightarrow> c \<notin> set p"
  by (induction s arbitrary: p) (auto split: list.splits if_splits)

lemma split_on_single: "c \<notin> set s \<Longrightarrow> split_on c s = [s]"
  by (induction s) auto

lemma split_join:
  assumes "\<And>p. p \<in> set ps \<Longrightarrow> c \<notin> set p" "ps \<noteq> []"
  shows "split_on c (join_with c ps) = ps"
  using assms
proof (induction ps rule: join_with.induct)
  case (3 c s t ss)
  have app: "c \<notin> set u \<Longrightarrow> split_on c (u @ [c] @ v) = u # split_on c v" for u v
    by (induction u) auto
  from 3 show ?case by (simp add: app [simplified])
qed (auto simp: split_on_single)

text \<open>The characters of a symbolic code, \<open>[A-Z0-9_]\<close>.\<close>

definition code_char :: "char \<Rightarrow> bool" where
  "code_char c \<longleftrightarrow> upper_alpha c \<or> digit c \<or> c = CHR ''_''"

text \<open>
  \<open>value.toUpperCase().replace(/[^A-Z0-9_]/gu, '_').slice(0, 64) || fallback\<close>, the code the
  capture and site workers store: with the fallback of \<open>site-database.ts\<close> and of \<open>index.ts\<close>.
\<close>

definition bounded_code_or :: "string \<Rightarrow> string \<Rightarrow> string" where
  "bounded_code_or fallback value =
     (let s = take 64 (replace_class (\<lambda>c. \<not> code_char c) (CHR ''_'') (toUpperCase value))
      in if s = [] then fallback else s)"

definition boundedCode :: "string \<Rightarrow> string" where
  "boundedCode = bounded_code_or ''SITE_CLONE_FAILED''"

lemma bounded_code_or_chars:
  assumes "list_all code_char fallback"
  shows "list_all code_char (bounded_code_or fallback value)"
proof -
  have "list_all code_char (replace_class (\<lambda>c. \<not> code_char c) (CHR ''_'') s)" for s
    by (auto simp: list_all_iff replace_class_def code_char_def)
  then have "list_all code_char (take 64 (replace_class (\<lambda>c. \<not> code_char c) (CHR ''_'') (toUpperCase value)))"
    by (auto simp: list_all_iff dest: in_set_takeD)
  with assms show ?thesis by (simp add: bounded_code_or_def Let_def)
qed

lemma bounded_code_or_length:
  assumes "fallback \<noteq> []" "length fallback \<le> 64"
  shows "1 \<le> length (bounded_code_or fallback value)" "length (bounded_code_or fallback value) \<le> 64"
  using assms by (auto simp: bounded_code_or_def Let_def Suc_le_eq)

lemma site_clone_failed_code: "list_all code_char ''SITE_CLONE_FAILED''"
  by (simp add: code_char_def upper_alpha_def between_def less_eq_char_def)

lemma boundedCode_ok:
  "list_all code_char (boundedCode v)" "1 \<le> length (boundedCode v)" "length (boundedCode v) \<le> 64"
  unfolding boundedCode_def
  by (rule bounded_code_or_chars [OF site_clone_failed_code]) (rule bounded_code_or_length; simp)+

end
