(* ===== verification/Outbox.thy ===== *)
theory Outbox
  imports Js_Text
begin

text \<open>
  The transactional outboxes: \<open>site_reconstruction_event_outbox\<close> (\<open>site-database.ts\<close>),
  \<open>event_outbox\<close> and \<open>analytics_outbox\<close> (\<open>database.ts\<close>) share the columns of a \<open>delivery\<close> and the
  statements that claim, complete and retry one. Each table extends the record with its own columns.

  \<open>hash\<close> stands for PostgreSQL's \<open>hashtext(message_id::text)\<close>; the sources only use its absolute value
  modulo 5, as jitter.
\<close>

datatype outbox_status = PENDING | CLAIMED | DELIVERED | DEAD

record delivery =
  o_message_id :: uuid
  o_status :: outbox_status
  o_available :: time
  o_attempts :: nat
  o_lease_owner :: "uuid option"
  o_lease_expires :: "time option"
  o_delivered :: "time option"
  o_last_error :: "string option"
  o_created :: time

definition deliverable :: "time \<Rightarrow> 'a delivery_scheme \<Rightarrow> bool" where
  "deliverable t x \<longleftrightarrow> (o_status x \<in> {PENDING, DEAD} \<and> o_available x \<le> t)
     \<or> (o_status x = CLAIMED \<and> le_opt (o_lease_expires x) t)"

definition claim_row :: "time \<Rightarrow> uuid \<Rightarrow> 'a delivery_scheme \<Rightarrow> 'a delivery_scheme" where
  "claim_row t worker x = x\<lparr>o_status := CLAIMED, o_lease_owner := Some worker,
     o_lease_expires := Some (t + seconds 30), o_attempts := o_attempts x + 1\<rparr>"

text \<open>\<open>order by available_at,created_at,message_id for update skip locked limit 1\<close>.\<close>

definition claim_delivery :: "time \<Rightarrow> (uuid \<Rightarrow> bool) \<Rightarrow> uuid \<Rightarrow> 'a delivery_scheme list
    \<Rightarrow> 'a delivery_scheme option \<times> 'a delivery_scheme list" where
  "claim_delivery t locked worker rows =
     (case first_by (\<lambda>x. (o_available x, o_created x, o_message_id x))
         (\<lambda>x. deliverable t x \<and> \<not> locked (o_message_id x)) rows of
        None \<Rightarrow> (None, rows)
      | Some c \<Rightarrow> (Some (claim_row t worker c),
          update_where (\<lambda>x. o_message_id x = o_message_id c) (claim_row t worker) rows))"

definition claimed_by :: "uuid \<Rightarrow> uuid \<Rightarrow> 'a delivery_scheme \<Rightarrow> bool" where
  "claimed_by message worker x \<longleftrightarrow> o_message_id x = message \<and> o_status x = CLAIMED \<and> o_lease_owner x = Some worker"

definition deliver_row :: "time \<Rightarrow> 'a delivery_scheme \<Rightarrow> 'a delivery_scheme" where
  "deliver_row t x = x\<lparr>o_status := DELIVERED, o_lease_owner := None, o_lease_expires := None,
     o_delivered := Some t, o_last_error := None\<rparr>"

definition complete_delivery :: "time \<Rightarrow> uuid \<Rightarrow> uuid \<Rightarrow> 'a delivery_scheme list \<Rightarrow> 'a delivery_scheme list" where
  "complete_delivery t message worker rows = update_where (claimed_by message worker) (deliver_row t) rows"

definition retry_delay :: "(uuid \<Rightarrow> int) \<Rightarrow> 'a delivery_scheme \<Rightarrow> nat" where
  "retry_delay hash x =
     (if 20 \<le> o_attempts x then 300 else min 60 (2 ^ min (o_attempts x) 6))
     + nat (\<bar>hash (o_message_id x)\<bar> mod 5)"

definition requeue_row :: "(uuid \<Rightarrow> int) \<Rightarrow> time \<Rightarrow> string \<Rightarrow> 'a delivery_scheme \<Rightarrow> 'a delivery_scheme" where
  "requeue_row hash t code x = x\<lparr>o_status := if 20 \<le> o_attempts x then DEAD else PENDING,
     o_available := t + seconds (retry_delay hash x), o_lease_owner := None, o_lease_expires := None,
     o_last_error := Some code\<rparr>"

definition retry_delivery :: "(uuid \<Rightarrow> int) \<Rightarrow> time \<Rightarrow> uuid \<Rightarrow> uuid \<Rightarrow> string
    \<Rightarrow> 'a delivery_scheme list \<Rightarrow> 'a delivery_scheme list" where
  "retry_delivery hash t message worker code rows = update_where (claimed_by message worker) (requeue_row hash t code) rows"

section \<open>One delivery moves\<close>

inductive delivery_step :: "time \<Rightarrow> delivery \<Rightarrow> delivery \<Rightarrow> bool" for t where
  stay: "delivery_step t x x"
| claim: "deliverable t x \<Longrightarrow> delivery_step t x (claim_row t w x)"
| complete: "o_status x = CLAIMED \<Longrightarrow> delivery_step t x (deliver_row t x)"
| retry: "o_status x = CLAIMED \<Longrightarrow> delivery_step t x (requeue_row hash t code x)"

inductive_cases delivery_stepE: "delivery_step t x y"

text \<open>A row that no claim holds has no lease; a claimed one has.\<close>

definition delivery_ok :: "'a delivery_scheme \<Rightarrow> bool" where
  "delivery_ok x \<longleftrightarrow> (o_status x = CLAIMED \<longleftrightarrow> o_lease_owner x \<noteq> None)
     \<and> (o_status x = CLAIMED \<longleftrightarrow> o_lease_expires x \<noteq> None) \<and> (o_status x = CLAIMED \<longrightarrow> 1 \<le> o_attempts x)"

lemma delivery_step_ok: "delivery_step t x y \<Longrightarrow> delivery_ok x \<Longrightarrow> delivery_ok y"
  by (induction rule: delivery_step.induct)
    (auto simp: delivery_ok_def claim_row_def deliver_row_def requeue_row_def)

lemma delivery_step_id: "delivery_step t x y \<Longrightarrow> o_message_id y = o_message_id x \<and> o_created y = o_created x"
  by (induction rule: delivery_step.induct)
    (simp_all add: claim_row_def deliver_row_def requeue_row_def)

lemma delivered_not_deliverable: "o_status x = DELIVERED \<Longrightarrow> \<not> deliverable t x"
  by (simp add: deliverable_def)

lemma delivery_step_delivered: "delivery_step t x y \<Longrightarrow> o_status x = DELIVERED \<Longrightarrow> y = x"
  by (induction rule: delivery_step.induct) (auto simp: deliverable_def)

text \<open>While the lease of a claim runs, no other claim takes the row over.\<close>

lemma delivery_step_live:
  assumes "delivery_step t x y" "o_status x = CLAIMED" "gt_opt (o_lease_expires x) t"
  shows "y = x \<or> o_status y \<noteq> CLAIMED"
  using assms
  by (induction rule: delivery_step.induct)
    (auto simp: deliverable_def deliver_row_def requeue_row_def gt_opt_def le_opt_def split: option.splits)

lemma retry_delay_bounds:
  assumes "1 \<le> o_attempts x"
  shows "2 \<le> retry_delay hash x" "retry_delay hash x \<le> 304"
    "o_attempts x < 20 \<Longrightarrow> retry_delay hash x \<le> 64"
proof -
  have m: "nat (\<bar>hash (o_message_id x)\<bar> mod 5) \<le> 4" by simp
  have "(2::nat) ^ 1 \<le> 2 ^ min (o_attempts x) 6" using assms by (intro power_increasing) simp_all
  then have "2 \<le> (if 20 \<le> o_attempts x then 300 else min 60 ((2::nat) ^ min (o_attempts x) 6))" by simp
  then show "2 \<le> retry_delay hash x" unfolding retry_delay_def by (rule trans_le_add1)
  have "min 60 ((2::nat) ^ min (o_attempts x) 6) \<le> 60" by (rule min.cobounded1)
  with m have "min 60 ((2::nat) ^ min (o_attempts x) 6) + nat (\<bar>hash (o_message_id x)\<bar> mod 5) \<le> 64" by linarith
  with m show "retry_delay hash x \<le> 304" "o_attempts x < 20 \<Longrightarrow> retry_delay hash x \<le> 64"
    unfolding retry_delay_def by (auto simp del: nat_le_iff)
qed

text \<open>No delivery is stuck: whatever its state, a time comes from which on it may be claimed.\<close>

lemma deliverable_eventually:
  assumes "delivery_ok x" "o_status x \<noteq> DELIVERED"
  shows "deliverable (max (o_available x) (coalesce (o_lease_expires x) 0)) x"
  using assms by (cases "o_status x"; cases "o_lease_expires x") (auto simp: deliverable_def delivery_ok_def)

section \<open>The statements move rows along \<open>delivery_step\<close>\<close>

abbreviation rows_step :: "time \<Rightarrow> 'a delivery_scheme list \<Rightarrow> 'b delivery_scheme list \<Rightarrow> bool" where
  "rows_step t xs ys \<equiv> rows_evolve (delivery_step t) (map delivery.truncate xs) (map delivery.truncate ys)"

lemma truncate_simps [simp]:
  "delivery.truncate (claim_row t w x) = claim_row t w (delivery.truncate x)"
  "delivery.truncate (deliver_row t x) = deliver_row t (delivery.truncate x)"
  "delivery.truncate (requeue_row hash t code x) = requeue_row hash t code (delivery.truncate x)"
  "deliverable t (delivery.truncate x) = deliverable t x"
  "o_status (delivery.truncate x) = o_status x" "o_message_id (delivery.truncate x) = o_message_id x"
  "o_lease_owner (delivery.truncate x) = o_lease_owner x" "o_lease_expires (delivery.truncate x) = o_lease_expires x"
  "o_attempts (delivery.truncate x) = o_attempts x" "o_available (delivery.truncate x) = o_available x"
  by (cases x; simp add: delivery.defs claim_row_def deliver_row_def requeue_row_def retry_delay_def deliverable_def)+

lemma rows_step_update:
  assumes "\<And>x. x \<in> set rows \<Longrightarrow> P x \<Longrightarrow> delivery_step t (delivery.truncate x) (delivery.truncate (f x))"
  shows "rows_step t rows (update_where P f rows)"
proof -
  have "list_all2 (delivery_step t) (map delivery.truncate rows) (map delivery.truncate (update_where P f rows))"
    unfolding update_where_def map_map list_all2_map1 list_all2_map2
    using assms by (auto intro: list.rel_refl_strong delivery_step.stay)
  then show ?thesis unfolding rows_evolve_def
    by (intro exI [of _ "map delivery.truncate (update_where P f rows)"] exI [of _ "[]"]) simp
qed

lemma rows_step_append: "rows_step t xs (xs @ new)"
  unfolding map_append by (rule rows_evolve_append) (rule delivery_step.stay)

lemma claim_delivery_moves:
  assumes "claim_delivery t locked w rows = (r, rows')" "distinct (map o_message_id rows)"
  shows "rows_step t rows rows'"
proof (cases "first_by (\<lambda>x. (o_available x, o_created x, o_message_id x))
         (\<lambda>x. deliverable t x \<and> \<not> locked (o_message_id x)) rows")
  case None
  with assms show ?thesis by (simp add: claim_delivery_def rows_evolve_refl delivery_step.stay)
next
  case (Some c)
  with assms(1) have rows': "rows' = update_where (\<lambda>x. o_message_id x = o_message_id c) (claim_row t w) rows"
    by (simp add: claim_delivery_def)
  from first_by_Some [OF Some] have c: "c \<in> set rows" "deliverable t c" by blast+
  show ?thesis
    unfolding rows'
  proof (rule rows_step_update)
    fix x assume "x \<in> set rows" "o_message_id x = o_message_id c"
    with c assms(2) have "x = c" by (metis distinct_key_unique)
    with c show "delivery_step t (delivery.truncate x) (delivery.truncate (claim_row t w x))"
      by (simp add: delivery_step.claim)
  qed
qed

lemma complete_delivery_moves: "rows_step t rows (complete_delivery t m w rows)"
  unfolding complete_delivery_def
  by (rule rows_step_update) (simp add: claimed_by_def delivery_step.complete)

lemma retry_delivery_moves: "rows_step t rows (retry_delivery hash t m w code rows)"
  unfolding retry_delivery_def
  by (rule rows_step_update) (simp add: claimed_by_def delivery_step.retry)

section \<open>Stores with an outbox\<close>

text \<open>
  What a store must give for the guarantees of its outbox: each of its operations, at the time it runs,
  moves the rows along \<open>delivery_step\<close> and may append new ones.
\<close>

locale outbox_store =
  fixes queue :: "'s \<Rightarrow> delivery list"
    and tick :: "time \<Rightarrow> 's \<Rightarrow> 's \<Rightarrow> bool"
  assumes moves: "tick t s s' \<Longrightarrow> rows_evolve (delivery_step t) (queue s) (queue s')"
begin

inductive later :: "'s \<Rightarrow> 's \<Rightarrow> bool" where
  now: "later s s"
| tick: "later s s' \<Longrightarrow> tick t s' s'' \<Longrightarrow> later s s''"

lemma tick_row:
  assumes "tick t s s'" "x \<in> set (queue s)"
  obtains y where "y \<in> set (queue s')" "delivery_step t x y"
  using moves [OF assms(1)] assms(2) by (rule rows_evolve_row)

lemma delivered_is_final:
  assumes "later s s'" "x \<in> set (queue s)" "o_status x = DELIVERED"
  shows "x \<in> set (queue s')"
  using assms
proof (induction rule: later.induct)
  case (tick s s' t s'')
  then obtain y where "y \<in> set (queue s'')" "delivery_step t x y" by (blast elim: tick_row)
  with tick.prems show ?case by (metis delivery_step_delivered)
qed simp

lemma never_lost:
  assumes "later s s'" "x \<in> set (queue s)"
  obtains y where "y \<in> set (queue s')" "o_message_id y = o_message_id x"
  using assms
proof (induction arbitrary: thesis rule: later.induct)
  case (tick s s' t s'')
  then obtain y where y: "y \<in> set (queue s')" "o_message_id y = o_message_id x" by blast
  from tick.hyps(2) y(1) obtain z where "z \<in> set (queue s'')" "delivery_step t y z" by (rule tick_row)
  with y tick.prems(1) show ?case by (metis delivery_step_id)
qed simp

lemma live_claim_is_exclusive:
  assumes "tick t s s'" "x \<in> set (queue s)" "o_status x = CLAIMED" "gt_opt (o_lease_expires x) t"
  obtains y where "y \<in> set (queue s')" "o_message_id y = o_message_id x" "y = x \<or> o_status y \<noteq> CLAIMED"
proof -
  from assms(1,2) obtain y where y: "y \<in> set (queue s')" "delivery_step t x y" by (rule tick_row)
  with that show thesis using delivery_step_live [OF y(2) assms(3,4)] delivery_step_id [OF y(2)] by blast
qed

lemma ok_is_kept:
  assumes "tick t s s'" "\<forall>x \<in> set (queue s). delivery_ok x"
    and "\<forall>y \<in> set (drop (length (queue s)) (queue s')). delivery_ok y"
  shows "\<forall>y \<in> set (queue s'). delivery_ok y"
proof -
  from moves [OF assms(1)] obtain old new where q: "queue s' = old @ new"
    and all2: "list_all2 (delivery_step t) (queue s) old" by (auto simp: rows_evolve_def)
  from all2 have "length (queue s) = length old" by (rule list_all2_lengthD)
  with q assms(3) have "\<forall>y \<in> set new. delivery_ok y" by simp
  moreover have "\<forall>y \<in> set old. delivery_ok y"
    using all2 assms(2) delivery_step_ok
    by (induction rule: list_all2_induct) auto
  ultimately show ?thesis using q by auto
qed

end

end
