(* ===== verification/Site_Schema.thy ===== *)
theory Site_Schema
  imports Outbox
begin

text \<open>
  The state of the site clone workflow: the rows of the five \<open>site_reconstruction_*\<close> tables of
  \<open>capture-worker/migrations/postgresql/004_create_site_reconstruction.sql\<close> (with the columns that
  \<open>005_bound_site_reconstruction_phases.sql\<close> adds), their CHECK and UNIQUE constraints, and the
  claims that \<open>capture-worker/src/site-database.ts\<close> hands to its workers.

  Column types: \<open>uuid\<close> and the \<open>integer\<close>/\<open>bigint\<close> columns, which every CHECK keeps non-negative,
  are natural numbers; \<open>text\<close> and \<open>bytea\<close> are strings of bytes, so \<open>octet_length\<close> is \<open>length\<close>;
  a nullable column is an option.
\<close>

type_synonym digest = string

datatype job_status =
  INGESTING | RUNNING | ASSEMBLING | CANCEL_REQUESTED
| PUBLISHED | PARTIAL | FAILED | CANCELLED | EXPIRED

datatype page_status = P_QUEUED | P_RENDERING | P_SUCCEEDED | P_FAILED | P_CANCELLED

text \<open>The two statuses a target may be added with.\<close>

datatype target_status = T_QUEUED | T_CANCELLED

datatype bundle_state = B_AVAILABLE | B_DELETE_PENDING | B_DELETED

datatype artifact_kind = ARCHIVE_SHARD | MANIFEST

datatype artifact_state = A_STAGED | A_PUBLISHED | A_DELETE_PENDING | A_DELETED

datatype inbox_outcome = APPLIED | IGNORED_TERMINAL

text \<open>The limits of a clone request, which the command carries and the job row stores.\<close>

record job_policy =
  maxPages :: nat
  maxInputBytes :: nat
  maxArchiveBytes :: nat
  maxShardBytes :: nat
  pageConcurrency :: nat
  maxRetriesPerPage :: nat
  maxDurationSeconds :: nat
  archiveRetentionDays :: nat
  metadataRetentionDays :: nat
  sameOriginOnly :: bool

record job_row =
  j_id :: uuid
  j_command_message_id :: uuid
  j_command_sha :: digest
  j_owner :: uuid
  j_scan :: uuid
  j_corr :: uuid
  j_command_version :: nat
  j_root_url :: string
  j_status :: job_status
  j_policy :: job_policy
  j_discovered :: nat
  j_processed :: nat
  j_succeeded :: nat
  j_failed :: nat
  j_input_bytes :: nat
  j_archive_bytes :: nat
  j_artifact_count :: nat
  j_event_version :: nat
  j_lease_owner :: "uuid option"
  j_lease_gen :: nat
  j_lease_expires :: "time option"
  j_phase_attempts :: nat
  j_phase_available :: time
  j_terminal_code :: "string option"
  j_terminal_message :: "string option"
  j_ingestion_finished :: "time option"
  j_cancel_requested :: "time option"
  j_created :: time
  j_started :: "time option"
  j_finished :: "time option"
  j_updated :: time

record page_row =
  p_job :: uuid
  p_page :: uuid
  p_ordinal :: nat
  p_public_url :: string
  p_url_sha :: digest
  p_local_path :: string
  p_status :: page_status
  p_attempts :: nat
  p_available :: time
  p_lease_owner :: "uuid option"
  p_lease_gen :: nat
  p_lease_expires :: "time option"
  p_bundle_bucket :: "string option"
  p_bundle_key :: "string option"
  p_bundle_bytes :: "nat option"
  p_bundle_sha :: "digest option"
  p_bundle_state :: "bundle_state option"
  p_bundle_delete_after :: "time option"
  p_input_bytes :: nat
  p_failure_code :: "string option"
  p_created :: time
  p_started :: "time option"
  p_finished :: "time option"
  p_updated :: time

record artifact_row =
  a_id :: uuid
  a_owner :: uuid
  a_job :: uuid
  a_kind :: artifact_kind
  a_generation :: nat
  a_shard :: nat
  a_filename :: string
  a_bucket :: string
  a_key :: string
  a_content_type :: string
  a_bytes :: nat
  a_sha :: digest
  a_state :: artifact_state
  a_created :: time
  a_published :: "time option"
  a_delete_after :: time
  a_deleted :: "time option"

record inbox_row =
  i_message_id :: uuid
  i_sha :: digest
  i_outcome :: inbox_outcome
  i_processed :: time

text \<open>The payload of \<open>SITE_CLONE_PROGRESS\<close>, the event the worker reports to the control plane.\<close>

record progress_event =
  ev_message_id :: uuid
  ev_job :: uuid
  ev_version :: nat
  ev_corr :: uuid
  ev_occurred_at :: time
  ev_owner :: uuid
  ev_status :: job_status
  ev_discovered :: nat
  ev_processed :: nat
  ev_succeeded :: nat
  ev_failed :: nat
  ev_artifact_count :: nat
  ev_archive_bytes :: nat
  ev_terminal_code :: "string option"
  ev_terminal_message :: "string option"

record outbox_row = delivery +
  o_job :: uuid
  o_version :: nat
  o_corr :: uuid
  o_payload :: progress_event

record site_db =
  jobs :: "job_row list"
  pages :: "page_row list"
  artifacts :: "artifact_row list"
  inbox :: "inbox_row list"
  outbox :: "outbox_row list"

section \<open>Row constraints\<close>

definition terminal :: "job_status \<Rightarrow> bool" where
  "terminal s \<longleftrightarrow> s \<in> {PUBLISHED, PARTIAL, FAILED, CANCELLED, EXPIRED}"

definition policy_check :: "job_policy \<Rightarrow> bool" where
  "policy_check q \<longleftrightarrow>
     1 \<le> maxPages q \<and> maxPages q \<le> 100000
   \<and> 1 \<le> maxInputBytes q \<and> maxInputBytes q \<le> 214748364800
   \<and> 1 \<le> maxArchiveBytes q \<and> maxArchiveBytes q \<le> 53687091200
   \<and> 1048576 \<le> maxShardBytes q \<and> maxShardBytes q \<le> 2147483648
   \<and> 1 \<le> pageConcurrency q \<and> pageConcurrency q \<le> 32
   \<and> 1 \<le> maxRetriesPerPage q \<and> maxRetriesPerPage q \<le> 3
   \<and> 1 \<le> archiveRetentionDays q \<and> archiveRetentionDays q \<le> 30
   \<and> archiveRetentionDays q \<le> metadataRetentionDays q \<and> metadataRetentionDays q \<le> 365
   \<and> sameOriginOnly q"

definition phase_lease_check :: "job_row \<Rightarrow> bool" where
  "phase_lease_check j \<longleftrightarrow>
     (j_lease_owner j = None \<and> j_lease_expires j = None)
   \<or> (j_status j \<in> {INGESTING, ASSEMBLING} \<and> j_lease_owner j \<noteq> None \<and> j_lease_expires j \<noteq> None)"

definition counts_check :: "job_row \<Rightarrow> bool" where
  "counts_check j \<longleftrightarrow>
     j_discovered j \<le> maxPages (j_policy j)
   \<and> j_processed j \<le> j_discovered j
   \<and> j_succeeded j + j_failed j = j_processed j
   \<and> j_input_bytes j \<le> maxInputBytes (j_policy j)
   \<and> j_archive_bytes j \<le> maxArchiveBytes (j_policy j)
   \<and> j_artifact_count j \<le> 100000"

definition lifecycle_check :: "job_row \<Rightarrow> bool" where
  "lifecycle_check j \<longleftrightarrow> terminal (j_status j) = (j_finished j \<noteq> None)"

definition job_time_check :: "job_row \<Rightarrow> bool" where
  "job_time_check j \<longleftrightarrow>
     j_created j \<le> j_updated j
   \<and> all_opt (\<lambda>t. j_created j \<le> t) (j_started j)
   \<and> all_opt (\<lambda>t. j_created j \<le> t) (j_finished j)
   \<and> all_opt (\<lambda>t. j_created j \<le> t) (j_ingestion_finished j)
   \<and> all_opt (\<lambda>t. j_created j \<le> t) (j_cancel_requested j)"

definition phase_attempt_check :: "job_row \<Rightarrow> bool" where
  "phase_attempt_check j \<longleftrightarrow> j_phase_attempts j \<le> 3
     \<and> 60 \<le> maxDurationSeconds (j_policy j) \<and> maxDurationSeconds (j_policy j) \<le> 604800"

definition job_check :: "job_row \<Rightarrow> bool" where
  "job_check j \<longleftrightarrow> length (j_command_sha j) = 32 \<and> phase_lease_check j \<and> policy_check (j_policy j)
     \<and> counts_check j \<and> lifecycle_check j \<and> job_time_check j \<and> phase_attempt_check j"

definition blank :: "string \<Rightarrow> bool" where
  "blank s \<longleftrightarrow> list_all (\<lambda>c. c = CHR '' '') s"

definition page_text_check :: "page_row \<Rightarrow> bool" where
  "page_text_check p \<longleftrightarrow>
     \<not> blank (p_public_url p) \<and> length (p_public_url p) \<le> 8192
   \<and> length (p_url_sha p) = 32
   \<and> \<not> blank (p_local_path p) \<and> length (p_local_path p) \<le> 512"

definition page_lease_check :: "page_row \<Rightarrow> bool" where
  "page_lease_check p \<longleftrightarrow>
     (p_status p = P_RENDERING) = (p_lease_owner p \<noteq> None)
   \<and> (p_status p = P_RENDERING) = (p_lease_expires p \<noteq> None)"

definition bundle_check :: "page_row \<Rightarrow> bool" where
  "bundle_check p \<longleftrightarrow>
     (if p_status p = P_SUCCEEDED
      then p_bundle_bucket p \<noteq> None \<and> p_bundle_key p \<noteq> None
         \<and> (\<exists>b \<in> set_option (p_bundle_bytes p). 0 < b)
         \<and> (\<exists>h \<in> set_option (p_bundle_sha p). length h = 32) \<and> 0 < p_input_bytes p
         \<and> p_bundle_state p \<noteq> None \<and> p_bundle_delete_after p \<noteq> None
      else p_bundle_bucket p = None \<and> p_bundle_key p = None
         \<and> p_bundle_bytes p = None \<and> p_bundle_sha p = None
         \<and> p_bundle_state p = None \<and> p_bundle_delete_after p = None)"

definition page_terminal_check :: "page_row \<Rightarrow> bool" where
  "page_terminal_check p \<longleftrightarrow>
     (p_status p \<in> {P_SUCCEEDED, P_FAILED, P_CANCELLED}) = (p_finished p \<noteq> None)"

definition page_time_check :: "page_row \<Rightarrow> bool" where
  "page_time_check p \<longleftrightarrow>
     p_created p \<le> p_updated p
   \<and> all_opt (\<lambda>t. p_created p \<le> t) (p_started p)
   \<and> all_opt (\<lambda>t. p_created p \<le> t) (p_finished p)"

definition page_check :: "page_row \<Rightarrow> bool" where
  "page_check p \<longleftrightarrow> p_attempts p \<le> 3 \<and> page_text_check p \<and> page_lease_check p
     \<and> bundle_check p \<and> page_terminal_check p \<and> page_time_check p"

definition artifact_check :: "artifact_row \<Rightarrow> bool" where
  "artifact_check a \<longleftrightarrow>
     (case a_kind a of
        ARCHIVE_SHARD \<Rightarrow> a_content_type a = ''application/zip'' \<and> 1 \<le> a_shard a
      | MANIFEST \<Rightarrow> a_content_type a = ''application/json'' \<and> a_shard a = 0)
   \<and> 1 \<le> a_generation a
   \<and> 1 \<le> length (a_filename a) \<and> length (a_filename a) \<le> 128
   \<and> 1 \<le> a_bytes a \<and> a_bytes a \<le> 2147483648
   \<and> length (a_sha a) = 32
   \<and> (case a_state a of
        A_STAGED \<Rightarrow> a_published a = None \<and> a_deleted a = None
      | A_PUBLISHED \<Rightarrow> a_published a \<noteq> None \<and> a_deleted a = None
      | A_DELETE_PENDING \<Rightarrow> a_published a \<noteq> None \<and> a_deleted a = None
      | A_DELETED \<Rightarrow> a_deleted a \<noteq> None)
   \<and> a_created a < a_delete_after a
   \<and> all_opt (\<lambda>t. a_created a \<le> t) (a_published a)
   \<and> all_opt (\<lambda>t. a_created a \<le> t) (a_deleted a)"

definition inbox_check :: "inbox_row \<Rightarrow> bool" where
  "inbox_check i \<longleftrightarrow> length (i_sha i) = 32"

section \<open>Keys\<close>

abbreviation page_key :: "page_row \<Rightarrow> uuid \<times> uuid" where
  "page_key p \<equiv> (p_job p, p_page p)"

abbreviation shard_key :: "artifact_row \<Rightarrow> uuid \<times> nat \<times> artifact_kind \<times> nat" where
  "shard_key a \<equiv> (a_job a, a_generation a, a_kind a, a_shard a)"

definition jobs_unique :: "job_row list \<Rightarrow> bool" where
  "jobs_unique js \<longleftrightarrow> distinct (map j_id js) \<and> distinct (map j_command_message_id js)
     \<and> distinct (map j_scan js)"

definition pages_unique :: "page_row list \<Rightarrow> bool" where
  "pages_unique ps \<longleftrightarrow> distinct (map page_key ps)
     \<and> distinct (map (\<lambda>p. (p_job p, p_ordinal p)) ps)
     \<and> distinct (map (\<lambda>p. (p_job p, p_url_sha p)) ps)
     \<and> distinct (map (\<lambda>p. (p_job p, p_local_path p)) ps)"

definition artifacts_unique :: "artifact_row list \<Rightarrow> bool" where
  "artifacts_unique xs \<longleftrightarrow> distinct (map a_id xs) \<and> distinct (map a_key xs) \<and> distinct (map shard_key xs)"

definition outbox_unique :: "outbox_row list \<Rightarrow> bool" where
  "outbox_unique os \<longleftrightarrow> distinct (map o_message_id os) \<and> distinct (map (\<lambda>e. (o_job e, o_version e)) os)"

text \<open>Every row refers to a job, and an artifact to a job of its owner.\<close>

definition references_ok :: "site_db \<Rightarrow> bool" where
  "references_ok d \<longleftrightarrow>
     (\<forall>p \<in> set (pages d). p_job p \<in> j_id ` set (jobs d))
   \<and> (\<forall>a \<in> set (artifacts d). (a_job a, a_owner a) \<in> (\<lambda>j. (j_id j, j_owner j)) ` set (jobs d))
   \<and> (\<forall>e \<in> set (outbox d). o_job e \<in> j_id ` set (jobs d))"

definition rows_ok :: "site_db \<Rightarrow> bool" where
  "rows_ok d \<longleftrightarrow> list_all job_check (jobs d) \<and> list_all page_check (pages d)
     \<and> list_all artifact_check (artifacts d) \<and> list_all inbox_check (inbox d)"

definition keys_ok :: "site_db \<Rightarrow> bool" where
  "keys_ok d \<longleftrightarrow> jobs_unique (jobs d) \<and> pages_unique (pages d) \<and> artifacts_unique (artifacts d)
     \<and> distinct (map i_message_id (inbox d)) \<and> outbox_unique (outbox d)"

definition schema_ok :: "site_db \<Rightarrow> bool" where
  "schema_ok d \<longleftrightarrow> rows_ok d \<and> keys_ok d \<and> references_ok d"

section \<open>Errors and transactions\<close>

datatype site_error =
  MESSAGE_ID_COLLISION
| SITE_JOB_NOT_FOUND
| STALE_SITE_INGESTION_LEASE
| STALE_SITE_PAGE_LEASE
| STALE_SITE_ASSEMBLY_LEASE
| STALE_SITE_GC_CLAIM
| SITE_PAGE_LIMIT_EXCEEDED
| SITE_ARTIFACTS_EMPTY
| SITE_ARCHIVE_BUDGET_EXCEEDED
| SITE_ARTIFACT_STAGE_MISMATCH
| INVALID_SITE_PROGRESS_FILTER
| CONSTRAINT_VIOLATION

text \<open>
  An operation maps the store to an error, in which case the transaction rolls back and the store
  stays as it was, or to a result and the committed store. The server refuses a statement that
  violates a constraint, which the sources see as a thrown error.
\<close>

type_synonym 'a txn = "site_db \<Rightarrow> site_error + ('a \<times> site_db)"

definition commit :: "'a \<Rightarrow> site_db \<Rightarrow> site_error + ('a \<times> site_db)" where
  "commit r d = (if schema_ok d then Inr (r, d) else Inl CONSTRAINT_VIOLATION)"

definition db_after :: "site_db \<Rightarrow> site_error + ('a \<times> site_db) \<Rightarrow> site_db" where
  "db_after d r = (case r of Inl _ \<Rightarrow> d | Inr (_, d') \<Rightarrow> d')"

lemma commit_eq_Inr [simp]: "(commit r d = Inr (x, d')) = (schema_ok d \<and> x = r \<and> d' = d)"
  by (auto simp: commit_def)

lemma commit_eq_Inl [simp]: "(commit r d = Inl e) = (\<not> schema_ok d \<and> e = CONSTRAINT_VIOLATION)"
  by (auto simp: commit_def)

lemma db_after_simps [simp]: "db_after d (Inl e) = d" "db_after d (Inr (x, d')) = d'"
  by (simp_all add: db_after_def)

lemmas job_check_defs = job_check_def phase_lease_check_def policy_check_def counts_check_def
  lifecycle_check_def job_time_check_def phase_attempt_check_def

lemmas page_check_defs = page_check_def page_text_check_def page_lease_check_def bundle_check_def
  page_terminal_check_def page_time_check_def

declare terminal_def [simp]

section \<open>Claims handed to workers\<close>

record claimed_phase =
  cj_id :: uuid
  cj_owner :: uuid
  cj_scan :: uuid
  cj_corr :: uuid
  cj_root_url :: string
  cj_policy :: job_policy
  cj_lease_owner :: uuid
  cj_lease_gen :: nat
  cj_attempts :: nat

record claimed_page =
  cp_job :: uuid
  cp_owner :: uuid
  cp_scan :: uuid
  cp_corr :: uuid
  cp_root_url :: string
  cp_page :: uuid
  cp_public_url :: string
  cp_local_path :: string
  cp_lease_owner :: uuid
  cp_lease_gen :: nat
  cp_attempts :: nat
  cp_max_retries :: nat

record stored_object =
  so_bucket :: string
  so_key :: string
  so_bytes :: nat
  so_sha :: digest
  so_content_type :: string

record site_target =
  st_page :: uuid
  st_ordinal :: nat
  st_public_url :: string
  st_url_sha :: digest
  st_local_path :: string
  st_status :: "target_status option"
  st_failure_code :: "string option"

record artifact_input =
  ai_kind :: artifact_kind
  ai_shard :: nat
  ai_filename :: string
  ai_object :: stored_object

end
