(* ===== verification/Site_Commands.thy ===== *)
theory Site_Commands
  imports Site_Schema
begin

text \<open>
  \<open>SiteCloneDatabase\<close>: accepting commands (\<open>acceptCommand\<close>, \<open>acceptRequested\<close>,
  \<open>acceptCancellation\<close>), reporting progress events (\<open>enqueueEvent\<close>) and keeping the counters of a
  job (\<open>incrementJob\<close>, \<open>refreshJobCounters\<close>).

  What a transaction reads from its surroundings is an \<open>env\<close>: \<open>now\<close> is the transaction timestamp of
  the database, \<open>clock\<close> is \<open>clock_timestamp()\<close>, \<open>wall\<close> the worker's \<open>Date\<close>, \<open>event_uuid\<close> the
  \<open>randomUUID()\<close> drawn for the event of a job at a version (each pair is drawn at most once),
  \<open>artifact_uuid\<close> the one drawn for a staged shard, and \<open>locked_*\<close> are the rows some other
  transaction holds, which \<open>for update skip locked\<close> passes over.
\<close>

record env =
  now :: time
  clock :: time
  wall :: time
  event_uuid :: "uuid \<Rightarrow> nat \<Rightarrow> uuid"
  artifact_uuid :: "artifact_kind \<Rightarrow> nat \<Rightarrow> uuid"
  locked_job :: "uuid \<Rightarrow> bool"
  locked_page :: "uuid \<times> uuid \<Rightarrow> bool"
  locked_event :: "uuid \<Rightarrow> bool"
  locked_artifact :: "uuid \<Rightarrow> bool"

definition find_job :: "uuid \<Rightarrow> site_db \<Rightarrow> job_row option" where
  "find_job i d = find (\<lambda>j. j_id j = i) (jobs d)"

definition update_job :: "uuid \<Rightarrow> (job_row \<Rightarrow> job_row) \<Rightarrow> site_db \<Rightarrow> site_db" where
  "update_job i f d = d\<lparr>jobs := update_where (\<lambda>j. j_id j = i) f (jobs d)\<rparr>"

section \<open>Events and counters\<close>

definition progress_payload :: "env \<Rightarrow> job_status \<Rightarrow> job_row \<Rightarrow> progress_event" where
  "progress_payload e status row =
    \<lparr> ev_message_id = event_uuid e (j_id row) (j_event_version row),
      ev_job = j_id row,
      ev_version = j_event_version row,
      ev_corr = j_corr row,
      ev_occurred_at = wall e,
      ev_owner = j_owner row,
      ev_status = status,
      ev_discovered = j_discovered row,
      ev_processed = j_processed row,
      ev_succeeded = j_succeeded row,
      ev_failed = j_failed row,
      ev_artifact_count = j_artifact_count row,
      ev_archive_bytes = j_archive_bytes row,
      ev_terminal_code = j_terminal_code row,
      ev_terminal_message = j_terminal_message row \<rparr>"

definition pending_event :: "env \<Rightarrow> job_status \<Rightarrow> job_row \<Rightarrow> outbox_row" where
  "pending_event e status row =
    \<lparr> o_message_id = event_uuid e (j_id row) (j_event_version row),
      o_status = PENDING,
      o_available = now e,
      o_attempts = 0,
      o_lease_owner = None,
      o_lease_expires = None,
      o_delivered = None,
      o_last_error = None,
      o_created = now e,
      o_job = j_id row,
      o_version = j_event_version row,
      o_corr = j_corr row,
      o_payload = progress_payload e status row \<rparr>"

definition enqueueEvent :: "env \<Rightarrow> uuid \<Rightarrow> job_status \<Rightarrow> site_db \<Rightarrow> site_error + site_db" where
  "enqueueEvent e jobId status d =
     (let d' = update_job jobId (\<lambda>j. j\<lparr>j_event_version := j_event_version j + 1, j_updated := now e\<rparr>) d
      in case find_job jobId d' of
           None \<Rightarrow> Inl SITE_JOB_NOT_FOUND
         | Some row \<Rightarrow> Inr (d'\<lparr>outbox := outbox d' @ [pending_event e status row]\<rparr>))"

definition of_job :: "uuid \<Rightarrow> page_row \<Rightarrow> bool" where
  "of_job jobId p \<longleftrightarrow> p_job p = jobId"

definition page_count :: "uuid \<Rightarrow> page_status \<Rightarrow> site_db \<Rightarrow> nat" where
  "page_count jobId s d = count_where (\<lambda>p. p_job p = jobId \<and> p_status p = s) (pages d)"

definition succeeded_bytes :: "uuid \<Rightarrow> site_db \<Rightarrow> nat" where
  "succeeded_bytes jobId d =
     sum_where (\<lambda>p. p_job p = jobId \<and> p_status p = P_SUCCEEDED) p_input_bytes (pages d)"

definition total_pages :: "uuid \<Rightarrow> site_db \<Rightarrow> nat" where
  "total_pages jobId d = count_where (\<lambda>p. p_job p = jobId) (pages d)"

definition incrementJob :: "env \<Rightarrow> uuid \<Rightarrow> bool \<Rightarrow> nat \<Rightarrow> site_db \<Rightarrow> site_error + site_db" where
  "incrementJob e jobId ok inputBytes d =
     (let d' = update_job jobId (\<lambda>j. j\<lparr>
            j_processed := j_processed j + 1,
            j_succeeded := j_succeeded j + (if ok then 1 else 0),
            j_failed := j_failed j + (if ok then 0 else 1),
            j_input_bytes := j_input_bytes j + inputBytes,
            j_updated := now e\<rparr>) d;
          processed = (case find_job jobId d' of None \<Rightarrow> 0 | Some j \<Rightarrow> j_processed j)
      in if 0 < processed \<and> processed mod 100 = 0 then enqueueEvent e jobId RUNNING d' else Inr d')"

definition refreshJobCounters :: "env \<Rightarrow> uuid \<Rightarrow> site_db \<Rightarrow> site_db" where
  "refreshJobCounters e jobId d = update_job jobId (\<lambda>j. j\<lparr>
       j_processed := count_where (\<lambda>p. p_job p = jobId \<and> p_status p \<in> {P_SUCCEEDED, P_FAILED}) (pages d),
       j_succeeded := page_count jobId P_SUCCEEDED d,
       j_failed := page_count jobId P_FAILED d,
       j_input_bytes := succeeded_bytes jobId d,
       j_updated := now e\<rparr>) d"

section \<open>Commands\<close>

record site_requested =
  rq_message_id :: uuid
  rq_aggregate_version :: nat
  rq_corr :: uuid
  rq_occurred_at :: string
  rq_site_clone_id :: uuid
  rq_owner :: uuid
  rq_scan :: uuid
  rq_root_url :: string
  rq_policy :: job_policy

record site_cancel =
  cn_message_id :: uuid
  cn_aggregate_id :: uuid
  cn_aggregate_version :: nat
  cn_corr :: uuid
  cn_occurred_at :: string
  cn_owner :: uuid
  cn_requested_at :: string

datatype site_command = Requested site_requested | CancelRequested site_cancel

text \<open>
  The digest of a command, \<open>sha256(JSON.stringify(envelope))\<close>, is a parameter: the hash is the
  platform's.
\<close>

definition new_job :: "env \<Rightarrow> digest \<Rightarrow> site_requested \<Rightarrow> job_row" where
  "new_job e hash r =
    \<lparr> j_id = rq_site_clone_id r, j_command_message_id = rq_message_id r, j_command_sha = hash,
      j_owner = rq_owner r, j_scan = rq_scan r, j_corr = rq_corr r,
      j_command_version = rq_aggregate_version r, j_root_url = rq_root_url r, j_status = INGESTING,
      j_policy = rq_policy r, j_discovered = 0, j_processed = 0, j_succeeded = 0, j_failed = 0,
      j_input_bytes = 0, j_archive_bytes = 0, j_artifact_count = 0, j_event_version = 0,
      j_lease_owner = None, j_lease_gen = 0, j_lease_expires = None,
      j_phase_attempts = 0, j_phase_available = now e,
      j_terminal_code = None, j_terminal_message = None, j_ingestion_finished = None,
      j_cancel_requested = None, j_created = now e, j_started = None, j_finished = None,
      j_updated = now e \<rparr>"

definition acceptRequested :: "(site_command \<Rightarrow> digest) \<Rightarrow> env \<Rightarrow> site_requested \<Rightarrow> bool txn" where
  "acceptRequested sha e r d =
     (let hash = sha (Requested r)
      in case find (\<lambda>j. j_command_message_id j = rq_message_id r) (jobs d) of
           Some existing \<Rightarrow>
             if j_command_sha existing \<noteq> hash then Inl MESSAGE_ID_COLLISION else Inr (True, d)
         | None \<Rightarrow> commit False (d\<lparr>jobs := jobs d @ [new_job e hash r]\<rparr>))"

definition acceptCancellation :: "(site_command \<Rightarrow> digest) \<Rightarrow> env \<Rightarrow> site_cancel \<Rightarrow> bool txn" where
  "acceptCancellation sha e c d =
     (let hash = sha (CancelRequested c)
      in case find (\<lambda>i. i_message_id i = cn_message_id c) (inbox d) of
           Some existing \<Rightarrow>
             if i_sha existing \<noteq> hash then Inl MESSAGE_ID_COLLISION else Inr (True, d)
         | None \<Rightarrow>
             (case find (\<lambda>j. j_id j = cn_aggregate_id c \<and> j_owner j = cn_owner c) (jobs d) of
                None \<Rightarrow> Inl SITE_JOB_NOT_FOUND
              | Some job \<Rightarrow>
                  (let is_terminal = terminal (j_status job);
                       d1 = (if is_terminal then d
                             else update_job (cn_aggregate_id c) (\<lambda>j. j\<lparr>
                                    j_status := CANCEL_REQUESTED, j_lease_owner := None,
                                    j_lease_expires := None, j_cancel_requested := Some (now e),
                                    j_updated := now e\<rparr>) d)
                   in commit False (d1\<lparr>inbox := inbox d1 @ [\<lparr>
                        i_message_id = cn_message_id c, i_sha = hash,
                        i_outcome = (if is_terminal then IGNORED_TERMINAL else APPLIED),
                        i_processed = now e\<rparr>]\<rparr>))))"

fun acceptCommand :: "(site_command \<Rightarrow> digest) \<Rightarrow> env \<Rightarrow> site_command \<Rightarrow> bool txn" where
  "acceptCommand sha e (Requested r) d = acceptRequested sha e r d"
| "acceptCommand sha e (CancelRequested c) d = acceptCancellation sha e c d"

end
