(* ===== verification/Site_Pages.thy ===== *)
theory Site_Pages
  imports Site_Commands
begin

text \<open>
  \<open>SiteCloneDatabase\<close>, the page queue: adding targets during ingestion (\<open>addTargets\<close>), admitting
  pages to rendering (\<open>claimPage\<close>, which first reclaims expired leases), keeping a lease
  (\<open>extendPageLease\<close>) and ending it (\<open>completePage\<close>, \<open>failPage\<close>).
\<close>

section \<open>Targets\<close>

definition holds_ingestion :: "env \<Rightarrow> claimed_phase \<Rightarrow> job_row \<Rightarrow> bool" where
  "holds_ingestion e t j \<longleftrightarrow> j_id j = cj_id t \<and> j_status j = INGESTING
     \<and> j_lease_owner j = Some (cj_lease_owner t) \<and> j_lease_gen j = cj_lease_gen t
     \<and> gt_opt (j_lease_expires j) (now e)"

definition target_row :: "env \<Rightarrow> uuid \<Rightarrow> site_target \<Rightarrow> page_row" where
  "target_row e jobId t =
     (let s = coalesce (st_status t) T_QUEUED
      in \<lparr> p_job = jobId, p_page = st_page t, p_ordinal = st_ordinal t,
           p_public_url = st_public_url t, p_url_sha = st_url_sha t, p_local_path = st_local_path t,
           p_status = (case s of T_QUEUED \<Rightarrow> P_QUEUED | T_CANCELLED \<Rightarrow> P_CANCELLED),
           p_attempts = 0, p_available = now e,
           p_lease_owner = None, p_lease_gen = 0, p_lease_expires = None,
           p_bundle_bucket = None, p_bundle_key = None, p_bundle_bytes = None, p_bundle_sha = None,
           p_bundle_state = None, p_bundle_delete_after = None,
           p_input_bytes = 0, p_failure_code = st_failure_code t,
           p_created = now e, p_started = None,
           p_finished = (if s = T_CANCELLED then Some (now e) else None),
           p_updated = now e \<rparr>)"

definition page_conflict :: "page_row \<Rightarrow> page_row \<Rightarrow> bool" where
  "page_conflict p q \<longleftrightarrow> p_job p = p_job q \<and>
     (p_page p = p_page q \<or> p_ordinal p = p_ordinal q \<or> p_url_sha p = p_url_sha q
      \<or> p_local_path p = p_local_path q)"

text \<open>\<open>insert ... on conflict do nothing\<close>, one row of the \<open>values\<close> list at a time.\<close>

definition insert_target :: "page_row \<Rightarrow> page_row list \<Rightarrow> page_row list" where
  "insert_target p ps = (if \<exists>q \<in> set ps. page_conflict p q then ps else ps @ [p])"

definition insert_targets :: "env \<Rightarrow> uuid \<Rightarrow> site_target list \<Rightarrow> page_row list \<Rightarrow> page_row list" where
  "insert_targets e jobId ts ps = fold (\<lambda>t. insert_target (target_row e jobId t)) ts ps"

definition addTargets :: "env \<Rightarrow> claimed_phase \<Rightarrow> site_target list \<Rightarrow> nat txn" where
  "addTargets e t targets d =
     (if targets = [] then Inr (0, d)
      else if \<not> (\<exists>j \<in> set (jobs d). holds_ingestion e t j) then Inl STALE_SITE_INGESTION_LEASE
      else
        (let ps = insert_targets e (cj_id t) targets (pages d);
             d' = d\<lparr>pages := ps\<rparr>
         in if maxPages (cj_policy t) < total_pages (cj_id t) d' then Inl SITE_PAGE_LIMIT_EXCEEDED
            else commit (length ps - length (pages d)) d'))"

definition owns_ingestion :: "claimed_phase \<Rightarrow> job_row \<Rightarrow> bool" where
  "owns_ingestion t j \<longleftrightarrow> j_id j = cj_id t \<and> j_status j = INGESTING
     \<and> j_lease_owner j = Some (cj_lease_owner t) \<and> j_lease_gen j = cj_lease_gen t"

definition finishIngestion :: "env \<Rightarrow> claimed_phase \<Rightarrow> unit txn" where
  "finishIngestion e t d =
     (let discovered = total_pages (cj_id t) d
      in if \<not> (\<exists>j \<in> set (jobs d). owns_ingestion t j) then Inl STALE_SITE_INGESTION_LEASE
         else if discovered = 0 then
           rbind (enqueueEvent e (cj_id t) FAILED
             (d\<lparr>jobs := update_where (owns_ingestion t) (\<lambda>j. j\<lparr>
                j_status := FAILED, j_lease_owner := None, j_lease_expires := None,
                j_terminal_code := Some ''NO_CLONEABLE_PAGES'',
                j_terminal_message := Some ''The scan produced no cloneable pages.'',
                j_finished := Some (now e), j_updated := now e\<rparr>) (jobs d)\<rparr>)) (commit ())
         else
           rbind (enqueueEvent e (cj_id t) RUNNING
             (d\<lparr>jobs := update_where (owns_ingestion t) (\<lambda>j. j\<lparr>
                j_status := RUNNING, j_lease_owner := None, j_lease_expires := None,
                j_phase_attempts := 0, j_phase_available := now e, j_discovered := discovered,
                j_ingestion_finished := Some (now e),
                j_started := Some (coalesce (j_started j) (now e)), j_updated := now e\<rparr>) (jobs d)\<rparr>))
             (commit ()))"

section \<open>Claiming a page\<close>

definition max_retries_of :: "uuid \<Rightarrow> site_db \<Rightarrow> nat" where
  "max_retries_of jobId d = (case find_job jobId d of None \<Rightarrow> 0 | Some j \<Rightarrow> maxRetriesPerPage (j_policy j))"

definition expired_pages :: "env \<Rightarrow> site_db \<Rightarrow> page_row list" where
  "expired_pages e d = take 100 (order_by (\<lambda>p. (coalesce (p_lease_expires p) 0, p_page p))
     (\<lambda>p. p_status p = P_RENDERING \<and> le_opt (p_lease_expires p) (now e)
        \<and> find_job (p_job p) d \<noteq> None \<and> \<not> locked_page e (page_key p)) (pages d))"

definition reclaim_row :: "env \<Rightarrow> nat \<Rightarrow> page_row \<Rightarrow> page_row" where
  "reclaim_row e retries p =
     (let retryable = p_attempts p < retries
      in p\<lparr>p_status := if retryable then P_QUEUED else P_FAILED,
           p_available := if retryable then now e else p_available p,
           p_lease_owner := None, p_lease_expires := None,
           p_failure_code := Some ''PAGE_LEASE_EXPIRED'',
           p_finished := if retryable then None else Some (now e),
           p_updated := now e\<rparr>)"

definition reclaim_pages :: "env \<Rightarrow> site_db \<Rightarrow> site_db" where
  "reclaim_pages e d =
     (let ex = expired_pages e d;
          d' = d\<lparr>pages := update_where (\<lambda>p. page_key p \<in> page_key ` set ex)
                   (\<lambda>p. reclaim_row e (max_retries_of (p_job p) d) p) (pages d)\<rparr>
      in fold (refreshJobCounters e) (remdups (map p_job ex)) d')"

definition claimable :: "env \<Rightarrow> site_db \<Rightarrow> page_row \<Rightarrow> bool" where
  "claimable e d p \<longleftrightarrow> p_status p = P_QUEUED \<and> p_available p \<le> now e \<and> \<not> locked_page e (page_key p)
     \<and> (case find_job (p_job p) d of None \<Rightarrow> False
        | Some j \<Rightarrow> j_status j = RUNNING \<and> page_count (j_id j) P_RENDERING d < pageConcurrency (j_policy j))"

definition render_row :: "env \<Rightarrow> uuid \<Rightarrow> page_row \<Rightarrow> page_row" where
  "render_row e worker p = p\<lparr>p_status := P_RENDERING, p_lease_owner := Some worker,
     p_lease_gen := p_lease_gen p + 1, p_lease_expires := Some (now e + seconds 60),
     p_attempts := p_attempts p + 1, p_started := Some (coalesce (p_started p) (now e)),
     p_finished := None, p_failure_code := None, p_updated := now e\<rparr>"

definition page_claim :: "uuid \<Rightarrow> job_row \<Rightarrow> page_row \<Rightarrow> claimed_page" where
  "page_claim worker j p =
    \<lparr> cp_job = p_job p, cp_owner = j_owner j, cp_scan = j_scan j, cp_corr = j_corr j,
      cp_root_url = j_root_url j, cp_page = p_page p, cp_public_url = p_public_url p,
      cp_local_path = p_local_path p, cp_lease_owner = worker, cp_lease_gen = p_lease_gen p,
      cp_attempts = p_attempts p, cp_max_retries = maxRetriesPerPage (j_policy j) \<rparr>"

definition claimPage :: "env \<Rightarrow> uuid \<Rightarrow> claimed_page option txn" where
  "claimPage e worker d =
     (let d1 = reclaim_pages e d
      in case first_by (\<lambda>p. (p_available p, p_ordinal p, p_page p)) (claimable e d1) (pages d1) of
           None \<Rightarrow> commit None d1
         | Some c \<Rightarrow>
             (let d2 = d1\<lparr>pages := update_where (\<lambda>p. page_key p = page_key c) (render_row e worker) (pages d1)\<rparr>
              in commit (map_option (\<lambda>j. page_claim worker j (render_row e worker c)) (find_job (p_job c) d1)) d2))"

section \<open>Holding and ending a page lease\<close>

definition holds_page :: "claimed_page \<Rightarrow> page_row \<Rightarrow> bool" where
  "holds_page t p \<longleftrightarrow> page_key p = (cp_job t, cp_page t) \<and> p_status p = P_RENDERING
     \<and> p_lease_owner p = Some (cp_lease_owner t) \<and> p_lease_gen p = cp_lease_gen t"

definition extendPageLease :: "env \<Rightarrow> claimed_page \<Rightarrow> bool txn" where
  "extendPageLease e t d = commit (count_where (holds_page t) (pages d) = 1)
     (d\<lparr>pages := update_where (holds_page t)
        (\<lambda>p. p\<lparr>p_lease_expires := Some (now e + seconds 60), p_updated := now e\<rparr>) (pages d)\<rparr>)"

definition finishPageWithoutBundle :: "env \<Rightarrow> claimed_page \<Rightarrow> page_status \<Rightarrow> string \<Rightarrow> site_db \<Rightarrow> site_db" where
  "finishPageWithoutBundle e t status code d = d\<lparr>pages := update_where (holds_page t)
     (\<lambda>p. p\<lparr>p_status := status, p_lease_owner := None, p_lease_expires := None,
            p_failure_code := Some code, p_finished := Some (now e), p_updated := now e\<rparr>) (pages d)\<rparr>"

definition succeed_row :: "env \<Rightarrow> stored_object \<Rightarrow> nat \<Rightarrow> page_row \<Rightarrow> page_row" where
  "succeed_row e bundle inputBytes p = p\<lparr>p_status := P_SUCCEEDED,
     p_lease_owner := None, p_lease_expires := None,
     p_bundle_bucket := Some (so_bucket bundle), p_bundle_key := Some (so_key bundle),
     p_bundle_bytes := Some (so_bytes bundle), p_bundle_sha := Some (so_sha bundle),
     p_input_bytes := inputBytes, p_failure_code := None,
     p_bundle_state := Some B_AVAILABLE, p_bundle_delete_after := Some (now e),
     p_finished := Some (now e), p_updated := now e\<rparr>"

definition completePage :: "env \<Rightarrow> claimed_page \<Rightarrow> stored_object \<Rightarrow> nat \<Rightarrow> bool txn" where
  "completePage e t bundle inputBytes d =
     (if \<not> (\<exists>p \<in> set (pages d). holds_page t p) then Inl STALE_SITE_PAGE_LEASE
      else case find_job (cp_job t) d of
        None \<Rightarrow> Inl SITE_JOB_NOT_FOUND
      | Some state \<Rightarrow>
          if j_status state = CANCEL_REQUESTED then
            commit False (finishPageWithoutBundle e t P_CANCELLED ''CANCELLED'' d)
          else if maxInputBytes (j_policy state) < j_input_bytes state + inputBytes then
            rbind (incrementJob e (cp_job t) False 0
              (finishPageWithoutBundle e t P_FAILED ''SITE_INPUT_BUDGET_EXCEEDED'' d)) (commit False)
          else
            rbind (incrementJob e (cp_job t) True inputBytes
              (d\<lparr>pages := update_where (holds_page t) (succeed_row e bundle inputBytes) (pages d)\<rparr>)) (commit True))"

definition retry_row :: "env \<Rightarrow> claimed_page \<Rightarrow> string \<Rightarrow> page_row \<Rightarrow> page_row" where
  "retry_row e t code p =
     (let again = cp_attempts t < cp_max_retries t
      in p\<lparr>p_status := if again then P_QUEUED else P_FAILED,
           p_available := if again then now e + seconds (backoff_seconds (cp_attempts t)) else p_available p,
           p_lease_owner := None, p_lease_expires := None, p_failure_code := Some (boundedCode code),
           p_finished := if again then None else Some (now e), p_updated := now e\<rparr>)"

definition failPage :: "env \<Rightarrow> claimed_page \<Rightarrow> string \<Rightarrow> unit txn" where
  "failPage e t code d =
     (let d' = d\<lparr>pages := update_where (holds_page t) (retry_row e t code) (pages d)\<rparr>
      in if (\<exists>p \<in> set (pages d). holds_page t p) \<and> \<not> cp_attempts t < cp_max_retries t
         then rbind (incrementJob e (cp_job t) False 0 d') (commit ())
         else commit () d')"

end
