(* ===== verification/Site_Phases.thy ===== *)
theory Site_Phases
  imports Site_Pages
begin

text \<open>
  \<open>SiteCloneDatabase\<close>, the phases of a job: leasing ingestion and assembly (\<open>claimIngestion\<close>,
  \<open>extendPhaseLease\<close>, \<open>claimAssembly\<close> with \<open>finalizeEmptyJobs\<close>), staging and publishing the archive
  (\<open>stageArtifacts\<close>, \<open>publishArtifacts\<close>), bounded retries (\<open>retryPhase\<close>) and the reconciliation of
  cancellations and deadlines (\<open>reconcileCancellations\<close>).
\<close>

section \<open>Leases on a phase\<close>

text \<open>\<open>phaseFromRow\<close>; the statements return \<open>phase_attempt_count+1\<close>.\<close>

definition phaseFromRow :: "uuid \<Rightarrow> job_row \<Rightarrow> claimed_phase" where
  "phaseFromRow worker j =
    \<lparr> cj_id = j_id j, cj_owner = j_owner j, cj_scan = j_scan j, cj_corr = j_corr j,
      cj_root_url = j_root_url j, cj_policy = (j_policy j)\<lparr>sameOriginOnly := True\<rparr>,
      cj_lease_owner = worker, cj_lease_gen = j_lease_gen j, cj_attempts = j_phase_attempts j + 1 \<rparr>"

definition lease_free :: "env \<Rightarrow> job_row \<Rightarrow> bool" where
  "lease_free e j \<longleftrightarrow> j_lease_owner j = None \<or> le_opt (j_lease_expires j) (now e)"

definition ingestion_candidate :: "env \<Rightarrow> job_row \<Rightarrow> bool" where
  "ingestion_candidate e j \<longleftrightarrow> j_status j = INGESTING \<and> j_phase_available j \<le> now e
     \<and> lease_free e j \<and> \<not> locked_job e (j_id j)"

definition lease_row :: "env \<Rightarrow> uuid \<Rightarrow> time \<Rightarrow> job_status \<Rightarrow> job_row \<Rightarrow> job_row" where
  "lease_row e worker until status j = j\<lparr>j_status := status, j_lease_owner := Some worker,
     j_lease_gen := j_lease_gen j + 1, j_lease_expires := Some (now e + until), j_updated := now e\<rparr>"

definition claimIngestion :: "env \<Rightarrow> uuid \<Rightarrow> claimed_phase option txn" where
  "claimIngestion e worker d =
     (case first_by (\<lambda>j. (j_created j, j_id j)) (ingestion_candidate e) (jobs d) of
        None \<Rightarrow> commit None d
      | Some c \<Rightarrow> commit (Some (phaseFromRow worker (lease_row e worker (seconds 60) INGESTING c)))
          (update_job (j_id c) (lease_row e worker (seconds 60) INGESTING) d))"

definition holds_phase :: "claimed_phase \<Rightarrow> job_row \<Rightarrow> bool" where
  "holds_phase t j \<longleftrightarrow> j_id j = cj_id t \<and> j_lease_owner j = Some (cj_lease_owner t)
     \<and> j_lease_gen j = cj_lease_gen t"

definition extendPhaseLease :: "env \<Rightarrow> claimed_phase \<Rightarrow> bool txn" where
  "extendPhaseLease e t d =
     (let held = (\<lambda>j. holds_phase t j \<and> j_status j \<in> {INGESTING, ASSEMBLING})
      in commit (count_where held (jobs d) = 1)
           (d\<lparr>jobs := update_where held (\<lambda>j. j\<lparr>
              j_lease_expires := Some (now e + (if j_status j = ASSEMBLING then minutes 5 else seconds 60)),
              j_updated := now e\<rparr>) (jobs d)\<rparr>))"

section \<open>Assembly\<close>

definition active_pages :: "uuid \<Rightarrow> site_db \<Rightarrow> nat" where
  "active_pages jobId d =
     count_where (\<lambda>p. p_job p = jobId \<and> p_status p \<in> {P_QUEUED, P_RENDERING}) (pages d)"

definition empty_job :: "env \<Rightarrow> site_db \<Rightarrow> job_row \<Rightarrow> bool" where
  "empty_job e d j \<longleftrightarrow> j_status j = RUNNING \<and> j_ingestion_finished j \<noteq> None \<and> j_succeeded j = 0
     \<and> active_pages (j_id j) d = 0 \<and> \<not> locked_job e (j_id j)"

definition fail_empty :: "env \<Rightarrow> uuid \<Rightarrow> site_db \<Rightarrow> site_error + site_db" where
  "fail_empty e jobId d = enqueueEvent e jobId FAILED (update_job jobId (\<lambda>j. j\<lparr>j_status := FAILED,
     j_terminal_code := Some ''ALL_PAGES_FAILED'',
     j_terminal_message := Some ''Every cloneable page failed.'',
     j_finished := Some (now e), j_updated := now e\<rparr>) d)"

definition finalizeEmptyJobs :: "env \<Rightarrow> site_db \<Rightarrow> site_error + site_db" where
  "finalizeEmptyJobs e d = rfold (fail_empty e) (map j_id (filter (empty_job e d) (jobs d))) d"

definition assembly_candidate :: "env \<Rightarrow> site_db \<Rightarrow> job_row \<Rightarrow> bool" where
  "assembly_candidate e d j \<longleftrightarrow> j_status j \<in> {RUNNING, ASSEMBLING} \<and> j_ingestion_finished j \<noteq> None
     \<and> j_phase_available j \<le> now e \<and> 0 < j_succeeded j \<and> active_pages (j_id j) d = 0
     \<and> lease_free e j \<and> \<not> locked_job e (j_id j)"

definition claimAssembly :: "env \<Rightarrow> uuid \<Rightarrow> claimed_phase option txn" where
  "claimAssembly e worker d = rbind (finalizeEmptyJobs e d) (\<lambda>d1.
     case first_by (\<lambda>j. (j_updated j, j_id j)) (assembly_candidate e d1) (jobs d1) of
       None \<Rightarrow> commit None d1
     | Some c \<Rightarrow> rbind (enqueueEvent e (j_id c) ASSEMBLING
           (update_job (j_id c) (lease_row e worker (minutes 5) ASSEMBLING) d1))
         (commit (Some (phaseFromRow worker (lease_row e worker (minutes 5) ASSEMBLING c)))))"

definition holds_assembly :: "env \<Rightarrow> claimed_phase \<Rightarrow> job_row \<Rightarrow> bool" where
  "holds_assembly e t j \<longleftrightarrow> holds_phase t j \<and> j_status j = ASSEMBLING \<and> gt_opt (j_lease_expires j) (now e)"

definition total_bytes :: "artifact_input list \<Rightarrow> nat" where
  "total_bytes xs = sum_list (map (\<lambda>a. so_bytes (ai_object a)) xs)"

definition staged_row :: "env \<Rightarrow> claimed_phase \<Rightarrow> artifact_input \<Rightarrow> artifact_row" where
  "staged_row e t a =
    \<lparr> a_id = artifact_uuid e (ai_kind a) (ai_shard a), a_owner = cj_owner t, a_job = cj_id t,
      a_kind = ai_kind a, a_generation = cj_lease_gen t, a_shard = ai_shard a,
      a_filename = ai_filename a, a_bucket = so_bucket (ai_object a), a_key = so_key (ai_object a),
      a_content_type = so_content_type (ai_object a), a_bytes = so_bytes (ai_object a),
      a_sha = so_sha (ai_object a), a_state = A_STAGED, a_created = now e, a_published = None,
      a_delete_after = now e + days 1, a_deleted = None \<rparr>"

definition insert_artifact :: "artifact_row \<Rightarrow> artifact_row list \<Rightarrow> artifact_row list" where
  "insert_artifact a as = (if shard_key a \<in> shard_key ` set as then as else as @ [a])"

definition of_generation :: "claimed_phase \<Rightarrow> artifact_row \<Rightarrow> bool" where
  "of_generation t a \<longleftrightarrow> a_job a = cj_id t \<and> a_generation a = cj_lease_gen t"

definition kind_rank :: "artifact_kind \<Rightarrow> nat" where
  "kind_rank k = (case k of ARCHIVE_SHARD \<Rightarrow> 0 | MANIFEST \<Rightarrow> 1)"

text \<open>Artifacts are ordered by the names of their kinds.\<close>

instantiation artifact_kind :: linorder
begin

definition less_eq_artifact_kind :: "artifact_kind \<Rightarrow> artifact_kind \<Rightarrow> bool" where
  "less_eq_artifact_kind k l \<longleftrightarrow> kind_rank k \<le> kind_rank l"

definition less_artifact_kind :: "artifact_kind \<Rightarrow> artifact_kind \<Rightarrow> bool" where
  "less_artifact_kind k l \<longleftrightarrow> kind_rank k < kind_rank l"

instance
  by standard (auto simp: less_eq_artifact_kind_def less_artifact_kind_def kind_rank_def split: artifact_kind.splits)

end

definition staged_match :: "artifact_input \<Rightarrow> artifact_row \<Rightarrow> bool" where
  "staged_match x row \<longleftrightarrow> a_state row = A_STAGED \<and> a_filename row = ai_filename x
     \<and> a_bucket row = so_bucket (ai_object x) \<and> a_key row = so_key (ai_object x)
     \<and> a_content_type row = so_content_type (ai_object x)
     \<and> a_bytes row = so_bytes (ai_object x) \<and> a_sha row = so_sha (ai_object x)"

definition stage_complete :: "artifact_row list \<Rightarrow> artifact_input list \<Rightarrow> bool" where
  "stage_complete staged xs \<longleftrightarrow> length staged = length xs
     \<and> list_all (\<lambda>x. case find (\<lambda>c. a_kind c = ai_kind x \<and> a_shard c = ai_shard x) staged of
          None \<Rightarrow> False | Some row \<Rightarrow> staged_match x row) xs"

definition stageArtifacts :: "env \<Rightarrow> claimed_phase \<Rightarrow> artifact_input list \<Rightarrow> unit txn" where
  "stageArtifacts e t xs d =
     (if xs = [] then Inl SITE_ARTIFACTS_EMPTY
      else if \<not> (\<exists>j \<in> set (jobs d). holds_assembly e t j) then Inl STALE_SITE_ASSEMBLY_LEASE
      else if maxArchiveBytes (cj_policy t) < total_bytes xs then Inl SITE_ARCHIVE_BUDGET_EXCEEDED
      else
        (let as = fold (\<lambda>x. insert_artifact (staged_row e t x)) xs (artifacts d);
             staged = order_by (\<lambda>a. (a_kind a, a_shard a)) (of_generation t) as
         in if stage_complete staged xs then commit () (d\<lparr>artifacts := as\<rparr>)
            else Inl SITE_ARTIFACT_STAGE_MISMATCH))"

definition cancelled_count :: "uuid \<Rightarrow> site_db \<Rightarrow> nat" where
  "cancelled_count jobId d = count_where
     (\<lambda>p. p_job p = jobId \<and> p_status p = P_CANCELLED \<and> p_failure_code p = Some ''CANCELLED'') (pages d)"

definition publish_row :: "env \<Rightarrow> claimed_phase \<Rightarrow> artifact_row \<Rightarrow> artifact_row" where
  "publish_row e t a = a\<lparr>a_state := A_PUBLISHED, a_published := Some (now e),
     a_delete_after := now e + days (archiveRetentionDays (cj_policy t))\<rparr>"

definition terminal_for :: "site_db \<Rightarrow> job_row \<Rightarrow> job_status" where
  "terminal_for d j = (if 0 < j_failed j \<or> 0 < cancelled_count (j_id j) d then PARTIAL else PUBLISHED)"

text \<open>The second transaction of \<open>publishArtifacts\<close>, after \<open>stageArtifacts\<close> has committed.\<close>

definition publish_staged :: "env \<Rightarrow> claimed_phase \<Rightarrow> artifact_input list \<Rightarrow> unit txn" where
  "publish_staged e t xs d =
     (case find (holds_assembly e t) (jobs d) of
        None \<Rightarrow> Inl STALE_SITE_ASSEMBLY_LEASE
      | Some counts \<Rightarrow>
          if maxArchiveBytes (cj_policy t) < total_bytes xs then Inl SITE_ARCHIVE_BUDGET_EXCEEDED
          else rbind (enqueueEvent e (cj_id t) (terminal_for d counts)
             (d\<lparr>artifacts := update_where (\<lambda>a. of_generation t a \<and> a_state a = A_STAGED)
                  (publish_row e t) (artifacts d),
                jobs := update_where (holds_phase t) (\<lambda>j. j\<lparr>j_status := terminal_for d counts,
                  j_lease_owner := None, j_lease_expires := None, j_archive_bytes := total_bytes xs,
                  j_artifact_count := length xs, j_finished := Some (now e), j_updated := now e\<rparr>) (jobs d)\<rparr>))
             (commit ()))"

text \<open>\<open>publishArtifacts\<close>: two transactions; what the first committed stays if the second fails.\<close>

definition publishArtifacts ::
  "env \<Rightarrow> env \<Rightarrow> claimed_phase \<Rightarrow> artifact_input list \<Rightarrow> site_db \<Rightarrow> (site_error + unit) \<times> site_db" where
  "publishArtifacts e1 e2 t xs d =
     (case stageArtifacts e1 t xs d of
        Inl err \<Rightarrow> (Inl err, d)
      | Inr (_, d1) \<Rightarrow>
          (case publish_staged e2 t xs d1 of
             Inl err \<Rightarrow> (Inl err, d1)
           | Inr (_, d2) \<Rightarrow> (Inr (), d2)))"

section \<open>Retrying a phase\<close>

definition retry_phase_row :: "env \<Rightarrow> claimed_phase \<Rightarrow> string \<Rightarrow> job_row \<Rightarrow> job_row" where
  "retry_phase_row e t code j =
     (let exhausted = 3 \<le> cj_attempts t
      in j\<lparr>j_status := if exhausted then FAILED else j_status j,
           j_lease_owner := None, j_lease_expires := None,
           j_phase_attempts := if exhausted then j_phase_attempts j else j_phase_attempts j + 1,
           j_phase_available := if exhausted then j_phase_available j
             else now e + seconds (backoff_seconds (cj_attempts t)),
           j_terminal_code := Some (boundedCode code),
           j_terminal_message := if exhausted then Some ''Site clone phase exhausted its retry budget.''
             else j_terminal_message j,
           j_finished := if exhausted then Some (now e) else None, j_updated := now e\<rparr>)"

definition discard_staged :: "env \<Rightarrow> claimed_phase \<Rightarrow> site_db \<Rightarrow> site_db" where
  "discard_staged e t d = d\<lparr>artifacts := update_where (\<lambda>a. of_generation t a \<and> a_state a = A_STAGED)
     (\<lambda>a. a\<lparr>a_delete_after := max (clock e) (a_created a + 1)\<rparr>) (artifacts d)\<rparr>"

definition retryPhase :: "env \<Rightarrow> claimed_phase \<Rightarrow> job_status \<Rightarrow> string \<Rightarrow> unit txn" where
  "retryPhase e t phase code d =
     (let held = (\<lambda>j. holds_phase t j \<and> j_status j = phase)
      in if \<exists>j \<in> set (jobs d). held j then
           (let d1 = discard_staged e t
                  (d\<lparr>jobs := update_where held (retry_phase_row e t code) (jobs d)\<rparr>)
            in if 3 \<le> cj_attempts t then rbind (enqueueEvent e (cj_id t) FAILED d1) (commit ())
               else commit () d1)
         else commit () d)"

definition retryAssembly :: "env \<Rightarrow> claimed_phase \<Rightarrow> string \<Rightarrow> unit txn" where
  "retryAssembly e t code = retryPhase e t ASSEMBLING code"

definition retryIngestion :: "env \<Rightarrow> claimed_phase \<Rightarrow> string \<Rightarrow> unit txn" where
  "retryIngestion e t code = retryPhase e t INGESTING code"

section \<open>Cancellation and the deadline\<close>

definition past_deadline :: "env \<Rightarrow> job_row \<Rightarrow> bool" where
  "past_deadline e j \<longleftrightarrow> j_status j \<in> {INGESTING, RUNNING, ASSEMBLING}
     \<and> j_created j + seconds (maxDurationSeconds (j_policy j)) \<le> now e"

definition expire_row :: "env \<Rightarrow> job_row \<Rightarrow> job_row" where
  "expire_row e j = j\<lparr>j_status := CANCEL_REQUESTED, j_lease_owner := None, j_lease_expires := None,
     j_cancel_requested := Some (coalesce (j_cancel_requested j) (now e)),
     j_terminal_code := Some ''SITE_CLONE_DEADLINE_EXCEEDED'',
     j_terminal_message := Some ''Site clone exceeded its maximum execution time.'', j_updated := now e\<rparr>"

definition cancel_requested :: "uuid \<Rightarrow> site_db \<Rightarrow> bool" where
  "cancel_requested jobId d \<longleftrightarrow> (\<exists>j \<in> set (jobs d). j_id j = jobId \<and> j_status j = CANCEL_REQUESTED)"

definition cancel_page_row :: "env \<Rightarrow> page_row \<Rightarrow> page_row" where
  "cancel_page_row e p = p\<lparr>p_status := P_CANCELLED, p_finished := Some (now e), p_updated := now e,
     p_failure_code := Some ''CANCELLED''\<rparr>"

definition settle_row :: "env \<Rightarrow> job_row \<Rightarrow> job_row" where
  "settle_row e j =
     (let deadline = (j_terminal_code j = Some ''SITE_CLONE_DEADLINE_EXCEEDED'')
      in j\<lparr>j_status := if 0 < j_succeeded j then RUNNING else if deadline then FAILED else CANCELLED,
           j_lease_owner := None, j_lease_expires := None, j_phase_attempts := 0,
           j_phase_available := now e,
           j_finished := if 0 < j_succeeded j then None else Some (now e), j_updated := now e,
           j_terminal_code := if deadline then j_terminal_code j
             else if 0 < j_succeeded j then Some ''CANCELLED_PARTIAL'' else Some ''CANCELLED'',
           j_terminal_message := if deadline then j_terminal_message j
             else Some ''Site clone cancelled by the owner.''\<rparr>)"

definition expire_overdue :: "env \<Rightarrow> site_db \<Rightarrow> site_db" where
  "expire_overdue e d = d\<lparr>jobs := update_where (past_deadline e) (expire_row e) (jobs d)\<rparr>"

definition cancel_queued :: "env \<Rightarrow> site_db \<Rightarrow> site_db" where
  "cancel_queued e d = d\<lparr>pages := update_where
     (\<lambda>p. cancel_requested (p_job p) d \<and> p_status p = P_QUEUED) (cancel_page_row e) (pages d)\<rparr>"

definition settleable :: "env \<Rightarrow> site_db \<Rightarrow> job_row \<Rightarrow> bool" where
  "settleable e d j \<longleftrightarrow> j_status j = CANCEL_REQUESTED \<and> page_count (j_id j) P_RENDERING d = 0
     \<and> \<not> locked_job e (j_id j)"

definition settle_job :: "env \<Rightarrow> uuid \<Rightarrow> site_db \<Rightarrow> site_error + site_db" where
  "settle_job e jobId d =
     (let d1 = update_job jobId (settle_row e) (refreshJobCounters e jobId d)
      in case find_job jobId d1 of
           None \<Rightarrow> Inr d1
         | Some j \<Rightarrow> if j_status j = CANCELLED \<or> j_status j = FAILED
                     then enqueueEvent e jobId (j_status j) d1 else Inr d1)"

definition reconcileCancellations :: "env \<Rightarrow> (uuid \<times> uuid) list txn" where
  "reconcileCancellations e d =
     (let d1 = cancel_queued e (expire_overdue e d);
          rows = filter (settleable e d1) (jobs d1)
      in rbind (rfold (settle_job e) (map j_id rows) d1)
           (commit (map (\<lambda>j. (j_id j, j_owner j)) rows)))"

end
