(* ===== verification/Site_Gc.thy ===== *)
theory Site_Gc
  imports Site_Phases
begin

text \<open>
  \<open>SiteCloneDatabase\<close>, the collector of stored objects (\<open>claimObjectForDeletion\<close>,
  \<open>completeObjectDeletion\<close>, \<open>retryObjectDeletion\<close>) and the artifact a download may use
  (\<open>getArtifact\<close>).
\<close>

datatype object_type = ARTIFACT | PAGE_BUNDLE

record claimed_deletion =
  del_type :: object_type
  del_job :: uuid
  del_object :: uuid
  del_stored :: stored_object

definition artifact_due :: "env \<Rightarrow> artifact_row \<Rightarrow> bool" where
  "artifact_due e a \<longleftrightarrow> a_state a \<in> {A_STAGED, A_PUBLISHED, A_DELETE_PENDING}
     \<and> a_delete_after a \<le> now e \<and> \<not> locked_artifact e (a_id a)"

definition artifact_claim :: "artifact_row \<Rightarrow> claimed_deletion" where
  "artifact_claim a = \<lparr> del_type = ARTIFACT, del_job = a_job a, del_object = a_id a,
     del_stored = \<lparr> so_bucket = a_bucket a, so_key = a_key a, so_bytes = a_bytes a, so_sha = a_sha a,
       so_content_type = a_content_type a \<rparr> \<rparr>"

definition bundle_due :: "env \<Rightarrow> site_db \<Rightarrow> page_row \<Rightarrow> bool" where
  "bundle_due e d p \<longleftrightarrow>
     (case find_job (p_job p) d of None \<Rightarrow> False | Some j \<Rightarrow> terminal (j_status j))
   \<and> p_status p = P_SUCCEEDED
   \<and> (p_bundle_state p = Some B_AVAILABLE \<or> p_bundle_state p = Some B_DELETE_PENDING)
   \<and> le_opt (p_bundle_delete_after p) (now e) \<and> \<not> locked_page e (page_key p)"

definition bundle_claim :: "page_row \<Rightarrow> claimed_deletion" where
  "bundle_claim p = \<lparr> del_type = PAGE_BUNDLE, del_job = p_job p, del_object = p_page p,
     del_stored = \<lparr> so_bucket = coalesce (p_bundle_bucket p) '''', so_key = coalesce (p_bundle_key p) '''',
       so_bytes = coalesce (p_bundle_bytes p) 0, so_sha = coalesce (p_bundle_sha p) '''',
       so_content_type = ''application/json'' \<rparr> \<rparr>"

text \<open>
  Two statements, each its own transaction: the second runs only when the first changed nothing.
\<close>

definition claimObjectForDeletion :: "env \<Rightarrow> claimed_deletion option txn" where
  "claimObjectForDeletion e d =
     (case first_by (\<lambda>a. (a_delete_after a, a_id a)) (artifact_due e) (artifacts d) of
        Some c \<Rightarrow> commit (Some (artifact_claim c))
          (d\<lparr>artifacts := update_where (\<lambda>a. a_id a = a_id c)
             (\<lambda>a. a\<lparr>a_state := if a_state a = A_STAGED then A_STAGED else A_DELETE_PENDING,
                    a_delete_after := now e + seconds 30\<rparr>) (artifacts d)\<rparr>)
      | None \<Rightarrow>
          (case first_by (\<lambda>p. (coalesce (p_bundle_delete_after p) 0, p_job p, p_page p))
                  (bundle_due e d) (pages d) of
             None \<Rightarrow> commit None d
           | Some c \<Rightarrow> commit (Some (bundle_claim c))
               (d\<lparr>pages := update_where (\<lambda>p. page_key p = page_key c)
                  (\<lambda>p. p\<lparr>p_bundle_state := Some B_DELETE_PENDING,
                         p_bundle_delete_after := Some (now e + seconds 30)\<rparr>) (pages d)\<rparr>)))"

definition deletable_artifact :: "claimed_deletion \<Rightarrow> artifact_row \<Rightarrow> bool" where
  "deletable_artifact g a \<longleftrightarrow> a_id a = del_object g \<and> a_job a = del_job g
     \<and> a_state a \<in> {A_STAGED, A_DELETE_PENDING}"

definition deletable_bundle :: "claimed_deletion \<Rightarrow> page_row \<Rightarrow> bool" where
  "deletable_bundle g p \<longleftrightarrow> page_key p = (del_job g, del_object g)
     \<and> p_bundle_state p = Some B_DELETE_PENDING"

definition expirable :: "uuid \<Rightarrow> job_row \<Rightarrow> bool" where
  "expirable jobId j \<longleftrightarrow> j_id j = jobId \<and> j_status j \<in> {PUBLISHED, PARTIAL}"

definition completeObjectDeletion :: "env \<Rightarrow> claimed_deletion \<Rightarrow> unit txn" where
  "completeObjectDeletion e g d =
     (case del_type g of
        ARTIFACT \<Rightarrow>
          if \<not> (\<exists>a \<in> set (artifacts d). deletable_artifact g a) then Inl STALE_SITE_GC_CLAIM
          else
            (let d1 = d\<lparr>artifacts := update_where (deletable_artifact g)
                   (\<lambda>a. a\<lparr>a_state := A_DELETED, a_deleted := Some (now e)\<rparr>) (artifacts d)\<rparr>;
                 remaining = (\<exists>a \<in> set (artifacts d1). a_job a = del_job g
                   \<and> a_state a \<in> {A_PUBLISHED, A_DELETE_PENDING})
             in if \<not> remaining \<and> (\<exists>j \<in> set (jobs d1). expirable (del_job g) j)
                then rbind (enqueueEvent e (del_job g) EXPIRED
                       (d1\<lparr>jobs := update_where (expirable (del_job g))
                          (\<lambda>j. j\<lparr>j_status := EXPIRED, j_updated := now e\<rparr>) (jobs d1)\<rparr>)) (commit ())
                else commit () d1)
      | PAGE_BUNDLE \<Rightarrow>
          if \<not> (\<exists>p \<in> set (pages d). deletable_bundle g p) then Inl STALE_SITE_GC_CLAIM
          else commit () (d\<lparr>pages := update_where (deletable_bundle g)
                 (\<lambda>p. p\<lparr>p_bundle_state := Some B_DELETED, p_bundle_delete_after := Some (now e)\<rparr>) (pages d)\<rparr>))"

definition retryObjectDeletion :: "env \<Rightarrow> claimed_deletion \<Rightarrow> unit txn" where
  "retryObjectDeletion e g d =
     (case del_type g of
        ARTIFACT \<Rightarrow> commit () (d\<lparr>artifacts := update_where (deletable_artifact g)
          (\<lambda>a. a\<lparr>a_delete_after := now e + minutes 1\<rparr>) (artifacts d)\<rparr>)
      | PAGE_BUNDLE \<Rightarrow> commit () (d\<lparr>pages := update_where (deletable_bundle g)
          (\<lambda>p. p\<lparr>p_bundle_delete_after := Some (now e + minutes 1)\<rparr>) (pages d)\<rparr>))"

definition getArtifact :: "uuid \<Rightarrow> uuid \<Rightarrow> uuid \<Rightarrow> site_db \<Rightarrow> artifact_row option" where
  "getArtifact ownerId jobId artifactId d =
     find (\<lambda>a. a_id a = artifactId \<and> a_job a = jobId \<and> a_owner a = ownerId) (artifacts d)"

end
