(* ===== verification/Site_Invariant.thy ===== *)
theory Site_Invariant
  imports Site_Gc
begin

text \<open>
  What every committed transaction of the site clone store keeps: the counters of a job are the
  aggregates over its pages, the pages in rendering stay within the concurrency of the job, attempts
  stay within the retry budget, event versions only grow, published artifacts belong to published
  jobs; and the life cycle of a job as an abstract transition relation.
\<close>

section \<open>The life cycle of a job\<close>

inductive lifecycle_step :: "job_status \<Rightarrow> job_status \<Rightarrow> bool" where
  ingested: "lifecycle_step INGESTING RUNNING"
| assembling: "lifecycle_step RUNNING ASSEMBLING"
| published: "s \<in> {PUBLISHED, PARTIAL} \<Longrightarrow> lifecycle_step ASSEMBLING s"
| failed: "s \<in> {INGESTING, RUNNING, ASSEMBLING} \<Longrightarrow> lifecycle_step s FAILED"
| cancelling: "\<not> terminal s \<Longrightarrow> lifecycle_step s CANCEL_REQUESTED"
| settled: "s \<in> {RUNNING, FAILED, CANCELLED} \<Longrightarrow> lifecycle_step CANCEL_REQUESTED s"
| expired: "s \<in> {PUBLISHED, PARTIAL} \<Longrightarrow> lifecycle_step s EXPIRED"

abbreviation lifecycle :: "job_status \<Rightarrow> job_status \<Rightarrow> bool" where
  "lifecycle \<equiv> lifecycle_step\<^sup>*\<^sup>*"

inductive_cases from_terminal: "lifecycle_step s t"

lemma lifecycle_step_terminal:
  "lifecycle_step s t \<Longrightarrow> terminal s \<Longrightarrow> s \<in> {PUBLISHED, PARTIAL} \<and> t = EXPIRED"
  by (elim from_terminal) auto

lemma lifecycle_terminal:
  "lifecycle s t \<Longrightarrow> terminal s \<Longrightarrow> t = s \<or> (s \<in> {PUBLISHED, PARTIAL} \<and> t = EXPIRED)"
proof (induction rule: rtranclp_induct)
  case base
  show ?case by simp
next
  case (step y z)
  then have "terminal y" by auto
  with step.hyps(2) have "y \<in> {PUBLISHED, PARTIAL} \<and> z = EXPIRED" by (rule lifecycle_step_terminal)
  with step show ?case by auto
qed

section \<open>The invariant\<close>

definition counters_ok :: "site_db \<Rightarrow> job_row \<Rightarrow> bool" where
  "counters_ok d j \<longleftrightarrow>
     j_succeeded j = page_count (j_id j) P_SUCCEEDED d
   \<and> j_failed j = page_count (j_id j) P_FAILED d
   \<and> j_processed j = j_succeeded j + j_failed j
   \<and> j_input_bytes j = succeeded_bytes (j_id j) d"

definition budgets_ok :: "site_db \<Rightarrow> job_row \<Rightarrow> bool" where
  "budgets_ok d j \<longleftrightarrow>
     total_pages (j_id j) d \<le> maxPages (j_policy j)
   \<and> page_count (j_id j) P_RENDERING d \<le> pageConcurrency (j_policy j)
   \<and> succeeded_bytes (j_id j) d \<le> maxInputBytes (j_policy j)
   \<and> j_phase_attempts j \<le> 2"

definition discovery_ok :: "site_db \<Rightarrow> job_row \<Rightarrow> bool" where
  "discovery_ok d j \<longleftrightarrow>
     (if j_ingestion_finished j = None
      then j_discovered j = 0 \<and> page_count (j_id j) P_RENDERING d = 0
         \<and> page_count (j_id j) P_SUCCEEDED d = 0 \<and> page_count (j_id j) P_FAILED d = 0
      else j_discovered j = total_pages (j_id j) d)
   \<and> (j_status j = INGESTING \<longrightarrow> j_ingestion_finished j = None)
   \<and> (j_status j \<in> {RUNNING, ASSEMBLING, PUBLISHED, PARTIAL, EXPIRED} \<longrightarrow> j_ingestion_finished j \<noteq> None)"

definition quiet_ok :: "site_db \<Rightarrow> job_row \<Rightarrow> bool" where
  "quiet_ok d j \<longleftrightarrow>
     (j_status j \<notin> {RUNNING, CANCEL_REQUESTED} \<longrightarrow> page_count (j_id j) P_RENDERING d = 0)
   \<and> (j_status j \<in> {ASSEMBLING, PUBLISHED, PARTIAL, EXPIRED} \<longrightarrow>
        active_pages (j_id j) d = 0 \<and> 0 < page_count (j_id j) P_SUCCEEDED d)"

definition job_inv :: "site_db \<Rightarrow> job_row \<Rightarrow> bool" where
  "job_inv d j \<longleftrightarrow> counters_ok d j \<and> budgets_ok d j \<and> discovery_ok d j \<and> quiet_ok d j"

definition page_inv :: "job_row \<Rightarrow> page_row \<Rightarrow> bool" where
  "page_inv j p \<longleftrightarrow> p_lease_gen p = p_attempts p \<and> p_attempts p \<le> maxRetriesPerPage (j_policy j)
     \<and> (p_status p = P_QUEUED \<longrightarrow> p_attempts p < maxRetriesPerPage (j_policy j))"

definition artifact_inv :: "job_row \<Rightarrow> artifact_row \<Rightarrow> bool" where
  "artifact_inv j a \<longleftrightarrow> a_generation a \<le> j_lease_gen j
     \<and> (a_state a \<in> {A_PUBLISHED, A_DELETE_PENDING} \<longrightarrow> j_status j \<in> {PUBLISHED, PARTIAL})"

definition core_inv :: "site_db \<Rightarrow> bool" where
  "core_inv d \<longleftrightarrow>
     (\<forall>j \<in> set (jobs d). job_inv d j)
   \<and> (\<forall>j \<in> set (jobs d). \<forall>p \<in> set (pages d). p_job p = j_id j \<longrightarrow> page_inv j p)
   \<and> (\<forall>j \<in> set (jobs d). \<forall>a \<in> set (artifacts d). a_job a = j_id j \<longrightarrow> artifact_inv j a)
   \<and> (\<forall>j \<in> set (jobs d). \<forall>x \<in> set (outbox d). o_job x = j_id j \<longrightarrow>
        1 \<le> o_version x \<and> o_version x \<le> j_event_version j)
   \<and> (\<forall>j \<in> set (jobs d). count_where (\<lambda>x. o_job x = j_id j) (outbox d) = j_event_version j)"

definition site_inv :: "site_db \<Rightarrow> bool" where
  "site_inv d \<longleftrightarrow> schema_ok d \<and> core_inv d"

lemmas job_inv_defs = job_inv_def counters_ok_def budgets_ok_def discovery_ok_def quiet_ok_def

text \<open>A job with a page in rendering, and one with a page that succeeded.\<close>

lemma job_inv_rendering:
  assumes "job_inv d j" "0 < page_count (j_id j) P_RENDERING d"
  shows "j_ingestion_finished j \<noteq> None" "j_status j = RUNNING \<or> j_status j = CANCEL_REQUESTED"
proof -
  from assms have "discovery_ok d j" "quiet_ok d j" by (simp_all add: job_inv_def)
  with assms(2) show "j_ingestion_finished j \<noteq> None" "j_status j = RUNNING \<or> j_status j = CANCEL_REQUESTED"
    unfolding discovery_ok_def quiet_ok_def by (metis less_numeral_extra(3), metis insertE less_numeral_extra(3) empty_iff)
qed

lemma job_inv_succeeded:
  assumes "job_inv d j" "0 < j_succeeded j"
  shows "j_ingestion_finished j \<noteq> None"
proof -
  from assms have "discovery_ok d j" "0 < page_count (j_id j) P_SUCCEEDED d"
    by (simp_all add: job_inv_def counters_ok_def)
  then show ?thesis unfolding discovery_ok_def by (metis less_numeral_extra(3))
qed

section \<open>Aggregates see the pages only\<close>

lemma aggregates_cong:
  assumes "pages d' = pages d"
  shows "page_count i s d' = page_count i s d" "succeeded_bytes i d' = succeeded_bytes i d"
    "total_pages i d' = total_pages i d" "active_pages i d' = active_pages i d"
  using assms
  by (simp_all add: page_count_def succeeded_bytes_def total_pages_def active_pages_def)

lemma job_inv_cong:
  assumes "pages d' = pages d"
  shows "job_inv d' j = job_inv d j"
  by (simp only: job_inv_defs aggregates_cong [OF assms])

lemma active_pages_eq: "active_pages i d = page_count i P_QUEUED d + page_count i P_RENDERING d"
proof -
  have "active_pages i d = count_where (\<lambda>p. (p_job p = i \<and> p_status p = P_QUEUED)
      \<or> (p_job p = i \<and> p_status p = P_RENDERING)) (pages d)"
    unfolding active_pages_def by (rule count_where_cong) auto
  also have "\<dots> = page_count i P_QUEUED d + page_count i P_RENDERING d"
    unfolding page_count_def by (rule count_where_disj) auto
  finally show ?thesis .
qed

lemma processed_eq:
  "count_where (\<lambda>p. p_job p = i \<and> p_status p \<in> {P_SUCCEEDED, P_FAILED}) (pages d)
     = page_count i P_SUCCEEDED d + page_count i P_FAILED d"
proof -
  have "count_where (\<lambda>p. p_job p = i \<and> p_status p \<in> {P_SUCCEEDED, P_FAILED}) (pages d)
     = count_where (\<lambda>p. (p_job p = i \<and> p_status p = P_SUCCEEDED)
      \<or> (p_job p = i \<and> p_status p = P_FAILED)) (pages d)"
    by (rule count_where_cong) auto
  also have "\<dots> = page_count i P_SUCCEEDED d + page_count i P_FAILED d"
    unfolding page_count_def by (rule count_where_disj) auto
  finally show ?thesis .
qed

lemma processed_le_total: "page_count i P_SUCCEEDED d + page_count i P_FAILED d \<le> total_pages i d"
  unfolding processed_eq [symmetric] total_pages_def by (rule count_where_mono) simp

section \<open>Jobs by identifier\<close>

lemma find_job_Some: "find_job i d = Some j \<Longrightarrow> j \<in> set (jobs d) \<and> j_id j = i"
  unfolding find_job_def by (auto simp: find_Some_iff)

lemma find_job_None: "(find_job i d = None) = (\<forall>j \<in> set (jobs d). j_id j \<noteq> i)"
  unfolding find_job_def by (auto simp: find_None_iff)

lemma find_job_unique:
  assumes "distinct (map j_id (jobs d))" "j \<in> set (jobs d)"
  shows "find_job (j_id j) d = Some j"
proof (cases "find_job (j_id j) d")
  case None
  with assms show ?thesis by (auto simp: find_job_None)
next
  case (Some k)
  then have "k \<in> set (jobs d)" "j_id k = j_id j" by (auto dest: find_job_Some)
  with assms have "k = j" by (metis distinct_key_unique)
  with Some show ?thesis by simp
qed

lemma schema_distinct: "schema_ok d \<Longrightarrow> distinct (map j_id (jobs d))"
  by (simp add: schema_ok_def keys_ok_def jobs_unique_def)

lemma schema_page_keys: "schema_ok d \<Longrightarrow> distinct (map page_key (pages d))"
  by (simp add: schema_ok_def keys_ok_def pages_unique_def)

lemma find_job_update:
  assumes "\<And>j. j_id (f j) = j_id j"
  shows "find_job i (update_job k f d) = map_option (\<lambda>j. if i = k then f j else j) (find_job i d)"
proof -
  have "find (\<lambda>j. j_id j = i) (update_where (\<lambda>j. j_id j = k) f js)
      = map_option (\<lambda>j. if i = k then f j else j) (find (\<lambda>j. j_id j = i) js)" for js
    by (induction js) (auto simp: assms)
  then show ?thesis by (simp add: find_job_def update_job_def)
qed

lemma update_job_fields [simp]:
  "pages (update_job i f d) = pages d" "artifacts (update_job i f d) = artifacts d"
  "inbox (update_job i f d) = inbox d" "outbox (update_job i f d) = outbox d"
  "jobs (update_job i f d) = update_where (\<lambda>j. j_id j = i) f (jobs d)"
  by (simp_all add: update_job_def)

section \<open>Histories\<close>

text \<open>
  What every statement leaves alone, and in which direction it moves the rest. A lease generation that
  stays the same keeps its holder or loses it: it never passes to another.
\<close>

definition job_evolves :: "job_row \<Rightarrow> job_row \<Rightarrow> bool" where
  "job_evolves j j' \<longleftrightarrow> j_id j' = j_id j \<and> j_policy j' = j_policy j \<and> j_owner j' = j_owner j
     \<and> j_scan j' = j_scan j \<and> j_command_message_id j' = j_command_message_id j
     \<and> j_command_sha j' = j_command_sha j \<and> j_created j' = j_created j
     \<and> j_event_version j \<le> j_event_version j' \<and> j_lease_gen j \<le> j_lease_gen j'
     \<and> (j_lease_gen j' = j_lease_gen j \<longrightarrow> j_lease_owner j' = None
          \<or> (j_lease_owner j' = j_lease_owner j \<and> j_phase_attempts j' = j_phase_attempts j))
     \<and> lifecycle (j_status j) (j_status j')"

text \<open>The same without an event: what the statements that write a row of a job do.\<close>

definition job_moves :: "job_row \<Rightarrow> job_row \<Rightarrow> bool" where
  "job_moves j j' \<longleftrightarrow> job_evolves j j' \<and> j_event_version j' = j_event_version j"

lemmas job_moves_defs = job_moves_def job_evolves_def

definition ended :: "page_status \<Rightarrow> bool" where
  "ended s \<longleftrightarrow> s \<in> {P_SUCCEEDED, P_FAILED, P_CANCELLED}"

definition page_evolves :: "page_row \<Rightarrow> page_row \<Rightarrow> bool" where
  "page_evolves p p' \<longleftrightarrow> p_job p' = p_job p \<and> p_page p' = p_page p \<and> p_ordinal p' = p_ordinal p
     \<and> p_public_url p' = p_public_url p \<and> p_url_sha p' = p_url_sha p \<and> p_local_path p' = p_local_path p
     \<and> p_created p' = p_created p \<and> p_attempts p \<le> p_attempts p' \<and> p_lease_gen p \<le> p_lease_gen p'
     \<and> (p_lease_gen p' = p_lease_gen p \<longrightarrow> p_lease_owner p' = None \<or> p_lease_owner p' = p_lease_owner p)
     \<and> (ended (p_status p) \<longrightarrow> p_status p' = p_status p \<and> p_input_bytes p' = p_input_bytes p
          \<and> p_bundle_key p' = p_bundle_key p \<and> p_attempts p' = p_attempts p)"

definition state_rank :: "artifact_state \<Rightarrow> nat" where
  "state_rank s = (case s of A_STAGED \<Rightarrow> 0 | A_PUBLISHED \<Rightarrow> 1 | A_DELETE_PENDING \<Rightarrow> 2 | A_DELETED \<Rightarrow> 3)"

definition artifact_evolves :: "artifact_row \<Rightarrow> artifact_row \<Rightarrow> bool" where
  "artifact_evolves a a' \<longleftrightarrow> a_id a' = a_id a \<and> a_owner a' = a_owner a \<and> a_job a' = a_job a
     \<and> a_generation a' = a_generation a \<and> a_kind a' = a_kind a \<and> a_shard a' = a_shard a
     \<and> a_filename a' = a_filename a \<and> a_bucket a' = a_bucket a \<and> a_key a' = a_key a
     \<and> a_content_type a' = a_content_type a \<and> a_bytes a' = a_bytes a \<and> a_sha a' = a_sha a
     \<and> a_created a' = a_created a \<and> state_rank (a_state a) \<le> state_rank (a_state a')"

definition evolves :: "site_db \<Rightarrow> site_db \<Rightarrow> bool" where
  "evolves d d' \<longleftrightarrow> rows_evolve job_evolves (jobs d) (jobs d')
     \<and> rows_evolve page_evolves (pages d) (pages d')
     \<and> rows_evolve artifact_evolves (artifacts d) (artifacts d')
     \<and> rows_evolve (=) (outbox d) (outbox d')
     \<and> rows_evolve (=) (inbox d) (inbox d')"

lemma row_refls [simp]:
  "job_evolves j j" "job_moves j j" "page_evolves p p" "artifact_evolves a a"
  by (simp_all add: job_moves_def job_evolves_def page_evolves_def artifact_evolves_def)

lemma job_evolves_trans: "job_evolves j k \<Longrightarrow> job_evolves k l \<Longrightarrow> job_evolves j l"
proof -
  assume 1: "job_evolves j k" and 2: "job_evolves k l"
  have "lifecycle (j_status j) (j_status l)"
    using 1 2 unfolding job_evolves_def by (metis rtranclp_trans)
  moreover have "j_lease_gen l = j_lease_gen j \<longrightarrow> j_lease_owner l = None
      \<or> (j_lease_owner l = j_lease_owner j \<and> j_phase_attempts l = j_phase_attempts j)"
    using 1 2 unfolding job_evolves_def by (metis le_antisym)
  ultimately show ?thesis using 1 2 unfolding job_evolves_def by simp
qed

lemma page_evolves_trans: "page_evolves p q \<Longrightarrow> page_evolves q r \<Longrightarrow> page_evolves p r"
proof -
  assume 1: "page_evolves p q" and 2: "page_evolves q r"
  have "p_lease_gen r = p_lease_gen p \<longrightarrow> p_lease_owner r = None \<or> p_lease_owner r = p_lease_owner p"
    using 1 2 unfolding page_evolves_def by (metis le_antisym)
  with 1 2 show ?thesis unfolding page_evolves_def by simp
qed

lemma artifact_evolves_trans: "artifact_evolves a b \<Longrightarrow> artifact_evolves b c \<Longrightarrow> artifact_evolves a c"
  unfolding artifact_evolves_def by simp

lemma evolves_refl [simp]: "evolves d d"
  by (simp add: evolves_def rows_evolve_refl)

lemma evolves_trans:
  assumes "evolves d d'" "evolves d' d''"
  shows "evolves d d''"
  using assms unfolding evolves_def
  by (elim conjE, intro conjI)
    (erule (1) rows_evolve_trans [rotated], erule (1) job_evolves_trans page_evolves_trans
      artifact_evolves_trans trans)+

lemma evolves_job:
  assumes "evolves d d'" "j \<in> set (jobs d)"
  obtains j' where "j' \<in> set (jobs d')" "job_evolves j j'"
  using assms unfolding evolves_def by (blast elim: rows_evolve_row)

lemma evolves_page:
  assumes "evolves d d'" "p \<in> set (pages d)"
  obtains p' where "p' \<in> set (pages d')" "page_evolves p p'"
  using assms unfolding evolves_def by (blast elim: rows_evolve_row)

lemma evolves_artifact:
  assumes "evolves d d'" "a \<in> set (artifacts d)"
  obtains a' where "a' \<in> set (artifacts d')" "artifact_evolves a a'"
  using assms unfolding evolves_def by (blast elim: rows_evolve_row)

section \<open>Preservation, statement by statement\<close>

text \<open>
  \<open>work_inv\<close> is what holds between the statements of a transaction; \<open>progress\<close> composes them.
\<close>

definition work_inv :: "site_db \<Rightarrow> bool" where
  "work_inv d \<longleftrightarrow> core_inv d \<and> distinct (map j_id (jobs d)) \<and> distinct (map page_key (pages d))"

definition progress :: "site_db \<Rightarrow> site_db \<Rightarrow> bool" where
  "progress d d' \<longleftrightarrow> work_inv d' \<and> evolves d d'"

lemma site_inv_work: "site_inv d \<Longrightarrow> work_inv d"
  by (simp add: site_inv_def work_inv_def schema_distinct schema_page_keys)

lemma work_core: "work_inv d \<Longrightarrow> core_inv d"
  by (simp add: work_inv_def)

lemma work_page_keys: "work_inv d \<Longrightarrow> distinct (map page_key (pages d))"
  by (simp add: work_inv_def)

lemma work_job_ids: "work_inv d \<Longrightarrow> distinct (map j_id (jobs d))"
  by (simp add: work_inv_def)

lemma work_job_eq: "work_inv d \<Longrightarrow> j \<in> set (jobs d) \<Longrightarrow> k \<in> set (jobs d) \<Longrightarrow> j_id j = j_id k \<Longrightarrow> j = k"
  unfolding work_inv_def by (metis distinct_key_unique)

lemma progress_refl: "work_inv d \<Longrightarrow> progress d d"
  by (simp add: progress_def)

lemma progress_trans: "progress d d' \<Longrightarrow> progress d' d'' \<Longrightarrow> progress d d''"
  by (auto simp: progress_def intro: evolves_trans)

lemma progress_work: "progress d d' \<Longrightarrow> work_inv d'"
  by (simp add: progress_def)

lemma progress_evolves: "progress d d' \<Longrightarrow> evolves d d'"
  by (simp add: progress_def)

lemma progress_commit:
  assumes "progress d d1" "commit r d1 = Inr (x, d')"
  shows "site_inv d' \<and> evolves d d'"
  using assms by (auto simp: progress_def site_inv_def work_inv_def)

lemma core_jobD: "core_inv d \<Longrightarrow> j \<in> set (jobs d) \<Longrightarrow> job_inv d j"
  by (simp add: core_inv_def)

lemma core_pageD: "core_inv d \<Longrightarrow> j \<in> set (jobs d) \<Longrightarrow> p \<in> set (pages d) \<Longrightarrow> p_job p = j_id j \<Longrightarrow> page_inv j p"
  by (simp add: core_inv_def)

lemma core_artifactD:
  "core_inv d \<Longrightarrow> j \<in> set (jobs d) \<Longrightarrow> a \<in> set (artifacts d) \<Longrightarrow> a_job a = j_id j \<Longrightarrow> artifact_inv j a"
  by (simp add: core_inv_def)

lemma core_outboxD:
  "core_inv d \<Longrightarrow> j \<in> set (jobs d) \<Longrightarrow> x \<in> set (outbox d) \<Longrightarrow> o_job x = j_id j \<Longrightarrow>
    1 \<le> o_version x \<and> o_version x \<le> j_event_version j"
  by (simp add: core_inv_def)

lemma core_countD:
  "core_inv d \<Longrightarrow> j \<in> set (jobs d) \<Longrightarrow> count_where (\<lambda>x. o_job x = j_id j) (outbox d) = j_event_version j"
  by (simp add: core_inv_def)

text \<open>
  A transaction that maps the rows of jobs, pages and artifacts one by one: what each map must
  respect for the rows that refer to the mapped one.
\<close>

lemma progress_map:
  assumes work: "work_inv d"
    and d': "jobs d' = map g (jobs d)" "pages d' = map h (pages d)" "artifacts d' = map k (artifacts d)"
      "outbox d' = outbox d" "inbox d' = inbox d"
    and inv: "\<And>j. j \<in> set (jobs d) \<Longrightarrow> job_inv d j \<Longrightarrow> job_inv d' (g j)"
    and job: "\<And>j. j \<in> set (jobs d) \<Longrightarrow> job_inv d j \<Longrightarrow> job_moves j (g j)"
    and page: "\<And>p. p \<in> set (pages d) \<Longrightarrow> page_evolves p (h p)"
    and artifact: "\<And>a. a \<in> set (artifacts d) \<Longrightarrow> artifact_evolves a (k a)"
    and page_inv: "\<And>j p. j \<in> set (jobs d) \<Longrightarrow> p \<in> set (pages d) \<Longrightarrow> p_job p = j_id j \<Longrightarrow>
      page_inv j p \<Longrightarrow> page_inv j (h p)"
    and artifact_inv: "\<And>j a. j \<in> set (jobs d) \<Longrightarrow> a \<in> set (artifacts d) \<Longrightarrow> a_job a = j_id j \<Longrightarrow>
      artifact_inv j a \<Longrightarrow> artifact_inv (g j) (k a)"
  shows "progress d d'"
proof -
  from work have core: "core_inv d" by (rule work_core)
  have moves: "\<And>j. j \<in> set (jobs d) \<Longrightarrow> job_moves j (g j)" using job core_jobD [OF core] by blast
  then have job': "\<And>j. j \<in> set (jobs d) \<Longrightarrow> job_evolves j (g j)" by (simp add: job_moves_def)
  have "core_inv d'"
    unfolding core_inv_def d' set_map ball_simps
  proof (intro conjI ballI impI)
    fix j assume j: "j \<in> set (jobs d)"
    show "job_inv d' (g j)" using inv [OF j] core_jobD [OF core j] by simp
    from job' [OF j] have e: "j_id (g j) = j_id j" "j_policy (g j) = j_policy j"
        "j_event_version j \<le> j_event_version (g j)" by (simp_all add: job_evolves_def)
    { fix p assume p: "p \<in> set (pages d)" "p_job (h p) = j_id (g j)"
      with page [OF p(1)] e have "p_job p = j_id j" by (simp add: page_evolves_def)
      with page_inv [OF j p(1)] core_pageD [OF core j p(1)] have "page_inv j (h p)" by simp
      with e show "page_inv (g j) (h p)" unfolding page_inv_def by auto }
    { fix a assume a: "a \<in> set (artifacts d)" "a_job (k a) = j_id (g j)"
      with artifact [OF a(1)] e have "a_job a = j_id j" by (simp add: artifact_evolves_def)
      with artifact_inv [OF j a(1)] core_artifactD [OF core j a(1)] show "artifact_inv (g j) (k a)"
        by simp }
    { fix x assume x: "x \<in> set (outbox d)" "o_job x = j_id (g j)"
      with core_outboxD [OF core j x(1)] e show "1 \<le> o_version x" "o_version x \<le> j_event_version (g j)" by simp_all }
    show "count_where (\<lambda>x. o_job x = j_id (g j)) (outbox d) = j_event_version (g j)"
      using core_countD [OF core j] moves [OF j] e by (simp add: job_moves_def)
  qed
  moreover have "map j_id (jobs d') = map j_id (jobs d)"
    using job' by (simp add: d' job_evolves_def)
  moreover have "map page_key (pages d') = map page_key (pages d)"
    using page by (simp add: d' page_evolves_def)
  moreover have "evolves d d'"
    unfolding evolves_def d'
    by (intro conjI rows_evolve_map rows_evolve_refl job' page artifact refl)
  ultimately show ?thesis using work by (simp add: progress_def work_inv_def)
qed

lemma artifact_inv_evolves:
  assumes "artifact_inv j a" "job_moves j k"
    and "j_status j \<in> {PUBLISHED, PARTIAL} \<longrightarrow> j_status k \<in> {PUBLISHED, PARTIAL}"
  shows "artifact_inv k a"
  using assms unfolding artifact_inv_def job_moves_defs by (meson le_trans)

lemma progress_update_jobs:
  assumes work: "work_inv d"
    and upd: "\<And>j. j \<in> set (jobs d) \<Longrightarrow> P j \<Longrightarrow> job_inv d j \<Longrightarrow>
      job_inv d (f j) \<and> job_moves j (f j) \<and> (j_status j \<in> {PUBLISHED, PARTIAL} \<longrightarrow> j_status (f j) \<in> {PUBLISHED, PARTIAL})"
    and d': "d' = d\<lparr>jobs := update_where P f (jobs d)\<rparr>"
  shows "progress d d'"
proof (rule progress_map [OF work, of d' "\<lambda>j. if P j then f j else j" "\<lambda>p. p" "\<lambda>a. a"])
  fix j assume j: "j \<in> set (jobs d)" "job_inv d j"
  then show "job_inv d' (if P j then f j else j)"
    using upd [OF j(1)] job_inv_cong [of d' d] by (simp add: d')
  show "job_moves j (if P j then f j else j)" using upd [OF j(1)] j by simp
next
  fix j a assume j: "j \<in> set (jobs d)" and a: "artifact_inv j a"
  have ji: "job_inv d j" using core_jobD [OF work_core [OF work] j] .
  show "artifact_inv (if P j then f j else j) a"
  proof (cases "P j")
    case True
    from upd [OF j True ji] show ?thesis
      unfolding if_P [OF True] by (elim conjE) (rule artifact_inv_evolves [OF a])
  qed (simp add: a)
qed (simp_all add: d' update_where_def)

lemma progress_update_job:
  assumes "work_inv d"
    and "\<And>j. j \<in> set (jobs d) \<Longrightarrow> j_id j = i \<Longrightarrow> job_inv d j \<Longrightarrow>
      job_inv d (f j) \<and> job_moves j (f j) \<and> (j_status j \<in> {PUBLISHED, PARTIAL} \<longrightarrow> j_status (f j) \<in> {PUBLISHED, PARTIAL})"
  shows "progress d (update_job i f d)"
  by (rule progress_update_jobs [OF assms(1), where P = "\<lambda>j. j_id j = i" and f = f])
    (rule assms(2), assumption+, simp add: update_job_def)

text \<open>The columns the invariant of a job does not read.\<close>

lemma job_inv_insensitive [simp]:
  "job_inv d (j\<lparr>j_event_version := v\<rparr>) = job_inv d j"
  "job_inv d (j\<lparr>j_updated := t\<rparr>) = job_inv d j"
  "job_inv d (j\<lparr>j_lease_owner := w\<rparr>) = job_inv d j"
  "job_inv d (j\<lparr>j_lease_gen := g\<rparr>) = job_inv d j"
  "job_inv d (j\<lparr>j_lease_expires := x\<rparr>) = job_inv d j"
  "job_inv d (j\<lparr>j_phase_available := t\<rparr>) = job_inv d j"
  "job_inv d (j\<lparr>j_terminal_code := c\<rparr>) = job_inv d j"
  "job_inv d (j\<lparr>j_terminal_message := c\<rparr>) = job_inv d j"
  "job_inv d (j\<lparr>j_cancel_requested := x\<rparr>) = job_inv d j"
  "job_inv d (j\<lparr>j_started := x\<rparr>) = job_inv d j"
  "job_inv d (j\<lparr>j_finished := x\<rparr>) = job_inv d j"
  "job_inv d (j\<lparr>j_archive_bytes := b\<rparr>) = job_inv d j"
  "job_inv d (j\<lparr>j_artifact_count := n\<rparr>) = job_inv d j"
  by (simp_all add: job_inv_defs)

lemma progress_enqueueEvent:
  assumes work: "work_inv d" and eq: "enqueueEvent e i s d = Inr d'"
  shows "progress d d'"
proof -
  let ?bump = "\<lambda>j. j\<lparr>j_event_version := j_event_version j + 1, j_updated := now e\<rparr>"
  let ?d1 = "update_job i ?bump d"
  have core: "core_inv d" using work by (rule work_core)
  from eq obtain row where row: "find_job i ?d1 = Some row"
    and d': "d' = ?d1\<lparr>outbox := outbox ?d1 @ [pending_event e s row]\<rparr>"
    by (simp add: enqueueEvent_def Let_def split: option.splits)
  from row find_job_update [of ?bump i i d] obtain j0 where j0: "find_job i d = Some j0" "row = ?bump j0"
    by (cases "find_job i d") simp_all
  from find_job_Some [OF j0(1)] have in0: "j0 \<in> set (jobs d)" "j_id j0 = i" by blast+
  let ?x = "pending_event e s row"
  have x: "o_job ?x = i" "o_version ?x = j_event_version j0 + 1"
    using j0(2) in0 by (simp_all add: pending_event_def)
  have only: "j = j0" if "j \<in> set (jobs d)" "j_id j = i" for j
    using work_job_eq [OF work that(1) in0(1)] that in0 by simp
  have "core_inv d'"
    unfolding core_inv_def
  proof (intro conjI ballI impI)
    fix j' assume "j' \<in> set (jobs d')"
    then obtain j where j: "j \<in> set (jobs d)" "j' = (if j_id j = i then ?bump j else j)"
      unfolding d' by (auto elim!: in_update_whereE)
    have id: "j_id j' = j_id j" "j_policy j' = j_policy j" "j_lease_gen j' = j_lease_gen j" "j_status j' = j_status j"
      and v: "j_event_version j' = (if j_id j = i then j_event_version j + 1 else j_event_version j)"
      using j(2) by simp_all
    have cong: "job_inv d' k = job_inv d k" for k by (rule job_inv_cong) (simp add: d')
    show "job_inv d' j'" unfolding cong j(2) using core_jobD [OF core j(1)] by simp
    { fix p assume "p \<in> set (pages d')" "p_job p = j_id j'"
      with core_pageD [OF core j(1)] id show "page_inv j' p" by (simp add: d' page_inv_def) }
    { fix a assume "a \<in> set (artifacts d')" "a_job a = j_id j'"
      with core_artifactD [OF core j(1)] id show "artifact_inv j' a" by (simp add: d' artifact_inv_def) }
    { fix y assume y: "y \<in> set (outbox d')" "o_job y = j_id j'"
      show "1 \<le> o_version y" "o_version y \<le> j_event_version j'"
      proof (atomize (full), cases "y = ?x")
        case True
        with y id x have "j_id j = i" by simp
        with only [OF j(1)] True x v show "1 \<le> o_version y \<and> o_version y \<le> j_event_version j'" by simp
      next
        case False
        with y have "y \<in> set (outbox d)" by (simp add: d')
        with core_outboxD [OF core j(1)] y id v show "1 \<le> o_version y \<and> o_version y \<le> j_event_version j'"
          by fastforce
      qed }
    show "count_where (\<lambda>y. o_job y = j_id j') (outbox d') = j_event_version j'"
      using core_countD [OF core j(1)] x v id by (simp add: d' eq_commute)
  qed
  moreover have "evolves d d'"
    unfolding evolves_def d'
    by (simp add: rows_evolve_refl rows_evolve_append rows_evolve_update job_evolves_def)
  moreover have "map j_id (jobs d') = map j_id (jobs d)" by (simp add: d' update_where_def)
  ultimately show ?thesis using work by (simp add: progress_def work_inv_def d')
qed

lemma enqueueEvent_fields:
  assumes "enqueueEvent e i s d = Inr d'"
  shows "pages d' = pages d" "artifacts d' = artifacts d" "inbox d' = inbox d"
    "jobs d' = update_where (\<lambda>j. j_id j = i)
       (\<lambda>j. j\<lparr>j_event_version := j_event_version j + 1, j_updated := now e\<rparr>) (jobs d)"
  using assms by (simp_all add: enqueueEvent_def Let_def split: option.splits)
    (drule sym, simp)+

section \<open>One page moves\<close>

text \<open>
  A statement that updates the one row with a page's key: by how much it moves the aggregates of the
  page's job, and that it moves no other job's.
\<close>

lemma aggregates_move:
  assumes "distinct (map page_key (pages d))" "p \<in> set (pages d)" "G p"
    and f: "\<And>q. p_job (f q) = p_job q"
    and d': "pages d' = update_where (\<lambda>q. page_key q = page_key p \<and> G q) f (pages d)"
  shows "page_count (p_job p) s d' + of_bool (p_status p = s) = page_count (p_job p) s d + of_bool (p_status (f p) = s)"
    and "succeeded_bytes (p_job p) d' + (if p_status p = P_SUCCEEDED then p_input_bytes p else 0)
       = succeeded_bytes (p_job p) d + (if p_status (f p) = P_SUCCEEDED then p_input_bytes (f p) else 0)"
    and "total_pages i d' = total_pages i d"
    and "i \<noteq> p_job p \<Longrightarrow> page_count i s d' = page_count i s d"
    and "i \<noteq> p_job p \<Longrightarrow> succeeded_bytes i d' = succeeded_bytes i d"
proof -
  show "page_count (p_job p) s d' + of_bool (p_status p = s) = page_count (p_job p) s d + of_bool (p_status (f p) = s)"
    using count_update_one [of page_key, OF assms(1) assms(2), where G = G and Q = "\<lambda>q. p_job q = p_job p \<and> p_status q = s" and f = f]
    assms(3)
    by (simp add: page_count_def d' f)
  show "succeeded_bytes (p_job p) d' + (if p_status p = P_SUCCEEDED then p_input_bytes p else 0)
       = succeeded_bytes (p_job p) d + (if p_status (f p) = P_SUCCEEDED then p_input_bytes (f p) else 0)"
    using sum_update_one [of page_key, OF assms(1) assms(2), where G = G and Q = "\<lambda>q. p_job q = p_job p \<and> p_status q = P_SUCCEEDED"
        and f = f and g = p_input_bytes]
    assms(3)
    by (simp add: succeeded_bytes_def d' f)
  show "total_pages i d' = total_pages i d"
    unfolding total_pages_def d' by (rule count_where_update_same) (simp add: f)
  show "i \<noteq> p_job p \<Longrightarrow> page_count i s d' = page_count i s d"
    unfolding page_count_def d' by (rule count_where_update_same) (auto simp: f)
  show "i \<noteq> p_job p \<Longrightarrow> succeeded_bytes i d' = succeeded_bytes i d"
    unfolding succeeded_bytes_def d' by (rule sum_where_update_same) (auto simp: f)
qed

text \<open>The aggregates when no status and no byte count of a job's pages changes.\<close>

lemma job_inv_aggregates:
  assumes "\<And>s. page_count (j_id j) s d' = page_count (j_id j) s d"
    and "succeeded_bytes (j_id j) d' = succeeded_bytes (j_id j) d"
    and "total_pages (j_id j) d' = total_pages (j_id j) d"
  shows "job_inv d' j = job_inv d j"
  by (simp only: job_inv_defs active_pages_eq assms)

lemma page_updates_neutral:
  assumes "pages d' = update_where P f (pages d)"
    and "\<And>p. p \<in> set (pages d) \<Longrightarrow> P p \<Longrightarrow> p_job (f p) = p_job p \<and> p_status (f p) = p_status p
      \<and> p_input_bytes (f p) = p_input_bytes p"
  shows "job_inv d' j = job_inv d j"
proof (rule job_inv_aggregates)
  show "page_count (j_id j) s d' = page_count (j_id j) s d" for s
    unfolding page_count_def assms(1) by (rule count_where_update_same) (simp add: assms(2))
  show "succeeded_bytes (j_id j) d' = succeeded_bytes (j_id j) d"
    unfolding succeeded_bytes_def assms(1) by (rule sum_where_update_same) (simp add: assms(2))
  show "total_pages (j_id j) d' = total_pages (j_id j) d"
    unfolding total_pages_def assms(1) by (rule count_where_update_same) (simp add: assms(2))
qed

lemma progress_pages_neutral:
  assumes work: "work_inv d"
    and d': "d' = d\<lparr>pages := update_where P f (pages d)\<rparr>"
    and f: "\<And>p. p \<in> set (pages d) \<Longrightarrow> P p \<Longrightarrow> p_job (f p) = p_job p \<and> p_status (f p) = p_status p
      \<and> p_input_bytes (f p) = p_input_bytes p \<and> page_evolves p (f p) \<and> p_attempts (f p) = p_attempts p
      \<and> p_lease_gen (f p) = p_lease_gen p"
  shows "progress d d'"
proof (rule progress_map [OF work, of d' "\<lambda>j. j" "\<lambda>p. if P p then f p else p" "\<lambda>a. a"])
  fix j assume "job_inv d j"
  then show "job_inv d' j"
    using page_updates_neutral [of d' P f d j] f by (simp add: d')
next
  fix j p assume p: "p \<in> set (pages d)" and "page_inv j p"
  with f [OF p] show "page_inv j (if P p then f p else p)"
    unfolding page_inv_def by auto
qed (use f in \<open>simp_all add: d' update_where_def\<close>)

text \<open>
  The row with a page's key moves, and with it the row of its job.
\<close>

lemma progress_page_move:
  assumes work: "work_inv d" and p: "p \<in> set (pages d)" "G p"
    and d': "pages d' = update_where (\<lambda>q. page_key q = page_key p \<and> G q) f (pages d)"
      "jobs d' = update_where (\<lambda>j. j_id j = p_job p) g (jobs d)"
      "artifacts d' = artifacts d" "outbox d' = outbox d" "inbox d' = inbox d"
    and f: "\<And>q. p_job (f q) = p_job q"
    and page: "page_evolves p (f p)"
    and job: "\<And>j. j \<in> set (jobs d) \<Longrightarrow> j_id j = p_job p \<Longrightarrow> job_inv d j \<Longrightarrow> page_inv j p \<Longrightarrow>
      job_inv d' (g j) \<and> job_moves j (g j) \<and> page_inv j (f p)
        \<and> (j_status j \<in> {PUBLISHED, PARTIAL} \<longrightarrow> j_status (g j) \<in> {PUBLISHED, PARTIAL})"
  shows "progress d d'"
proof (rule progress_map [OF work, of d' "\<lambda>j. if j_id j = p_job p then g j else j"
      "\<lambda>q. if page_key q = page_key p \<and> G q then f q else q" "\<lambda>a. a"])
  have core: "core_inv d" using work by (rule work_core)
  have only: "q = p" if "q \<in> set (pages d)" "page_key q = page_key p" for q
    using distinct_key_unique [OF work_page_keys [OF work], of q p] that p by blast
  have job': "job_inv d' (g j) \<and> job_moves j (g j) \<and> page_inv j (f p)
      \<and> (j_status j \<in> {PUBLISHED, PARTIAL} \<longrightarrow> j_status (g j) \<in> {PUBLISHED, PARTIAL})"
    if "j \<in> set (jobs d)" "j_id j = p_job p" for j
    using job [OF that core_jobD [OF core that(1)]] core_pageD [OF core that(1) p(1)] that by simp
  note move = aggregates_move [OF work_page_keys [OF work] p f d'(1)]
  { fix j assume j: "j \<in> set (jobs d)" "job_inv d j"
    show "job_inv d' (if j_id j = p_job p then g j else j)"
    proof (cases "j_id j = p_job p")
      case True
      with job' [OF j(1)] show ?thesis by simp
    next
      case False
      have "job_inv d' j = job_inv d j"
        by (rule job_inv_aggregates) (simp_all only: move(3) move(4) [OF False] move(5) [OF False])
      with False j show ?thesis by simp
    qed
    show "job_moves j (if j_id j = p_job p then g j else j)" using job' [OF j(1)] by simp }
  { fix q assume "q \<in> set (pages d)"
    then show "page_evolves q (if page_key q = page_key p \<and> G q then f q else q)"
      using only [of q] page by (cases "page_key q = page_key p \<and> G q") (simp_all only: if_True if_False row_refls simp_thms) }
  { fix j q assume *: "j \<in> set (jobs d)" "q \<in> set (pages d)" "p_job q = j_id j" "page_inv j q"
    show "page_inv j (if page_key q = page_key p \<and> G q then f q else q)"
    proof (cases "page_key q = page_key p \<and> G q")
      case True
      with only [of q] * have "q = p" by blast
      with True * job' [OF *(1)] show ?thesis by simp
    qed (simp only: if_False * not_False_eq_True) }
  { fix j a assume *: "j \<in> set (jobs d)" "artifact_inv j a"
    show "artifact_inv (if j_id j = p_job p then g j else j) a"
    proof (cases "j_id j = p_job p")
      case True
      from job' [OF *(1) True] have "job_moves j (g j)"
          "j_status j \<in> {PUBLISHED, PARTIAL} \<longrightarrow> j_status (g j) \<in> {PUBLISHED, PARTIAL}" by blast+
      then show ?thesis unfolding if_P [OF True] by (rule artifact_inv_evolves [OF *(2)])
    qed (simp add: *) }
qed (simp_all only: d' update_where_def list.map_ident row_refls)

end
