(* ===== verification/Site_Preserve.thy ===== *)
theory Site_Preserve
  imports Site_Invariant
begin

text \<open>
  Every operation of \<open>SiteCloneDatabase\<close> that changes the store keeps the invariant and moves each
  job along the life cycle.
\<close>

definition preserves :: "site_db \<Rightarrow> site_db \<Rightarrow> bool" where
  "preserves d d' \<longleftrightarrow> site_inv d' \<and> evolves d d'"

lemma preserves_refl: "site_inv d \<Longrightarrow> preserves d d"
  by (simp add: preserves_def)

lemma preserves_commit: "progress d d1 \<Longrightarrow> commit r d1 = Inr (x, d') \<Longrightarrow> preserves d d'"
  unfolding preserves_def by (rule progress_commit)

lemma site_inv_schema: "site_inv d \<Longrightarrow> schema_ok d"
  by (simp add: site_inv_def)

lemma site_inv_core: "site_inv d \<Longrightarrow> core_inv d"
  by (simp add: site_inv_def)

lemma site_inv_distinct: "site_inv d \<Longrightarrow> distinct (map j_id (jobs d))"
  by (simp add: site_inv_def schema_distinct)

lemma site_inv_job: "site_inv d \<Longrightarrow> j \<in> set (jobs d) \<Longrightarrow> job_inv d j"
  by (simp add: site_inv_def core_jobD)

lemma site_inv_check: "site_inv d \<Longrightarrow> j \<in> set (jobs d) \<Longrightarrow> job_check j"
  by (simp add: site_inv_def schema_ok_def rows_ok_def list_all_iff)

lemma site_inv_page_check: "site_inv d \<Longrightarrow> p \<in> set (pages d) \<Longrightarrow> page_check p"
  by (simp add: site_inv_def schema_ok_def rows_ok_def list_all_iff)

lemma lifecycle_edges [simp]:
  "lifecycle INGESTING RUNNING" "lifecycle RUNNING ASSEMBLING"
  "lifecycle ASSEMBLING PUBLISHED" "lifecycle ASSEMBLING PARTIAL"
  "lifecycle INGESTING FAILED" "lifecycle RUNNING FAILED" "lifecycle ASSEMBLING FAILED"
  "lifecycle INGESTING CANCEL_REQUESTED" "lifecycle RUNNING CANCEL_REQUESTED"
  "lifecycle ASSEMBLING CANCEL_REQUESTED"
  "lifecycle CANCEL_REQUESTED RUNNING" "lifecycle CANCEL_REQUESTED FAILED"
  "lifecycle CANCEL_REQUESTED CANCELLED"
  "lifecycle PUBLISHED EXPIRED" "lifecycle PARTIAL EXPIRED"
  by (auto intro!: r_into_rtranclp lifecycle_step.intros)

lemma lifecycle_cancel: "\<not> terminal s \<Longrightarrow> lifecycle s CANCEL_REQUESTED"
  by (cases s) auto

section \<open>Commands\<close>

lemma acceptRequested_preserves:
  assumes inv: "site_inv d" and ok: "acceptRequested sha e r d = Inr (b, d')"
  shows "preserves d d'"
proof (cases "find (\<lambda>j. j_command_message_id j = rq_message_id r) (jobs d)")
  case (Some j)
  with ok have "d' = d" by (simp add: acceptRequested_def Let_def split: if_splits)
  with inv show ?thesis by (simp add: preserves_refl)
next
  case None
  let ?n = "new_job e (sha (Requested r)) r"
  from None ok have d': "d' = d\<lparr>jobs := jobs d @ [?n]\<rparr>" and schema: "schema_ok d'"
    by (simp_all add: acceptRequested_def Let_def)
  from inv have core: "core_inv d" and refs: "references_ok d"
    by (simp_all add: site_inv_def schema_ok_def)
  from schema_distinct [OF schema] have fresh: "j_id ?n \<notin> j_id ` set (jobs d)"
    by (simp add: d')
  have no_page: "p_job p \<noteq> j_id ?n" if "p \<in> set (pages d)" for p
    using refs that fresh by (metis references_ok_def)
  have no_artifact: "a_job a \<noteq> j_id ?n" if "a \<in> set (artifacts d)" for a
  proof -
    from refs that have "(a_job a, a_owner a) \<in> (\<lambda>j. (j_id j, j_owner j)) ` set (jobs d)"
      by (simp add: references_ok_def)
    then obtain k where "k \<in> set (jobs d)" "a_job a = j_id k" by blast
    with fresh show ?thesis by force
  qed
  have no_event: "o_job x \<noteq> j_id ?n" if "x \<in> set (outbox d)" for x
    using refs that fresh by (metis references_ok_def)
  have zero: "page_count (j_id ?n) s d = 0" "total_pages (j_id ?n) d = 0"
      "active_pages (j_id ?n) d = 0" "succeeded_bytes (j_id ?n) d = 0" for s
  proof -
    show "page_count (j_id ?n) s d = 0" "total_pages (j_id ?n) d = 0" "active_pages (j_id ?n) d = 0"
      unfolding page_count_def total_pages_def active_pages_def count_where_0 using no_page by blast+
    have "filter (\<lambda>p. p_job p = j_id ?n \<and> p_status p = P_SUCCEEDED) (pages d) = []"
      using no_page by (simp add: filter_empty_conv)
    then show "succeeded_bytes (j_id ?n) d = 0" by (simp add: succeeded_bytes_def sum_where_def)
  qed
  have "job_inv d ?n"
    using zero unfolding job_inv_defs by (simp add: new_job_def)
  then have "job_inv d' ?n" using job_inv_cong [of d' d] by (simp add: d')
  moreover have "job_inv d' j" if "j \<in> set (jobs d)" for j
    using core_jobD [OF core that] job_inv_cong [of d' d] by (simp add: d')
  moreover have "\<forall>p \<in> set (pages d). p_job p = j_id ?n \<longrightarrow> page_inv ?n p"
    "\<forall>a \<in> set (artifacts d). a_job a = j_id ?n \<longrightarrow> artifact_inv ?n a"
    "\<forall>x \<in> set (outbox d). o_job x = j_id ?n \<longrightarrow>
        1 \<le> o_version x \<and> o_version x \<le> j_event_version ?n"
    using no_page no_artifact no_event by blast+
  moreover have "count_where (\<lambda>x. o_job x = j_id ?n) (outbox d) = 0"
    unfolding count_where_0 using no_event by blast
  then have "count_where (\<lambda>x. o_job x = j_id ?n) (outbox d) = j_event_version ?n"
    by (simp add: new_job_def)
  ultimately have "core_inv d'"
    using core unfolding core_inv_def by (simp add: d')
  moreover have "evolves d d'"
    by (simp add: evolves_def d' rows_evolve_refl rows_evolve_append)
  ultimately show ?thesis using schema by (simp add: preserves_def site_inv_def)
qed

lemma work_inv_inbox [simp]: "work_inv (d\<lparr>inbox := xs\<rparr>) = work_inv d"
  using job_inv_cong [of "d\<lparr>inbox := xs\<rparr>" d] by (simp add: work_inv_def core_inv_def)

lemma progress_inbox: "work_inv d \<Longrightarrow> progress d (d\<lparr>inbox := inbox d @ xs\<rparr>)"
  by (simp add: progress_def evolves_def rows_evolve_refl rows_evolve_append)

lemma job_inv_cancelled:
  assumes "job_inv d j" "\<not> terminal (j_status j)"
  shows "job_inv d (j\<lparr>j_status := CANCEL_REQUESTED\<rparr>)"
  using assms by (auto simp: job_inv_defs)

lemma acceptCancellation_preserves:
  assumes inv: "site_inv d" and ok: "acceptCancellation sha e c d = Inr (b, d')"
  shows "preserves d d'"
proof (cases "find (\<lambda>i. i_message_id i = cn_message_id c) (inbox d)")
  case (Some i)
  with ok have "d' = d" by (simp add: acceptCancellation_def Let_def split: if_splits)
  with inv show ?thesis by (simp add: preserves_refl)
next
  case None
  from inv have work: "work_inv d" by (rule site_inv_work)
  let ?f = "\<lambda>j. j\<lparr>j_status := CANCEL_REQUESTED, j_lease_owner := None,
     j_lease_expires := None, j_cancel_requested := Some (now e), j_updated := now e\<rparr>"
  from None ok obtain job where job: "find (\<lambda>j. j_id j = cn_aggregate_id c \<and> j_owner j = cn_owner c) (jobs d) = Some job"
    by (simp add: acceptCancellation_def Let_def split: option.splits)
  then have jobs: "job \<in> set (jobs d)" "j_id job = cn_aggregate_id c" by (auto simp: find_Some_iff)
  have 1: "progress d (if terminal (j_status job) then d else update_job (cn_aggregate_id c) ?f d)"
  proof (cases "terminal (j_status job)")
    case True
    then show ?thesis using progress_refl [OF work] by simp
  next
    case False
    have "progress d (update_job (cn_aggregate_id c) ?f d)"
    proof (rule progress_update_job [OF work])
      fix j assume "j \<in> set (jobs d)" "j_id j = cn_aggregate_id c" and ji: "job_inv d j"
      with jobs have "j = job" by (metis work_job_eq [OF work])
      with False ji show "job_inv d (?f j) \<and> job_moves j (?f j)
          \<and> (j_status j \<in> {PUBLISHED, PARTIAL} \<longrightarrow> j_status (?f j) \<in> {PUBLISHED, PARTIAL})"
        by (auto simp: job_inv_cancelled job_moves_defs lifecycle_cancel)
    qed
    with False show ?thesis by simp
  qed
  let ?d1 = "if terminal (j_status job) then d else update_job (cn_aggregate_id c) ?f d"
  from progress_trans [OF 1 progress_inbox [OF progress_work [OF 1]]]
  have 2: "progress d (?d1\<lparr>inbox := inbox ?d1 @ xs\<rparr>)" for xs .
  from ok have "\<exists>xs r. commit r (?d1\<lparr>inbox := inbox ?d1 @ xs\<rparr>) = Inr (b, d')"
    unfolding acceptCancellation_def Let_def None job option.case by blast
  with 2 show ?thesis by (blast intro: preserves_commit)
qed

section \<open>Leases on a phase\<close>

lemma lease_row_inv: "job_inv d (lease_row e w u (j_status j) j) = job_inv d j"
  by (simp add: lease_row_def)

lemma lease_row_evolves: "lifecycle (j_status j) s \<Longrightarrow> job_moves j (lease_row e w u s j)"
  by (simp add: lease_row_def job_moves_defs)

lemma claimIngestion_preserves:
  assumes inv: "site_inv d" and ok: "claimIngestion e w d = Inr (t, d')"
  shows "preserves d d'"
proof (cases "first_by (\<lambda>j. (j_created j, j_id j)) (ingestion_candidate e) (jobs d)")
  case None
  with ok inv show ?thesis by (simp add: claimIngestion_def preserves_refl)
next
  case (Some c)
  from inv have work: "work_inv d" by (rule site_inv_work)
  from first_by_Some [OF Some] have c: "c \<in> set (jobs d)" "j_status c = INGESTING"
    by (simp_all add: ingestion_candidate_def)
  have "progress d (update_job (j_id c) (lease_row e w (seconds 60) INGESTING) d)"
  proof (rule progress_update_job [OF work])
    fix j assume "j \<in> set (jobs d)" "j_id j = j_id c" and ji: "job_inv d j"
    with c have "j = c" by (metis work_job_eq [OF work])
    with c ji show "job_inv d (lease_row e w (seconds 60) INGESTING j)
        \<and> job_moves j (lease_row e w (seconds 60) INGESTING j)
        \<and> (j_status j \<in> {PUBLISHED, PARTIAL} \<longrightarrow>
             j_status (lease_row e w (seconds 60) INGESTING j) \<in> {PUBLISHED, PARTIAL})"
      using lease_row_inv [of d e w "seconds 60" c] by (simp add: lease_row_evolves)
  qed
  moreover from Some ok have "commit t (update_job (j_id c) (lease_row e w (seconds 60) INGESTING) d) = Inr (t, d')"
    by (auto simp: claimIngestion_def)
  ultimately show ?thesis by (rule preserves_commit)
qed

lemma extendPhaseLease_preserves:
  assumes inv: "site_inv d" and ok: "extendPhaseLease e t d = Inr (b, d')"
  shows "preserves d d'"
proof -
  let ?P = "\<lambda>j. holds_phase t j \<and> j_status j \<in> {INGESTING, ASSEMBLING}"
  let ?f = "\<lambda>j. j\<lparr>j_lease_expires := Some (now e + (if j_status j = ASSEMBLING then minutes 5 else seconds 60)),
              j_updated := now e\<rparr>"
  have "progress d (d\<lparr>jobs := update_where ?P ?f (jobs d)\<rparr>)"
    by (rule progress_update_jobs [OF site_inv_work [OF inv], of ?P ?f]) (simp_all add: job_moves_defs)
  with ok show ?thesis
    unfolding extendPhaseLease_def Let_def by (rule preserves_commit [rotated])
qed

end
