(* ===== verification/Site_Preserve_Pages.thy ===== *)
theory Site_Preserve_Pages
  imports Site_Preserve
begin

text \<open>
  Preservation by ingestion and by the page queue. The operations that end a lease take the claim the
  store handed out; \<open>page_token\<close> and \<open>phase_token\<close> say that a claim was handed out by this store.
\<close>

section \<open>Claims\<close>

definition page_token :: "site_db \<Rightarrow> claimed_page \<Rightarrow> bool" where
  "page_token d t \<longleftrightarrow> cp_attempts t = cp_lease_gen t
     \<and> (\<exists>j \<in> set (jobs d). j_id j = cp_job t \<and> maxRetriesPerPage (j_policy j) = cp_max_retries t)"

definition phase_token :: "site_db \<Rightarrow> claimed_phase \<Rightarrow> bool" where
  "phase_token d t \<longleftrightarrow> (\<exists>j \<in> set (jobs d). j_id j = cj_id t \<and> j_owner j = cj_owner t
     \<and> j_policy j = cj_policy t \<and> cj_lease_gen t \<le> j_lease_gen j
     \<and> (holds_phase t j \<longrightarrow> cj_attempts t = j_phase_attempts j + 1))"

lemma page_token_evolves:
  assumes "page_token d t" "rows_evolve job_evolves (jobs d) (jobs d')"
  shows "page_token d' t"
proof -
  from assms(1) obtain j where j: "j \<in> set (jobs d)" "j_id j = cp_job t"
      "maxRetriesPerPage (j_policy j) = cp_max_retries t" and a: "cp_attempts t = cp_lease_gen t"
    by (auto simp: page_token_def)
  from assms(2) j(1) obtain j' where "j' \<in> set (jobs d')" "job_evolves j j'" by (rule rows_evolve_row)
  with j a show ?thesis by (auto simp: page_token_def job_moves_defs)
qed

lemma phase_token_evolves:
  assumes "phase_token d t" "rows_evolve job_evolves (jobs d) (jobs d')"
  shows "phase_token d' t"
proof -
  from assms(1) obtain j where j: "j \<in> set (jobs d)" "j_id j = cj_id t" "j_owner j = cj_owner t"
      "j_policy j = cj_policy t" "cj_lease_gen t \<le> j_lease_gen j"
      "holds_phase t j \<longrightarrow> cj_attempts t = j_phase_attempts j + 1"
    by (auto simp: phase_token_def)
  from assms(2) j(1) obtain j' where j': "j' \<in> set (jobs d')" "job_evolves j j'" by (rule rows_evolve_row)
  have "cj_attempts t = j_phase_attempts j' + 1" if h: "holds_phase t j'"
  proof -
    from h j'(2) j(5) have "j_lease_gen j' = j_lease_gen j" "j_lease_owner j' = Some (cj_lease_owner t)"
      by (auto simp: holds_phase_def job_moves_defs)
    with j'(2) have "j_lease_owner j' = j_lease_owner j" "j_phase_attempts j' = j_phase_attempts j"
      by (auto simp: job_moves_defs)
    with h j'(2) j show ?thesis by (auto simp: holds_phase_def job_moves_defs)
  qed
  with j j' show ?thesis unfolding phase_token_def job_moves_defs by (intro bexI [of _ j']) auto
qed

lemma phase_token_job:
  assumes "phase_token d t" "work_inv d" "j \<in> set (jobs d)" "j_id j = cj_id t"
  shows "j_owner j = cj_owner t" "j_policy j = cj_policy t" "cj_lease_gen t \<le> j_lease_gen j"
    "holds_phase t j \<Longrightarrow> cj_attempts t = j_phase_attempts j + 1"
proof -
  from assms(1) obtain k where k: "k \<in> set (jobs d)" "j_id k = cj_id t" "j_owner k = cj_owner t"
      "j_policy k = cj_policy t" "cj_lease_gen t \<le> j_lease_gen k"
      "holds_phase t k \<longrightarrow> cj_attempts t = j_phase_attempts k + 1"
    by (auto simp: phase_token_def)
  from assms k have "k = j" by (metis work_job_eq)
  with k show "j_owner j = cj_owner t" "j_policy j = cj_policy t" "cj_lease_gen t \<le> j_lease_gen j"
    "holds_phase t j \<Longrightarrow> cj_attempts t = j_phase_attempts j + 1" by simp_all
qed

lemma page_token_job:
  assumes "page_token d t" "work_inv d" "j \<in> set (jobs d)" "j_id j = cp_job t"
  shows "maxRetriesPerPage (j_policy j) = cp_max_retries t" "cp_attempts t = cp_lease_gen t"
  using assms unfolding page_token_def by (metis work_job_eq)+

section \<open>Ingestion\<close>

lemma target_row_simps [simp]:
  "p_job (target_row e i t) = i" "p_attempts (target_row e i t) = 0" "p_lease_gen (target_row e i t) = 0"
  by (simp_all add: target_row_def Let_def)

lemma target_row_status [simp]:
  "p_status (target_row e i t) \<noteq> P_RENDERING" "p_status (target_row e i t) \<noteq> P_SUCCEEDED"
  "p_status (target_row e i t) \<noteq> P_FAILED"
  by (simp_all add: target_row_def Let_def split: target_status.splits)

text \<open>What \<open>insert ... on conflict do nothing\<close> adds: rows of the list, none of which conflicts.\<close>

lemma insert_targets_append:
  "\<exists>new. insert_targets e i ts ps = ps @ new \<and> (\<forall>p \<in> set new. \<exists>t \<in> set ts. p = target_row e i t)"
proof (induction ts arbitrary: ps)
  case Nil
  show ?case by (simp add: insert_targets_def)
next
  case (Cons t ts)
  let ?ps = "insert_target (target_row e i t) ps"
  from Cons [of ?ps] obtain new where new: "insert_targets e i ts ?ps = ?ps @ new"
    "\<forall>p \<in> set new. \<exists>t \<in> set ts. p = target_row e i t" by blast
  show ?case
  proof (cases "\<exists>q \<in> set ps. page_conflict (target_row e i t) q")
    case True
    then have ps: "?ps = ps" by (simp add: insert_target_def)
    have "insert_targets e i (t # ts) ps = insert_targets e i ts ?ps" by (simp add: insert_targets_def)
    with new ps show ?thesis by (intro exI [of _ new]) auto
  next
    case False
    then have ps: "?ps = ps @ [target_row e i t]" by (simp add: insert_target_def)
    have "insert_targets e i (t # ts) ps = insert_targets e i ts ?ps" by (simp add: insert_targets_def)
    with new ps show ?thesis by (intro exI [of _ "target_row e i t # new"]) auto
  qed
qed

lemma insert_targets_keys:
  "distinct (map page_key ps) \<Longrightarrow> distinct (map page_key (insert_targets e i ts ps))"
proof (induction ts arbitrary: ps)
  case Nil
  then show ?case by (simp add: insert_targets_def)
next
  case (Cons t ts)
  have "distinct (map page_key (insert_target (target_row e i t) ps))"
    using Cons.prems by (auto simp: insert_target_def page_conflict_def)
  from Cons.IH [OF this] show ?case by (simp add: insert_targets_def)
qed

lemma count_where_target_rows:
  assumes "\<forall>p \<in> set new. \<exists>t \<in> set ts. p = target_row e i t"
    and "\<And>t. \<not> Q (target_row e i t)"
  shows "count_where Q new = 0"
  unfolding count_where_0 using assms by fastforce

lemma addTargets_preserves:
  assumes inv: "site_inv d" and tok: "phase_token d t" and ok: "addTargets e t ts d = Inr (n, d')"
  shows "preserves d d'"
proof (cases "ts = []")
  case True
  with ok inv show ?thesis by (simp add: addTargets_def preserves_refl)
next
  case False
  from inv have work: "work_inv d" by (rule site_inv_work)
  have core: "core_inv d" using work by (rule work_core)
  obtain new where new: "insert_targets e (cj_id t) ts (pages d) = pages d @ new"
    "\<forall>p \<in> set new. \<exists>x \<in> set ts. p = target_row e (cj_id t) x"
    using insert_targets_append by blast
  from False ok obtain j0 where j0: "j0 \<in> set (jobs d)" "holds_ingestion e t j0"
    and limit: "total_pages (cj_id t) (d\<lparr>pages := pages d @ new\<rparr>) \<le> maxPages (cj_policy t)"
    and d': "d' = d\<lparr>pages := pages d @ new\<rparr>" and schema: "schema_ok d'"
    by (auto simp: addTargets_def Let_def new split: if_splits)
  have id0: "j_id j0 = cj_id t" "j_status j0 = INGESTING" using j0(2) by (simp_all add: holds_ingestion_def)
  have new_job: "p_job p = cj_id t" if "p \<in> set new" for p using new(2) that by auto
  have counts: "page_count i s d' = page_count i s d" if "s \<in> {P_RENDERING, P_SUCCEEDED, P_FAILED}" for i s
  proof -
    have "count_where (\<lambda>p. p_job p = i \<and> p_status p = s) new = 0"
      by (rule count_where_target_rows [OF new(2)]) (use that in auto)
    then show ?thesis by (simp add: page_count_def d')
  qed
  have bytes: "succeeded_bytes i d' = succeeded_bytes i d" for i
  proof -
    have "filter (\<lambda>p. p_job p = i \<and> p_status p = P_SUCCEEDED) new = []"
      using new(2) by (fastforce simp: filter_empty_conv)
    then show ?thesis by (simp add: succeeded_bytes_def sum_where_def d')
  qed
  have others: "page_count i s d' = page_count i s d" "total_pages i d' = total_pages i d"
    if "i \<noteq> cj_id t" for i s
  proof -
    have "count_where (\<lambda>p. p_job p = i \<and> p_status p = s) new = 0" "count_where (\<lambda>p. p_job p = i) new = 0"
      using new_job that by (auto simp: count_where_0)
    then show "page_count i s d' = page_count i s d" "total_pages i d' = total_pages i d"
      by (simp_all add: page_count_def total_pages_def d')
  qed
  have "core_inv d'"
    unfolding core_inv_def
  proof (intro conjI ballI impI)
    fix j assume "j \<in> set (jobs d')"
    then have j: "j \<in> set (jobs d)" by (simp add: d')
    note ji = core_jobD [OF core j]
    show "job_inv d' j"
    proof (cases "j_id j = cj_id t")
      case True
      with j j0 id0 have "j = j0" by (metis work_job_eq [OF work])
      moreover have "j_policy j = cj_policy t" by (rule phase_token_job(2) [OF tok work j True])
      ultimately show ?thesis
        using ji limit id0 True unfolding job_inv_defs by (simp add: counts bytes d' [symmetric] split: if_split_asm)
    next
      case False
      have "job_inv d' j = job_inv d j"
        by (rule job_inv_aggregates) (simp_all add: others [OF False] bytes)
      with ji show ?thesis by simp
    qed
    { fix p assume p: "p \<in> set (pages d')" "p_job p = j_id j"
      show "page_inv j p"
      proof (cases "p \<in> set (pages d)")
        case True
        with core_pageD [OF core j] p(2) show ?thesis by blast
      next
        case False
        with p(1) have "p \<in> set new" by (simp add: d')
        with new(2) obtain x where "p = target_row e (cj_id t) x" by blast
        moreover have "1 \<le> maxRetriesPerPage (j_policy j)"
          using site_inv_check [OF inv j] by (simp add: job_check_def policy_check_def)
        ultimately show ?thesis by (simp add: page_inv_def)
      qed }
    { fix a assume "a \<in> set (artifacts d')" "a_job a = j_id j"
      then show "artifact_inv j a" using core_artifactD [OF core j] by (simp add: d') }
    { fix x assume "x \<in> set (outbox d')" "o_job x = j_id j"
      then show "1 \<le> o_version x" "o_version x \<le> j_event_version j"
        using core_outboxD [OF core j] by (simp_all add: d') }
    show "count_where (\<lambda>x. o_job x = j_id j) (outbox d') = j_event_version j"
      using core_countD [OF core j] by (simp add: d')
  qed
  moreover have "evolves d d'"
    by (simp add: evolves_def d' rows_evolve_refl rows_evolve_append)
  ultimately show ?thesis using schema by (simp add: preserves_def site_inv_def)
qed

lemma finishIngestion_preserves:
  assumes inv: "site_inv d" and ok: "finishIngestion e t d = Inr (u, d')"
  shows "preserves d d'"
proof -
  from inv have work: "work_inv d" by (rule site_inv_work)
  let ?fail = "\<lambda>j. j\<lparr>j_status := FAILED, j_lease_owner := None, j_lease_expires := None,
      j_terminal_code := Some ''NO_CLONEABLE_PAGES'',
      j_terminal_message := Some ''The scan produced no cloneable pages.'',
      j_finished := Some (now e), j_updated := now e\<rparr>"
  let ?run = "\<lambda>j. j\<lparr>j_status := RUNNING, j_lease_owner := None, j_lease_expires := None,
      j_phase_attempts := 0, j_phase_available := now e, j_discovered := total_pages (cj_id t) d,
      j_ingestion_finished := Some (now e), j_started := Some (coalesce (j_started j) (now e)), j_updated := now e\<rparr>"
  have fail: "progress d (d\<lparr>jobs := update_where (owns_ingestion t) ?fail (jobs d)\<rparr>)"
  proof (rule progress_update_jobs [OF work _ refl])
    fix j assume "owns_ingestion t j" "job_inv d j"
    then show "job_inv d (?fail j) \<and> job_moves j (?fail j)
        \<and> (j_status j \<in> {PUBLISHED, PARTIAL} \<longrightarrow> j_status (?fail j) \<in> {PUBLISHED, PARTIAL})"
      by (auto simp: owns_ingestion_def job_inv_defs job_moves_defs)
  qed
  have run: "progress d (d\<lparr>jobs := update_where (owns_ingestion t) ?run (jobs d)\<rparr>)"
  proof (rule progress_update_jobs [OF work _ refl])
    fix j assume "owns_ingestion t j" "job_inv d j"
    then show "job_inv d (?run j) \<and> job_moves j (?run j)
        \<and> (j_status j \<in> {PUBLISHED, PARTIAL} \<longrightarrow> j_status (?run j) \<in> {PUBLISHED, PARTIAL})"
      by (auto simp: owns_ingestion_def job_inv_defs job_moves_defs)
  qed
  from ok obtain d1 s d2 where d2: "enqueueEvent e (cj_id t) s d1 = Inr d2" "commit u d2 = Inr (u, d')"
    and d1: "d1 = d\<lparr>jobs := update_where (owns_ingestion t) ?fail (jobs d)\<rparr>
      \<or> d1 = d\<lparr>jobs := update_where (owns_ingestion t) ?run (jobs d)\<rparr>"
    unfolding finishIngestion_def Let_def by (auto split: if_splits)
  from d1 fail run have p1: "progress d d1" by blast
  from progress_trans [OF p1 progress_enqueueEvent [OF progress_work [OF p1] d2(1)]] d2(2)
  show ?thesis by (rule preserves_commit)
qed

section \<open>Reclaiming and admitting pages\<close>

definition refreshed :: "env \<Rightarrow> site_db \<Rightarrow> job_row \<Rightarrow> job_row" where
  "refreshed e d j = j\<lparr>
     j_processed := page_count (j_id j) P_SUCCEEDED d + page_count (j_id j) P_FAILED d,
     j_succeeded := page_count (j_id j) P_SUCCEEDED d, j_failed := page_count (j_id j) P_FAILED d,
     j_input_bytes := succeeded_bytes (j_id j) d, j_updated := now e\<rparr>"

lemma refreshed_idem [simp]: "refreshed e d (refreshed e d j) = refreshed e d j"
  by (simp add: refreshed_def)

lemma refreshed_id [simp]: "j_id (refreshed e d j) = j_id j"
  by (simp add: refreshed_def)

lemma refreshed_cong: "pages d' = pages d \<Longrightarrow> refreshed e d' j = refreshed e d j"
  using aggregates_cong [of d' d] by (simp add: refreshed_def)

lemma refresh_eq:
  "refreshJobCounters e i d = d\<lparr>jobs := update_where (\<lambda>j. j_id j = i) (refreshed e d) (jobs d)\<rparr>"
  unfolding refreshJobCounters_def processed_eq
  by (simp add: update_job_def update_where_def refreshed_def cong: if_cong)

lemma refresh_all_eq:
  "fold (refreshJobCounters e) is d = d\<lparr>jobs := update_where (\<lambda>j. j_id j \<in> set is) (refreshed e d) (jobs d)\<rparr>"
proof (induction "is" arbitrary: d)
  case Nil
  show ?case by (simp add: update_where_def)
next
  case (Cons i "is")
  let ?d = "refreshJobCounters e i d"
  have p: "pages ?d = pages d" by (simp add: refresh_eq)
  have "refreshed e ?d = refreshed e d" using refreshed_cong [OF p] by blast
  then have "fold (refreshJobCounters e) (i # is) d
      = ?d\<lparr>jobs := update_where (\<lambda>j. j_id j \<in> set is) (refreshed e d) (jobs ?d)\<rparr>"
    by (simp add: Cons.IH)
  also have "update_where (\<lambda>j. j_id j \<in> set is) (refreshed e d) (jobs ?d)
      = update_where (\<lambda>j. j_id j \<in> set (i # is)) (refreshed e d) (jobs d)"
    by (simp add: refresh_eq update_where_def)
  finally show ?case by (simp add: refresh_eq)
qed

lemma refreshed_job_inv:
  assumes ji: "job_inv d j"
    and same: "succeeded_bytes (j_id j) d' = succeeded_bytes (j_id j) d"
      "total_pages (j_id j) d' = total_pages (j_id j) d"
    and fewer: "page_count (j_id j) P_RENDERING d' \<le> page_count (j_id j) P_RENDERING d"
    and run: "0 < page_count (j_id j) P_RENDERING d"
  shows "job_inv d' (refreshed e d' j)"
proof -
  obtain y where fin: "j_ingestion_finished j = Some y" using job_inv_rendering(1) [OF ji run] by blast
  have "j_status j = RUNNING \<or> j_status j = CANCEL_REQUESTED" by (rule job_inv_rendering [OF ji run])
  then show ?thesis
    by (rule disjE) (insert ji fewer same fin, simp_all add: job_inv_defs refreshed_def)
qed

lemma reclaim_progress:
  assumes work: "work_inv d"
  shows "progress d (reclaim_pages e d)"
proof -
  let ?ex = "expired_pages e d"
  let ?P = "\<lambda>p. page_key p \<in> page_key ` set ?ex"
  let ?f = "\<lambda>p. reclaim_row e (max_retries_of (p_job p) d) p"
  let ?d1 = "d\<lparr>pages := update_where ?P ?f (pages d)\<rparr>"
  let ?d' = "reclaim_pages e d"
  have d': "?d' = ?d1\<lparr>jobs := update_where (\<lambda>j. j_id j \<in> p_job ` set ?ex) (refreshed e ?d1) (jobs d)\<rparr>"
    by (simp add: reclaim_pages_def Let_def refresh_all_eq)
  have ex: "p \<in> set (pages d) \<and> p_status p = P_RENDERING" if "p \<in> set ?ex" for p
    using that unfolding expired_pages_def by (auto dest!: in_set_takeD)
  have hit: "p_status p = P_RENDERING \<and> p_job p \<in> p_job ` set ?ex" if p: "p \<in> set (pages d)" "?P p" for p
  proof -
    from p(2) obtain q where q: "q \<in> set ?ex" "page_key p = page_key q" by blast
    with ex [OF q(1)] p(1) have "p = q"
      using distinct_key_unique [OF work_page_keys [OF work], of p q] by blast
    with q ex show ?thesis by blast
  qed
  have f: "p_job (?f p) = p_job p" "p_status (?f p) \<in> {P_QUEUED, P_FAILED}" for p
    by (simp_all add: reclaim_row_def Let_def)
  have total: "total_pages i ?d1 = total_pages i d" for i
    unfolding total_pages_def by (simp add: count_where_update_same f(1))
  have bytes: "succeeded_bytes i ?d1 = succeeded_bytes i d" for i
  proof -
    have "sum_where (\<lambda>p. p_job p = i \<and> p_status p = P_SUCCEEDED) p_input_bytes (update_where ?P ?f (pages d))
        = sum_where (\<lambda>p. p_job p = i \<and> p_status p = P_SUCCEEDED) p_input_bytes (pages d)"
    proof (rule sum_where_update_same)
      fix p assume "p \<in> set (pages d)" "?P p"
      with hit [of p] f(2) [of p] have "p_status p = P_RENDERING" "p_status (?f p) \<noteq> P_SUCCEEDED" by auto
      then show "((p_job (?f p) = i \<and> p_status (?f p) = P_SUCCEEDED) = (p_job p = i \<and> p_status p = P_SUCCEEDED))
          \<and> (p_job p = i \<and> p_status p = P_SUCCEEDED \<longrightarrow> p_input_bytes (?f p) = p_input_bytes p)"
        by simp
    qed
    then show ?thesis by (simp add: succeeded_bytes_def)
  qed
  have unaffected: "page_count i s ?d1 = page_count i s d" if "i \<notin> p_job ` set ?ex" for i s
  proof -
    have "count_where (\<lambda>p. p_job p = i \<and> p_status p = s) (update_where ?P ?f (pages d))
        = count_where (\<lambda>p. p_job p = i \<and> p_status p = s) (pages d)"
    proof (rule count_where_update_same)
      fix p assume "p \<in> set (pages d)" "?P p"
      with hit have "p_job p \<noteq> i" using that by blast
      then show "(p_job (?f p) = i \<and> p_status (?f p) = s) = (p_job p = i \<and> p_status p = s)" by (simp add: f(1))
    qed
    then show ?thesis by (simp add: page_count_def)
  qed
  have fewer: "page_count i P_RENDERING ?d1 \<le> page_count i P_RENDERING d" for i
  proof -
    have "count_where Q (update_where ?P ?f rs) \<le> count_where Q rs"
      if "\<And>p. \<not> Q (?f p)" for Q rs by (induction rs) (use that in auto)
    moreover have "\<not> (p_job (?f p) = i \<and> p_status (?f p) = P_RENDERING)" for p using f(2) [of p] by auto
    ultimately show ?thesis by (simp add: page_count_def)
  qed
  have cong: "job_inv ?d' j = job_inv ?d1 j" for j by (rule job_inv_cong) (simp add: d')
  show ?thesis
  proof (rule progress_map [OF work, of ?d' "\<lambda>j. if j_id j \<in> p_job ` set ?ex then refreshed e ?d1 j else j"
        "\<lambda>p. if ?P p then ?f p else p" "\<lambda>a. a"])
    fix j assume j: "j \<in> set (jobs d)" "job_inv d j"
    show "job_inv ?d' (if j_id j \<in> p_job ` set ?ex then refreshed e ?d1 j else j)"
    proof (cases "j_id j \<in> p_job ` set ?ex")
      case True
      then obtain q where q: "q \<in> set ?ex" "p_job q = j_id j" by auto
      with ex have "0 < page_count (j_id j) P_RENDERING d"
        unfolding page_count_def by (intro count_where_pos [of q]) auto
      from refreshed_job_inv [OF j(2) bytes total fewer this] True cong show ?thesis by simp
    next
      case False
      have "job_inv ?d1 j = job_inv d j"
        by (rule job_inv_aggregates) (simp_all only: unaffected [OF False] bytes total)
      with False cong j(2) show ?thesis by simp
    qed
    show "job_moves j (if j_id j \<in> p_job ` set ?ex then refreshed e ?d1 j else j)"
      by (simp add: refreshed_def job_moves_defs)
  next
    fix p assume p: "p \<in> set (pages d)"
    show "page_evolves p (if ?P p then ?f p else p)"
      using hit [OF p] by (simp add: page_evolves_def reclaim_row_def Let_def ended_def)
  next
    fix j p assume *: "j \<in> set (jobs d)" "p_job p = j_id j" "page_inv j p"
    have "find_job (j_id j) d = Some j"
      by (rule find_job_unique [OF work_job_ids [OF work] *(1)])
    with * have r: "max_retries_of (p_job p) d = maxRetriesPerPage (j_policy j)" by (simp add: max_retries_of_def)
    with *(3) show "page_inv j (if ?P p then ?f p else p)"
      by (simp add: page_inv_def reclaim_row_def Let_def)
  next
    fix j a assume "artifact_inv j a"
    then show "artifact_inv (if j_id j \<in> p_job ` set ?ex then refreshed e ?d1 j else j) a"
      by (simp add: refreshed_def artifact_inv_def)
  qed (simp_all add: d' update_where_def)
qed

lemma max_retries_of_job: "work_inv d \<Longrightarrow> j \<in> set (jobs d) \<Longrightarrow> max_retries_of (j_id j) d = maxRetriesPerPage (j_policy j)"
  by (simp add: max_retries_of_def find_job_unique work_job_ids)

text \<open>A statement that only writes pages, as an instance of the moves of a page and its job.\<close>

lemma update_where_True [simp]: "update_where P (\<lambda>r. r) rs = rs"
  by (simp add: update_where_def)

lemma claimPage_preserves:
  assumes inv: "site_inv d" and ok: "claimPage e w d = Inr (r, d')"
  shows "preserves d d'"
proof -
  from inv have p1: "progress d (reclaim_pages e d)" by (rule reclaim_progress [OF site_inv_work])
  let ?d1 = "reclaim_pages e d"
  from p1 have work: "work_inv ?d1" by (rule progress_work)
  show ?thesis
  proof (cases "first_by (\<lambda>p. (p_available p, p_ordinal p, p_page p)) (claimable e ?d1) (pages ?d1)")
    case None
    with ok have "commit r ?d1 = Inr (r, d')" by (auto simp: claimPage_def Let_def)
    with p1 show ?thesis by (rule preserves_commit)
  next
    case (Some c)
    let ?d2 = "?d1\<lparr>pages := update_where (\<lambda>p. page_key p = page_key c) (render_row e w) (pages ?d1)\<rparr>"
    from first_by_Some [OF Some] have c: "c \<in> set (pages ?d1)" "claimable e ?d1 c" by blast+
    then obtain k where k: "find_job (p_job c) ?d1 = Some k" "j_status k = RUNNING"
        "page_count (j_id k) P_RENDERING ?d1 < pageConcurrency (j_policy k)" and q: "p_status c = P_QUEUED"
      by (auto simp: claimable_def split: option.splits)
    from find_job_Some [OF k(1)] have kin: "k \<in> set (jobs ?d1)" "j_id k = p_job c" by blast+
    have rows: "p_job (render_row e w p) = p_job p" "p_status (render_row e w p) = P_RENDERING" for p
      by (simp_all add: render_row_def)
    have d2: "pages ?d2 = update_where (\<lambda>p. page_key p = page_key c \<and> True) (render_row e w) (pages ?d1)"
      by simp
    have "progress ?d1 ?d2"
    proof (rule progress_page_move [OF work c(1) TrueI d2, where g = "\<lambda>j. j"])
      fix j assume j: "j \<in> set (jobs ?d1)" "j_id j = p_job c" and ji: "job_inv ?d1 j" and pi: "page_inv j c"
      have "j = k" using work_job_eq [OF work j(1) kin(1)] j kin by simp
      with k j have run: "j_status j = RUNNING" "page_count (p_job c) P_RENDERING ?d1 < pageConcurrency (j_policy j)"
        by simp_all
      note move = aggregates_move [OF work_page_keys [OF work] c(1) TrueI rows(1) d2]
      have agg: "page_count (p_job c) P_RENDERING ?d2 = page_count (p_job c) P_RENDERING ?d1 + 1"
          "page_count (p_job c) P_SUCCEEDED ?d2 = page_count (p_job c) P_SUCCEEDED ?d1"
          "page_count (p_job c) P_FAILED ?d2 = page_count (p_job c) P_FAILED ?d1"
          "succeeded_bytes (p_job c) ?d2 = succeeded_bytes (p_job c) ?d1"
          "total_pages (p_job c) ?d2 = total_pages (p_job c) ?d1"
        using move(1) [of P_RENDERING] move(1) [of P_SUCCEEDED] move(1) [of P_FAILED] move(2) move(3)
        by (simp_all add: q rows(2))
      from ji run(1) obtain y where "j_ingestion_finished j = Some y"
        by (auto simp: job_inv_def discovery_ok_def)
      with ji run j(2) have "job_inv ?d2 j" unfolding job_inv_defs agg j(2) by simp
      moreover from pi q have "page_inv j (render_row e w c)" by (simp add: page_inv_def render_row_def)
      ultimately show "job_inv ?d2 j \<and> job_moves j j \<and> page_inv j (render_row e w c)
          \<and> (j_status j \<in> {PUBLISHED, PARTIAL} \<longrightarrow> j_status j \<in> {PUBLISHED, PARTIAL})" by simp
    qed (simp_all add: rows, simp add: render_row_def page_evolves_def ended_def q)
    from progress_trans [OF p1 this] have "progress d ?d2" .
    moreover from ok Some have "\<exists>r'. commit r' ?d2 = Inr (r, d')"
      unfolding claimPage_def Let_def by auto
    ultimately show ?thesis by (blast intro: preserves_commit)
  qed
qed

section \<open>Ending a page lease\<close>

lemma extendPageLease_preserves:
  assumes inv: "site_inv d" and ok: "extendPageLease e t d = Inr (r, d')"
  shows "preserves d d'"
proof -
  have "progress d (d\<lparr>pages := update_where (holds_page t)
      (\<lambda>p. p\<lparr>p_lease_expires := Some (now e + seconds 60), p_updated := now e\<rparr>) (pages d)\<rparr>)"
    by (rule progress_pages_neutral [OF site_inv_work [OF inv] refl]) (simp add: page_evolves_def)
  with ok show ?thesis unfolding extendPageLease_def by (rule preserves_commit [rotated])
qed

text \<open>
  The row a page claim holds ends in status \<open>s\<close>, and the counters of its job move as \<open>g\<close> says.
\<close>

lemma holds_page_key: "holds_page t p \<Longrightarrow> page_key p = (cp_job t, cp_page t) \<and> p_status p = P_RENDERING"
  by (simp add: holds_page_def)

lemma holds_page_where:
  assumes "holds_page t p"
  shows "update_where (holds_page t) f rs = update_where (\<lambda>q. page_key q = page_key p \<and> holds_page t q) f rs"
proof -
  have "holds_page t q = (page_key q = page_key p \<and> holds_page t q)" for q
    using holds_page_key [OF assms] holds_page_key [of t q] by metis
  then show ?thesis unfolding update_where_def by metis
qed

lemma end_page_progress:
  assumes work: "work_inv d" and p: "p \<in> set (pages d)" "holds_page t p"
    and f: "\<And>q. p_job (f q) = p_job q" "page_evolves p (f p)" "p_lease_gen (f p) = p_lease_gen p"
      "p_attempts (f p) = p_attempts p"
    and status: "p_status (f p) \<noteq> P_RENDERING"
      "\<And>j. j \<in> set (jobs d) \<Longrightarrow> j_id j = cp_job t \<Longrightarrow> page_inv j p \<Longrightarrow>
        p_status (f p) = P_QUEUED \<longrightarrow> p_attempts p < maxRetriesPerPage (j_policy j)"
    and row: "\<And>j. j \<in> set (jobs d) \<Longrightarrow> j_id j = cp_job t \<Longrightarrow> job_moves j (g j) \<and> j_status (g j) = j_status j
      \<and> j_phase_attempts (g j) = j_phase_attempts j \<and> j_discovered (g j) = j_discovered j
      \<and> j_ingestion_finished (g j) = j_ingestion_finished j
      \<and> j_succeeded (g j) = j_succeeded j + of_bool (p_status (f p) = P_SUCCEEDED)
      \<and> j_failed (g j) = j_failed j + of_bool (p_status (f p) = P_FAILED)
      \<and> j_processed (g j) = j_processed j + of_bool (p_status (f p) \<in> {P_SUCCEEDED, P_FAILED})
      \<and> j_input_bytes (g j) = j_input_bytes j + (if p_status (f p) = P_SUCCEEDED then p_input_bytes (f p) else 0)
      \<and> (p_status (f p) = P_SUCCEEDED \<longrightarrow> j_input_bytes (g j) \<le> maxInputBytes (j_policy j))"
  shows "progress d (update_job (cp_job t) g (d\<lparr>pages := update_where (holds_page t) f (pages d)\<rparr>))"
proof -
  let ?d' = "update_job (cp_job t) g (d\<lparr>pages := update_where (holds_page t) f (pages d)\<rparr>)"
  from holds_page_key [OF p(2)] have key: "p_job p = cp_job t" and ren: "p_status p = P_RENDERING" by simp_all
  have d': "pages ?d' = update_where (\<lambda>q. page_key q = page_key p \<and> holds_page t q) f (pages d)"
    using holds_page_where [OF p(2)] by (simp add: update_job_def)
  note move = aggregates_move [OF work_page_keys [OF work] p f(1) d']
  show ?thesis
  proof (rule progress_page_move [OF work p d', where g = g])
    fix j assume j: "j \<in> set (jobs d)" "j_id j = p_job p" and ji: "job_inv d j" and pi: "page_inv j p"
    from j key have idj: "j_id j = cp_job t" by simp
    note r = row [OF j(1) idj]
    from r have idg: "j_id (g j) = cp_job t" "j_policy (g j) = j_policy j" using idj by (simp_all add: job_moves_defs)
    have pos: "0 < page_count (cp_job t) P_RENDERING d"
      unfolding page_count_def using p(1) key ren by (intro count_where_pos [of p]) simp_all
    with ji idj obtain y where fin: "j_ingestion_finished j = Some y"
      using job_inv_rendering(1) [OF ji] by auto
    have run: "j_status j = RUNNING \<or> j_status j = CANCEL_REQUESTED"
      using job_inv_rendering(2) [OF ji] pos idj by simp
    have agg: "page_count (cp_job t) P_RENDERING ?d' \<le> page_count (cp_job t) P_RENDERING d"
        "page_count (cp_job t) P_SUCCEEDED ?d' = page_count (cp_job t) P_SUCCEEDED d + of_bool (p_status (f p) = P_SUCCEEDED)"
        "page_count (cp_job t) P_FAILED ?d' = page_count (cp_job t) P_FAILED d + of_bool (p_status (f p) = P_FAILED)"
        "succeeded_bytes (cp_job t) ?d' = succeeded_bytes (cp_job t) d
           + (if p_status (f p) = P_SUCCEEDED then p_input_bytes (f p) else 0)"
        "total_pages (cp_job t) ?d' = total_pages (cp_job t) d"
      using move(1) [of P_RENDERING] move(1) [of P_SUCCEEDED] move(1) [of P_FAILED] move(2) move(3) status(1)
      unfolding key ren by simp_all
    have c: "counters_ok d j" and b: "budgets_ok d j" and di: "discovery_ok d j" using ji by (simp_all add: job_inv_def)
    have "counters_ok ?d' (g j)"
      using c r unfolding counters_ok_def idg agg idj by (cases "p_status (f p)") simp_all
    moreover have "budgets_ok ?d' (g j)"
      using b c r agg(1) unfolding budgets_ok_def counters_ok_def idg agg(2-) idj
      by (cases "p_status (f p) = P_SUCCEEDED") simp_all
    moreover have "discovery_ok ?d' (g j)"
      using di r fin run unfolding discovery_ok_def idg agg(5) idj by auto
    moreover have "quiet_ok ?d' (g j)"
      using r run unfolding quiet_ok_def by auto
    ultimately have "job_inv ?d' (g j)" by (simp only: job_inv_def)
    moreover have "page_inv j (f p)"
      using pi status(2) [OF j(1) idj pi] f(3,4) unfolding page_inv_def by simp
    ultimately show "job_inv ?d' (g j) \<and> job_moves j (g j) \<and> page_inv j (f p)
        \<and> (j_status j \<in> {PUBLISHED, PARTIAL} \<longrightarrow> j_status (g j) \<in> {PUBLISHED, PARTIAL})"
      using r by simp
  qed (simp_all add: f key update_job_def)
qed

abbreviation bumped :: "env \<Rightarrow> bool \<Rightarrow> nat \<Rightarrow> job_row \<Rightarrow> job_row" where
  "bumped e ok n \<equiv> (\<lambda>j. j\<lparr>j_processed := j_processed j + 1, j_succeeded := j_succeeded j + (if ok then 1 else 0),
     j_failed := j_failed j + (if ok then 0 else 1), j_input_bytes := j_input_bytes j + n, j_updated := now e\<rparr>)"

lemma incrementJob_progress:
  assumes "progress d (update_job i (bumped e ok n) d1)" "incrementJob e i ok n d1 = Inr d2"
  shows "progress d d2"
proof -
  from assms(2) have "d2 = update_job i (bumped e ok n) d1
      \<or> enqueueEvent e i RUNNING (update_job i (bumped e ok n) d1) = Inr d2"
    unfolding incrementJob_def Let_def by (auto split: if_splits)
  with assms(1) show ?thesis
    using progress_trans [OF assms(1) progress_enqueueEvent [OF progress_work [OF assms(1)]]] by blast
qed

lemma update_job_id: "update_job i (\<lambda>j. j) d = d"
  by (simp add: update_job_def)

lemma held_page_evolves:
  assumes "holds_page t p" "p_job q = p_job p" "p_page q = p_page p" "p_ordinal q = p_ordinal p"
    "p_public_url q = p_public_url p" "p_url_sha q = p_url_sha p" "p_local_path q = p_local_path p"
    "p_created q = p_created p" "p_attempts q = p_attempts p" "p_lease_gen q = p_lease_gen p" "p_lease_owner q = None"
  shows "page_evolves p q"
  using assms by (simp add: page_evolves_def holds_page_def ended_def)

lemma completePage_preserves:
  assumes inv: "site_inv d" and ok: "completePage e t bundle n d = Inr (r, d')"
  shows "preserves d d'"
proof -
  from inv have work: "work_inv d" by (rule site_inv_work)
  from ok obtain p where p: "p \<in> set (pages d)" "holds_page t p"
    by (auto simp: completePage_def split: if_splits)
  from p ok obtain k where k: "find_job (cp_job t) d = Some k"
    by (auto simp: completePage_def split: option.splits if_splits)
  from find_job_Some [OF k] have kin: "k \<in> set (jobs d)" "j_id k = cp_job t" by blast+
  have jk: "j = k" if "j \<in> set (jobs d)" "j_id j = cp_job t" for j
    using work_job_eq [OF work that(1) kin(1)] that kin by simp
  have finish: "p_job (q\<lparr>p_status := s, p_lease_owner := None, p_lease_expires := None,
      p_failure_code := Some code, p_finished := Some (now e), p_updated := now e\<rparr>) = p_job q" for q s code by simp
  consider (cancelled) "j_status k = CANCEL_REQUESTED"
    | (budget) "j_status k \<noteq> CANCEL_REQUESTED" "maxInputBytes (j_policy k) < j_input_bytes k + n"
    | (stored) "j_status k \<noteq> CANCEL_REQUESTED" "j_input_bytes k + n \<le> maxInputBytes (j_policy k)"
    by linarith
  then show ?thesis
  proof cases
    case cancelled
    from ok p k cancelled have "commit False (finishPageWithoutBundle e t P_CANCELLED ''CANCELLED'' d) = Inr (r, d')"
      by (auto simp: completePage_def split: if_splits)
    moreover have "progress d (update_job (cp_job t) (\<lambda>j. j) (finishPageWithoutBundle e t P_CANCELLED ''CANCELLED'' d))"
      unfolding finishPageWithoutBundle_def
      by (rule end_page_progress [OF work p]) (simp_all add: held_page_evolves [OF p(2)])
    ultimately show ?thesis unfolding update_job_id by (rule preserves_commit [rotated])
  next
    case budget
    from ok p k budget obtain d2 where d2: "incrementJob e (cp_job t) False 0
        (finishPageWithoutBundle e t P_FAILED ''SITE_INPUT_BUDGET_EXCEEDED'' d) = Inr d2" "commit False d2 = Inr (r, d')"
      by (auto simp: completePage_def split: if_splits)
    have "progress d (update_job (cp_job t) (bumped e False 0)
        (finishPageWithoutBundle e t P_FAILED ''SITE_INPUT_BUDGET_EXCEEDED'' d))"
      unfolding finishPageWithoutBundle_def
      by (rule end_page_progress [OF work p]) (simp_all add: held_page_evolves [OF p(2)] job_moves_defs)
    from incrementJob_progress [OF this d2(1)] d2(2) show ?thesis by (rule preserves_commit)
  next
    case stored
    from ok p k stored obtain d2 where d2: "incrementJob e (cp_job t) True n
        (d\<lparr>pages := update_where (holds_page t) (succeed_row e bundle n) (pages d)\<rparr>) = Inr d2"
        "commit True d2 = Inr (r, d')"
      by (auto simp: completePage_def split: if_splits)
    have "progress d (update_job (cp_job t) (bumped e True n)
        (d\<lparr>pages := update_where (holds_page t) (succeed_row e bundle n) (pages d)\<rparr>))"
      by (rule end_page_progress [OF work p])
        (simp_all add: held_page_evolves [OF p(2)] succeed_row_def job_moves_defs, use jk stored in blast)
    from incrementJob_progress [OF this d2(1)] d2(2) show ?thesis by (rule preserves_commit)
  qed
qed

lemma failPage_preserves:
  assumes inv: "site_inv d" and tok: "page_token d t" and ok: "failPage e t code d = Inr (r, d')"
  shows "preserves d d'"
proof -
  from inv have work: "work_inv d" by (rule site_inv_work)
  let ?d1 = "d\<lparr>pages := update_where (holds_page t) (retry_row e t code) (pages d)\<rparr>"
  show ?thesis
  proof (cases "\<exists>p \<in> set (pages d). holds_page t p")
    case False
    then have "?d1 = d" by (simp add: update_where_none)
    with False ok show ?thesis unfolding failPage_def Let_def by (simp add: preserves_refl inv)
  next
    case True
    then obtain p where p: "p \<in> set (pages d)" "holds_page t p" by blast
    then have gen: "p_lease_gen p = cp_lease_gen t" by (simp add: holds_page_def)
    have limit: "p_attempts p = cp_attempts t \<and> maxRetriesPerPage (j_policy j) = cp_max_retries t"
      if "j \<in> set (jobs d)" "j_id j = cp_job t" "page_inv j p" for j
      using page_token_job [OF tok work that(1,2)] that(3) gen by (simp add: page_inv_def)
    show ?thesis
    proof (cases "cp_attempts t < cp_max_retries t")
      case again: True
      with ok have "commit () ?d1 = Inr (r, d')" unfolding failPage_def Let_def by simp
      moreover have "progress d (update_job (cp_job t) (\<lambda>j. j) ?d1)"
        by (rule end_page_progress [OF work p])
          (simp_all add: held_page_evolves [OF p(2)] retry_row_def Let_def again limit)
      ultimately show ?thesis unfolding update_job_id by (rule preserves_commit [rotated])
    next
      case last: False
      with ok True obtain d2 where d2: "incrementJob e (cp_job t) False 0 ?d1 = Inr d2" "commit () d2 = Inr (r, d')"
        unfolding failPage_def Let_def by auto
      have "progress d (update_job (cp_job t) (bumped e False 0) ?d1)"
        by (rule end_page_progress [OF work p])
          (simp_all add: held_page_evolves [OF p(2)] retry_row_def Let_def last job_moves_defs)
      from incrementJob_progress [OF this d2(1)] d2(2) show ?thesis by (rule preserves_commit)
    qed
  qed
qed

end
