(* ===== verification/Site_Preserve_Phases.thy ===== *)
theory Site_Preserve_Phases
  imports Site_Preserve_Pages
begin

text \<open>
  Preservation by the assembly of the archive, by retries, by the reconciliation of cancellations and
  deadlines, and by the collector of stored objects.
\<close>

section \<open>Jobs without a page that succeeded\<close>

text \<open>What the loops over jobs know of each job they have not reached.\<close>

definition idle_in :: "job_status \<Rightarrow> uuid \<Rightarrow> site_db \<Rightarrow> bool" where
  "idle_in st i d \<longleftrightarrow> (\<forall>j \<in> set (jobs d). j_id j = i \<longrightarrow> j_status j = st) \<and> page_count i P_RENDERING d = 0"

lemma enqueueEvent_idle:
  assumes "enqueueEvent e l s d = Inr d'"
  shows "idle_in st k d' = idle_in st k d"
  using aggregates_cong [OF enqueueEvent_fields(1) [OF assms]]
  by (auto simp: idle_in_def enqueueEvent_fields(4) [OF assms])

lemma update_job_idle:
  assumes "idle_in st k d" "k \<noteq> l" "\<And>j. j_id (f j) = j_id j"
  shows "idle_in st k (update_job l f d)"
proof -
  have "page_count k P_RENDERING (update_job l f d) = page_count k P_RENDERING d"
    by (rule aggregates_cong) simp
  with assms show ?thesis by (simp add: idle_in_def)
qed

abbreviation failed_row :: "env \<Rightarrow> job_row \<Rightarrow> job_row" where
  "failed_row e \<equiv> (\<lambda>j. j\<lparr>j_status := FAILED, j_terminal_code := Some ''ALL_PAGES_FAILED'',
     j_terminal_message := Some ''Every cloneable page failed.'', j_finished := Some (now e), j_updated := now e\<rparr>)"

lemma fail_empty_progress:
  assumes work: "work_inv d" and idle: "idle_in RUNNING i d" and ok: "fail_empty e i d = Inr d'"
  shows "progress d d'"
proof -
  have p1: "progress d (update_job i (failed_row e) d)"
  proof (rule progress_update_job [OF work])
    fix j assume j: "j \<in> set (jobs d)" "j_id j = i" and ji: "job_inv d j"
    with idle have "j_status j = RUNNING" "page_count i P_RENDERING d = 0" by (simp_all add: idle_in_def)
    with j ji show "job_inv d (failed_row e j) \<and> job_moves j (failed_row e j)
        \<and> (j_status j \<in> {PUBLISHED, PARTIAL} \<longrightarrow> j_status (failed_row e j) \<in> {PUBLISHED, PARTIAL})"
      by (simp add: job_inv_defs job_moves_defs del: not_None_eq)
  qed
  from ok have "enqueueEvent e i FAILED (update_job i (failed_row e) d) = Inr d'"
    by (simp add: fail_empty_def)
  from progress_trans [OF p1 progress_enqueueEvent [OF progress_work [OF p1] this]] show ?thesis .
qed

lemma fail_empty_frame:
  assumes "idle_in RUNNING k d" "k \<noteq> l" "fail_empty e l d = Inr d'"
  shows "idle_in RUNNING k d'"
proof -
  from assms(3) have "enqueueEvent e l FAILED (update_job l (failed_row e) d) = Inr d'"
    by (simp add: fail_empty_def)
  from enqueueEvent_idle [OF this] update_job_idle [OF assms(1,2), of "failed_row e"] show ?thesis by simp
qed

lemma finalizeEmptyJobs_progress:
  assumes work: "work_inv d" and ok: "finalizeEmptyJobs e d = Inr d'"
  shows "progress d d'"
proof (rule rfold_distinct [where K = "idle_in RUNNING" and I = "progress d"])
  show "rfold (fail_empty e) (map j_id (filter (empty_job e d) (jobs d))) d = Inr d'"
    using ok by (simp add: finalizeEmptyJobs_def)
  show "distinct (map j_id (filter (empty_job e d) (jobs d)))"
    using work_job_ids [OF work] by (rule distinct_map_filter)
  show "progress d d" using work by (rule progress_refl)
next
  fix i assume "i \<in> set (map j_id (filter (empty_job e d) (jobs d)))"
  then obtain j where j: "j \<in> set (jobs d)" "empty_job e d j" "i = j_id j" by auto
  have "j' = j" if "j' \<in> set (jobs d)" "j_id j' = i" for j'
    using work_job_eq [OF work that(1) j(1)] that j by simp
  moreover from j(2) have "j_status j = RUNNING" "page_count (j_id j) P_RENDERING d = 0"
    unfolding empty_job_def active_pages_eq by simp_all
  ultimately show "idle_in RUNNING i d" unfolding idle_in_def j(3) by blast
next
  fix k s s' assume p: "progress d s" and k: "idle_in RUNNING k s" "fail_empty e k s = Inr s'"
  from progress_trans [OF p fail_empty_progress [OF progress_work [OF p] k]] show "progress d s'" .
qed (rule fail_empty_frame)

section \<open>Assembly\<close>

lemma claimAssembly_preserves:
  assumes inv: "site_inv d" and ok: "claimAssembly e w d = Inr (r, d')"
  shows "preserves d d'"
proof -
  from ok obtain d1 where d1: "finalizeEmptyJobs e d = Inr d1"
    and ok': "(case first_by (\<lambda>j. (j_updated j, j_id j)) (assembly_candidate e d1) (jobs d1) of
       None \<Rightarrow> commit None d1
     | Some c \<Rightarrow> rbind (enqueueEvent e (j_id c) ASSEMBLING
           (update_job (j_id c) (lease_row e w (minutes 5) ASSEMBLING) d1))
         (commit (Some (phaseFromRow w (lease_row e w (minutes 5) ASSEMBLING c))))) = Inr (r, d')"
    unfolding claimAssembly_def by auto
  from inv d1 have p1: "progress d d1" by (intro finalizeEmptyJobs_progress site_inv_work)
  then have work: "work_inv d1" by (rule progress_work)
  show ?thesis
  proof (cases "first_by (\<lambda>j. (j_updated j, j_id j)) (assembly_candidate e d1) (jobs d1)")
    case None
    with ok' have "commit r d1 = Inr (r, d')" by auto
    with p1 show ?thesis by (rule preserves_commit)
  next
    case (Some c)
    let ?f = "lease_row e w (minutes 5) ASSEMBLING"
    from first_by_Some [OF Some] have c: "c \<in> set (jobs d1)" "assembly_candidate e d1 c" by blast+
    have p2: "progress d1 (update_job (j_id c) ?f d1)"
    proof (rule progress_update_job [OF work])
      fix j assume j: "j \<in> set (jobs d1)" "j_id j = j_id c" and ji: "job_inv d1 j"
      from work_job_eq [OF work j(1) c(1) j(2)] c(2) have
        st: "j_status j = RUNNING \<or> j_status j = ASSEMBLING" and ac: "active_pages (j_id j) d1 = 0"
        and su: "0 < j_succeeded j" by (simp_all add: assembly_candidate_def)
      obtain y where fin: "j_ingestion_finished j = Some y" using job_inv_succeeded [OF ji su] by blast
      from st have "lifecycle (j_status j) ASSEMBLING" by auto
      then have "job_moves j (?f j)" by (simp add: lease_row_def job_moves_defs)
      moreover have "job_inv d1 (?f j)"
        using ji ac su fin unfolding job_inv_defs lease_row_def active_pages_eq by simp
      ultimately show "job_inv d1 (?f j) \<and> job_moves j (?f j)
          \<and> (j_status j \<in> {PUBLISHED, PARTIAL} \<longrightarrow> j_status (?f j) \<in> {PUBLISHED, PARTIAL})"
        using st by auto
    qed
    from Some ok' obtain d2 where d2: "enqueueEvent e (j_id c) ASSEMBLING (update_job (j_id c) ?f d1) = Inr d2"
      "commit r d2 = Inr (r, d')" by auto
    have "progress d1 d2"
      using progress_trans [OF p2 progress_enqueueEvent [OF progress_work [OF p2] d2(1)]] .
    from progress_trans [OF p1 this] d2(2) show ?thesis by (rule preserves_commit)
  qed
qed

text \<open>Rows added to the artifacts.\<close>

lemma progress_append_artifacts:
  assumes work: "work_inv d" and d': "d' = d\<lparr>artifacts := artifacts d @ new\<rparr>"
    and new: "\<And>a j. a \<in> set new \<Longrightarrow> j \<in> set (jobs d) \<Longrightarrow> a_job a = j_id j \<Longrightarrow> artifact_inv j a"
  shows "progress d d'"
proof -
  have "core_inv d'"
    using work_core [OF work] new job_inv_cong [of d' d] by (auto simp: core_inv_def d')
  moreover have "evolves d d'"
    by (simp add: evolves_def d' rows_evolve_refl rows_evolve_append)
  ultimately show ?thesis using work by (simp add: progress_def work_inv_def d')
qed

lemma insert_artifacts_append:
  "\<exists>new. fold (\<lambda>x. insert_artifact (staged_row e t x)) xs as = as @ new
     \<and> (\<forall>a \<in> set new. \<exists>x \<in> set xs. a = staged_row e t x)"
proof (induction xs arbitrary: as)
  case Nil
  show ?case by simp
next
  case (Cons x xs)
  let ?as = "insert_artifact (staged_row e t x) as"
  from Cons [of ?as] obtain new where new: "fold (\<lambda>x. insert_artifact (staged_row e t x)) xs ?as = ?as @ new"
    "\<forall>a \<in> set new. \<exists>x \<in> set xs. a = staged_row e t x" by blast
  show ?case
  proof (cases "shard_key (staged_row e t x) \<in> shard_key ` set as")
    case True
    then have "?as = as" by (simp add: insert_artifact_def)
    with new show ?thesis by (intro exI [of _ new]) auto
  next
    case False
    then have "?as = as @ [staged_row e t x]" unfolding insert_artifact_def by (rule if_not_P)
    with new show ?thesis by (intro exI [of _ "staged_row e t x # new"]) auto
  qed
qed

lemma stageArtifacts_preserves:
  assumes inv: "site_inv d" and tok: "phase_token d t" and ok: "stageArtifacts e t xs d = Inr (r, d')"
  shows "preserves d d'"
proof -
  from inv have work: "work_inv d" by (rule site_inv_work)
  obtain new where new: "fold (\<lambda>x. insert_artifact (staged_row e t x)) xs (artifacts d) = artifacts d @ new"
    "\<forall>a \<in> set new. \<exists>x \<in> set xs. a = staged_row e t x" using insert_artifacts_append by blast
  from ok have "commit () (d\<lparr>artifacts := artifacts d @ new\<rparr>) = Inr (r, d')"
    unfolding stageArtifacts_def Let_def new by (auto split: if_splits)
  moreover have "progress d (d\<lparr>artifacts := artifacts d @ new\<rparr>)"
  proof (rule progress_append_artifacts [OF work refl])
    fix a j assume a: "a \<in> set new" and j: "j \<in> set (jobs d)" "a_job a = j_id j"
    from new(2) a obtain x where "a = staged_row e t x" by blast
    with j phase_token_job(3) [OF tok work j(1)] show "artifact_inv j a"
      by (simp add: artifact_inv_def staged_row_def)
  qed
  ultimately show ?thesis by (rule preserves_commit [rotated])
qed

lemma holds_assembly_job:
  assumes "work_inv d" "j \<in> set (jobs d)" "holds_assembly e t j" "k \<in> set (jobs d)" "j_id k = cj_id t"
  shows "k = j"
  using work_job_eq [OF assms(1,4,2)] assms by (simp add: holds_assembly_def holds_phase_def)

lemma publish_staged_preserves:
  assumes inv: "site_inv d" and ok: "publish_staged e t xs d = Inr (r, d')"
  shows "preserves d d'"
proof -
  from inv have work: "work_inv d" by (rule site_inv_work)
  from ok obtain c where c: "find (holds_assembly e t) (jobs d) = Some c"
    by (auto simp: publish_staged_def split: option.splits)
  then have cin: "c \<in> set (jobs d)" "holds_assembly e t c" by (auto simp: find_Some_iff)
  let ?s = "terminal_for d c"
  let ?f = "\<lambda>j. j\<lparr>j_status := ?s, j_lease_owner := None, j_lease_expires := None,
      j_archive_bytes := total_bytes xs, j_artifact_count := length xs,
      j_finished := Some (now e), j_updated := now e\<rparr>"
  let ?G = "\<lambda>a. of_generation t a \<and> a_state a = A_STAGED"
  let ?d1 = "d\<lparr>artifacts := update_where ?G (publish_row e t) (artifacts d),
     jobs := update_where (holds_phase t) ?f (jobs d)\<rparr>"
  from c ok obtain d2 where d2: "enqueueEvent e (cj_id t) ?s ?d1 = Inr d2" "commit r d2 = Inr (r, d')"
    by (auto simp: publish_staged_def split: if_splits)
  have s: "?s = PUBLISHED \<or> ?s = PARTIAL" by (simp add: terminal_for_def)
  from cin have st: "j_status c = ASSEMBLING" "j_id c = cj_id t" "holds_phase t c"
    by (simp_all add: holds_assembly_def holds_phase_def)
  have held: "j = c" if "j \<in> set (jobs d)" "j_id j = cj_id t" for j
    by (rule holds_assembly_job [OF work cin that])
  have p1: "progress d ?d1"
  proof (rule progress_map [OF work, of ?d1 "\<lambda>j. if holds_phase t j then ?f j else j" "\<lambda>p. p"
        "\<lambda>a. if ?G a then publish_row e t a else a"])
    fix j assume j: "j \<in> set (jobs d)" "job_inv d j"
    have cong: "job_inv ?d1 k = job_inv d k" for k by (rule job_inv_cong) simp
    show "job_inv ?d1 (if holds_phase t j then ?f j else j)"
    proof (cases "holds_phase t j")
      case True
      with held [OF j(1)] have "j_status j = ASSEMBLING" using st by (simp add: holds_phase_def)
      with j(2) s have "job_inv d (?f j)" by (auto simp: job_inv_def counters_ok_def budgets_ok_def discovery_ok_def quiet_ok_def)
      with True cong show ?thesis by simp
    qed (simp add: cong j)
    have "job_moves j (?f j)" if "holds_phase t j"
    proof -
      from that held [OF j(1)] have "j_status j = ASSEMBLING" using st by (simp add: holds_phase_def)
      with s show ?thesis by (elim disjE) (simp_all add: job_moves_defs)
    qed
    then show "job_moves j (if holds_phase t j then ?f j else j)" by simp
  next
    fix a
    show "artifact_evolves a (if ?G a then publish_row e t a else a)"
      by (simp add: artifact_evolves_def publish_row_def state_rank_def)
  next
    fix j a assume j: "j \<in> set (jobs d)" "a_job a = j_id j" and ai: "artifact_inv j a"
    show "artifact_inv (if holds_phase t j then ?f j else j) (if ?G a then publish_row e t a else a)"
    proof (cases "j_id j = cj_id t")
      case True
      with held [OF j(1)] have "holds_phase t j" using st by simp
      with ai s show ?thesis by (auto simp: artifact_inv_def publish_row_def)
    next
      case False
      with j have "\<not> holds_phase t j" "\<not> ?G a" by (simp_all add: holds_phase_def of_generation_def)
      then show ?thesis using ai by (simp only: if_False)
    qed
  qed (simp_all add: update_where_def)
  from progress_trans [OF p1 progress_enqueueEvent [OF progress_work [OF p1] d2(1)]] d2(2)
  show ?thesis by (rule preserves_commit)
qed

section \<open>Retrying a phase\<close>

text \<open>Artifacts whose state stays.\<close>

lemma progress_artifacts_neutral:
  assumes work: "work_inv d"
    and d': "d' = d\<lparr>artifacts := update_where P f (artifacts d)\<rparr>"
    and f: "\<And>a. a \<in> set (artifacts d) \<Longrightarrow> P a \<Longrightarrow> artifact_evolves a (f a) \<and>
      (a_state (f a) \<in> {A_PUBLISHED, A_DELETE_PENDING} \<longrightarrow> a_state a \<in> {A_PUBLISHED, A_DELETE_PENDING})"
  shows "progress d d'"
proof (rule progress_map [OF work, of d' "\<lambda>j. j" "\<lambda>p. p" "\<lambda>a. if P a then f a else a"])
  fix j assume "job_inv d j"
  then show "job_inv d' j" using job_inv_cong [of d' d] by (simp add: d')
next
  fix a assume a: "a \<in> set (artifacts d)"
  show "artifact_evolves a (if P a then f a else a)" using f [OF a] by (cases "P a") simp_all
next
  fix j a assume a: "a \<in> set (artifacts d)" and ai: "artifact_inv j a"
  show "artifact_inv j (if P a then f a else a)"
  proof (cases "P a")
    case True
    from f [OF a True] have "a_generation (f a) = a_generation a"
      "a_state (f a) \<in> {A_PUBLISHED, A_DELETE_PENDING} \<longrightarrow> a_state a \<in> {A_PUBLISHED, A_DELETE_PENDING}"
      by (simp_all add: artifact_evolves_def)
    with True ai show ?thesis unfolding artifact_inv_def by metis
  qed (simp add: ai)
qed (simp_all add: d' update_where_def)

lemma retry_row_step:
  assumes work: "work_inv d" and tok: "phase_token d t" and j: "j \<in> set (jobs d)" "job_inv d j"
    and held: "holds_phase t j" "j_status j = phase" "phase \<in> {INGESTING, ASSEMBLING}"
  shows "job_inv d (retry_phase_row e t code j) \<and> job_moves j (retry_phase_row e t code j)
    \<and> (j_status j \<in> {PUBLISHED, PARTIAL} \<longrightarrow> j_status (retry_phase_row e t code j) \<in> {PUBLISHED, PARTIAL})"
proof -
  have "j_id j = cj_id t" using held(1) by (simp add: holds_phase_def)
  from phase_token_job(4) [OF tok work j(1) this held(1)] have n: "cj_attempts t = j_phase_attempts j + 1" .
  have q: "quiet_ok d j" using j(2) by (simp add: job_inv_def)
  have no: "page_count (j_id j) P_RENDERING d = 0" using q held(2,3) unfolding quiet_ok_def by auto
  show ?thesis
  proof (cases "3 \<le> cj_attempts t")
    case True
    have "job_inv d (retry_phase_row e t code j)"
      using j(2) no True by (simp add: retry_phase_row_def Let_def job_inv_defs del: not_None_eq)
    moreover have "job_moves j (retry_phase_row e t code j)"
      using held(2,3) True by (auto simp: retry_phase_row_def Let_def job_moves_defs)
    ultimately show ?thesis using held(2,3) by auto
  next
    case False
    with n have "j_phase_attempts j + 1 \<le> 2" by simp
    then have "job_inv d (retry_phase_row e t code j)"
      using j(2) False by (simp add: retry_phase_row_def Let_def job_inv_defs del: not_None_eq)
    moreover have "job_moves j (retry_phase_row e t code j)"
      using False by (simp add: retry_phase_row_def Let_def job_moves_defs)
    ultimately show ?thesis using held(2,3) by auto
  qed
qed

lemma retryPhase_preserves:
  assumes inv: "site_inv d" and tok: "phase_token d t" and phase: "phase \<in> {INGESTING, ASSEMBLING}"
    and ok: "retryPhase e t phase code d = Inr (r, d')"
  shows "preserves d d'"
proof -
  from inv have work: "work_inv d" by (rule site_inv_work)
  let ?held = "\<lambda>j. holds_phase t j \<and> j_status j = phase"
  show ?thesis
  proof (cases "\<exists>j \<in> set (jobs d). ?held j")
    case False
    with ok inv show ?thesis by (simp add: retryPhase_def Let_def preserves_refl)
  next
    case True
    let ?d1 = "d\<lparr>jobs := update_where ?held (retry_phase_row e t code) (jobs d)\<rparr>"
    have "progress d ?d1"
    proof (rule progress_update_jobs [OF work _ refl])
      fix j assume "j \<in> set (jobs d)" "?held j" "job_inv d j"
      then show "job_inv d (retry_phase_row e t code j) \<and> job_moves j (retry_phase_row e t code j)
          \<and> (j_status j \<in> {PUBLISHED, PARTIAL} \<longrightarrow> j_status (retry_phase_row e t code j) \<in> {PUBLISHED, PARTIAL})"
        by (intro retry_row_step [OF work tok _ _ _ _ phase]) simp_all
    qed
    moreover have "progress ?d1 (discard_staged e t ?d1)"
      unfolding discard_staged_def
      by (rule progress_artifacts_neutral [OF progress_work [OF calculation] refl]) (simp add: artifact_evolves_def)
    ultimately have p: "progress d (discard_staged e t ?d1)" by (rule progress_trans)
    show ?thesis
    proof (cases "3 \<le> cj_attempts t")
      case last: True
      with True ok obtain d2 where d2: "enqueueEvent e (cj_id t) FAILED (discard_staged e t ?d1) = Inr d2"
        "commit r d2 = Inr (r, d')" by (auto simp: retryPhase_def Let_def)
      from progress_trans [OF p progress_enqueueEvent [OF progress_work [OF p] d2(1)]] d2(2)
      show ?thesis by (rule preserves_commit)
    next
      case False
      with True ok have "commit r (discard_staged e t ?d1) = Inr (r, d')" by (auto simp: retryPhase_def Let_def)
      with p show ?thesis by (rule preserves_commit)
    qed
  qed
qed

lemma retryAssembly_preserves:
  "site_inv d \<Longrightarrow> phase_token d t \<Longrightarrow> retryAssembly e t code d = Inr (r, d') \<Longrightarrow> preserves d d'"
  unfolding retryAssembly_def by (rule retryPhase_preserves [where phase = ASSEMBLING]) simp_all

lemma retryIngestion_preserves:
  "site_inv d \<Longrightarrow> phase_token d t \<Longrightarrow> retryIngestion e t code d = Inr (r, d') \<Longrightarrow> preserves d d'"
  unfolding retryIngestion_def by (rule retryPhase_preserves [where phase = INGESTING]) simp_all

section \<open>Cancellation and the deadline\<close>

lemma expire_overdue_progress:
  assumes work: "work_inv d"
  shows "progress d (expire_overdue e d)"
  unfolding expire_overdue_def
proof (rule progress_update_jobs [OF work _ refl])
  fix j assume "past_deadline e j" and ji: "job_inv d j"
  then have st: "j_status j \<in> {INGESTING, RUNNING, ASSEMBLING}" by (simp add: past_deadline_def)
  have "job_inv d (expire_row e j)"
    using ji st by (simp add: expire_row_def job_inv_defs del: not_None_eq)
  moreover have "job_moves j (expire_row e j)"
    using st by (auto simp: expire_row_def job_moves_defs)
  ultimately show "job_inv d (expire_row e j) \<and> job_moves j (expire_row e j)
      \<and> (j_status j \<in> {PUBLISHED, PARTIAL} \<longrightarrow> j_status (expire_row e j) \<in> {PUBLISHED, PARTIAL})"
    using st by auto
qed

lemma cancel_requested_job:
  assumes "work_inv d" "j \<in> set (jobs d)" "cancel_requested (j_id j) d"
  shows "j_status j = CANCEL_REQUESTED"
  using assms unfolding cancel_requested_def by (metis work_job_eq)

lemma cancel_queued_progress:
  assumes work: "work_inv d"
  shows "progress d (cancel_queued e d)"
proof -
  let ?P = "\<lambda>p. cancel_requested (p_job p) d \<and> p_status p = P_QUEUED"
  let ?f = "cancel_page_row e"
  let ?d' = "cancel_queued e d"
  have f: "p_job (?f p) = p_job p" "p_status (?f p) = P_CANCELLED" for p by (simp_all add: cancel_page_row_def)
  have same: "page_count i s ?d' = page_count i s d" if "s \<in> {P_RENDERING, P_SUCCEEDED, P_FAILED}" for i s
    unfolding page_count_def cancel_queued_def using that
    by simp (rule count_where_update_same, auto simp: f)
  have total: "total_pages i ?d' = total_pages i d" for i
    unfolding total_pages_def cancel_queued_def by (simp add: count_where_update_same f)
  have bytes: "succeeded_bytes i ?d' = succeeded_bytes i d" for i
    unfolding succeeded_bytes_def cancel_queued_def by simp (rule sum_where_update_same, simp add: f)
  have other: "page_count i s ?d' = page_count i s d" if "\<not> cancel_requested i d" for i s
    unfolding page_count_def cancel_queued_def using that
    by simp (rule count_where_update_same, auto simp: f)
  show ?thesis
  proof (rule progress_map [OF work, of ?d' "\<lambda>j. j" "\<lambda>p. if ?P p then ?f p else p" "\<lambda>a. a"])
    fix j assume j: "j \<in> set (jobs d)" "job_inv d j"
    show "job_inv ?d' j"
    proof (cases "cancel_requested (j_id j) d")
      case True
      from cancel_requested_job [OF work j(1) this] j(2) show ?thesis
        unfolding job_inv_defs by (simp add: same total bytes del: not_None_eq)
    next
      case False
      have "job_inv ?d' j = job_inv d j"
        by (rule job_inv_aggregates) (simp_all only: other [OF False] total bytes)
      with j(2) show ?thesis by simp
    qed
  next
    fix p
    show "page_evolves p (if ?P p then ?f p else p)"
      by (simp add: page_evolves_def cancel_page_row_def ended_def)
  next
    fix j p assume "page_inv j p"
    then show "page_inv j (if ?P p then ?f p else p)"
      unfolding page_inv_def by (simp add: cancel_page_row_def)
  qed (simp_all add: cancel_queued_def update_where_def)
qed

lemma settle_row_step:
  assumes ji: "job_inv d j" and st: "j_status j = CANCEL_REQUESTED" and no: "page_count (j_id j) P_RENDERING d = 0"
  shows "job_inv d (settle_row e j) \<and> job_moves j (settle_row e j)
    \<and> (j_status j \<in> {PUBLISHED, PARTIAL} \<longrightarrow> j_status (settle_row e j) \<in> {PUBLISHED, PARTIAL})"
proof (cases "0 < j_succeeded j")
  case True
  obtain y where "j_ingestion_finished j = Some y" using job_inv_succeeded [OF ji True] by blast
  with ji no st True have "job_inv d (settle_row e j)"
    unfolding settle_row_def Let_def job_inv_defs by simp
  with st True show ?thesis by (simp add: settle_row_def Let_def job_moves_defs)
next
  case False
  with ji no have "job_inv d (settle_row e j)"
    unfolding settle_row_def Let_def job_inv_defs by (simp del: not_None_eq)
  with st False show ?thesis by (simp add: settle_row_def Let_def job_moves_defs)
qed

lemma refreshJobCounters_progress:
  assumes work: "work_inv d"
  shows "progress d (refreshJobCounters e i d)"
  unfolding refresh_eq
proof (rule progress_update_jobs [OF work _ refl])
  fix j assume "job_inv d j"
  then have "refreshed e d j = j\<lparr>j_updated := now e\<rparr>"
    by (simp add: refreshed_def job_inv_def counters_ok_def)
  with \<open>job_inv d j\<close> show "job_inv d (refreshed e d j) \<and> job_moves j (refreshed e d j)
      \<and> (j_status j \<in> {PUBLISHED, PARTIAL} \<longrightarrow> j_status (refreshed e d j) \<in> {PUBLISHED, PARTIAL})"
    by (simp add: job_moves_defs)
qed

lemma refresh_idle: "idle_in st k d \<Longrightarrow> idle_in st k (refreshJobCounters e i d)"
proof -
  have "page_count k P_RENDERING (refreshJobCounters e i d) = page_count k P_RENDERING d"
    by (rule aggregates_cong) (simp add: refresh_eq)
  then show "idle_in st k d \<Longrightarrow> idle_in st k (refreshJobCounters e i d)"
    by (simp add: idle_in_def refresh_eq refreshed_def)
qed

lemma settle_job_progress:
  assumes work: "work_inv d" and idle: "idle_in CANCEL_REQUESTED i d" and ok: "settle_job e i d = Inr d'"
  shows "progress d d'"
proof -
  let ?r = "refreshJobCounters e i d"
  let ?d1 = "update_job i (settle_row e) ?r"
  have p0: "progress d ?r" by (rule refreshJobCounters_progress [OF work])
  have "progress ?r ?d1"
  proof (rule progress_update_job [OF progress_work [OF p0]])
    fix j assume j: "j \<in> set (jobs ?r)" "j_id j = i" and ji: "job_inv ?r j"
    with refresh_idle [OF idle, of e i] have "j_status j = CANCEL_REQUESTED" "page_count (j_id j) P_RENDERING ?r = 0"
      by (simp_all add: idle_in_def)
    with ji show "job_inv ?r (settle_row e j) \<and> job_moves j (settle_row e j)
        \<and> (j_status j \<in> {PUBLISHED, PARTIAL} \<longrightarrow> j_status (settle_row e j) \<in> {PUBLISHED, PARTIAL})"
      by (rule settle_row_step)
  qed
  with p0 have p1: "progress d ?d1" by (rule progress_trans)
  from ok have "d' = ?d1 \<or> (\<exists>s. enqueueEvent e i s ?d1 = Inr d')"
    unfolding settle_job_def Let_def by (auto split: option.splits if_splits)
  with p1 progress_trans [OF p1 progress_enqueueEvent [OF progress_work [OF p1]]] show ?thesis by blast
qed

lemma settle_job_frame:
  assumes "idle_in CANCEL_REQUESTED k d" "k \<noteq> l" "settle_job e l d = Inr d'"
  shows "idle_in CANCEL_REQUESTED k d'"
proof -
  have 1: "idle_in CANCEL_REQUESTED k (update_job l (settle_row e) (refreshJobCounters e l d))"
    by (rule update_job_idle [OF refresh_idle [OF assms(1)] assms(2)]) (simp add: settle_row_def Let_def)
  from assms(3) have "d' = update_job l (settle_row e) (refreshJobCounters e l d)
      \<or> (\<exists>s. enqueueEvent e l s (update_job l (settle_row e) (refreshJobCounters e l d)) = Inr d')"
    unfolding settle_job_def Let_def by (auto split: option.splits if_splits)
  with 1 show ?thesis using enqueueEvent_idle by blast
qed

lemma settle_all_progress:
  assumes work: "work_inv d"
    and ok: "rfold (settle_job e) (map j_id (filter (settleable e d) (jobs d))) d = Inr d'"
  shows "progress d d'"
proof (rule rfold_distinct [where K = "idle_in CANCEL_REQUESTED" and I = "progress d", OF ok])
  show "distinct (map j_id (filter (settleable e d) (jobs d)))"
    using work_job_ids [OF work] by (rule distinct_map_filter)
  show "progress d d" using work by (rule progress_refl)
next
  fix i assume "i \<in> set (map j_id (filter (settleable e d) (jobs d)))"
  then obtain j where j: "j \<in> set (jobs d)" "settleable e d j" "i = j_id j" by auto
  have "j' = j" if "j' \<in> set (jobs d)" "j_id j' = i" for j'
    using work_job_eq [OF work that(1) j(1)] that j by simp
  moreover from j(2) have "j_status j = CANCEL_REQUESTED" "page_count (j_id j) P_RENDERING d = 0"
    unfolding settleable_def by simp_all
  ultimately show "idle_in CANCEL_REQUESTED i d" unfolding idle_in_def j(3) by blast
next
  fix k s s' assume p: "progress d s" and k: "idle_in CANCEL_REQUESTED k s" "settle_job e k s = Inr s'"
  from progress_trans [OF p settle_job_progress [OF progress_work [OF p] k]] show "progress d s'" .
qed (rule settle_job_frame)

lemma reconcileCancellations_preserves:
  assumes inv: "site_inv d" and ok: "reconcileCancellations e d = Inr (r, d')"
  shows "preserves d d'"
proof -
  from inv have work: "work_inv d" by (rule site_inv_work)
  let ?d1 = "cancel_queued e (expire_overdue e d)"
  have p1: "progress d (expire_overdue e d)" by (rule expire_overdue_progress [OF work])
  with cancel_queued_progress [OF progress_work [OF p1]] have p2: "progress d ?d1" by (blast intro: progress_trans)
  from ok obtain d2 where d2: "rfold (settle_job e) (map j_id (filter (settleable e ?d1) (jobs ?d1))) ?d1 = Inr d2"
    "commit r d2 = Inr (r, d')"
    unfolding reconcileCancellations_def Let_def by auto
  from progress_trans [OF p2 settle_all_progress [OF progress_work [OF p2] d2(1)]] d2(2)
  show ?thesis by (rule preserves_commit)
qed

section \<open>The collector\<close>

lemma claimObjectForDeletion_preserves:
  assumes inv: "site_inv d" and ok: "claimObjectForDeletion e d = Inr (r, d')"
  shows "preserves d d'"
proof -
  from inv have work: "work_inv d" by (rule site_inv_work)
  have a: "progress d (d\<lparr>artifacts := update_where (\<lambda>a. a_id a = i)
      (\<lambda>a. a\<lparr>a_state := if a_state a = A_STAGED then A_STAGED else A_DELETE_PENDING,
             a_delete_after := now e + seconds 30\<rparr>) (artifacts d)\<rparr>)"
    if i: "\<And>a. a \<in> set (artifacts d) \<Longrightarrow> a_id a = i \<Longrightarrow> a_state a \<noteq> A_DELETED" for i
  proof (rule progress_artifacts_neutral [OF work refl])
    fix a assume "a \<in> set (artifacts d)" "a_id a = i"
    from i [OF this] show "artifact_evolves a (a\<lparr>a_state := if a_state a = A_STAGED then A_STAGED else A_DELETE_PENDING,
             a_delete_after := now e + seconds 30\<rparr>) \<and>
        (a_state (a\<lparr>a_state := if a_state a = A_STAGED then A_STAGED else A_DELETE_PENDING,
             a_delete_after := now e + seconds 30\<rparr>) \<in> {A_PUBLISHED, A_DELETE_PENDING} \<longrightarrow>
         a_state a \<in> {A_PUBLISHED, A_DELETE_PENDING})"
      by (cases "a_state a") (simp_all add: artifact_evolves_def state_rank_def)
  qed
  have b: "progress d (d\<lparr>pages := update_where (\<lambda>p. page_key p = k)
      (\<lambda>p. p\<lparr>p_bundle_state := Some B_DELETE_PENDING, p_bundle_delete_after := Some (now e + seconds 30)\<rparr>) (pages d)\<rparr>)" for k
    by (rule progress_pages_neutral [OF work refl]) (simp add: page_evolves_def)
  show ?thesis
  proof (cases "first_by (\<lambda>a. (a_delete_after a, a_id a)) (artifact_due e) (artifacts d)")
    case (Some c)
    from first_by_Some [OF Some] have c: "c \<in> set (artifacts d)" "a_state c \<noteq> A_DELETED"
      by (auto simp: artifact_due_def)
    have "distinct (map a_id (artifacts d))"
      using inv by (simp add: site_inv_def schema_ok_def keys_ok_def artifacts_unique_def)
    with c have i: "\<And>a. a \<in> set (artifacts d) \<Longrightarrow> a_id a = a_id c \<Longrightarrow> a_state a \<noteq> A_DELETED"
      by (metis distinct_key_unique)
    from ok have "\<exists>r'. commit r' (d\<lparr>artifacts := update_where (\<lambda>a. a_id a = a_id c)
        (\<lambda>a. a\<lparr>a_state := if a_state a = A_STAGED then A_STAGED else A_DELETE_PENDING,
               a_delete_after := now e + seconds 30\<rparr>) (artifacts d)\<rparr>) = Inr (r, d')"
      unfolding claimObjectForDeletion_def Some option.case by blast
    then obtain r' where "commit r' (d\<lparr>artifacts := update_where (\<lambda>a. a_id a = a_id c)
        (\<lambda>a. a\<lparr>a_state := if a_state a = A_STAGED then A_STAGED else A_DELETE_PENDING,
               a_delete_after := now e + seconds 30\<rparr>) (artifacts d)\<rparr>) = Inr (r, d')" ..
    with a [OF i] show ?thesis by (rule preserves_commit)
  next
    case None
    show ?thesis
    proof (cases "first_by (\<lambda>p. (coalesce (p_bundle_delete_after p) 0, p_job p, p_page p)) (bundle_due e d) (pages d)")
      case none: None
      with ok None have "d' = d" by (simp add: claimObjectForDeletion_def)
      with inv show ?thesis by (simp add: preserves_refl)
    next
      case (Some c)
      from ok have "commit (Some (bundle_claim c)) (d\<lparr>pages := update_where (\<lambda>p. page_key p = page_key c)
          (\<lambda>p. p\<lparr>p_bundle_state := Some B_DELETE_PENDING, p_bundle_delete_after := Some (now e + seconds 30)\<rparr>) (pages d)\<rparr>)
          = Inr (r, d')"
        unfolding claimObjectForDeletion_def Some None option.case .
      with b show ?thesis by (rule preserves_commit)
    qed
  qed
qed

lemma retryObjectDeletion_preserves:
  assumes inv: "site_inv d" and ok: "retryObjectDeletion e g d = Inr (r, d')"
  shows "preserves d d'"
proof -
  from inv have work: "work_inv d" by (rule site_inv_work)
  have a: "progress d (d\<lparr>artifacts := update_where (deletable_artifact g)
      (\<lambda>a. a\<lparr>a_delete_after := now e + minutes 1\<rparr>) (artifacts d)\<rparr>)"
    by (rule progress_artifacts_neutral [OF work refl]) (simp add: artifact_evolves_def)
  have b: "progress d (d\<lparr>pages := update_where (deletable_bundle g)
      (\<lambda>p. p\<lparr>p_bundle_delete_after := Some (now e + minutes 1)\<rparr>) (pages d)\<rparr>)"
    by (rule progress_pages_neutral [OF work refl]) (simp add: page_evolves_def)
  show ?thesis
    using ok unfolding retryObjectDeletion_def
    by (cases "del_type g") (simp_all only: object_type.case, blast intro: preserves_commit [OF a], blast intro: preserves_commit [OF b])
qed

lemma completeObjectDeletion_preserves:
  assumes inv: "site_inv d" and ok: "completeObjectDeletion e g d = Inr (r, d')"
  shows "preserves d d'"
proof (cases "del_type g")
  case PAGE_BUNDLE
  have "progress d (d\<lparr>pages := update_where (deletable_bundle g)
      (\<lambda>p. p\<lparr>p_bundle_state := Some B_DELETED, p_bundle_delete_after := Some (now e)\<rparr>) (pages d)\<rparr>)"
    by (rule progress_pages_neutral [OF site_inv_work [OF inv] refl]) (simp add: page_evolves_def)
  with ok PAGE_BUNDLE show ?thesis
    unfolding completeObjectDeletion_def by (auto split: if_splits intro: preserves_commit)
next
  case ARTIFACT
  from inv have work: "work_inv d" by (rule site_inv_work)
  let ?d1 = "d\<lparr>artifacts := update_where (deletable_artifact g)
      (\<lambda>a. a\<lparr>a_state := A_DELETED, a_deleted := Some (now e)\<rparr>) (artifacts d)\<rparr>"
  let ?remaining = "\<exists>a \<in> set (artifacts ?d1). a_job a = del_job g \<and> a_state a \<in> {A_PUBLISHED, A_DELETE_PENDING}"
  let ?f = "\<lambda>j. j\<lparr>j_status := EXPIRED, j_updated := now e\<rparr>"
  let ?d2 = "?d1\<lparr>jobs := update_where (expirable (del_job g)) ?f (jobs ?d1)\<rparr>"
  have p1: "progress d ?d1"
    by (rule progress_artifacts_neutral [OF work refl])
      (auto simp: artifact_evolves_def state_rank_def split: artifact_state.splits)
  show ?thesis
  proof (cases "\<not> ?remaining \<and> (\<exists>j \<in> set (jobs ?d1). expirable (del_job g) j)")
    case False
    from ok have "commit r ?d1 = Inr (r, d')"
      unfolding completeObjectDeletion_def Let_def ARTIFACT object_type.case if_not_P [OF False]
      by (simp split: if_split_asm)
    with p1 show ?thesis by (rule preserves_commit)
  next
    case True
    have none: "a_state a \<notin> {A_PUBLISHED, A_DELETE_PENDING}" if "a \<in> set (artifacts ?d1)" "a_job a = del_job g" for a
      using True that by blast
    have p2: "progress ?d1 ?d2"
    proof (rule progress_map [OF progress_work [OF p1], of ?d2 "\<lambda>j. if expirable (del_job g) j then ?f j else j"
          "\<lambda>p. p" "\<lambda>a. a"])
      fix j assume ji: "job_inv ?d1 j"
      have cong: "job_inv ?d2 k = job_inv ?d1 k" for k by (rule job_inv_cong) simp
      have st: "j_status j = PUBLISHED \<or> j_status j = PARTIAL" if "expirable (del_job g) j"
        using that by (simp add: expirable_def)
      have "job_inv ?d1 (?f j)" if "expirable (del_job g) j"
        using st [OF that] by (rule disjE) (insert ji, simp_all add: job_inv_defs del: not_None_eq)
      with ji show "job_inv ?d2 (if expirable (del_job g) j then ?f j else j)" unfolding cong by simp
      have "job_moves j (?f j)" if "expirable (del_job g) j"
        using st [OF that] by (rule disjE) (simp_all add: job_moves_defs)
      then show "job_moves j (if expirable (del_job g) j then ?f j else j)" by simp
    next
      fix j a assume a: "a \<in> set (artifacts ?d1)" "a_job a = j_id j" and ai: "artifact_inv j a"
      show "artifact_inv (if expirable (del_job g) j then ?f j else j) a"
      proof (cases "expirable (del_job g) j")
        case True
        with a have "a_state a \<notin> {A_PUBLISHED, A_DELETE_PENDING}" by (intro none) (auto simp: expirable_def)
        with True ai show ?thesis by (simp add: artifact_inv_def)
      qed (simp add: ai)
    qed (simp_all add: update_where_def)
    from ok obtain d3 where d3: "enqueueEvent e (del_job g) EXPIRED ?d2 = Inr d3" "commit r d3 = Inr (r, d')"
      unfolding completeObjectDeletion_def Let_def ARTIFACT object_type.case if_P [OF True]
      by (auto split: if_split_asm)
    from progress_trans [OF p1 progress_trans [OF p2 progress_enqueueEvent [OF progress_work [OF p2] d3(1)]]] d3(2)
    show ?thesis by (rule preserves_commit)
  qed
qed

end
