(* ===== verification/Site_Events.thy ===== *)
theory Site_Events
  imports Site_Gc
begin

text \<open>
  \<open>SiteCloneDatabase\<close>, delivering the progress events (\<open>claimEvent\<close>, \<open>completeEvent\<close>,
  \<open>retryEvent\<close>) and the queries the workers and the HTTP server read the store with
  (\<open>listBundles\<close>, \<open>listRoutes\<close>, \<open>listPageOutcomes\<close>, \<open>getReport\<close>, \<open>getProgress\<close>).
\<close>

section \<open>Delivering events\<close>

record claimed_event =
  ce_message :: uuid
  ce_payload :: progress_event
  ce_lease_owner :: uuid

definition claimEvent :: "env \<Rightarrow> uuid \<Rightarrow> claimed_event option txn" where
  "claimEvent e worker d =
     (let (r, rows) = claim_delivery (now e) (locked_event e) worker (outbox d)
      in commit (map_option (\<lambda>x. \<lparr> ce_message = o_message_id x, ce_payload = o_payload x,
           ce_lease_owner = worker \<rparr>) r) (d\<lparr>outbox := rows\<rparr>))"

definition completeEvent :: "env \<Rightarrow> claimed_event \<Rightarrow> unit txn" where
  "completeEvent e ev d = commit ()
     (d\<lparr>outbox := complete_delivery (now e) (ce_message ev) (ce_lease_owner ev) (outbox d)\<rparr>)"

definition retryEvent :: "(uuid \<Rightarrow> int) \<Rightarrow> env \<Rightarrow> claimed_event \<Rightarrow> string \<Rightarrow> unit txn" where
  "retryEvent hash e ev code d = commit ()
     (d\<lparr>outbox := retry_delivery hash (now e) (ce_message ev) (ce_lease_owner ev) (boundedCode code) (outbox d)\<rparr>)"

section \<open>Queries\<close>

record page_bundle =
  pb_page :: uuid
  pb_ordinal :: nat
  pb_public_url :: string
  pb_local_path :: string
  pb_bucket :: string
  pb_key :: string
  pb_bytes :: nat
  pb_sha :: digest

definition listBundles :: "claimed_phase \<Rightarrow> site_db \<Rightarrow> page_bundle list" where
  "listBundles t d = map (\<lambda>p. \<lparr> pb_page = p_page p, pb_ordinal = p_ordinal p,
       pb_public_url = p_public_url p, pb_local_path = p_local_path p,
       pb_bucket = coalesce (p_bundle_bucket p) '''', pb_key = coalesce (p_bundle_key p) '''',
       pb_bytes = coalesce (p_bundle_bytes p) 0, pb_sha = coalesce (p_bundle_sha p) '''' \<rparr>)
     (order_by (\<lambda>p. (p_ordinal p, p_page p)) (\<lambda>p. p_job p = cj_id t \<and> p_status p = P_SUCCEEDED) (pages d))"

record site_route =
  sr_url_sha :: digest
  sr_local_path :: string

definition listRoutes :: "uuid \<Rightarrow> site_db \<Rightarrow> site_route list" where
  "listRoutes jobId d = map (\<lambda>p. \<lparr> sr_url_sha = p_url_sha p, sr_local_path = p_local_path p \<rparr>)
     (filter (\<lambda>p. p_job p = jobId \<and> p_status p = P_SUCCEEDED) (pages d))"

record page_outcome =
  po_page :: uuid
  po_public_url :: string
  po_local_path :: string
  po_status :: page_status
  po_failure_code :: "string option"

definition listPageOutcomes :: "uuid \<Rightarrow> site_db \<Rightarrow> page_outcome list" where
  "listPageOutcomes jobId d = map (\<lambda>p. \<lparr> po_page = p_page p, po_public_url = p_public_url p,
       po_local_path = p_local_path p, po_status = p_status p, po_failure_code = p_failure_code p \<rparr>)
     (order_by (\<lambda>p. (p_ordinal p, p_page p)) (\<lambda>p. p_job p = jobId) (pages d))"

definition getReport :: "env \<Rightarrow> uuid \<Rightarrow> uuid \<Rightarrow> site_db \<Rightarrow> (job_row \<times> artifact_row list) option" where
  "getReport e ownerId jobId d =
     (case find (\<lambda>j. j_id j = jobId \<and> j_owner j = ownerId) (jobs d) of
        None \<Rightarrow> None
      | Some j \<Rightarrow> Some (j, order_by (\<lambda>a. (a_kind a, a_shard a, a_id a))
          (\<lambda>a. a_job a = jobId \<and> a_owner a = ownerId \<and> a_state a = A_PUBLISHED \<and> now e < a_delete_after a)
          (artifacts d)))"

datatype status_filter = ALL_STATUSES | ONLY page_status

record progress_page =
  pp_page :: uuid
  pp_ordinal :: nat
  pp_url :: string
  pp_status :: page_status
  pp_attempts :: nat
  pp_failure_code :: "string option"
  pp_retry_at :: time
  pp_lease_expired :: bool

record site_progress =
  sp_job :: uuid
  sp_scan :: uuid
  sp_phase :: job_status
  sp_ingestion_complete :: bool
  sp_observed :: time
  sp_phase_attempts :: nat
  sp_phase_retry_at :: time
  sp_phase_lease_expired :: bool
  sp_terminal_code :: "string option"
  sp_counts :: "page_status \<Rightarrow> nat"
  sp_active :: "progress_page list"
  sp_items :: "progress_page list"
  sp_next_after :: "nat option"

text \<open>
  \<open>redact\<close> stands for the platform's \<open>URL\<close>: parse, clear user, password, query and fragment, and
  print; \<open>None\<close> when the text does not parse.
\<close>

definition progressPage :: "(string \<Rightarrow> string option) \<Rightarrow> env \<Rightarrow> page_row \<Rightarrow> progress_page" where
  "progressPage redact e p = \<lparr> pp_page = p_page p, pp_ordinal = p_ordinal p,
     pp_url = (case redact (p_public_url p) of None \<Rightarrow> ''[invalid URL]'' | Some u \<Rightarrow> u),
     pp_status = p_status p, pp_attempts = p_attempts p, pp_failure_code = p_failure_code p,
     pp_retry_at = p_available p,
     pp_lease_expired = (p_status p = P_RENDERING \<and> le_opt (p_lease_expires p) (now e)) \<rparr>"

definition matches_filter :: "status_filter \<Rightarrow> string \<Rightarrow> page_row \<Rightarrow> bool" where
  "matches_filter s q p \<longleftrightarrow> (case s of ALL_STATUSES \<Rightarrow> True | ONLY st \<Rightarrow> p_status p = st)
     \<and> contains_text (toLowerCase q) (toLowerCase (p_public_url p))"

definition getProgress :: "(string \<Rightarrow> string option) \<Rightarrow> env \<Rightarrow> uuid \<Rightarrow> uuid \<Rightarrow> int \<Rightarrow> int \<Rightarrow> status_filter \<Rightarrow> string
    \<Rightarrow> site_db \<Rightarrow> site_error + site_progress option" where
  "getProgress redact e ownerId jobId after limit status q d =
     (if after < -1 \<or> 100000 < after \<or> limit < 1 \<or> 100 < limit \<or> 200 < length q
      then Inl INVALID_SITE_PROGRESS_FILTER
      else case find (\<lambda>j. j_id j = jobId \<and> j_owner j = ownerId) (jobs d) of
        None \<Rightarrow> Inr None
      | Some row \<Rightarrow>
          (let n = nat limit;
               active = take 32 (order_by p_ordinal (\<lambda>p. p_job p = jobId \<and> p_status p = P_RENDERING) (pages d));
               found = take (n + 1) (order_by p_ordinal
                 (\<lambda>p. p_job p = jobId \<and> after < int (p_ordinal p) \<and> matches_filter status q p) (pages d));
               items = map (progressPage redact e) (take n found)
           in Inr (Some \<lparr> sp_job = jobId, sp_scan = j_scan row, sp_phase = j_status row,
                sp_ingestion_complete = (j_ingestion_finished row \<noteq> None), sp_observed = now e,
                sp_phase_attempts = j_phase_attempts row, sp_phase_retry_at = j_phase_available row,
                sp_phase_lease_expired = le_opt (j_lease_expires row) (now e),
                sp_terminal_code = j_terminal_code row,
                sp_counts = (\<lambda>s. page_count jobId s d),
                sp_active = map (progressPage redact e) active, sp_items = items,
                sp_next_after = (if n < length found then Some (pp_ordinal (last items)) else None) \<rparr>)))"

end
