(* ===== verification/Site_System.thy ===== *)
theory Site_System
  imports Site_Preserve_Phases Site_Events
begin

text \<open>
  The site clone workflow as a whole: the store, the claims its workers hold and the operations they
  run on it, in any order and at any time. Each operation is one committed transaction; one that fails
  rolls back and changes nothing, and a worker that dies stops issuing operations, so neither needs a
  step of its own.
\<close>

section \<open>Events\<close>

definition event_evolves :: "outbox_row \<Rightarrow> outbox_row \<Rightarrow> bool" where
  "event_evolves x y \<longleftrightarrow> o_message_id y = o_message_id x \<and> o_job y = o_job x \<and> o_version y = o_version x
     \<and> o_corr y = o_corr x \<and> o_payload y = o_payload x \<and> o_created y = o_created x
     \<and> o_attempts x \<le> o_attempts y"

lemma event_evolves_refl [simp]: "event_evolves x x"
  by (simp add: event_evolves_def)

lemma event_evolves_trans: "event_evolves x y \<Longrightarrow> event_evolves y z \<Longrightarrow> event_evolves x z"
  unfolding event_evolves_def by simp

lemma event_rows [simp]:
  "event_evolves x (claim_row t w x)" "event_evolves x (deliver_row t x)" "event_evolves x (requeue_row h t c x)"
  by (simp_all add: event_evolves_def claim_row_def deliver_row_def requeue_row_def)

text \<open>The history of the store: \<open>evolves\<close>, with the delivery of events.\<close>

definition history :: "site_db \<Rightarrow> site_db \<Rightarrow> bool" where
  "history d d' \<longleftrightarrow> rows_evolve job_evolves (jobs d) (jobs d')
     \<and> rows_evolve page_evolves (pages d) (pages d')
     \<and> rows_evolve artifact_evolves (artifacts d) (artifacts d')
     \<and> rows_evolve event_evolves (outbox d) (outbox d')
     \<and> rows_evolve (=) (inbox d) (inbox d')"

lemma history_refl [simp]: "history d d"
  by (simp add: history_def rows_evolve_refl)

lemma history_trans: "history d d' \<Longrightarrow> history d' d'' \<Longrightarrow> history d d''"
  unfolding history_def
  by (elim conjE, intro conjI)
    (erule (1) rows_evolve_trans [rotated], erule (1) job_evolves_trans page_evolves_trans
      artifact_evolves_trans event_evolves_trans trans)+

lemma rows_evolve_mono: "rows_evolve R xs ys \<Longrightarrow> (\<And>x y. R x y \<Longrightarrow> S x y) \<Longrightarrow> rows_evolve S xs ys"
  unfolding rows_evolve_def by (blast intro: list_all2_mono)

lemma evolves_history: "evolves d d' \<Longrightarrow> history d d'"
  unfolding evolves_def history_def by (auto elim: rows_evolve_mono)

lemma update_outbox_preserves:
  assumes inv: "site_inv d" and schema: "schema_ok d'"
    and d': "d' = d\<lparr>outbox := update_where P f (outbox d)\<rparr>" and f: "\<And>x. event_evolves x (f x)"
  shows "site_inv d' \<and> history d d'"
proof -
  from f have fields: "o_job (f x) = o_job x" "o_version (f x) = o_version x" for x
    by (simp_all add: event_evolves_def)
  have "count_where (\<lambda>x. o_job x = i) (outbox d') = count_where (\<lambda>x. o_job x = i) (outbox d)" for i
    unfolding d' by (simp add: count_where_update_same fields)
  moreover have "core_inv d" using inv by (rule site_inv_core)
  ultimately have "core_inv d'"
    using job_inv_cong [of d' d] unfolding core_inv_def by (auto simp: d' fields)
  moreover have "history d d'"
    unfolding history_def d' by (simp add: rows_evolve_refl rows_evolve_update f)
  ultimately show ?thesis using schema by (simp add: site_inv_def)
qed

lemma claimEvent_preserves:
  assumes inv: "site_inv d" and ok: "claimEvent e w d = Inr (r, d')"
  shows "site_inv d' \<and> history d d'"
proof (cases "first_by (\<lambda>x. (o_available x, o_created x, o_message_id x))
         (\<lambda>x. deliverable (now e) x \<and> \<not> locked_event e (o_message_id x)) (outbox d)")
  case None
  with ok inv show ?thesis by (simp add: claimEvent_def claim_delivery_def)
next
  case (Some c)
  with ok have "schema_ok d'" "d' = d\<lparr>outbox := update_where (\<lambda>x. o_message_id x = o_message_id c)
      (claim_row (now e) w) (outbox d)\<rparr>"
    by (simp_all add: claimEvent_def claim_delivery_def)
  then show ?thesis by (rule update_outbox_preserves [OF inv]) simp
qed

lemma completeEvent_preserves:
  assumes inv: "site_inv d" and ok: "completeEvent e ev d = Inr (r, d')"
  shows "site_inv d' \<and> history d d'"
proof -
  from ok have "schema_ok d'" "d' = d\<lparr>outbox := update_where (claimed_by (ce_message ev) (ce_lease_owner ev))
      (deliver_row (now e)) (outbox d)\<rparr>"
    by (simp_all add: completeEvent_def complete_delivery_def)
  then show ?thesis by (rule update_outbox_preserves [OF inv]) simp
qed

lemma retryEvent_preserves:
  assumes inv: "site_inv d" and ok: "retryEvent hash e ev code d = Inr (r, d')"
  shows "site_inv d' \<and> history d d'"
proof -
  from ok have "schema_ok d'" "d' = d\<lparr>outbox := update_where (claimed_by (ce_message ev) (ce_lease_owner ev))
      (requeue_row hash (now e) (boundedCode code)) (outbox d)\<rparr>"
    by (simp_all add: retryEvent_def retry_delivery_def)
  then show ?thesis by (rule update_outbox_preserves [OF inv]) simp
qed

section \<open>Operations\<close>

record site_sys =
  store :: site_db
  page_claims :: "claimed_page list"
  phase_claims :: "claimed_phase list"

datatype site_op =
  AcceptCommand site_command
| ClaimIngestion uuid
| ExtendPhaseLease claimed_phase
| AddTargets claimed_phase "site_target list"
| FinishIngestion claimed_phase
| ClaimPage uuid
| ExtendPageLease claimed_page
| CompletePage claimed_page stored_object nat
| FailPage claimed_page string
| ClaimAssembly uuid
| StageArtifacts claimed_phase "artifact_input list"
| PublishStaged claimed_phase "artifact_input list"
| RetryAssembly claimed_phase string
| RetryIngestion claimed_phase string
| ReconcileCancellations
| ClaimEvent uuid
| CompleteEvent claimed_event
| RetryEvent claimed_event string
| ClaimObjectForDeletion
| CompleteObjectDeletion claimed_deletion
| RetryObjectDeletion claimed_deletion

definition on_store :: "site_sys \<Rightarrow> site_error + ('a \<times> site_db) \<Rightarrow> site_error + site_sys" where
  "on_store s r = rbind r (\<lambda>(_, d). Inr (s\<lparr>store := d\<rparr>))"

definition claim_phase :: "site_sys \<Rightarrow> site_error + (claimed_phase option \<times> site_db) \<Rightarrow> site_error + site_sys" where
  "claim_phase s r = rbind r (\<lambda>(t, d). Inr (s\<lparr>store := d,
     phase_claims := (case t of None \<Rightarrow> phase_claims s | Some c \<Rightarrow> c # phase_claims s)\<rparr>))"

definition claim_page :: "site_sys \<Rightarrow> site_error + (claimed_page option \<times> site_db) \<Rightarrow> site_error + site_sys" where
  "claim_page s r = rbind r (\<lambda>(t, d). Inr (s\<lparr>store := d,
     page_claims := (case t of None \<Rightarrow> page_claims s | Some c \<Rightarrow> c # page_claims s)\<rparr>))"

fun exec :: "(site_command \<Rightarrow> digest) \<Rightarrow> (uuid \<Rightarrow> int) \<Rightarrow> env \<Rightarrow> site_op \<Rightarrow> site_sys \<Rightarrow> site_error + site_sys" where
  "exec sha hash e (AcceptCommand c) s = on_store s (acceptCommand sha e c (store s))"
| "exec sha hash e (ClaimIngestion w) s = claim_phase s (claimIngestion e w (store s))"
| "exec sha hash e (ExtendPhaseLease t) s = on_store s (extendPhaseLease e t (store s))"
| "exec sha hash e (AddTargets t xs) s = on_store s (addTargets e t xs (store s))"
| "exec sha hash e (FinishIngestion t) s = on_store s (finishIngestion e t (store s))"
| "exec sha hash e (ClaimPage w) s = claim_page s (claimPage e w (store s))"
| "exec sha hash e (ExtendPageLease t) s = on_store s (extendPageLease e t (store s))"
| "exec sha hash e (CompletePage t b n) s = on_store s (completePage e t b n (store s))"
| "exec sha hash e (FailPage t c) s = on_store s (failPage e t c (store s))"
| "exec sha hash e (ClaimAssembly w) s = claim_phase s (claimAssembly e w (store s))"
| "exec sha hash e (StageArtifacts t xs) s = on_store s (stageArtifacts e t xs (store s))"
| "exec sha hash e (PublishStaged t xs) s = on_store s (publish_staged e t xs (store s))"
| "exec sha hash e (RetryAssembly t c) s = on_store s (retryAssembly e t c (store s))"
| "exec sha hash e (RetryIngestion t c) s = on_store s (retryIngestion e t c (store s))"
| "exec sha hash e ReconcileCancellations s = on_store s (reconcileCancellations e (store s))"
| "exec sha hash e (ClaimEvent w) s = on_store s (claimEvent e w (store s))"
| "exec sha hash e (CompleteEvent ev) s = on_store s (completeEvent e ev (store s))"
| "exec sha hash e (RetryEvent ev c) s = on_store s (retryEvent hash e ev c (store s))"
| "exec sha hash e ClaimObjectForDeletion s = on_store s (claimObjectForDeletion e (store s))"
| "exec sha hash e (CompleteObjectDeletion g) s = on_store s (completeObjectDeletion e g (store s))"
| "exec sha hash e (RetryObjectDeletion g) s = on_store s (retryObjectDeletion e g (store s))"

text \<open>A worker only uses claims the store gave out.\<close>

fun holds_claims :: "site_op \<Rightarrow> site_sys \<Rightarrow> bool" where
  "holds_claims (ExtendPhaseLease t) s = (t \<in> set (phase_claims s))"
| "holds_claims (AddTargets t _) s = (t \<in> set (phase_claims s))"
| "holds_claims (FinishIngestion t) s = (t \<in> set (phase_claims s))"
| "holds_claims (ExtendPageLease t) s = (t \<in> set (page_claims s))"
| "holds_claims (CompletePage t _ _) s = (t \<in> set (page_claims s))"
| "holds_claims (FailPage t _) s = (t \<in> set (page_claims s))"
| "holds_claims (StageArtifacts t _) s = (t \<in> set (phase_claims s))"
| "holds_claims (PublishStaged t _) s = (t \<in> set (phase_claims s))"
| "holds_claims (RetryAssembly t _) s = (t \<in> set (phase_claims s))"
| "holds_claims (RetryIngestion t _) s = (t \<in> set (phase_claims s))"
| "holds_claims _ s = True"

inductive site_step :: "(site_command \<Rightarrow> digest) \<Rightarrow> (uuid \<Rightarrow> int) \<Rightarrow> site_sys \<Rightarrow> site_sys \<Rightarrow> bool" for sha hash where
  step: "holds_claims op s \<Longrightarrow> exec sha hash e op s = Inr s' \<Longrightarrow> site_step sha hash s s'"

inductive_cases site_stepE: "site_step sha hash s s'"

abbreviation site_steps :: "(site_command \<Rightarrow> digest) \<Rightarrow> (uuid \<Rightarrow> int) \<Rightarrow> site_sys \<Rightarrow> site_sys \<Rightarrow> bool" where
  "site_steps sha hash \<equiv> (site_step sha hash)\<^sup>*\<^sup>*"

definition empty_db :: site_db where
  "empty_db = \<lparr> jobs = [], pages = [], artifacts = [], inbox = [], outbox = [] \<rparr>"

definition initial_sys :: site_sys where
  "initial_sys = \<lparr> store = empty_db, page_claims = [], phase_claims = [] \<rparr>"

definition reachable :: "(site_command \<Rightarrow> digest) \<Rightarrow> (uuid \<Rightarrow> int) \<Rightarrow> site_sys \<Rightarrow> bool" where
  "reachable sha hash s \<longleftrightarrow> site_steps sha hash initial_sys s"

section \<open>The invariant of the system\<close>

text \<open>
  Of each page, the claims handed out carry different lease generations, none above the page's; of each
  job, the phase claims.
\<close>

abbreviation claim_key :: "claimed_page \<Rightarrow> (uuid \<times> uuid) \<times> nat" where
  "claim_key t \<equiv> ((cp_job t, cp_page t), cp_lease_gen t)"

definition page_claims_ok :: "site_sys \<Rightarrow> bool" where
  "page_claims_ok s \<longleftrightarrow> (\<forall>t \<in> set (page_claims s). page_token (store s) t
       \<and> (\<exists>p \<in> set (pages (store s)). page_key p = (cp_job t, cp_page t)
            \<and> 1 \<le> cp_lease_gen t \<and> cp_lease_gen t \<le> p_lease_gen p))
     \<and> distinct (map claim_key (page_claims s))"

definition phase_claims_ok :: "site_sys \<Rightarrow> bool" where
  "phase_claims_ok s \<longleftrightarrow> (\<forall>t \<in> set (phase_claims s). phase_token (store s) t)
     \<and> distinct (map (\<lambda>t. (cj_id t, cj_lease_gen t)) (phase_claims s))"

definition sys_inv :: "site_sys \<Rightarrow> bool" where
  "sys_inv s \<longleftrightarrow> site_inv (store s) \<and> page_claims_ok s \<and> phase_claims_ok s"

lemma history_job:
  assumes "history d d'" "j \<in> set (jobs d)"
  obtains j' where "j' \<in> set (jobs d')" "job_evolves j j'"
  using assms unfolding history_def by (blast elim: rows_evolve_row)

lemma history_page:
  assumes "history d d'" "p \<in> set (pages d)"
  obtains p' where "p' \<in> set (pages d')" "page_evolves p p'"
  using assms unfolding history_def by (blast elim: rows_evolve_row)

lemma history_artifact:
  assumes "history d d'" "a \<in> set (artifacts d)"
  obtains a' where "a' \<in> set (artifacts d')" "artifact_evolves a a'"
  using assms unfolding history_def by (blast elim: rows_evolve_row)

lemma history_event:
  assumes "history d d'" "x \<in> set (outbox d)"
  obtains x' where "x' \<in> set (outbox d')" "event_evolves x x'"
  using assms unfolding history_def by (blast elim: rows_evolve_row)

lemma preserves_history: "preserves d d' \<Longrightarrow> site_inv d' \<and> history d d'"
  by (simp add: preserves_def evolves_history)

lemma acceptCommand_preserves:
  "site_inv d \<Longrightarrow> acceptCommand sha e c d = Inr (b, d') \<Longrightarrow> preserves d d'"
  by (cases c) (auto intro: acceptRequested_preserves acceptCancellation_preserves)

lemma on_store_Inr: "(on_store s r = Inr s') = (\<exists>x d. r = Inr (x, d) \<and> s' = s\<lparr>store := d\<rparr>)"
  by (auto simp: on_store_def)

lemma claim_phase_Inr: "(claim_phase s r = Inr s') = (\<exists>t d. r = Inr (t, d) \<and> s' = s\<lparr>store := d,
    phase_claims := (case t of None \<Rightarrow> phase_claims s | Some c \<Rightarrow> c # phase_claims s)\<rparr>)"
  by (auto simp: claim_phase_def)

lemma claim_page_Inr: "(claim_page s r = Inr s') = (\<exists>t d. r = Inr (t, d) \<and> s' = s\<lparr>store := d,
    page_claims := (case t of None \<Rightarrow> page_claims s | Some c \<Rightarrow> c # page_claims s)\<rparr>)"
  by (auto simp: claim_page_def)

lemmas exec_Inr = on_store_Inr claim_phase_Inr claim_page_Inr

lemma exec_store:
  assumes ok: "exec sha hash e op s = Inr s'" and held: "holds_claims op s" and inv: "sys_inv s"
  shows "site_inv (store s') \<and> history (store s) (store s')"
proof -
  from inv have i: "site_inv (store s)" by (simp add: sys_inv_def)
  have page: "page_token (store s) t" if "t \<in> set (page_claims s)" for t
    using inv that by (simp add: sys_inv_def page_claims_ok_def)
  have phase: "phase_token (store s) t" if "t \<in> set (phase_claims s)" for t
    using inv that by (simp add: sys_inv_def phase_claims_ok_def)
  note ev = claimEvent_preserves [OF i] completeEvent_preserves [OF i] retryEvent_preserves [OF i]
  show ?thesis
    using ok held
    by (cases op)
      (auto simp: exec_Inr
        dest: ev acceptCommand_preserves [OF i, THEN preserves_history]
          claimIngestion_preserves [OF i, THEN preserves_history]
          extendPhaseLease_preserves [OF i, THEN preserves_history]
          addTargets_preserves [OF i phase, THEN preserves_history]
          finishIngestion_preserves [OF i, THEN preserves_history]
          claimPage_preserves [OF i, THEN preserves_history]
          extendPageLease_preserves [OF i, THEN preserves_history]
          completePage_preserves [OF i, THEN preserves_history]
          failPage_preserves [OF i page, THEN preserves_history]
          claimAssembly_preserves [OF i, THEN preserves_history]
          stageArtifacts_preserves [OF i phase, THEN preserves_history]
          publish_staged_preserves [OF i, THEN preserves_history]
          retryAssembly_preserves [OF i phase, THEN preserves_history]
          retryIngestion_preserves [OF i phase, THEN preserves_history]
          reconcileCancellations_preserves [OF i, THEN preserves_history]
          claimObjectForDeletion_preserves [OF i, THEN preserves_history]
          completeObjectDeletion_preserves [OF i, THEN preserves_history]
          retryObjectDeletion_preserves [OF i, THEN preserves_history])
qed

section \<open>The claims\<close>

text \<open>What a claim for a page says, and the row it was taken from.\<close>

lemma claimPage_claim:
  assumes inv: "site_inv d" and ok: "claimPage e w d = Inr (Some t, d')"
  obtains p p0 where "page_token d' t" "p \<in> set (pages d')" "holds_page t p"
    "p_lease_expires p = Some (now e + seconds 60)"
    "p0 \<in> set (pages d)" "page_key p0 = (cp_job t, cp_page t)" "p_lease_gen p0 < cp_lease_gen t"
proof -
  from inv have p1: "progress d (reclaim_pages e d)" by (rule reclaim_progress [OF site_inv_work])
  let ?d1 = "reclaim_pages e d"
  from p1 have work: "work_inv ?d1" by (rule progress_work)
  from ok obtain c where c: "first_by (\<lambda>p. (p_available p, p_ordinal p, p_page p)) (claimable e ?d1) (pages ?d1) = Some c"
    by (auto simp: claimPage_def Let_def split: option.splits)
  from ok c have t: "Some t = map_option (\<lambda>j. page_claim w j (render_row e w c)) (find_job (p_job c) ?d1)"
    and d': "d' = ?d1\<lparr>pages := update_where (\<lambda>p. page_key p = page_key c) (render_row e w) (pages ?d1)\<rparr>"
    by (auto simp: claimPage_def Let_def)
  from t obtain j where j: "find_job (p_job c) ?d1 = Some j" "t = page_claim w j (render_row e w c)"
    by (cases "find_job (p_job c) ?d1") simp_all
  from find_job_Some [OF j(1)] have jin: "j \<in> set (jobs ?d1)" "j_id j = p_job c" by blast+
  from first_by_Some [OF c] have cin: "c \<in> set (pages ?d1)" by blast
  have key: "(cp_job t, cp_page t) = page_key c" "cp_lease_gen t = p_lease_gen c + 1"
      "cp_attempts t = p_attempts c + 1" "cp_max_retries t = maxRetriesPerPage (j_policy j)" "cp_lease_owner t = w"
    using j(2) by (simp_all add: page_claim_def render_row_def)
  from work_core [OF work] jin cin have "page_inv j c" by (intro core_pageD) simp_all
  then have "cp_attempts t = cp_lease_gen t" using key by (simp add: page_inv_def)
  with jin key have 1: "page_token d' t" unfolding page_token_def d' by auto
  have 2: "render_row e w c \<in> set (pages d')" unfolding d' using cin by (force simp: set_update_where)
  have 3: "holds_page t (render_row e w c)" using key by (simp add: holds_page_def render_row_def)
  have len: "length (pages ?d1) = length (pages d)"
    by (simp add: reclaim_pages_def Let_def refresh_all_eq)
  have "list_all2 page_evolves (pages d) (pages ?d1)"
    using p1 len by (intro rows_evolve_same_length) (simp_all add: progress_def evolves_def)
  then obtain p0 where p0: "p0 \<in> set (pages d)" "page_evolves p0 c" using cin by (rule list_all2_source)
  then have 4: "page_key p0 = (cp_job t, cp_page t)" "p_lease_gen p0 < cp_lease_gen t"
    using key by (simp_all add: page_evolves_def)
  show thesis
    by (rule that [OF 1 2 3 _ p0(1) 4]) (simp add: render_row_def)
qed

lemma lease_row_simps [simp]:
  "j_id (lease_row e w u s j) = j_id j" "j_owner (lease_row e w u s j) = j_owner j"
  "j_policy (lease_row e w u s j) = j_policy j" "j_status (lease_row e w u s j) = s"
  "j_lease_gen (lease_row e w u s j) = j_lease_gen j + 1" "j_lease_owner (lease_row e w u s j) = Some w"
  "j_phase_attempts (lease_row e w u s j) = j_phase_attempts j"
  "j_lease_expires (lease_row e w u s j) = Some (now e + u)"
  by (simp_all add: lease_row_def)

lemma policy_same_origin: "policy_check q \<Longrightarrow> q\<lparr>sameOriginOnly := True\<rparr> = q"
  by (cases q) (simp add: policy_check_def)

text \<open>A claim for a phase, and the row it was taken from.\<close>

lemma phase_claim_ok:
  assumes c: "c \<in> set (jobs d')" "j_lease_gen c = g + 1" "j_lease_owner c = Some w"
    and t: "t = phaseFromRow w c" and dist: "distinct (map j_id (jobs d'))" and pol: "policy_check (j_policy c)"
  shows "phase_token d' t" "cj_id t = j_id c" "cj_lease_gen t = g + 1"
proof -
  show "cj_id t = j_id c" "cj_lease_gen t = g + 1" using t c by (simp_all add: phaseFromRow_def)
  show "phase_token d' t"
    unfolding phase_token_def using c t policy_same_origin [OF pol]
    by (intro bexI [of _ c]) (simp_all add: phaseFromRow_def)
qed

lemma claimIngestion_claim:
  assumes inv: "site_inv d" and ok: "claimIngestion e w d = Inr (Some t, d')"
  obtains j0 j where "phase_token d' t" "j \<in> set (jobs d')" "holds_phase t j" "j_status j = INGESTING"
    "j_lease_expires j = Some (now e + seconds 60)"
    "j0 \<in> set (jobs d)" "j_id j0 = cj_id t" "j_lease_gen j0 < cj_lease_gen t"
proof -
  from ok obtain c where c: "first_by (\<lambda>j. (j_created j, j_id j)) (ingestion_candidate e) (jobs d) = Some c"
    by (auto simp: claimIngestion_def split: option.splits)
  let ?r = "lease_row e w (seconds 60) INGESTING c"
  from ok c have t: "t = phaseFromRow w ?r"
    and d': "d' = update_job (j_id c) (lease_row e w (seconds 60) INGESTING) d"
    by (auto simp: claimIngestion_def)
  from first_by_Some [OF c] have cin: "c \<in> set (jobs d)" by blast
  have rin: "?r \<in> set (jobs d')" using cin unfolding d' by (force simp: set_update_where)
  have "site_inv d'" using claimIngestion_preserves [OF inv ok] by (simp add: preserves_def)
  then have dist: "distinct (map j_id (jobs d'))" by (rule site_inv_distinct)
  have pol: "policy_check (j_policy ?r)" using site_inv_check [OF inv cin] by (simp add: job_check_def)
  note k = phase_claim_ok [OF rin _ _ t dist pol]
  show thesis
    by (rule that [of ?r c]) (use k rin cin t in \<open>simp_all add: holds_phase_def phaseFromRow_def\<close>)
qed

lemma claimAssembly_claim:
  assumes inv: "site_inv d" and ok: "claimAssembly e w d = Inr (Some t, d')"
  obtains j0 j where "phase_token d' t" "j \<in> set (jobs d')" "holds_phase t j" "j_status j = ASSEMBLING"
    "j_lease_expires j = Some (now e + minutes 5)"
    "j0 \<in> set (jobs d)" "j_id j0 = cj_id t" "j_lease_gen j0 < cj_lease_gen t"
proof -
  from ok obtain d1 where d1: "finalizeEmptyJobs e d = Inr d1"
    and ok': "(case first_by (\<lambda>j. (j_updated j, j_id j)) (assembly_candidate e d1) (jobs d1) of
       None \<Rightarrow> commit None d1
     | Some c \<Rightarrow> rbind (enqueueEvent e (j_id c) ASSEMBLING
           (update_job (j_id c) (lease_row e w (minutes 5) ASSEMBLING) d1))
         (commit (Some (phaseFromRow w (lease_row e w (minutes 5) ASSEMBLING c))))) = Inr (Some t, d')"
    unfolding claimAssembly_def by auto
  from inv d1 have p1: "progress d d1" by (intro finalizeEmptyJobs_progress site_inv_work)
  from ok' obtain c where c: "first_by (\<lambda>j. (j_updated j, j_id j)) (assembly_candidate e d1) (jobs d1) = Some c"
    by (auto split: option.splits)
  let ?r = "lease_row e w (minutes 5) ASSEMBLING c"
  let ?b = "\<lambda>j. j\<lparr>j_event_version := j_event_version j + 1, j_updated := now e\<rparr>"
  from ok' c have t: "t = phaseFromRow w ?r"
    and d': "enqueueEvent e (j_id c) ASSEMBLING (update_job (j_id c) (lease_row e w (minutes 5) ASSEMBLING) d1) = Inr d'"
    by auto
  have t': "t = phaseFromRow w (?b ?r)" unfolding t by (simp add: phaseFromRow_def)
  from first_by_Some [OF c] have cin: "c \<in> set (jobs d1)" by blast
  have rin: "?b ?r \<in> set (jobs d')"
    using cin unfolding enqueueEvent_fields(4) [OF d'] by (force simp: set_update_where)
  have inv': "site_inv d'" using claimAssembly_preserves [OF inv ok] by (simp add: preserves_def)
  then have dist: "distinct (map j_id (jobs d'))" by (rule site_inv_distinct)
  have pol: "policy_check (j_policy (?b ?r))"
    using site_inv_check [OF inv' rin] by (simp add: job_check_def)
  note k = phase_claim_ok [OF rin _ _ t' dist pol]
  have "length (jobs d1) = length (jobs d)"
    using d1 unfolding finalizeEmptyJobs_def
    by (rule rfold_inv) (auto simp: fail_empty_def dest: enqueueEvent_fields(4))
  with p1 have "list_all2 job_evolves (jobs d) (jobs d1)"
    by (intro rows_evolve_same_length) (simp_all add: progress_def evolves_def)
  then obtain j0 where j0: "j0 \<in> set (jobs d)" "job_evolves j0 c" using cin by (rule list_all2_source)
  show thesis
    by (rule that [of "?b ?r" j0]) (use k rin j0 t' in \<open>simp_all add: holds_phase_def phaseFromRow_def job_evolves_def\<close>)
qed

text \<open>Claims outlive the operations that do not touch them.\<close>

lemma page_claims_history:
  assumes ok: "page_claims_ok s" and h: "history (store s) (store s')" and same: "page_claims s' = page_claims s"
  shows "page_claims_ok s'"
  unfolding page_claims_ok_def same
proof (intro conjI ballI)
  show "distinct (map claim_key (page_claims s))" using ok by (simp add: page_claims_ok_def)
  fix t assume t: "t \<in> set (page_claims s)"
  with ok have tok: "page_token (store s) t" by (simp add: page_claims_ok_def)
  from h have "rows_evolve job_evolves (jobs (store s)) (jobs (store s'))" by (simp add: history_def)
  with tok show "page_token (store s') t" by (rule page_token_evolves)
  from t ok obtain p where p: "p \<in> set (pages (store s))" "page_key p = (cp_job t, cp_page t)"
    "1 \<le> cp_lease_gen t" "cp_lease_gen t \<le> p_lease_gen p" by (auto simp: page_claims_ok_def)
  from h p(1) obtain p' where "p' \<in> set (pages (store s'))" "page_evolves p p'" by (rule history_page)
  with p show "\<exists>p \<in> set (pages (store s')). page_key p = (cp_job t, cp_page t)
      \<and> 1 \<le> cp_lease_gen t \<and> cp_lease_gen t \<le> p_lease_gen p"
    by (intro bexI [of _ p']) (simp_all add: page_evolves_def)
qed

lemma phase_claims_history:
  assumes ok: "phase_claims_ok s" and h: "history (store s) (store s')" and same: "phase_claims s' = phase_claims s"
  shows "phase_claims_ok s'"
  using ok h page_token_evolves phase_token_evolves unfolding phase_claims_ok_def history_def same by blast

lemma new_page_claim:
  assumes inv: "sys_inv s" and ok: "claimPage e w (store s) = Inr (Some t, d)"
  shows "sys_inv (s\<lparr>store := d, page_claims := t # page_claims s\<rparr>)"
proof -
  let ?s = "s\<lparr>store := d\<rparr>"
  from inv have i: "site_inv (store s)" and pc: "page_claims_ok s" and hc: "phase_claims_ok s"
    by (simp_all add: sys_inv_def)
  from preserves_history [OF claimPage_preserves [OF i ok]] have d: "site_inv d" "history (store s) d" by blast+
  with page_claims_history [OF pc, of ?s] phase_claims_history [OF hc, of ?s]
  have s: "page_claims_ok ?s" "phase_claims_ok ?s" by simp_all
  from claimPage_claim [OF i ok] obtain p p0 where t: "page_token d t" and p: "p \<in> set (pages d)" "holds_page t p"
    and p0: "p0 \<in> set (pages (store s))" "page_key p0 = (cp_job t, cp_page t)" "p_lease_gen p0 < cp_lease_gen t" .
  have new: "claim_key u \<noteq> claim_key t" if u: "u \<in> set (page_claims s)" for u
  proof
    assume eq: "claim_key u = claim_key t"
    from u pc obtain q where q: "q \<in> set (pages (store s))" "page_key q = (cp_job u, cp_page u)"
      "cp_lease_gen u \<le> p_lease_gen q" by (auto simp: page_claims_ok_def)
    from eq q(2) p0(2) have "page_key q = page_key p0" by simp
    then have "q = p0"
      using distinct_key_unique [OF work_page_keys [OF site_inv_work [OF i]] q(1) p0(1)] by blast
    with q(3) p0(3) eq show False by simp
  qed
  have "\<exists>p \<in> set (pages d). page_key p = (cp_job t, cp_page t) \<and> 1 \<le> cp_lease_gen t \<and> cp_lease_gen t \<le> p_lease_gen p"
    using p p0(3) by (intro bexI [of _ p]) (simp_all add: holds_page_def)
  moreover have "claim_key t \<notin> claim_key ` set (page_claims s)" proof
    assume "claim_key t \<in> claim_key ` set (page_claims s)"
    then obtain u where "claim_key t = claim_key u" "u \<in> set (page_claims s)" by (rule imageE)
    with new [of u] show False by simp
  qed
  ultimately have "page_claims_ok (s\<lparr>store := d, page_claims := t # page_claims s\<rparr>)"
    using s(1) t by (simp add: page_claims_ok_def)
  with d(1) s(2) show ?thesis by (simp add: sys_inv_def phase_claims_ok_def)
qed

lemma new_phase_claim:
  assumes inv: "sys_inv s" and d: "site_inv d" "history (store s) d" and t: "phase_token d t"
    and j0: "j0 \<in> set (jobs (store s))" "j_id j0 = cj_id t" "j_lease_gen j0 < cj_lease_gen t"
  shows "sys_inv (s\<lparr>store := d, phase_claims := t # phase_claims s\<rparr>)"
proof -
  let ?s = "s\<lparr>store := d\<rparr>"
  from inv have i: "site_inv (store s)" and pc: "page_claims_ok s" and hc: "phase_claims_ok s"
    by (simp_all add: sys_inv_def)
  with d page_claims_history [OF pc, of ?s] phase_claims_history [OF hc, of ?s]
  have s: "page_claims_ok ?s" "phase_claims_ok ?s" by simp_all
  have new: "(cj_id u, cj_lease_gen u) \<noteq> (cj_id t, cj_lease_gen t)" if u: "u \<in> set (phase_claims s)" for u
  proof
    assume eq: "(cj_id u, cj_lease_gen u) = (cj_id t, cj_lease_gen t)"
    from u hc have "phase_token (store s) u" by (simp add: phase_claims_ok_def)
    from phase_token_job(3) [OF this site_inv_work [OF i] j0(1)] eq j0(2) have "cj_lease_gen u \<le> j_lease_gen j0" by simp
    with eq j0(3) show False by simp
  qed
  have "(cj_id t, cj_lease_gen t) \<notin> (\<lambda>t. (cj_id t, cj_lease_gen t)) ` set (phase_claims s)"
    using new by fastforce
  with s(2) t have "phase_claims_ok (s\<lparr>store := d, phase_claims := t # phase_claims s\<rparr>)"
    by (simp add: phase_claims_ok_def)
  with d(1) s(1) show ?thesis by (simp add: sys_inv_def page_claims_ok_def)
qed

lemma site_step_inv:
  assumes step: "site_step sha hash s s'" and inv: "sys_inv s"
  shows "sys_inv s' \<and> history (store s) (store s')"
proof -
  from step obtain op e where op: "holds_claims op s" "exec sha hash e op s = Inr s'"
    by (elim site_stepE) blast
  from exec_store [OF op(2,1) inv] have st: "site_inv (store s')" "history (store s) (store s')" by blast+
  from inv have i: "site_inv (store s)" and pc: "page_claims_ok s" and hc: "phase_claims_ok s"
    by (simp_all add: sys_inv_def)
  have keep: "sys_inv s'" if "page_claims s' = page_claims s" "phase_claims s' = phase_claims s"
    using st page_claims_history [OF pc st(2) that(1)] phase_claims_history [OF hc st(2) that(2)]
    by (simp add: sys_inv_def)
  have other: "sys_inv s'" if "\<exists>d. s' = s\<lparr>store := d\<rparr>" proof (rule keep)
    from that show "page_claims s' = page_claims s" "phase_claims s' = phase_claims s" by auto
  qed
  have "sys_inv s'"
  proof (cases op)
    case (ClaimPage w)
    with op(2) obtain t d where t: "claimPage e w (store s) = Inr (t, d)" and s': "s' = s\<lparr>store := d,
        page_claims := (case t of None \<Rightarrow> page_claims s | Some c \<Rightarrow> c # page_claims s)\<rparr>"
      by (auto simp: claim_page_Inr)
    show ?thesis
    proof (cases t)
      case None
      with s' show ?thesis by (intro keep) simp_all
    next
      case (Some c)
      with new_page_claim [OF inv] t s' show ?thesis by simp
    qed
  next
    case (ClaimIngestion w)
    with op(2) obtain t d where t: "claimIngestion e w (store s) = Inr (t, d)" and s': "s' = s\<lparr>store := d,
        phase_claims := (case t of None \<Rightarrow> phase_claims s | Some c \<Rightarrow> c # phase_claims s)\<rparr>"
      by (auto simp: claim_phase_Inr)
    show ?thesis
    proof (cases t)
      case None
      with s' show ?thesis by (intro keep) simp_all
    next
      case (Some c)
      with t obtain j0 where "phase_token d c" "j0 \<in> set (jobs (store s))" "j_id j0 = cj_id c" "j_lease_gen j0 < cj_lease_gen c"
        by (metis claimIngestion_claim [OF i])
      from new_phase_claim [OF inv _ _ this] st s' Some show ?thesis by simp
    qed
  next
    case (ClaimAssembly w)
    with op(2) obtain t d where t: "claimAssembly e w (store s) = Inr (t, d)" and s': "s' = s\<lparr>store := d,
        phase_claims := (case t of None \<Rightarrow> phase_claims s | Some c \<Rightarrow> c # phase_claims s)\<rparr>"
      by (auto simp: claim_phase_Inr)
    show ?thesis
    proof (cases t)
      case None
      with s' show ?thesis by (intro keep) simp_all
    next
      case (Some c)
      with t obtain j0 where "phase_token d c" "j0 \<in> set (jobs (store s))" "j_id j0 = cj_id c" "j_lease_gen j0 < cj_lease_gen c"
        by (metis claimAssembly_claim [OF i])
      from new_phase_claim [OF inv _ _ this] st s' Some show ?thesis by simp
    qed
  qed (rule other, (use op(2) in \<open>auto simp: on_store_Inr\<close>)[1])+
  with st show ?thesis by blast
qed

lemma initial_inv: "sys_inv initial_sys"
proof -
  have "schema_ok empty_db"
    by (simp add: schema_ok_def rows_ok_def keys_ok_def references_ok_def empty_db_def jobs_unique_def
        pages_unique_def artifacts_unique_def outbox_unique_def)
  moreover have "core_inv empty_db" by (simp add: core_inv_def empty_db_def)
  ultimately show ?thesis
    by (simp add: sys_inv_def initial_sys_def site_inv_def page_claims_ok_def phase_claims_ok_def)
qed

lemma site_steps_inv:
  "site_steps sha hash s s' \<Longrightarrow> sys_inv s \<Longrightarrow> sys_inv s' \<and> history (store s) (store s')"
proof (induction rule: rtranclp_induct)
  case base
  then show ?case by simp
next
  case (step y z)
  with site_step_inv show ?case by (blast intro: history_trans)
qed

lemma reachable_sys_inv: "reachable sha hash s \<Longrightarrow> sys_inv s"
  unfolding reachable_def using site_steps_inv initial_inv by blast

lemma reachable_site_inv: "reachable sha hash s \<Longrightarrow> site_inv (store s)"
  using reachable_sys_inv by (simp add: sys_inv_def)

lemma reachable_history: "reachable sha hash s \<Longrightarrow> site_steps sha hash s s' \<Longrightarrow> history (store s) (store s')"
  using site_steps_inv reachable_sys_inv by blast

lemma reachable_steps: "reachable sha hash s \<Longrightarrow> site_steps sha hash s s' \<Longrightarrow> reachable sha hash s'"
  unfolding reachable_def by (rule rtranclp_trans)

end
