(* ===== verification/Leases.thy ===== *)
theory Leases
  imports Weblens_Prelude
begin

text \<open>
  Leases with a fencing generation, the contract between a store and its workers: site pages, site
  phases and capture jobs are all leased this way. A claim raises the generation of a key, which starts
  at 0, and names its holder; the holder may lose the lease, and then only a claim gives the key away again.
\<close>

locale lease_table =
  fixes step :: "'s \<Rightarrow> 's \<Rightarrow> bool"
    and gen :: "'s \<Rightarrow> 'k \<Rightarrow> nat"
    and holder :: "'s \<Rightarrow> 'k \<Rightarrow> 'w option"
  assumes gen_mono: "step s s' \<Longrightarrow> gen s k \<le> gen s' k"
    and same_gen: "step s s' \<Longrightarrow> 0 < gen s k \<Longrightarrow> gen s' k = gen s k \<Longrightarrow>
      holder s' k = None \<or> holder s' k = holder s k"
begin

lemma steps_gen_mono: "step\<^sup>*\<^sup>* s s' \<Longrightarrow> gen s k \<le> gen s' k"
  by (induction rule: rtranclp_induct) (auto intro: le_trans gen_mono)

lemma steps_same_gen:
  "step\<^sup>*\<^sup>* s s' \<Longrightarrow> 0 < gen s k \<Longrightarrow> gen s' k = gen s k \<Longrightarrow> holder s' k = None \<or> holder s' k = holder s k"
proof (induction rule: rtranclp_induct)
  case base
  show ?case by simp
next
  case (step y z)
  from step.hyps(1) have "gen s k \<le> gen y k" by (rule steps_gen_mono)
  moreover from step.hyps(2) have "gen y k \<le> gen z k" by (rule gen_mono)
  ultimately have "gen y k = gen s k" "gen z k = gen y k" using step.prems by simp_all
  with step.IH step.prems same_gen [OF step.hyps(2)] show ?case by metis
qed

text \<open>A worker that has lost its lease never holds it again under the same generation.\<close>

lemma lost_for_good:
  assumes steps: "step\<^sup>*\<^sup>* s s'" and gen: "gen s k = g" "0 < g" and lost: "holder s k \<noteq> Some w"
  shows "\<not> (gen s' k = g \<and> holder s' k = Some w)"
proof
  assume *: "gen s' k = g \<and> holder s' k = Some w"
  with steps_same_gen [OF steps, of k] gen have "holder s' k = None \<or> holder s' k = holder s k" by simp
  with * lost show False by simp
qed

text \<open>A stale generation stays stale.\<close>

lemma stale_for_good:
  assumes "step\<^sup>*\<^sup>* s s'" "g < gen s k"
  shows "gen s' k \<noteq> g"
  using steps_gen_mono [OF assms(1), of k] assms(2) by simp

lemma one_holder:
  assumes steps: "step\<^sup>*\<^sup>* s s'" and gen: "gen s k = gen s' k" "0 < gen s k"
    and holders: "holder s k = Some v" "holder s' k = Some w"
  shows "v = w"
proof -
  from steps_same_gen [OF steps gen(2)] gen(1) have "holder s' k = None \<or> holder s' k = holder s k" by simp
  with holders show ?thesis by simp
qed

end

end
