(* ===== verification/Site_Contracts.thy ===== *)
theory Site_Contracts
  imports Site_System Leases
begin

text \<open>
  The site store meets the contracts of \<open>Outbox\<close> and \<open>Leases\<close>: interpretations of their locales on the
  steps of the system.
\<close>

text \<open>A step of the system from a state that satisfies the invariant, at a time.\<close>

definition timed_step :: "(site_command \<Rightarrow> digest) \<Rightarrow> (uuid \<Rightarrow> int) \<Rightarrow> time \<Rightarrow> site_sys \<Rightarrow> site_sys \<Rightarrow> bool" where
  "timed_step sha hash t s s' \<longleftrightarrow> sys_inv s
     \<and> (\<exists>op e. now e = t \<and> holds_claims op s \<and> exec sha hash e op s = Inr s')"

definition safe_step :: "(site_command \<Rightarrow> digest) \<Rightarrow> (uuid \<Rightarrow> int) \<Rightarrow> site_sys \<Rightarrow> site_sys \<Rightarrow> bool" where
  "safe_step sha hash s s' \<longleftrightarrow> sys_inv s \<and> site_step sha hash s s'"

definition site_queue :: "site_sys \<Rightarrow> delivery list" where
  "site_queue s = map delivery.truncate (outbox (store s))"

definition find_page :: "uuid \<times> uuid \<Rightarrow> site_db \<Rightarrow> page_row option" where
  "find_page k d = find (\<lambda>p. page_key p = k) (pages d)"

definition page_gen :: "site_sys \<Rightarrow> uuid \<times> uuid \<Rightarrow> nat" where
  "page_gen s k = (case find_page k (store s) of None \<Rightarrow> 0 | Some p \<Rightarrow> p_lease_gen p)"

definition page_holder :: "site_sys \<Rightarrow> uuid \<times> uuid \<Rightarrow> uuid option" where
  "page_holder s k = (case find_page k (store s) of None \<Rightarrow> None | Some p \<Rightarrow> p_lease_owner p)"

definition phase_gen :: "site_sys \<Rightarrow> uuid \<Rightarrow> nat" where
  "phase_gen s i = (case find_job i (store s) of None \<Rightarrow> 0 | Some j \<Rightarrow> j_lease_gen j)"

definition phase_holder :: "site_sys \<Rightarrow> uuid \<Rightarrow> uuid option" where
  "phase_holder s i = (case find_job i (store s) of None \<Rightarrow> None | Some j \<Rightarrow> j_lease_owner j)"

section \<open>The outbox\<close>

lemma preserves_rows:
  assumes "preserves d d'"
  shows "rows_step t (outbox d) (outbox d')"
proof -
  from assms obtain old new where *: "outbox d' = old @ new" "list_all2 (=) (outbox d) old"
    by (auto simp: preserves_def evolves_def rows_evolve_def)
  from *(2) have "outbox d = old" unfolding list_all2_eq .
  with * show ?thesis by (simp add: rows_step_append del: map_append)
qed

lemma claimEvent_rows:
  assumes "site_inv d" "claimEvent e w d = Inr (r, d')"
  shows "rows_step (now e) (outbox d) (outbox d')"
proof -
  obtain x rows where r: "claim_delivery (now e) (locked_event e) w (outbox d) = (x, rows)" by fastforce
  with assms have "outbox d' = rows" by (simp add: claimEvent_def)
  moreover have "distinct (map o_message_id (outbox d))"
    using assms(1) by (simp add: site_inv_def schema_ok_def keys_ok_def outbox_unique_def)
  ultimately show ?thesis using claim_delivery_moves [OF r] by simp
qed

lemma completeEvent_rows: "completeEvent e ev d = Inr (r, d') \<Longrightarrow> rows_step (now e) (outbox d) (outbox d')"
  by (simp add: completeEvent_def complete_delivery_moves)

lemma retryEvent_rows: "retryEvent hash e ev c d = Inr (r, d') \<Longrightarrow> rows_step (now e) (outbox d) (outbox d')"
  by (simp add: retryEvent_def retry_delivery_moves)

lemma exec_rows:
  assumes ok: "exec sha hash e op s = Inr s'" and held: "holds_claims op s" and inv: "sys_inv s"
  shows "rows_step (now e) (outbox (store s)) (outbox (store s'))"
proof -
  from inv have i: "site_inv (store s)" by (simp add: sys_inv_def)
  have page: "page_token (store s) t" if "t \<in> set (page_claims s)" for t
    using inv that by (simp add: sys_inv_def page_claims_ok_def)
  have phase: "phase_token (store s) t" if "t \<in> set (phase_claims s)" for t
    using inv that by (simp add: sys_inv_def phase_claims_ok_def)
  show ?thesis
    using ok held
    by (cases op)
      (auto simp: exec_Inr
        dest: claimEvent_rows [OF i] completeEvent_rows retryEvent_rows
          acceptCommand_preserves [OF i, THEN preserves_rows]
          claimIngestion_preserves [OF i, THEN preserves_rows]
          extendPhaseLease_preserves [OF i, THEN preserves_rows]
          addTargets_preserves [OF i phase, THEN preserves_rows]
          finishIngestion_preserves [OF i, THEN preserves_rows]
          claimPage_preserves [OF i, THEN preserves_rows]
          extendPageLease_preserves [OF i, THEN preserves_rows]
          completePage_preserves [OF i, THEN preserves_rows]
          failPage_preserves [OF i page, THEN preserves_rows]
          claimAssembly_preserves [OF i, THEN preserves_rows]
          stageArtifacts_preserves [OF i phase, THEN preserves_rows]
          publish_staged_preserves [OF i, THEN preserves_rows]
          retryAssembly_preserves [OF i phase, THEN preserves_rows]
          retryIngestion_preserves [OF i phase, THEN preserves_rows]
          reconcileCancellations_preserves [OF i, THEN preserves_rows]
          claimObjectForDeletion_preserves [OF i, THEN preserves_rows]
          completeObjectDeletion_preserves [OF i, THEN preserves_rows]
          retryObjectDeletion_preserves [OF i, THEN preserves_rows])
qed

interpretation site_events: outbox_store site_queue "timed_step sha hash" for sha hash
  by unfold_locales (auto simp: timed_step_def site_queue_def exec_rows)

lemma safe_step_timed: "safe_step sha hash s s' \<Longrightarrow> \<exists>t. timed_step sha hash t s s'"
  unfolding safe_step_def timed_step_def by (blast elim: site_stepE)

lemma safe_step_history: "safe_step sha hash s s' \<Longrightarrow> history (store s) (store s')"
  unfolding safe_step_def using site_step_inv by blast

lemma reachable_safe_steps:
  assumes "reachable sha hash s" "site_steps sha hash s s'"
  shows "(safe_step sha hash)\<^sup>*\<^sup>* s s'"
  using assms(2)
proof (induction rule: rtranclp_induct)
  case (step y z)
  from reachable_sys_inv [OF reachable_steps [OF assms(1) step.hyps(1)]] step
  show ?case by (auto simp: safe_step_def intro: rtranclp.rtrancl_into_rtrancl)
qed simp

lemma reachable_later:
  assumes "reachable sha hash s" "site_steps sha hash s s'"
  shows "site_events.later sha hash s s'"
  using reachable_safe_steps [OF assms]
proof (induction rule: rtranclp_induct)
  case base
  show ?case by (rule site_events.later.now)
next
  case (step y z)
  with safe_step_timed show ?case by (blast intro: site_events.later.tick)
qed

section \<open>Leases\<close>

lemma find_page_Some: "find_page k d = Some p \<Longrightarrow> p \<in> set (pages d) \<and> page_key p = k"
  unfolding find_page_def by (auto simp: find_Some_iff)

lemma find_page_unique:
  assumes "distinct (map page_key (pages d))" "p \<in> set (pages d)" "page_key p = k"
  shows "find_page k d = Some p"
proof (cases "find_page k d")
  case None
  with assms(2,3) show ?thesis by (auto simp: find_page_def find_None_iff)
next
  case (Some q)
  then have "q \<in> set (pages d)" "page_key q = page_key p" using find_page_Some assms(3) by auto
  with assms(1,2) Some show ?thesis by (metis distinct_key_unique)
qed

lemma page_after:
  assumes "safe_step sha hash s s'" "find_page k (store s) = Some p"
  obtains p' where "find_page k (store s') = Some p'" "page_evolves p p'"
proof -
  from find_page_Some [OF assms(2)] have p: "p \<in> set (pages (store s))" "page_key p = k" by blast+
  from safe_step_history [OF assms(1)] p(1) obtain p' where p': "p' \<in> set (pages (store s'))" "page_evolves p p'"
    by (rule history_page)
  have "sys_inv s'" using assms(1) site_step_inv by (auto simp: safe_step_def)
  then have "distinct (map page_key (pages (store s')))"
    by (intro work_page_keys site_inv_work) (simp add: sys_inv_def)
  from that [OF find_page_unique [OF this p'(1)] p'(2)] p(2) p'(2) show thesis by (simp add: page_evolves_def)
qed

lemma job_after:
  assumes "safe_step sha hash s s'" "find_job i (store s) = Some j"
  obtains j' where "find_job i (store s') = Some j'" "job_evolves j j'"
proof -
  from find_job_Some [OF assms(2)] have j: "j \<in> set (jobs (store s))" "j_id j = i" by blast+
  from safe_step_history [OF assms(1)] j(1) obtain j' where j': "j' \<in> set (jobs (store s'))" "job_evolves j j'"
    by (rule history_job)
  have "sys_inv s'" using assms(1) site_step_inv by (auto simp: safe_step_def)
  then have "distinct (map j_id (jobs (store s')))"
    by (intro work_job_ids site_inv_work) (simp add: sys_inv_def)
  from find_job_unique [OF this j'(1)] j(2) j'(2) that [OF _ j'(2)] show thesis by (simp add: job_evolves_def)
qed

interpretation page_leases: lease_table "safe_step sha hash" page_gen page_holder for sha hash
proof
  fix s s' k assume step: "safe_step sha hash s s'"
  show "page_gen s k \<le> page_gen s' k"
  proof (cases "find_page k (store s)")
    case (Some p)
    with step obtain p' where "find_page k (store s') = Some p'" "page_evolves p p'" by (rule page_after)
    with Some show ?thesis by (simp add: page_gen_def page_evolves_def)
  qed (simp add: page_gen_def)
  assume gen: "0 < page_gen s k" "page_gen s' k = page_gen s k"
  from gen(1) obtain p where p: "find_page k (store s) = Some p"
    by (auto simp: page_gen_def split: option.splits)
  with step obtain p' where "find_page k (store s') = Some p'" "page_evolves p p'" by (rule page_after)
  with p gen show "page_holder s' k = None \<or> page_holder s' k = page_holder s k"
    by (auto simp: page_gen_def page_holder_def page_evolves_def)
qed

interpretation phase_leases: lease_table "safe_step sha hash" phase_gen phase_holder for sha hash
proof
  fix s s' i assume step: "safe_step sha hash s s'"
  show "phase_gen s i \<le> phase_gen s' i"
  proof (cases "find_job i (store s)")
    case (Some j)
    with step obtain j' where "find_job i (store s') = Some j'" "job_evolves j j'" by (rule job_after)
    with Some show ?thesis by (simp add: phase_gen_def job_evolves_def)
  qed (simp add: phase_gen_def)
  assume gen: "0 < phase_gen s i" "phase_gen s' i = phase_gen s i"
  from gen(1) obtain j where j: "find_job i (store s) = Some j"
    by (auto simp: phase_gen_def split: option.splits)
  with step obtain j' where "find_job i (store s') = Some j'" "job_evolves j j'" by (rule job_after)
  with j gen show "phase_holder s' i = None \<or> phase_holder s' i = phase_holder s i"
    by (auto simp: phase_gen_def phase_holder_def job_evolves_def)
qed

end
