(* ===== verification/Site_Scenario.thy ===== *)
theory Site_Scenario
  imports Site_Contracts
begin

text \<open>
  A concrete run of the workflow: a request for a site of two pages is accepted, ingested, rendered by
  two workers, assembled and published. The witnesses of the properties evaluate on its states.
\<close>

definition sha0 :: "site_command \<Rightarrow> digest" where
  "sha0 c = replicate 32 (CHR ''0'')"

definition hash0 :: "uuid \<Rightarrow> int" where
  "hash0 u = int u"

definition env_at :: "nat \<Rightarrow> env" where
  "env_at t = \<lparr> now = seconds t, clock = seconds t, wall = seconds t,
     event_uuid = (\<lambda>j v. 1000 * j + v), artifact_uuid = (\<lambda>k n. n),
     locked_job = (\<lambda>_. False), locked_page = (\<lambda>_. False),
     locked_event = (\<lambda>_. False), locked_artifact = (\<lambda>_. False) \<rparr>"

definition demo_policy :: job_policy where
  "demo_policy = \<lparr> maxPages = 10, maxInputBytes = 1000, maxArchiveBytes = 2000000, maxShardBytes = 1048576,
     pageConcurrency = 2, maxRetriesPerPage = 2, maxDurationSeconds = 600, archiveRetentionDays = 7,
     metadataRetentionDays = 30, sameOriginOnly = True \<rparr>"

definition demo_request :: site_requested where
  "demo_request = \<lparr> rq_message_id = 1, rq_aggregate_version = 1, rq_corr = 2, rq_occurred_at = ''t'',
     rq_site_clone_id = 7, rq_owner = 3, rq_scan = 4, rq_root_url = ''https://a/'', rq_policy = demo_policy \<rparr>"

definition sha_a :: digest where "sha_a = replicate 32 (CHR ''a'')"
definition sha_b :: digest where "sha_b = replicate 32 (CHR ''b'')"

definition demo_targets :: "site_target list" where
  "demo_targets =
    [\<lparr> st_page = 11, st_ordinal = 0, st_public_url = ''https://a/'', st_url_sha = sha_a,
       st_local_path = ''index.html'', st_status = None, st_failure_code = None \<rparr>,
     \<lparr> st_page = 12, st_ordinal = 1, st_public_url = ''https://a/b'', st_url_sha = sha_b,
       st_local_path = ''b.html'', st_status = None, st_failure_code = None \<rparr>]"

definition demo_bundle :: stored_object where
  "demo_bundle = \<lparr> so_bucket = ''b'', so_key = ''k'', so_bytes = 40, so_sha = sha_a, so_content_type = ''application/json'' \<rparr>"

definition demo_archive :: "artifact_input list" where
  "demo_archive =
    [\<lparr> ai_kind = ARCHIVE_SHARD, ai_shard = 1, ai_filename = ''s.zip'', ai_object =
        \<lparr> so_bucket = ''b'', so_key = ''s'', so_bytes = 90, so_sha = sha_a, so_content_type = ''application/zip'' \<rparr> \<rparr>,
     \<lparr> ai_kind = MANIFEST, ai_shard = 0, ai_filename = ''m.json'', ai_object =
        \<lparr> so_bucket = ''b'', so_key = ''m'', so_bytes = 30, so_sha = sha_b, so_content_type = ''application/json'' \<rparr> \<rparr>]"

lemmas demo_defs = sha0_def hash0_def env_at_def demo_policy_def demo_request_def demo_targets_def
  demo_bundle_def demo_archive_def sha_a_def sha_b_def

lemmas schema_defs = schema_ok_def rows_ok_def keys_ok_def references_ok_def jobs_unique_def pages_unique_def
  artifacts_unique_def outbox_unique_def job_check_defs page_check_defs artifact_check_def inbox_check_def blank_def

declare order_by_simps [simp]

lemma first_by_eval: "first_by k P rows = (case order_by k P rows of [] \<Rightarrow> None | r # _ \<Rightarrow> Some r)"
  by (rule first_by_def)

lemmas time_defs = seconds_def minutes_def days_def backoff_seconds_def

lemmas run_defs = demo_defs schema_defs time_defs Let_def first_by_eval
  acceptRequested_def new_job_def empty_db_def initial_sys_def
  claimIngestion_def ingestion_candidate_def lease_free_def lease_row_def phaseFromRow_def update_job_def
  addTargets_def insert_targets_def insert_target_def page_conflict_def target_row_def holds_ingestion_def
  finishIngestion_def owns_ingestion_def enqueueEvent_def find_job_def pending_event_def progress_payload_def
  total_pages_def page_count_def succeeded_bytes_def active_pages_def
  claimPage_def reclaim_pages_def expired_pages_def claimable_def render_row_def page_claim_def max_retries_of_def
  completePage_def holds_page_def succeed_row_def incrementJob_def failPage_def retry_row_def
  claimAssembly_def finalizeEmptyJobs_def empty_job_def assembly_candidate_def
  stageArtifacts_def holds_assembly_def holds_phase_def total_bytes_def insert_artifact_def staged_row_def
  of_generation_def kind_rank_def less_eq_artifact_kind_def less_artifact_kind_def stage_complete_def staged_match_def
  publish_staged_def terminal_for_def cancelled_count_def publish_row_def
  commit_def on_store_def claim_page_def claim_phase_def

definition phase1 :: claimed_phase where
  "phase1 = \<lparr> cj_id = 7, cj_owner = 3, cj_scan = 4, cj_corr = 2, cj_root_url = ''https://a/'', cj_policy = demo_policy,
     cj_lease_owner = 50, cj_lease_gen = 1, cj_attempts = 1 \<rparr>"

definition job1 :: job_row where
  "job1 = \<lparr> j_id = 7, j_command_message_id = 1, j_command_sha = replicate 32 (CHR ''0''),
      j_owner = 3, j_scan = 4, j_corr = 2, j_command_version = 1, j_root_url = ''https://a/'', j_status = INGESTING,
      j_policy = demo_policy, j_discovered = 0, j_processed = 0, j_succeeded = 0, j_failed = 0,
      j_input_bytes = 0, j_archive_bytes = 0, j_artifact_count = 0, j_event_version = 0,
      j_lease_owner = None, j_lease_gen = 0, j_lease_expires = None,
      j_phase_attempts = 0, j_phase_available = seconds 1,
      j_terminal_code = None, j_terminal_message = None, j_ingestion_finished = None,
      j_cancel_requested = None, j_created = seconds 1, j_started = None, j_finished = None,
      j_updated = seconds 1 \<rparr>"

definition sys1 :: site_sys where
  "sys1 = initial_sys\<lparr>store := empty_db\<lparr>jobs := [job1]\<rparr>\<rparr>"

lemma run1: "exec sha0 hash0 (env_at 1) (AcceptCommand (Requested demo_request)) initial_sys = Inr sys1"
  by (simp add: run_defs sys1_def job1_def)

definition job2 :: job_row where
  "job2 = job1\<lparr>j_lease_owner := Some 50, j_lease_gen := 1, j_lease_expires := Some (seconds 62), j_updated := seconds 2\<rparr>"

definition sys2 :: site_sys where
  "sys2 = \<lparr> store = empty_db\<lparr>jobs := [job2]\<rparr>, page_claims = [], phase_claims = [phase1] \<rparr>"

lemma run2: "exec sha0 hash0 (env_at 2) (ClaimIngestion 50) sys1 = Inr sys2"
  by (simp add: run_defs sys1_def job1_def sys2_def job2_def phase1_def)

definition page1 :: page_row where
  "page1 = \<lparr> p_job = 7, p_page = 11, p_ordinal = 0, p_public_url = ''https://a/'', p_url_sha = sha_a,
     p_local_path = ''index.html'', p_status = P_QUEUED, p_attempts = 0, p_available = seconds 3,
     p_lease_owner = None, p_lease_gen = 0, p_lease_expires = None,
     p_bundle_bucket = None, p_bundle_key = None, p_bundle_bytes = None, p_bundle_sha = None,
     p_bundle_state = None, p_bundle_delete_after = None, p_input_bytes = 0, p_failure_code = None,
     p_created = seconds 3, p_started = None, p_finished = None, p_updated = seconds 3 \<rparr>"

definition page2 :: page_row where
  "page2 = page1\<lparr>p_page := 12, p_ordinal := 1, p_public_url := ''https://a/b'', p_url_sha := sha_b, p_local_path := ''b.html''\<rparr>"

definition sys3 :: site_sys where
  "sys3 = sys2\<lparr>store := empty_db\<lparr>jobs := [job2], pages := [page1, page2]\<rparr>\<rparr>"

lemma run3: "exec sha0 hash0 (env_at 3) (AddTargets phase1 demo_targets) sys2 = Inr sys3"
  by (simp add: run_defs job1_def sys2_def job2_def phase1_def sys3_def page1_def page2_def)

definition job4 :: job_row where
  "job4 = job1\<lparr>j_status := RUNNING, j_discovered := 2, j_event_version := 1, j_lease_gen := 1,
     j_phase_available := seconds 4, j_ingestion_finished := Some (seconds 4), j_started := Some (seconds 4),
     j_updated := seconds 4\<rparr>"

definition event4 :: outbox_row where
  "event4 = pending_event (env_at 4) RUNNING job4"

definition sys4 :: site_sys where
  "sys4 = sys3\<lparr>store := \<lparr> jobs = [job4], pages = [page1, page2], artifacts = [], inbox = [], outbox = [event4] \<rparr>\<rparr>"

lemmas sys_defs = job1_def phase1_def sys1_def sys2_def job2_def sys3_def page1_def page2_def
  job4_def event4_def sys4_def

lemma run4: "exec sha0 hash0 (env_at 4) (FinishIngestion phase1) sys3 = Inr sys4"
  by (simp add: run_defs sys_defs)

definition page1r :: page_row where
  "page1r = page1\<lparr>p_status := P_RENDERING, p_attempts := 1, p_lease_owner := Some 61, p_lease_gen := 1,
     p_lease_expires := Some (seconds 65), p_started := Some (seconds 5), p_updated := seconds 5\<rparr>"

definition claim1 :: claimed_page where
  "claim1 = \<lparr> cp_job = 7, cp_owner = 3, cp_scan = 4, cp_corr = 2, cp_root_url = ''https://a/'', cp_page = 11,
     cp_public_url = ''https://a/'', cp_local_path = ''index.html'', cp_lease_owner = 61, cp_lease_gen = 1,
     cp_attempts = 1, cp_max_retries = 2 \<rparr>"

definition sys5 :: site_sys where
  "sys5 = sys4\<lparr>store := (store sys4)\<lparr>pages := [page1r, page2]\<rparr>, page_claims := [claim1]\<rparr>"

lemma run5: "exec sha0 hash0 (env_at 5) (ClaimPage 61) sys4 = Inr sys5"
  by (simp add: run_defs sys_defs page1r_def claim1_def sys5_def)

definition page2r :: page_row where
  "page2r = page2\<lparr>p_status := P_RENDERING, p_attempts := 1, p_lease_owner := Some 62, p_lease_gen := 1,
     p_lease_expires := Some (seconds 66), p_started := Some (seconds 6), p_updated := seconds 6\<rparr>"

definition claim2 :: claimed_page where
  "claim2 = claim1\<lparr>cp_page := 12, cp_public_url := ''https://a/b'', cp_local_path := ''b.html'', cp_lease_owner := 62\<rparr>"

definition sys6 :: site_sys where
  "sys6 = sys5\<lparr>store := (store sys4)\<lparr>pages := [page1r, page2r]\<rparr>, page_claims := [claim2, claim1]\<rparr>"

lemma run6: "exec sha0 hash0 (env_at 6) (ClaimPage 62) sys5 = Inr sys6"
  by (simp add: run_defs sys_defs page1r_def claim1_def sys5_def page2r_def claim2_def sys6_def)

definition job7 :: job_row where
  "job7 = job4\<lparr>j_processed := 1, j_succeeded := 1, j_input_bytes := 100, j_updated := seconds 7\<rparr>"

definition page1s :: page_row where
  "page1s = page1r\<lparr>p_status := P_SUCCEEDED, p_lease_owner := None, p_lease_expires := None,
     p_bundle_bucket := Some ''b'', p_bundle_key := Some ''k'', p_bundle_bytes := Some 40, p_bundle_sha := Some sha_a,
     p_bundle_state := Some B_AVAILABLE, p_bundle_delete_after := Some (seconds 7), p_input_bytes := 100,
     p_finished := Some (seconds 7), p_updated := seconds 7\<rparr>"

definition sys7 :: site_sys where
  "sys7 = sys6\<lparr>store := (store sys4)\<lparr>jobs := [job7], pages := [page1s, page2r]\<rparr>\<rparr>"

lemmas sys_defs2 = sys_defs page1r_def claim1_def sys5_def page2r_def claim2_def sys6_def job7_def page1s_def sys7_def

lemma run7: "exec sha0 hash0 (env_at 7) (CompletePage claim1 demo_bundle 100) sys6 = Inr sys7"
  by (simp add: run_defs sys_defs2)

definition page2q :: page_row where
  "page2q = page2r\<lparr>p_status := P_QUEUED, p_available := seconds 10, p_lease_owner := None, p_lease_expires := None,
     p_failure_code := Some ''NET'', p_updated := seconds 8\<rparr>"

definition sys8 :: site_sys where
  "sys8 = sys7\<lparr>store := (store sys7)\<lparr>pages := [page1s, page2q]\<rparr>\<rparr>"

lemma net_code: "boundedCode ''NET'' = ''NET''"
  by (simp add: boundedCode_def bounded_code_or_def toUpperCase_def upper_char_def between_def less_eq_char_def
      replace_class_def code_char_def upper_alpha_def digit_def)

lemma run8: "exec sha0 hash0 (env_at 8) (FailPage claim2 ''NET'') sys7 = Inr sys8"
  by (simp add: run_defs sys_defs2 page2q_def sys8_def net_code)

definition page2t :: page_row where
  "page2t = page2q\<lparr>p_status := P_RENDERING, p_attempts := 2, p_lease_owner := Some 62, p_lease_gen := 2,
     p_lease_expires := Some (seconds 70), p_failure_code := None, p_updated := seconds 10\<rparr>"

definition claim3 :: claimed_page where
  "claim3 = claim2\<lparr>cp_lease_gen := 2, cp_attempts := 2\<rparr>"

definition sys9 :: site_sys where
  "sys9 = sys8\<lparr>store := (store sys7)\<lparr>pages := [page1s, page2t]\<rparr>, page_claims := [claim3, claim2, claim1]\<rparr>"

lemmas sys_defs3 = sys_defs2 page2q_def sys8_def page2t_def claim3_def sys9_def net_code

lemma run9: "exec sha0 hash0 (env_at 10) (ClaimPage 62) sys8 = Inr sys9"
  by (simp add: run_defs sys_defs3)

definition job10 :: job_row where
  "job10 = job7\<lparr>j_processed := 2, j_failed := 1, j_updated := seconds 11\<rparr>"

definition page2f :: page_row where
  "page2f = page2t\<lparr>p_status := P_FAILED, p_lease_owner := None, p_lease_expires := None,
     p_failure_code := Some ''NET'', p_finished := Some (seconds 11), p_updated := seconds 11\<rparr>"

definition sys10 :: site_sys where
  "sys10 = sys9\<lparr>store := (store sys7)\<lparr>jobs := [job10], pages := [page1s, page2f]\<rparr>\<rparr>"

lemma run10: "exec sha0 hash0 (env_at 11) (FailPage claim3 ''NET'') sys9 = Inr sys10"
  by (simp add: run_defs sys_defs3 job10_def page2f_def sys10_def)

definition job11 :: job_row where
  "job11 = job10\<lparr>j_status := ASSEMBLING, j_lease_owner := Some 51, j_lease_gen := 2,
     j_lease_expires := Some (seconds 312), j_event_version := 2, j_updated := seconds 12\<rparr>"

definition event11 :: outbox_row where
  "event11 = pending_event (env_at 12) ASSEMBLING job11"

definition phase2 :: claimed_phase where
  "phase2 = phase1\<lparr>cj_lease_owner := 51, cj_lease_gen := 2\<rparr>"

definition sys11 :: site_sys where
  "sys11 = sys10\<lparr>store := (store sys10)\<lparr>jobs := [job11], outbox := [event4, event11]\<rparr>, phase_claims := [phase2, phase1]\<rparr>"

lemmas sys_defs4 = sys_defs3 job10_def page2f_def sys10_def job11_def event11_def phase2_def sys11_def

lemma run11: "exec sha0 hash0 (env_at 12) (ClaimAssembly 51) sys10 = Inr sys11"
  by (simp add: run_defs sys_defs4)

definition staged1 :: artifact_row where
  "staged1 = staged_row (env_at 13) phase2 (demo_archive ! 0)"

definition staged2 :: artifact_row where
  "staged2 = staged_row (env_at 13) phase2 (demo_archive ! 1)"

definition sys12 :: site_sys where
  "sys12 = sys11\<lparr>store := (store sys11)\<lparr>artifacts := [staged1, staged2]\<rparr>\<rparr>"

lemmas sys_defs5 = sys_defs4 staged1_def staged2_def sys12_def

lemma run12: "exec sha0 hash0 (env_at 13) (StageArtifacts phase2 demo_archive) sys11 = Inr sys12"
  by (simp add: run_defs sys_defs5)

definition job13 :: job_row where
  "job13 = job11\<lparr>j_status := PARTIAL, j_lease_owner := None, j_lease_expires := None, j_archive_bytes := 120,
     j_artifact_count := 2, j_finished := Some (seconds 14), j_event_version := 3, j_updated := seconds 14\<rparr>"

definition sys13 :: site_sys where
  "sys13 = sys12\<lparr>store := (store sys12)\<lparr>jobs := [job13],
     artifacts := [publish_row (env_at 14) phase2 staged1, publish_row (env_at 14) phase2 staged2],
     outbox := [event4, event11, pending_event (env_at 14) PARTIAL job13]\<rparr>\<rparr>"

lemma run13: "exec sha0 hash0 (env_at 14) (PublishStaged phase2 demo_archive) sys12 = Inr sys13"
  by (simp add: run_defs sys_defs5 job13_def sys13_def)

section \<open>The states of the run are reachable\<close>

lemma reachable_step:
  "reachable sha hash s \<Longrightarrow> holds_claims op s \<Longrightarrow> exec sha hash e op s = Inr s' \<Longrightarrow> reachable sha hash s'"
  unfolding reachable_def by (rule rtranclp.rtrancl_into_rtrancl) (auto intro: site_step.step)

lemma reach0: "reachable sha0 hash0 initial_sys"
  by (simp add: reachable_def)

lemma reach1: "reachable sha0 hash0 sys1" by (rule reachable_step [OF reach0 _ run1]) simp
lemma reach2: "reachable sha0 hash0 sys2" by (rule reachable_step [OF reach1 _ run2]) simp
lemma reach3: "reachable sha0 hash0 sys3" by (rule reachable_step [OF reach2 _ run3]) (simp add: sys2_def)
lemma reach4: "reachable sha0 hash0 sys4" by (rule reachable_step [OF reach3 _ run4]) (simp add: sys2_def sys3_def)
lemma reach5: "reachable sha0 hash0 sys5" by (rule reachable_step [OF reach4 _ run5]) simp
lemma reach6: "reachable sha0 hash0 sys6" by (rule reachable_step [OF reach5 _ run6]) simp
lemma reach7: "reachable sha0 hash0 sys7" by (rule reachable_step [OF reach6 _ run7]) (simp add: sys6_def)
lemma reach8: "reachable sha0 hash0 sys8" by (rule reachable_step [OF reach7 _ run8]) (simp add: sys6_def sys7_def)
lemma reach9: "reachable sha0 hash0 sys9" by (rule reachable_step [OF reach8 _ run9]) simp
lemma reach10: "reachable sha0 hash0 sys10" by (rule reachable_step [OF reach9 _ run10]) (simp add: sys9_def)
lemma reach11: "reachable sha0 hash0 sys11" by (rule reachable_step [OF reach10 _ run11]) simp
lemma reach12: "reachable sha0 hash0 sys12" by (rule reachable_step [OF reach11 _ run12]) (simp add: sys11_def)
lemma reach13: "reachable sha0 hash0 sys13" by (rule reachable_step [OF reach12 _ run13]) (simp add: sys11_def sys12_def)

end
