(* ===== verification/Site_Properties.thy ===== *)
theory Site_Properties
  imports Site_Scenario
begin

text \<open>
  What the site clone store guarantees in every state its workers can reach, whatever the order and
  interleaving of their operations.
\<close>

section \<open>Counters and budgets\<close>







section \<open>Page leases\<close>

lemma page_claim_row:
  assumes inv: "sys_inv s" and t: "t \<in> set (page_claims s)"
  obtains p j where "find_page (cp_job t, cp_page t) (store s) = Some p" "1 \<le> cp_lease_gen t"
    "cp_lease_gen t \<le> p_lease_gen p" "j \<in> set (jobs (store s))" "j_id j = cp_job t" "page_inv j p"
    "maxRetriesPerPage (j_policy j) = cp_max_retries t" "maxRetriesPerPage (j_policy j) \<le> 3"
proof -
  from inv have i: "site_inv (store s)" and pc: "page_claims_ok s" by (simp_all add: sys_inv_def)
  from pc t obtain p where p: "p \<in> set (pages (store s))" "page_key p = (cp_job t, cp_page t)"
    "1 \<le> cp_lease_gen t" "cp_lease_gen t \<le> p_lease_gen p" by (auto simp: page_claims_ok_def)
  from pc t obtain j where j: "j \<in> set (jobs (store s))" "j_id j = cp_job t"
    "maxRetriesPerPage (j_policy j) = cp_max_retries t" by (auto simp: page_claims_ok_def page_token_def)
  have "find_page (cp_job t, cp_page t) (store s) = Some p"
    by (rule find_page_unique [OF work_page_keys [OF site_inv_work [OF i]] p(1,2)])
  moreover have "page_inv j p"
    using core_pageD [OF site_inv_core [OF i] j(1) p(1)] p(2) j(2) by simp
  moreover have "maxRetriesPerPage (j_policy j) \<le> 3"
    using site_inv_check [OF i j(1)] by (simp add: job_check_def policy_check_def)
  ultimately show thesis using that p j by blast
qed

text \<open>
  C3. However often its leases expire or its renderings fail, a page is handed to workers at most
  \<open>max_retries_per_page\<close> times, at most three, and each time under another lease generation.
\<close>

theorem page_claims_bounded:
  assumes "reachable sha hash s" "t \<in> set (page_claims s)"
  defines "same_page \<equiv> filter (\<lambda>u. cp_job u = cp_job t \<and> cp_page u = cp_page t) (page_claims s)"
  shows "length same_page \<le> cp_max_retries t \<and> cp_max_retries t \<le> 3 \<and> distinct (map cp_lease_gen same_page)"
proof -
  from assms(1) have inv: "sys_inv s" by (rule reachable_sys_inv)
  then have pc: "page_claims_ok s" by (simp add: sys_inv_def)
  from page_claim_row [OF inv assms(2)] obtain p j where
    p: "find_page (cp_job t, cp_page t) (store s) = Some p" and pi: "page_inv j p"
    and r: "maxRetriesPerPage (j_policy j) = cp_max_retries t" "maxRetriesPerPage (j_policy j) \<le> 3" .
  have "distinct (map claim_key same_page)"
    using pc unfolding page_claims_ok_def same_page_def by (blast intro: distinct_map_filter)
  moreover have "map claim_key same_page = map (Pair (cp_job t, cp_page t)) (map cp_lease_gen same_page)"
    by (simp add: same_page_def)
  ultimately have "distinct (map (Pair (cp_job t, cp_page t)) (map cp_lease_gen same_page))" by simp
  then have d: "distinct (map cp_lease_gen same_page)" unfolding distinct_map [of "Pair _"] by blast
  have "cp_lease_gen u \<in> {1..cp_max_retries t}" if "u \<in> set same_page" for u
  proof -
    from that have u: "u \<in> set (page_claims s)" "cp_job u = cp_job t" "cp_page u = cp_page t"
      by (simp_all add: same_page_def)
    from page_claim_row [OF inv u(1)] obtain q where
      "find_page (cp_job u, cp_page u) (store s) = Some q" "1 \<le> cp_lease_gen u" "cp_lease_gen u \<le> p_lease_gen q" .
    with p u pi r show ?thesis by (simp add: page_inv_def)
  qed
  then have "set (map cp_lease_gen same_page) \<subseteq> {1..cp_max_retries t}" unfolding set_map by blast
  then have "card (set (map cp_lease_gen same_page)) \<le> cp_max_retries t"
    using card_mono [OF finite_atLeastAtMost] by (metis card_atLeastAtMost diff_Suc_1 One_nat_def)
  moreover from distinct_card [OF d] have "card (set (map cp_lease_gen same_page)) = length same_page" by simp
  ultimately show ?thesis using d r by simp
qed

theorem page_claims_bounded_witness:
  "length (filter (\<lambda>u. cp_job u = cp_job claim3 \<and> cp_page u = cp_page claim3) (page_claims sys9)) \<le> 2
    \<and> length (filter (\<lambda>u. cp_job u = cp_job claim3 \<and> cp_page u = cp_page claim3) (page_claims sys9)) = 2"
  using page_claims_bounded [OF reach9, of claim3]
  by (simp add: sys9_def claim3_def claim2_def claim1_def)

text \<open>
  C4. Fencing of page leases. A worker that no longer holds the lease of its claim (it expired and was
  reclaimed, the page went to another worker, or ended) never holds it again: from then on its
  \<open>completePage\<close> is refused, and its \<open>failPage\<close> and \<open>extendPageLease\<close> change nothing.
\<close>

lemma not_held_refused:
  assumes "\<forall>p \<in> set (pages d). \<not> holds_page t p" "schema_ok d"
  shows "completePage e t b n d = Inl STALE_SITE_PAGE_LEASE \<and> failPage e t c d = Inr ((), d)
    \<and> extendPageLease e t d = Inr (False, d)"
proof -
  from assms(1) have none: "\<not> (\<exists>p \<in> set (pages d). holds_page t p)" by blast
  then have same: "update_where (holds_page t) f (pages d) = pages d" for f
    by (intro update_where_none) blast
  have zero: "count_where (holds_page t) (pages d) = 0" using assms(1) by (simp add: count_where_0)
  show ?thesis
    using none assms(2) by (simp add: completePage_def failPage_def extendPageLease_def Let_def same zero)
qed

theorem stale_page_claim_refused:
  assumes "reachable sha hash s" "t \<in> set (page_claims s)"
    and "\<forall>p \<in> set (pages (store s)). \<not> holds_page t p" "site_steps sha hash s s'"
  shows "completePage e t b n (store s') = Inl STALE_SITE_PAGE_LEASE
    \<and> failPage e t c (store s') = Inr ((), store s')
    \<and> extendPageLease e t (store s') = Inr (False, store s')"
proof -
  let ?k = "(cp_job t, cp_page t)"
  from assms(1) have inv: "sys_inv s" by (rule reachable_sys_inv)
  from reachable_site_inv [OF reachable_steps [OF assms(1,4)]] have inv': "site_inv (store s')" .
  from page_claim_row [OF inv assms(2)] obtain p where
    p: "find_page ?k (store s) = Some p" "1 \<le> cp_lease_gen t" "cp_lease_gen t \<le> p_lease_gen p" .
  have steps: "(safe_step sha hash)\<^sup>*\<^sup>* s s'" by (rule reachable_safe_steps [OF assms(1,4)])
  have "\<not> holds_page t p'" if p': "p' \<in> set (pages (store s'))" for p'
  proof
    assume h: "holds_page t p'"
    then have "find_page ?k (store s') = Some p'"
      using find_page_unique [OF work_page_keys [OF site_inv_work [OF inv']] p'] holds_page_key by blast
    with h have now': "page_gen s' ?k = cp_lease_gen t" "page_holder s' ?k = Some (cp_lease_owner t)"
      by (simp_all add: page_gen_def page_holder_def holds_page_def)
    show False
    proof (cases "p_lease_gen p = cp_lease_gen t")
      case True
      from p(1) have pin: "p \<in> set (pages (store s))" "page_key p = ?k" by (auto dest: find_page_Some)
      with assms(3) have "\<not> holds_page t p" by blast
      moreover have "page_check p" using reachable_site_inv [OF assms(1)] pin(1) by (rule site_inv_page_check)
      ultimately have "p_lease_owner p \<noteq> Some (cp_lease_owner t)"
        using True pin(2) by (auto simp: holds_page_def page_check_def page_lease_check_def)
      with p(1) True page_leases.lost_for_good [OF steps, of ?k "cp_lease_gen t" "cp_lease_owner t"] p(2) now'
      show False by (simp add: page_gen_def page_holder_def)
    next
      case False
      with p(1,3) have "cp_lease_gen t < page_gen s ?k" by (simp add: page_gen_def)
      with page_leases.stale_for_good [OF steps] now'(1) show False by blast
    qed
  qed
  with not_held_refused [of "store s'" t] inv' show ?thesis by (simp add: site_inv_def)
qed

theorem stale_page_claim_refused_witness:
  "completePage (env_at 12) claim2 demo_bundle 5 (store sys10) = Inl STALE_SITE_PAGE_LEASE"
proof -
  have "claim2 \<in> set (page_claims sys9)" by (simp add: sys9_def)
  moreover have "\<forall>p \<in> set (pages (store sys9)). \<not> holds_page claim2 p"
    by (simp add: sys9_def holds_page_def claim2_def claim1_def page1s_def page1r_def page2t_def page2q_def page2r_def)
  moreover have "site_steps sha0 hash0 sys9 sys10"
    using run10 by (intro r_into_rtranclp site_step.step [where op = "FailPage claim3 ''NET''"]) (simp add: sys9_def)
  ultimately show ?thesis using stale_page_claim_refused [OF reach9, of claim2 sys10] by blast
qed

section \<open>Phase leases\<close>




section \<open>The life cycle of a job\<close>

text \<open>
  C6. The store implements the abstract life cycle: over any run a job's status only moves along
  \<open>lifecycle\<close>, its identity, owner, policy and command never change, its event version and its lease
  generation never go back. In particular an ended job stays as it is, except that a published one may expire.
\<close>

theorem job_history:
  assumes "reachable sha hash s" "site_steps sha hash s s'" "j \<in> set (jobs (store s))"
  shows "\<exists>j' \<in> set (jobs (store s')). j_id j' = j_id j \<and> j_owner j' = j_owner j \<and> j_policy j' = j_policy j
    \<and> j_command_sha j' = j_command_sha j \<and> j_event_version j \<le> j_event_version j' \<and> j_lease_gen j \<le> j_lease_gen j'
    \<and> lifecycle (j_status j) (j_status j')
    \<and> (terminal (j_status j) \<longrightarrow> j_status j' = j_status j \<or> (j_status j \<in> {PUBLISHED, PARTIAL} \<and> j_status j' = EXPIRED))"
proof -
  from reachable_history [OF assms(1,2)] assms(3) obtain j' where "j' \<in> set (jobs (store s'))" "job_evolves j j'"
    by (rule history_job)
  with lifecycle_terminal [of "j_status j" "j_status j'"] show ?thesis
    unfolding job_evolves_def by (intro bexI [of _ j']) blast+
qed

lemma job10_in: "job10 \<in> set (jobs (store sys10))"
  by (simp add: sys10_def)

theorem job_history_witness:
  "\<exists>j' \<in> set (jobs (store sys11)). j_id j' = 7 \<and> lifecycle RUNNING (j_status j')"
proof -
  have "site_steps sha0 hash0 sys10 sys11"
    using run11 by (intro r_into_rtranclp site_step.step [where op = "ClaimAssembly 51"]) simp
  from job_history [OF reach10 this job10_in] show ?thesis
    by (auto simp: job10_def job7_def job4_def job1_def)
qed

text \<open>
  C7. The history of a page: over any run it keeps its identity, URL and path; once it succeeded,
  failed or was cancelled, its status, its stored bundle and its bytes are final; attempts and lease
  generation only grow.
\<close>

theorem page_history:
  assumes "reachable sha hash s" "site_steps sha hash s s'" "p \<in> set (pages (store s))"
  shows "\<exists>p' \<in> set (pages (store s')). page_key p' = page_key p \<and> p_public_url p' = p_public_url p
    \<and> p_local_path p' = p_local_path p \<and> p_attempts p \<le> p_attempts p' \<and> p_lease_gen p \<le> p_lease_gen p'
    \<and> (p_status p \<in> {P_SUCCEEDED, P_FAILED, P_CANCELLED} \<longrightarrow>
         p_status p' = p_status p \<and> p_bundle_key p' = p_bundle_key p \<and> p_input_bytes p' = p_input_bytes p)"
proof -
  from reachable_history [OF assms(1,2)] assms(3) obtain p' where "p' \<in> set (pages (store s'))" "page_evolves p p'"
    by (rule history_page)
  then show ?thesis unfolding page_evolves_def ended_def by (intro bexI [of _ p']) blast+
qed

theorem page_history_witness:
  "\<exists>p' \<in> set (pages (store sys8)). page_key p' = (7, 11) \<and> p_status p' = P_SUCCEEDED"
proof -
  have "site_steps sha0 hash0 sys7 sys8"
    using run8 by (intro r_into_rtranclp site_step.step [where op = "FailPage claim2 ''NET''"]) (simp add: sys7_def sys6_def)
  moreover have "page1s \<in> set (pages (store sys7))" by (simp add: sys7_def)
  ultimately show ?thesis using page_history [OF reach7, of sys8 page1s]
    by (auto simp: page1s_def page1r_def page1_def)
qed

section \<open>Events\<close>

text \<open>
  C8. The events of a job form a gapless log: their versions are exactly 1 up to the event version of the
  job, each once, so the control plane can order and deduplicate them.
\<close>

theorem events_gapless:
  assumes "reachable sha hash s" "j \<in> set (jobs (store s))"
  defines "versions \<equiv> map o_version (filter (\<lambda>x. o_job x = j_id j) (outbox (store s)))"
  shows "distinct versions \<and> set versions = {1..j_event_version j}"
proof -
  from assms(1) have inv: "site_inv (store s)" by (rule reachable_site_inv)
  then have core: "core_inv (store s)" by (rule site_inv_core)
  have "distinct (map (\<lambda>x. (o_job x, o_version x)) (outbox (store s)))"
    using inv by (simp add: site_inv_def schema_ok_def keys_ok_def outbox_unique_def)
  then have "distinct (map (\<lambda>x. (o_job x, o_version x)) (filter (\<lambda>x. o_job x = j_id j) (outbox (store s))))"
    by (rule distinct_map_filter)
  moreover have "map (\<lambda>x. (o_job x, o_version x)) (filter (\<lambda>x. o_job x = j_id j) (outbox (store s)))
      = map (Pair (j_id j)) versions"
    unfolding versions_def by simp
  ultimately have "distinct (map (Pair (j_id j)) versions)" by simp
  then have d: "distinct versions" unfolding distinct_map [of "Pair _"] by blast
  have sub: "set versions \<subseteq> {1..j_event_version j}"
    using core_outboxD [OF core assms(2)] unfolding versions_def by fastforce
  have "card (set versions) = length versions" using d by (rule distinct_card)
  also have "\<dots> = j_event_version j"
    using core_countD [OF core assms(2)] by (simp add: versions_def count_where_def)
  finally have "set versions = {1..j_event_version j}"
    using sub by (intro card_subset_eq) simp_all
  with d show ?thesis by blast
qed

lemma job13_in: "job13 \<in> set (jobs (store sys13))"
  by (simp add: sys13_def)

theorem events_gapless_witness:
  "set (map o_version (filter (\<lambda>x. o_job x = 7) (outbox (store sys13)))) = {1, 2, 3}"
proof -
  have "{1..3} = {1, 2, 3::nat}" by auto
  then show ?thesis using events_gapless [OF reach13 job13_in]
    by (simp add: job13_def job11_def job10_def job7_def job4_def job1_def)
qed



section \<open>Stored objects\<close>

text \<open>
  Downloads and expiry agree: an artifact that is published, or waits for its deletion, belongs to a job
  that is \<open>PUBLISHED\<close> or \<open>PARTIAL\<close>. So a job becomes \<open>EXPIRED\<close> only after the last of its
  published objects is gone, and no other job ever shows an object.
\<close>

lemma published_objects_have_published_jobs:
  assumes "reachable sha hash s" "a \<in> set (artifacts (store s))" "a_state a \<in> {A_PUBLISHED, A_DELETE_PENDING}"
  shows "\<exists>j \<in> set (jobs (store s)). j_id j = a_job a \<and> j_owner j = a_owner a \<and> j_status j \<in> {PUBLISHED, PARTIAL}"
proof -
  from assms(1) have inv: "site_inv (store s)" by (rule reachable_site_inv)
  then have "references_ok (store s)" by (simp add: site_inv_def schema_ok_def)
  with assms(2) have "(a_job a, a_owner a) \<in> (\<lambda>j. (j_id j, j_owner j)) ` set (jobs (store s))"
    by (simp add: references_ok_def)
  then obtain j where j: "j \<in> set (jobs (store s))" "a_job a = j_id j" "a_owner a = j_owner j" by blast
  have "artifact_inv j a" by (rule core_artifactD [OF site_inv_core [OF inv] j(1) assms(2) j(2)])
  with assms(3) j show ?thesis by (intro bexI [of _ j]) (simp_all add: artifact_inv_def)
qed

lemma published_objects_have_published_jobs_witness:
  "\<exists>j \<in> set (jobs (store sys13)). j_id j = 7 \<and> j_status j \<in> {PUBLISHED, PARTIAL}"
proof -
  have "publish_row (env_at 14) phase2 staged1 \<in> set (artifacts (store sys13))" by (simp add: sys13_def)
  from published_objects_have_published_jobs [OF reach13 this] show ?thesis
    by (auto simp: publish_row_def staged1_def staged_row_def phase2_def phase1_def)
qed

end
