(* ===== verification/Site_Outcomes.thy ===== *)
theory Site_Outcomes
  imports Site_Scenario
begin

text \<open>
  What single operations of the site clone store achieve: idempotent acceptance and ingestion, what a
  publication publishes, how cancellations and deadlines are settled, and when stored objects may go.
\<close>

lemma find_Some_mem: "find P xs = Some a \<Longrightarrow> a \<in> set xs \<and> P a"
  by (auto simp: find_Some_iff)

section \<open>Acceptance\<close>

fun same_message :: "site_command \<Rightarrow> site_command \<Rightarrow> bool" where
  "same_message (Requested a) (Requested b) \<longleftrightarrow> rq_message_id a = rq_message_id b"
| "same_message (CancelRequested a) (CancelRequested b) \<longleftrightarrow> cn_message_id a = cn_message_id b"
| "same_message _ _ \<longleftrightarrow> False"

definition recorded :: "(site_command \<Rightarrow> digest) \<Rightarrow> site_command \<Rightarrow> site_db \<Rightarrow> bool" where
  "recorded sha c d \<longleftrightarrow> (case c of
     Requested r \<Rightarrow> \<exists>j \<in> set (jobs d). j_command_message_id j = rq_message_id r \<and> j_command_sha j = sha c
   | CancelRequested n \<Rightarrow> \<exists>i \<in> set (inbox d). i_message_id i = cn_message_id n \<and> i_sha i = sha c)"

lemma find_unique_key:
  assumes "distinct (map key rs)" "r \<in> set rs"
  shows "find (\<lambda>x. key x = key r) rs = Some r"
  using assms by (induction rs) (auto simp: image_iff)

lemma accept_records:
  assumes "acceptCommand sha e c d = Inr (b, d')"
  shows "recorded sha c d'"
proof (cases c)
  case (Requested r)
  with assms show ?thesis
    by (auto simp: recorded_def acceptRequested_def Let_def new_job_def find_Some_iff
        split: option.splits if_splits)
next
  case (CancelRequested n)
  with assms show ?thesis
    by (auto simp: recorded_def acceptCancellation_def Let_def find_Some_iff
        split: option.splits if_splits)
qed

lemma recorded_history:
  assumes "recorded sha c d" "history d d'"
  shows "recorded sha c d'"
proof (cases c)
  case (Requested r)
  with assms(1) obtain j where j: "j \<in> set (jobs d)" "j_command_message_id j = rq_message_id r" "j_command_sha j = sha c"
    by (auto simp: recorded_def)
  from assms(2) j(1) obtain j' where "j' \<in> set (jobs d')" "job_evolves j j'" by (rule history_job)
  with j Requested show ?thesis unfolding recorded_def job_evolves_def by auto
next
  case (CancelRequested n)
  with assms(1) obtain i where i: "i \<in> set (inbox d)" "i_message_id i = cn_message_id n" "i_sha i = sha c"
    by (auto simp: recorded_def)
  from assms(2) have "rows_evolve (=) (inbox d) (inbox d')" by (simp add: history_def)
  from this i(1) obtain i' where "i' \<in> set (inbox d')" "i = i'" by (rule rows_evolve_row)
  with i CancelRequested show ?thesis unfolding recorded_def by auto
qed

lemma recorded_accept:
  assumes rec: "recorded sha c d" and schema: "schema_ok d" and same: "same_message c c'"
  shows "acceptCommand sha e c' d = (if sha c' = sha c then Inr (True, d) else Inl MESSAGE_ID_COLLISION)"
proof (cases c)
  case (Requested r)
  with same obtain r' where r': "c' = Requested r'" "rq_message_id r = rq_message_id r'" by (cases c') auto
  from rec Requested obtain j where j: "j \<in> set (jobs d)" "j_command_message_id j = rq_message_id r" "j_command_sha j = sha c"
    by (auto simp: recorded_def)
  have "distinct (map j_command_message_id (jobs d))" using schema by (simp add: schema_ok_def keys_ok_def jobs_unique_def)
  from find_unique_key [OF this j(1)] j(2) r'(2)
  have "find (\<lambda>x. j_command_message_id x = rq_message_id r') (jobs d) = Some j" by simp
  with r'(1) j(3) show ?thesis by (simp add: acceptRequested_def Let_def)
next
  case (CancelRequested n)
  with same obtain n' where n': "c' = CancelRequested n'" "cn_message_id n = cn_message_id n'" by (cases c') auto
  from rec CancelRequested obtain i where i: "i \<in> set (inbox d)" "i_message_id i = cn_message_id n" "i_sha i = sha c"
    by (auto simp: recorded_def)
  have "distinct (map i_message_id (inbox d))" using schema by (simp add: schema_ok_def keys_ok_def)
  from find_unique_key [OF this i(1)] i(2) n'(2)
  have "find (\<lambda>x. i_message_id x = cn_message_id n') (inbox d) = Some i" by simp
  with n'(1) i(3) show ?thesis by (simp add: acceptCancellation_def Let_def)
qed

text \<open>
  C10. Exactly-once acceptance. Once a command was accepted, a message with its identifier is at any
  later time answered as a duplicate, without any effect, when it carries the same payload, and refused
  as a collision when it does not.
\<close>

theorem accept_exactly_once:
  assumes "reachable sha hash s" "exec sha hash e (AcceptCommand c) s = Inr s1" "site_steps sha hash s1 s2"
    and "same_message c c'"
  shows "acceptCommand sha e' c' (store s2) = (if sha c' = sha c then Inr (True, store s2) else Inl MESSAGE_ID_COLLISION)"
proof -
  from assms(2) obtain b where ok: "acceptCommand sha e c (store s) = Inr (b, store s1)"
    by (auto simp: on_store_Inr)
  have step: "site_step sha hash s s1" by (rule site_step.step [OF _ assms(2)]) simp
  have r1: "reachable sha hash s1" by (rule reachable_steps [OF assms(1)]) (rule r_into_rtranclp [of "site_step sha hash", OF step])
  have "recorded sha c (store s2)"
    by (rule recorded_history [OF accept_records [OF ok] reachable_history [OF r1 assms(3)]])
  moreover have "schema_ok (store s2)"
    using reachable_site_inv [OF reachable_steps [OF r1 assms(3)]] by (simp add: site_inv_def)
  ultimately show ?thesis using assms(4) by (rule recorded_accept)
qed

theorem accept_exactly_once_witness:
  "acceptCommand sha0 (env_at 9) (Requested demo_request) (store sys2) = Inr (True, store sys2)"
proof -
  have "site_steps sha0 hash0 sys1 sys2"
    using run2 by (intro r_into_rtranclp site_step.step [where op = "ClaimIngestion 50"]) simp
  from accept_exactly_once [OF reach0 run1 this, of "Requested demo_request"] show ?thesis by simp
qed

section \<open>Ingestion\<close>

lemma conflict_self: "page_conflict (target_row e i t) (target_row e' i t)"
  by (simp add: page_conflict_def target_row_def Let_def)

lemma insert_target_keeps: "q \<in> set ps \<Longrightarrow> q \<in> set (insert_target p ps)"
  by (simp add: insert_target_def)

lemma insert_targets_Cons:
  "insert_targets e i (t # ts) ps = insert_targets e i ts (insert_target (target_row e i t) ps)"
  by (simp add: insert_targets_def)

lemma insert_targets_keeps: "q \<in> set ps \<Longrightarrow> q \<in> set (insert_targets e i ts ps)"
  by (induction ts arbitrary: ps) (simp_all add: insert_targets_def insert_target_keeps)

lemma insert_targets_conflict:
  "t \<in> set ts \<Longrightarrow> \<exists>q \<in> set (insert_targets e i ts ps). page_conflict (target_row e' i t) q"
proof (induction ts arbitrary: ps)
  case (Cons u ts)
  show ?case
  proof (cases "t = u")
    case True
    have "\<exists>q \<in> set (insert_target (target_row e i t) ps). page_conflict (target_row e' i t) q"
    proof (cases "\<exists>q \<in> set ps. page_conflict (target_row e i t) q")
      case conflict: True
      then obtain q where "q \<in> set ps" "page_conflict (target_row e i t) q" by blast
      then have "page_conflict (target_row e' i t) q"
        by (simp add: page_conflict_def target_row_def Let_def)
      with \<open>q \<in> set ps\<close> show ?thesis by (auto intro: insert_target_keeps)
    next
      case False
      then have "target_row e i t \<in> set (insert_target (target_row e i t) ps)" by (simp add: insert_target_def)
      with conflict_self show ?thesis by blast
    qed
    with True show ?thesis unfolding insert_targets_Cons by (blast intro: insert_targets_keeps)
  next
    case False
    with Cons show ?thesis unfolding insert_targets_Cons by simp
  qed
qed simp

lemma insert_targets_none:
  "\<forall>t \<in> set ts. \<exists>q \<in> set ps. page_conflict (target_row e i t) q \<Longrightarrow> insert_targets e i ts ps = ps"
proof (induction ts)
  case (Cons t ts)
  then have "insert_target (target_row e i t) ps = ps" by (simp add: insert_target_def)
  with Cons show ?case unfolding insert_targets_Cons by simp
qed (simp add: insert_targets_def)

text \<open>
  Adding targets is idempotent: a worker that repeats a batch (because it crashed before it saw the
  answer) adds no page and changes nothing, as long as its lease runs.
\<close>

lemma addTargets_idempotent:
  assumes "addTargets e t ts d = Inr (n, d')" "\<exists>j \<in> set (jobs d'). holds_ingestion e' t j"
  shows "addTargets e' t ts d' = Inr (0, d')"
proof (cases "ts = []")
  case False
  with assms(1) have d': "d' = d\<lparr>pages := insert_targets e (cj_id t) ts (pages d)\<rparr>"
    and limit: "\<not> maxPages (cj_policy t) < total_pages (cj_id t) d'" and schema: "schema_ok d'"
    by (auto simp: addTargets_def Let_def split: if_splits)
  have "insert_targets e' (cj_id t) ts (pages d') = pages d'"
    by (rule insert_targets_none) (simp add: d' insert_targets_conflict)
  with False assms(2) limit schema show ?thesis by (simp add: addTargets_def Let_def)
qed (simp add: addTargets_def)

lemma addTargets_idempotent_witness:
  "addTargets (env_at 5) phase1 demo_targets (store sys3) = Inr (0, store sys3)"
proof -
  have "addTargets (env_at 3) phase1 demo_targets (store sys2) = Inr (2, store sys3)"
    by (simp add: run_defs sys_defs)
  moreover have "\<exists>j \<in> set (jobs (store sys3)). holds_ingestion (env_at 5) phase1 j"
    by (simp add: sys_defs holds_ingestion_def env_at_def seconds_def)
  ultimately show ?thesis by (rule addTargets_idempotent)
qed

section \<open>Cancellation and the deadline\<close>

text \<open>The loop of \<open>reconcileCancellations\<close>, one row at a time, as one update of the rows.\<close>

definition settled_row :: "env \<Rightarrow> site_db \<Rightarrow> job_row \<Rightarrow> job_row" where
  "settled_row e d j =
     (let k = settle_row e (refreshed e d j)
      in if j_status k \<in> {CANCELLED, FAILED} then k\<lparr>j_event_version := j_event_version k + 1, j_updated := now e\<rparr> else k)"

lemma settled_row_id [simp]: "j_id (settled_row e d j) = j_id j"
  by (simp add: settled_row_def settle_row_def refreshed_def Let_def)

lemma settled_row_cong: "pages d' = pages d \<Longrightarrow> settled_row e d' = settled_row e d"
proof (rule ext)
  fix j assume "pages d' = pages d"
  then have "refreshed e d' j = refreshed e d j" by (rule refreshed_cong)
  then show "settled_row e d' j = settled_row e d j" by (simp add: settled_row_def)
qed

lemma update_where_cong:
  "(\<And>r. r \<in> set rs \<Longrightarrow> P r = Q r) \<Longrightarrow> (\<And>r. r \<in> set rs \<Longrightarrow> Q r \<Longrightarrow> f r = g r) \<Longrightarrow> update_where P f rs = update_where Q g rs"
  by (simp add: update_where_def)

lemma settle_job_eq:
  assumes dist: "distinct (map j_id (jobs d))" and ok: "settle_job e i d = Inr d'"
  shows "jobs d' = update_where (\<lambda>j. j_id j = i) (settled_row e d) (jobs d) \<and> pages d' = pages d"
proof -
  let ?f = "\<lambda>j. settle_row e (refreshed e d j)"
  let ?b = "\<lambda>j. j\<lparr>j_event_version := j_event_version j + 1, j_updated := now e\<rparr>"
  let ?d1 = "update_job i (settle_row e) (refreshJobCounters e i d)"
  have id: "j_id (settle_row e k) = j_id k" for k by (simp add: settle_row_def Let_def)
  have jobs1: "jobs ?d1 = update_where (\<lambda>j. j_id j = i) ?f (jobs d)"
    by (simp add: refresh_eq update_where_def)
  have pages1: "pages ?d1 = pages d" by (simp add: refresh_eq)
  show ?thesis
  proof (cases "find_job i ?d1")
    case None
    with ok have d': "d' = ?d1" by (simp add: settle_job_def Let_def)
    have none: "j_id j \<noteq> i" if "j \<in> set (jobs d)" for j
    proof
      assume "j_id j = i"
      with that have "?f j \<in> set (jobs ?d1)" unfolding jobs1 set_update_where by force
      with None have "j_id (?f j) \<noteq> i" unfolding find_job_None by blast
      with \<open>j_id j = i\<close> show False by (simp add: id)
    qed
    have "update_where (\<lambda>j. j_id j = i) ?f (jobs d) = update_where (\<lambda>j. j_id j = i) (settled_row e d) (jobs d)"
      by (rule update_where_cong) (simp_all add: none)
    with d' jobs1 pages1 show ?thesis by simp
  next
    case (Some k)
    from find_job_Some [OF Some] have kin: "k \<in> set (jobs ?d1)" "j_id k = i" by blast+
    have only: "?f j = k" if "j \<in> set (jobs d)" "j_id j = i" for j
    proof -
      have "?f j \<in> set (jobs ?d1)" unfolding jobs1 set_update_where using that by force
      moreover have "distinct (map j_id (jobs ?d1))"
        unfolding jobs1 using dist by (simp add: map_update_where_key id)
      moreover have "j_id (?f j) = j_id k" using that kin by (simp add: id)
      ultimately show ?thesis using kin(1) by (metis distinct_key_unique)
    qed
    show ?thesis
    proof (cases "j_status k = CANCELLED \<or> j_status k = FAILED")
      case True
      with ok Some have ev: "enqueueEvent e i (j_status k) ?d1 = Inr d'" by (simp add: settle_job_def Let_def)
      from enqueueEvent_fields [OF ev] have "pages d' = pages d" and
        "jobs d' = update_where (\<lambda>j. j_id j = i) ?b (jobs ?d1)" using pages1 by simp_all
      moreover have "update_where (\<lambda>j. j_id j = i) ?b (jobs ?d1)
          = update_where (\<lambda>j. j_id j = i) (\<lambda>j. ?b (?f j)) (jobs d)"
        unfolding jobs1 by (simp add: update_where_def id)
      moreover have "\<dots> = update_where (\<lambda>j. j_id j = i) (settled_row e d) (jobs d)"
      proof (rule update_where_cong)
        fix j assume "j \<in> set (jobs d)" "j_id j = i"
        from only [OF this] True show "?b (?f j) = settled_row e d j" by (auto simp: settled_row_def Let_def)
      qed simp
      ultimately show ?thesis by simp
    next
      case False
      with ok Some have d': "d' = ?d1" by (simp add: settle_job_def Let_def)
      have "update_where (\<lambda>j. j_id j = i) ?f (jobs d) = update_where (\<lambda>j. j_id j = i) (settled_row e d) (jobs d)"
      proof (rule update_where_cong)
        fix j assume "j \<in> set (jobs d)" "j_id j = i"
        from only [OF this] False show "?f j = settled_row e d j" by (simp add: settled_row_def Let_def)
      qed simp
      with d' jobs1 pages1 show ?thesis by simp
    qed
  qed
qed

lemma settle_all_eq:
  assumes "rfold (settle_job e) is d = Inr d'" "distinct is" "distinct (map j_id (jobs d))"
  shows "jobs d' = update_where (\<lambda>j. j_id j \<in> set is) (settled_row e d) (jobs d) \<and> pages d' = pages d"
  using assms
proof (induction "is" arbitrary: d)
  case Nil
  then show ?case by (simp add: update_where_none)
next
  case (Cons i "is")
  from Cons.prems(1) obtain d1 where d1: "settle_job e i d = Inr d1" and rest: "rfold (settle_job e) is d1 = Inr d'"
    by auto
  from settle_job_eq [OF Cons.prems(3) d1]
  have j1: "jobs d1 = update_where (\<lambda>j. j_id j = i) (settled_row e d) (jobs d)" and p1: "pages d1 = pages d" by blast+
  have dist: "distinct (map j_id (jobs d1))" unfolding j1 using Cons.prems(3) by (simp add: map_update_where_key)
  from Cons.IH [OF rest _ dist] Cons.prems(2)
  have "jobs d' = update_where (\<lambda>j. j_id j \<in> set is) (settled_row e d) (jobs d1)" "pages d' = pages d"
    using p1 settled_row_cong [OF p1] by simp_all
  moreover have "update_where (\<lambda>j. j_id j \<in> set is) (settled_row e d) (jobs d1)
      = update_where (\<lambda>j. j_id j \<in> set (i # is)) (settled_row e d) (jobs d)"
    unfolding j1 update_where_def using Cons.prems(2) by simp
  ultimately show ?case by simp
qed

definition due :: "env \<Rightarrow> job_row \<Rightarrow> bool" where
  "due e j \<longleftrightarrow> past_deadline e j \<or> j_status j = CANCEL_REQUESTED"

lemma reconcile_row:
  assumes inv: "site_inv d" and ok: "reconcileCancellations e d = Inr (r, d')" and j: "j \<in> set (jobs d)" "due e j"
    and idle: "page_count (j_id j) P_RENDERING d = 0" "\<not> locked_job e (j_id j)"
  defines "x \<equiv> (if past_deadline e j then expire_row e j else j)"
  shows "settled_row e (cancel_queued e (expire_overdue e d)) x \<in> set (jobs d')" "(j_id j, j_owner j) \<in> set r"
    "pages d' = pages (cancel_queued e (expire_overdue e d))" "j_status x = CANCEL_REQUESTED"
    "settled_row e (cancel_queued e (expire_overdue e d)) x = settled_row e d x"
proof -
  let ?d0 = "expire_overdue e d"
  let ?d1 = "cancel_queued e ?d0"
  from inv have work: "work_inv d" by (rule site_inv_work)
  have work0: "work_inv ?d0" by (rule progress_work [OF expire_overdue_progress [OF work]])
  have dist: "distinct (map j_id (jobs ?d1))"
    using work_job_ids [OF work] by (simp add: cancel_queued_def expire_overdue_def map_update_where_key expire_row_def)
  have x: "x \<in> set (jobs ?d1)" "j_id x = j_id j" "j_owner x = j_owner j"
    using j(1) by (auto simp: x_def cancel_queued_def expire_overdue_def set_update_where expire_row_def)
  show st: "j_status x = CANCEL_REQUESTED" using j(2) by (auto simp: x_def due_def expire_row_def)
  have counts: "page_count i s ?d1 = page_count i s d" if "s \<in> {P_RENDERING, P_SUCCEEDED, P_FAILED}" for i s
  proof -
    have "page_count i s ?d1 = page_count i s ?d0"
      unfolding page_count_def cancel_queued_def using that
      by simp (rule count_where_update_same, auto simp: cancel_page_row_def)
    then show ?thesis by (simp add: page_count_def expire_overdue_def)
  qed
  have bytes: "succeeded_bytes i ?d1 = succeeded_bytes i d" for i
  proof -
    have "succeeded_bytes i ?d1 = succeeded_bytes i ?d0"
      unfolding succeeded_bytes_def cancel_queued_def
      by simp (rule sum_where_update_same, simp add: cancel_page_row_def)
    then show ?thesis by (simp add: succeeded_bytes_def expire_overdue_def)
  qed
  have "refreshed e ?d1 x = refreshed e d x" by (simp add: refreshed_def counts bytes)
  then show "settled_row e ?d1 x = settled_row e d x" by (simp add: settled_row_def)
  have "settleable e ?d1 x" using st idle x(2) by (simp add: settleable_def counts)
  with x have sel: "x \<in> set (filter (settleable e ?d1) (jobs ?d1))" by simp
  from ok obtain d2 where d2: "rfold (settle_job e) (map j_id (filter (settleable e ?d1) (jobs ?d1))) ?d1 = Inr d2"
    and r: "r = map (\<lambda>j. (j_id j, j_owner j)) (filter (settleable e ?d1) (jobs ?d1))" "d' = d2"
    unfolding reconcileCancellations_def Let_def by auto
  have "(j_id x, j_owner x) \<in> set r"
    unfolding r(1) set_map using sel by (rule imageI [where f = "\<lambda>j. (j_id j, j_owner j)"])
  then show "(j_id j, j_owner j) \<in> set r" by (simp add: x)
  have "distinct (map j_id (filter (settleable e ?d1) (jobs ?d1)))" using dist by (rule distinct_map_filter)
  from settle_all_eq [OF d2 this dist] r(2)
  have jobs': "jobs d' = update_where (\<lambda>j. j_id j \<in> set (map j_id (filter (settleable e ?d1) (jobs ?d1)))) (settled_row e ?d1) (jobs ?d1)"
    and "pages d' = pages ?d1" by blast+
  then show "pages d' = pages ?d1" by blast
  show "settled_row e ?d1 x \<in> set (jobs d')"
    unfolding jobs' set_update_where using sel x(1) by force
qed

lemma reconcile_pages:
  assumes "work_inv d" "j \<in> set (jobs d)" "due e j" "page_count (j_id j) P_RENDERING d = 0"
  shows "active_pages (j_id j) (cancel_queued e (expire_overdue e d)) = 0"
proof -
  let ?d0 = "expire_overdue e d"
  have req: "cancel_requested (j_id j) ?d0"
  proof -
    have "(if past_deadline e j then expire_row e j else j) \<in> set (jobs ?d0)"
      using assms(2) by (simp add: expire_overdue_def set_update_where)
    moreover have "j_status (if past_deadline e j then expire_row e j else j) = CANCEL_REQUESTED"
      "j_id (if past_deadline e j then expire_row e j else j) = j_id j"
      using assms(3) by (auto simp: due_def expire_row_def)
    ultimately show ?thesis unfolding cancel_requested_def by blast
  qed
  have "\<not> (p_job p = j_id j \<and> p_status p \<in> {P_QUEUED, P_RENDERING})" if p: "p \<in> set (pages (cancel_queued e ?d0))" for p
  proof -
    from p obtain q where q: "q \<in> set (pages d)"
      "p = (if cancel_requested (p_job q) ?d0 \<and> p_status q = P_QUEUED then cancel_page_row e q else q)"
      unfolding cancel_queued_def expire_overdue_def by (auto elim!: in_update_whereE)
    from assms(4) q(1) have "\<not> (p_job q = j_id j \<and> p_status q = P_RENDERING)"
      unfolding page_count_def count_where_0 by blast
    with q(2) req show ?thesis by (auto simp: cancel_page_row_def)
  qed
  then show ?thesis unfolding active_pages_def count_where_0 by blast
qed

text \<open>
  C12. How a cancellation or a missed deadline ends: as soon as none of its pages is in rendering, one
  reconciliation leaves no page of the job queued, and the job goes back to \<open>RUNNING\<close>, to be
  assembled from the pages that succeeded, if there are any; otherwise it is \<open>FAILED\<close> when the deadline
  was the reason and \<open>CANCELLED\<close> when it was the owner.
\<close>

theorem reconcile_settles:
  assumes "reachable sha hash s" "reconcileCancellations e (store s) = Inr (r, d')"
    and "j \<in> set (jobs (store s))" "due e j"
    and "page_count (j_id j) P_RENDERING (store s) = 0" "\<not> locked_job e (j_id j)"
  shows "(j_id j, j_owner j) \<in> set r \<and> active_pages (j_id j) d' = 0
    \<and> (\<exists>j' \<in> set (jobs d'). j_id j' = j_id j \<and> j_lease_owner j' = None \<and> j_phase_attempts j' = 0
      \<and> j_status j' = (if 0 < j_succeeded j then RUNNING
           else if past_deadline e j \<or> j_terminal_code j = Some ''SITE_CLONE_DEADLINE_EXCEEDED'' then FAILED
           else CANCELLED))"
proof -
  let ?d = "store s"
  let ?x = "if past_deadline e j then expire_row e j else j"
  from assms(1) have inv: "site_inv ?d" by (rule reachable_site_inv)
  note row = reconcile_row [OF inv assms(2-6)]
  have cong: "active_pages i d' = active_pages i (cancel_queued e (expire_overdue e ?d))" for i
    by (rule aggregates_cong) (rule row(3))
  have 1: "active_pages (j_id j) d' = 0"
    unfolding cong by (rule reconcile_pages [OF site_inv_work [OF inv] assms(3-5)])
  have c: "counters_ok ?d j" using site_inv_job [OF inv assms(3)] by (simp add: job_inv_def)
  have x: "j_id ?x = j_id j" "j_succeeded ?x = j_succeeded j"
    "(j_terminal_code ?x = Some ''SITE_CLONE_DEADLINE_EXCEEDED'')
       = (past_deadline e j \<or> j_terminal_code j = Some ''SITE_CLONE_DEADLINE_EXCEEDED'')"
    by (simp_all add: expire_row_def)
  have k: "j_succeeded (refreshed e ?d ?x) = j_succeeded j" "j_terminal_code (refreshed e ?d ?x) = j_terminal_code ?x"
    using c x by (simp_all add: refreshed_def counters_ok_def)
  have "settled_row e ?d ?x \<in> set (jobs d')" using row(1,5) by simp
  moreover have "j_id (settled_row e ?d ?x) = j_id j" by (simp add: x)
  moreover have "j_lease_owner (settled_row e ?d ?x) = None" "j_phase_attempts (settled_row e ?d ?x) = 0"
    by (simp_all add: settled_row_def settle_row_def Let_def)
  moreover have "j_status (settled_row e ?d ?x) = (if 0 < j_succeeded j then RUNNING
      else if past_deadline e j \<or> j_terminal_code j = Some ''SITE_CLONE_DEADLINE_EXCEEDED'' then FAILED else CANCELLED)"
    using k x(3) by (simp add: settled_row_def settle_row_def Let_def)
  ultimately show ?thesis using 1 row(2) by blast
qed

definition late_job :: job_row where
  "late_job = job7\<lparr>j_phase_available := seconds 700, j_updated := seconds 700,
     j_cancel_requested := Some (seconds 700), j_terminal_code := Some ''SITE_CLONE_DEADLINE_EXCEEDED'',
     j_terminal_message := Some ''Site clone exceeded its maximum execution time.''\<rparr>"

definition late_page :: page_row where
  "late_page = page2q\<lparr>p_status := P_CANCELLED, p_finished := Some (seconds 700), p_updated := seconds 700,
     p_failure_code := Some ''CANCELLED''\<rparr>"

definition late_db :: site_db where
  "late_db = (store sys8)\<lparr>jobs := [late_job], pages := [page1s, late_page]\<rparr>"

lemma late_run: "reconcileCancellations (env_at 700) (store sys8) = Inr ([(7, 3)], late_db)"
  by (simp add: reconcileCancellations_def expire_overdue_def cancel_queued_def past_deadline_def expire_row_def
      cancel_requested_def cancel_page_row_def settleable_def settle_job_def refreshJobCounters_def settle_row_def
      run_defs sys_defs3 late_db_def late_job_def late_page_def)

lemma late_hyps:
  "job7 \<in> set (jobs (store sys8))" "past_deadline (env_at 700) job7" "0 < j_succeeded job7"
  "page_count (j_id job7) P_RENDERING (store sys8) = 0" "\<not> locked_job (env_at 700) (j_id job7)"
  by (simp_all add: sys_defs3 past_deadline_def env_at_def demo_policy_def seconds_def page_count_def)

theorem reconcile_settles_witness:
  "active_pages 7 late_db = 0 \<and> (\<exists>j' \<in> set (jobs late_db). j_id j' = 7 \<and> j_status j' = RUNNING)"
proof -
  have "due (env_at 700) job7" using late_hyps(2) by (simp add: due_def)
  from reconcile_settles [OF reach8 late_run late_hyps(1) this late_hyps(4,5)] late_hyps(3)
  show ?thesis by (auto simp: job7_def job4_def job1_def)
qed

text \<open>
  C13. The deadline never ends a job that has a page to show. Every reconciliation after the deadline
  puts such a job back to \<open>RUNNING\<close>, past its deadline as before, with its lease cleared and its phase attempts
  reset; whatever claim an assembler held is refused at publication. So while a reconciliation runs
  between each claim of the assembly and its publication, the job neither ends nor exhausts its phase
  attempts.
\<close>

theorem deadline_restarts_assembly:
  assumes "reachable sha hash s" "reconcileCancellations e (store s) = Inr (r, d')"
    and "j \<in> set (jobs (store s))" "past_deadline e j" "0 < j_succeeded j"
    and "page_count (j_id j) P_RENDERING (store s) = 0" "\<not> locked_job e (j_id j)"
  shows "(\<exists>j' \<in> set (jobs d'). j_id j' = j_id j \<and> j_status j' = RUNNING \<and> j_lease_owner j' = None
      \<and> j_phase_attempts j' = 0 \<and> j_succeeded j' = j_succeeded j \<and> past_deadline e j')
    \<and> page_count (j_id j) P_RENDERING d' = 0
    \<and> (cj_id t = j_id j \<longrightarrow> publish_staged e' t xs d' = Inl STALE_SITE_ASSEMBLY_LEASE)"
proof -
  let ?d = "store s"
  from assms(1) have inv: "site_inv ?d" by (rule reachable_site_inv)
  have due: "due e j" using assms(4) by (simp add: due_def)
  note row = reconcile_row [OF inv assms(2,3) due assms(6,7)]
  let ?k = "settled_row e ?d (expire_row e j)"
  have kin: "?k \<in> set (jobs d')" using row(1,5) assms(4) by simp
  have c: "counters_ok ?d j" using site_inv_job [OF inv assms(3)] by (simp add: job_inv_def)
  have s: "j_succeeded (refreshed e ?d (expire_row e j)) = j_succeeded j"
    using c by (simp add: refreshed_def expire_row_def counters_ok_def)
  have k: "j_id ?k = j_id j" "j_status ?k = RUNNING" "j_lease_owner ?k = None" "j_phase_attempts ?k = 0"
    "j_succeeded ?k = j_succeeded j" "j_created ?k = j_created j" "j_policy ?k = j_policy j"
    using s assms(5) by (simp_all add: settled_row_def settle_row_def Let_def)
      (simp_all add: refreshed_def expire_row_def)
  have past: "past_deadline e ?k" using assms(4) k by (simp add: past_deadline_def)
  from reconcileCancellations_preserves [OF inv assms(2)] have inv': "site_inv d'" by (simp add: preserves_def)
  have "page_count (j_id j) P_RENDERING d' = page_count (j_id j) P_RENDERING (cancel_queued e (expire_overdue e ?d))"
    by (rule aggregates_cong) (rule row(3))
  also have "\<dots> = 0"
    using reconcile_pages [OF site_inv_work [OF inv] assms(3) due assms(6)] by (simp add: active_pages_eq)
  finally have rendering: "page_count (j_id j) P_RENDERING d' = 0" .
  have "publish_staged e' t xs d' = Inl STALE_SITE_ASSEMBLY_LEASE" if "cj_id t = j_id j"
  proof -
    have "\<not> holds_assembly e' t q" if "q \<in> set (jobs d')" for q
    proof
      assume h: "holds_assembly e' t q"
      then have "j_id q = j_id ?k" using \<open>cj_id t = j_id j\<close> k(1) by (simp add: holds_assembly_def holds_phase_def)
      with that kin have "q = ?k" using work_job_eq [OF site_inv_work [OF inv']] by blast
      with h k(2) show False by (simp add: holds_assembly_def)
    qed
    then have "find (holds_assembly e' t) (jobs d') = None" by (simp add: find_None_iff)
    then show ?thesis by (simp add: publish_staged_def)
  qed
  with kin k past rendering show ?thesis by blast
qed

theorem deadline_restarts_assembly_witness:
  "\<exists>j' \<in> set (jobs late_db). j_id j' = 7 \<and> j_status j' = RUNNING \<and> past_deadline (env_at 700) j'"
  using deadline_restarts_assembly [OF reach8 late_run late_hyps, where t = phase1 and e' = "env_at 700" and xs = demo_archive]
  by (auto simp: job7_def job4_def job1_def)

section \<open>Publication\<close>

lemma insert_artifact_keeps: "a \<in> set as \<Longrightarrow> a \<in> set (insert_artifact b as)"
  by (simp add: insert_artifact_def)

text \<open>A staged batch, as the check at the end of \<open>stageArtifacts\<close> leaves it.\<close>

lemma stageArtifacts_stages:
  assumes ok: "stageArtifacts e t xs d = Inr ((), d1)"
  shows "\<exists>new. artifacts d1 = artifacts d @ new" "jobs d1 = jobs d" "pages d1 = pages d" "outbox d1 = outbox d"
    "total_bytes xs \<le> maxArchiveBytes (cj_policy t)"
    "count_where (of_generation t) (artifacts d1) = length xs"
    "\<And>x. x \<in> set xs \<Longrightarrow> \<exists>a \<in> set (artifacts d1). of_generation t a \<and> a_kind a = ai_kind x \<and> a_shard a = ai_shard x
       \<and> staged_match x a"
proof -
  let ?as = "fold (\<lambda>x. insert_artifact (staged_row e t x)) xs (artifacts d)"
  let ?st = "order_by (\<lambda>a. (a_kind a, a_shard a)) (of_generation t) ?as"
  from ok have d1: "d1 = d\<lparr>artifacts := ?as\<rparr>" and complete: "stage_complete ?st xs"
    and limit: "total_bytes xs \<le> maxArchiveBytes (cj_policy t)"
    by (auto simp: stageArtifacts_def Let_def split: if_splits)
  show "\<exists>new. artifacts d1 = artifacts d @ new" using insert_artifacts_append [of e t xs "artifacts d"] by (auto simp: d1)
  show "jobs d1 = jobs d" "pages d1 = pages d" "outbox d1 = outbox d" by (simp_all add: d1)
  show "total_bytes xs \<le> maxArchiveBytes (cj_policy t)" by (rule limit)
  have "length ?st = count_where (of_generation t) ?as" by (simp add: order_by_def count_where_def)
  with complete show "count_where (of_generation t) (artifacts d1) = length xs"
    by (simp add: stage_complete_def d1)
  fix x assume "x \<in> set xs"
  with complete have "case find (\<lambda>c. a_kind c = ai_kind x \<and> a_shard c = ai_shard x) ?st of
      None \<Rightarrow> False | Some row \<Rightarrow> staged_match x row"
    by (simp add: stage_complete_def list_all_iff)
  then obtain a where a: "find (\<lambda>c. a_kind c = ai_kind x \<and> a_shard c = ai_shard x) ?st = Some a" "staged_match x a"
    by (auto split: option.splits)
  from find_Some_mem [OF a(1)] have "a \<in> set ?as" "of_generation t a" "a_kind a = ai_kind x" "a_shard a = ai_shard x"
    by simp_all
  with a(2) show "\<exists>a \<in> set (artifacts d1). of_generation t a \<and> a_kind a = ai_kind x \<and> a_shard a = ai_shard x
       \<and> staged_match x a" by (intro bexI [of _ a]) (simp_all add: d1)
qed

lemma publish_staged_rows:
  assumes inv: "site_inv d" and ok: "publish_staged e t xs d = Inr ((), d')"
  obtains c where "c \<in> set (jobs d)" "holds_assembly e t c"
    "artifacts d' = update_where (\<lambda>a. of_generation t a \<and> a_state a = A_STAGED) (publish_row e t) (artifacts d)"
    "pages d' = pages d" "site_inv d'"
    "c\<lparr>j_status := terminal_for d c, j_lease_owner := None, j_lease_expires := None, j_archive_bytes := total_bytes xs,
       j_artifact_count := length xs, j_finished := Some (now e), j_updated := now e,
       j_event_version := j_event_version c + 1\<rparr> \<in> set (jobs d')"
proof -
  from ok obtain c where c: "find (holds_assembly e t) (jobs d) = Some c"
    by (auto simp: publish_staged_def split: option.splits)
  then have cin: "c \<in> set (jobs d)" "holds_assembly e t c" by (auto simp: find_Some_iff)
  let ?f = "\<lambda>j. j\<lparr>j_status := terminal_for d c, j_lease_owner := None, j_lease_expires := None,
      j_archive_bytes := total_bytes xs, j_artifact_count := length xs,
      j_finished := Some (now e), j_updated := now e\<rparr>"
  let ?d1 = "d\<lparr>artifacts := update_where (\<lambda>a. of_generation t a \<and> a_state a = A_STAGED) (publish_row e t) (artifacts d),
     jobs := update_where (holds_phase t) ?f (jobs d)\<rparr>"
  from c ok have ev: "enqueueEvent e (cj_id t) (terminal_for d c) ?d1 = Inr d'"
    by (auto simp: publish_staged_def split: if_splits)
  note f = enqueueEvent_fields [OF ev]
  have h: "holds_phase t c" "j_id c = cj_id t" using cin(2) by (simp_all add: holds_assembly_def holds_phase_def)
  have "?f c \<in> set (jobs ?d1)" using cin(1) h(1) by (force simp: set_update_where)
  then have row: "c\<lparr>j_status := terminal_for d c, j_lease_owner := None, j_lease_expires := None, j_archive_bytes := total_bytes xs,
       j_artifact_count := length xs, j_finished := Some (now e), j_updated := now e,
       j_event_version := j_event_version c + 1\<rparr> \<in> set (jobs d')"
    unfolding f(4) set_update_where using h(2) by force
  from publish_staged_preserves [OF inv ok] have "site_inv d'" by (simp add: preserves_def)
  then show thesis using that [OF cin] f(1,2) row by simp
qed

text \<open>
  C14. What a publication publishes: exactly the given archive. After \<open>publishArtifacts\<close> returns, the
  artifacts of this assembly are one published row for each shard and manifest given, with its object key, size and
  digest and the retention of the job's policy; the job has ended as \<open>PARTIAL\<close> when some page failed or
  was cancelled and as \<open>PUBLISHED\<close> otherwise, with the archive's size, within its budget.
\<close>

theorem publishArtifacts_publishes:
  assumes inv: "site_inv d" and tok: "phase_token d t" and ok: "publishArtifacts e1 e2 t xs d = (Inr (), d')"
  shows "count_where (of_generation t) (artifacts d') = length xs
    \<and> (\<forall>x \<in> set xs. \<exists>a \<in> set (artifacts d'). of_generation t a \<and> a_kind a = ai_kind x \<and> a_shard a = ai_shard x
        \<and> a_state a = A_PUBLISHED \<and> a_key a = so_key (ai_object x) \<and> a_bytes a = so_bytes (ai_object x)
        \<and> a_sha a = so_sha (ai_object x) \<and> a_delete_after a = now e2 + days (archiveRetentionDays (cj_policy t)))
    \<and> (\<exists>j \<in> set (jobs d'). j_id j = cj_id t \<and> j_archive_bytes j = total_bytes xs
        \<and> total_bytes xs \<le> maxArchiveBytes (j_policy j) \<and> j_artifact_count j = length xs
        \<and> j_status j = (if 0 < page_count (cj_id t) P_FAILED d \<or> 0 < cancelled_count (cj_id t) d then PARTIAL else PUBLISHED))"
proof -
  from ok obtain d1 where s: "stageArtifacts e1 t xs d = Inr ((), d1)" and p: "publish_staged e2 t xs d1 = Inr ((), d')"
    by (auto simp: publishArtifacts_def split: sum.splits)
  note st = stageArtifacts_stages [OF s]
  from stageArtifacts_preserves [OF inv tok s] have inv1: "site_inv d1" by (simp add: preserves_def)
  from publish_staged_rows [OF inv1 p] obtain c where c: "c \<in> set (jobs d1)" "holds_assembly e2 t c"
    and art: "artifacts d' = update_where (\<lambda>a. of_generation t a \<and> a_state a = A_STAGED) (publish_row e2 t) (artifacts d1)"
    and pg: "pages d' = pages d1"
    and row: "c\<lparr>j_status := terminal_for d1 c, j_lease_owner := None, j_lease_expires := None, j_archive_bytes := total_bytes xs,
       j_artifact_count := length xs, j_finished := Some (now e2), j_updated := now e2,
       j_event_version := j_event_version c + 1\<rparr> \<in> set (jobs d')" .
  have cid: "j_id c = cj_id t" using c(2) by (simp add: holds_assembly_def holds_phase_def)
  have cin: "c \<in> set (jobs d)" using c(1) st(2) by simp
  have pol: "j_policy c = cj_policy t" by (rule phase_token_job(2) [OF tok site_inv_work [OF inv] cin cid])
  have gen: "of_generation t (publish_row e2 t a) = of_generation t a" for a
    by (simp add: of_generation_def publish_row_def)
  have "count_where (of_generation t) (artifacts d') = length xs"
    unfolding art st(6) [symmetric] by (rule count_where_update_same) (simp add: gen)
  moreover have "\<exists>a \<in> set (artifacts d'). of_generation t a \<and> a_kind a = ai_kind x \<and> a_shard a = ai_shard x
        \<and> a_state a = A_PUBLISHED \<and> a_key a = so_key (ai_object x) \<and> a_bytes a = so_bytes (ai_object x)
        \<and> a_sha a = so_sha (ai_object x) \<and> a_delete_after a = now e2 + days (archiveRetentionDays (cj_policy t))"
    if x: "x \<in> set xs" for x
  proof -
    from st(7) [OF x] obtain a where a: "a \<in> set (artifacts d1)" "of_generation t a" "a_kind a = ai_kind x"
      "a_shard a = ai_shard x" "staged_match x a" by blast
    have "publish_row e2 t a \<in> set (artifacts d')"
      unfolding art set_update_where using a by (force simp: staged_match_def)
    with a show ?thesis by (intro bexI [of _ "publish_row e2 t a"]) (simp_all only: gen, simp_all add: publish_row_def staged_match_def)
  qed
  moreover have "terminal_for d1 c = (if 0 < page_count (cj_id t) P_FAILED d \<or> 0 < cancelled_count (cj_id t) d
      then PARTIAL else PUBLISHED)"
  proof -
    have "j_failed c = page_count (cj_id t) P_FAILED d"
      using site_inv_job [OF inv cin] cid by (simp add: job_inv_def counters_ok_def)
    moreover have "cancelled_count i d1 = cancelled_count i d" for i by (simp add: cancelled_count_def st(3))
    ultimately show ?thesis by (simp add: terminal_for_def cid)
  qed
  ultimately show ?thesis
    using row cid pol st(5) by (intro conjI ballI bexI [OF _ row]) simp_all
qed

theorem publishArtifacts_publishes_witness:
  "count_where (of_generation phase2) (artifacts (store sys13)) = 2
    \<and> (\<exists>j \<in> set (jobs (store sys13)). j_id j = 7 \<and> j_status j = PARTIAL)"
proof -
  have "stageArtifacts (env_at 13) phase2 demo_archive (store sys11) = Inr ((), store sys12)"
    by (simp add: run_defs sys_defs5)
  moreover have "publish_staged (env_at 14) phase2 demo_archive (store sys12) = Inr ((), store sys13)"
    by (simp add: run_defs sys_defs5 job13_def sys13_def)
  ultimately have ok: "publishArtifacts (env_at 13) (env_at 14) phase2 demo_archive (store sys11) = (Inr (), store sys13)"
    by (simp add: publishArtifacts_def)
  have "phase2 \<in> set (phase_claims sys11)" by (simp add: sys11_def)
  then have tok: "phase_token (store sys11) phase2"
    using reachable_sys_inv [OF reach11] by (simp add: sys_inv_def phase_claims_ok_def)
  have "0 < page_count 7 P_FAILED (store sys11)"
    by (simp add: sys_defs4 page_count_def)
  with publishArtifacts_publishes [OF reachable_site_inv [OF reach11] tok ok]
  show ?thesis by (auto simp: demo_archive_def phase2_def phase1_def)
qed

section \<open>Retention\<close>

named_theorems artifact_frames \<open>operations that leave the artifacts alone\<close>

lemma enqueueEvent_artifacts: "enqueueEvent e i s d = Inr d' \<Longrightarrow> artifacts d' = artifacts d"
  by (rule enqueueEvent_fields(2))

lemma acceptCommand_artifacts [artifact_frames]:
  "acceptCommand sha e c d = Inr (b, d') \<Longrightarrow> artifacts d' = artifacts d"
  by (cases c) (auto simp: acceptRequested_def acceptCancellation_def Let_def split: option.splits if_splits)

lemma claimIngestion_artifacts [artifact_frames]:
  "claimIngestion e w d = Inr (t, d') \<Longrightarrow> artifacts d' = artifacts d"
  by (auto simp: claimIngestion_def split: option.splits)

lemma extendPhaseLease_artifacts [artifact_frames]:
  "extendPhaseLease e t d = Inr (b, d') \<Longrightarrow> artifacts d' = artifacts d"
  by (auto simp: extendPhaseLease_def Let_def)

lemma addTargets_artifacts [artifact_frames]:
  "addTargets e t ts d = Inr (n, d') \<Longrightarrow> artifacts d' = artifacts d"
  by (auto simp: addTargets_def Let_def split: if_splits)

lemma finishIngestion_artifacts [artifact_frames]:
  "finishIngestion e t d = Inr (u, d') \<Longrightarrow> artifacts d' = artifacts d"
  by (auto simp: finishIngestion_def Let_def split: if_splits dest: enqueueEvent_artifacts)

lemma reclaim_artifacts [simp]: "artifacts (reclaim_pages e d) = artifacts d"
  by (simp add: reclaim_pages_def Let_def refresh_all_eq)

lemma claimPage_artifacts [artifact_frames]:
  "claimPage e w d = Inr (t, d') \<Longrightarrow> artifacts d' = artifacts d"
  by (auto simp: claimPage_def Let_def split: option.splits)

lemma extendPageLease_artifacts [artifact_frames]:
  "extendPageLease e t d = Inr (b, d') \<Longrightarrow> artifacts d' = artifacts d"
  by (auto simp: extendPageLease_def)

lemma incrementJob_artifacts: "incrementJob e i ok n d = Inr d' \<Longrightarrow> artifacts d' = artifacts d"
  by (auto simp: incrementJob_def Let_def split: if_splits option.splits dest: enqueueEvent_artifacts)

lemma completePage_artifacts [artifact_frames]:
  "completePage e t b n d = Inr (r, d') \<Longrightarrow> artifacts d' = artifacts d"
  by (auto simp: completePage_def finishPageWithoutBundle_def split: if_splits option.splits
      dest: incrementJob_artifacts)

lemma failPage_artifacts [artifact_frames]:
  "failPage e t c d = Inr (r, d') \<Longrightarrow> artifacts d' = artifacts d"
  by (auto simp: failPage_def Let_def split: if_splits dest: incrementJob_artifacts)

lemma finalizeEmptyJobs_artifacts: "finalizeEmptyJobs e d = Inr d' \<Longrightarrow> artifacts d' = artifacts d"
  unfolding finalizeEmptyJobs_def
  by (erule rfold_inv [where I = "\<lambda>x. artifacts x = artifacts d"])
    (auto simp: fail_empty_def dest: enqueueEvent_artifacts)

lemma claimAssembly_artifacts [artifact_frames]:
  assumes "claimAssembly e w d = Inr (t, d')"
  shows "artifacts d' = artifacts d"
proof -
  from assms obtain d1 where d1: "finalizeEmptyJobs e d = Inr d1"
    and rest: "(case first_by (\<lambda>j. (j_updated j, j_id j)) (assembly_candidate e d1) (jobs d1) of
       None \<Rightarrow> commit None d1
     | Some c \<Rightarrow> rbind (enqueueEvent e (j_id c) ASSEMBLING
           (update_job (j_id c) (lease_row e w (minutes 5) ASSEMBLING) d1))
         (commit (Some (phaseFromRow w (lease_row e w (minutes 5) ASSEMBLING c))))) = Inr (t, d')"
    unfolding claimAssembly_def by auto
  have "artifacts d' = artifacts d1"
  proof (cases "first_by (\<lambda>j. (j_updated j, j_id j)) (assembly_candidate e d1) (jobs d1)")
    case (Some c)
    with rest have "enqueueEvent e (j_id c) ASSEMBLING
        (update_job (j_id c) (lease_row e w (minutes 5) ASSEMBLING) d1) = Inr d'" by auto
    from enqueueEvent_fields(2) [OF this] show ?thesis by simp
  qed (use rest in simp)
  with finalizeEmptyJobs_artifacts [OF d1] show ?thesis by simp
qed

lemma settle_job_artifacts: "settle_job e i d = Inr d' \<Longrightarrow> artifacts d' = artifacts d"
  by (auto simp: settle_job_def Let_def refresh_eq split: option.splits if_splits dest: enqueueEvent_artifacts)

lemma reconcileCancellations_artifacts [artifact_frames]:
  assumes "reconcileCancellations e d = Inr (r, d')"
  shows "artifacts d' = artifacts d"
proof -
  let ?d1 = "cancel_queued e (expire_overdue e d)"
  from assms have "rfold (settle_job e) (map j_id (filter (settleable e ?d1) (jobs ?d1))) ?d1 = Inr d'"
    unfolding reconcileCancellations_def Let_def by auto
  then have "artifacts d' = artifacts ?d1"
    by (rule rfold_inv [where I = "\<lambda>x. artifacts x = artifacts ?d1"]) (auto dest: settle_job_artifacts)
  then show ?thesis by (simp add: cancel_queued_def expire_overdue_def)
qed

lemma claimEvent_artifacts [artifact_frames]: "claimEvent e w d = Inr (r, d') \<Longrightarrow> artifacts d' = artifacts d"
  by (auto simp: claimEvent_def split: prod.splits)

lemma completeEvent_artifacts [artifact_frames]: "completeEvent e ev d = Inr (r, d') \<Longrightarrow> artifacts d' = artifacts d"
  by (auto simp: completeEvent_def)

lemma retryEvent_artifacts [artifact_frames]: "retryEvent hash e ev c d = Inr (r, d') \<Longrightarrow> artifacts d' = artifacts d"
  by (auto simp: retryEvent_def)

text \<open>The operations that write artifacts leave a published one alone until its retention ends.\<close>

definition keeps :: "artifact_row \<Rightarrow> site_db \<Rightarrow> site_db \<Rightarrow> bool" where
  "keeps a d d' \<longleftrightarrow> (a \<in> set (artifacts d) \<longrightarrow> a \<in> set (artifacts d'))"

lemma keeps_same: "artifacts d' = artifacts d \<Longrightarrow> keeps a d d'"
  by (simp add: keeps_def)

lemma keeps_update: "artifacts d' = update_where P f (artifacts d) \<Longrightarrow> \<not> P a \<Longrightarrow> keeps a d d'"
  by (auto simp: keeps_def set_update_where)

lemma stageArtifacts_keeps: "stageArtifacts e t xs d = Inr (r, d') \<Longrightarrow> keeps a d d'"
  using stageArtifacts_stages(1) [of e t xs d d'] by (auto simp: keeps_def)

lemma publish_staged_keeps:
  assumes "publish_staged e t xs d = Inr (r, d')" "a_state a = A_PUBLISHED"
  shows "keeps a d d'"
proof (rule keeps_update)
  show "artifacts d' = update_where (\<lambda>a. of_generation t a \<and> a_state a = A_STAGED) (publish_row e t) (artifacts d)"
    using assms(1) by (auto simp: publish_staged_def split: option.splits if_splits dest: enqueueEvent_artifacts)
  show "\<not> (of_generation t a \<and> a_state a = A_STAGED)" using assms(2) by simp
qed

lemma retryPhase_keeps:
  assumes "retryPhase e t phase c d = Inr (r, d')" "a_state a = A_PUBLISHED"
  shows "keeps a d d'"
proof (cases "artifacts d' = artifacts d")
  case False
  with assms(1) have "artifacts d' = update_where (\<lambda>a. of_generation t a \<and> a_state a = A_STAGED)
      (\<lambda>a. a\<lparr>a_delete_after := max (clock e) (a_created a + 1)\<rparr>) (artifacts d)"
    by (auto simp: retryPhase_def Let_def discard_staged_def split: if_splits dest: enqueueEvent_artifacts)
  then show ?thesis by (rule keeps_update) (simp add: assms(2))
qed (rule keeps_same)

lemma completeObjectDeletion_keeps:
  assumes "completeObjectDeletion e g d = Inr (r, d')" "a_state a = A_PUBLISHED"
  shows "keeps a d d'"
proof (cases "artifacts d' = artifacts d")
  case False
  with assms(1) have "artifacts d' = update_where (deletable_artifact g)
      (\<lambda>a. a\<lparr>a_state := A_DELETED, a_deleted := Some (now e)\<rparr>) (artifacts d)"
    unfolding completeObjectDeletion_def Let_def
    by (auto split: object_type.splits if_split_asm dest: enqueueEvent_artifacts)
  then show ?thesis by (rule keeps_update) (simp add: assms(2) deletable_artifact_def)
qed (rule keeps_same)

lemma retryObjectDeletion_keeps:
  assumes "retryObjectDeletion e g d = Inr (r, d')" "a_state a = A_PUBLISHED"
  shows "keeps a d d'"
proof (cases "del_type g")
  case ARTIFACT
  with assms(1) have "artifacts d' = update_where (deletable_artifact g)
      (\<lambda>a. a\<lparr>a_delete_after := now e + minutes 1\<rparr>) (artifacts d)"
    by (simp add: retryObjectDeletion_def)
  then show ?thesis by (rule keeps_update) (simp add: assms(2) deletable_artifact_def)
next
  case PAGE_BUNDLE
  with assms(1) show ?thesis by (intro keeps_same) (simp add: retryObjectDeletion_def)
qed

lemma claimObjectForDeletion_keeps:
  assumes ok: "claimObjectForDeletion e d = Inr (r, d')" and dist: "distinct (map a_id (artifacts d))"
    and a: "now e < a_delete_after a"
  shows "keeps a d d'"
proof (cases "first_by (\<lambda>a. (a_delete_after a, a_id a)) (artifact_due e) (artifacts d)")
  case None
  with ok show ?thesis by (intro keeps_same) (auto simp: claimObjectForDeletion_def split: option.splits)
next
  case (Some c)
  from first_by_Some [OF Some] have c: "c \<in> set (artifacts d)" "a_delete_after c \<le> now e"
    by (simp_all add: artifact_due_def)
  show ?thesis
  proof (cases "a \<in> set (artifacts d)")
    case True
    have "a_id a \<noteq> a_id c"
    proof
      assume "a_id a = a_id c"
      with dist True c(1) have "a = c" by (metis distinct_key_unique)
      with a c(2) show False by simp
    qed
    with ok Some show ?thesis
      by (intro keeps_update [of _ "\<lambda>x. a_id x = a_id c"]) (auto simp: claimObjectForDeletion_def)
  qed (simp add: keeps_def)
qed

text \<open>
  C15. Retention. No operation of any worker touches a published artifact before its retention has
  passed: whatever runs, the row is still there unchanged.
\<close>

theorem retention_respected:
  assumes "reachable sha hash s" "exec sha hash e op s = Inr s'"
    and "a \<in> set (artifacts (store s))" "a_state a = A_PUBLISHED" "now e < a_delete_after a"
  shows "a \<in> set (artifacts (store s'))"
proof -
  have dist: "distinct (map a_id (artifacts (store s)))"
    using reachable_site_inv [OF assms(1)] by (simp add: site_inv_def schema_ok_def keys_ok_def artifacts_unique_def)
  note writes = stageArtifacts_keeps [where a = a] publish_staged_keeps [where a = a, OF _ assms(4)]
    retryPhase_keeps [where a = a, OF _ assms(4)] completeObjectDeletion_keeps [where a = a, OF _ assms(4)]
    retryObjectDeletion_keeps [where a = a, OF _ assms(4)] claimObjectForDeletion_keeps [where a = a, OF _ dist assms(5)]
  have "keeps a (store s) (store s')"
    using assms(2)
    by (cases op) (auto simp: exec_Inr retryAssembly_def retryIngestion_def dest: writes artifact_frames [THEN keeps_same [where a = a]])
  with assms(3) show ?thesis by (simp add: keeps_def)
qed

definition published1 :: artifact_row where
  "published1 = publish_row (env_at 14) phase2 staged1"

definition env_pages_locked :: env where
  "env_pages_locked = (env_at 20)\<lparr>locked_page := \<lambda>_. True\<rparr>"

theorem retention_respected_witness:
  "published1 \<in> set (artifacts (store sys13))
    \<and> (\<exists>s'. exec sha0 hash0 env_pages_locked ClaimObjectForDeletion sys13 = Inr s' \<and> published1 \<in> set (artifacts (store s')))"
proof -
  have in13: "published1 \<in> set (artifacts (store sys13))" by (simp add: sys13_def published1_def)
  have "schema_ok (store sys13)" using reachable_site_inv [OF reach13] by (simp add: site_inv_def)
  moreover have "first_by (\<lambda>a. (a_delete_after a, a_id a)) (artifact_due env_pages_locked) (artifacts (store sys13)) = None"
    by (simp add: first_by_None artifact_due_def sys13_def publish_row_def env_pages_locked_def
        env_at_def seconds_def days_def phase2_def phase1_def demo_policy_def)
  moreover have "first_by (\<lambda>p. (coalesce (p_bundle_delete_after p) 0, p_job p, p_page p))
      (bundle_due env_pages_locked (store sys13)) (pages (store sys13)) = None"
    by (simp add: first_by_None bundle_due_def env_pages_locked_def)
  ultimately have ok: "exec sha0 hash0 env_pages_locked ClaimObjectForDeletion sys13 = Inr sys13"
    by (simp add: on_store_def claimObjectForDeletion_def commit_def)
  have "a_state published1 = A_PUBLISHED" "now env_pages_locked < a_delete_after published1"
    by (simp_all add: published1_def publish_row_def env_pages_locked_def env_at_def seconds_def days_def
        phase2_def phase1_def demo_policy_def)
  from retention_respected [OF reach13 ok in13 this] in13 ok show ?thesis by blast
qed

end
