(* ===== verification/Capture_Schema.thy ===== *)
theory Capture_Schema
  imports Complex_Main Site_Schema
begin

text \<open>
  The state of the page capture workflow: the rows of the tables of
  \<open>capture-worker/migrations/postgresql/001_create_capture_runtime.sql\<close> and
  \<open>002_create_static_reconstruction.sql\<close> with their CHECK, UNIQUE and foreign key constraints, and the
  values of \<open>capture-worker/src/types.ts\<close> the store reads. Column types are those of \<open>Site_Schema\<close>;
  \<open>jsonb\<close> columns hold the value itself.
\<close>

section \<open>What a capture is asked for and returns\<close>

record static_observation =
  so_title :: "string option"
  so_description :: "string option"
  so_canonical_url :: "string option"
  so_h1 :: "string option"
  so_links :: int
  so_images :: int
  so_schema_org_types :: "string list"
  so_observed_at :: "string option"

record capture_payload =
  pl_capture_request :: uuid
  pl_owner :: uuid
  pl_scan :: uuid
  pl_page :: uuid
  pl_target_url :: string
  pl_viewport_width :: nat
  pl_viewport_height :: nat
  pl_timeout_seconds :: nat
  pl_max_total_bytes :: nat
  pl_max_resource_bytes :: nat
  pl_max_network_requests :: nat
  pl_max_resource_bodies :: nat
  pl_measurement_profile :: string
  pl_static_observation :: static_observation

record capture_command =
  cc_message_id :: uuid
  cc_aggregate_id :: uuid
  cc_aggregate_version :: nat
  cc_corr :: uuid
  cc_occurred_at :: string
  cc_payload :: capture_payload

record open_graph =
  og_title :: string
  og_description :: string
  og_image_url :: string

record rendered_metadata =
  rm_title :: string
  rm_description :: string
  rm_canonical_url :: string
  rm_meta_robots :: string
  rm_h1 :: "string list"
  rm_word_count :: nat
  rm_link_count :: nat
  rm_image_count :: nat
  rm_open_graph :: open_graph
  rm_schema_org_types :: "string list"

record diff_summary =
  df_static_observed_at :: "string option"
  df_rendered_observed_at :: string
  df_title_changed :: bool
  df_description_changed :: bool
  df_canonical_changed :: bool
  df_h1_changed :: bool
  df_content_changed :: bool
  df_link_count_delta :: int
  df_image_count_delta :: int
  df_schema_types_changed :: bool

datatype measurement_status = AVAILABLE | UNAVAILABLE
datatype measurement_unit = MS | SCORE

text \<open>A measured value is a JSON number.\<close>

record measurement =
  me_status :: measurement_status
  me_value :: "rat option"
  me_unit :: measurement_unit
  me_profile_version :: string
  me_unavailable_reason :: "string option"

record performance_summary =
  pf_lcp :: measurement
  pf_cls :: measurement
  pf_ttfb :: measurement

record network_record =
  nw_request_id :: string
  nw_sequence :: nat
  nw_url :: string
  nw_method :: string
  nw_resource_type :: string
  nw_status_code :: nat
  nw_mime_type :: string
  nw_response_bytes :: nat
  nw_duration_ms :: rat
  nw_failure_code :: string

record resource_body =
  rb_resource_id :: uuid
  rb_sequence :: nat
  rb_url :: string
  rb_resource_type :: string
  rb_mime_type :: string
  rb_body :: string
  rb_was_truncated :: bool

datatype build_status = BUILD_PUBLISHED | BUILD_PARTIAL | BUILD_FAILED

text \<open>A build, without the files it leaves on the worker's disk.\<close>

record reconstruction_build =
  bd_status :: build_status
  bd_engine_version :: string
  bd_discovered :: nat
  bd_packaged :: nat
  bd_skipped :: nat
  bd_input_bytes :: nat
  bd_archive_bytes :: "nat option"
  bd_completeness_code :: "string option"
  bd_failure_code :: "string option"

record capture_result =
  cr_final_url :: string
  cr_html :: string
  cr_screenshot :: string
  cr_rendered :: rendered_metadata
  cr_diff :: diff_summary
  cr_performance :: performance_summary
  cr_network :: "network_record list"
  cr_resource_bodies :: "resource_body list"
  cr_browser_version :: string
  cr_observed_at :: time
  cr_total_transfer_bytes :: nat
  cr_reconstruction :: reconstruction_build

section \<open>Rows\<close>

datatype capture_status = C_QUEUED | C_RENDERING | C_PERSISTING | C_COMPLETED | C_FAILED

datatype recon_status = R_QUEUED | R_RUNNING | R_PUBLISHED | R_PARTIAL | R_FAILED | R_EXPIRED

datatype recon_kind = STATIC_ARCHIVE | RECON_MANIFEST

record capture_row =
  c_id :: uuid
  c_command_message_id :: uuid
  c_command_sha :: digest
  c_owner :: uuid
  c_scan :: uuid
  c_page :: uuid
  c_corr :: uuid
  c_command_version :: nat
  c_status :: capture_status
  c_target_url :: string
  c_payload :: capture_payload
  c_attempts :: nat
  c_available :: time
  c_lease_owner :: "uuid option"
  c_lease_gen :: nat
  c_lease_expires :: "time option"
  c_event_version :: nat
  c_expected :: nat
  c_published :: nat
  c_object_count :: nat
  c_object_bytes :: nat
  c_terminal_code :: "string option"
  c_terminal_message :: "string option"
  c_accepted :: time
  c_started :: "time option"
  c_finished :: "time option"
  c_updated :: time

record snapshot_row =
  sn_id :: uuid
  sn_job :: uuid
  sn_owner :: uuid
  sn_scan :: uuid
  sn_page :: uuid
  sn_final_url :: string
  sn_viewport_width :: nat
  sn_viewport_height :: nat
  sn_measurement_profile :: string
  sn_browser_version :: string
  sn_rendered :: rendered_metadata
  sn_diff :: diff_summary
  sn_performance :: performance_summary
  sn_network_count :: nat
  sn_resource_count :: nat
  sn_transfer_bytes :: nat
  sn_bucket :: string
  sn_html_key :: string
  sn_html_sha :: digest
  sn_html_bytes :: nat
  sn_screenshot_key :: string
  sn_screenshot_sha :: digest
  sn_screenshot_bytes :: nat
  sn_captured :: time
  sn_expires :: time
  sn_created :: time

record object_row =
  ob_id :: uuid
  ob_job :: uuid
  ob_resource :: uuid
  ob_ordinal :: nat
  ob_bucket :: string
  ob_key :: string
  ob_content_type :: string
  ob_bytes :: nat
  ob_sha :: digest
  ob_delete_after :: time
  ob_created :: time

text \<open>What the worker tells the analytics store about a capture, and the main API about its progress.\<close>

record analytics_body =
  ab_resource_id :: uuid
  ab_sequence :: nat
  ab_url :: string
  ab_resource_type :: string
  ab_mime_type :: string
  ab_body_bytes :: nat
  ab_body_sha :: digest
  ab_was_truncated :: bool

record analytics_payload =
  ap_batch :: uuid
  ap_owner :: uuid
  ap_capture_request :: uuid
  ap_scan :: uuid
  ap_page :: uuid
  ap_record_version :: nat
  ap_final_url :: string
  ap_rendered :: rendered_metadata
  ap_diff :: diff_summary
  ap_performance :: performance_summary
  ap_network :: "network_record list"
  ap_resource_bodies :: "analytics_body list"
  ap_browser_version :: string
  ap_observed_at :: time
  ap_total_transfer_bytes :: nat

record analytics_row = delivery +
  an_job :: uuid
  an_owner :: uuid
  an_result_version :: nat
  an_payload :: "analytics_payload option"
  an_payload_sha :: digest
  an_updated :: time

datatype capture_phase = PH_RUNNING | PH_INDEXING | PH_COMPLETED | PH_FAILED

record capture_event =
  ce_message_id :: uuid
  ce_aggregate_id :: uuid
  ce_aggregate_version :: nat
  ce_corr :: uuid
  ce_occurred_at :: time
  ce_owner :: uuid
  ce_status :: capture_phase
  ce_expected :: nat
  ce_published :: nat
  ce_object_count :: nat
  ce_object_bytes :: nat
  ce_terminal_code :: "string option"
  ce_terminal_message :: "string option"

record event_row = delivery +
  e_job :: uuid
  e_version :: nat
  e_corr :: uuid
  e_payload :: capture_event

record recon_row =
  r_id :: uuid
  r_owner :: uuid
  r_job :: uuid
  r_snapshot :: "uuid option"
  r_engine_version :: string
  r_status :: recon_status
  r_max_files :: nat
  r_max_input_bytes :: nat
  r_max_archive_bytes :: nat
  r_discovered :: nat
  r_packaged :: nat
  r_skipped :: nat
  r_input_bytes :: nat
  r_archive_bytes :: "nat option"
  r_completeness_code :: "string option"
  r_failure_code :: "string option"
  r_source_gen :: "nat option"
  r_created :: time
  r_started :: "time option"
  r_finished :: "time option"
  r_updated :: time
  r_version :: nat

record recon_artifact =
  ra_id :: uuid
  ra_owner :: uuid
  ra_recon :: uuid
  ra_kind :: recon_kind
  ra_gen :: nat
  ra_filename :: string
  ra_bucket :: string
  ra_key :: string
  ra_content_type :: string
  ra_bytes :: nat
  ra_sha :: digest
  ra_state :: artifact_state
  ra_created :: time
  ra_published :: "time option"
  ra_delete_after :: time
  ra_deleted :: "time option"

record cap_db =
  captures :: "capture_row list"
  snapshots :: "snapshot_row list"
  object_refs :: "object_row list"
  analytics :: "analytics_row list"
  cap_events :: "event_row list"
  recons :: "recon_row list"
  recon_artifacts :: "recon_artifact list"

section \<open>Row constraints\<close>

definition capture_check :: "capture_row \<Rightarrow> bool" where
  "capture_check j \<longleftrightarrow> length (c_command_sha j) = 32 \<and> c_attempts j \<le> 3
     \<and> ((c_status j = C_RENDERING \<and> c_lease_owner j \<noteq> None \<and> c_lease_expires j \<noteq> None)
      \<or> (c_status j \<noteq> C_RENDERING \<and> c_lease_owner j = None \<and> c_lease_expires j = None))"

definition snapshot_check :: "snapshot_row \<Rightarrow> bool" where
  "snapshot_check s \<longleftrightarrow> length (sn_html_sha s) = 32 \<and> length (sn_screenshot_sha s) = 32
     \<and> sn_network_count s \<le> 500 \<and> sn_resource_count s \<le> 100 \<and> sn_transfer_bytes s \<le> 52428800"

definition object_check :: "object_row \<Rightarrow> bool" where
  "object_check x \<longleftrightarrow> length (ob_sha x) = 32 \<and> 1 \<le> ob_bytes x \<and> ob_bytes x \<le> 10485760"

text \<open>\<open>octets\<close> is \<open>octet_length(payload::text)\<close>, which depends on how the server prints \<open>jsonb\<close>.\<close>

definition analytics_check :: "(analytics_payload \<Rightarrow> nat) \<Rightarrow> analytics_row \<Rightarrow> bool" where
  "analytics_check octets x \<longleftrightarrow> length (an_payload_sha x) = 32
     \<and> (if o_status x = DELIVERED then an_payload x = None
        else (case an_payload x of None \<Rightarrow> False | Some p \<Rightarrow> octets p \<le> 8388608))"

definition recon_counts_check :: "recon_row \<Rightarrow> bool" where
  "recon_counts_check r \<longleftrightarrow>
     1 \<le> r_max_files r \<and> r_max_files r \<le> 100
   \<and> 1 \<le> r_max_input_bytes r \<and> r_max_input_bytes r \<le> 52428800
   \<and> 1 \<le> r_max_archive_bytes r \<and> r_max_archive_bytes r \<le> 67108864
   \<and> r_packaged r \<le> r_max_files r \<and> r_packaged r + r_skipped r \<le> r_discovered r
   \<and> r_input_bytes r \<le> r_max_input_bytes r
   \<and> all_opt (\<lambda>b. 1 \<le> b \<and> b \<le> r_max_archive_bytes r) (r_archive_bytes r)
   \<and> all_opt (\<lambda>c. 1 \<le> length c \<and> length c \<le> 64) (r_completeness_code r)
   \<and> all_opt (\<lambda>c. 1 \<le> length c \<and> length c \<le> 64) (r_failure_code r)"

definition recon_lifecycle_check :: "recon_row \<Rightarrow> bool" where
  "recon_lifecycle_check r \<longleftrightarrow>
     (case r_status r of
        R_QUEUED \<Rightarrow> r_started r = None \<and> r_finished r = None
      | R_RUNNING \<Rightarrow> r_started r \<noteq> None \<and> r_finished r = None \<and> r_source_gen r \<noteq> None
      | R_FAILED \<Rightarrow> r_finished r \<noteq> None \<and> r_failure_code r \<noteq> None
      | R_EXPIRED \<Rightarrow> r_finished r \<noteq> None
      | _ \<Rightarrow> r_snapshot r \<noteq> None \<and> r_archive_bytes r \<noteq> None \<and> r_finished r \<noteq> None
           \<and> r_completeness_code r \<noteq> None \<and> r_failure_code r = None)"

definition recon_time_check :: "recon_row \<Rightarrow> bool" where
  "recon_time_check r \<longleftrightarrow>
     all_opt (\<lambda>t. r_created r \<le> t) (r_started r)
   \<and> all_opt (\<lambda>t. coalesce (r_started r) (r_created r) \<le> t) (r_finished r)
   \<and> r_created r \<le> r_updated r"

definition recon_check :: "recon_row \<Rightarrow> bool" where
  "recon_check r \<longleftrightarrow> recon_counts_check r \<and> recon_lifecycle_check r \<and> recon_time_check r"

definition recon_artifact_check :: "recon_artifact \<Rightarrow> bool" where
  "recon_artifact_check a \<longleftrightarrow>
     ra_content_type a = (case ra_kind a of STATIC_ARCHIVE \<Rightarrow> ''application/zip'' | RECON_MANIFEST \<Rightarrow> ''application/json'')
   \<and> 1 \<le> ra_gen a
   \<and> 1 \<le> length (ra_filename a) \<and> length (ra_filename a) \<le> 128
   \<and> 1 \<le> ra_bytes a \<and> ra_bytes a \<le> 67108864
   \<and> length (ra_sha a) = 32
   \<and> (case ra_state a of
        A_STAGED \<Rightarrow> ra_published a = None \<and> ra_deleted a = None
      | A_PUBLISHED \<Rightarrow> ra_published a \<noteq> None \<and> ra_deleted a = None
      | A_DELETE_PENDING \<Rightarrow> ra_published a \<noteq> None \<and> ra_deleted a = None
      | A_DELETED \<Rightarrow> ra_deleted a \<noteq> None)
   \<and> ra_created a < ra_delete_after a
   \<and> all_opt (\<lambda>t. ra_created a \<le> t) (ra_published a)
   \<and> all_opt (\<lambda>t. ra_created a \<le> t) (ra_deleted a)"

section \<open>Keys and references\<close>

definition captures_unique :: "capture_row list \<Rightarrow> bool" where
  "captures_unique js \<longleftrightarrow> distinct (map c_id js) \<and> distinct (map c_command_message_id js)"

definition snapshots_unique :: "snapshot_row list \<Rightarrow> bool" where
  "snapshots_unique xs \<longleftrightarrow> distinct (map sn_id xs) \<and> distinct (map sn_job xs)"

definition objects_unique :: "object_row list \<Rightarrow> bool" where
  "objects_unique xs \<longleftrightarrow> distinct (map ob_id xs) \<and> distinct (map ob_key xs)
     \<and> distinct (map (\<lambda>x. (ob_job x, ob_ordinal x)) xs)"

definition analytics_unique :: "analytics_row list \<Rightarrow> bool" where
  "analytics_unique xs \<longleftrightarrow> distinct (map o_message_id xs) \<and> distinct (map an_job xs)"

definition events_unique :: "event_row list \<Rightarrow> bool" where
  "events_unique xs \<longleftrightarrow> distinct (map o_message_id xs) \<and> distinct (map (\<lambda>x. (e_job x, e_version x)) xs)"

definition recons_unique :: "recon_row list \<Rightarrow> bool" where
  "recons_unique xs \<longleftrightarrow> distinct (map r_id xs) \<and> distinct (map r_job xs)"

abbreviation generation_key :: "recon_artifact \<Rightarrow> uuid \<times> recon_kind \<times> nat" where
  "generation_key a \<equiv> (ra_recon a, ra_kind a, ra_gen a)"

definition recon_artifacts_unique :: "recon_artifact list \<Rightarrow> bool" where
  "recon_artifacts_unique xs \<longleftrightarrow> distinct (map ra_id xs) \<and> distinct (map ra_key xs) \<and> distinct (map generation_key xs)"

definition cap_references_ok :: "cap_db \<Rightarrow> bool" where
  "cap_references_ok d \<longleftrightarrow>
     (\<forall>s \<in> set (snapshots d). sn_job s \<in> c_id ` set (captures d))
   \<and> (\<forall>x \<in> set (object_refs d). ob_job x \<in> c_id ` set (captures d))
   \<and> (\<forall>x \<in> set (analytics d). an_job x \<in> c_id ` set (captures d))
   \<and> (\<forall>x \<in> set (cap_events d). e_job x \<in> c_id ` set (captures d))
   \<and> (\<forall>r \<in> set (recons d). r_job r \<in> c_id ` set (captures d)
        \<and> set_option (r_snapshot r) \<subseteq> sn_id ` set (snapshots d))
   \<and> (\<forall>a \<in> set (recon_artifacts d). (ra_recon a, ra_owner a) \<in> (\<lambda>r. (r_id r, r_owner r)) ` set (recons d))"

definition cap_rows_ok :: "(analytics_payload \<Rightarrow> nat) \<Rightarrow> cap_db \<Rightarrow> bool" where
  "cap_rows_ok octets d \<longleftrightarrow> list_all capture_check (captures d) \<and> list_all snapshot_check (snapshots d)
     \<and> list_all object_check (object_refs d) \<and> list_all (analytics_check octets) (analytics d)
     \<and> list_all recon_check (recons d) \<and> list_all recon_artifact_check (recon_artifacts d)"

definition cap_keys_ok :: "cap_db \<Rightarrow> bool" where
  "cap_keys_ok d \<longleftrightarrow> captures_unique (captures d) \<and> snapshots_unique (snapshots d)
     \<and> objects_unique (object_refs d) \<and> analytics_unique (analytics d) \<and> events_unique (cap_events d)
     \<and> recons_unique (recons d) \<and> recon_artifacts_unique (recon_artifacts d)"

definition cap_schema_ok :: "(analytics_payload \<Rightarrow> nat) \<Rightarrow> cap_db \<Rightarrow> bool" where
  "cap_schema_ok octets d \<longleftrightarrow> cap_rows_ok octets d \<and> cap_keys_ok d \<and> cap_references_ok d"

section \<open>Errors, transactions, surroundings\<close>

datatype cap_error =
  CAP_MESSAGE_ID_COLLISION
| STALE_CAPTURE_LEASE
| STALE_RECONSTRUCTION_LEASE
| STALE_RECONSTRUCTION_GC_CLAIM
| STALE_ANALYTICS_LEASE
| ANALYTICS_PAYLOAD_TOO_LARGE
| CAPTURE_JOB_NOT_PERSISTING
| CAP_CONSTRAINT_VIOLATION

text \<open>
  The functions of the platform the store uses: the digest of a command, of the analytics payload's
  JSON text and of a body, the length of that text in bytes and as the server prints it, and PostgreSQL's
  \<open>hashtext(id::text)\<close>.
\<close>

record platform =
  command_sha :: "capture_command \<Rightarrow> digest"
  json_bytes :: "analytics_payload \<Rightarrow> nat"
  json_sha :: "analytics_payload \<Rightarrow> digest"
  body_sha :: "string \<Rightarrow> digest"
  jsonb_bytes :: "analytics_payload \<Rightarrow> nat"
  hashtext :: "uuid \<Rightarrow> int"

text \<open>
  What a transaction reads: its time \<open>t_now\<close>, the worker's clock, the identifiers it draws, and which
  rows other transactions have locked.
\<close>

record cap_env =
  t_now :: time
  t_wall :: time
  new_event :: "uuid \<Rightarrow> nat \<Rightarrow> uuid"
  new_recon :: uuid
  new_artifact :: "recon_kind \<Rightarrow> uuid"
  new_batch :: uuid
  new_snapshot :: uuid
  new_object :: "nat \<Rightarrow> uuid"
  locked_capture :: "uuid \<Rightarrow> bool"
  locked_analytics :: "uuid \<Rightarrow> bool"
  locked_cap_event :: "uuid \<Rightarrow> bool"
  locked_recon_artifact :: "uuid \<Rightarrow> bool"

type_synonym 'a cap_txn = "cap_db \<Rightarrow> cap_error + ('a \<times> cap_db)"

definition cap_commit :: "platform \<Rightarrow> 'a \<Rightarrow> cap_db \<Rightarrow> cap_error + ('a \<times> cap_db)" where
  "cap_commit K r d = (if cap_schema_ok (jsonb_bytes K) d then Inr (r, d) else Inl CAP_CONSTRAINT_VIOLATION)"

lemma cap_commit_eq_Inr [simp]:
  "(cap_commit K r d = Inr (x, d')) = (cap_schema_ok (jsonb_bytes K) d \<and> x = r \<and> d' = d)"
  by (auto simp: cap_commit_def)

section \<open>Claims handed to workers\<close>

record claimed_job =
  cl_id :: uuid
  cl_owner :: uuid
  cl_scan :: uuid
  cl_page :: uuid
  cl_corr :: uuid
  cl_payload :: capture_payload
  cl_lease_owner :: uuid
  cl_lease_gen :: nat
  cl_attempts :: nat

record claimed_outbox =
  co_id :: uuid
  co_job :: uuid
  co_owner :: uuid
  co_payload :: "analytics_payload option"
  co_payload_sha :: digest
  co_lease_owner :: uuid

record claimed_cap_event =
  ck_message_id :: uuid
  ck_payload :: capture_event
  ck_lease_owner :: uuid

record reconstruction_objects =
  ro_archive :: stored_object
  ro_manifest :: stored_object

record claimed_recon_artifact =
  cg_id :: uuid
  cg_recon :: uuid
  cg_kind :: recon_kind
  cg_object :: stored_object

end
