(* ===== verification/Capture_Jobs.thy ===== *)
theory Capture_Jobs
  imports Capture_Schema
begin

text \<open>
  \<open>CaptureDatabase\<close> (\<open>capture-worker/src/database.ts\<close>), the life of a capture job: \<open>acceptCommand\<close>,
  \<open>claimJob\<close>, \<open>extendLease\<close>, \<open>failJob\<close> and the event every transition enqueues.
\<close>

definition find_capture :: "uuid \<Rightarrow> cap_db \<Rightarrow> capture_row option" where
  "find_capture i d = find (\<lambda>j. c_id j = i) (captures d)"

definition update_capture :: "uuid \<Rightarrow> (capture_row \<Rightarrow> capture_row) \<Rightarrow> cap_db \<Rightarrow> cap_db" where
  "update_capture i f d = d\<lparr>captures := update_where (\<lambda>j. c_id j = i) f (captures d)\<rparr>"

section \<open>Events\<close>

text \<open>What an event says beside its identity: the arguments of \<open>enqueueEvent\<close>.\<close>

record event_body =
  eb_status :: capture_phase
  eb_expected :: nat
  eb_published :: nat
  eb_object_count :: nat
  eb_object_bytes :: nat
  eb_terminal_code :: "string option"
  eb_terminal_message :: "string option"

definition bare_event :: "capture_phase \<Rightarrow> string option \<Rightarrow> string option \<Rightarrow> event_body" where
  "bare_event s code message = \<lparr> eb_status = s, eb_expected = 0, eb_published = 0, eb_object_count = 0,
     eb_object_bytes = 0, eb_terminal_code = code, eb_terminal_message = message \<rparr>"

definition cap_event :: "cap_env \<Rightarrow> uuid \<Rightarrow> uuid \<Rightarrow> uuid \<Rightarrow> nat \<Rightarrow> event_body \<Rightarrow> event_row" where
  "cap_event e jobId owner corr version b =
    \<lparr> o_message_id = new_event e jobId version, o_status = PENDING, o_available = t_now e, o_attempts = 0,
      o_lease_owner = None, o_lease_expires = None, o_delivered = None, o_last_error = None,
      o_created = t_now e, e_job = jobId, e_version = version, e_corr = corr,
      e_payload = \<lparr> ce_message_id = new_event e jobId version, ce_aggregate_id = jobId,
        ce_aggregate_version = version, ce_corr = corr, ce_occurred_at = t_wall e, ce_owner = owner,
        ce_status = eb_status b, ce_expected = eb_expected b, ce_published = eb_published b,
        ce_object_count = eb_object_count b, ce_object_bytes = eb_object_bytes b,
        ce_terminal_code = eb_terminal_code b, ce_terminal_message = eb_terminal_message b \<rparr> \<rparr>"

definition next_event :: "cap_env \<Rightarrow> capture_row \<Rightarrow> capture_row" where
  "next_event e j = j\<lparr>c_event_version := c_event_version j + 1, c_updated := t_now e\<rparr>"

text \<open>Without a row the version is \<open>NaN\<close>, which the server refuses to insert.\<close>

definition enqueue :: "cap_env \<Rightarrow> uuid \<Rightarrow> uuid \<Rightarrow> uuid \<Rightarrow> event_body \<Rightarrow> cap_db \<Rightarrow> cap_error + cap_db" where
  "enqueue e jobId owner corr b d =
     (let d' = update_capture jobId (next_event e) d
      in case find_capture jobId d' of
           None \<Rightarrow> Inl CAP_CONSTRAINT_VIOLATION
         | Some row \<Rightarrow> Inr (d'\<lparr>cap_events := cap_events d' @ [cap_event e jobId owner corr (c_event_version row) b]\<rparr>))"

section \<open>Accepting a command\<close>

definition engine_version :: string where
  "engine_version = ''weblens-1/pagesource-0.1.2@f59ed61''"

definition new_capture :: "platform \<Rightarrow> cap_env \<Rightarrow> capture_command \<Rightarrow> capture_row" where
  "new_capture K e c =
    \<lparr> c_id = pl_capture_request (cc_payload c), c_command_message_id = cc_message_id c,
      c_command_sha = command_sha K c, c_owner = pl_owner (cc_payload c), c_scan = pl_scan (cc_payload c),
      c_page = pl_page (cc_payload c), c_corr = cc_corr c, c_command_version = cc_aggregate_version c,
      c_status = C_QUEUED, c_target_url = pl_target_url (cc_payload c), c_payload = cc_payload c,
      c_attempts = 0, c_available = t_now e, c_lease_owner = None, c_lease_gen = 0, c_lease_expires = None,
      c_event_version = 0, c_expected = 0, c_published = 0, c_object_count = 0, c_object_bytes = 0,
      c_terminal_code = None, c_terminal_message = None, c_accepted = t_now e, c_started = None,
      c_finished = None, c_updated = t_now e \<rparr>"

definition new_recon_row :: "cap_env \<Rightarrow> capture_command \<Rightarrow> recon_row" where
  "new_recon_row e c =
    \<lparr> r_id = new_recon e, r_owner = pl_owner (cc_payload c), r_job = pl_capture_request (cc_payload c),
      r_snapshot = None, r_engine_version = engine_version, r_status = R_QUEUED, r_max_files = 100,
      r_max_input_bytes = 52428800, r_max_archive_bytes = 67108864, r_discovered = 0, r_packaged = 0,
      r_skipped = 0, r_input_bytes = 0, r_archive_bytes = None, r_completeness_code = None,
      r_failure_code = None, r_source_gen = None, r_created = t_now e, r_started = None,
      r_finished = None, r_updated = t_now e, r_version = 0 \<rparr>"

definition acceptCapture :: "platform \<Rightarrow> cap_env \<Rightarrow> capture_command \<Rightarrow> bool cap_txn" where
  "acceptCapture K e c d =
     (case find (\<lambda>j. c_command_message_id j = cc_message_id c) (captures d) of
        Some existing \<Rightarrow>
          if c_command_sha existing \<noteq> command_sha K c then Inl CAP_MESSAGE_ID_COLLISION else Inr (True, d)
      | None \<Rightarrow> cap_commit K False (d\<lparr>captures := captures d @ [new_capture K e c],
                  recons := recons d @ [new_recon_row e c]\<rparr>))"

section \<open>Claiming a job\<close>

definition recon_active :: "uuid \<Rightarrow> recon_row \<Rightarrow> bool" where
  "recon_active jobId r \<longleftrightarrow> r_job r = jobId \<and> r_status r \<in> {R_QUEUED, R_RUNNING}"

definition abandon_recon :: "cap_env \<Rightarrow> recon_row \<Rightarrow> recon_row" where
  "abandon_recon e r = r\<lparr>r_status := R_FAILED, r_failure_code := Some ''CAPTURE_FAILED_BEFORE_CLONE'',
     r_finished := Some (t_now e), r_updated := t_now e, r_version := r_version r + 1\<rparr>"

definition end_capture :: "cap_env \<Rightarrow> string \<Rightarrow> string \<Rightarrow> capture_row \<Rightarrow> capture_row" where
  "end_capture e code message j = j\<lparr>c_status := C_FAILED, c_lease_owner := None, c_lease_expires := None,
     c_terminal_code := Some code, c_terminal_message := Some message,
     c_finished := Some (t_now e), c_updated := t_now e\<rparr>"

text \<open>A job that ends without a result: the row, its reconstruction and the event.\<close>

definition abandon_capture :: "cap_env \<Rightarrow> string \<Rightarrow> string \<Rightarrow> uuid \<times> uuid \<times> uuid \<Rightarrow> cap_db \<Rightarrow> cap_error + cap_db" where
  "abandon_capture e code message = (\<lambda>(jobId, owner, corr) d.
     let d1 = update_capture jobId (end_capture e code message) d;
         d2 = d1\<lparr>recons := update_where (recon_active jobId) (abandon_recon e) (recons d1)\<rparr>
     in enqueue e jobId owner corr (bare_event PH_FAILED (Some code) (Some message)) d2)"

definition exhausted_captures :: "cap_env \<Rightarrow> cap_db \<Rightarrow> capture_row list" where
  "exhausted_captures e d = take 100 (order_by (\<lambda>j. (coalesce (c_lease_expires j) 0, c_id j))
     (\<lambda>j. c_status j = C_RENDERING \<and> le_opt (c_lease_expires j) (t_now e) \<and> 3 \<le> c_attempts j
        \<and> \<not> locked_capture e (c_id j)) (captures d))"

definition reclaimable :: "cap_env \<Rightarrow> capture_row \<Rightarrow> bool" where
  "reclaimable e j \<longleftrightarrow> c_status j = C_RENDERING \<and> le_opt (c_lease_expires j) (t_now e) \<and> c_attempts j < 3"

definition requeue_capture :: "cap_env \<Rightarrow> capture_row \<Rightarrow> capture_row" where
  "requeue_capture e j = j\<lparr>c_status := C_QUEUED, c_lease_owner := None, c_lease_expires := None,
     c_available := t_now e, c_updated := t_now e\<rparr>"

definition capture_candidate :: "cap_env \<Rightarrow> capture_row \<Rightarrow> bool" where
  "capture_candidate e j \<longleftrightarrow> c_status j = C_QUEUED \<and> c_available j \<le> t_now e \<and> c_attempts j < 3
     \<and> \<not> locked_capture e (c_id j)"

definition lease_capture :: "cap_env \<Rightarrow> uuid \<Rightarrow> capture_row \<Rightarrow> capture_row" where
  "lease_capture e worker j = j\<lparr>c_status := C_RENDERING, c_lease_owner := Some worker,
     c_lease_gen := c_lease_gen j + 1, c_lease_expires := Some (t_now e + seconds 45),
     c_attempts := c_attempts j + 1, c_started := Some (coalesce (c_started j) (t_now e)),
     c_updated := t_now e\<rparr>"

definition start_recon :: "cap_env \<Rightarrow> nat \<Rightarrow> recon_row \<Rightarrow> recon_row" where
  "start_recon e g r = r\<lparr>r_status := R_RUNNING, r_source_gen := Some g,
     r_started := Some (coalesce (r_started r) (t_now e)), r_finished := None, r_failure_code := None,
     r_updated := t_now e, r_version := r_version r + 1\<rparr>"

definition capture_claim :: "uuid \<Rightarrow> capture_row \<Rightarrow> claimed_job" where
  "capture_claim worker row =
    \<lparr> cl_id = c_id row, cl_owner = c_owner row, cl_scan = c_scan row, cl_page = c_page row,
      cl_corr = c_corr row, cl_payload = c_payload row, cl_lease_owner = worker,
      cl_lease_gen = c_lease_gen row, cl_attempts = c_attempts row \<rparr>"

definition reclaim_captures :: "cap_env \<Rightarrow> cap_db \<Rightarrow> cap_error + cap_db" where
  "reclaim_captures e d = rbind
     (rfold (abandon_capture e ''CAPTURE_RETRIES_EXHAUSTED'' ''Capture lease expired after bounded retries'')
       (map (\<lambda>j. (c_id j, c_owner j, c_corr j)) (exhausted_captures e d)) d)
     (\<lambda>d1. Inr (d1\<lparr>captures := update_where (reclaimable e) (requeue_capture e) (captures d1)\<rparr>))"

definition lease_job :: "cap_env \<Rightarrow> uuid \<Rightarrow> capture_row \<Rightarrow> cap_db \<Rightarrow> cap_error + cap_db" where
  "lease_job e worker c d =
     (let row = lease_capture e worker c;
          d1 = update_capture (c_id c) (lease_capture e worker) d
      in rbind (enqueue e (c_id row) (c_owner row) (c_corr row) (bare_event PH_RUNNING None None) d1)
           (\<lambda>d2. Inr (d2\<lparr>recons := update_where (recon_active (c_id row)) (start_recon e (c_lease_gen row)) (recons d2)\<rparr>)))"

definition claimJob :: "platform \<Rightarrow> cap_env \<Rightarrow> uuid \<Rightarrow> claimed_job option cap_txn" where
  "claimJob K e worker d = rbind (reclaim_captures e d) (\<lambda>d1.
     case first_by (\<lambda>j. (c_available j, c_accepted j, c_id j)) (capture_candidate e) (captures d1) of
       None \<Rightarrow> cap_commit K None d1
     | Some c \<Rightarrow> rbind (lease_job e worker c d1)
         (cap_commit K (Some (capture_claim worker (lease_capture e worker c)))))"

section \<open>Holding, extending and losing a lease\<close>

definition holds_capture :: "claimed_job \<Rightarrow> capture_row \<Rightarrow> bool" where
  "holds_capture t j \<longleftrightarrow> c_id j = cl_id t \<and> c_status j = C_RENDERING
     \<and> c_lease_owner j = Some (cl_lease_owner t) \<and> c_lease_gen j = cl_lease_gen t"

definition extendLease :: "platform \<Rightarrow> cap_env \<Rightarrow> claimed_job \<Rightarrow> bool cap_txn" where
  "extendLease K e t d = cap_commit K (count_where (holds_capture t) (captures d) = 1)
     (d\<lparr>captures := update_where (holds_capture t)
        (\<lambda>j. j\<lparr>c_lease_expires := Some (t_now e + seconds 45), c_updated := t_now e\<rparr>) (captures d)\<rparr>)"

definition postpone_capture :: "cap_env \<Rightarrow> nat \<Rightarrow> string \<Rightarrow> capture_row \<Rightarrow> capture_row" where
  "postpone_capture e attempt code j = j\<lparr>c_status := C_QUEUED, c_lease_owner := None, c_lease_expires := None,
     c_available := t_now e + seconds (backoff_seconds attempt), c_terminal_code := Some code,
     c_updated := t_now e\<rparr>"

definition failJob :: "platform \<Rightarrow> cap_env \<Rightarrow> claimed_job \<Rightarrow> string \<Rightarrow> unit cap_txn" where
  "failJob K e t code d =
     (case find (holds_capture t) (captures d) of
        None \<Rightarrow> Inr ((), d)
      | Some row \<Rightarrow>
          if c_attempts row < 3
          then cap_commit K () (update_capture (cl_id t) (postpone_capture e (c_attempts row) code) d)
          else rbind (abandon_capture e code ''Capture failed after bounded retries'' (cl_id t, cl_owner t, cl_corr t) d)
                 (cap_commit K ()))"

end
