(* ===== verification/Capture_Results.thy ===== *)
theory Capture_Results
  imports Capture_Jobs
begin

text \<open>
  \<open>CaptureDatabase\<close>, what a finished capture leaves in the store: \<open>stageReconstructionArtifacts\<close>,
  \<open>stageResult\<close>, the analytics outbox and the delivery of events.
\<close>

section \<open>Staging the archive\<close>

definition holds_recon :: "claimed_job \<Rightarrow> recon_row \<Rightarrow> bool" where
  "holds_recon t r \<longleftrightarrow> r_job r = cl_id t \<and> r_owner r = cl_owner t \<and> r_status r = R_RUNNING
     \<and> r_source_gen r = Some (cl_lease_gen t)"

definition staged_artifact :: "cap_env \<Rightarrow> claimed_job \<Rightarrow> uuid \<Rightarrow> recon_kind \<Rightarrow> string \<Rightarrow> stored_object \<Rightarrow> recon_artifact" where
  "staged_artifact e t recon kind filename object =
    \<lparr> ra_id = new_artifact e kind, ra_owner = cl_owner t, ra_recon = recon, ra_kind = kind,
      ra_gen = cl_lease_gen t, ra_filename = filename, ra_bucket = so_bucket object, ra_key = so_key object,
      ra_content_type = so_content_type object, ra_bytes = so_bytes object, ra_sha = so_sha object,
      ra_state = A_STAGED, ra_created = t_now e, ra_published = None,
      ra_delete_after = t_now e + minutes 60, ra_deleted = None \<rparr>"

definition stageReconstructionArtifacts ::
  "platform \<Rightarrow> cap_env \<Rightarrow> claimed_job \<Rightarrow> reconstruction_objects \<Rightarrow> unit cap_txn" where
  "stageReconstructionArtifacts K e t objs d =
     (if \<not> (\<exists>j \<in> set (captures d). holds_capture t j) then Inl STALE_CAPTURE_LEASE
      else case find (holds_recon t) (recons d) of
             None \<Rightarrow> Inl STALE_RECONSTRUCTION_LEASE
           | Some r \<Rightarrow> cap_commit K () (d\<lparr>recon_artifacts := recon_artifacts d @
               [staged_artifact e t (r_id r) STATIC_ARCHIVE ''weblens-static-clone.zip'' (ro_archive objs),
                staged_artifact e t (r_id r) RECON_MANIFEST ''manifest.json'' (ro_manifest objs)]\<rparr>))"

section \<open>The result\<close>

definition analytics_body_of :: "platform \<Rightarrow> resource_body \<Rightarrow> analytics_body" where
  "analytics_body_of K r =
    \<lparr> ab_resource_id = rb_resource_id r, ab_sequence = rb_sequence r, ab_url = rb_url r,
      ab_resource_type = rb_resource_type r, ab_mime_type = rb_mime_type r,
      ab_body_bytes = length (rb_body r), ab_body_sha = body_sha K (rb_body r),
      ab_was_truncated = rb_was_truncated r \<rparr>"

definition analytics_payload_of ::
  "platform \<Rightarrow> cap_env \<Rightarrow> claimed_job \<Rightarrow> capture_result \<Rightarrow> (resource_body \<times> stored_object) list \<Rightarrow> analytics_payload" where
  "analytics_payload_of K e t res objs =
    \<lparr> ap_batch = new_batch e, ap_owner = cl_owner t, ap_capture_request = cl_id t, ap_scan = cl_scan t,
      ap_page = cl_page t, ap_record_version = cl_lease_gen t, ap_final_url = cr_final_url res,
      ap_rendered = cr_rendered res, ap_diff = cr_diff res, ap_performance = cr_performance res,
      ap_network = cr_network res, ap_resource_bodies = map (\<lambda>(r, _). analytics_body_of K r) objs,
      ap_browser_version = cr_browser_version res, ap_observed_at = cr_observed_at res,
      ap_total_transfer_bytes = cr_total_transfer_bytes res \<rparr>"

definition expected_count :: "capture_result \<Rightarrow> (resource_body \<times> stored_object) list \<Rightarrow> nat" where
  "expected_count res objs = 1 + length (cr_network res) + length objs"

definition total_objects :: "(resource_body \<times> stored_object) list \<Rightarrow> reconstruction_objects option \<Rightarrow> nat" where
  "total_objects objs recon = 2 + length objs + (if recon = None then 0 else 2)"

definition total_object_bytes ::
  "stored_object \<Rightarrow> stored_object \<Rightarrow> (resource_body \<times> stored_object) list \<Rightarrow> reconstruction_objects option \<Rightarrow> nat" where
  "total_object_bytes html screenshot objs recon =
     so_bytes html + so_bytes screenshot + sum_list (map (\<lambda>(_, x). so_bytes x) objs)
     + (case recon of None \<Rightarrow> 0 | Some r \<Rightarrow> so_bytes (ro_archive r) + so_bytes (ro_manifest r))"

definition snapshot_of ::
  "cap_env \<Rightarrow> claimed_job \<Rightarrow> capture_result \<Rightarrow> stored_object \<Rightarrow> stored_object \<Rightarrow> nat \<Rightarrow> snapshot_row" where
  "snapshot_of e t res html screenshot resources =
    \<lparr> sn_id = new_snapshot e, sn_job = cl_id t, sn_owner = cl_owner t, sn_scan = cl_scan t,
      sn_page = cl_page t, sn_final_url = cr_final_url res,
      sn_viewport_width = pl_viewport_width (cl_payload t),
      sn_viewport_height = pl_viewport_height (cl_payload t),
      sn_measurement_profile = pl_measurement_profile (cl_payload t),
      sn_browser_version = cr_browser_version res, sn_rendered = cr_rendered res, sn_diff = cr_diff res,
      sn_performance = cr_performance res, sn_network_count = length (cr_network res),
      sn_resource_count = resources, sn_transfer_bytes = cr_total_transfer_bytes res,
      sn_bucket = so_bucket html, sn_html_key = so_key html, sn_html_sha = so_sha html,
      sn_html_bytes = so_bytes html, sn_screenshot_key = so_key screenshot,
      sn_screenshot_sha = so_sha screenshot, sn_screenshot_bytes = so_bytes screenshot,
      sn_captured = cr_observed_at res, sn_expires = cr_observed_at res + days 30, sn_created = t_now e \<rparr>"

definition object_of :: "cap_env \<Rightarrow> claimed_job \<Rightarrow> nat \<Rightarrow> resource_body \<times> stored_object \<Rightarrow> object_row" where
  "object_of e t i = (\<lambda>(r, x).
    \<lparr> ob_id = new_object e i, ob_job = cl_id t, ob_resource = rb_resource_id r, ob_ordinal = i,
      ob_bucket = so_bucket x, ob_key = so_key x,
      ob_content_type = (if so_content_type x = [] then ''application/octet-stream'' else so_content_type x),
      ob_bytes = so_bytes x, ob_sha = so_sha x, ob_delete_after = t_now e + days 7, ob_created = t_now e \<rparr>)"

text \<open>Which staged artifacts are the objects the worker has uploaded, and stay for a while.\<close>

definition same_object :: "stored_object \<Rightarrow> recon_artifact \<Rightarrow> bool" where
  "same_object x a \<longleftrightarrow> ra_bucket a = so_bucket x \<and> ra_key a = so_key x
     \<and> ra_content_type a = so_content_type x \<and> ra_bytes a = so_bytes x \<and> ra_sha a = so_sha x"

definition staged_of :: "claimed_job \<Rightarrow> uuid \<Rightarrow> recon_artifact \<Rightarrow> bool" where
  "staged_of t recon a \<longleftrightarrow> ra_recon a = recon \<and> ra_owner a = cl_owner t \<and> ra_gen a = cl_lease_gen t
     \<and> ra_state a = A_STAGED"

definition publishable :: "cap_env \<Rightarrow> claimed_job \<Rightarrow> uuid \<Rightarrow> reconstruction_objects \<Rightarrow> recon_artifact \<Rightarrow> bool" where
  "publishable e t recon objs a \<longleftrightarrow> staged_of t recon a \<and> t_now e + minutes 5 < ra_delete_after a
     \<and> ((ra_kind a = STATIC_ARCHIVE \<and> same_object (ro_archive objs) a)
      \<or> (ra_kind a = RECON_MANIFEST \<and> same_object (ro_manifest objs) a))"

definition publish_artifact :: "cap_env \<Rightarrow> recon_artifact \<Rightarrow> recon_artifact" where
  "publish_artifact e a = a\<lparr>ra_state := A_PUBLISHED, ra_published := Some (t_now e),
     ra_delete_after := t_now e + days 7\<rparr>"

text \<open>
  Whether the artifacts were published, and the store after the attempt. \<open>build.archiveBytes\<close> is
  falsy when it is null or 0.
\<close>

definition publish_recon ::
  "cap_env \<Rightarrow> claimed_job \<Rightarrow> uuid \<Rightarrow> reconstruction_build \<Rightarrow> reconstruction_objects option \<Rightarrow> cap_db \<Rightarrow> bool \<times> cap_db" where
  "publish_recon e t recon build objs d =
     (case objs of
        None \<Rightarrow> (False, d)
      | Some xs \<Rightarrow>
          if bd_status build \<noteq> BUILD_FAILED \<and> bd_archive_bytes build \<notin> {None, Some 0}
             \<and> count_where (publishable e t recon xs) (recon_artifacts d) = 2
          then (count_where (staged_of t recon) (recon_artifacts d) = 2,
                d\<lparr>recon_artifacts := update_where (staged_of t recon) (publish_artifact e) (recon_artifacts d)\<rparr>)
          else (False, d))"

definition terminal_status :: "bool \<Rightarrow> reconstruction_build \<Rightarrow> recon_status" where
  "terminal_status published build =
     (if published then (case bd_status build of BUILD_PUBLISHED \<Rightarrow> R_PUBLISHED | BUILD_PARTIAL \<Rightarrow> R_PARTIAL
        | BUILD_FAILED \<Rightarrow> R_FAILED) else R_FAILED)"

definition failure_code :: "recon_status \<Rightarrow> reconstruction_build \<Rightarrow> reconstruction_objects option \<Rightarrow> string option" where
  "failure_code status build objs =
     (if status = R_FAILED
      then Some (coalesce (bd_failure_code build)
             (if objs = None then ''CLONE_ARTIFACT_UPLOAD_FAILED'' else ''CLONE_ARTIFACT_STAGE_INCOMPLETE''))
      else None)"

definition finish_recon ::
  "cap_env \<Rightarrow> recon_status \<Rightarrow> reconstruction_build \<Rightarrow> reconstruction_objects option \<Rightarrow> recon_row \<Rightarrow> recon_row" where
  "finish_recon e status build objs r = r\<lparr>r_snapshot := Some (new_snapshot e), r_status := status,
     r_discovered := bd_discovered build, r_packaged := bd_packaged build, r_skipped := bd_skipped build,
     r_input_bytes := bd_input_bytes build,
     r_archive_bytes := (if status = R_FAILED then None else map_option (\<lambda>x. so_bytes (ro_archive x)) objs),
     r_completeness_code := (if status = R_FAILED then None else bd_completeness_code build),
     r_failure_code := failure_code status build objs,
     r_finished := Some (t_now e), r_updated := t_now e, r_version := r_version r + 1\<rparr>"

definition settle_recon ::
  "cap_env \<Rightarrow> claimed_job \<Rightarrow> reconstruction_build \<Rightarrow> reconstruction_objects option \<Rightarrow> cap_db \<Rightarrow> cap_db" where
  "settle_recon e t build objs d =
     (case find (holds_recon t) (recons d) of
        None \<Rightarrow> d
      | Some r \<Rightarrow>
          (let (published, d1) = publish_recon e t (r_id r) build objs d;
               status = terminal_status published build
           in d1\<lparr>recons := update_where (\<lambda>x. r_id x = r_id r) (finish_recon e status build objs) (recons d1)\<rparr>))"

definition analytics_of :: "platform \<Rightarrow> cap_env \<Rightarrow> claimed_job \<Rightarrow> analytics_payload \<Rightarrow> analytics_row" where
  "analytics_of K e t p =
    \<lparr> o_message_id = ap_batch p, o_status = PENDING, o_available = t_now e, o_attempts = 0,
      o_lease_owner = None, o_lease_expires = None, o_delivered = None, o_last_error = None,
      o_created = t_now e, an_job = cl_id t, an_owner = cl_owner t, an_result_version = cl_lease_gen t,
      an_payload = Some p, an_payload_sha = json_sha K p, an_updated = t_now e \<rparr>"

definition persist_capture :: "cap_env \<Rightarrow> nat \<Rightarrow> nat \<Rightarrow> nat \<Rightarrow> capture_row \<Rightarrow> capture_row" where
  "persist_capture e expected n bytes j = j\<lparr>c_status := C_PERSISTING, c_lease_owner := None, c_lease_expires := None,
     c_expected := expected, c_published := 0, c_object_count := n, c_object_bytes := bytes,
     c_updated := t_now e\<rparr>"

definition indexing_event :: "nat \<Rightarrow> nat \<Rightarrow> nat \<Rightarrow> event_body" where
  "indexing_event expected n bytes = \<lparr> eb_status = PH_INDEXING, eb_expected = expected, eb_published = 0,
     eb_object_count = n, eb_object_bytes = bytes, eb_terminal_code = None, eb_terminal_message = None \<rparr>"

definition stageResult ::
  "platform \<Rightarrow> cap_env \<Rightarrow> claimed_job \<Rightarrow> capture_result \<Rightarrow> stored_object \<Rightarrow> stored_object
    \<Rightarrow> (resource_body \<times> stored_object) list \<Rightarrow> reconstruction_objects option \<Rightarrow> unit cap_txn" where
  "stageResult K e t res html screenshot objs recon d =
     (let payload = analytics_payload_of K e t res objs;
          expected = expected_count res objs;
          n = total_objects objs recon;
          bytes = total_object_bytes html screenshot objs recon
      in if 8388608 < json_bytes K payload then Inl ANALYTICS_PAYLOAD_TOO_LARGE
         else if \<not> (\<exists>j \<in> set (captures d). holds_capture t j) then Inl STALE_CAPTURE_LEASE
         else
           (let d1 = d\<lparr>snapshots := snapshots d @ [snapshot_of e t res html screenshot (length objs)],
                       object_refs := object_refs d @ map (\<lambda>i. object_of e t i (objs ! i)) [0..<length objs]\<rparr>;
                d2 = settle_recon e t (cr_reconstruction res) recon d1;
                d3 = d2\<lparr>analytics := analytics d2 @ [analytics_of K e t payload]\<rparr>;
                d4 = update_capture (cl_id t) (persist_capture e expected n bytes) d3
            in rbind (enqueue e (cl_id t) (cl_owner t) (cl_corr t) (indexing_event expected n bytes) d4)
                 (cap_commit K ())))"

section \<open>Publishing the analytics\<close>

definition claimAnalytics :: "platform \<Rightarrow> cap_env \<Rightarrow> uuid \<Rightarrow> claimed_outbox option cap_txn" where
  "claimAnalytics K e worker d =
     (let (r, rows) = claim_delivery (t_now e) (locked_analytics e) worker (analytics d)
      in cap_commit K
           (map_option (\<lambda>x. \<lparr> co_id = o_message_id x, co_job = an_job x, co_owner = an_owner x,
              co_payload = an_payload x, co_payload_sha = an_payload_sha x, co_lease_owner = worker \<rparr>) r)
           (d\<lparr>analytics := update_where
              (\<lambda>x. map_option o_message_id r = Some (o_message_id x)) (\<lambda>x. x\<lparr>an_updated := t_now e\<rparr>) rows\<rparr>))"

definition deliver_analytics :: "time \<Rightarrow> analytics_row \<Rightarrow> analytics_row" where
  "deliver_analytics t x = (deliver_row t x)\<lparr>an_payload := None, an_updated := t\<rparr>"

definition complete_capture :: "cap_env \<Rightarrow> capture_row \<Rightarrow> capture_row" where
  "complete_capture e j = j\<lparr>c_status := C_COMPLETED, c_published := c_expected j,
     c_finished := Some (t_now e), c_updated := t_now e\<rparr>"

definition completed_event :: "capture_row \<Rightarrow> event_body" where
  "completed_event row = \<lparr> eb_status = PH_COMPLETED, eb_expected = c_expected row, eb_published = c_expected row,
     eb_object_count = c_object_count row, eb_object_bytes = c_object_bytes row,
     eb_terminal_code = None, eb_terminal_message = None \<rparr>"

definition completeAnalytics :: "platform \<Rightarrow> cap_env \<Rightarrow> claimed_outbox \<Rightarrow> unit cap_txn" where
  "completeAnalytics K e o' d =
     (if \<not> (\<exists>x \<in> set (analytics d). claimed_by (co_id o') (co_lease_owner o') x) then Inl STALE_ANALYTICS_LEASE
      else
        (let d1 = d\<lparr>analytics := update_where (claimed_by (co_id o') (co_lease_owner o'))
                   (deliver_analytics (t_now e)) (analytics d)\<rparr>
         in case find (\<lambda>j. c_id j = co_job o' \<and> c_status j = C_PERSISTING) (captures d1) of
              None \<Rightarrow> Inl CAPTURE_JOB_NOT_PERSISTING
            | Some row \<Rightarrow> rbind (enqueue e (co_job o') (c_owner row) (c_corr row) (completed_event row)
                  (update_capture (co_job o') (complete_capture e) d1))
                (cap_commit K ())))"

definition retryAnalytics :: "platform \<Rightarrow> cap_env \<Rightarrow> claimed_outbox \<Rightarrow> string \<Rightarrow> unit cap_txn" where
  "retryAnalytics K e o' code d = cap_commit K ()
     (d\<lparr>analytics := update_where (claimed_by (co_id o') (co_lease_owner o'))
        (\<lambda>x. (requeue_row (hashtext K) (t_now e) code x)\<lparr>an_updated := t_now e\<rparr>) (analytics d)\<rparr>)"

section \<open>Publishing the events\<close>

definition claimCaptureEvent :: "platform \<Rightarrow> cap_env \<Rightarrow> uuid \<Rightarrow> claimed_cap_event option cap_txn" where
  "claimCaptureEvent K e worker d =
     (let (r, rows) = claim_delivery (t_now e) (locked_cap_event e) worker (cap_events d)
      in cap_commit K (map_option (\<lambda>x. \<lparr> ck_message_id = o_message_id x, ck_payload = e_payload x,
           ck_lease_owner = worker \<rparr>) r) (d\<lparr>cap_events := rows\<rparr>))"

definition completeCaptureEvent :: "platform \<Rightarrow> cap_env \<Rightarrow> claimed_cap_event \<Rightarrow> unit cap_txn" where
  "completeCaptureEvent K e ev d = cap_commit K ()
     (d\<lparr>cap_events := complete_delivery (t_now e) (ck_message_id ev) (ck_lease_owner ev) (cap_events d)\<rparr>)"

definition retryCaptureEvent :: "platform \<Rightarrow> cap_env \<Rightarrow> claimed_cap_event \<Rightarrow> string \<Rightarrow> unit cap_txn" where
  "retryCaptureEvent K e ev code d = cap_commit K ()
     (d\<lparr>cap_events := retry_delivery (hashtext K) (t_now e) (ck_message_id ev) (ck_lease_owner ev) code (cap_events d)\<rparr>)"

end
