(* ===== verification/Capture_Reads.thy ===== *)
theory Capture_Reads
  imports Capture_Results
begin

text \<open>
  \<open>CaptureDatabase\<close>, what the HTTP server reads (\<open>getSnapshot\<close>, \<open>getReconstruction\<close> and the references to
  stored objects) and the removal of expired archives.
\<close>

section \<open>Reading\<close>

definition source_archive :: "recon_row \<Rightarrow> recon_artifact \<Rightarrow> bool" where
  "source_archive r a \<longleftrightarrow> ra_recon a = r_id r \<and> ra_kind a = STATIC_ARCHIVE \<and> r_source_gen r = Some (ra_gen a)"

text \<open>The reconstruction columns the two queries share, from the left join with the archive.\<close>

record recon_view =
  rv_reconstruction :: uuid
  rv_status :: recon_status
  rv_engine_version :: string
  rv_packaged :: nat
  rv_skipped :: nat
  rv_archive_bytes :: "nat option"
  rv_completeness_code :: "string option"
  rv_failure_code :: "string option"
  rv_expires_at :: "time option"
  rv_download_available :: bool

definition reported_status :: "cap_env \<Rightarrow> recon_row \<Rightarrow> recon_artifact option \<Rightarrow> recon_status" where
  "reported_status e r archive =
     (case archive of
        None \<Rightarrow> r_status r
      | Some a \<Rightarrow> if r_status r \<in> {R_PUBLISHED, R_PARTIAL}
            \<and> (ra_state a \<in> {A_DELETE_PENDING, A_DELETED} \<or> ra_delete_after a \<le> t_now e)
          then R_EXPIRED else r_status r)"

definition recon_view_of :: "cap_env \<Rightarrow> cap_db \<Rightarrow> recon_row \<Rightarrow> recon_view" where
  "recon_view_of e d r =
     (let archive = find (source_archive r) (recon_artifacts d)
      in \<lparr> rv_reconstruction = r_id r, rv_status = reported_status e r archive,
           rv_engine_version = r_engine_version r, rv_packaged = r_packaged r, rv_skipped = r_skipped r,
           rv_archive_bytes = r_archive_bytes r, rv_completeness_code = r_completeness_code r,
           rv_failure_code = r_failure_code r, rv_expires_at = map_option ra_delete_after archive,
           rv_download_available = (case archive of None \<Rightarrow> False
             | Some a \<Rightarrow> ra_state a = A_PUBLISHED \<and> t_now e < ra_delete_after a) \<rparr>)"

definition getReconstruction :: "cap_env \<Rightarrow> uuid \<Rightarrow> uuid \<Rightarrow> cap_db \<Rightarrow> recon_view option" where
  "getReconstruction e owner captureId d =
     map_option (recon_view_of e d) (find (\<lambda>r. r_job r = captureId \<and> r_owner r = owner) (recons d))"

definition getSnapshot ::
  "cap_env \<Rightarrow> uuid \<Rightarrow> uuid \<Rightarrow> cap_db \<Rightarrow> (capture_row \<times> snapshot_row option \<times> recon_view option) option" where
  "getSnapshot e owner captureId d =
     map_option (\<lambda>j. (j, find (\<lambda>s. sn_job s = c_id j) (snapshots d),
         map_option (recon_view_of e d) (find (\<lambda>r. r_job r = c_id j) (recons d))))
       (find (\<lambda>j. c_id j = captureId \<and> c_owner j = owner) (captures d))"

record object_reference =
  or_bucket :: string
  or_key :: string
  or_bytes :: nat
  or_sha :: digest
  or_expires_at :: time

record artifact_reference = object_reference +
  or_state :: artifact_state

record resource_reference = object_reference +
  or_content_type :: string

definition getReconstructionArchiveReference :: "uuid \<Rightarrow> uuid \<Rightarrow> cap_db \<Rightarrow> artifact_reference option" where
  "getReconstructionArchiveReference owner recon d =
     map_option (\<lambda>a. \<lparr> or_bucket = ra_bucket a, or_key = ra_key a, or_bytes = ra_bytes a, or_sha = ra_sha a,
         or_expires_at = ra_delete_after a, or_state = ra_state a \<rparr>)
       (find (\<lambda>a. ra_recon a = recon \<and> ra_owner a = owner \<and> ra_kind a = STATIC_ARCHIVE
            \<and> (\<exists>r \<in> set (recons d). r_id r = ra_recon a \<and> r_owner r = ra_owner a
                 \<and> r_source_gen r = Some (ra_gen a) \<and> r_status r \<in> {R_PUBLISHED, R_PARTIAL, R_EXPIRED}))
          (recon_artifacts d))"

definition getScreenshotReference :: "uuid \<Rightarrow> uuid \<Rightarrow> cap_db \<Rightarrow> object_reference option" where
  "getScreenshotReference owner captureId d =
     map_option (\<lambda>s. \<lparr> or_bucket = sn_bucket s, or_key = sn_screenshot_key s, or_bytes = sn_screenshot_bytes s,
         or_sha = sn_screenshot_sha s, or_expires_at = sn_expires s \<rparr>)
       (find (\<lambda>s. sn_job s = captureId \<and> sn_owner s = owner) (snapshots d))"

definition getResourceReference :: "uuid \<Rightarrow> uuid \<Rightarrow> uuid \<Rightarrow> cap_db \<Rightarrow> resource_reference option" where
  "getResourceReference owner captureId resourceId d =
     map_option (\<lambda>x. \<lparr> or_bucket = ob_bucket x, or_key = ob_key x, or_bytes = ob_bytes x, or_sha = ob_sha x,
         or_expires_at = ob_delete_after x, or_content_type = ob_content_type x \<rparr>)
       (find (\<lambda>x. ob_job x = captureId \<and> ob_resource x = resourceId
            \<and> (\<exists>j \<in> set (captures d). c_id j = ob_job x \<and> c_owner j = owner)) (object_refs d))"

section \<open>Removing expired archives\<close>

definition recon_artifact_due :: "cap_env \<Rightarrow> recon_artifact \<Rightarrow> bool" where
  "recon_artifact_due e a \<longleftrightarrow> ra_state a \<in> {A_STAGED, A_PUBLISHED, A_DELETE_PENDING}
     \<and> ra_delete_after a \<le> t_now e \<and> \<not> locked_recon_artifact e (ra_id a)"

definition mark_recon_artifact :: "cap_env \<Rightarrow> recon_artifact \<Rightarrow> recon_artifact" where
  "mark_recon_artifact e a = a\<lparr>ra_state := (if ra_state a = A_STAGED then A_STAGED else A_DELETE_PENDING),
     ra_delete_after := t_now e + seconds 30\<rparr>"

definition recon_artifact_claim :: "recon_artifact \<Rightarrow> claimed_recon_artifact" where
  "recon_artifact_claim a = \<lparr> cg_id = ra_id a, cg_recon = ra_recon a, cg_kind = ra_kind a,
     cg_object = \<lparr> so_bucket = ra_bucket a, so_key = ra_key a, so_bytes = ra_bytes a, so_sha = ra_sha a,
       so_content_type = ra_content_type a \<rparr> \<rparr>"

definition claimReconArtifact :: "platform \<Rightarrow> cap_env \<Rightarrow> claimed_recon_artifact option cap_txn" where
  "claimReconArtifact K e d =
     (case first_by (\<lambda>a. (ra_delete_after a, ra_id a)) (recon_artifact_due e) (recon_artifacts d) of
        None \<Rightarrow> cap_commit K None d
      | Some a \<Rightarrow> cap_commit K (Some (recon_artifact_claim a))
          (d\<lparr>recon_artifacts := update_where (\<lambda>x. ra_id x = ra_id a) (mark_recon_artifact e) (recon_artifacts d)\<rparr>))"

definition deletable_recon_artifact :: "claimed_recon_artifact \<Rightarrow> recon_artifact \<Rightarrow> bool" where
  "deletable_recon_artifact g a \<longleftrightarrow> ra_id a = cg_id g \<and> ra_recon a = cg_recon g
     \<and> ra_state a \<in> {A_STAGED, A_DELETE_PENDING}"

definition expire_recon :: "cap_env \<Rightarrow> recon_row \<Rightarrow> recon_row" where
  "expire_recon e r = r\<lparr>r_status := R_EXPIRED, r_updated := t_now e, r_version := r_version r + 1\<rparr>"

definition completeReconArtifact :: "platform \<Rightarrow> cap_env \<Rightarrow> claimed_recon_artifact \<Rightarrow> unit cap_txn" where
  "completeReconArtifact K e g d =
     (if \<not> (\<exists>a \<in> set (recon_artifacts d). deletable_recon_artifact g a) then Inl STALE_RECONSTRUCTION_GC_CLAIM
      else
        (let d1 = d\<lparr>recon_artifacts := update_where (deletable_recon_artifact g)
               (\<lambda>a. a\<lparr>ra_state := A_DELETED, ra_deleted := Some (t_now e)\<rparr>) (recon_artifacts d)\<rparr>
         in cap_commit K ()
              (if cg_kind g = STATIC_ARCHIVE
               then d1\<lparr>recons := update_where (\<lambda>r. r_id r = cg_recon g \<and> r_status r \<in> {R_PUBLISHED, R_PARTIAL})
                      (expire_recon e) (recons d1)\<rparr>
               else d1)))"

definition retryReconArtifact :: "platform \<Rightarrow> cap_env \<Rightarrow> claimed_recon_artifact \<Rightarrow> unit cap_txn" where
  "retryReconArtifact K e g d = cap_commit K ()
     (d\<lparr>recon_artifacts := update_where (deletable_recon_artifact g)
        (\<lambda>a. a\<lparr>ra_delete_after := t_now e + minutes 1\<rparr>) (recon_artifacts d)\<rparr>)"

end
