(* ===== verification/Capture_Invariant.thy ===== *)
theory Capture_Invariant
  imports Capture_Reads
begin

text \<open>
  What holds of the capture store between transactions. A job, its reconstruction, its analytics
  batch, its snapshot and its events are rows of five tables that move together; the invariant says
  how the status of the job determines the others, and when an archive backs a reconstruction.
\<close>

section \<open>The rows of one job\<close>

definition recons_of :: "uuid \<Rightarrow> cap_db \<Rightarrow> recon_row list" where
  "recons_of i d = filter (\<lambda>r. r_job r = i) (recons d)"

definition batches_of :: "uuid \<Rightarrow> cap_db \<Rightarrow> bool list" where
  "batches_of i d = map (\<lambda>x. o_status x = DELIVERED) (filter (\<lambda>x. an_job x = i) (analytics d))"

definition snapshots_of :: "uuid \<Rightarrow> cap_db \<Rightarrow> snapshot_row list" where
  "snapshots_of i d = filter (\<lambda>s. sn_job s = i) (snapshots d)"

definition versions_of :: "uuid \<Rightarrow> cap_db \<Rightarrow> nat list" where
  "versions_of i d = map e_version (filter (\<lambda>x. e_job x = i) (cap_events d))"

lemmas slice_defs = recons_of_def batches_of_def snapshots_of_def versions_of_def

section \<open>The invariant\<close>

definition recon_follows :: "capture_row \<Rightarrow> recon_row \<Rightarrow> bool" where
  "recon_follows j r \<longleftrightarrow> r_owner r = c_owner j \<and> all_opt (\<lambda>g. g \<le> c_lease_gen j) (r_source_gen r)
     \<and> (case c_status j of
          C_QUEUED \<Rightarrow> r_status r \<in> {R_QUEUED, R_RUNNING}
        | C_RENDERING \<Rightarrow> r_status r = R_RUNNING \<and> r_source_gen r = Some (c_lease_gen j)
        | C_FAILED \<Rightarrow> r_status r = R_FAILED
        | _ \<Rightarrow> r_status r \<in> {R_PUBLISHED, R_PARTIAL, R_FAILED, R_EXPIRED} \<and> r_source_gen r = Some (c_lease_gen j))"

definition batches_for :: "capture_status \<Rightarrow> bool list" where
  "batches_for s = (case s of C_PERSISTING \<Rightarrow> [False] | C_COMPLETED \<Rightarrow> [True] | _ \<Rightarrow> [])"

definition capture_ok :: "cap_db \<Rightarrow> capture_row \<Rightarrow> bool" where
  "capture_ok d j \<longleftrightarrow> (\<exists>r. recons_of (c_id j) d = [r] \<and> recon_follows j r)
     \<and> batches_of (c_id j) d = batches_for (c_status j)
     \<and> length (snapshots_of (c_id j) d) = length (batches_for (c_status j))
     \<and> versions_of (c_id j) d = [1..<Suc (c_event_version j)]
     \<and> c_lease_gen j = c_attempts j
     \<and> c_published j = (if c_status j = C_COMPLETED then c_expected j else 0)
     \<and> (c_status j \<in> {C_PERSISTING, C_COMPLETED} \<longrightarrow> 0 < c_attempts j)"

text \<open>A published reconstruction has its archive, and only the source generation is ever published.\<close>

definition backed :: "cap_db \<Rightarrow> recon_row \<Rightarrow> bool" where
  "backed d r \<longleftrightarrow> (r_status r \<in> {R_PUBLISHED, R_PARTIAL} \<longrightarrow>
     (\<exists>a \<in> set (recon_artifacts d). source_archive r a \<and> ra_owner a = r_owner r
        \<and> ra_state a \<in> {A_PUBLISHED, A_DELETE_PENDING} \<and> r_archive_bytes r = Some (ra_bytes a)))"

definition artifact_ok :: "cap_db \<Rightarrow> recon_artifact \<Rightarrow> bool" where
  "artifact_ok d a \<longleftrightarrow> (\<exists>r \<in> set (recons d). r_id r = ra_recon a
     \<and> (ra_state a \<in> {A_PUBLISHED, A_DELETE_PENDING} \<longrightarrow>
          r_source_gen r = Some (ra_gen a) \<and> r_status r \<in> {R_PUBLISHED, R_PARTIAL, R_EXPIRED}))"

definition cap_core :: "cap_db \<Rightarrow> bool" where
  "cap_core d \<longleftrightarrow> distinct (map c_id (captures d)) \<and> distinct (map r_id (recons d))
     \<and> distinct (map ra_id (recon_artifacts d)) \<and> distinct (map generation_key (recon_artifacts d))
     \<and> (\<forall>j \<in> set (captures d). capture_ok d j)
     \<and> (\<forall>r \<in> set (recons d). backed d r)
     \<and> (\<forall>a \<in> set (recon_artifacts d). artifact_ok d a)"

definition cap_inv :: "platform \<Rightarrow> cap_db \<Rightarrow> bool" where
  "cap_inv K d \<longleftrightarrow> cap_schema_ok (jsonb_bytes K) d \<and> cap_core d"

section \<open>Histories\<close>

inductive capture_next :: "capture_status \<Rightarrow> capture_status \<Rightarrow> bool" where
  "capture_next C_QUEUED C_RENDERING"
| "capture_next C_RENDERING C_QUEUED"
| "capture_next C_RENDERING C_FAILED"
| "capture_next C_RENDERING C_PERSISTING"
| "capture_next C_PERSISTING C_COMPLETED"

inductive_simps from_ended: "capture_next C_COMPLETED s" "capture_next C_FAILED s"

inductive recon_next :: "recon_status \<Rightarrow> recon_status \<Rightarrow> bool" where
  "recon_next R_QUEUED R_RUNNING"
| "recon_next R_QUEUED R_FAILED"
| "recon_next R_RUNNING R_FAILED"
| "recon_next R_RUNNING R_PUBLISHED"
| "recon_next R_RUNNING R_PARTIAL"
| "recon_next R_PUBLISHED R_EXPIRED"
| "recon_next R_PARTIAL R_EXPIRED"

abbreviation capture_path :: "capture_status \<Rightarrow> capture_status \<Rightarrow> bool" where
  "capture_path \<equiv> capture_next\<^sup>*\<^sup>*"

abbreviation recon_path :: "recon_status \<Rightarrow> recon_status \<Rightarrow> bool" where
  "recon_path \<equiv> recon_next\<^sup>*\<^sup>*"

lemma capture_path_ended: "capture_path s t \<Longrightarrow> s \<in> {C_COMPLETED, C_FAILED} \<Longrightarrow> t = s"
  by (induction rule: rtranclp_induct) (auto simp: from_ended)

definition capture_evolves :: "capture_row \<Rightarrow> capture_row \<Rightarrow> bool" where
  "capture_evolves j k \<longleftrightarrow>
     (c_id k, c_command_message_id k, c_command_sha k, c_owner k, c_scan k, c_page k, c_corr k, c_target_url k, c_payload k)
       = (c_id j, c_command_message_id j, c_command_sha j, c_owner j, c_scan j, c_page j, c_corr j, c_target_url j, c_payload j)
   \<and> capture_path (c_status j) (c_status k)
   \<and> c_lease_gen j \<le> c_lease_gen k \<and> c_event_version j \<le> c_event_version k
   \<and> (0 < c_lease_gen j \<and> c_lease_gen k = c_lease_gen j \<longrightarrow> c_lease_owner k = None \<or> c_lease_owner k = c_lease_owner j)"

definition recon_evolves :: "recon_row \<Rightarrow> recon_row \<Rightarrow> bool" where
  "recon_evolves r s \<longleftrightarrow> (r_id s, r_owner s, r_job s, r_engine_version s) = (r_id r, r_owner r, r_job r, r_engine_version r)
     \<and> recon_path (r_status r) (r_status s) \<and> r_version r \<le> r_version s"

definition cap_evolves :: "cap_db \<Rightarrow> cap_db \<Rightarrow> bool" where
  "cap_evolves d d' \<longleftrightarrow> rows_evolve capture_evolves (captures d) (captures d')
     \<and> rows_evolve recon_evolves (recons d) (recons d')"

lemma capture_evolves_refl: "capture_evolves j j"
  by (simp add: capture_evolves_def)

lemma capture_evolves_trans: "capture_evolves j k \<Longrightarrow> capture_evolves k l \<Longrightarrow> capture_evolves j l"
proof -
  assume 1: "capture_evolves j k" and 2: "capture_evolves k l"
  have "c_lease_owner l = None \<or> c_lease_owner l = c_lease_owner j" if g: "0 < c_lease_gen j" "c_lease_gen l = c_lease_gen j"
  proof -
    from 1 2 g have "c_lease_gen k = c_lease_gen j" unfolding capture_evolves_def by linarith
    with 1 2 g show ?thesis unfolding capture_evolves_def by metis
  qed
  moreover from 1 2 have "capture_path (c_status j) (c_status l)"
    unfolding capture_evolves_def by (blast intro: rtranclp_trans)
  moreover from 1 2 have "c_lease_gen j \<le> c_lease_gen l" "c_event_version j \<le> c_event_version l"
    unfolding capture_evolves_def by linarith+
  ultimately show ?thesis using 1 2 unfolding capture_evolves_def by simp
qed

lemma recon_evolves_refl: "recon_evolves r r"
  by (simp add: recon_evolves_def)

lemma recon_evolves_trans: "recon_evolves r s \<Longrightarrow> recon_evolves s t \<Longrightarrow> recon_evolves r t"
proof -
  assume 1: "recon_evolves r s" and 2: "recon_evolves s t"
  then have "recon_path (r_status r) (r_status t)" "r_version r \<le> r_version t"
    unfolding recon_evolves_def by (blast intro: rtranclp_trans, linarith)
  with 1 2 show ?thesis unfolding recon_evolves_def by simp
qed

lemma cap_evolves_refl: "cap_evolves d d"
  by (simp add: cap_evolves_def rows_evolve_refl capture_evolves_refl recon_evolves_refl)

lemma cap_evolves_trans: "cap_evolves d d' \<Longrightarrow> cap_evolves d' d'' \<Longrightarrow> cap_evolves d d''"
  unfolding cap_evolves_def
  by (elim conjE, intro conjI)
    (erule (1) rows_evolve_trans [rotated], erule (1) capture_evolves_trans recon_evolves_trans)+

section \<open>Frames\<close>

text \<open>An update that keeps a key commutes with the selection by that key.\<close>

lemma filter_update_where:
  "(\<And>x. Q (f x) = Q x) \<Longrightarrow> filter Q (update_where P f rows) = update_where P f (filter Q rows)"
  by (induction rows) auto

lemma update_where_map: "(\<And>x. x \<in> set rows \<Longrightarrow> P x \<Longrightarrow> g (f x) = g x) \<Longrightarrow> map g (update_where P f rows) = map g rows"
  by (induction rows) auto

lemma capture_ok_frame:
  assumes "recons_of (c_id j) d' = recons_of (c_id j) d" "batches_of (c_id j) d' = batches_of (c_id j) d"
    "snapshots_of (c_id j) d' = snapshots_of (c_id j) d" "versions_of (c_id j) d' = versions_of (c_id j) d"
  shows "capture_ok d' j = capture_ok d j"
  by (simp add: capture_ok_def assms)

text \<open>A transaction on one job: what it must show for the invariant of all jobs.\<close>

lemma captures_ok_local:
  assumes ok: "\<forall>j \<in> set (captures d). capture_ok d j"
    and upd: "captures d' = update_where (\<lambda>j. c_id j = i) f (captures d)"
    and frame: "\<And>k. k \<noteq> i \<Longrightarrow> recons_of k d' = recons_of k d \<and> batches_of k d' = batches_of k d
      \<and> snapshots_of k d' = snapshots_of k d \<and> versions_of k d' = versions_of k d"
    and own: "\<And>j. j \<in> set (captures d) \<Longrightarrow> c_id j = i \<Longrightarrow> capture_ok d j \<Longrightarrow> capture_ok d' (f j)"
  shows "\<forall>j \<in> set (captures d'). capture_ok d' j"
proof
  fix j' assume "j' \<in> set (captures d')"
  then obtain j where j: "j \<in> set (captures d)" "j' = (if c_id j = i then f j else j)"
    unfolding upd by (rule in_update_whereE)
  show "capture_ok d' j'"
  proof (cases "c_id j = i")
    case True
    with j ok own show ?thesis by simp
  next
    case False
    with frame [OF this] have "capture_ok d' j = capture_ok d j" by (intro capture_ok_frame) simp_all
    with False j ok show ?thesis by simp
  qed
qed

lemma capture_unique:
  "distinct (map c_id (captures d)) \<Longrightarrow> j \<in> set (captures d) \<Longrightarrow> k \<in> set (captures d) \<Longrightarrow> c_id j = c_id k \<Longrightarrow> j = k"
  by (rule distinct_key_unique)

lemma find_capture_Some: "find_capture i d = Some j \<Longrightarrow> j \<in> set (captures d) \<and> c_id j = i"
  by (auto simp: find_capture_def find_Some_iff)

lemma find_capture_eq:
  assumes "distinct (map c_id (captures d))" "j \<in> set (captures d)"
  shows "find_capture (c_id j) d = Some j"
proof (cases "find_capture (c_id j) d")
  case None
  with assms show ?thesis by (auto simp: find_capture_def find_None_iff)
next
  case (Some k)
  with find_capture_Some [OF Some] assms capture_unique show ?thesis by metis
qed

lemma update_capture_simps [simp]:
  "captures (update_capture i f d) = update_where (\<lambda>j. c_id j = i) f (captures d)"
  "snapshots (update_capture i f d) = snapshots d"
  "object_refs (update_capture i f d) = object_refs d"
  "analytics (update_capture i f d) = analytics d"
  "cap_events (update_capture i f d) = cap_events d"
  "recons (update_capture i f d) = recons d"
  "recon_artifacts (update_capture i f d) = recon_artifacts d"
  by (simp_all add: update_capture_def)

lemma find_update_where:
  "(\<And>j. key (f j) = key j) \<Longrightarrow> find (\<lambda>j. key j = i) (update_where P f rows)
     = map_option (\<lambda>j. if P j then f j else j) (find (\<lambda>j. key j = i) rows)"
  by (induction rows) auto

text \<open>What \<open>enqueue\<close> does to the store.\<close>

lemma enqueue_Inr:
  assumes ok: "enqueue e i owner corr b d = Inr d'" and dist: "distinct (map c_id (captures d))"
  obtains j where "j \<in> set (captures d)" "c_id j = i"
    "d' = (update_capture i (next_event e) d)\<lparr>cap_events := cap_events d @
       [cap_event e i owner corr (c_event_version j + 1) b]\<rparr>"
proof -
  have "find_capture i (update_capture i (next_event e) d) = map_option (\<lambda>j. if c_id j = i then next_event e j else j) (find_capture i d)"
    unfolding find_capture_def update_capture_simps by (rule find_update_where) (simp add: next_event_def)
  with ok obtain j where j: "find_capture i d = Some j"
    "d' = (update_capture i (next_event e) d)\<lparr>cap_events := cap_events d @
       [cap_event e i owner corr (c_event_version j + 1) b]\<rparr>"
    by (cases "find_capture i d") (auto simp: enqueue_def next_event_def dest: find_capture_Some)
  with find_capture_Some [OF j(1)] that show thesis by blast
qed

lemma cap_event_simps [simp]:
  "e_job (cap_event e i owner corr v b) = i" "e_version (cap_event e i owner corr v b) = v"
  by (simp_all add: cap_event_def)

lemma capture_pathI: "capture_next s t \<Longrightarrow> capture_path s t"
  by (rule r_into_rtranclp)

lemma recon_pathI: "recon_next s t \<Longrightarrow> recon_path s t"
  by (rule r_into_rtranclp)

lemmas capture_paths = capture_next.intros [THEN capture_pathI]
lemmas recon_paths = recon_next.intros [THEN recon_pathI]

lemma slices_update_capture [simp]:
  "recons_of k (update_capture i f d) = recons_of k d"
  "batches_of k (update_capture i f d) = batches_of k d"
  "snapshots_of k (update_capture i f d) = snapshots_of k d"
  "versions_of k (update_capture i f d) = versions_of k d"
  by (simp_all add: slice_defs)

lemma slices_captures [simp]:
  "recons_of k (d\<lparr>captures := x\<rparr>) = recons_of k d"
  "batches_of k (d\<lparr>captures := x\<rparr>) = batches_of k d"
  "snapshots_of k (d\<lparr>captures := x\<rparr>) = snapshots_of k d"
  "versions_of k (d\<lparr>captures := x\<rparr>) = versions_of k d"
  by (simp_all add: slice_defs)

lemma slices_events [simp]:
  "recons_of k (d\<lparr>cap_events := x\<rparr>) = recons_of k d"
  "batches_of k (d\<lparr>cap_events := x\<rparr>) = batches_of k d"
  "snapshots_of k (d\<lparr>cap_events := x\<rparr>) = snapshots_of k d"
  by (simp_all add: slice_defs)

lemma slices_recons [simp]:
  "batches_of k (d\<lparr>recons := x\<rparr>) = batches_of k d"
  "snapshots_of k (d\<lparr>recons := x\<rparr>) = snapshots_of k d"
  "versions_of k (d\<lparr>recons := x\<rparr>) = versions_of k d"
  by (simp_all add: slice_defs)

lemma recons_of_update:
  "(\<And>r. r_job (f r) = r_job r) \<Longrightarrow>
    recons_of k (d\<lparr>recons := update_where P f (recons d)\<rparr>) = update_where P f (recons_of k d)"
  by (simp add: recons_of_def filter_update_where)

lemma versions_of_append:
  "versions_of k (d\<lparr>cap_events := cap_events d0 @ [cap_event e i owner corr v b]\<rparr>)
    = versions_of k (d\<lparr>cap_events := cap_events d0\<rparr>) @ (if k = i then [v] else [])"
  by (simp add: versions_of_def)

lemma update_where_other_job:
  "k \<noteq> i \<Longrightarrow> update_where (recon_active i) f (recons_of k d) = recons_of k d"
  by (rule update_where_none) (auto simp: recons_of_def recon_active_def)


lemma update_where_twice:
  assumes "\<And>r. key (f r) = key r"
  shows "update_where (\<lambda>r. key r = i) g (update_where (\<lambda>r. key r = i) f rows)
    = update_where (\<lambda>r. key r = i) (\<lambda>r. g (f r)) rows"
  using assms by (induction rows) auto

lemma recons_of_single:
  assumes "recons_of i d = [r]"
  shows "r \<in> set (recons d)" "r_job r = i"
proof -
  from assms have "r \<in> set (recons_of i d)" by simp
  then show "r \<in> set (recons d)" "r_job r = i" by (simp_all add: recons_of_def)
qed

text \<open>Work on reconstructions that have not ended leaves the artifacts as they are.\<close>

lemma artifacts_frame:
  assumes backed: "\<forall>r \<in> set (recons d). backed d r" and arts: "\<forall>a \<in> set (recon_artifacts d). artifact_ok d a"
    and upd: "recons d' = update_where P f (recons d)" "recon_artifacts d' = recon_artifacts d"
    and f: "\<And>r. P r \<Longrightarrow> r_id (f r) = r_id r \<and> r_status r \<in> {R_QUEUED, R_RUNNING}
      \<and> r_status (f r) \<notin> {R_PUBLISHED, R_PARTIAL}"
  shows "(\<forall>r \<in> set (recons d'). backed d' r) \<and> (\<forall>a \<in> set (recon_artifacts d'). artifact_ok d' a)"
proof (intro conjI ballI)
  fix r' assume "r' \<in> set (recons d')"
  then obtain r where r: "r \<in> set (recons d)" "r' = (if P r then f r else r)"
    unfolding upd by (rule in_update_whereE)
  show "backed d' r'"
  proof (cases "P r")
    case True
    with r f [OF True] show ?thesis by (simp add: backed_def)
  next
    case False
    with r backed show ?thesis by (simp add: backed_def upd(2))
  qed
next
  fix a assume "a \<in> set (recon_artifacts d')"
  with arts upd(2) obtain r where r: "r \<in> set (recons d)" "r_id r = ra_recon a"
    "ra_state a \<in> {A_PUBLISHED, A_DELETE_PENDING} \<longrightarrow>
          r_source_gen r = Some (ra_gen a) \<and> r_status r \<in> {R_PUBLISHED, R_PARTIAL, R_EXPIRED}"
    unfolding artifact_ok_def by metis
  let ?r = "if P r then f r else r"
  have "?r \<in> set (recons d')" unfolding upd set_update_where using r(1) by blast
  moreover have "r_id ?r = ra_recon a" using f [of r] r(2) by simp
  moreover have "ra_state a \<in> {A_PUBLISHED, A_DELETE_PENDING} \<longrightarrow>
          r_source_gen ?r = Some (ra_gen a) \<and> r_status ?r \<in> {R_PUBLISHED, R_PARTIAL, R_EXPIRED}"
    using f [of r] r(3) by auto
  ultimately show "artifact_ok d' a" unfolding artifact_ok_def by blast
qed


section \<open>Transactions on one job\<close>

text \<open>The event that ends such a transaction.\<close>

lemma enqueue_after:
  assumes ok: "enqueue e i owner corr b d1 = Inr d'" and dist: "distinct (map c_id (captures d))"
    and upd: "captures d1 = update_where (\<lambda>j. c_id j = i) f (captures d)"
    and f: "\<And>j. c_id (f j) = c_id j" "\<And>j. c_event_version (f j) = c_event_version j"
  obtains j where "j \<in> set (captures d)" "c_id j = i"
    "d' = d1\<lparr>captures := update_where (\<lambda>j. c_id j = i) (\<lambda>j. next_event e (f j)) (captures d),
       cap_events := cap_events d1 @ [cap_event e i owner corr (c_event_version j + 1) b]\<rparr>"
proof -
  have "distinct (map c_id (captures d1))"
    using dist by (simp add: upd map_update_where_key [where key = c_id, OF f(1)])
  with ok obtain k where k: "k \<in> set (captures d1)" "c_id k = i"
    "d' = (update_capture i (next_event e) d1)\<lparr>cap_events := cap_events d1 @
       [cap_event e i owner corr (c_event_version k + 1) b]\<rparr>"
    by (rule enqueue_Inr)
  from k(1) obtain j where j: "j \<in> set (captures d)" "k = (if c_id j = i then f j else j)"
    unfolding upd by (rule in_update_whereE)
  with k(2) f have "c_id j = i" "c_event_version k = c_event_version j" by (auto split: if_splits)
  moreover have "d' = d1\<lparr>captures := update_where (\<lambda>j. c_id j = i) (\<lambda>j. next_event e (f j)) (captures d),
       cap_events := cap_events d1 @ [cap_event e i owner corr (c_event_version k + 1) b]\<rparr>"
    unfolding k(3) by (simp add: update_capture_def upd update_where_twice [where key = c_id, OF f(1)])
  ultimately show thesis using that [of j] j(1) by simp
qed

lemma job_core:
  assumes core: "cap_core d"
    and caps: "captures d' = update_where (\<lambda>j. c_id j = i) F (captures d)" "\<And>j. c_id (F j) = c_id j"
    and recs: "recons d' = update_where P g (recons d)" "\<And>r. P r \<Longrightarrow> r_job r = i"
      "\<And>r. r_id (g r) = r_id r \<and> r_job (g r) = r_job r"
    and slices: "\<And>k. k \<noteq> i \<Longrightarrow> batches_of k d' = batches_of k d \<and> snapshots_of k d' = snapshots_of k d
      \<and> versions_of k d' = versions_of k d"
    and arts: "distinct (map ra_id (recon_artifacts d'))" "distinct (map generation_key (recon_artifacts d'))"
      "(\<forall>r \<in> set (recons d'). backed d' r) \<and> (\<forall>a \<in> set (recon_artifacts d'). artifact_ok d' a)"
    and own: "\<And>j r. j \<in> set (captures d) \<Longrightarrow> c_id j = i \<Longrightarrow> capture_ok d j \<Longrightarrow> r_job r = i \<Longrightarrow> recon_follows j r
      \<Longrightarrow> recons_of i d' = [if P r then g r else r] \<Longrightarrow> capture_ok d' (F j)"
    and moves: "\<And>j. j \<in> set (captures d) \<Longrightarrow> c_id j = i \<Longrightarrow> capture_evolves j (F j)"
      "\<And>r. r \<in> set (recons d) \<Longrightarrow> P r \<Longrightarrow> recon_evolves r (g r)"
  shows "cap_core d' \<and> cap_evolves d d'"
proof -
  have recsof: "recons_of k d' = update_where P g (recons_of k d)" for k
    unfolding recons_of_def recs(1) by (rule filter_update_where) (simp add: recs(3))
  have other: "recons_of k d' = recons_of k d" if "k \<noteq> i" for k
    unfolding recsof using that recs(2) by (intro update_where_none) (auto simp: recons_of_def)
  have "\<forall>j \<in> set (captures d'). capture_ok d' j"
  proof (rule captures_ok_local [OF _ caps(1)])
    show "\<forall>j \<in> set (captures d). capture_ok d j" using core by (simp add: cap_core_def)
    show "recons_of k d' = recons_of k d \<and> batches_of k d' = batches_of k d
      \<and> snapshots_of k d' = snapshots_of k d \<and> versions_of k d' = versions_of k d" if "k \<noteq> i" for k
      using other [OF that] slices [OF that] by simp
    fix j assume j: "j \<in> set (captures d)" "c_id j = i" and ok: "capture_ok d j"
    from ok j(2) obtain r where r: "recons_of i d = [r]" "recon_follows j r" by (auto simp: capture_ok_def)
    show "capture_ok d' (F j)"
      using own [OF j ok recons_of_single(2) [OF r(1)] r(2)] by (simp add: recsof r(1))
  qed
  moreover have "map r_id (recons d') = map r_id (recons d)"
    unfolding recs(1) by (rule map_update_where_key) (simp add: recs(3))
  moreover have "map c_id (captures d') = map c_id (captures d)"
    unfolding caps(1) by (rule map_update_where_key) (rule caps(2))
  ultimately have "cap_core d'" using core arts unfolding cap_core_def by simp
  moreover have "cap_evolves d d'"
    unfolding cap_evolves_def caps(1) recs(1)
    by (intro conjI rows_evolve_update moves capture_evolves_refl recon_evolves_refl)
  ultimately show ?thesis ..
qed

text \<open>The same when no artifact changes and the reconstruction does not end well.\<close>

lemma job_core_active:
  assumes core: "cap_core d"
    and caps: "captures d' = update_where (\<lambda>j. c_id j = i) F (captures d)" "\<And>j. c_id (F j) = c_id j"
    and recs: "recons d' = update_where (recon_active i) g (recons d)"
      "\<And>r. r_id (g r) = r_id r \<and> r_job (g r) = r_job r \<and> r_status (g r) \<notin> {R_PUBLISHED, R_PARTIAL}"
    and same: "recon_artifacts d' = recon_artifacts d" "analytics d' = analytics d" "snapshots d' = snapshots d"
    and evs: "\<And>k. versions_of k d' = versions_of k d @ (if k = i then vs else [])"
    and own: "\<And>j r. j \<in> set (captures d) \<Longrightarrow> c_id j = i \<Longrightarrow> capture_ok d j \<Longrightarrow> r_job r = i \<Longrightarrow> recon_follows j r
      \<Longrightarrow> recons_of i d' = [if recon_active i r then g r else r] \<Longrightarrow> batches_of i d' = batches_of i d
      \<Longrightarrow> snapshots_of i d' = snapshots_of i d \<Longrightarrow> versions_of i d' = versions_of i d @ vs \<Longrightarrow> capture_ok d' (F j)"
    and moves: "\<And>j. j \<in> set (captures d) \<Longrightarrow> c_id j = i \<Longrightarrow> capture_evolves j (F j)"
      "\<And>r. r \<in> set (recons d) \<Longrightarrow> recon_active i r \<Longrightarrow> recon_evolves r (g r)"
  shows "cap_core d' \<and> cap_evolves d d'"
proof (rule job_core [OF core caps recs(1)])
  have b: "batches_of k d' = batches_of k d \<and> snapshots_of k d' = snapshots_of k d" for k
    by (simp add: slice_defs same)
  then show "batches_of k d' = batches_of k d \<and> snapshots_of k d' = snapshots_of k d
      \<and> versions_of k d' = versions_of k d" if "k \<noteq> i" for k using that by (simp add: evs)
  show "distinct (map ra_id (recon_artifacts d'))" "distinct (map generation_key (recon_artifacts d'))"
    using core by (simp_all add: cap_core_def same)
  show "(\<forall>r \<in> set (recons d'). backed d' r) \<and> (\<forall>a \<in> set (recon_artifacts d'). artifact_ok d' a)"
    using core recs
    by (intro artifacts_frame [where d = d and P = "recon_active i" and f = g])
      (simp_all add: cap_core_def recon_active_def same)
  fix j r assume "j \<in> set (captures d)" "c_id j = i" "capture_ok d j" "r_job r = i" "recon_follows j r"
    "recons_of i d' = [if recon_active i r then g r else r]"
  then show "capture_ok d' (F j)" using b evs by (intro own) simp_all
qed (simp_all add: recs moves recon_active_def)

lemma versions_append:
  "cap_events d' = cap_events d @ [cap_event e i owner corr v b] \<Longrightarrow>
    versions_of k d' = versions_of k d @ (if k = i then [v] else [])"
  by (simp add: versions_of_def)

lemma evolve_keys:
  "c_id (next_event e j) = c_id j" "c_id (end_capture e code msg j) = c_id j"
  "c_id (lease_capture e w j) = c_id j" "c_id (requeue_capture e j) = c_id j"
  "c_id (postpone_capture e n code j) = c_id j" "c_id (persist_capture e x n b j) = c_id j"
  "c_id (complete_capture e j) = c_id j"
  by (simp_all add: next_event_def end_capture_def lease_capture_def requeue_capture_def
      postpone_capture_def persist_capture_def complete_capture_def)

section \<open>A job that is given up\<close>

lemma abandon_core:
  assumes core: "cap_core d" and rendering: "\<And>j. j \<in> set (captures d) \<Longrightarrow> c_id j = i \<Longrightarrow> c_status j = C_RENDERING"
    and ok: "abandon_capture e code msg (i, owner, corr) d = Inr d'"
  shows "cap_core d' \<and> cap_evolves d d'"
    "captures d' = update_where (\<lambda>j. c_id j = i) (\<lambda>j. next_event e (end_capture e code msg j)) (captures d)"
    "recon_artifacts d' = recon_artifacts d" "analytics d' = analytics d"
proof -
  from core have dist: "distinct (map c_id (captures d))" by (simp add: cap_core_def)
  let ?d1 = "d\<lparr>captures := update_where (\<lambda>j. c_id j = i) (end_capture e code msg) (captures d),
    recons := update_where (recon_active i) (abandon_recon e) (recons d)\<rparr>"
  have enq: "enqueue e i owner corr (bare_event PH_FAILED (Some code) (Some msg)) ?d1 = Inr d'"
    using ok by (simp add: abandon_capture_def Let_def update_capture_def)
  obtain j0 where j0: "j0 \<in> set (captures d)" "c_id j0 = i"
    and d': "d' = ?d1\<lparr>captures := update_where (\<lambda>j. c_id j = i) (\<lambda>j. next_event e (end_capture e code msg j)) (captures d),
       cap_events := cap_events ?d1 @ [cap_event e i owner corr (c_event_version j0 + 1)
         (bare_event PH_FAILED (Some code) (Some msg))]\<rparr>"
    by (rule enqueue_after [OF enq dist, where f = "end_capture e code msg"]) (simp_all add: end_capture_def)
  show "captures d' = update_where (\<lambda>j. c_id j = i) (\<lambda>j. next_event e (end_capture e code msg j)) (captures d)"
    "recon_artifacts d' = recon_artifacts d" "analytics d' = analytics d"
    unfolding d' by simp_all
  show "cap_core d' \<and> cap_evolves d d'"
  proof (rule job_core_active [OF core, where i = i and F = "\<lambda>j. next_event e (end_capture e code msg j)"
        and g = "abandon_recon e" and vs = "[c_event_version j0 + 1]"])
    show "versions_of k d' = versions_of k d @ (if k = i then [c_event_version j0 + 1] else [])" for k
      by (rule versions_append) (simp add: d')
    fix j r assume j: "j \<in> set (captures d)" "c_id j = i" "capture_ok d j" and r: "r_job r = i" "recon_follows j r"
      and own: "recons_of i d' = [if recon_active i r then abandon_recon e r else r]" "batches_of i d' = batches_of i d"
        "snapshots_of i d' = snapshots_of i d" "versions_of i d' = versions_of i d @ [c_event_version j0 + 1]"
    from rendering j have st: "c_status j = C_RENDERING" by blast
    have "j0 = j" using capture_unique [OF dist j0(1) j(1)] j0(2) j(2) by simp
    with j st r own show "capture_ok d' (next_event e (end_capture e code msg j))"
      by (simp add: capture_ok_def recon_follows_def batches_for_def
          next_event_def end_capture_def recon_active_def abandon_recon_def)
  next
    fix j assume "j \<in> set (captures d)" "c_id j = i"
    with rendering have "c_status j = C_RENDERING" by blast
    then show "capture_evolves j (next_event e (end_capture e code msg j))"
      by (auto simp: capture_evolves_def next_event_def end_capture_def capture_paths)
  next
    fix r assume "recon_active i r"
    then show "recon_evolves r (abandon_recon e r)"
      by (auto simp: recon_evolves_def recon_active_def abandon_recon_def recon_paths)
  qed (simp_all add: d' evolve_keys abandon_recon_def)
qed

end
