(* ===== verification/Capture_Preserve.thy ===== *)
theory Capture_Preserve
  imports Capture_Invariant
begin

text \<open>
  The transactions of \<open>Capture_Jobs\<close> and the deliveries of \<open>Capture_Results\<close> keep the invariant and move
  the rows along their histories.
\<close>

section \<open>Jobs alone\<close>

lemma captures_core:
  assumes core: "cap_core d"
    and F: "\<And>j. c_id (F j) = c_id j"
    and own: "\<And>j r. j \<in> set (captures d) \<Longrightarrow> P j \<Longrightarrow> recon_follows j r \<Longrightarrow> recons_of (c_id j) d = [r]
      \<Longrightarrow> capture_ok d j \<Longrightarrow> capture_ok d (F j)"
    and moves: "\<And>j. j \<in> set (captures d) \<Longrightarrow> P j \<Longrightarrow> capture_evolves j (F j)"
  shows "cap_core (d\<lparr>captures := update_where P F (captures d)\<rparr>) \<and> cap_evolves d (d\<lparr>captures := update_where P F (captures d)\<rparr>)"
proof -
  let ?d = "d\<lparr>captures := update_where P F (captures d)\<rparr>"
  have same: "capture_ok ?d j = capture_ok d j" for j by (simp add: capture_ok_def)
  have "\<forall>j \<in> set (captures ?d). capture_ok ?d j"
  proof
    fix j' assume "j' \<in> set (captures ?d)"
    then have "j' \<in> set (update_where P F (captures d))" by simp
    then obtain j where j: "j \<in> set (captures d)" "j' = (if P j then F j else j)" by (rule in_update_whereE)
    from core j(1) have ok: "capture_ok d j" by (simp add: cap_core_def)
    then obtain r where "recons_of (c_id j) d = [r]" "recon_follows j r" by (auto simp: capture_ok_def)
    with own [OF j(1)] ok j(2) have "capture_ok d j'" by (cases "P j") simp_all
    then show "capture_ok ?d j'" by (simp only: same)
  qed
  moreover have "map c_id (captures ?d) = map c_id (captures d)" by (simp add: map_update_where_key [where key = c_id, OF F])
  moreover have "backed ?d r = backed d r" "artifact_ok ?d a = artifact_ok d a" for r a
    by (simp_all add: backed_def artifact_ok_def)
  ultimately have "cap_core ?d" using core unfolding cap_core_def by simp
  moreover have "cap_evolves d ?d"
    unfolding cap_evolves_def using moves
    by (simp add: rows_evolve_update rows_evolve_refl capture_evolves_refl recon_evolves_refl)
  ultimately show ?thesis ..
qed

lemma reclaim_core:
  assumes "cap_core d"
  shows "cap_core (d\<lparr>captures := update_where (reclaimable e) (requeue_capture e) (captures d)\<rparr>)
    \<and> cap_evolves d (d\<lparr>captures := update_where (reclaimable e) (requeue_capture e) (captures d)\<rparr>)"
proof (rule captures_core [OF assms])
  show "capture_ok d (requeue_capture e j)"
    if "reclaimable e j" "capture_ok d j" "recon_follows j r" "recons_of (c_id j) d = [r]" for j r
    using that by (simp add: capture_ok_def reclaimable_def requeue_capture_def recon_follows_def batches_for_def)
  show "capture_evolves j (requeue_capture e j)" if "reclaimable e j" for j
    using that by (auto simp: capture_evolves_def reclaimable_def requeue_capture_def capture_paths)
qed (simp add: evolve_keys)

section \<open>Claiming\<close>

lemma in_update_where_other: "r \<in> set rows \<Longrightarrow> \<not> P r \<Longrightarrow> r \<in> set (update_where P f rows)"
  by (induction rows) auto

lemma abandon_core_all:
  assumes ok: "rfold (abandon_capture e code msg) (map (\<lambda>j. (c_id j, c_owner j, c_corr j)) js) d = Inr d'"
    and core: "cap_core d" and js: "set js \<subseteq> {j \<in> set (captures d). c_status j = C_RENDERING}" "distinct (map c_id js)"
  shows "cap_core d' \<and> cap_evolves d d' \<and> recon_artifacts d' = recon_artifacts d \<and> analytics d' = analytics d"
  using ok core js
proof (induction js arbitrary: d)
  case Nil
  then show ?case by (simp add: cap_evolves_refl)
next
  case (Cons j js)
  from Cons.prems(1) obtain d1 where
    d1: "abandon_capture e code msg (c_id j, c_owner j, c_corr j) d = Inr d1"
    and rest: "rfold (abandon_capture e code msg) (map (\<lambda>j. (c_id j, c_owner j, c_corr j)) js) d1 = Inr d'" by auto
  from Cons.prems(2) have dist: "distinct (map c_id (captures d))" by (simp add: cap_core_def)
  have "c_status k = C_RENDERING" if "k \<in> set (captures d)" "c_id k = c_id j" for k
    using that Cons.prems(3) capture_unique [OF dist, of k j] by auto
  note 1 = abandon_core [OF Cons.prems(2) this d1]
  have "set js \<subseteq> {j \<in> set (captures d1). c_status j = C_RENDERING}"
  proof
    fix k assume k: "k \<in> set js"
    from Cons.prems(4) have "c_id j \<notin> c_id ` set js" by simp
    with k have "c_id k \<noteq> c_id j" by (metis imageI)
    moreover have "k \<in> set (captures d)" "c_status k = C_RENDERING" using Cons.prems(3) k by auto
    ultimately show "k \<in> {j \<in> set (captures d1). c_status j = C_RENDERING}"
      by (simp add: 1(2) in_update_where_other)
  qed
  with Cons.IH [OF rest] 1 Cons.prems(4) show ?case
    by (auto intro: cap_evolves_trans)
qed

lemma exhausted_rendering:
  assumes "distinct (map c_id (captures d))"
  shows "set (exhausted_captures e d) \<subseteq> {j \<in> set (captures d). c_status j = C_RENDERING}"
    and "distinct (map c_id (exhausted_captures e d))"
proof -
  show "set (exhausted_captures e d) \<subseteq> {j \<in> set (captures d). c_status j = C_RENDERING}"
    unfolding exhausted_captures_def by (auto dest: in_set_takeD)
  have "distinct (map c_id (order_by k P (captures d)))" for k :: "capture_row \<Rightarrow> time \<times> uuid" and P
    unfolding order_by_def using assms by (auto simp: distinct_map intro: inj_on_subset)
  then show "distinct (map c_id (exhausted_captures e d))"
    unfolding exhausted_captures_def take_map [symmetric] by (rule distinct_take)
qed

lemma reclaim_captures_core:
  assumes core: "cap_core d" and ok: "reclaim_captures e d = Inr d'"
  shows "cap_core d' \<and> cap_evolves d d' \<and> recon_artifacts d' = recon_artifacts d \<and> analytics d' = analytics d"
proof -
  from ok obtain d1 where d1: "rfold (abandon_capture e ''CAPTURE_RETRIES_EXHAUSTED'' ''Capture lease expired after bounded retries'')
      (map (\<lambda>j. (c_id j, c_owner j, c_corr j)) (exhausted_captures e d)) d = Inr d1"
    and d': "d' = d1\<lparr>captures := update_where (reclaimable e) (requeue_capture e) (captures d1)\<rparr>"
    by (auto simp: reclaim_captures_def)
  from core have dist: "distinct (map c_id (captures d))" by (simp add: cap_core_def)
  from abandon_core_all [OF d1 core exhausted_rendering [OF dist]] reclaim_core [of d1 e]
  show ?thesis unfolding d' by (auto intro: cap_evolves_trans)
qed

lemma lease_core:
  assumes core: "cap_core d" and c: "c \<in> set (captures d)" "c_status c = C_QUEUED"
    and ok: "lease_job e w c d = Inr d'"
  shows "cap_core d' \<and> cap_evolves d d'"
    "captures d' = update_where (\<lambda>j. c_id j = c_id c) (\<lambda>j. next_event e (lease_capture e w j)) (captures d)"
    "recon_artifacts d' = recon_artifacts d" "analytics d' = analytics d"
proof -
  from core have dist: "distinct (map c_id (captures d))" by (simp add: cap_core_def)
  let ?i = "c_id c" and ?g = "start_recon e (c_lease_gen c + 1)"
  let ?F = "\<lambda>j. next_event e (lease_capture e w j)"
  let ?d1 = "d\<lparr>captures := update_where (\<lambda>j. c_id j = ?i) (lease_capture e w) (captures d)\<rparr>"
  from ok obtain d2 where enq: "enqueue e ?i (c_owner c) (c_corr c) (bare_event PH_RUNNING None None) ?d1 = Inr d2"
    and d'2: "d' = d2\<lparr>recons := update_where (recon_active ?i) ?g (recons d2)\<rparr>"
    by (auto simp: lease_job_def Let_def update_capture_def lease_capture_def)
  obtain j0 where j0: "j0 \<in> set (captures d)" "c_id j0 = ?i"
    and d2: "d2 = ?d1\<lparr>captures := update_where (\<lambda>j. c_id j = ?i) ?F (captures d),
       cap_events := cap_events ?d1 @ [cap_event e ?i (c_owner c) (c_corr c) (c_event_version j0 + 1)
         (bare_event PH_RUNNING None None)]\<rparr>"
    by (rule enqueue_after [OF enq dist, where f = "lease_capture e w"]) (simp_all add: lease_capture_def)
  note d' = d'2 [unfolded d2]
  show "captures d' = update_where (\<lambda>j. c_id j = c_id c) ?F (captures d)"
    "recon_artifacts d' = recon_artifacts d" "analytics d' = analytics d"
    unfolding d' by simp_all
  have "j0 = c" using capture_unique [OF dist j0(1) c(1)] j0(2) by simp
  show "cap_core d' \<and> cap_evolves d d'"
  proof (rule job_core_active [OF core, where i = ?i and F = ?F and g = ?g and vs = "[c_event_version j0 + 1]"])
    show "versions_of k d' = versions_of k d @ (if k = ?i then [c_event_version j0 + 1] else [])" for k
      by (rule versions_append) (simp add: d')
    fix j r assume j: "j \<in> set (captures d)" "c_id j = ?i" "capture_ok d j" and r: "r_job r = ?i" "recon_follows j r"
      and own: "recons_of ?i d' = [if recon_active ?i r then ?g r else r]" "batches_of ?i d' = batches_of ?i d"
        "snapshots_of ?i d' = snapshots_of ?i d" "versions_of ?i d' = versions_of ?i d @ [c_event_version j0 + 1]"
    have "c = j" using capture_unique [OF dist c(1) j(1)] j(2) by simp
    with j r own c(2) \<open>j0 = c\<close> show "capture_ok d' (?F j)"
      by (simp add: capture_ok_def recon_follows_def batches_for_def
          next_event_def lease_capture_def recon_active_def start_recon_def)
  next
    fix j assume "j \<in> set (captures d)" "c_id j = ?i"
    then have "c = j" using capture_unique [OF dist c(1)] by simp
    with c(2) show "capture_evolves j (?F j)"
      by (auto simp: capture_evolves_def next_event_def lease_capture_def capture_paths)
  next
    fix r assume "recon_active ?i r"
    then show "recon_evolves r (?g r)"
      by (auto simp: recon_evolves_def recon_active_def start_recon_def recon_paths)
  qed (simp_all add: d' evolve_keys start_recon_def)
qed

definition cap_preserves :: "platform \<Rightarrow> cap_db \<Rightarrow> cap_db \<Rightarrow> bool" where
  "cap_preserves K d d' \<longleftrightarrow> cap_inv K d' \<and> cap_evolves d d'"

lemma claimJob_preserves:
  assumes inv: "cap_inv K d" and ok: "claimJob K e w d = Inr (r, d')"
  shows "cap_preserves K d d' \<and> recon_artifacts d' = recon_artifacts d \<and> analytics d' = analytics d"
proof -
  from inv have core: "cap_core d" by (simp add: cap_inv_def)
  from ok obtain d1 where d1: "reclaim_captures e d = Inr d1" and
    rest: "(case first_by (\<lambda>j. (c_available j, c_accepted j, c_id j)) (capture_candidate e) (captures d1) of
       None \<Rightarrow> cap_commit K None d1
     | Some c \<Rightarrow> rbind (lease_job e w c d1)
         (cap_commit K (Some (capture_claim w (lease_capture e w c))))) = Inr (r, d')"
    by (auto simp: claimJob_def)
  note 1 = reclaim_captures_core [OF core d1]
  show ?thesis
  proof (cases "first_by (\<lambda>j. (c_available j, c_accepted j, c_id j)) (capture_candidate e) (captures d1)")
    case None
    with rest 1 show ?thesis by (simp add: cap_preserves_def cap_inv_def)
  next
    case (Some c)
    with first_by_Some [OF Some] have c: "c \<in> set (captures d1)" "c_status c = C_QUEUED"
      by (auto simp: capture_candidate_def)
    from rest Some have "lease_job e w c d1 = Inr d'" "cap_schema_ok (jsonb_bytes K) d'" by auto
    with lease_core [OF _ c] 1 show ?thesis by (auto simp: cap_preserves_def cap_inv_def intro: cap_evolves_trans)
  qed
qed

section \<open>Keeping and losing a lease\<close>

lemma extendLease_preserves:
  assumes inv: "cap_inv K d" and ok: "extendLease K e t d = Inr (r, d')"
  shows "cap_preserves K d d' \<and> recon_artifacts d' = recon_artifacts d \<and> analytics d' = analytics d"
proof -
  from inv have core: "cap_core d" by (simp add: cap_inv_def)
  let ?F = "\<lambda>j. j\<lparr>c_lease_expires := Some (t_now e + seconds 45), c_updated := t_now e\<rparr>"
  have d': "d' = d\<lparr>captures := update_where (holds_capture t) ?F (captures d)\<rparr>" and s: "cap_schema_ok (jsonb_bytes K) d'"
    using ok by (auto simp: extendLease_def)
  have "cap_core d' \<and> cap_evolves d d'"
    unfolding d'
  proof (rule captures_core [OF core])
    show "capture_ok d (?F j)" if "holds_capture t j" "capture_ok d j" for j
      using that by (auto simp: capture_ok_def recon_follows_def holds_capture_def)
    show "capture_evolves j (?F j)" for j by (simp add: capture_evolves_def)
  qed simp
  with s show ?thesis by (simp add: cap_preserves_def cap_inv_def d')
qed

lemma failJob_preserves:
  assumes inv: "cap_inv K d" and ok: "failJob K e t code d = Inr (r, d')"
  shows "cap_preserves K d d' \<and> recon_artifacts d' = recon_artifacts d \<and> analytics d' = analytics d"
proof (cases "find (holds_capture t) (captures d)")
  case None
  with ok inv show ?thesis by (simp add: failJob_def cap_preserves_def cap_evolves_refl)
next
  case (Some row)
  from inv have core: "cap_core d" by (simp add: cap_inv_def)
  then have dist: "distinct (map c_id (captures d))" by (simp add: cap_core_def)
  from Some have row: "row \<in> set (captures d)" "holds_capture t row" by (auto simp: find_Some_iff)
  have only: "j = row" if "j \<in> set (captures d)" "c_id j = cl_id t" for j
    using capture_unique [OF dist that(1) row(1)] that(2) row(2) by (simp add: holds_capture_def)
  show ?thesis
  proof (cases "c_attempts row < 3")
    case True
    let ?F = "postpone_capture e (c_attempts row) code"
    have d': "d' = d\<lparr>captures := update_where (\<lambda>j. c_id j = cl_id t) ?F (captures d)\<rparr>"
      and s: "cap_schema_ok (jsonb_bytes K) d'"
      using ok Some True by (auto simp: failJob_def update_capture_def)
    have "cap_core d' \<and> cap_evolves d d'"
      unfolding d'
    proof (rule captures_core [OF core])
      fix j assume j: "j \<in> set (captures d)" "c_id j = cl_id t"
      with only row(2) have st: "c_status j = C_RENDERING" by (simp add: holds_capture_def)
      then show "capture_evolves j (?F j)"
        by (auto simp: capture_evolves_def postpone_capture_def capture_paths)
      show "capture_ok d (?F j)" if "capture_ok d j" "recon_follows j r" "recons_of (c_id j) d = [r]" for r
        using st that by (simp add: capture_ok_def postpone_capture_def recon_follows_def batches_for_def)
    qed (simp add: evolve_keys)
    with s show ?thesis by (simp add: cap_preserves_def cap_inv_def d')
  next
    case False
    with ok Some have "abandon_capture e code ''Capture failed after bounded retries'' (cl_id t, cl_owner t, cl_corr t) d = Inr d'"
      and s: "cap_schema_ok (jsonb_bytes K) d'" by (auto simp: failJob_def)
    from abandon_core [OF core _ this(1)] only row(2) s show ?thesis
      by (auto simp: cap_preserves_def cap_inv_def holds_capture_def)
  qed
qed

section \<open>Accepting\<close>

lemma filter_no_key: "\<forall>x \<in> set rows. key x \<in> S \<Longrightarrow> i \<notin> S \<Longrightarrow> filter (\<lambda>x. key x = i) rows = []"
  by (induction rows) auto

lemma acceptCapture_preserves:
  assumes inv: "cap_inv K d" and ok: "acceptCapture K e c d = Inr (r, d')"
  shows "cap_preserves K d d' \<and> recon_artifacts d' = recon_artifacts d \<and> analytics d' = analytics d"
proof (cases "find (\<lambda>j. c_command_message_id j = cc_message_id c) (captures d)")
  case (Some j)
  with ok inv show ?thesis
    by (simp add: acceptCapture_def cap_preserves_def cap_evolves_refl split: if_splits)
next
  case None
  let ?j = "new_capture K e c" and ?r = "new_recon_row e c"
  let ?i = "pl_capture_request (cc_payload c)"
  have d': "d' = d\<lparr>captures := captures d @ [?j], recons := recons d @ [?r]\<rparr>"
    and s': "cap_schema_ok (jsonb_bytes K) d'"
    using ok None by (auto simp: acceptCapture_def)
  from inv have core: "cap_core d" and refs: "cap_references_ok d" by (simp_all add: cap_inv_def cap_schema_ok_def)
  from s' have dist: "distinct (map c_id (captures d'))" "distinct (map r_id (recons d'))"
    by (simp_all add: cap_schema_ok_def cap_keys_ok_def captures_unique_def recons_unique_def)
  then have new: "?i \<notin> c_id ` set (captures d)" by (simp add: d' new_capture_def)
  have none: "recons_of ?i d = []" "batches_of ?i d = []" "snapshots_of ?i d = []" "versions_of ?i d = []"
    using refs new unfolding slice_defs cap_references_ok_def
    by (simp_all add: filter_no_key [where S = "c_id ` set (captures d)"])
  have slices: "recons_of k d' = recons_of k d @ (if k = ?i then [?r] else [])" "batches_of k d' = batches_of k d"
      "snapshots_of k d' = snapshots_of k d" "versions_of k d' = versions_of k d" for k
    by (simp_all add: slice_defs d' new_recon_row_def)
  have "\<forall>j \<in> set (captures d'). capture_ok d' j"
  proof
    fix j assume "j \<in> set (captures d')"
    then consider "j \<in> set (captures d)" | "j = ?j" by (auto simp: d')
    then show "capture_ok d' j"
    proof cases
      case 1
      with new have "c_id j \<noteq> ?i" by (metis imageI)
      with 1 core show ?thesis by (simp add: cap_core_def capture_ok_def slices)
    next
      case 2
      have "c_id ?j = ?i" by (simp add: new_capture_def)
      then show ?thesis unfolding 2
        by (simp add: capture_ok_def slices none recon_follows_def batches_for_def new_capture_def new_recon_row_def)
    qed
  qed
  moreover have "\<forall>r \<in> set (recons d'). backed d' r"
    using core by (auto simp: cap_core_def d' backed_def new_recon_row_def)
  moreover have "\<forall>a \<in> set (recon_artifacts d'). artifact_ok d' a"
    using core by (auto simp: cap_core_def d' artifact_ok_def)
  ultimately have "cap_core d'" using core dist by (simp add: cap_core_def d')
  moreover have "cap_evolves d d'"
    by (simp add: cap_evolves_def d' rows_evolve_append capture_evolves_refl recon_evolves_refl)
  ultimately show ?thesis using s' by (simp add: cap_preserves_def cap_inv_def d')
qed

section \<open>Deliveries\<close>

lemma events_core:
  assumes "cap_core d" "map (\<lambda>x. (e_job x, e_version x)) xs = map (\<lambda>x. (e_job x, e_version x)) (cap_events d)"
  shows "cap_core (d\<lparr>cap_events := xs\<rparr>)"
proof -
  have v: "map e_version (filter (\<lambda>x. e_job x = k) zs) = map snd (filter (\<lambda>p. fst p = k) (map (\<lambda>x. (e_job x, e_version x)) zs))"
    for k and zs :: "event_row list" by (induction zs) auto
  have "versions_of k (d\<lparr>cap_events := xs\<rparr>) = versions_of k d" for k
    by (simp add: versions_of_def v assms(2))
  then have "capture_ok (d\<lparr>cap_events := xs\<rparr>) j = capture_ok d j" for j
    by (intro capture_ok_frame) simp_all
  with assms(1) show ?thesis by (simp add: cap_core_def backed_def artifact_ok_def)
qed

lemma analytics_core:
  assumes "cap_core d" "map (\<lambda>x. (an_job x, o_status x = DELIVERED)) xs = map (\<lambda>x. (an_job x, o_status x = DELIVERED)) (analytics d)"
  shows "cap_core (d\<lparr>analytics := xs\<rparr>)"
proof -
  have v: "map (\<lambda>x. o_status x = DELIVERED) (filter (\<lambda>x. an_job x = k) zs)
      = map snd (filter (\<lambda>p. fst p = k) (map (\<lambda>x. (an_job x, o_status x = DELIVERED)) zs))"
    for k and zs :: "analytics_row list" by (induction zs) auto
  have "batches_of k (d\<lparr>analytics := xs\<rparr>) = batches_of k d" for k
    by (simp add: batches_of_def v assms(2))
  then have "capture_ok (d\<lparr>analytics := xs\<rparr>) j = capture_ok d j" for j
    by (intro capture_ok_frame) (simp_all add: slice_defs)
  with assms(1) show ?thesis by (simp add: cap_core_def backed_def artifact_ok_def)
qed

lemma deliveries_evolve [simp]:
  "cap_evolves d (d\<lparr>cap_events := xs\<rparr>)" "cap_evolves d (d\<lparr>analytics := ys\<rparr>)"
  "cap_evolves d (d\<lparr>recon_artifacts := as\<rparr>)"
  by (simp_all add: cap_evolves_def rows_evolve_refl capture_evolves_refl recon_evolves_refl)

text \<open>A claim is an update of the row it returns.\<close>

lemma claim_delivery_map:
  assumes "claim_delivery t locked w rows = (r, rows')"
    and "\<And>x. x \<in> set rows \<Longrightarrow> deliverable t x \<Longrightarrow> f (claim_row t w x) = f x" "distinct (map o_message_id rows)"
  shows "map f rows' = map f rows"
proof (cases "first_by (\<lambda>x. (o_available x, o_created x, o_message_id x))
         (\<lambda>x. deliverable t x \<and> \<not> locked (o_message_id x)) rows")
  case None
  with assms show ?thesis by (simp add: claim_delivery_def)
next
  case (Some c)
  with assms(1) have rows': "rows' = update_where (\<lambda>x. o_message_id x = o_message_id c) (claim_row t w) rows"
    by (simp add: claim_delivery_def)
  from first_by_Some [OF Some] have c: "c \<in> set rows" "deliverable t c" by blast+
  have "f (claim_row t w x) = f x" if "x \<in> set rows" "o_message_id x = o_message_id c" for x
    using assms(2) [of x] distinct_key_unique [OF assms(3) that(1) c(1) that(2)] c by simp
  then show ?thesis unfolding rows' by (rule update_where_map)
qed

lemma cap_schema_distinct:
  assumes "cap_schema_ok octets d"
  shows "distinct (map o_message_id (analytics d))" "distinct (map o_message_id (cap_events d))"
  using assms by (simp_all add: cap_schema_ok_def cap_keys_ok_def analytics_unique_def events_unique_def)

lemma claimCaptureEvent_preserves:
  assumes inv: "cap_inv K d" and ok: "claimCaptureEvent K e w d = Inr (r, d')"
  shows "cap_preserves K d d' \<and> recon_artifacts d' = recon_artifacts d \<and> analytics d' = analytics d"
proof -
  obtain x rows where r: "claim_delivery (t_now e) (locked_cap_event e) w (cap_events d) = (x, rows)" by fastforce
  with ok have d': "d' = d\<lparr>cap_events := rows\<rparr>" and s: "cap_schema_ok (jsonb_bytes K) d'"
    by (auto simp: claimCaptureEvent_def)
  have "map (\<lambda>x. (e_job x, e_version x)) rows = map (\<lambda>x. (e_job x, e_version x)) (cap_events d)"
    using r cap_schema_distinct(2) inv by (intro claim_delivery_map [OF r]) (auto simp: claim_row_def cap_inv_def)
  with events_core inv have "cap_core d'" unfolding d' cap_inv_def by blast
  with s show ?thesis by (simp add: cap_preserves_def cap_inv_def) (simp add: d')
qed

lemma event_updates_preserve:
  assumes inv: "cap_inv K d" and d': "d' = d\<lparr>cap_events := update_where P f (cap_events d)\<rparr>"
    and s: "cap_schema_ok (jsonb_bytes K) d'" and f: "\<And>x. e_job (f x) = e_job x \<and> e_version (f x) = e_version x"
  shows "cap_preserves K d d' \<and> recon_artifacts d' = recon_artifacts d \<and> analytics d' = analytics d"
proof -
  have "map (\<lambda>x. (e_job x, e_version x)) (update_where P f (cap_events d)) = map (\<lambda>x. (e_job x, e_version x)) (cap_events d)"
    using f by (intro update_where_map) simp
  with events_core inv have "cap_core d'" unfolding d' cap_inv_def by blast
  with s show ?thesis by (simp add: cap_preserves_def cap_inv_def) (simp add: d')
qed

lemma completeCaptureEvent_preserves:
  assumes "cap_inv K d" "completeCaptureEvent K e ev d = Inr (r, d')"
  shows "cap_preserves K d d' \<and> recon_artifacts d' = recon_artifacts d \<and> analytics d' = analytics d"
  using assms(2)
  by (intro event_updates_preserve [OF assms(1), where P = "claimed_by (ck_message_id ev) (ck_lease_owner ev)"
        and f = "deliver_row (t_now e)"])
    (simp_all add: completeCaptureEvent_def complete_delivery_def deliver_row_def)

lemma retryCaptureEvent_preserves:
  assumes "cap_inv K d" "retryCaptureEvent K e ev code d = Inr (r, d')"
  shows "cap_preserves K d d' \<and> recon_artifacts d' = recon_artifacts d \<and> analytics d' = analytics d"
  using assms(2)
  by (intro event_updates_preserve [OF assms(1), where P = "claimed_by (ck_message_id ev) (ck_lease_owner ev)"
        and f = "requeue_row (hashtext K) (t_now e) code"])
    (simp_all add: retryCaptureEvent_def retry_delivery_def requeue_row_def)

lemma claimAnalytics_preserves:
  assumes inv: "cap_inv K d" and ok: "claimAnalytics K e w d = Inr (r, d')"
  shows "cap_preserves K d d' \<and> recon_artifacts d' = recon_artifacts d"
proof -
  let ?key = "\<lambda>x. (an_job x, o_status x = DELIVERED)"
  obtain x rows where r: "claim_delivery (t_now e) (locked_analytics e) w (analytics d) = (x, rows)" by fastforce
  let ?rows = "update_where (\<lambda>y. map_option o_message_id x = Some (o_message_id y)) (\<lambda>x. x\<lparr>an_updated := t_now e\<rparr>) rows"
  from r ok have d': "d' = d\<lparr>analytics := ?rows\<rparr>" and s: "cap_schema_ok (jsonb_bytes K) d'"
    by (auto simp: claimAnalytics_def)
  have "map ?key ?rows = map ?key rows" by (rule update_where_map) simp
  also have "\<dots> = map ?key (analytics d)"
    using r cap_schema_distinct(1) inv
    by (intro claim_delivery_map [OF r]) (auto simp: claim_row_def cap_inv_def deliverable_def)
  finally have "cap_core d'" using analytics_core inv unfolding d' cap_inv_def by blast
  with s show ?thesis by (simp add: cap_preserves_def cap_inv_def) (simp add: d')
qed

lemma retryAnalytics_preserves:
  assumes inv: "cap_inv K d" and ok: "retryAnalytics K e o' code d = Inr (r, d')"
  shows "cap_preserves K d d' \<and> recon_artifacts d' = recon_artifacts d"
proof -
  let ?f = "\<lambda>x. (requeue_row (hashtext K) (t_now e) code x)\<lparr>an_updated := t_now e\<rparr>"
  let ?rows = "update_where (claimed_by (co_id o') (co_lease_owner o')) ?f (analytics d)"
  from ok have d': "d' = d\<lparr>analytics := ?rows\<rparr>" and s: "cap_schema_ok (jsonb_bytes K) d'"
    by (auto simp: retryAnalytics_def)
  have "map (\<lambda>x. (an_job x, o_status x = DELIVERED)) ?rows = map (\<lambda>x. (an_job x, o_status x = DELIVERED)) (analytics d)"
    by (rule update_where_map) (simp add: requeue_row_def claimed_by_def)
  with inv have "cap_core d'" unfolding d' by (intro analytics_core) (simp_all add: cap_inv_def)
  with s show ?thesis by (simp add: cap_preserves_def cap_inv_def) (simp add: d')
qed

end
