(* ===== verification/Capture_Preserve_Results.thy ===== *)
theory Capture_Preserve_Results
  imports Capture_Preserve
begin

text \<open>
  The transactions that touch artifacts keep the invariant: staging, the result of a capture, the end of
  its analytics, and the removal of expired archives.
\<close>

section \<open>Artifacts\<close>

definition live :: "recon_artifact \<Rightarrow> bool" where
  "live a \<longleftrightarrow> ra_state a \<in> {A_PUBLISHED, A_DELETE_PENDING}"

definition artifact_evolves :: "recon_artifact \<Rightarrow> recon_artifact \<Rightarrow> bool" where
  "artifact_evolves a b \<longleftrightarrow>
     (ra_id b, ra_owner b, ra_recon b, ra_kind b, ra_gen b, ra_bucket b, ra_key b, ra_content_type b, ra_bytes b, ra_sha b)
       = (ra_id a, ra_owner a, ra_recon a, ra_kind a, ra_gen a, ra_bucket a, ra_key a, ra_content_type a, ra_bytes a, ra_sha a)
   \<and> (ra_state a = A_DELETED \<longrightarrow> ra_state b = A_DELETED) \<and> (ra_state a = A_DELETE_PENDING \<longrightarrow> ra_state b \<in> {A_DELETE_PENDING, A_DELETED})"

definition artifacts_evolve :: "cap_db \<Rightarrow> cap_db \<Rightarrow> bool" where
  "artifacts_evolve d d' \<longleftrightarrow> rows_evolve artifact_evolves (recon_artifacts d) (recon_artifacts d')"

lemma artifact_evolves_refl: "artifact_evolves a a"
  by (simp add: artifact_evolves_def)

lemma artifacts_same: "recon_artifacts d' = recon_artifacts d \<Longrightarrow> artifacts_evolve d d'"
  by (simp add: artifacts_evolve_def rows_evolve_refl artifact_evolves_refl)

lemma distinct_update_where:
  assumes "distinct (map k rows)" "\<And>x. k (f x) = k x"
  shows "distinct (map k (update_where P f rows))"
  using assms(1) by (simp add: map_update_where_key [where key = k, OF assms(2)])

lemma bex_update_where: "(\<exists>r \<in> set (update_where P f rs). Q r) = (\<exists>r \<in> set rs. Q (if P r then f r else r))"
  by (induction rs) auto

lemma live_frame:
  assumes core: "cap_core d" and f: "\<And>a. generation_key (f a) = generation_key a \<and> ra_id (f a) = ra_id a
      \<and> ra_owner (f a) = ra_owner a \<and> ra_bytes (f a) = ra_bytes a" and live: "\<And>a. P a \<Longrightarrow> live (f a) = live a"
  shows "cap_core (d\<lparr>recon_artifacts := update_where P f (recon_artifacts d)\<rparr>)"
proof -
  let ?d = "d\<lparr>recon_artifacts := update_where P f (recon_artifacts d)\<rparr>"
  let ?g = "\<lambda>a. if P a then f a else a"
  have g: "ra_recon (?g a) = ra_recon a" "ra_kind (?g a) = ra_kind a" "ra_gen (?g a) = ra_gen a"
    "ra_owner (?g a) = ra_owner a" "ra_bytes (?g a) = ra_bytes a" "live (?g a) = live a" for a
    using f [of a] live [of a] by auto
  have arts: "recon_artifacts ?d = update_where P f (recon_artifacts d)" by simp
  have "backed ?d r = backed d r" for r
    unfolding backed_def source_archive_def live_def [symmetric]
    by (simp only: arts bex_update_where g)
  moreover have "(\<forall>a \<in> set (recon_artifacts ?d). artifact_ok ?d a)"
    using core g unfolding cap_core_def artifact_ok_def live_def [symmetric] by simp
  moreover have "capture_ok ?d j = capture_ok d j" for j
    by (rule capture_ok_frame) (simp_all add: slice_defs)
  moreover have "distinct (map ra_id (recon_artifacts ?d))" "distinct (map generation_key (recon_artifacts ?d))"
    using core f by (simp_all add: cap_core_def distinct_update_where)
  ultimately show ?thesis using core by (simp add: cap_core_def)
qed

lemma stageRecon_preserves:
  assumes inv: "cap_inv K d" and ok: "stageReconstructionArtifacts K e t objs d = Inr (x, d')"
  shows "cap_preserves K d d' \<and> analytics d' = analytics d \<and> artifacts_evolve d d'"
proof -
  from ok obtain r where r: "find (holds_recon t) (recons d) = Some r"
    by (auto simp: stageReconstructionArtifacts_def split: if_splits option.splits)
  then have rin: "r \<in> set (recons d)" by (auto simp: find_Some_iff)
  obtain a b where d': "d' = d\<lparr>recon_artifacts := recon_artifacts d @ [a, b]\<rparr>"
    and ab: "ra_recon a = r_id r" "ra_recon b = r_id r" "ra_state a = A_STAGED" "ra_state b = A_STAGED"
    and s: "cap_schema_ok (jsonb_bytes K) d'"
    using ok r by (auto simp: stageReconstructionArtifacts_def staged_artifact_def split: if_splits)
  from inv have core: "cap_core d" by (simp add: cap_inv_def)
  from s have dist: "distinct (map ra_id (recon_artifacts d'))" "distinct (map generation_key (recon_artifacts d'))"
    by (simp_all add: cap_schema_ok_def cap_keys_ok_def recon_artifacts_unique_def)
  have "capture_ok d' j = capture_ok d j" for j
    by (rule capture_ok_frame) (simp_all add: slice_defs d')
  moreover have "backed d r' \<Longrightarrow> backed d' r'" for r' unfolding backed_def d' by auto
  moreover have "artifact_ok d' c" if "c \<in> set (recon_artifacts d')" for c
  proof -
    from that consider "c \<in> set (recon_artifacts d)" | "c = a" | "c = b" by (auto simp: d')
    then show ?thesis
    proof cases
      case 1
      with core show ?thesis by (simp add: cap_core_def artifact_ok_def d')
    next
      case 2
      with rin ab show ?thesis by (auto simp: artifact_ok_def d')
    next
      case 3
      with rin ab show ?thesis by (auto simp: artifact_ok_def d')
    qed
  qed
  ultimately have "cap_core d'" using core dist by (simp add: cap_core_def d')
  moreover have "artifacts_evolve d d'"
    unfolding artifacts_evolve_def d' by (simp add: rows_evolve_append artifact_evolves_refl)
  ultimately show ?thesis using s by (simp add: cap_preserves_def cap_inv_def) (simp add: d')
qed

section \<open>Deleting\<close>

definition deletion_token :: "cap_db \<Rightarrow> claimed_recon_artifact \<Rightarrow> bool" where
  "deletion_token d g \<longleftrightarrow> (\<exists>a \<in> set (recon_artifacts d). ra_id a = cg_id g \<and> ra_recon a = cg_recon g \<and> ra_kind a = cg_kind g)"

lemma claimReconArtifact_preserves:
  assumes inv: "cap_inv K d" and ok: "claimReconArtifact K e d = Inr (g, d')"
  shows "cap_preserves K d d' \<and> analytics d' = analytics d \<and> artifacts_evolve d d'"
proof (cases "first_by (\<lambda>a. (ra_delete_after a, ra_id a)) (recon_artifact_due e) (recon_artifacts d)")
  case None
  with ok inv show ?thesis
    by (simp add: claimReconArtifact_def cap_preserves_def cap_evolves_refl artifacts_same)
next
  case (Some c)
  let ?as = "update_where (\<lambda>x. ra_id x = ra_id c) (mark_recon_artifact e) (recon_artifacts d)"
  let ?P = "\<lambda>x. ra_id x = ra_id c \<and> x = c"
  from ok Some have d': "d' = d\<lparr>recon_artifacts := ?as\<rparr>" and s: "cap_schema_ok (jsonb_bytes K) d'"
    by (auto simp: claimReconArtifact_def)
  from inv have core: "cap_core d" by (simp add: cap_inv_def)
  from first_by_Some [OF Some] have c: "c \<in> set (recon_artifacts d)" "recon_artifact_due e c" by blast+
  have "x = c" if "x \<in> set (recon_artifacts d)" "ra_id x = ra_id c" for x
    using core that c(1) distinct_key_unique unfolding cap_core_def by metis
  then have as: "?as = update_where ?P (mark_recon_artifact e) (recon_artifacts d)"
    by (simp add: update_where_def)
  have "cap_core d'" unfolding d' as using c(2)
    by (intro live_frame [OF core]) (auto simp: mark_recon_artifact_def live_def recon_artifact_due_def)
  moreover have "artifacts_evolve d d'"
    unfolding artifacts_evolve_def d' as using c(2)
    by (auto intro!: rows_evolve_update simp: artifact_evolves_def mark_recon_artifact_def recon_artifact_due_def)
  ultimately show ?thesis using s by (simp add: cap_preserves_def cap_inv_def) (simp add: d')
qed

lemma retryReconArtifact_preserves:
  assumes inv: "cap_inv K d" and ok: "retryReconArtifact K e g d = Inr (x, d')"
  shows "cap_preserves K d d' \<and> analytics d' = analytics d \<and> artifacts_evolve d d'"
proof -
  let ?f = "\<lambda>a. a\<lparr>ra_delete_after := t_now e + minutes 1\<rparr>"
  from ok have d': "d' = d\<lparr>recon_artifacts := update_where (deletable_recon_artifact g) ?f (recon_artifacts d)\<rparr>"
    and s: "cap_schema_ok (jsonb_bytes K) d'" by (auto simp: retryReconArtifact_def)
  from inv have core: "cap_core d" by (simp add: cap_inv_def)
  have "cap_core d'" unfolding d' by (intro live_frame [OF core]) (simp_all add: live_def)
  moreover have "artifacts_evolve d d'"
    unfolding artifacts_evolve_def d' by (auto intro!: rows_evolve_update simp: artifact_evolves_def)
  ultimately show ?thesis using s by (simp add: cap_preserves_def cap_inv_def) (simp add: d')
qed

lemma completeReconArtifact_preserves:
  assumes inv: "cap_inv K d" and tok: "deletion_token d g" and ok: "completeReconArtifact K e g d = Inr (x, d')"
  shows "cap_preserves K d d' \<and> analytics d' = analytics d \<and> artifacts_evolve d d'"
proof -
  let ?del = "\<lambda>a. a\<lparr>ra_state := A_DELETED, ra_deleted := Some (t_now e)\<rparr>"
  let ?P = "\<lambda>r. cg_kind g = STATIC_ARCHIVE \<and> r_id r = cg_recon g \<and> r_status r \<in> {R_PUBLISHED, R_PARTIAL}"
  from inv have core: "cap_core d" by (simp add: cap_inv_def)
  have none: "update_where (\<lambda>r. False) f xs = xs" for f and xs :: "recon_row list"
    by (rule update_where_none) simp
  let ?as = "update_where (deletable_recon_artifact g) ?del (recon_artifacts d)"
  have same: "d\<lparr>recon_artifacts := x, recons := recons d\<rparr> = d\<lparr>recon_artifacts := x\<rparr>" for x
    by (rule cap_db.equality) simp_all
  have "d' = d\<lparr>recon_artifacts := ?as, recons := update_where ?P (expire_recon e) (recons d)\<rparr> \<and> cap_schema_ok (jsonb_bytes K) d'"
  proof (cases "cg_kind g = STATIC_ARCHIVE")
    case True
    with ok show ?thesis by (simp add: completeReconArtifact_def Let_def split: if_splits)
  next
    case False
    with ok show ?thesis by (simp add: completeReconArtifact_def Let_def none same split: if_splits)
  qed
  then have d': "d' = d\<lparr>recon_artifacts := ?as, recons := update_where ?P (expire_recon e) (recons d)\<rparr>"
    and s: "cap_schema_ok (jsonb_bytes K) d'" by blast+
  have recsof: "recons_of k d' = update_where ?P (expire_recon e) (recons_of k d)" for k
    unfolding recons_of_def d' by (simp add: filter_update_where expire_recon_def)
  have "capture_ok d' j" if j: "j \<in> set (captures d)" for j
  proof -
    from core j have ok: "capture_ok d j" by (simp add: cap_core_def)
    then obtain r where r: "recons_of (c_id j) d = [r]" "recon_follows j r" by (auto simp: capture_ok_def)
    from r(2) have "?P r \<Longrightarrow> recon_follows j (expire_recon e r)"
      by (auto simp: recon_follows_def expire_recon_def split: capture_status.splits)
    with ok r show ?thesis
      by (simp add: capture_ok_def recsof) (simp add: slice_defs d')
  qed
  moreover have "backed d' r'" if r': "r' \<in> set (recons d')" for r'
  proof -
    from r' obtain r where r: "r \<in> set (recons d)" "r' = (if ?P r then expire_recon e r else r)"
      by (auto simp: d' elim: in_update_whereE)
    show ?thesis
    proof (cases "?P r")
      case True
      with r show ?thesis by (simp add: backed_def expire_recon_def)
    next
      case False
      have [simp]: "r' = r" using r(2) unfolding if_not_P [OF False] .
      show ?thesis
        unfolding backed_def
      proof
        assume st: "r_status r' \<in> {R_PUBLISHED, R_PARTIAL}"
        with core r(1) obtain a where a: "a \<in> set (recon_artifacts d)" "source_archive r a" "ra_owner a = r_owner r"
          "ra_state a \<in> {A_PUBLISHED, A_DELETE_PENDING}" "r_archive_bytes r = Some (ra_bytes a)"
          by (auto simp: cap_core_def backed_def)
        have "\<not> deletable_recon_artifact g a"
        proof
          assume del: "deletable_recon_artifact g a"
          with a(2) have "r_id r = cg_recon g" by (simp add: deletable_recon_artifact_def source_archive_def)
          with False st have "cg_kind g = RECON_MANIFEST" by (cases "cg_kind g") auto
          moreover from tok obtain b where b: "b \<in> set (recon_artifacts d)" "ra_id b = cg_id g" "ra_kind b = cg_kind g"
            by (auto simp: deletion_token_def)
          moreover have "b = a" using core b a(1) del unfolding cap_core_def deletable_recon_artifact_def
            by (metis distinct_key_unique)
          ultimately show False using a(2) by (simp add: source_archive_def)
        qed
        with a(1) have "a \<in> set (recon_artifacts d')" by (simp add: d' in_update_where_other)
        with a show "\<exists>a\<in>set (recon_artifacts d'). source_archive r' a \<and> ra_owner a = r_owner r' \<and>
             ra_state a \<in> {A_PUBLISHED, A_DELETE_PENDING} \<and> r_archive_bytes r' = Some (ra_bytes a)" by auto
      qed
    qed
  qed
  moreover have "artifact_ok d' a'" if a': "a' \<in> set (recon_artifacts d')" for a'
  proof -
    from a' obtain a where a: "a \<in> set (recon_artifacts d)" "a' = (if deletable_recon_artifact g a then ?del a else a)"
      by (auto simp: d' elim: in_update_whereE)
    with core obtain r where r: "r \<in> set (recons d)" "r_id r = ra_recon a"
      "ra_state a \<in> {A_PUBLISHED, A_DELETE_PENDING} \<longrightarrow>
          r_source_gen r = Some (ra_gen a) \<and> r_status r \<in> {R_PUBLISHED, R_PARTIAL, R_EXPIRED}"
      unfolding cap_core_def artifact_ok_def by metis
    let ?r = "if ?P r then expire_recon e r else r"
    have "?r \<in> set (recons d')" using r(1) by (force simp: d' set_update_where)
    moreover have "r_id ?r = ra_recon a'" using r(2) a(2) by (simp add: expire_recon_def)
    moreover have "ra_state a' \<in> {A_PUBLISHED, A_DELETE_PENDING} \<longrightarrow>
          r_source_gen ?r = Some (ra_gen a') \<and> r_status ?r \<in> {R_PUBLISHED, R_PARTIAL, R_EXPIRED}"
      using r(3) a(2) by (auto simp: expire_recon_def)
    ultimately show ?thesis unfolding artifact_ok_def by blast
  qed
  moreover have "distinct (map c_id (captures d')) \<and> distinct (map r_id (recons d')) \<and> distinct (map ra_id (recon_artifacts d'))
      \<and> distinct (map generation_key (recon_artifacts d'))"
    using s by (simp add: cap_schema_ok_def cap_keys_ok_def captures_unique_def recons_unique_def recon_artifacts_unique_def)
  ultimately have "cap_core d'" by (simp add: cap_core_def) (simp add: d')
  moreover have "cap_evolves d d'"
    unfolding cap_evolves_def d'
    by (auto intro!: rows_evolve_update rows_evolve_refl simp: capture_evolves_refl recon_evolves_refl
        recon_evolves_def expire_recon_def recon_paths)
  moreover have "artifacts_evolve d d'"
    unfolding artifacts_evolve_def d' by (auto intro!: rows_evolve_update simp: artifact_evolves_def)
  ultimately show ?thesis using s by (simp add: cap_preserves_def cap_inv_def) (simp add: d')
qed

section \<open>The result of a capture\<close>

text \<open>What a claim of a job says about its row.\<close>

definition job_token :: "cap_db \<Rightarrow> claimed_job \<Rightarrow> bool" where
  "job_token d t \<longleftrightarrow> (\<exists>j \<in> set (captures d). c_id j = cl_id t \<and> c_owner j = cl_owner t \<and> c_corr j = cl_corr t
     \<and> 1 \<le> cl_lease_gen t \<and> cl_lease_gen t \<le> c_lease_gen j \<and> cl_attempts t = cl_lease_gen t)"

definition batch_token :: "cap_db \<Rightarrow> claimed_outbox \<Rightarrow> bool" where
  "batch_token d o' \<longleftrightarrow> (\<exists>x \<in> set (analytics d). o_message_id x = co_id o' \<and> an_job x = co_job o')"

text \<open>A generation has at most two artifacts, of different kinds.\<close>

lemma kinds_distinct:
  assumes "distinct (map generation_key as)" "\<And>a. Q a \<Longrightarrow> ra_recon a = i \<and> ra_gen a = g"
  shows "distinct (map ra_kind (filter Q as))"
proof -
  from assms(1) have "distinct (map generation_key (filter Q as))" by (rule distinct_map_filter)
  moreover have "map generation_key (filter Q as) = map (\<lambda>k. (i, k, g)) (map ra_kind (filter Q as))"
    using assms(2) by simp
  ultimately have "distinct (map (\<lambda>k. (i, k, g)) (map ra_kind (filter Q as)))" by simp
  then show ?thesis unfolding distinct_map by blast
qed

lemma kinds_bounded:
  assumes "distinct (map ra_kind xs)"
  shows "length xs \<le> 2" "length xs = 2 \<Longrightarrow> \<exists>a \<in> set xs. ra_kind a = k"
proof -
  have univ: "set (map ra_kind xs) \<subseteq> {STATIC_ARCHIVE, RECON_MANIFEST}" using recon_kind.exhaust by auto
  have card: "card (set (map ra_kind xs)) = length xs" using distinct_card [OF assms] by simp
  have two: "card {STATIC_ARCHIVE, RECON_MANIFEST} = 2" by simp
  from card_mono [OF _ univ] card two show "length xs \<le> 2" by simp
  assume "length xs = 2"
  with card two have "set (map ra_kind xs) = {STATIC_ARCHIVE, RECON_MANIFEST}"
    by (intro card_subset_eq univ) simp_all
  then have "k \<in> ra_kind ` set xs" by (cases k) simp_all
  then show "\<exists>a \<in> set xs. ra_kind a = k" by auto
qed

lemma publishable_all:
  assumes dist: "distinct (map generation_key as)" and two: "count_where (publishable e t i xs) as = 2"
  shows "count_where (staged_of t i) as = 2"
    "\<exists>a \<in> set as. staged_of t i a \<and> ra_kind a = STATIC_ARCHIVE \<and> same_object (ro_archive xs) a"
    "a \<in> set as \<Longrightarrow> staged_of t i a \<Longrightarrow> publishable e t i xs a"
proof -
  have sub: "publishable e t i xs a \<Longrightarrow> staged_of t i a" for a by (simp add: publishable_def)
  have s: "distinct (map ra_kind (filter (staged_of t i) as))"
    by (rule kinds_distinct [OF dist, of _ i "cl_lease_gen t"]) (simp add: staged_of_def)
  have p: "distinct (map ra_kind (filter (publishable e t i xs) as))"
    by (rule kinds_distinct [OF dist, of _ i "cl_lease_gen t"]) (simp add: publishable_def staged_of_def)
  have le: "count_where (publishable e t i xs) as \<le> count_where (staged_of t i) as"
    by (rule count_where_mono) (rule sub)
  with kinds_bounded(1) [OF s] two show st: "count_where (staged_of t i) as = 2" by (simp add: count_where_def)
  from two kinds_bounded(2) [OF p, of STATIC_ARCHIVE] show
    "\<exists>a \<in> set as. staged_of t i a \<and> ra_kind a = STATIC_ARCHIVE \<and> same_object (ro_archive xs) a"
    by (auto simp: count_where_def publishable_def)
  assume a: "a \<in> set as" "staged_of t i a"
  from two kinds_bounded(2) [OF p, of "ra_kind a"] obtain b where
    b: "b \<in> set as" "publishable e t i xs b" "ra_kind b = ra_kind a" by (auto simp: count_where_def)
  with a sub have "generation_key b = generation_key a" by (simp add: staged_of_def publishable_def)
  with distinct_key_unique [OF dist b(1) a(1)] b(2) show "publishable e t i xs a" by simp
qed

text \<open>The reconstruction of a rendering job is the one the worker settles.\<close>

lemma rendering_recon:
  assumes core: "cap_core d" and t: "job_token d t" and held: "j \<in> set (captures d)" "holds_capture t j"
  obtains r where "recons_of (cl_id t) d = [r]" "find (holds_recon t) (recons d) = Some r" "r \<in> set (recons d)"
    "r_status r = R_RUNNING" "r_source_gen r = Some (cl_lease_gen t)" "r_owner r = cl_owner t" "c_owner j = cl_owner t"
    "c_corr j = cl_corr t"
proof -
  from core have dist: "distinct (map c_id (captures d))" by (simp add: cap_core_def)
  from t obtain k where k: "k \<in> set (captures d)" "c_id k = cl_id t" "c_owner k = cl_owner t" "c_corr k = cl_corr t"
    by (auto simp: job_token_def)
  with held capture_unique [OF dist k(1) held(1)] have owner: "c_owner j = cl_owner t" "c_corr j = cl_corr t"
    by (simp_all add: holds_capture_def)
  from core held obtain r where r: "recons_of (cl_id t) d = [r]" "recon_follows j r"
    by (auto simp: cap_core_def capture_ok_def holds_capture_def)
  from r(2) held(2) owner have st: "r_status r = R_RUNNING" "r_source_gen r = Some (cl_lease_gen t)" "r_owner r = cl_owner t"
    by (simp_all add: recon_follows_def holds_capture_def)
  note rin = recons_of_single [OF r(1)]
  have hr: "holds_recon t r" using st rin by (simp add: holds_recon_def)
  have "find (holds_recon t) (recons d) = Some r"
  proof (cases "find (holds_recon t) (recons d)")
    case None
    with hr rin show ?thesis by (auto simp: find_None_iff)
  next
    case (Some x)
    then have "x \<in> set (recons_of (cl_id t) d)" by (auto simp: find_Some_iff recons_of_def holds_recon_def)
    with r(1) Some show ?thesis by simp
  qed
  with that r(1) rin st owner show thesis by blast
qed

text \<open>What settling the reconstruction does.\<close>

definition settled :: "cap_env \<Rightarrow> claimed_job \<Rightarrow> recon_row \<Rightarrow> reconstruction_build \<Rightarrow> reconstruction_objects option
    \<Rightarrow> bool \<Rightarrow> cap_db \<Rightarrow> cap_db" where
  "settled e t r build objs published d = d\<lparr>
     recon_artifacts := (if published then update_where (staged_of t (r_id r)) (publish_artifact e) (recon_artifacts d)
       else recon_artifacts d),
     recons := update_where (\<lambda>x. r_id x = r_id r) (finish_recon e (terminal_status published build) build objs) (recons d)\<rparr>"

lemma settle_recon_eq:
  assumes "find (holds_recon t) (recons d) = Some r" "distinct (map generation_key (recon_artifacts d))"
  obtains published where "settle_recon e t build objs d = settled e t r build objs published d"
    "published \<Longrightarrow> bd_status build \<noteq> BUILD_FAILED \<and> (\<exists>xs. objs = Some xs
        \<and> count_where (publishable e t (r_id r) xs) (recon_artifacts d) = 2)"
    "\<not> published \<Longrightarrow> bd_status build = BUILD_FAILED \<or> bd_archive_bytes build \<in> {None, Some 0} \<or> objs = None
        \<or> (\<exists>xs. objs = Some xs \<and> count_where (publishable e t (r_id r) xs) (recon_artifacts d) \<noteq> 2)"
    "published \<Longrightarrow> bd_archive_bytes build \<notin> {None, Some 0}"
proof -
  have same: "d\<lparr>recon_artifacts := recon_artifacts d, recons := x\<rparr> = d\<lparr>recons := x\<rparr>" for x
    by (rule cap_db.equality) simp_all
  show thesis
  proof (cases "bd_status build \<noteq> BUILD_FAILED \<and> bd_archive_bytes build \<notin> {None, Some 0} \<and> (\<exists>xs. objs = Some xs
        \<and> count_where (publishable e t (r_id r) xs) (recon_artifacts d) = 2)")
    case True
    then obtain xs where xs: "objs = Some xs" "count_where (publishable e t (r_id r) xs) (recon_artifacts d) = 2" by blast
    from publishable_all(1) [OF assms(2) xs(2)] have "count_where (staged_of t (r_id r)) (recon_artifacts d) = 2" .
    with True xs assms(1) have "settle_recon e t build objs d = settled e t r build objs True d"
      by (simp add: settle_recon_def settled_def publish_recon_def)
    with True that [of True] show thesis by simp
  next
    case False
    then have "publish_recon e t (r_id r) build objs d = (False, d)"
      unfolding publish_recon_def by (auto split: option.splits)
    with assms(1) have "settle_recon e t build objs d = settled e t r build objs False d"
      by (simp add: settle_recon_def settled_def same)
    moreover from False have "bd_status build = BUILD_FAILED \<or> bd_archive_bytes build \<in> {None, Some 0} \<or> objs = None
        \<or> (\<exists>xs. objs = Some xs \<and> count_where (publishable e t (r_id r) xs) (recon_artifacts d) \<noteq> 2)"
      by (cases objs) auto
    ultimately show thesis using that [of False] by simp
  qed
qed

lemma terminal_status_cases:
  "terminal_status p b \<in> {R_PUBLISHED, R_PARTIAL, R_FAILED}"
  "terminal_status p b \<in> {R_PUBLISHED, R_PARTIAL} \<longleftrightarrow> p \<and> bd_status b \<noteq> BUILD_FAILED"
  by (auto simp: terminal_status_def split: build_status.splits)

lemma settled_artifacts:
  assumes core: "cap_core d0" and same: "recons d = recons d0" "recon_artifacts d = recon_artifacts d0"
    and r: "r \<in> set (recons d0)" "r_status r = R_RUNNING" "r_source_gen r = Some (cl_lease_gen t)" "r_owner r = cl_owner t"
    and pub: "published \<Longrightarrow> bd_status build \<noteq> BUILD_FAILED \<and> (\<exists>xs. objs = Some xs
        \<and> count_where (publishable e t (r_id r) xs) (recon_artifacts d) = 2)"
    and d': "recons d' = recons (settled e t r build objs published d)"
      "recon_artifacts d' = recon_artifacts (settled e t r build objs published d)"
  shows "(\<forall>x \<in> set (recons d'). backed d' x) \<and> (\<forall>a \<in> set (recon_artifacts d'). artifact_ok d' a)"
proof (intro conjI ballI)
  let ?st = "terminal_status published build" and ?fin = "finish_recon e (terminal_status published build) build objs"
  let ?as = "recon_artifacts d0"
  have rec: "recons d' = update_where (\<lambda>x. r_id x = r_id r) ?fin (recons d0)" by (simp add: d' settled_def same)
  have arts: "recon_artifacts d' = (if published then update_where (staged_of t (r_id r)) (publish_artifact e) ?as else ?as)"
    by (simp add: d' settled_def same)
  have dist: "distinct (map generation_key ?as)" "distinct (map r_id (recons d0))"
    using core by (simp_all add: cap_core_def)
  have only: "x = r" if "x \<in> set (recons d0)" "r_id x = r_id r" for x
    using distinct_key_unique [OF dist(2) that(1) r(1) that(2)] .
  have kept: "a \<in> set (recon_artifacts d')" if "a \<in> set ?as" "ra_state a \<noteq> A_STAGED" for a
    using that by (simp add: arts in_update_where_other staged_of_def)
  { fix x' assume "x' \<in> set (recons d')"
    then obtain x where x: "x \<in> set (recons d0)" "x' = (if r_id x = r_id r then ?fin x else x)"
      unfolding rec by (rule in_update_whereE)
    show "backed d' x'"
    proof (cases "r_id x = r_id r")
      case False
      with x have [simp]: "x' = x" by simp
      from core x(1) have "backed d0 x" by (simp add: cap_core_def)
      then show ?thesis unfolding backed_def using kept by fastforce
    next
      case True
      with x(1) only have "x = r" by blast
      with x(2) have x': "x' = ?fin r" by simp
      show ?thesis
        unfolding backed_def
      proof
        assume "r_status x' \<in> {R_PUBLISHED, R_PARTIAL}"
        then have st: "?st \<in> {R_PUBLISHED, R_PARTIAL}" by (simp add: x' finish_recon_def)
        then have p: published using terminal_status_cases(2) by blast
        with pub obtain xs where xs: "objs = Some xs" "count_where (publishable e t (r_id r) xs) ?as = 2"
          by (auto simp: same)
        from publishable_all(2) [OF dist(1) xs(2)] obtain a where a: "a \<in> set ?as" "staged_of t (r_id r) a"
          "ra_kind a = STATIC_ARCHIVE" "same_object (ro_archive xs) a" by blast
        have "publish_artifact e a \<in> set (recon_artifacts d')"
          using p a(1,2) by (force simp: arts set_update_where)
        moreover have "source_archive x' (publish_artifact e a) \<and> ra_owner (publish_artifact e a) = r_owner x'
          \<and> ra_state (publish_artifact e a) \<in> {A_PUBLISHED, A_DELETE_PENDING}
          \<and> r_archive_bytes x' = Some (ra_bytes (publish_artifact e a))"
          using a r st xs(1)
          by (auto simp: x' finish_recon_def publish_artifact_def source_archive_def staged_of_def same_object_def)
        ultimately show "\<exists>a\<in>set (recon_artifacts d'). source_archive x' a \<and> ra_owner a = r_owner x' \<and>
             ra_state a \<in> {A_PUBLISHED, A_DELETE_PENDING} \<and> r_archive_bytes x' = Some (ra_bytes a)" by blast
      qed
    qed }
  fix a' assume "a' \<in> set (recon_artifacts d')"
  then consider a where "published" "a \<in> set ?as" "staged_of t (r_id r) a" "a' = publish_artifact e a" | "a' \<in> set ?as"
    by (auto simp: arts split: if_splits elim: in_update_whereE)
  then show "artifact_ok d' a'"
  proof cases
    case 1
    have "?fin r \<in> set (recons d')" using r(1) by (force simp: rec set_update_where)
    moreover have "r_status (?fin r) \<in> {R_PUBLISHED, R_PARTIAL, R_EXPIRED}"
      using pub 1(1) terminal_status_cases(2) [of published build] by (auto simp: finish_recon_def)
    ultimately show ?thesis using 1 r unfolding artifact_ok_def
      by (intro bexI [of _ "?fin r"]) (simp_all add: publish_artifact_def staged_of_def finish_recon_def)
  next
    case 2
    with core obtain x where x: "x \<in> set (recons d0)" "r_id x = ra_recon a'"
      "ra_state a' \<in> {A_PUBLISHED, A_DELETE_PENDING} \<longrightarrow>
          r_source_gen x = Some (ra_gen a') \<and> r_status x \<in> {R_PUBLISHED, R_PARTIAL, R_EXPIRED}"
      unfolding cap_core_def artifact_ok_def by metis
    show ?thesis
    proof (cases "r_id x = r_id r")
      case False
      with x(1) have "x \<in> set (recons d')" by (simp add: rec in_update_where_other)
      with x show ?thesis unfolding artifact_ok_def by blast
    next
      case True
      with only x(1) have "x = r" by blast
      with x(3) r(2) have "ra_state a' \<notin> {A_PUBLISHED, A_DELETE_PENDING}" by auto
      moreover have "?fin r \<in> set (recons d')" using r(1) by (force simp: rec set_update_where)
      moreover have "r_id (?fin r) = ra_recon a'" using x(2) \<open>x = r\<close> by (simp add: finish_recon_def)
      ultimately show ?thesis unfolding artifact_ok_def by blast
    qed
  qed
qed

text \<open>A transaction that ends well, in the terms of the statements it issues.\<close>

lemma stageResult_Inr:
  assumes core: "cap_core d" and tok: "job_token d t"
    and ok: "stageResult K e t res html shot objs ro d = Inr (x, d')"
  obtains j r published where
    "j \<in> set (captures d)" "holds_capture t j" "r \<in> set (recons d)" "recons_of (cl_id t) d = [r]" "r_status r = R_RUNNING"
    "r_source_gen r = Some (cl_lease_gen t)" "r_owner r = cl_owner t" "cap_schema_ok (jsonb_bytes K) d'"
    "published \<Longrightarrow> bd_status (cr_reconstruction res) \<noteq> BUILD_FAILED \<and> (\<exists>xs. ro = Some xs
        \<and> count_where (publishable e t (r_id r) xs) (recon_artifacts d) = 2)"
    "\<not> published \<Longrightarrow> bd_status (cr_reconstruction res) = BUILD_FAILED \<or> bd_archive_bytes (cr_reconstruction res) \<in> {None, Some 0}
        \<or> ro = None \<or> (\<exists>xs. ro = Some xs \<and> count_where (publishable e t (r_id r) xs) (recon_artifacts d) \<noteq> 2)"
    "captures d' = update_where (\<lambda>j. c_id j = cl_id t) (\<lambda>j. next_event e (persist_capture e (expected_count res objs)
        (total_objects objs ro) (total_object_bytes html shot objs ro) j)) (captures d)"
    "recons d' = recons (settled e t r (cr_reconstruction res) ro published d)"
    "recon_artifacts d' = recon_artifacts (settled e t r (cr_reconstruction res) ro published d)"
    "snapshots d' = snapshots d @ [snapshot_of e t res html shot (length objs)]"
    "analytics d' = analytics d @ [analytics_of K e t (analytics_payload_of K e t res objs)]"
    "cap_events d' = cap_events d @ [cap_event e (cl_id t) (cl_owner t) (cl_corr t) (c_event_version j + 1)
        (indexing_event (expected_count res objs) (total_objects objs ro) (total_object_bytes html shot objs ro))]"
    "published \<Longrightarrow> bd_archive_bytes (cr_reconstruction res) \<notin> {None, Some 0}"
proof -
  let ?F = "persist_capture e (expected_count res objs) (total_objects objs ro) (total_object_bytes html shot objs ro)"
  let ?ev = "indexing_event (expected_count res objs) (total_objects objs ro) (total_object_bytes html shot objs ro)"
  let ?d1 = "d\<lparr>snapshots := snapshots d @ [snapshot_of e t res html shot (length objs)],
                object_refs := object_refs d @ map (\<lambda>i. object_of e t i (objs ! i)) [0..<length objs]\<rparr>"
  let ?d2 = "settle_recon e t (cr_reconstruction res) ro ?d1"
  let ?d3 = "?d2\<lparr>analytics := analytics ?d2 @ [analytics_of K e t (analytics_payload_of K e t res objs)]\<rparr>"
  from ok obtain j0 where j0: "j0 \<in> set (captures d)" "holds_capture t j0"
    by (auto simp: stageResult_def Let_def split: if_splits)
  from ok have enq: "enqueue e (cl_id t) (cl_owner t) (cl_corr t) ?ev (update_capture (cl_id t) ?F ?d3) = Inr d'"
    and s: "cap_schema_ok (jsonb_bytes K) d'"
    by (auto simp: stageResult_def Let_def split: if_splits)
  from core tok j0 obtain r where r: "recons_of (cl_id t) d = [r]" "find (holds_recon t) (recons d) = Some r" "r \<in> set (recons d)"
    "r_status r = R_RUNNING" "r_source_gen r = Some (cl_lease_gen t)" "r_owner r = cl_owner t" "c_owner j0 = cl_owner t"
    "c_corr j0 = cl_corr t"
    by (rule rendering_recon)
  from core have dist: "distinct (map c_id (captures d))" "distinct (map generation_key (recon_artifacts d))"
    by (simp_all add: cap_core_def)
  obtain published where pub: "?d2 = settled e t r (cr_reconstruction res) ro published ?d1"
    "published \<Longrightarrow> bd_status (cr_reconstruction res) \<noteq> BUILD_FAILED \<and> (\<exists>xs. ro = Some xs
        \<and> count_where (publishable e t (r_id r) xs) (recon_artifacts ?d1) = 2)"
    "\<not> published \<Longrightarrow> bd_status (cr_reconstruction res) = BUILD_FAILED \<or> bd_archive_bytes (cr_reconstruction res) \<in> {None, Some 0}
        \<or> ro = None \<or> (\<exists>xs. ro = Some xs \<and> count_where (publishable e t (r_id r) xs) (recon_artifacts ?d1) \<noteq> 2)"
    "published \<Longrightarrow> bd_archive_bytes (cr_reconstruction res) \<notin> {None, Some 0}"
  proof (rule settle_recon_eq [where d = ?d1 and r = r])
    show "find (holds_recon t) (recons ?d1) = Some r" "distinct (map generation_key (recon_artifacts ?d1))"
      using r dist by simp_all
  qed blast
  have caps: "captures (update_capture (cl_id t) ?F ?d3) = update_where (\<lambda>j. c_id j = cl_id t) ?F (captures d)"
    by (simp add: pub(1) settled_def)
  obtain j where j: "j \<in> set (captures d)" "c_id j = cl_id t"
    and d': "d' = (update_capture (cl_id t) ?F ?d3)\<lparr>captures := update_where (\<lambda>j. c_id j = cl_id t) (\<lambda>j. next_event e (?F j)) (captures d),
       cap_events := cap_events (update_capture (cl_id t) ?F ?d3) @ [cap_event e (cl_id t) (cl_owner t) (cl_corr t) (c_event_version j + 1) ?ev]\<rparr>"
    by (rule enqueue_after [OF enq dist(1) caps]) (simp_all add: persist_capture_def)
  have "j = j0" using capture_unique [OF dist(1) j(1) j0(1)] j(2) j0(2) by (simp add: holds_capture_def)
  show thesis
  proof (rule that [of j0 r published])
    show "captures d' = update_where (\<lambda>j. c_id j = cl_id t) (\<lambda>j. next_event e (?F j)) (captures d)" by (simp add: d')
    show "recons d' = recons (settled e t r (cr_reconstruction res) ro published d)"
      "recon_artifacts d' = recon_artifacts (settled e t r (cr_reconstruction res) ro published d)"
      "snapshots d' = snapshots d @ [snapshot_of e t res html shot (length objs)]"
      "analytics d' = analytics d @ [analytics_of K e t (analytics_payload_of K e t res objs)]"
      unfolding d' by (simp_all add: pub(1)) (simp_all add: settled_def)
    show "cap_events d' = cap_events d @ [cap_event e (cl_id t) (cl_owner t) (cl_corr t) (c_event_version j0 + 1) ?ev]"
      unfolding d' using \<open>j = j0\<close> by (simp add: pub(1)) (simp add: settled_def)
    show "published \<Longrightarrow> bd_status (cr_reconstruction res) \<noteq> BUILD_FAILED \<and> (\<exists>xs. ro = Some xs
        \<and> count_where (publishable e t (r_id r) xs) (recon_artifacts d) = 2)" using pub(2) by simp
    show "\<not> published \<Longrightarrow> bd_status (cr_reconstruction res) = BUILD_FAILED \<or> bd_archive_bytes (cr_reconstruction res) \<in> {None, Some 0}
        \<or> ro = None \<or> (\<exists>xs. ro = Some xs \<and> count_where (publishable e t (r_id r) xs) (recon_artifacts d) \<noteq> 2)"
      using pub(3) by simp
    show "published \<Longrightarrow> bd_archive_bytes (cr_reconstruction res) \<notin> {None, Some 0}" by (rule pub(4))
  qed (use j0 r s in blast)+
qed

lemma stageResult_preserves:
  assumes inv: "cap_inv K d" and tok: "job_token d t"
    and ok: "stageResult K e t res html shot objs ro d = Inr (x, d')"
  shows "cap_preserves K d d' \<and> artifacts_evolve d d'"
proof -
  from inv have core: "cap_core d" by (simp add: cap_inv_def)
  obtain j0 r published where
    j0: "j0 \<in> set (captures d)" "holds_capture t j0" and r: "r \<in> set (recons d)" "recons_of (cl_id t) d = [r]" "r_status r = R_RUNNING"
    "r_source_gen r = Some (cl_lease_gen t)" "r_owner r = cl_owner t" and s: "cap_schema_ok (jsonb_bytes K) d'" and
    pub: "published \<Longrightarrow> bd_status (cr_reconstruction res) \<noteq> BUILD_FAILED \<and> (\<exists>xs. ro = Some xs
        \<and> count_where (publishable e t (r_id r) xs) (recon_artifacts d) = 2)" and
    caps: "captures d' = update_where (\<lambda>j. c_id j = cl_id t) (\<lambda>j. next_event e (persist_capture e (expected_count res objs)
        (total_objects objs ro) (total_object_bytes html shot objs ro) j)) (captures d)" and
    recs: "recons d' = recons (settled e t r (cr_reconstruction res) ro published d)" and
    arts: "recon_artifacts d' = recon_artifacts (settled e t r (cr_reconstruction res) ro published d)" and
    snaps: "snapshots d' = snapshots d @ [snapshot_of e t res html shot (length objs)]" and
    anas: "analytics d' = analytics d @ [analytics_of K e t (analytics_payload_of K e t res objs)]" and
    evs: "cap_events d' = cap_events d @ [cap_event e (cl_id t) (cl_owner t) (cl_corr t) (c_event_version j0 + 1)
        (indexing_event (expected_count res objs) (total_objects objs ro) (total_object_bytes html shot objs ro))]"
    by (rule stageResult_Inr [OF core tok ok]) blast
  let ?F = "\<lambda>j. next_event e (persist_capture e (expected_count res objs)
        (total_objects objs ro) (total_object_bytes html shot objs ro) j)"
  let ?st = "terminal_status published (cr_reconstruction res)"
  let ?fin = "finish_recon e ?st (cr_reconstruction res) ro"
  from core have dist: "distinct (map c_id (captures d))" "distinct (map r_id (recons d))" by (simp_all add: cap_core_def)
  have only: "j = j0" if "j \<in> set (captures d)" "c_id j = cl_id t" for j
    using capture_unique [OF dist(1) that(1) j0(1)] that(2) j0(2) by (simp add: holds_capture_def)
  have "x = r" if "x \<in> set (recons d)" "r_id x = r_id r" for x
    using distinct_key_unique [OF dist(2) that(1) r(1) that(2)] .
  then have rec': "recons d' = update_where (\<lambda>x. x = r) ?fin (recons d)"
    unfolding recs settled_def by (auto simp: update_where_def)
  have slices: "batches_of k d' = batches_of k d @ (if k = cl_id t then [False] else [])"
    "length (snapshots_of k d') = length (snapshots_of k d) + (if k = cl_id t then 1 else 0)"
    "k \<noteq> cl_id t \<Longrightarrow> snapshots_of k d' = snapshots_of k d"
    "versions_of k d' = versions_of k d @ (if k = cl_id t then [c_event_version j0 + 1] else [])" for k
    by (auto simp: slice_defs snaps anas evs analytics_of_def snapshot_of_def)
  have "cap_core d' \<and> cap_evolves d d'"
  proof (rule job_core [OF core caps _ rec'])
    show "batches_of k d' = batches_of k d \<and> snapshots_of k d' = snapshots_of k d \<and> versions_of k d' = versions_of k d"
      if "k \<noteq> cl_id t" for k using that by (simp add: slices)
    show "distinct (map ra_id (recon_artifacts d'))" "distinct (map generation_key (recon_artifacts d'))"
      using s by (simp_all add: cap_schema_ok_def cap_keys_ok_def recon_artifacts_unique_def)
    show "(\<forall>x \<in> set (recons d'). backed d' x) \<and> (\<forall>a \<in> set (recon_artifacts d'). artifact_ok d' a)"
      by (rule settled_artifacts [OF core refl refl r(1,3,4,5) pub recs arts])
    show "x = r \<Longrightarrow> r_job x = cl_id t" for x using recons_of_single(2) [OF r(2)] by simp
    show "r_id (?fin x) = r_id x \<and> r_job (?fin x) = r_job x" for x by (simp add: finish_recon_def)
    show "c_id (?F j) = c_id j" for j by (simp add: evolve_keys)
  next
    fix j q assume j: "j \<in> set (captures d)" "c_id j = cl_id t" "capture_ok d j" and "r_job q = cl_id t" "recon_follows j q"
      "recons_of (cl_id t) d' = [if q = r then ?fin q else q]"
    have own: "recons_of (cl_id t) d' = [?fin r]"
    proof -
      have "recons_of (cl_id t) d' = update_where (\<lambda>x. x = r) ?fin (recons_of (cl_id t) d)"
        unfolding recons_of_def rec' by (rule filter_update_where) (simp add: finish_recon_def)
      then show ?thesis by (simp add: r(2))
    qed
    have "j = j0" using only j by blast
    have st: "c_status j0 = C_RENDERING" "cl_id t = c_id j0" "c_lease_gen j0 = cl_lease_gen t" using j0(2) by (simp_all add: holds_capture_def)
    from core j0(1) have ok: "capture_ok d j0" by (simp add: cap_core_def)
    then have facts: "batches_of (c_id j0) d = []" "length (snapshots_of (c_id j0) d) = 0"
        "versions_of (c_id j0) d = [1..<Suc (c_event_version j0)]" "c_lease_gen j0 = c_attempts j0"
      using st(1) by (simp_all add: capture_ok_def batches_for_def)
    obtain q where q: "recons_of (c_id j0) d = [q]" "recon_follows j0 q" using ok by (auto simp: capture_ok_def)
    with r(2) st(2) have owner: "c_owner j0 = r_owner r" by (simp add: recon_follows_def)
    from tok have pos: "1 \<le> cl_lease_gen t" by (auto simp: job_token_def)
    have "r_status (?fin r) \<in> {R_PUBLISHED, R_PARTIAL, R_FAILED}"
      using terminal_status_cases(1) [of published "cr_reconstruction res"] by (simp add: finish_recon_def)
    then have "recon_follows (?F j0) (?fin r)"
      using r(4) st(3) owner
      by (auto simp: recon_follows_def next_event_def persist_capture_def finish_recon_def)
    moreover have "c_id (?F j0) = c_id j0" "c_status (?F j0) = C_PERSISTING" "c_event_version (?F j0) = c_event_version j0 + 1"
        "c_lease_gen (?F j0) = c_lease_gen j0" "c_attempts (?F j0) = c_attempts j0" "c_published (?F j0) = 0"
      by (simp_all add: next_event_def persist_capture_def)
    moreover have "recons_of (c_id j0) d' = [?fin r]" using own st(2) by simp
    moreover have "batches_of (c_id j0) d' = [False]" "length (snapshots_of (c_id j0) d') = 1"
        "versions_of (c_id j0) d' = [1..<Suc (c_event_version j0 + 1)]"
      using st(2) facts by (simp_all add: slices)
    moreover have "0 < c_attempts j0" using st(3) facts(4) pos by simp
    ultimately show "capture_ok d' (?F j)"
      using facts(4) unfolding capture_ok_def \<open>j = j0\<close> by (simp add: batches_for_def)
  next
    fix j assume "j \<in> set (captures d)" "c_id j = cl_id t"
    with only have "j = j0" by blast
    with j0(2) show "capture_evolves j (?F j)"
      by (auto simp: capture_evolves_def next_event_def persist_capture_def holds_capture_def capture_paths)
  next
    fix q assume "q = r"
    with r(3) terminal_status_cases(1) [of published "cr_reconstruction res"] show "recon_evolves q (?fin q)"
      by (auto simp: recon_evolves_def finish_recon_def recon_paths)
  qed
  moreover have "artifacts_evolve d d'"
    unfolding artifacts_evolve_def arts settled_def
    by (auto intro!: rows_evolve_update rows_evolve_refl simp: artifact_evolves_def staged_of_def publish_artifact_def)
  ultimately show ?thesis using s by (simp add: cap_preserves_def cap_inv_def)
qed

section \<open>The end of the analytics\<close>

lemma completeAnalytics_steps:
  assumes inv: "cap_inv K d" and tok: "batch_token d o'"
    and x: "x \<in> set (analytics d)" "claimed_by (co_id o') (co_lease_owner o') x"
  obtains j where "j \<in> set (captures d)" "c_id j = co_job o'" "c_status j = C_PERSISTING"
    "batches_of (c_id j) (d\<lparr>analytics := update_where (claimed_by (co_id o') (co_lease_owner o'))
        (deliver_analytics (t_now e)) (analytics d)\<rparr>) = [True]"
    "\<And>k. k \<noteq> c_id j \<Longrightarrow> batches_of k (d\<lparr>analytics := update_where (claimed_by (co_id o') (co_lease_owner o'))
        (deliver_analytics (t_now e)) (analytics d)\<rparr>) = batches_of k d"
proof -
  let ?P = "claimed_by (co_id o') (co_lease_owner o')" and ?f = "deliver_analytics (t_now e)"
  from inv have core: "cap_core d" and refs: "cap_references_ok d" and dist: "distinct (map o_message_id (analytics d))"
    by (simp_all add: cap_inv_def cap_schema_ok_def cap_keys_ok_def analytics_unique_def)
  from tok obtain y where y: "y \<in> set (analytics d)" "o_message_id y = co_id o'" "an_job y = co_job o'"
    by (auto simp: batch_token_def)
  have xy: "x = y" using distinct_key_unique [OF dist x(1) y(1)] x(2) y(2) by (simp add: claimed_by_def)
  from refs x(1) xy y(3) obtain j where j: "j \<in> set (captures d)" "c_id j = co_job o'"
    by (auto simp: cap_references_ok_def)
  from core j(1) have ok: "capture_ok d j" by (simp add: cap_core_def)
  have fj: "an_job (?f z) = an_job z" for z by (simp add: deliver_analytics_def deliver_row_def)
  have split: "batches_of k (d\<lparr>analytics := update_where ?P ?f (analytics d)\<rparr>)
      = map (\<lambda>z. o_status z = DELIVERED) (update_where ?P ?f (filter (\<lambda>z. an_job z = k) (analytics d)))" for k
    by (simp add: batches_of_def filter_update_where fj)
  let ?own = "filter (\<lambda>z. an_job z = c_id j) (analytics d)"
  have mem: "x \<in> set ?own" using x(1) xy y(3) j(2) by simp
  from ok have b: "map (\<lambda>z. o_status z = DELIVERED) ?own = batches_for (c_status j)"
    by (simp add: capture_ok_def batches_of_def)
  have "length (batches_for (c_status j)) \<le> 1" by (simp add: batches_for_def split: capture_status.splits)
  then have "length ?own \<le> 1" unfolding b [symmetric] by simp
  with mem have one: "?own = [x]" by (cases ?own) auto
  have "o_status x \<noteq> DELIVERED" using x(2) by (simp add: claimed_by_def)
  with b one have "batches_for (c_status j) = [False]" by simp
  then have st: "c_status j = C_PERSISTING" by (simp add: batches_for_def split: capture_status.splits)
  have "batches_of (c_id j) (d\<lparr>analytics := update_where ?P ?f (analytics d)\<rparr>) = [True]"
    unfolding split one using x(2) by (simp add: deliver_analytics_def deliver_row_def)
  moreover have "batches_of k (d\<lparr>analytics := update_where ?P ?f (analytics d)\<rparr>) = batches_of k d" if "k \<noteq> c_id j" for k
  proof -
    have "\<not> ?P z" if z: "z \<in> set (filter (\<lambda>z. an_job z = k) (analytics d))" for z
    proof
      assume "?P z"
      then have "z = x" using distinct_key_unique [OF dist _ x(1), of z] z x(2) by (simp add: claimed_by_def)
      with z xy y(3) j(2) \<open>k \<noteq> c_id j\<close> show False by simp
    qed
    then have "update_where ?P ?f (filter (\<lambda>z. an_job z = k) (analytics d)) = filter (\<lambda>z. an_job z = k) (analytics d)"
      by (rule update_where_none)
    then show ?thesis unfolding split by (simp add: batches_of_def)
  qed
  ultimately show thesis using that j st by blast
qed

lemma completeAnalytics_preserves:
  assumes inv: "cap_inv K d" and tok: "batch_token d o'" and ok: "completeAnalytics K e o' d = Inr (u, d')"
  shows "cap_preserves K d d' \<and> recon_artifacts d' = recon_artifacts d"
proof -
  from inv have core: "cap_core d" by (simp add: cap_inv_def)
  then have dist: "distinct (map c_id (captures d))" by (simp add: cap_core_def)
  let ?P = "claimed_by (co_id o') (co_lease_owner o')"
  let ?xs = "update_where ?P (deliver_analytics (t_now e)) (analytics d)"
  let ?d1 = "d\<lparr>analytics := ?xs\<rparr>"
  from ok obtain x where x: "x \<in> set (analytics d)" "?P x"
    by (auto simp: completeAnalytics_def split: if_splits)
  obtain j where j: "j \<in> set (captures d)" "c_id j = co_job o'" "c_status j = C_PERSISTING"
    and own: "batches_of (c_id j) ?d1 = [True]" and other: "\<And>k. k \<noteq> c_id j \<Longrightarrow> batches_of k ?d1 = batches_of k d"
    by (rule completeAnalytics_steps [OF inv tok x, where e = e]) blast
  from ok x obtain row where
    enq: "enqueue e (co_job o') (c_owner row) (c_corr row) (completed_event row) (update_capture (co_job o') (complete_capture e) ?d1) = Inr d'"
    and s: "cap_schema_ok (jsonb_bytes K) d'"
    by (auto simp: completeAnalytics_def Let_def split: option.splits if_splits)
  let ?F = "\<lambda>j. next_event e (complete_capture e j)"
  have caps: "captures (update_capture (co_job o') (complete_capture e) ?d1) = update_where (\<lambda>j. c_id j = co_job o') (complete_capture e) (captures d)"
    by simp
  obtain k where k: "k \<in> set (captures d)" "c_id k = co_job o'"
    and d': "d' = (update_capture (co_job o') (complete_capture e) ?d1)\<lparr>captures := update_where (\<lambda>j. c_id j = co_job o') ?F (captures d),
       cap_events := cap_events (update_capture (co_job o') (complete_capture e) ?d1)
         @ [cap_event e (co_job o') (c_owner row) (c_corr row) (c_event_version k + 1) (completed_event row)]\<rparr>"
    by (rule enqueue_after [OF enq dist caps]) (simp_all add: complete_capture_def)
  have kj: "k = j" using capture_unique [OF dist k(1) j(1)] k(2) j(2) by simp
  have slices: "batches_of i d' = batches_of i ?d1" "snapshots_of i d' = snapshots_of i d"
    "versions_of i d' = versions_of i d @ (if i = co_job o' then [c_event_version j + 1] else [])" for i
    by (simp_all add: slice_defs d' kj)
  have none: "update_where (\<lambda>r. False) f ys = ys" for f and ys :: "recon_row list" by (rule update_where_none) simp
  have "cap_core d' \<and> cap_evolves d d'"
  proof (rule job_core [OF core, where i = "co_job o'" and F = ?F and P = "\<lambda>_. False" and g = "\<lambda>r. r"])
    show "captures d' = update_where (\<lambda>j. c_id j = co_job o') ?F (captures d)" by (simp add: d')
    show "recons d' = update_where (\<lambda>_. False) (\<lambda>r. r) (recons d)" by (simp add: d' none)
    show "batches_of i d' = batches_of i d \<and> snapshots_of i d' = snapshots_of i d \<and> versions_of i d' = versions_of i d"
      if "i \<noteq> co_job o'" for i using that other [of i] j(2) by (simp add: slices)
    show "distinct (map ra_id (recon_artifacts d'))" "distinct (map generation_key (recon_artifacts d'))"
      using core by (simp_all add: cap_core_def d')
    show "(\<forall>r\<in>set (recons d'). backed d' r) \<and> (\<forall>a\<in>set (recon_artifacts d'). artifact_ok d' a)"
      using core by (simp add: cap_core_def d' backed_def artifact_ok_def)
    fix i r assume i: "i \<in> set (captures d)" "c_id i = co_job o'" "capture_ok d i" "recon_follows i r"
      "recons_of (co_job o') d' = [if False then r else r]"
    have [simp]: "i = j" using capture_unique [OF dist i(1) j(1)] i(2) j(2) by simp
    from i j own show "capture_ok d' (?F i)"
      by (simp add: capture_ok_def slices recon_follows_def batches_for_def next_event_def complete_capture_def)
  next
    fix i assume i: "i \<in> set (captures d)" "c_id i = co_job o'"
    have "i = j" using capture_unique [OF dist i(1) j(1)] i(2) j(2) by simp
    with j(3) show "capture_evolves i (?F i)"
      by (auto simp: capture_evolves_def next_event_def complete_capture_def capture_paths)
  qed (simp_all add: evolve_keys)
  with s show ?thesis by (simp add: cap_preserves_def cap_inv_def d')
qed

end
