(* ===== verification/Capture_System.thy ===== *)
theory Capture_System
  imports Capture_Preserve_Results
begin

text \<open>
  The capture store and the workers that hold its claims as a transition system: any sequence of
  transactions at any times, in which a worker only uses claims it was given.
\<close>

section \<open>Operations\<close>

record cap_sys =
  cap_store :: cap_db
  job_claims :: "claimed_job list"
  batch_claims :: "claimed_outbox list"
  deletion_claims :: "claimed_recon_artifact list"
  horizon :: time

datatype cap_op =
  AcceptCapture capture_command
| ClaimJob uuid
| ExtendLease claimed_job
| StageReconstruction claimed_job reconstruction_objects
| StageResult claimed_job capture_result stored_object stored_object "(resource_body \<times> stored_object) list" "reconstruction_objects option"
| FailJob claimed_job string
| ClaimAnalytics uuid
| CompleteAnalytics claimed_outbox
| RetryAnalytics claimed_outbox string
| ClaimCaptureEvent uuid
| CompleteCaptureEvent claimed_cap_event
| RetryCaptureEvent claimed_cap_event string
| ClaimReconArtifact
| CompleteReconArtifact claimed_recon_artifact
| RetryReconArtifact claimed_recon_artifact

definition on_cap_store :: "cap_env \<Rightarrow> cap_sys \<Rightarrow> cap_error + ('a \<times> cap_db) \<Rightarrow> cap_error + ('a \<times> cap_sys)" where
  "on_cap_store e s r = rbind r (\<lambda>(x, d). Inr (x, s\<lparr>cap_store := d, horizon := max (horizon s) (t_now e)\<rparr>))"

definition silent :: "cap_error + ('a \<times> cap_sys) \<Rightarrow> cap_error + cap_sys" where
  "silent r = rbind r (\<lambda>(_, s). Inr s)"

definition keep_claim :: "('a \<Rightarrow> cap_sys \<Rightarrow> cap_sys) \<Rightarrow> cap_error + ('a option \<times> cap_sys) \<Rightarrow> cap_error + cap_sys" where
  "keep_claim put r = rbind r (\<lambda>(c, s). Inr (case c of None \<Rightarrow> s | Some x \<Rightarrow> put x s))"

fun cap_exec :: "platform \<Rightarrow> cap_env \<Rightarrow> cap_op \<Rightarrow> cap_sys \<Rightarrow> cap_error + cap_sys" where
  "cap_exec K e (AcceptCapture c) s = silent (on_cap_store e s (acceptCapture K e c (cap_store s)))"
| "cap_exec K e (ClaimJob w) s = keep_claim (\<lambda>t s. s\<lparr>job_claims := t # job_claims s\<rparr>)
     (on_cap_store e s (claimJob K e w (cap_store s)))"
| "cap_exec K e (ExtendLease t) s = silent (on_cap_store e s (extendLease K e t (cap_store s)))"
| "cap_exec K e (StageReconstruction t xs) s = silent (on_cap_store e s (stageReconstructionArtifacts K e t xs (cap_store s)))"
| "cap_exec K e (StageResult t res h sh objs ro) s = silent (on_cap_store e s (stageResult K e t res h sh objs ro (cap_store s)))"
| "cap_exec K e (FailJob t code) s = silent (on_cap_store e s (failJob K e t code (cap_store s)))"
| "cap_exec K e (ClaimAnalytics w) s = keep_claim (\<lambda>t s. s\<lparr>batch_claims := t # batch_claims s\<rparr>)
     (on_cap_store e s (claimAnalytics K e w (cap_store s)))"
| "cap_exec K e (CompleteAnalytics b) s = silent (on_cap_store e s (completeAnalytics K e b (cap_store s)))"
| "cap_exec K e (RetryAnalytics b code) s = silent (on_cap_store e s (retryAnalytics K e b code (cap_store s)))"
| "cap_exec K e (ClaimCaptureEvent w) s = silent (on_cap_store e s (claimCaptureEvent K e w (cap_store s)))"
| "cap_exec K e (CompleteCaptureEvent v) s = silent (on_cap_store e s (completeCaptureEvent K e v (cap_store s)))"
| "cap_exec K e (RetryCaptureEvent v code) s = silent (on_cap_store e s (retryCaptureEvent K e v code (cap_store s)))"
| "cap_exec K e ClaimReconArtifact s = keep_claim (\<lambda>t s. s\<lparr>deletion_claims := t # deletion_claims s\<rparr>)
     (on_cap_store e s (claimReconArtifact K e (cap_store s)))"
| "cap_exec K e (CompleteReconArtifact g) s = silent (on_cap_store e s (completeReconArtifact K e g (cap_store s)))"
| "cap_exec K e (RetryReconArtifact g) s = silent (on_cap_store e s (retryReconArtifact K e g (cap_store s)))"

text \<open>A worker only uses claims the store gave out.\<close>

fun holds_cap_claims :: "cap_op \<Rightarrow> cap_sys \<Rightarrow> bool" where
  "holds_cap_claims (ExtendLease t) s = (t \<in> set (job_claims s))"
| "holds_cap_claims (StageReconstruction t _) s = (t \<in> set (job_claims s))"
| "holds_cap_claims (StageResult t _ _ _ _ _) s = (t \<in> set (job_claims s))"
| "holds_cap_claims (FailJob t _) s = (t \<in> set (job_claims s))"
| "holds_cap_claims (CompleteAnalytics b) s = (b \<in> set (batch_claims s))"
| "holds_cap_claims (RetryAnalytics b _) s = (b \<in> set (batch_claims s))"
| "holds_cap_claims (CompleteReconArtifact g) s = (g \<in> set (deletion_claims s))"
| "holds_cap_claims (RetryReconArtifact g) s = (g \<in> set (deletion_claims s))"
| "holds_cap_claims _ s = True"

inductive cap_step :: "platform \<Rightarrow> cap_sys \<Rightarrow> cap_sys \<Rightarrow> bool" for K where
  step: "holds_cap_claims op s \<Longrightarrow> cap_exec K e op s = Inr s' \<Longrightarrow> cap_step K s s'"

inductive_cases cap_stepE: "cap_step K s s'"

abbreviation cap_steps :: "platform \<Rightarrow> cap_sys \<Rightarrow> cap_sys \<Rightarrow> bool" where
  "cap_steps K \<equiv> (cap_step K)\<^sup>*\<^sup>*"

definition empty_cap_db :: cap_db where
  "empty_cap_db = \<lparr> captures = [], snapshots = [], object_refs = [], analytics = [], cap_events = [],
     recons = [], recon_artifacts = [] \<rparr>"

definition initial_cap_sys :: cap_sys where
  "initial_cap_sys = \<lparr> cap_store = empty_cap_db, job_claims = [], batch_claims = [], deletion_claims = [], horizon = 0 \<rparr>"

definition cap_reachable :: "platform \<Rightarrow> cap_sys \<Rightarrow> bool" where
  "cap_reachable K s \<longleftrightarrow> cap_steps K initial_cap_sys s"

lemma silent_Inr: "(silent r = Inr s) = (\<exists>x. r = Inr (x, s))"
  by (auto simp: silent_def)

lemma keep_claim_Inr: "(keep_claim put r = Inr s') =
    (\<exists>c s. r = Inr (c, s) \<and> s' = (case c of None \<Rightarrow> s | Some x \<Rightarrow> put x s))"
  by (auto simp: keep_claim_def)

lemma on_cap_store_Inr: "(on_cap_store e s r = Inr (x, s')) =
    (\<exists>d. r = Inr (x, d) \<and> s' = s\<lparr>cap_store := d, horizon := max (horizon s) (t_now e)\<rparr>)"
  by (auto simp: on_cap_store_def)

lemmas cap_exec_Inr = silent_Inr keep_claim_Inr on_cap_store_Inr

section \<open>How the outboxes move\<close>

definition batch_step :: "time \<Rightarrow> analytics_row \<Rightarrow> analytics_row \<Rightarrow> bool" where
  "batch_step t x y \<longleftrightarrow> delivery_step t (delivery.truncate x) (delivery.truncate y) \<and> an_job y = an_job x"

definition batches_evolve :: "time \<Rightarrow> cap_db \<Rightarrow> cap_db \<Rightarrow> bool" where
  "batches_evolve t d d' \<longleftrightarrow> rows_evolve (batch_step t) (analytics d) (analytics d')"

lemma batch_step_refl: "batch_step t x x"
  by (simp add: batch_step_def delivery_step.stay)

lemma batches_same: "analytics d' = analytics d \<Longrightarrow> batches_evolve t d d'"
  by (simp add: batches_evolve_def rows_evolve_refl batch_step_refl)

lemma analytics_truncate_simps:
  "delivery.truncate (claim_row t w x) = claim_row t w (delivery.truncate x)"
  "delivery.truncate (deliver_row t x) = deliver_row t (delivery.truncate x)"
  "delivery.truncate (requeue_row hash t c x) = requeue_row hash t c (delivery.truncate x)"
  by (simp_all add: delivery.truncate_def claim_row_def deliver_row_def requeue_row_def retry_delay_def)

lemma truncate_analytics [simp]:
  "delivery.truncate (x\<lparr>an_updated := u\<rparr>) = delivery.truncate x"
  "delivery.truncate (x\<lparr>an_payload := p\<rparr>) = delivery.truncate (x::analytics_row)"
  by (simp_all add: delivery.truncate_def)

lemma truncate_select [simp]:
  "o_status (delivery.truncate x) = o_status x" "deliverable t (delivery.truncate x) = deliverable t x"
  "o_message_id (delivery.truncate x) = o_message_id x"
  by (simp_all add: delivery.truncate_def deliverable_def)

lemma batch_steps:
  "deliverable t x \<Longrightarrow> batch_step t x ((claim_row t w x)\<lparr>an_updated := u\<rparr>)"
  "o_status x = CLAIMED \<Longrightarrow> batch_step t x (deliver_analytics t x)"
  "o_status x = CLAIMED \<Longrightarrow> batch_step t x ((requeue_row hash t code x)\<lparr>an_updated := u\<rparr>)"
  by (simp_all add: batch_step_def deliver_analytics_def analytics_truncate_simps delivery_step.claim delivery_step.complete
      delivery_step.retry)
    (simp_all add: claim_row_def deliver_row_def requeue_row_def)

lemma claimAnalytics_batches:
  assumes inv: "cap_inv K d" and ok: "claimAnalytics K e w d = Inr (r, d')"
  shows "batches_evolve (t_now e) d d'"
    "r = Some b \<Longrightarrow> batch_token d' b"
proof -
  from inv have dist: "distinct (map o_message_id (analytics d))"
    by (simp add: cap_inv_def cap_schema_ok_def cap_keys_ok_def analytics_unique_def)
  let ?first = "first_by (\<lambda>x. (o_available x, o_created x, o_message_id x))
         (\<lambda>x. deliverable (t_now e) x \<and> \<not> locked_analytics e (o_message_id x)) (analytics d)"
  have "batches_evolve (t_now e) d d' \<and> (r = Some b \<longrightarrow> batch_token d' b)"
  proof (cases ?first)
    case None
    then have c: "claim_delivery (t_now e) (locked_analytics e) w (analytics d) = (None, analytics d)"
      by (simp add: claim_delivery_def)
    have none: "update_where (\<lambda>x. False) f xs = xs" for f and xs :: "analytics_row list" by (rule update_where_none) simp
    from ok c have "r = None" "analytics d' = analytics d" by (auto simp: claimAnalytics_def none)
    then show ?thesis by (simp add: batches_same)
  next
    case (Some c)
    let ?g = "\<lambda>x. (claim_row (t_now e) w x)\<lparr>an_updated := t_now e\<rparr>"
    have c: "claim_delivery (t_now e) (locked_analytics e) w (analytics d) =
       (Some (claim_row (t_now e) w c), update_where (\<lambda>x. o_message_id x = o_message_id c) (claim_row (t_now e) w) (analytics d))"
      using Some by (simp add: claim_delivery_def)
    have id: "o_message_id (claim_row (t_now e) w x) = o_message_id x" for x :: analytics_row by (simp add: claim_row_def)
    have "update_where (\<lambda>x. o_message_id c = o_message_id x) (\<lambda>x. x\<lparr>an_updated := t_now e\<rparr>)
        (update_where (\<lambda>x. o_message_id x = o_message_id c) (claim_row (t_now e) w) xs)
      = update_where (\<lambda>x. o_message_id x = o_message_id c) ?g xs" for xs :: "analytics_row list"
      by (induction xs) (auto simp: id)
    with ok c have anas: "analytics d' = update_where (\<lambda>x. o_message_id x = o_message_id c) ?g (analytics d)"
      and r: "r = Some \<lparr> co_id = o_message_id c, co_job = an_job c, co_owner = an_owner c,
              co_payload = an_payload c, co_payload_sha = an_payload_sha c, co_lease_owner = w \<rparr>"
      by (auto simp: claimAnalytics_def claim_row_def)
    from first_by_Some [OF Some] have cin: "c \<in> set (analytics d)" "deliverable (t_now e) c" by blast+
    have "batch_step (t_now e) x (?g x)" if "x \<in> set (analytics d)" "o_message_id x = o_message_id c" for x
    proof -
      have "x = c" using distinct_key_unique [OF dist that(1) cin(1) that(2)] .
      with cin(2) show ?thesis by (simp add: batch_steps)
    qed
    then have "batches_evolve (t_now e) d d'"
      unfolding batches_evolve_def anas by (intro rows_evolve_update batch_step_refl)
    moreover have "?g c \<in> set (analytics d')" using cin(1) by (force simp: anas set_update_where)
    then have "batch_token d' b" if "r = Some b"
      using that r unfolding batch_token_def by (intro bexI [of _ "?g c"]) (auto simp: claim_row_def)
    ultimately show ?thesis by blast
  qed
  then show "batches_evolve (t_now e) d d'" "r = Some b \<Longrightarrow> batch_token d' b" by blast+
qed

lemma completeAnalytics_batches:
  assumes inv: "cap_inv K d" and ok: "completeAnalytics K e b d = Inr (u, d')"
  shows "batches_evolve (t_now e) d d'"
proof -
  from ok obtain row d1 where "enqueue e (co_job b) (c_owner row) (c_corr row) (completed_event row) d1 = Inr d'"
    "analytics d1 = update_where (claimed_by (co_id b) (co_lease_owner b)) (deliver_analytics (t_now e)) (analytics d)"
    "distinct (map c_id (captures d1)) = distinct (map c_id (captures d))"
    by (auto simp: completeAnalytics_def Let_def map_update_where_key [where key = c_id] complete_capture_def
        split: option.splits if_splits)
  moreover from inv have "distinct (map c_id (captures d))" by (simp add: cap_inv_def cap_core_def)
  ultimately have "analytics d' = update_where (claimed_by (co_id b) (co_lease_owner b)) (deliver_analytics (t_now e)) (analytics d)"
    by (auto elim: enqueue_Inr)
  then show ?thesis
    unfolding batches_evolve_def
    by (auto intro!: rows_evolve_update simp: batch_step_refl batch_steps claimed_by_def)
qed

lemma retryAnalytics_batches:
  "retryAnalytics K e b code d = Inr (u, d') \<Longrightarrow> batches_evolve (t_now e) d d'"
  unfolding batches_evolve_def
  by (auto intro!: rows_evolve_update simp: retryAnalytics_def batch_step_refl batch_steps claimed_by_def)

lemma stageResult_batches:
  assumes "cap_inv K d" "job_token d t" "stageResult K e t res html shot objs ro d = Inr (x, d')"
  shows "batches_evolve (t_now e) d d'"
proof -
  have "\<exists>new. analytics d' = analytics d @ new"
    using assms by (auto simp: cap_inv_def elim!: stageResult_Inr)
  then show ?thesis unfolding batches_evolve_def by (auto intro!: rows_evolve_append batch_step_refl)
qed

definition events_evolve :: "time \<Rightarrow> cap_db \<Rightarrow> cap_db \<Rightarrow> bool" where
  "events_evolve t d d' \<longleftrightarrow> rows_step t (cap_events d) (cap_events d')"

definition events_grow :: "cap_db \<Rightarrow> cap_db \<Rightarrow> bool" where
  "events_grow d d' \<longleftrightarrow> (\<exists>new. cap_events d' = cap_events d @ new)"

lemma events_grow_refl: "cap_events d' = cap_events d \<Longrightarrow> events_grow d d'"
  by (simp add: events_grow_def)

lemma events_grow_trans: "events_grow d d' \<Longrightarrow> events_grow d' d'' \<Longrightarrow> events_grow d d''"
  by (auto simp: events_grow_def)

lemma grow_evolve: "events_grow d d' \<Longrightarrow> events_evolve t d d'"
  unfolding events_grow_def events_evolve_def by (auto simp: rows_step_append simp del: map_append)

lemma enqueue_grows: "enqueue e i owner corr b d = Inr d' \<Longrightarrow> events_grow d d'"
  by (auto simp: enqueue_def Let_def events_grow_def split: option.splits)

lemma abandon_grows: "abandon_capture e code msg k d = Inr d' \<Longrightarrow> events_grow d d'"
  by (cases k) (auto simp: abandon_capture_def Let_def events_grow_def dest!: enqueue_grows)

lemma abandon_all_grows: "rfold (abandon_capture e code msg) ks d = Inr d' \<Longrightarrow> events_grow d d'"
proof (induction ks arbitrary: d)
  case Nil
  then show ?case by (simp add: events_grow_refl)
next
  case (Cons k ks)
  then obtain d1 where "abandon_capture e code msg k d = Inr d1" "rfold (abandon_capture e code msg) ks d1 = Inr d'" by auto
  with Cons.IH abandon_grows events_grow_trans show ?case by blast
qed

lemma claimJob_grows:
  assumes "claimJob K e w d = Inr (r, d')"
  shows "events_grow d d'"
proof -
  from assms obtain d1 where d1: "reclaim_captures e d = Inr d1" and
    rest: "(case first_by (\<lambda>j. (c_available j, c_accepted j, c_id j)) (capture_candidate e) (captures d1) of
       None \<Rightarrow> cap_commit K None d1
     | Some c \<Rightarrow> rbind (lease_job e w c d1)
         (cap_commit K (Some (capture_claim w (lease_capture e w c))))) = Inr (r, d')"
    by (auto simp: claimJob_def)
  from d1 have 1: "events_grow d d1"
    by (auto simp: reclaim_captures_def events_grow_def dest!: abandon_all_grows)
  from rest have "events_grow d1 d'"
    by (auto simp: lease_job_def Let_def events_grow_def split: option.splits dest!: enqueue_grows)
  with 1 show ?thesis by (rule events_grow_trans)
qed

lemma acceptCapture_grows: "acceptCapture K e c d = Inr (r, d') \<Longrightarrow> events_grow d d'"
  by (auto simp: acceptCapture_def events_grow_def split: option.splits if_splits)

lemma extendLease_grows: "extendLease K e t d = Inr (r, d') \<Longrightarrow> events_grow d d'"
  by (auto simp: extendLease_def events_grow_def)

lemma failJob_grows: "failJob K e t code d = Inr (r, d') \<Longrightarrow> events_grow d d'"
  by (auto simp: failJob_def events_grow_refl split: option.splits if_splits dest!: abandon_grows)

lemma stageRecon_grows: "stageReconstructionArtifacts K e t xs d = Inr (r, d') \<Longrightarrow> events_grow d d'"
  by (auto simp: stageReconstructionArtifacts_def events_grow_def split: option.splits if_splits)

lemma stageResult_grows:
  "cap_inv K d \<Longrightarrow> job_token d t \<Longrightarrow> stageResult K e t res html shot objs ro d = Inr (x, d') \<Longrightarrow> events_grow d d'"
  unfolding events_grow_def by (auto simp: cap_inv_def elim!: stageResult_Inr)

lemma completeAnalytics_grows: "completeAnalytics K e b d = Inr (r, d') \<Longrightarrow> events_grow d d'"
  by (auto simp: completeAnalytics_def Let_def events_grow_def split: option.splits if_splits dest!: enqueue_grows)

lemma analytics_same_events:
  "claimAnalytics K e w d = Inr (r, d') \<Longrightarrow> events_grow d d'"
  "retryAnalytics K e b code d = Inr (u, d') \<Longrightarrow> events_grow d d'"
  by (auto simp: claimAnalytics_def retryAnalytics_def events_grow_def split: prod.splits)

lemma artifacts_same_events:
  "claimReconArtifact K e d = Inr (g, d') \<Longrightarrow> events_grow d d'"
  "completeReconArtifact K e h d = Inr (u, d') \<Longrightarrow> events_grow d d'"
  "retryReconArtifact K e h d = Inr (u, d') \<Longrightarrow> events_grow d d'"
  by (auto simp: claimReconArtifact_def completeReconArtifact_def retryReconArtifact_def Let_def events_grow_def
      split: option.splits if_splits)

lemma claimCaptureEvent_moves:
  assumes inv: "cap_inv K d" and ok: "claimCaptureEvent K e w d = Inr (r, d')"
  shows "events_evolve (t_now e) d d'"
proof -
  obtain x rows where r: "claim_delivery (t_now e) (locked_cap_event e) w (cap_events d) = (x, rows)" by fastforce
  with ok have "cap_events d' = rows" by (auto simp: claimCaptureEvent_def)
  moreover have "distinct (map o_message_id (cap_events d))"
    using inv by (simp add: cap_inv_def cap_schema_ok_def cap_keys_ok_def events_unique_def)
  ultimately show ?thesis using claim_delivery_moves [OF r] by (simp add: events_evolve_def)
qed

lemma event_moves:
  "completeCaptureEvent K e v d = Inr (r, d') \<Longrightarrow> events_evolve (t_now e) d d'"
  "retryCaptureEvent K e v code d = Inr (r, d') \<Longrightarrow> events_evolve (t_now e) d d'"
  by (auto simp: completeCaptureEvent_def retryCaptureEvent_def events_evolve_def complete_delivery_moves retry_delivery_moves)

section \<open>One step of the store\<close>

definition cap_moves :: "platform \<Rightarrow> time \<Rightarrow> cap_db \<Rightarrow> cap_db \<Rightarrow> bool" where
  "cap_moves K t d d' \<longleftrightarrow> cap_inv K d' \<and> cap_evolves d d' \<and> artifacts_evolve d d'
     \<and> batches_evolve t d d' \<and> events_evolve t d d'"

lemma preserves_moves:
  "cap_preserves K d d' \<and> recon_artifacts d' = recon_artifacts d \<and> analytics d' = analytics d \<Longrightarrow>
    events_grow d d' \<Longrightarrow> cap_moves K t d d'"
  by (simp add: cap_preserves_def cap_moves_def artifacts_same batches_same grow_evolve)

definition tokens_ok :: "cap_sys \<Rightarrow> bool" where
  "tokens_ok s \<longleftrightarrow> (\<forall>t \<in> set (job_claims s). job_token (cap_store s) t)
     \<and> (\<forall>b \<in> set (batch_claims s). batch_token (cap_store s) b)
     \<and> (\<forall>g \<in> set (deletion_claims s). deletion_token (cap_store s) g)
     \<and> distinct (map (\<lambda>t. (cl_id t, cl_lease_gen t)) (job_claims s))"

definition cap_sys_inv :: "platform \<Rightarrow> cap_sys \<Rightarrow> bool" where
  "cap_sys_inv K s \<longleftrightarrow> cap_inv K (cap_store s) \<and> tokens_ok s"

lemma cap_exec_moves:
  assumes inv: "cap_sys_inv K s" and held: "holds_cap_claims op s" and ok: "cap_exec K e op s = Inr s'"
  shows "cap_moves K (t_now e) (cap_store s) (cap_store s')"
proof -
  let ?d = "cap_store s"
  from inv have i: "cap_inv K ?d" by (simp add: cap_sys_inv_def)
  have job: "job_token ?d t" if "t \<in> set (job_claims s)" for t
    using inv that by (simp add: cap_sys_inv_def tokens_ok_def)
  have batch: "batch_token ?d b" if "b \<in> set (batch_claims s)" for b
    using inv that by (simp add: cap_sys_inv_def tokens_ok_def)
  have del: "deletion_token ?d g" if "g \<in> set (deletion_claims s)" for g
    using inv that by (simp add: cap_sys_inv_def tokens_ok_def)
  note plain = acceptCapture_preserves [OF i, THEN preserves_moves] claimJob_preserves [OF i, THEN preserves_moves]
    extendLease_preserves [OF i, THEN preserves_moves] failJob_preserves [OF i, THEN preserves_moves]
  note grows = acceptCapture_grows claimJob_grows extendLease_grows failJob_grows
  have del_moves: "cap_moves K (t_now e) ?d d'" if "cap_preserves K ?d d' \<and> analytics d' = analytics ?d \<and> artifacts_evolve ?d d'"
      "events_grow ?d d'" for d'
    using that by (simp add: cap_preserves_def cap_moves_def batches_same grow_evolve)
  have ana_moves: "cap_moves K (t_now e) ?d d'" if "cap_preserves K ?d d' \<and> recon_artifacts d' = recon_artifacts ?d"
      "batches_evolve (t_now e) ?d d'" "events_grow ?d d'" for d'
    using that by (simp add: cap_preserves_def cap_moves_def artifacts_same grow_evolve)
  have ev_moves: "cap_moves K (t_now e) ?d d'" if "cap_preserves K ?d d' \<and> recon_artifacts d' = recon_artifacts ?d \<and> analytics d' = analytics ?d"
      "events_evolve (t_now e) ?d d'" for d'
    using that by (simp add: cap_preserves_def cap_moves_def artifacts_same batches_same)
  have res: "cap_moves K (t_now e) ?d d'" if "t \<in> set (job_claims s)" "stageResult K e t res h sh objs ro ?d = Inr (x, d')" for t res h sh objs ro x d'
    using stageResult_preserves [OF i job [OF that(1)] that(2)] stageResult_grows [OF i job [OF that(1)] that(2)]
      stageResult_batches [OF i job [OF that(1)] that(2)]
    by (simp add: cap_preserves_def cap_moves_def grow_evolve)
  show ?thesis
  proof (cases op)
    case (AcceptCapture c)
    with ok obtain x d where "acceptCapture K e c ?d = Inr (x, d)" "cap_store s' = d" by (auto simp: cap_exec_Inr)
    with plain(1) grows(1) show ?thesis by blast
  next
    case (ClaimJob w)
    with ok obtain c d where "claimJob K e w ?d = Inr (c, d)" "cap_store s' = d"
      by (auto simp: cap_exec_Inr split: option.splits)
    with plain(2) grows(2) show ?thesis by blast
  next
    case (ExtendLease t)
    with ok obtain x d where "extendLease K e t ?d = Inr (x, d)" "cap_store s' = d" by (auto simp: cap_exec_Inr)
    with plain(3) grows(3) show ?thesis by blast
  next
    case (StageReconstruction t xs)
    with ok obtain x d where "stageReconstructionArtifacts K e t xs ?d = Inr (x, d)" "cap_store s' = d"
      by (auto simp: cap_exec_Inr)
    with del_moves stageRecon_preserves [OF i] stageRecon_grows show ?thesis by blast
  next
    case (StageResult t res h sh objs ro)
    with ok held obtain x d where "stageResult K e t res h sh objs ro ?d = Inr (x, d)" "cap_store s' = d" "t \<in> set (job_claims s)"
      by (auto simp: cap_exec_Inr)
    with res show ?thesis by blast
  next
    case (FailJob t code)
    with ok obtain x d where "failJob K e t code ?d = Inr (x, d)" "cap_store s' = d" by (auto simp: cap_exec_Inr)
    with plain(4) grows(4) show ?thesis by blast
  next
    case (ClaimAnalytics w)
    with ok obtain c d where "claimAnalytics K e w ?d = Inr (c, d)" "cap_store s' = d"
      by (auto simp: cap_exec_Inr split: option.splits)
    with ana_moves claimAnalytics_preserves [OF i] claimAnalytics_batches(1) [OF i] analytics_same_events(1)
    show ?thesis by blast
  next
    case (CompleteAnalytics b)
    with ok held obtain x d where "completeAnalytics K e b ?d = Inr (x, d)" "cap_store s' = d" "b \<in> set (batch_claims s)"
      by (auto simp: cap_exec_Inr)
    with ana_moves completeAnalytics_preserves [OF i batch] completeAnalytics_batches [OF i] completeAnalytics_grows
    show ?thesis by blast
  next
    case (RetryAnalytics b code)
    with ok obtain x d where "retryAnalytics K e b code ?d = Inr (x, d)" "cap_store s' = d" by (auto simp: cap_exec_Inr)
    with ana_moves retryAnalytics_preserves [OF i] retryAnalytics_batches analytics_same_events(2) show ?thesis by blast
  next
    case (ClaimCaptureEvent w)
    with ok obtain x d where "claimCaptureEvent K e w ?d = Inr (x, d)" "cap_store s' = d" by (auto simp: cap_exec_Inr)
    with ev_moves claimCaptureEvent_preserves [OF i] claimCaptureEvent_moves [OF i] show ?thesis by blast
  next
    case (CompleteCaptureEvent v)
    with ok obtain x d where "completeCaptureEvent K e v ?d = Inr (x, d)" "cap_store s' = d" by (auto simp: cap_exec_Inr)
    with ev_moves completeCaptureEvent_preserves [OF i] event_moves(1) show ?thesis by blast
  next
    case (RetryCaptureEvent v code)
    with ok obtain x d where "retryCaptureEvent K e v code ?d = Inr (x, d)" "cap_store s' = d" by (auto simp: cap_exec_Inr)
    with ev_moves retryCaptureEvent_preserves [OF i] event_moves(2) show ?thesis by blast
  next
    case ClaimReconArtifact
    with ok obtain c d where "claimReconArtifact K e ?d = Inr (c, d)" "cap_store s' = d"
      by (auto simp: cap_exec_Inr split: option.splits)
    with del_moves claimReconArtifact_preserves [OF i] artifacts_same_events(1) show ?thesis by blast
  next
    case (CompleteReconArtifact g)
    with ok held obtain x d where "completeReconArtifact K e g ?d = Inr (x, d)" "cap_store s' = d" "g \<in> set (deletion_claims s)"
      by (auto simp: cap_exec_Inr)
    with del_moves completeReconArtifact_preserves [OF i del] artifacts_same_events(2) show ?thesis by blast
  next
    case (RetryReconArtifact g)
    with ok obtain x d where "retryReconArtifact K e g ?d = Inr (x, d)" "cap_store s' = d" by (auto simp: cap_exec_Inr)
    with del_moves retryReconArtifact_preserves [OF i] artifacts_same_events(3) show ?thesis by blast
  qed
qed

end
