(* ===== verification/Capture_Contracts.thy ===== *)
theory Capture_Contracts
  imports Capture_System Leases
begin

text \<open>
  The claims stay true of their rows, the invariant holds in every reachable state, and the capture store
  meets the contracts of \<open>Outbox\<close> (for its events and its analytics batches) and of \<open>Leases\<close>.
\<close>

section \<open>The claims\<close>

lemma cap_evolves_row:
  assumes "cap_evolves d d'" "j \<in> set (captures d)"
  obtains k where "k \<in> set (captures d')" "capture_evolves j k"
  using assms unfolding cap_evolves_def by (blast elim: rows_evolve_row)

lemma claimJob_claim:
  assumes inv: "cap_inv K d" and ok: "claimJob K e w d = Inr (Some t, d')"
  shows "job_token d' t" "j \<in> set (captures d) \<Longrightarrow> c_id j = cl_id t \<Longrightarrow> c_lease_gen j < cl_lease_gen t"
proof -
  from inv have core: "cap_core d" by (simp add: cap_inv_def)
  from ok obtain d1 c where d1: "reclaim_captures e d = Inr d1" and
    c: "first_by (\<lambda>j. (c_available j, c_accepted j, c_id j)) (capture_candidate e) (captures d1) = Some c"
    and l: "lease_job e w c d1 = Inr d'" and t: "t = capture_claim w (lease_capture e w c)"
    by (auto simp: claimJob_def split: option.splits)
  from reclaim_captures_core [OF core d1] have core1: "cap_core d1" and ev1: "cap_evolves d d1" by blast+
  from first_by_Some [OF c] have cin: "c \<in> set (captures d1)" "c_status c = C_QUEUED"
    by (auto simp: capture_candidate_def)
  from core1 cin(1) have "c_lease_gen c = c_attempts c" by (simp add: cap_core_def capture_ok_def)
  moreover have "next_event e (lease_capture e w c) \<in> set (captures d')"
    unfolding lease_core(2) [OF core1 cin l] using cin(1) by (force simp: set_update_where)
  ultimately show "job_token d' t" unfolding job_token_def t
    by (intro bexI [of _ "next_event e (lease_capture e w c)"])
      (simp_all add: capture_claim_def next_event_def lease_capture_def)
  assume j: "j \<in> set (captures d)" "c_id j = cl_id t"
  from cap_evolves_row [OF ev1 j(1)] obtain k where k: "k \<in> set (captures d1)" "capture_evolves j k" .
  with j(2) t have "c_id k = c_id c" by (simp add: capture_evolves_def capture_claim_def lease_capture_def)
  with k(1) cin(1) core1 have "k = c" by (auto simp: cap_core_def dest: distinct_key_unique)
  with k(2) t show "c_lease_gen j < cl_lease_gen t" by (simp add: capture_evolves_def capture_claim_def lease_capture_def)
qed

lemma claimReconArtifact_claim:
  assumes ok: "claimReconArtifact K e d = Inr (Some g, d')"
  obtains a where "a \<in> set (recon_artifacts d)" "recon_artifact_due e a" "g = recon_artifact_claim a"
    "recon_artifacts d' = update_where (\<lambda>x. ra_id x = ra_id a) (mark_recon_artifact e) (recon_artifacts d)"
proof -
  from ok obtain a where a: "first_by (\<lambda>a. (ra_delete_after a, ra_id a)) (recon_artifact_due e) (recon_artifacts d) = Some a"
    "g = recon_artifact_claim a"
    "recon_artifacts d' = update_where (\<lambda>x. ra_id x = ra_id a) (mark_recon_artifact e) (recon_artifacts d)"
    by (auto simp: claimReconArtifact_def split: option.splits)
  from first_by_Some [OF a(1)] a(2,3) that show thesis by blast
qed

lemma claimReconArtifact_token:
  assumes "claimReconArtifact K e d = Inr (Some g, d')"
  shows "deletion_token d' g"
proof -
  from assms obtain a where a: "a \<in> set (recon_artifacts d)" "g = recon_artifact_claim a"
    "recon_artifacts d' = update_where (\<lambda>x. ra_id x = ra_id a) (mark_recon_artifact e) (recon_artifacts d)"
    by (rule claimReconArtifact_claim)
  then have "mark_recon_artifact e a \<in> set (recon_artifacts d')" by (force simp: set_update_where)
  with a(2) show ?thesis unfolding deletion_token_def
    by (intro bexI [of _ "mark_recon_artifact e a"]) (simp_all add: recon_artifact_claim_def mark_recon_artifact_def)
qed

text \<open>Claims stay true of the rows they were taken from.\<close>

lemma tokens_kept:
  assumes "cap_moves K t d d'"
  shows "job_token d u \<Longrightarrow> job_token d' u" "batch_token d b \<Longrightarrow> batch_token d' b" "deletion_token d g \<Longrightarrow> deletion_token d' g"
proof -
  from assms have ev: "cap_evolves d d'" "rows_evolve artifact_evolves (recon_artifacts d) (recon_artifacts d')"
    "rows_evolve (batch_step t) (analytics d) (analytics d')"
    by (simp_all add: cap_moves_def artifacts_evolve_def batches_evolve_def)
  { assume "job_token d u"
    then obtain j where j: "j \<in> set (captures d)" "c_id j = cl_id u" "c_owner j = cl_owner u" "c_corr j = cl_corr u"
      "1 \<le> cl_lease_gen u" "cl_lease_gen u \<le> c_lease_gen j" "cl_attempts u = cl_lease_gen u"
      by (auto simp: job_token_def)
    from cap_evolves_row [OF ev(1) j(1)] obtain k where "k \<in> set (captures d')" "capture_evolves j k" .
    with j show "job_token d' u" unfolding job_token_def capture_evolves_def by (intro bexI [of _ k]) simp_all }
  { assume "batch_token d b"
    then obtain x where x: "x \<in> set (analytics d)" "o_message_id x = co_id b" "an_job x = co_job b"
      by (auto simp: batch_token_def)
    from rows_evolve_row [OF ev(3) x(1)] obtain y where "y \<in> set (analytics d')" "batch_step t x y" .
    with x delivery_step_id show "batch_token d' b" unfolding batch_token_def batch_step_def by fastforce }
  { assume "deletion_token d g"
    then obtain a where a: "a \<in> set (recon_artifacts d)" "ra_id a = cg_id g" "ra_recon a = cg_recon g" "ra_kind a = cg_kind g"
      by (auto simp: deletion_token_def)
    from rows_evolve_row [OF ev(2) a(1)] obtain b where "b \<in> set (recon_artifacts d')" "artifact_evolves a b" .
    with a show "deletion_token d' g" unfolding deletion_token_def artifact_evolves_def by (intro bexI [of _ b]) simp_all }
qed

lemma claims_kept:
  assumes "cap_exec K e op s = Inr s'"
  shows "(job_claims s' = job_claims s \<or> (\<exists>w t d. op = ClaimJob w \<and> claimJob K e w (cap_store s) = Inr (Some t, d)
        \<and> cap_store s' = d \<and> job_claims s' = t # job_claims s))
    \<and> (batch_claims s' = batch_claims s \<or> (\<exists>w b d. claimAnalytics K e w (cap_store s) = Inr (Some b, d)
        \<and> cap_store s' = d \<and> batch_claims s' = b # batch_claims s))
    \<and> (deletion_claims s' = deletion_claims s \<or> (\<exists>g d. op = ClaimReconArtifact \<and> claimReconArtifact K e (cap_store s) = Inr (Some g, d)
        \<and> cap_store s' = d \<and> deletion_claims s' = g # deletion_claims s))
    \<and> horizon s' = max (horizon s) (t_now e)"
  using assms by (cases op) (auto simp: cap_exec_Inr split: option.splits)

lemma cap_exec_inv:
  assumes inv: "cap_sys_inv K s" and held: "holds_cap_claims op s" and ok: "cap_exec K e op s = Inr s'"
  shows "cap_sys_inv K s'"
proof -
  from inv have i: "cap_inv K (cap_store s)" and tok: "tokens_ok s" by (simp_all add: cap_sys_inv_def)
  from cap_exec_moves [OF inv held ok] have mv: "cap_moves K (t_now e) (cap_store s) (cap_store s')" .
  note kept = tokens_kept [OF mv]
  note claims = claims_kept [OF ok]
  have "\<forall>t \<in> set (job_claims s'). job_token (cap_store s') t"
    using tok kept(1) claims claimJob_claim(1) [OF i] unfolding tokens_ok_def by fastforce
  moreover have "distinct (map (\<lambda>t. (cl_id t, cl_lease_gen t)) (job_claims s'))"
  proof (cases "job_claims s' = job_claims s")
    case True
    with tok show ?thesis by (simp add: tokens_ok_def)
  next
    case False
    with claims obtain w t d where t: "claimJob K e w (cap_store s) = Inr (Some t, d)" "job_claims s' = t # job_claims s" by blast
    have "(cl_id u, cl_lease_gen u) \<noteq> (cl_id t, cl_lease_gen t)" if "u \<in> set (job_claims s)" for u
    proof -
      from tok that obtain j where "j \<in> set (captures (cap_store s))" "c_id j = cl_id u" "cl_lease_gen u \<le> c_lease_gen j"
        unfolding tokens_ok_def job_token_def by blast
      with claimJob_claim(2) [OF i t(1)] show ?thesis by fastforce
    qed
    with t tok show ?thesis by (force simp: tokens_ok_def)
  qed
  moreover have "\<forall>b \<in> set (batch_claims s'). batch_token (cap_store s') b"
    using tok kept(2) claims claimAnalytics_batches(2) [OF i] unfolding tokens_ok_def by fastforce
  moreover have "\<forall>g \<in> set (deletion_claims s'). deletion_token (cap_store s') g"
    using tok kept(3) claims claimReconArtifact_token unfolding tokens_ok_def by fastforce
  ultimately show ?thesis using mv by (simp add: cap_sys_inv_def tokens_ok_def cap_moves_def)
qed

lemma cap_step_inv: "cap_step K s s' \<Longrightarrow> cap_sys_inv K s \<Longrightarrow> cap_sys_inv K s'"
  by (elim cap_stepE) (rule cap_exec_inv)

lemma initial_cap_inv: "cap_sys_inv K initial_cap_sys"
  by (simp add: cap_sys_inv_def initial_cap_sys_def empty_cap_db_def cap_inv_def cap_core_def tokens_ok_def
      cap_schema_ok_def cap_rows_ok_def cap_keys_ok_def cap_references_ok_def captures_unique_def snapshots_unique_def
      objects_unique_def analytics_unique_def events_unique_def recons_unique_def recon_artifacts_unique_def)

lemma cap_steps_inv: "cap_steps K s s' \<Longrightarrow> cap_sys_inv K s \<Longrightarrow> cap_sys_inv K s'"
  by (induction rule: rtranclp_induct) (auto intro: cap_step_inv)

lemma cap_reachable_inv: "cap_reachable K s \<Longrightarrow> cap_sys_inv K s"
  unfolding cap_reachable_def by (rule cap_steps_inv [OF _ initial_cap_inv])

lemma cap_reachable_store: "cap_reachable K s \<Longrightarrow> cap_inv K (cap_store s)"
  using cap_reachable_inv by (auto simp: cap_sys_inv_def)

lemma cap_reachable_steps: "cap_reachable K s \<Longrightarrow> cap_steps K s s' \<Longrightarrow> cap_reachable K s'"
  unfolding cap_reachable_def by (rule rtranclp_trans)

lemma cap_reachable_next:
  assumes "cap_reachable K s" "cap_exec K e op s = Inr s'" "holds_cap_claims op s"
  shows "cap_reachable K s'"
  using assms unfolding cap_reachable_def by (blast intro: rtranclp.rtrancl_into_rtrancl cap_step.step)

section \<open>The contracts of the store\<close>

definition cap_timed_step :: "platform \<Rightarrow> time \<Rightarrow> cap_sys \<Rightarrow> cap_sys \<Rightarrow> bool" where
  "cap_timed_step K t s s' \<longleftrightarrow> cap_sys_inv K s
     \<and> (\<exists>op e. t_now e = t \<and> holds_cap_claims op s \<and> cap_exec K e op s = Inr s')"

definition cap_safe_step :: "platform \<Rightarrow> cap_sys \<Rightarrow> cap_sys \<Rightarrow> bool" where
  "cap_safe_step K s s' \<longleftrightarrow> cap_sys_inv K s \<and> cap_step K s s'"

definition event_queue :: "cap_sys \<Rightarrow> delivery list" where
  "event_queue s = map delivery.truncate (cap_events (cap_store s))"

definition batch_queue :: "cap_sys \<Rightarrow> delivery list" where
  "batch_queue s = map delivery.truncate (analytics (cap_store s))"

lemma timed_moves: "cap_timed_step K t s s' \<Longrightarrow> cap_moves K t (cap_store s) (cap_store s')"
  unfolding cap_timed_step_def using cap_exec_moves by blast

interpretation capture_events: outbox_store event_queue "cap_timed_step K" for K
  by unfold_locales (auto simp: event_queue_def cap_moves_def events_evolve_def dest!: timed_moves)

interpretation capture_batches: outbox_store batch_queue "cap_timed_step K" for K
proof
  fix t s s' assume "cap_timed_step K t s s'"
  then have "rows_evolve (batch_step t) (analytics (cap_store s)) (analytics (cap_store s'))"
    by (auto simp: cap_moves_def batches_evolve_def dest!: timed_moves)
  then obtain old new where "analytics (cap_store s') = old @ new" "list_all2 (batch_step t) (analytics (cap_store s)) old"
    by (auto simp: rows_evolve_def)
  moreover from this(2) have "list_all2 (delivery_step t) (map delivery.truncate (analytics (cap_store s))) (map delivery.truncate old)"
    unfolding list_all2_map1 list_all2_map2 by (rule list_all2_mono) (simp add: batch_step_def)
  ultimately show "rows_evolve (delivery_step t) (batch_queue s) (batch_queue s')"
    unfolding batch_queue_def rows_evolve_def
    by (intro exI [of _ "map delivery.truncate old"] exI [of _ "map delivery.truncate new"]) simp
qed

definition capture_gen :: "cap_sys \<Rightarrow> uuid \<Rightarrow> nat" where
  "capture_gen s i = (case find_capture i (cap_store s) of None \<Rightarrow> 0 | Some j \<Rightarrow> c_lease_gen j)"

definition capture_holder :: "cap_sys \<Rightarrow> uuid \<Rightarrow> uuid option" where
  "capture_holder s i = (case find_capture i (cap_store s) of None \<Rightarrow> None | Some j \<Rightarrow> c_lease_owner j)"

lemma safe_evolves: "cap_safe_step K s s' \<Longrightarrow> cap_evolves (cap_store s) (cap_store s') \<and> cap_inv K (cap_store s')"
  unfolding cap_safe_step_def using cap_exec_moves by (auto simp: cap_moves_def elim!: cap_stepE)

lemma capture_after:
  assumes "cap_safe_step K s s'" "find_capture i (cap_store s) = Some j"
  obtains k where "find_capture i (cap_store s') = Some k" "capture_evolves j k"
proof -
  from find_capture_Some [OF assms(2)] have j: "j \<in> set (captures (cap_store s))" "c_id j = i" by blast+
  from safe_evolves [OF assms(1)] j(1) obtain k where k: "k \<in> set (captures (cap_store s'))" "capture_evolves j k"
    by (blast elim: cap_evolves_row)
  from safe_evolves [OF assms(1)] have "distinct (map c_id (captures (cap_store s')))" by (simp add: cap_inv_def cap_core_def)
  from find_capture_eq [OF this k(1)] k(2) j(2) that show thesis by (simp add: capture_evolves_def)
qed

interpretation capture_leases: lease_table "cap_safe_step K" capture_gen capture_holder for K
proof
  fix s s' i assume step: "cap_safe_step K s s'"
  show "capture_gen s i \<le> capture_gen s' i"
  proof (cases "find_capture i (cap_store s)")
    case (Some j)
    with step obtain k where "find_capture i (cap_store s') = Some k" "capture_evolves j k" by (rule capture_after)
    with Some show ?thesis by (simp add: capture_gen_def capture_evolves_def)
  qed (simp add: capture_gen_def)
  assume gen: "0 < capture_gen s i" "capture_gen s' i = capture_gen s i"
  from gen(1) obtain j where j: "find_capture i (cap_store s) = Some j" by (auto simp: capture_gen_def split: option.splits)
  with step obtain k where "find_capture i (cap_store s') = Some k" "capture_evolves j k" by (rule capture_after)
  with j gen show "capture_holder s' i = None \<or> capture_holder s' i = capture_holder s i"
    by (auto simp: capture_gen_def capture_holder_def capture_evolves_def)
qed

lemma cap_reachable_safe:
  assumes "cap_reachable K s" "cap_steps K s s'"
  shows "(cap_safe_step K)\<^sup>*\<^sup>* s s'"
  using assms(2)
proof (induction rule: rtranclp_induct)
  case (step y z)
  from cap_reachable_inv [OF cap_reachable_steps [OF assms(1) step.hyps(1)]] step
  show ?case by (auto simp: cap_safe_step_def intro: rtranclp.rtrancl_into_rtrancl)
qed simp

lemma cap_reachable_later:
  assumes "cap_reachable K s" "cap_steps K s s'"
  shows "capture_events.later K s s'" "capture_batches.later K s s'"
  using assms(2)
proof (induction rule: rtranclp_induct)
  case base
  show "capture_events.later K s s" "capture_batches.later K s s"
    by (rule capture_events.later.now, rule capture_batches.later.now)
next
  case (step y z)
  from cap_reachable_inv [OF cap_reachable_steps [OF assms(1) step.hyps(1)]] step.hyps(2)
  obtain t where t: "cap_timed_step K t y z" by (auto simp: cap_timed_step_def elim!: cap_stepE)
  from step.IH t show "capture_events.later K s z" "capture_batches.later K s z"
    by (auto intro: capture_events.later.tick capture_batches.later.tick)
qed

lemma cap_steps_evolve:
  assumes "cap_reachable K s" "cap_steps K s s'"
  shows "cap_evolves (cap_store s) (cap_store s')"
  using cap_reachable_safe [OF assms]
  by (induction rule: rtranclp_induct) (auto intro: cap_evolves_refl cap_evolves_trans dest: safe_evolves)

end
