(* ===== verification/Capture_Scenario.thy ===== *)
theory Capture_Scenario
  imports Capture_Contracts
begin

text \<open>
  A concrete run of the capture workflow: a command is accepted, a first attempt stages its archive and
  fails, a second one publishes; then the staged archive of the first attempt is collected. The
  witnesses of the properties evaluate on its states.
\<close>

declare order_by_simps [simp]

section \<open>Inputs\<close>

definition digest0 :: digest where "digest0 = replicate 32 (CHR ''0'')"

definition platform0 :: platform where
  "platform0 = \<lparr> command_sha = (\<lambda>_. digest0), json_bytes = (\<lambda>_. 100), json_sha = (\<lambda>_. digest0),
     body_sha = (\<lambda>_. digest0), jsonb_bytes = (\<lambda>_. 120), hashtext = (\<lambda>u. int u) \<rparr>"

definition cap_env_at :: "nat \<Rightarrow> cap_env" where
  "cap_env_at t = \<lparr> t_now = seconds t, t_wall = seconds t, new_event = (\<lambda>j v. 1000 * j + v), new_recon = 50,
     new_artifact = (\<lambda>k. case k of STATIC_ARCHIVE \<Rightarrow> 10 * t | RECON_MANIFEST \<Rightarrow> 10 * t + 1),
     new_batch = 60, new_snapshot = 61, new_object = (\<lambda>i. 70 + i), locked_capture = (\<lambda>_. False),
     locked_analytics = (\<lambda>_. False), locked_cap_event = (\<lambda>_. False), locked_recon_artifact = (\<lambda>_. False) \<rparr>"

definition demo_observation :: static_observation where
  "demo_observation = \<lparr> so_title = None, so_description = None, so_canonical_url = None, so_h1 = None,
     so_links = 0, so_images = 0, so_schema_org_types = [], so_observed_at = None \<rparr>"

definition demo_payload :: capture_payload where
  "demo_payload = \<lparr> pl_capture_request = 7, pl_owner = 3, pl_scan = 4, pl_page = 5, pl_target_url = ''https://a/'',
     pl_viewport_width = 1440, pl_viewport_height = 900, pl_timeout_seconds = 30, pl_max_total_bytes = 1000,
     pl_max_resource_bytes = 100, pl_max_network_requests = 500, pl_max_resource_bodies = 100,
     pl_measurement_profile = ''p'', pl_static_observation = demo_observation \<rparr>"

definition demo_command :: capture_command where
  "demo_command = \<lparr> cc_message_id = 1, cc_aggregate_id = 7, cc_aggregate_version = 1, cc_corr = 2,
     cc_occurred_at = ''t'', cc_payload = demo_payload \<rparr>"

definition demo_object :: "string \<Rightarrow> string \<Rightarrow> nat \<Rightarrow> stored_object" where
  "demo_object key type n = \<lparr> so_bucket = ''b'', so_key = key, so_bytes = n, so_sha = digest0, so_content_type = type \<rparr>"

definition demo_clone :: "string \<Rightarrow> reconstruction_objects" where
  "demo_clone key = \<lparr> ro_archive = demo_object (key @ ''.zip'') ''application/zip'' 90,
     ro_manifest = demo_object (key @ ''.json'') ''application/json'' 30 \<rparr>"

definition demo_measurement :: measurement where
  "demo_measurement = \<lparr> me_status = UNAVAILABLE, me_value = None, me_unit = MS, me_profile_version = ''p'',
     me_unavailable_reason = Some ''NONE'' \<rparr>"

definition demo_result :: capture_result where
  "demo_result = \<lparr> cr_final_url = ''https://a/'', cr_html = ''h'', cr_screenshot = ''s'',
     cr_rendered = \<lparr> rm_title = [], rm_description = [], rm_canonical_url = [], rm_meta_robots = [], rm_h1 = [],
       rm_word_count = 0, rm_link_count = 0, rm_image_count = 0,
       rm_open_graph = \<lparr> og_title = [], og_description = [], og_image_url = [] \<rparr>, rm_schema_org_types = [] \<rparr>,
     cr_diff = \<lparr> df_static_observed_at = None, df_rendered_observed_at = ''t'', df_title_changed = False,
       df_description_changed = False, df_canonical_changed = False, df_h1_changed = False,
       df_content_changed = False, df_link_count_delta = 0, df_image_count_delta = 0, df_schema_types_changed = False \<rparr>,
     cr_performance = \<lparr> pf_lcp = demo_measurement, pf_cls = demo_measurement, pf_ttfb = demo_measurement \<rparr>,
     cr_network = [], cr_resource_bodies = [], cr_browser_version = ''1'', cr_observed_at = seconds 12,
     cr_total_transfer_bytes = 10,
     cr_reconstruction = \<lparr> bd_status = BUILD_PUBLISHED, bd_engine_version = ''e'', bd_discovered = 1, bd_packaged = 1,
       bd_skipped = 0, bd_input_bytes = 10, bd_archive_bytes = Some 90, bd_completeness_code = Some ''COMPLETE'',
       bd_failure_code = None \<rparr> \<rparr>"

definition demo_html :: stored_object where "demo_html = demo_object ''h'' ''text/html'' 8"
definition demo_shot :: stored_object where "demo_shot = demo_object ''s'' ''image/png'' 9"

lemmas cap_input_defs = digest0_def platform0_def cap_env_at_def demo_observation_def demo_payload_def demo_command_def
  demo_object_def demo_clone_def demo_measurement_def demo_result_def demo_html_def demo_shot_def

lemmas cap_schema_defs = cap_schema_ok_def cap_rows_ok_def cap_keys_ok_def cap_references_ok_def captures_unique_def
  snapshots_unique_def objects_unique_def analytics_unique_def events_unique_def recons_unique_def
  recon_artifacts_unique_def capture_check_def snapshot_check_def object_check_def analytics_check_def
  recon_check_def recon_counts_check_def recon_lifecycle_check_def recon_time_check_def recon_artifact_check_def

lemmas cap_run_defs = cap_input_defs cap_schema_defs seconds_def minutes_def days_def backoff_seconds_def Let_def first_by_def
  acceptCapture_def new_capture_def new_recon_row_def engine_version_def empty_cap_db_def initial_cap_sys_def
  claimJob_def reclaim_captures_def exhausted_captures_def reclaimable_def requeue_capture_def capture_candidate_def
  lease_capture_def start_recon_def capture_claim_def lease_job_def recon_active_def
  enqueue_def update_capture_def find_capture_def next_event_def bare_event_def cap_event_def
  stageReconstructionArtifacts_def holds_capture_def holds_recon_def staged_artifact_def
  failJob_def postpone_capture_def
  stageResult_def analytics_payload_of_def expected_count_def total_objects_def total_object_bytes_def snapshot_of_def
  settle_recon_def publish_recon_def publishable_def staged_of_def same_object_def publish_artifact_def terminal_status_def
  failure_code_def finish_recon_def analytics_of_def persist_capture_def indexing_event_def
  claimReconArtifact_def recon_artifact_due_def mark_recon_artifact_def recon_artifact_claim_def
  completeReconArtifact_def deletable_recon_artifact_def expire_recon_def
  cap_commit_def on_cap_store_def silent_def keep_claim_def

section \<open>The run\<close>

definition row1 :: capture_row where
  "row1 = new_capture platform0 (cap_env_at 0) demo_command"

lemmas row1_nf = row1_def [simplified cap_run_defs, simplified]

definition rec1 :: recon_row where
  "rec1 = new_recon_row (cap_env_at 0) demo_command"

lemmas rec1_nf = rec1_def [simplified cap_run_defs, simplified]

definition cap1 :: cap_sys where
  "cap1 = initial_cap_sys\<lparr>cap_store := empty_cap_db\<lparr>captures := [row1], recons := [rec1]\<rparr>\<rparr>"

lemmas cap1_nf = cap1_def [unfolded row1_nf rec1_nf, simplified cap_run_defs, simplified]

lemma cap_run1: "cap_exec platform0 (cap_env_at 0) (AcceptCapture demo_command) initial_cap_sys = Inr cap1"
  unfolding cap1_nf by (simp add: cap_run_defs)


definition token1 :: claimed_job where
  "token1 = \<lparr> cl_id = 7, cl_owner = 3, cl_scan = 4, cl_page = 5, cl_corr = 2, cl_payload = demo_payload,
     cl_lease_owner = 9, cl_lease_gen = 1, cl_attempts = 1 \<rparr>"

definition row2 :: capture_row where
  "row2 = row1\<lparr>c_status := C_RENDERING, c_attempts := 1, c_lease_owner := Some 9, c_lease_gen := 1,
     c_lease_expires := Some (seconds 46), c_event_version := 1, c_started := Some (seconds 1), c_updated := seconds 1\<rparr>"

lemmas row2_nf = row2_def [unfolded row1_nf, simplified cap_run_defs, simplified]

definition rec2 :: recon_row where
  "rec2 = rec1\<lparr>r_status := R_RUNNING, r_source_gen := Some 1, r_started := Some (seconds 1), r_updated := seconds 1, r_version := 1\<rparr>"

lemmas rec2_nf = rec2_def [unfolded rec1_nf, simplified cap_run_defs, simplified]

definition ev2 :: event_row where
  "ev2 = cap_event (cap_env_at 1) 7 3 2 1 (bare_event PH_RUNNING None None)"

lemmas ev2_nf = ev2_def [simplified cap_run_defs, simplified]

definition cap2 :: cap_sys where
  "cap2 = initial_cap_sys\<lparr>cap_store := empty_cap_db\<lparr>captures := [row2], recons := [rec2], cap_events := [ev2]\<rparr>,
     job_claims := [token1], horizon := seconds 1\<rparr>"

lemmas cap2_nf = cap2_def [unfolded row2_nf rec2_nf ev2_nf token1_def, simplified cap_run_defs, simplified]

lemmas cap_sys_defs = row1_def rec1_def cap1_def token1_def row2_def rec2_def ev2_def cap2_def

lemma cap_run2: "cap_exec platform0 (cap_env_at 1) (ClaimJob 9) cap1 = Inr cap2"
  unfolding cap1_nf cap2_nf by (simp add: cap_run_defs)

definition art1 :: "recon_artifact list" where
  "art1 = [staged_artifact (cap_env_at 2) token1 50 STATIC_ARCHIVE ''weblens-static-clone.zip'' (ro_archive (demo_clone ''x'')),
     staged_artifact (cap_env_at 2) token1 50 RECON_MANIFEST ''manifest.json'' (ro_manifest (demo_clone ''x''))]"

lemmas art1_nf = art1_def [simplified cap_run_defs token1_def, simplified]

definition cap3 :: cap_sys where
  "cap3 = cap2\<lparr>cap_store := (cap_store cap2)\<lparr>recon_artifacts := art1\<rparr>, horizon := seconds 2\<rparr>"

lemmas cap3_nf = cap3_def [unfolded cap2_nf art1_nf, simplified cap_run_defs, simplified]

lemma cap_run3: "cap_exec platform0 (cap_env_at 2) (StageReconstruction token1 (demo_clone ''x'')) cap2 = Inr cap3"
  unfolding cap2_nf cap3_nf by (simp add: cap_run_defs token1_def)

definition row4 :: capture_row where
  "row4 = row2\<lparr>c_status := C_QUEUED, c_lease_owner := None, c_lease_expires := None, c_available := seconds 5,
     c_terminal_code := Some ''NET'', c_updated := seconds 3\<rparr>"

lemmas row4_nf = row4_def [unfolded row2_nf, simplified cap_run_defs, simplified]

definition cap4 :: cap_sys where
  "cap4 = cap3\<lparr>cap_store := (cap_store cap3)\<lparr>captures := [row4]\<rparr>, horizon := seconds 3\<rparr>"

lemmas cap4_nf = cap4_def [unfolded cap3_nf row4_nf, simplified cap_run_defs, simplified]

lemma cap_run4: "cap_exec platform0 (cap_env_at 3) (FailJob token1 ''NET'') cap3 = Inr cap4"
  unfolding cap3_nf cap4_nf by (simp add: cap_run_defs token1_def)

definition token2 :: claimed_job where
  "token2 = token1\<lparr>cl_lease_owner := 8, cl_lease_gen := 2, cl_attempts := 2\<rparr>"

lemmas token2_nf = token2_def [unfolded token1_def, simplified]

definition row5 :: capture_row where
  "row5 = row4\<lparr>c_status := C_RENDERING, c_attempts := 2, c_lease_owner := Some 8, c_lease_gen := 2,
     c_lease_expires := Some (seconds 55), c_event_version := 2, c_updated := seconds 10\<rparr>"

lemmas row5_nf = row5_def [unfolded row4_nf, simplified cap_run_defs, simplified]

definition rec5 :: recon_row where
  "rec5 = rec2\<lparr>r_source_gen := Some 2, r_updated := seconds 10, r_version := 2\<rparr>"

lemmas rec5_nf = rec5_def [unfolded rec2_nf, simplified cap_run_defs, simplified]

definition ev5 :: event_row where
  "ev5 = cap_event (cap_env_at 10) 7 3 2 2 (bare_event PH_RUNNING None None)"

lemmas ev5_nf = ev5_def [simplified cap_run_defs, simplified]

definition cap5 :: cap_sys where
  "cap5 = cap4\<lparr>cap_store := (cap_store cap4)\<lparr>captures := [row5], recons := [rec5], cap_events := [ev2, ev5]\<rparr>,
     job_claims := [token2, token1], horizon := seconds 10\<rparr>"

lemmas cap5_nf = cap5_def [unfolded cap4_nf row5_nf rec5_nf ev2_nf ev5_nf token1_def token2_nf, simplified cap_run_defs, simplified]

lemmas cap_sys_defs2 = cap_sys_defs art1_def cap3_def row4_def cap4_def token2_def row5_def rec5_def ev5_def cap5_def

lemma cap_run5: "cap_exec platform0 (cap_env_at 10) (ClaimJob 8) cap4 = Inr cap5"
  unfolding cap4_nf cap5_nf by (simp add: cap_run_defs)

definition art6 :: "recon_artifact list" where
  "art6 = [staged_artifact (cap_env_at 11) token2 50 STATIC_ARCHIVE ''weblens-static-clone.zip'' (ro_archive (demo_clone ''y'')),
     staged_artifact (cap_env_at 11) token2 50 RECON_MANIFEST ''manifest.json'' (ro_manifest (demo_clone ''y''))]"

lemmas art6_nf = art6_def [simplified cap_run_defs token2_nf, simplified]

definition cap6 :: cap_sys where
  "cap6 = cap5\<lparr>cap_store := (cap_store cap5)\<lparr>recon_artifacts := art1 @ art6\<rparr>, horizon := seconds 11\<rparr>"

lemmas cap6_nf = cap6_def [unfolded cap5_nf art1_nf art6_nf, simplified cap_run_defs, simplified]

lemma cap_run6: "cap_exec platform0 (cap_env_at 11) (StageReconstruction token2 (demo_clone ''y'')) cap5 = Inr cap6"
  unfolding cap5_nf cap6_nf by (simp add: cap_run_defs token2_nf)

definition row7 :: capture_row where
  "row7 = row5\<lparr>c_status := C_PERSISTING, c_lease_owner := None, c_lease_expires := None, c_expected := 1, c_published := 0,
     c_object_count := 4, c_object_bytes := 137, c_event_version := 3, c_updated := seconds 12\<rparr>"

lemmas row7_nf = row7_def [unfolded row5_nf, simplified cap_run_defs, simplified]

definition rec7 :: recon_row where
  "rec7 = finish_recon (cap_env_at 12) R_PUBLISHED (cr_reconstruction demo_result) (Some (demo_clone ''y'')) rec5"

lemmas rec7_nf = rec7_def [unfolded rec5_nf, simplified cap_run_defs, simplified]

definition batch7 :: analytics_row where
  "batch7 = analytics_of platform0 (cap_env_at 12) token2 (analytics_payload_of platform0 (cap_env_at 12) token2 demo_result [])"

lemmas batch7_nf = batch7_def [simplified cap_run_defs token2_nf, simplified]

definition ev7 :: event_row where
  "ev7 = cap_event (cap_env_at 12) 7 3 2 3 (indexing_event 1 4 137)"

lemmas ev7_nf = ev7_def [simplified cap_run_defs, simplified]

definition cap7 :: cap_sys where
  "cap7 = cap6\<lparr>cap_store := (cap_store cap6)\<lparr>captures := [row7], recons := [rec7],
      snapshots := [snapshot_of (cap_env_at 12) token2 demo_result demo_html demo_shot 0],
      analytics := [batch7], cap_events := [ev2, ev5, ev7],
      recon_artifacts := art1 @ map (publish_artifact (cap_env_at 12)) art6\<rparr>, horizon := seconds 12\<rparr>"

lemmas cap7_nf = cap7_def [unfolded cap6_nf row7_nf rec7_nf art1_nf art6_nf ev2_nf ev5_nf ev7_nf batch7_nf,
  simplified cap_run_defs token2_nf, simplified]

lemmas cap_sys_defs3 = cap_sys_defs2 art6_def cap6_def row7_def rec7_def batch7_def ev7_def cap7_def

lemma cap_run7:
  "cap_exec platform0 (cap_env_at 12) (StageResult token2 demo_result demo_html demo_shot [] (Some (demo_clone ''y''))) cap6 = Inr cap7"
  unfolding cap6_nf cap7_nf by (simp add: cap_run_defs token2_nf)

definition gc1 :: claimed_recon_artifact where
  "gc1 = \<lparr> cg_id = 20, cg_recon = 50, cg_kind = STATIC_ARCHIVE, cg_object = ro_archive (demo_clone ''x'') \<rparr>"

definition cap8 :: cap_sys where
  "cap8 = cap7\<lparr>cap_store := (cap_store cap7)\<lparr>recon_artifacts :=
      update_where (\<lambda>a. ra_id a = 20) (mark_recon_artifact (cap_env_at 3602)) (recon_artifacts (cap_store cap7))\<rparr>,
      deletion_claims := [gc1], horizon := seconds 3602\<rparr>"

lemmas cap8_nf = cap8_def [unfolded cap7_nf, simplified cap_run_defs gc1_def, simplified]

lemma cap_run8: "cap_exec platform0 (cap_env_at 3602) ClaimReconArtifact cap7 = Inr cap8"
  unfolding cap7_nf cap8_nf by (simp add: cap_run_defs gc1_def)

definition cap9 :: cap_sys where
  "cap9 = cap8\<lparr>cap_store := (cap_store cap8)\<lparr>recons := [expire_recon (cap_env_at 3603) rec7], recon_artifacts :=
      update_where (\<lambda>a. ra_id a = 20) (\<lambda>a. a\<lparr>ra_state := A_DELETED, ra_deleted := Some (seconds 3603)\<rparr>)
        (recon_artifacts (cap_store cap8))\<rparr>, horizon := seconds 3603\<rparr>"

lemmas cap9_nf = cap9_def [unfolded cap8_nf rec7_nf, simplified cap_run_defs, simplified]

lemma cap_run9: "cap_exec platform0 (cap_env_at 3603) (CompleteReconArtifact gc1) cap8 = Inr cap9"
  unfolding cap8_nf cap9_nf by (simp add: cap_run_defs gc1_def)

section \<open>Its states are reachable\<close>

lemmas cap_claims_defs = cap2_def cap3_def cap4_def cap5_def cap6_def cap7_def cap8_def

lemma cap_reach0: "cap_reachable platform0 initial_cap_sys"
  by (simp add: cap_reachable_def)

lemma cap_reach1: "cap_reachable platform0 cap1"
  by (rule cap_reachable_next [OF cap_reach0 cap_run1]) (simp_all add: cap_claims_defs)

lemma cap_reach2: "cap_reachable platform0 cap2"
  by (rule cap_reachable_next [OF cap_reach1 cap_run2]) (simp_all add: cap_claims_defs)

lemma cap_reach3: "cap_reachable platform0 cap3"
  by (rule cap_reachable_next [OF cap_reach2 cap_run3]) (simp_all add: cap_claims_defs)

lemma cap_reach4: "cap_reachable platform0 cap4"
  by (rule cap_reachable_next [OF cap_reach3 cap_run4]) (simp_all add: cap_claims_defs)

lemma cap_reach5: "cap_reachable platform0 cap5"
  by (rule cap_reachable_next [OF cap_reach4 cap_run5]) (simp_all add: cap_claims_defs)

lemma cap_reach6: "cap_reachable platform0 cap6"
  by (rule cap_reachable_next [OF cap_reach5 cap_run6]) (simp_all add: cap_claims_defs)

lemma cap_reach7: "cap_reachable platform0 cap7"
  by (rule cap_reachable_next [OF cap_reach6 cap_run7]) (simp_all add: cap_claims_defs)

lemma cap_reach8: "cap_reachable platform0 cap8"
  by (rule cap_reachable_next [OF cap_reach7 cap_run8]) (simp_all add: cap_claims_defs)

lemma cap_reach9: "cap_reachable platform0 cap9"
  by (rule cap_reachable_next [OF cap_reach8 cap_run9]) (simp_all add: cap_claims_defs)

end
