(* ===== verification/Capture_Properties.thy ===== *)
theory Capture_Properties
  imports Capture_Scenario
begin

text \<open>
  What the capture store guarantees in every state its workers can reach, whatever the order and the times
  of their operations.
\<close>

section \<open>Histories\<close>

lemma find_by_key: "distinct (map key xs) \<Longrightarrow> x \<in> set xs \<Longrightarrow> find (\<lambda>y. key y = key x) xs = Some x"
  by (induction xs) (auto simp: image_iff)

lemma job_row:
  assumes "cap_reachable K s" "t \<in> set (job_claims s)"
  obtains j where "find_capture (cl_id t) (cap_store s) = Some j" "j \<in> set (captures (cap_store s))" "c_id j = cl_id t"
    "1 \<le> cl_lease_gen t" "cl_lease_gen t \<le> c_lease_gen j" "c_lease_gen j \<le> 3"
proof -
  from cap_reachable_inv [OF assms(1)] have inv: "cap_inv K (cap_store s)" "tokens_ok s" by (simp_all add: cap_sys_inv_def)
  from inv(2) assms(2) obtain j where j: "j \<in> set (captures (cap_store s))" "c_id j = cl_id t" "1 \<le> cl_lease_gen t"
    "cl_lease_gen t \<le> c_lease_gen j" by (auto simp: tokens_ok_def job_token_def)
  from inv(1) have core: "cap_core (cap_store s)" and sch: "cap_schema_ok (jsonb_bytes K) (cap_store s)"
    by (simp_all add: cap_inv_def)
  from core j(1) have "c_lease_gen j = c_attempts j" by (simp add: cap_core_def capture_ok_def)
  moreover from sch j(1) have "c_attempts j \<le> 3"
    by (auto simp: cap_schema_ok_def cap_rows_ok_def list_all_iff capture_check_def)
  moreover from core find_capture_eq [OF _ j(1)] j(2) have "find_capture (cl_id t) (cap_store s) = Some j"
    by (simp add: cap_core_def)
  ultimately show thesis using that j by simp
qed

text \<open>
  C17. Over any run a capture keeps its identity, its owner and its command, follows the life cycle
  QUEUED, RENDERING (and back), PERSISTING, COMPLETED or FAILED, never leaves the last two, and its lease
  generation and event version never go back; its reconstruction follows the life cycle of
  reconstructions.
\<close>

theorem capture_history:
  assumes "cap_reachable K s" "cap_steps K s s'"
    and "j \<in> set (captures (cap_store s))" "r \<in> set (recons (cap_store s))"
  shows "\<exists>k \<in> set (captures (cap_store s')). \<exists>u \<in> set (recons (cap_store s')).
      c_id k = c_id j \<and> c_owner k = c_owner j \<and> c_payload k = c_payload j
    \<and> capture_path (c_status j) (c_status k)
    \<and> (c_status j \<in> {C_COMPLETED, C_FAILED} \<longrightarrow> c_status k = c_status j)
    \<and> c_lease_gen j \<le> c_lease_gen k \<and> c_event_version j \<le> c_event_version k
    \<and> r_id u = r_id r \<and> r_job u = r_job r \<and> recon_path (r_status r) (r_status u) \<and> r_version r \<le> r_version u"
proof -
  from cap_steps_evolve [OF assms(1,2)] have ev: "cap_evolves (cap_store s) (cap_store s')" .
  from cap_evolves_row [OF ev assms(3)] obtain k where k: "k \<in> set (captures (cap_store s'))" "capture_evolves j k" .
  from ev have "rows_evolve recon_evolves (recons (cap_store s)) (recons (cap_store s'))" by (simp add: cap_evolves_def)
  with assms(4) obtain u where u: "u \<in> set (recons (cap_store s'))" "recon_evolves r u" by (blast elim: rows_evolve_row)
  from k(2) have "c_status j \<in> {C_COMPLETED, C_FAILED} \<longrightarrow> c_status k = c_status j"
    using capture_path_ended by (auto simp: capture_evolves_def)
  with k u show ?thesis unfolding capture_evolves_def recon_evolves_def
    by (intro bexI [of _ k] bexI [of _ u]) simp_all
qed

lemma run_7_8: "cap_steps platform0 cap7 cap8"
  by (rule r_into_rtranclp [where r = "cap_step platform0"]) (rule cap_step.step [OF _ cap_run8], simp)

theorem capture_history_witness:
  "\<exists>k \<in> set (captures (cap_store cap8)). c_id k = 7 \<and> capture_path C_PERSISTING (c_status k) \<and> 2 \<le> c_lease_gen k"
proof -
  have "row7 \<in> set (captures (cap_store cap7))" "rec7 \<in> set (recons (cap_store cap7))" by (simp_all add: cap7_def)
  from capture_history [OF cap_reach7 run_7_8 this] show ?thesis
    by (auto simp: row7_def row5_def row4_def row2_def row1_def new_capture_def demo_command_def demo_payload_def)
qed

section \<open>Leases\<close>

text \<open>
  C18. However often its leases expire or its attempts fail, a capture is handed to workers at most three
  times, each time under another lease generation.
\<close>

theorem capture_claims_bounded:
  assumes "cap_reachable K s"
  shows "length (filter (\<lambda>u. cl_id u = i) (job_claims s)) \<le> 3
    \<and> distinct (map cl_lease_gen (filter (\<lambda>u. cl_id u = i) (job_claims s)))"
proof -
  let ?same = "filter (\<lambda>u. cl_id u = i) (job_claims s)"
  from cap_reachable_inv [OF assms] have "distinct (map (\<lambda>t. (cl_id t, cl_lease_gen t)) (job_claims s))"
    by (simp add: cap_sys_inv_def tokens_ok_def)
  then have "distinct (map (\<lambda>t. (cl_id t, cl_lease_gen t)) ?same)" by (rule distinct_map_filter)
  moreover have "map (\<lambda>t. (cl_id t, cl_lease_gen t)) ?same = map (Pair i) (map cl_lease_gen ?same)" by simp
  ultimately have "distinct (map (Pair i) (map cl_lease_gen ?same))" by simp
  then have d: "distinct (map cl_lease_gen ?same)" unfolding distinct_map [of "Pair _"] by blast
  have "cl_lease_gen u \<in> {1..3}" if "u \<in> set ?same" for u
  proof -
    from that have "u \<in> set (job_claims s)" by simp
    with assms show ?thesis by (rule job_row) simp
  qed
  then have "set (map cl_lease_gen ?same) \<subseteq> {1..3}" unfolding set_map by blast
  from card_mono [OF finite_atLeastAtMost this] distinct_card [OF d] d show ?thesis by simp
qed

theorem capture_claims_bounded_witness:
  "length (filter (\<lambda>u. cl_id u = 7) (job_claims cap5)) \<le> 3 \<and> length (filter (\<lambda>u. cl_id u = 7) (job_claims cap5)) = 2"
  using capture_claims_bounded [OF cap_reach5, of 7] by (simp add: cap5_def token2_def token1_def)

lemma holds_capture_state:
  assumes "holds_capture t j" "find_capture (cl_id t) (cap_store s) = Some j"
  shows "capture_gen s (cl_id t) = cl_lease_gen t \<and> capture_holder s (cl_id t) = Some (cl_lease_owner t)"
  using assms by (simp add: capture_gen_def capture_holder_def holds_capture_def)

lemma not_held_capture:
  assumes "\<forall>j \<in> set (captures d). \<not> holds_capture t j" "cap_schema_ok (jsonb_bytes K) d"
  shows "extendLease K e t d = Inr (False, d) \<and> failJob K e t code d = Inr ((), d)
    \<and> stageReconstructionArtifacts K e t xs d = Inl STALE_CAPTURE_LEASE
    \<and> (stageResult K e t res h sh objs ro d = Inl STALE_CAPTURE_LEASE
       \<or> stageResult K e t res h sh objs ro d = Inl ANALYTICS_PAYLOAD_TOO_LARGE)"
proof -
  from assms(1) have none: "\<not> (\<exists>j \<in> set (captures d). holds_capture t j)" by blast
  then have same: "update_where (holds_capture t) f (captures d) = captures d" for f
    by (intro update_where_none) blast
  have "count_where (holds_capture t) (captures d) = 0" using assms(1) by (simp add: count_where_0)
  moreover have "find (holds_capture t) (captures d) = None" using none by (simp add: find_None_iff)
  ultimately show ?thesis using none assms(2)
    by (simp add: extendLease_def failJob_def stageReconstructionArtifacts_def stageResult_def Let_def same cap_commit_def)
qed

text \<open>
  C19. Fencing of capture leases. A worker that no longer holds the lease of its claim (it expired and was
  reclaimed, the attempt was given up, or the capture went to another worker) never holds it again: its
  \<open>extendLease\<close> reports false, its \<open>failJob\<close> changes nothing, and neither its archive nor its result is stored.
\<close>

theorem stale_capture_claim_refused:
  assumes "cap_reachable K s" "t \<in> set (job_claims s)"
    and "\<forall>j \<in> set (captures (cap_store s)). \<not> holds_capture t j" "cap_steps K s s'"
  shows "extendLease K e t (cap_store s') = Inr (False, cap_store s')
    \<and> failJob K e t code (cap_store s') = Inr ((), cap_store s')
    \<and> stageReconstructionArtifacts K e t xs (cap_store s') = Inl STALE_CAPTURE_LEASE
    \<and> (stageResult K e t res h sh objs ro (cap_store s') = Inl STALE_CAPTURE_LEASE
       \<or> stageResult K e t res h sh objs ro (cap_store s') = Inl ANALYTICS_PAYLOAD_TOO_LARGE)"
proof -
  from cap_reachable_store [OF cap_reachable_steps [OF assms(1,4)]] have inv': "cap_inv K (cap_store s')" .
  from job_row [OF assms(1,2)] obtain j where j: "find_capture (cl_id t) (cap_store s) = Some j"
    "j \<in> set (captures (cap_store s))" "c_id j = cl_id t" "1 \<le> cl_lease_gen t" "cl_lease_gen t \<le> c_lease_gen j" .
  have steps: "(cap_safe_step K)\<^sup>*\<^sup>* s s'" by (rule cap_reachable_safe [OF assms(1,4)])
  have "\<not> holds_capture t k" if k: "k \<in> set (captures (cap_store s'))" for k
  proof
    assume h: "holds_capture t k"
    with k inv' find_capture_eq [of "cap_store s'" k] have "find_capture (cl_id t) (cap_store s') = Some k"
      by (simp add: holds_capture_def cap_inv_def cap_core_def)
    with h have now': "capture_gen s' (cl_id t) = cl_lease_gen t" "capture_holder s' (cl_id t) = Some (cl_lease_owner t)"
      using holds_capture_state by blast+
    show False
    proof (cases "c_lease_gen j = cl_lease_gen t")
      case True
      have "c_lease_owner j \<noteq> Some (cl_lease_owner t)"
      proof
        assume own: "c_lease_owner j = Some (cl_lease_owner t)"
        from cap_reachable_store [OF assms(1)] j(2) have "capture_check j"
          by (simp add: cap_inv_def cap_schema_ok_def cap_rows_ok_def list_all_iff)
        with own True j(2,3) assms(3) show False by (auto simp: capture_check_def holds_capture_def)
      qed
      with j(1,4) True capture_leases.lost_for_good [OF steps, of "cl_id t" "cl_lease_gen t" "cl_lease_owner t"] now'
      show False by (simp add: capture_gen_def capture_holder_def)
    next
      case False
      with j(1,5) have "cl_lease_gen t < capture_gen s (cl_id t)" by (simp add: capture_gen_def)
      with capture_leases.stale_for_good [OF steps] now'(1) show False by blast
    qed
  qed
  then show ?thesis using inv' by (intro not_held_capture) (simp_all add: cap_inv_def)
qed

theorem stale_capture_claim_refused_witness:
  "extendLease platform0 (cap_env_at 11) token1 (cap_store cap5) = Inr (False, cap_store cap5)"
proof -
  have "token1 \<in> set (job_claims cap4)" by (simp add: cap4_def cap3_def cap2_def)
  moreover have "\<forall>j \<in> set (captures (cap_store cap4)). \<not> holds_capture token1 j"
    by (simp add: cap4_def holds_capture_def row4_def)
  moreover have "cap_steps platform0 cap4 cap5"
    by (rule r_into_rtranclp [where r = "cap_step platform0"]) (rule cap_step.step [OF _ cap_run5], simp)
  ultimately show ?thesis using stale_capture_claim_refused [OF cap_reach4] by blast
qed

section \<open>Commands, events and batches\<close>

text \<open>
  A command is accepted once: delivered again at any later time, after any operations, it is reported
  as a duplicate and changes nothing, and another command under its message identifier is refused.
\<close>

lemma capture_accepted_once:
  assumes "cap_reachable K s" "acceptCapture K e c (cap_store s) = Inr (dup, d)"
    and "cap_steps K (s\<lparr>cap_store := d, horizon := max (horizon s) (t_now e)\<rparr>) s'"
  shows "acceptCapture K e' c (cap_store s') = Inr (True, cap_store s')
    \<and> (\<forall>c'. cc_message_id c' = cc_message_id c \<and> command_sha K c' \<noteq> command_sha K c \<longrightarrow>
        acceptCapture K e' c' (cap_store s') = Inl CAP_MESSAGE_ID_COLLISION)"
proof -
  let ?s = "s\<lparr>cap_store := d, horizon := max (horizon s) (t_now e)\<rparr>"
  have "cap_exec K e (AcceptCapture c) s = Inr ?s" using assms(2) by (simp add: cap_exec_Inr)
  then have reach: "cap_reachable K ?s" by (rule cap_reachable_next [OF assms(1)]) simp
  have "\<exists>j \<in> set (captures d). c_command_message_id j = cc_message_id c \<and> c_command_sha j = command_sha K c"
    using assms(2) by (auto simp: acceptCapture_def new_capture_def find_Some_iff split: option.splits if_splits)
  then obtain j where j: "j \<in> set (captures (cap_store ?s))" "c_command_message_id j = cc_message_id c" "c_command_sha j = command_sha K c"
    by auto
  from cap_evolves_row [OF cap_steps_evolve [OF reach assms(3)] j(1)] obtain k where
    k: "k \<in> set (captures (cap_store s'))" "capture_evolves j k" .
  with j have kk: "c_command_message_id k = cc_message_id c" "c_command_sha k = command_sha K c"
    by (simp_all add: capture_evolves_def)
  from cap_reachable_store [OF cap_reachable_steps [OF reach assms(3)]]
  have "distinct (map c_command_message_id (captures (cap_store s')))"
    by (simp add: cap_inv_def cap_schema_ok_def cap_keys_ok_def captures_unique_def)
  from find_by_key [OF this k(1)] kk(1)
  have "find (\<lambda>j. c_command_message_id j = cc_message_id c) (captures (cap_store s')) = Some k" by simp
  with kk(2) show ?thesis by (simp add: acceptCapture_def)
qed

lemma capture_accepted_once_witness:
  "acceptCapture platform0 (cap_env_at 1) demo_command (cap_store cap2) = Inr (True, cap_store cap2)"
proof -
  have d: "acceptCapture platform0 (cap_env_at 0) demo_command (cap_store initial_cap_sys) = Inr (False, cap_store cap1)"
    by (simp add: cap_run_defs cap1_def row1_def rec1_def)
  have "initial_cap_sys\<lparr>cap_store := cap_store cap1, horizon := max (horizon initial_cap_sys) (t_now (cap_env_at 0))\<rparr> = cap1"
    by (simp add: cap1_def initial_cap_sys_def cap_env_at_def seconds_def)
  moreover have "cap_steps platform0 cap1 cap2"
    by (rule r_into_rtranclp [where r = "cap_step platform0"]) (rule cap_step.step [OF _ cap_run2], simp)
  ultimately show ?thesis using capture_accepted_once [OF cap_reach0 d, of cap2] by simp
qed

text \<open>
  C21. The events of a capture are numbered 1, 2, ... without a gap or a repetition, so the main API can
  order what it receives; a delivered event, and a delivered analytics batch, stays delivered over any run.
\<close>

theorem capture_events_gapless:
  assumes "cap_reachable K s" "j \<in> set (captures (cap_store s))" "cap_steps K s s'"
  shows "versions_of (c_id j) (cap_store s) = [1..<Suc (c_event_version j)]
    \<and> (\<forall>x \<in> set (event_queue s). o_status x = DELIVERED \<longrightarrow> x \<in> set (event_queue s'))
    \<and> (\<forall>x \<in> set (batch_queue s). o_status x = DELIVERED \<longrightarrow> x \<in> set (batch_queue s'))"
  using cap_reachable_store [OF assms(1)] assms(2)
    capture_events.delivered_is_final [OF cap_reachable_later(1) [OF assms(1,3)]]
    capture_batches.delivered_is_final [OF cap_reachable_later(2) [OF assms(1,3)]]
  by (simp add: cap_inv_def cap_core_def capture_ok_def)

theorem capture_events_gapless_witness: "versions_of 7 (cap_store cap7) = [1, 2, 3]"
proof -
  have "row7 \<in> set (captures (cap_store cap7))" by (simp add: cap7_def)
  from capture_events_gapless [OF cap_reach7 this run_7_8] show ?thesis
    by (simp add: row7_def row5_def row4_def row2_def row1_def new_capture_def demo_command_def demo_payload_def upt_rec)
qed

definition batch10 :: analytics_row where
  "batch10 = (claim_row (seconds 13) 5 batch7)\<lparr>an_updated := seconds 13\<rparr>"

definition batch_claim10 :: claimed_outbox where
  "batch_claim10 = \<lparr> co_id = 60, co_job = 7, co_owner = 3, co_payload = an_payload batch7, co_payload_sha = digest0,
     co_lease_owner = 5 \<rparr>"

definition cap10 :: cap_sys where
  "cap10 = cap7\<lparr>cap_store := (cap_store cap7)\<lparr>analytics := [batch10]\<rparr>, batch_claims := [batch_claim10],
     horizon := seconds 13\<rparr>"

text \<open>
  C22. Completing an analytics batch never fails because of the state of its capture: while the batch is
  claimed its capture is PERSISTING, so \<open>CAPTURE_JOB_NOT_PERSISTING\<close> is not reachable, and a completion that
  succeeds leaves the batch delivered without its payload and the capture COMPLETED with all its records
  published.
\<close>

theorem completeAnalytics_completes:
  assumes "cap_reachable K s" "b \<in> set (batch_claims s)"
  shows "completeAnalytics K e b (cap_store s) \<noteq> Inl CAPTURE_JOB_NOT_PERSISTING
    \<and> (\<forall>u d. completeAnalytics K e b (cap_store s) = Inr (u, d) \<longrightarrow>
        (\<forall>j \<in> set (captures d). c_id j = co_job b \<longrightarrow> c_status j = C_COMPLETED \<and> c_published j = c_expected j)
      \<and> (\<forall>x \<in> set (analytics d). o_message_id x = co_id b \<longrightarrow> o_status x = DELIVERED \<and> an_payload x = None))"
proof -
  let ?d = "cap_store s"
  from cap_reachable_inv [OF assms(1)] have inv: "cap_inv K ?d" and tok: "batch_token ?d b"
    using assms(2) by (simp_all add: cap_sys_inv_def tokens_ok_def)
  from inv have core: "cap_core ?d" and keys: "cap_schema_ok (jsonb_bytes K) ?d" by (simp_all add: cap_inv_def)
  from core have dist: "distinct (map c_id (captures ?d))" by (simp add: cap_core_def)
  from keys have mids: "distinct (map o_message_id (analytics ?d))"
    by (simp add: cap_schema_ok_def cap_keys_ok_def analytics_unique_def)
  from tok obtain x where x: "x \<in> set (analytics ?d)" "o_message_id x = co_id b" "an_job x = co_job b"
    by (auto simp: batch_token_def)
  from keys x(1,3) obtain j where j: "j \<in> set (captures ?d)" "c_id j = co_job b"
    by (auto simp: cap_schema_ok_def cap_references_ok_def)
  have only: "y = x" if "y \<in> set (analytics ?d)" "o_message_id y = co_id b" for y
    using distinct_key_unique [OF mids that(1) x(1)] that(2) x(2) by simp
  have pers: "c_status j = C_PERSISTING" if "claimed_by (co_id b) (co_lease_owner b) x"
  proof -
    have "False \<in> set (batches_of (c_id j) ?d)"
      using that x j(2) by (force simp: batches_of_def claimed_by_def)
    with core j(1) show ?thesis
      by (auto simp: cap_core_def capture_ok_def batches_for_def split: capture_status.splits)
  qed
  have never: "completeAnalytics K e b ?d \<noteq> Inl CAPTURE_JOB_NOT_PERSISTING"
  proof
    assume err: "completeAnalytics K e b ?d = Inl CAPTURE_JOB_NOT_PERSISTING"
    then obtain y where "y \<in> set (analytics ?d)" "claimed_by (co_id b) (co_lease_owner b) y"
      by (auto simp: completeAnalytics_def split: if_splits)
    with only pers have "c_status j = C_PERSISTING" by (auto simp: claimed_by_def)
    with j err show False
      by (auto simp: completeAnalytics_def Let_def find_None_iff enqueue_def cap_commit_def rbind_eq_Inl
          split: if_splits option.splits)
  qed
  have "(\<forall>k \<in> set (captures d). c_id k = co_job b \<longrightarrow> c_status k = C_COMPLETED \<and> c_published k = c_expected k)
      \<and> (\<forall>y \<in> set (analytics d). o_message_id y = co_id b \<longrightarrow> o_status y = DELIVERED \<and> an_payload y = None)"
    if ok: "completeAnalytics K e b ?d = Inr (u, d)" for u d
  proof -
    let ?upd = "update_where (claimed_by (co_id b) (co_lease_owner b)) (deliver_analytics (t_now e)) (analytics ?d)"
    from ok obtain row d1 where enq: "enqueue e (co_job b) (c_owner row) (c_corr row) (completed_event row) d1 = Inr d"
      and d1: "d1 = update_capture (co_job b) (complete_capture e) (?d\<lparr>analytics := ?upd\<rparr>)"
      and held: "\<exists>y \<in> set (analytics ?d). claimed_by (co_id b) (co_lease_owner b) y"
      by (auto simp: completeAnalytics_def Let_def split: option.splits if_splits)
    have "distinct (map c_id (captures d1))"
      using dist by (simp add: d1 map_update_where_key [where key = c_id] complete_capture_def)
    from enqueue_Inr [OF enq this] obtain v where
      d: "d = (update_capture (co_job b) (next_event e) d1)\<lparr>cap_events := cap_events d1 @
       [cap_event e (co_job b) (c_owner row) (c_corr row) v (completed_event row)]\<rparr>" by metis
    from held only have cx: "claimed_by (co_id b) (co_lease_owner b) x" by (auto simp: claimed_by_def)
    have "\<forall>k \<in> set (captures d). c_id k = co_job b \<longrightarrow> c_status k = C_COMPLETED \<and> c_published k = c_expected k"
      by (auto simp: d d1 set_update_where complete_capture_def next_event_def)
    moreover have "analytics d = ?upd" by (simp add: d d1)
    then have "\<forall>y \<in> set (analytics d). o_message_id y = co_id b \<longrightarrow> o_status y = DELIVERED \<and> an_payload y = None"
      using only cx by (auto simp: set_update_where deliver_analytics_def deliver_row_def claimed_by_def split: if_splits)
    ultimately show ?thesis ..
  qed
  with never show ?thesis by blast
qed

lemma claimed_batch: "cap_exec platform0 (cap_env_at 13) (ClaimAnalytics 5) cap7 = Inr cap10"
  by (simp add: cap_run_defs cap_sys_defs3 batch10_def batch_claim10_def cap10_def claimAnalytics_def claim_delivery_def
      deliverable_def claim_row_def)

theorem completeAnalytics_completes_witness:
  "completeAnalytics platform0 (cap_env_at 14) batch_claim10 (cap_store cap10) \<noteq> Inl CAPTURE_JOB_NOT_PERSISTING"
  using completeAnalytics_completes [OF cap_reachable_next [OF cap_reach7 claimed_batch], of batch_claim10]
  by (simp add: cap10_def)

end
