(* ===== verification/Capture_Outcomes.thy ===== *)
theory Capture_Outcomes
  imports Capture_Scenario
begin

text \<open>
  What the operations on results and archives do: when a reconstruction is published, what it then
  rests on, and what the collection of old archives may and does do.
\<close>

section \<open>Publication\<close>

definition build_publishable :: "cap_env \<Rightarrow> claimed_job \<Rightarrow> reconstruction_build \<Rightarrow> reconstruction_objects option \<Rightarrow> recon_row \<Rightarrow> cap_db \<Rightarrow> bool" where
  "build_publishable e t build ro r d \<longleftrightarrow> bd_status build \<noteq> BUILD_FAILED \<and> bd_archive_bytes build \<notin> {None, Some 0}
     \<and> (case ro of None \<Rightarrow> False | Some xs \<Rightarrow> count_where (publishable e t (r_id r) xs) (recon_artifacts d) = 2)"

text \<open>
  C23. The result of a capture is stored in one transaction: the capture is PERSISTING, and its
  reconstruction is PUBLISHED or PARTIAL, as the build says, exactly when the build gave an archive and
  both of its objects are the ones staged under this very lease with more than five minutes left;
  otherwise it is FAILED with a failure code and no artifact changes.
\<close>

theorem stageResult_settles:
  assumes "cap_reachable K s" "t \<in> set (job_claims s)"
    and "stageResult K e t res html shot objs ro (cap_store s) = Inr (u, d')"
  shows "\<exists>r \<in> set (recons (cap_store s)). r_job r = cl_id t \<and> r_status r = R_RUNNING
    \<and> (\<exists>j \<in> set (captures d'). c_id j = cl_id t \<and> c_status j = C_PERSISTING \<and> c_expected j = expected_count res objs)
    \<and> (\<exists>r' \<in> set (recons d'). r_id r' = r_id r
       \<and> (if build_publishable e t (cr_reconstruction res) ro r (cap_store s)
          then r_status r' = (if bd_status (cr_reconstruction res) = BUILD_PUBLISHED then R_PUBLISHED else R_PARTIAL)
             \<and> r_failure_code r' = None
             \<and> (\<exists>a \<in> set (recon_artifacts d'). source_archive r' a \<and> ra_state a = A_PUBLISHED
                  \<and> ra_delete_after a = t_now e + days 7 \<and> same_object (ro_archive (the ro)) a)
          else r_status r' = R_FAILED \<and> r_failure_code r' \<noteq> None \<and> recon_artifacts d' = recon_artifacts (cap_store s)))"
proof -
  let ?d = "cap_store s" let ?b = "cr_reconstruction res"
  from cap_reachable_inv [OF assms(1)] have inv: "cap_inv K ?d" and tok: "job_token ?d t"
    using assms(2) by (simp_all add: cap_sys_inv_def tokens_ok_def)
  from inv have core: "cap_core ?d" by (simp add: cap_inv_def)
  from core have dist: "distinct (map generation_key (recon_artifacts ?d))" by (simp add: cap_core_def)
  obtain j r published where
    j: "j \<in> set (captures ?d)" "holds_capture t j" and
    r: "r \<in> set (recons ?d)" "recons_of (cl_id t) ?d = [r]" "r_status r = R_RUNNING" "r_source_gen r = Some (cl_lease_gen t)"
      "r_owner r = cl_owner t" and
    pub: "published \<Longrightarrow> bd_status ?b \<noteq> BUILD_FAILED \<and> (\<exists>xs. ro = Some xs
        \<and> count_where (publishable e t (r_id r) xs) (recon_artifacts ?d) = 2)"
      "\<not> published \<Longrightarrow> bd_status ?b = BUILD_FAILED \<or> bd_archive_bytes ?b \<in> {None, Some 0}
        \<or> ro = None \<or> (\<exists>xs. ro = Some xs \<and> count_where (publishable e t (r_id r) xs) (recon_artifacts ?d) \<noteq> 2)"
      "published \<Longrightarrow> bd_archive_bytes ?b \<notin> {None, Some 0}" and
    d': "captures d' = update_where (\<lambda>j. c_id j = cl_id t) (\<lambda>j. next_event e (persist_capture e (expected_count res objs)
        (total_objects objs ro) (total_object_bytes html shot objs ro) j)) (captures ?d)"
      "recons d' = recons (settled e t r ?b ro published ?d)"
      "recon_artifacts d' = recon_artifacts (settled e t r ?b ro published ?d)"
    by (rule stageResult_Inr [OF core tok assms(3)]) blast
  let ?r' = "finish_recon e (terminal_status published ?b) ?b ro r"
  have flag: "published = build_publishable e t ?b ro r ?d"
    unfolding build_publishable_def using pub by (cases published) (auto split: option.splits)
  have r': "?r' \<in> set (recons d')" using r(1) by (force simp: d'(2) settled_def set_update_where)
  have "r \<in> set (recons_of (cl_id t) ?d)" using r(2) by simp
  then have job: "r_job r = cl_id t" by (simp add: recons_of_def)
  let ?j = "next_event e (persist_capture e (expected_count res objs)
        (total_objects objs ro) (total_object_bytes html shot objs ro) j)"
  have "?j \<in> set (captures d')" using j by (force simp: d'(1) set_update_where holds_capture_def)
  then have cap: "\<exists>j \<in> set (captures d'). c_id j = cl_id t \<and> c_status j = C_PERSISTING \<and> c_expected j = expected_count res objs"
    using j(2) by (intro bexI [of _ ?j]) (simp_all add: next_event_def persist_capture_def holds_capture_def)
  have arch: "\<exists>a \<in> set (recon_artifacts d'). source_archive ?r' a \<and> ra_state a = A_PUBLISHED
       \<and> ra_delete_after a = t_now e + days 7 \<and> same_object (ro_archive (the ro)) a" if published
  proof -
    from pub(1) [OF that] obtain xs where xs: "ro = Some xs"
      "count_where (publishable e t (r_id r) xs) (recon_artifacts ?d) = 2" by blast
    from publishable_all(2) [OF dist xs(2)] obtain a where a: "a \<in> set (recon_artifacts ?d)" "staged_of t (r_id r) a"
      "ra_kind a = STATIC_ARCHIVE" "same_object (ro_archive xs) a" by blast
    then have "publish_artifact e a \<in> set (recon_artifacts d')"
      using that by (force simp: d'(3) settled_def set_update_where)
    with a xs r(4) show ?thesis
      by (intro bexI [of _ "publish_artifact e a"])
        (simp_all add: source_archive_def finish_recon_def publish_artifact_def staged_of_def same_object_def)
  qed
  have out: "r_id ?r' = r_id r"
    "published \<Longrightarrow> r_status ?r' = (if bd_status ?b = BUILD_PUBLISHED then R_PUBLISHED else R_PARTIAL) \<and> r_failure_code ?r' = None"
    "\<not> published \<Longrightarrow> r_status ?r' = R_FAILED \<and> r_failure_code ?r' \<noteq> None \<and> recon_artifacts d' = recon_artifacts ?d"
    using pub(1) by (auto simp: finish_recon_def terminal_status_def failure_code_def d'(3) settled_def split: build_status.splits)
  have "if published then r_status ?r' = (if bd_status ?b = BUILD_PUBLISHED then R_PUBLISHED else R_PARTIAL) \<and> r_failure_code ?r' = None
      \<and> (\<exists>a \<in> set (recon_artifacts d'). source_archive ?r' a \<and> ra_state a = A_PUBLISHED
           \<and> ra_delete_after a = t_now e + days 7 \<and> same_object (ro_archive (the ro)) a)
    else r_status ?r' = R_FAILED \<and> r_failure_code ?r' \<noteq> None \<and> recon_artifacts d' = recon_artifacts ?d"
    using out(2,3) arch by (cases published) simp_all
  with out(1) r' have "\<exists>r' \<in> set (recons d'). r_id r' = r_id r \<and> (if published
      then r_status r' = (if bd_status ?b = BUILD_PUBLISHED then R_PUBLISHED else R_PARTIAL) \<and> r_failure_code r' = None
      \<and> (\<exists>a \<in> set (recon_artifacts d'). source_archive r' a \<and> ra_state a = A_PUBLISHED
           \<and> ra_delete_after a = t_now e + days 7 \<and> same_object (ro_archive (the ro)) a)
      else r_status r' = R_FAILED \<and> r_failure_code r' \<noteq> None \<and> recon_artifacts d' = recon_artifacts ?d)" by blast
  with r(1,3) job cap show ?thesis unfolding flag by blast
qed

lemma cap_store_run7: "stageResult platform0 (cap_env_at 12) token2 demo_result demo_html demo_shot [] (Some (demo_clone ''y''))
    (cap_store cap6) = Inr ((), cap_store cap7)"
  using cap_run7 by (auto simp: cap_exec_Inr dest: arg_cong [where f = cap_store])

theorem stageResult_settles_witness:
  "\<exists>j \<in> set (captures (cap_store cap7)). c_id j = 7 \<and> c_status j = C_PERSISTING \<and> c_expected j = 1"
proof -
  have "token2 \<in> set (job_claims cap6)" by (simp add: cap6_def cap5_def)
  from stageResult_settles [OF cap_reach6 this cap_store_run7] show ?thesis
    by (auto simp: token2_def token1_def expected_count_def demo_result_def)
qed



section \<open>Collection\<close>

definition artifact_step :: "time \<Rightarrow> recon_artifact \<Rightarrow> recon_artifact \<Rightarrow> bool" where
  "artifact_step t a b \<longleftrightarrow> ra_id b = ra_id a \<and> (b = a
     \<or> (ra_state a = A_STAGED \<and> t + minutes 5 < ra_delete_after a)
     \<or> (ra_state a = A_STAGED \<and> ra_state b = A_STAGED \<and> ra_delete_after b \<le> t + minutes 1)
     \<or> ra_state b \<in> {A_DELETE_PENDING, A_DELETED})"

definition unpublishable :: "time \<Rightarrow> recon_artifact \<Rightarrow> bool" where
  "unpublishable h a \<longleftrightarrow> ra_state a \<in> {A_DELETE_PENDING, A_DELETED}
     \<or> (ra_state a = A_STAGED \<and> ra_delete_after a \<le> h + minutes 1)"

lemma artifact_step_refl: "artifact_step t a a"
  by (simp add: artifact_step_def)

lemma unpublishable_step:
  "artifact_step t a b \<Longrightarrow> artifact_evolves a b \<Longrightarrow> unpublishable h a \<Longrightarrow> h \<le> t + minutes 4 \<Longrightarrow> unpublishable (max h t) b"
  by (auto simp: artifact_step_def unpublishable_def artifact_evolves_def minutes_def seconds_def)

lemma artifacts_step_same: "as' = as \<Longrightarrow> rows_evolve (artifact_step t) as as'"
  by (simp add: rows_evolve_refl artifact_step_refl)

lemma stageResult_artifact_steps:
  assumes inv: "cap_inv K d" and tok: "job_token d t" and ok: "stageResult K e t res html shot objs ro d = Inr (u, d')"
  shows "rows_evolve (artifact_step (t_now e)) (recon_artifacts d) (recon_artifacts d')"
proof -
  from inv have core: "cap_core d" by (simp add: cap_inv_def)
  then have dist: "distinct (map generation_key (recon_artifacts d))" by (simp add: cap_core_def)
  from stageResult_Inr [OF core tok ok] obtain r published where
    pub: "published \<Longrightarrow> \<exists>xs. count_where (publishable e t (r_id r) xs) (recon_artifacts d) = 2" and
    d': "recon_artifacts d' = recon_artifacts (settled e t r (cr_reconstruction res) ro published d)" by metis
  show ?thesis
  proof (cases published)
    case True
    with pub obtain xs where two: "count_where (publishable e t (r_id r) xs) (recon_artifacts d) = 2" by blast
    have "recon_artifacts d' = update_where (staged_of t (r_id r)) (publish_artifact e) (recon_artifacts d)"
      using d' True by (simp add: settled_def)
    moreover have "artifact_step (t_now e) a (publish_artifact e a)" if "a \<in> set (recon_artifacts d)" "staged_of t (r_id r) a" for a
      using publishable_all(3) [OF dist two that]
      by (simp add: artifact_step_def publishable_def staged_of_def publish_artifact_def)
    ultimately show ?thesis by (auto intro: rows_evolve_update artifact_step_refl)
  qed (simp add: d' settled_def artifacts_step_same)
qed

lemma cap_exec_artifacts:
  assumes inv: "cap_sys_inv K s" and held: "holds_cap_claims op s" and ok: "cap_exec K e op s = Inr s'"
  shows "rows_evolve (artifact_step (t_now e)) (recon_artifacts (cap_store s)) (recon_artifacts (cap_store s'))"
proof -
  let ?d = "cap_store s"
  from inv have i: "cap_inv K ?d" by (simp add: cap_sys_inv_def)
  note same = acceptCapture_preserves [OF i] claimJob_preserves [OF i] extendLease_preserves [OF i] failJob_preserves [OF i]
    claimAnalytics_preserves [OF i] retryAnalytics_preserves [OF i] claimCaptureEvent_preserves [OF i]
    completeCaptureEvent_preserves [OF i] retryCaptureEvent_preserves [OF i]
  have ana: "completeAnalytics K e b ?d = Inr (u, d') \<Longrightarrow> b \<in> set (batch_claims s) \<Longrightarrow> recon_artifacts d' = recon_artifacts ?d" for b u d'
    using completeAnalytics_preserves [OF i] inv by (auto simp: cap_sys_inv_def tokens_ok_def)
  have stage: "t \<in> set (job_claims s) \<Longrightarrow> job_token ?d t" for t
    using inv by (simp add: cap_sys_inv_def tokens_ok_def)
  have gc: "rows_evolve (artifact_step (t_now e)) (recon_artifacts ?d) (recon_artifacts d')"
    if "claimReconArtifact K e ?d = Inr (g, d')" for g d'
    using that
    by (auto simp: claimReconArtifact_def artifacts_step_same artifact_step_refl artifact_step_def mark_recon_artifact_def
        recon_artifact_due_def minutes_def seconds_def intro!: rows_evolve_update split: option.splits)
  show ?thesis
  proof (cases op)
    case (StageResult t res h sh objs ro)
    with ok held show ?thesis by (auto simp: cap_exec_Inr intro: stageResult_artifact_steps [OF i stage])
  next
    case (StageReconstruction t xs)
    with ok show ?thesis
      by (auto simp: cap_exec_Inr stageReconstructionArtifacts_def artifact_step_refl
          intro!: rows_evolve_append split: if_splits option.splits)
  next
    case ClaimReconArtifact
    with ok obtain g d where "claimReconArtifact K e ?d = Inr (g, d)" "cap_store s' = d"
      by (auto simp: cap_exec_Inr split: option.splits)
    with gc show ?thesis by simp
  next
    case (CompleteReconArtifact g)
    with ok show ?thesis
      by (auto simp: cap_exec_Inr completeReconArtifact_def Let_def artifact_step_refl artifact_step_def
          deletable_recon_artifact_def intro!: rows_evolve_update split: if_splits)
  next
    case (RetryReconArtifact g)
    with ok show ?thesis
      by (auto simp: cap_exec_Inr retryReconArtifact_def artifact_step_refl artifact_step_def
          deletable_recon_artifact_def intro!: rows_evolve_update)
  qed (use ok held same ana in \<open>fastforce simp: cap_exec_Inr artifacts_step_same split: option.splits\<close>)+
qed

text \<open>A run in which no transaction is more than four minutes behind the latest one.\<close>

inductive paced :: "platform \<Rightarrow> cap_sys \<Rightarrow> bool" for K where
  start: "paced K initial_cap_sys"
| step: "paced K s \<Longrightarrow> horizon s \<le> t_now e + minutes 4 \<Longrightarrow> holds_cap_claims op s \<Longrightarrow> cap_exec K e op s = Inr s' \<Longrightarrow> paced K s'"

lemma paced_reachable: "paced K s \<Longrightarrow> cap_reachable K s"
  by (induction rule: paced.induct) (auto simp: cap_reachable_def intro: cap_reachable_next [unfolded cap_reachable_def])

lemma claimed_unpublishable:
  "paced K s \<Longrightarrow> g \<in> set (deletion_claims s) \<Longrightarrow> \<exists>a \<in> set (recon_artifacts (cap_store s)). ra_id a = cg_id g \<and> unpublishable (horizon s) a"
proof (induction arbitrary: g rule: paced.induct)
  case start
  then show ?case by (simp add: initial_cap_sys_def)
next
  case (step s e op s')
  from cap_reachable_inv [OF paced_reachable [OF step.hyps(1)]] have inv: "cap_sys_inv K s" .
  from claims_kept [OF step.hyps(4)] have h: "horizon s' = max (horizon s) (t_now e)" by blast
  show ?case
  proof (cases "g \<in> set (deletion_claims s)")
    case True
    from step.IH [OF this] obtain a where a: "a \<in> set (recon_artifacts (cap_store s))" "ra_id a = cg_id g"
      "unpublishable (horizon s) a" by blast
    from cap_exec_artifacts [OF inv step.hyps(3,4)] a(1) obtain b where
      b: "b \<in> set (recon_artifacts (cap_store s'))" "artifact_step (t_now e) a b" by (rule rows_evolve_row)
    from cap_exec_moves [OF inv step.hyps(3,4)]
    have "rows_evolve artifact_evolves (recon_artifacts (cap_store s)) (recon_artifacts (cap_store s'))"
      by (simp add: cap_moves_def artifacts_evolve_def)
    with a(1) obtain b' where b': "b' \<in> set (recon_artifacts (cap_store s'))" "artifact_evolves a b'" by (blast elim: rows_evolve_row)
    from cap_reachable_store [OF cap_reachable_next [OF paced_reachable [OF step.hyps(1)] step.hyps(4,3)]]
    have "distinct (map ra_id (recon_artifacts (cap_store s')))" by (simp add: cap_inv_def cap_core_def)
    with b b' have "b' = b" by (auto simp: artifact_step_def artifact_evolves_def dest: distinct_key_unique)
    with unpublishable_step [OF b(2) _ a(3) step.hyps(2)] b'(2) b(1,2) a(2) h show ?thesis
      by (auto simp: artifact_step_def)
  next
    case False
    with step.prems claims_kept [OF step.hyps(4)] obtain d where
      "claimReconArtifact K e (cap_store s) = Inr (Some g, d)" "cap_store s' = d" by auto
    then obtain a where "a \<in> set (recon_artifacts (cap_store s))" "recon_artifact_due e a" "g = recon_artifact_claim a"
      "recon_artifacts (cap_store s') = update_where (\<lambda>x. ra_id x = ra_id a) (mark_recon_artifact e) (recon_artifacts (cap_store s))"
      by (auto elim: claimReconArtifact_claim)
    with h show ?thesis
      by (intro bexI [of _ "mark_recon_artifact e a"])
        (auto simp: set_update_where recon_artifact_claim_def mark_recon_artifact_def unpublishable_def minutes_def seconds_def)
  qed
qed

text \<open>
  C25. As long as no transaction runs on a clock more than four minutes behind another one, an object
  whose deletion was claimed is never published afterwards: the five minutes that \<open>stageResult\<close> demands
  of a staged artifact outlast the deletion claim, so what a worker deletes is never offered for download.
\<close>

theorem claimed_objects_stay_unpublished:
  assumes "paced K s" "g \<in> set (deletion_claims s)" "a \<in> set (recon_artifacts (cap_store s))" "ra_id a = cg_id g"
  shows "ra_state a \<noteq> A_PUBLISHED"
proof -
  from claimed_unpublishable [OF assms(1,2)] obtain b where
    b: "b \<in> set (recon_artifacts (cap_store s))" "ra_id b = cg_id g" "unpublishable (horizon s) b" by blast
  from cap_reachable_store [OF paced_reachable [OF assms(1)]]
  have "distinct (map ra_id (recon_artifacts (cap_store s)))" by (simp add: cap_inv_def cap_core_def)
  with b(1,2) assms(3,4) have "a = b" by (metis distinct_key_unique)
  with b(3) show ?thesis by (auto simp: unpublishable_def)
qed

lemma paced_run: "paced platform0 cap8"
proof -
  have p1: "paced platform0 cap1"
    by (rule paced.step [OF paced.start _ _ cap_run1]) (simp_all add: initial_cap_sys_def)
  have p2: "paced platform0 cap2" by (rule paced.step [OF p1 _ _ cap_run2]) (simp_all add: cap1_def initial_cap_sys_def)
  have p3: "paced platform0 cap3"
    by (rule paced.step [OF p2 _ _ cap_run3]) (simp_all add: cap2_def cap_env_at_def seconds_def minutes_def)
  have p4: "paced platform0 cap4"
    by (rule paced.step [OF p3 _ _ cap_run4]) (simp_all add: cap3_def cap2_def cap_env_at_def seconds_def minutes_def)
  have p5: "paced platform0 cap5"
    by (rule paced.step [OF p4 _ _ cap_run5]) (simp_all add: cap4_def cap_env_at_def seconds_def minutes_def)
  have p6: "paced platform0 cap6"
    by (rule paced.step [OF p5 _ _ cap_run6]) (simp_all add: cap5_def cap_env_at_def seconds_def minutes_def)
  have p7: "paced platform0 cap7"
    by (rule paced.step [OF p6 _ _ cap_run7]) (simp_all add: cap6_def cap5_def cap_env_at_def seconds_def minutes_def)
  show ?thesis
    by (rule paced.step [OF p7 _ _ cap_run8]) (simp_all add: cap7_def cap_env_at_def seconds_def minutes_def)
qed

theorem claimed_objects_stay_unpublished_witness:
  "\<exists>a \<in> set (recon_artifacts (cap_store cap8)). ra_id a = 20 \<and> ra_state a \<noteq> A_PUBLISHED"
proof -
  have "gc1 \<in> set (deletion_claims cap8)" and id: "cg_id gc1 = 20" by (simp_all add: cap8_def gc1_def)
  note unpublished = claimed_objects_stay_unpublished [OF paced_run this(1)]
  have "20 \<in> ra_id ` set (recon_artifacts (cap_store cap8))"
    unfolding cap8_nf by (simp add: cap_run_defs)
  with unpublished id show ?thesis by (metis imageE)
qed

text \<open>
  C26. Deleting any archive of a reconstruction ends it: completing the deletion of a STATIC_ARCHIVE sets
  its reconstruction from PUBLISHED or PARTIAL to EXPIRED without comparing generations. So the removal of an
  archive a failed earlier attempt had only staged expires a reconstruction whose own archive is
  still published, and \<open>getReconstruction\<close> reports EXPIRED with an archive that can be downloaded.
\<close>

theorem superseded_archive_expires:
  assumes "completeReconArtifact K e g d = Inr (u, d')" "cg_kind g = STATIC_ARCHIVE"
    and "r \<in> set (recons d)" "r_id r = cg_recon g" "r_status r \<in> {R_PUBLISHED, R_PARTIAL}"
  shows "expire_recon e r \<in> set (recons d')
    \<and> (\<forall>a \<in> set (recon_artifacts d). ra_id a \<noteq> cg_id g \<longrightarrow> a \<in> set (recon_artifacts d'))"
  using assms
  by (force simp: completeReconArtifact_def Let_def set_update_where deletable_recon_artifact_def split: if_splits)

theorem superseded_archive_expires_witness:
  "expire_recon (cap_env_at 3603) rec7 \<in> set (recons (cap_store cap9))
    \<and> (\<exists>a \<in> set (recon_artifacts (cap_store cap9)). source_archive rec7 a \<and> ra_state a = A_PUBLISHED)
    \<and> map_option (\<lambda>v. (rv_status v, rv_download_available v)) (getReconstruction (cap_env_at 3604) 3 7 (cap_store cap9))
        = Some (R_EXPIRED, True)"
proof -
  let ?a = "publish_artifact (cap_env_at 12) (hd art6)"
  have d: "completeReconArtifact platform0 (cap_env_at 3603) gc1 (cap_store cap8) = Inr ((), cap_store cap9)"
    using cap_run9 by (auto simp: cap_exec_Inr dest: arg_cong [where f = cap_store])
  have r: "rec7 \<in> set (recons (cap_store cap8))" "r_id rec7 = cg_recon gc1" "r_status rec7 \<in> {R_PUBLISHED, R_PARTIAL}"
    by (simp_all add: cap8_def cap7_def rec7_def rec5_def rec2_def rec1_def finish_recon_def new_recon_row_def gc1_def cap_env_at_def)
  have a: "?a \<in> set (recon_artifacts (cap_store cap8))" "ra_id ?a \<noteq> cg_id gc1" "source_archive rec7 ?a" "ra_state ?a = A_PUBLISHED"
    by (simp_all add: cap_run_defs cap_sys_defs3 gc1_def cap8_def source_archive_def)
  have "map_option (\<lambda>v. (rv_status v, rv_download_available v)) (getReconstruction (cap_env_at 3604) 3 7 (cap_store cap9))
        = Some (R_EXPIRED, True)"
    by (simp add: cap_run_defs cap_sys_defs3 gc1_def cap8_def cap9_def getReconstruction_def recon_view_of_def
        source_archive_def reported_status_def)
  with superseded_archive_expires [OF d _ r] a show ?thesis by (auto simp: gc1_def)
qed

end
