(* ===== verification/Archive_Paths.thy ===== *)
theory Archive_Paths
  imports Js_Text
begin

text \<open>
  File names inside the archives: the operations of \<open>node:path\<close> (its \<open>posix\<close> variant) the sources use, and
  the functions of \<open>capture-worker/src/static-clone.ts\<close> and \<open>site-archive.ts\<close> that turn untrusted text
  into relative paths. Paths are ASCII text, on which \<open>normalize('NFC')\<close> is the identity.
\<close>

section \<open>\<open>posix\<close>\<close>

abbreviation slash :: char where "slash \<equiv> CHR ''/''"

text \<open>\<open>normalizeString\<close>: empty and \<open>.\<close> segments vanish, \<open>..\<close> removes the segment before it.\<close>

definition norm_step :: "bool \<Rightarrow> string list \<Rightarrow> string \<Rightarrow> string list" where
  "norm_step up acc s =
     (if s = [] \<or> s = ''.'' then acc
      else if s = ''..'' then
        (if acc \<noteq> [] \<and> last acc \<noteq> ''..'' then butlast acc else if up then acc @ [''..''] else acc)
      else acc @ [s])"

definition norm_segs :: "bool \<Rightarrow> string list \<Rightarrow> string list" where
  "norm_segs up = foldl (norm_step up) []"

definition posix_normalize :: "string \<Rightarrow> string" where
  "posix_normalize p =
     (if p = [] then ''.''
      else let absolute = (hd p = slash);
               trailing = (last p = slash);
               body = join_with slash (norm_segs (\<not> absolute) (split_on slash p))
           in if body = [] then (if absolute then ''/'' else if trailing then ''./'' else ''.'')
              else (if absolute then [slash] else []) @ body @ (if trailing then [slash] else []))"

definition posix_join :: "string list \<Rightarrow> string" where
  "posix_join ps = (let qs = filter (\<lambda>p. p \<noteq> []) ps in if qs = [] then ''.'' else posix_normalize (join_with slash qs))"

text \<open>\<open>dirname\<close> and \<open>basename\<close> of a path that neither is empty nor ends in a slash.\<close>

definition posix_dirname :: "string \<Rightarrow> string" where
  "posix_dirname p = (let segs = split_on slash p in
     if length segs \<le> 1 then ''.'' else if tl (butlast segs) = [] \<and> hd segs = [] then ''/'' else join_with slash (butlast segs))"

definition posix_basename :: "string \<Rightarrow> string" where
  "posix_basename p = last (split_on slash p)"

text \<open>\<open>extname\<close>: from the last dot of the name on, unless the name starts with that dot.\<close>

definition last_dot :: "string \<Rightarrow> nat option" where
  "last_dot s = (let k = length (takeWhile (\<lambda>c. c \<noteq> CHR ''.'') (rev s)) in if k = length s then None else Some (length s - k - 1))"

definition posix_extname :: "string \<Rightarrow> string" where
  "posix_extname p = (let b = posix_basename p in
     case last_dot b of None \<Rightarrow> [] | Some i \<Rightarrow> if i = 0 \<or> b = ''..'' then [] else drop i b)"

text \<open>\<open>basename(path, ext)\<close>: without the extension, unless it is the whole name.\<close>

definition posix_basename_without :: "string \<Rightarrow> string \<Rightarrow> string" where
  "posix_basename_without p ext = (let b = posix_basename p in
     if ends_with ext b \<and> ext \<noteq> b then take (length b - length ext) b else b)"

text \<open>\<open>relative(from, to)\<close> of two relative paths.\<close>

fun common_prefix :: "'a list \<Rightarrow> 'a list \<Rightarrow> nat" where
  "common_prefix (x # xs) (y # ys) = (if x = y then Suc (common_prefix xs ys) else 0)"
| "common_prefix _ _ = 0"

definition posix_relative :: "string list \<Rightarrow> string \<Rightarrow> string \<Rightarrow> string" where
  "posix_relative cwd from to' =
     (let f = norm_segs False (cwd @ split_on slash from); t = norm_segs False (cwd @ split_on slash to');
          k = common_prefix f t
      in join_with slash (replicate (length f - k) ''..'' @ drop k t))"

lemma norm_step_plain: "s \<notin> {[], ''.'', ''..''} \<Longrightarrow> norm_step up acc s = acc @ [s]"
  by (simp add: norm_step_def)

lemma norm_segs_snoc: "norm_segs up (segs @ [s]) = norm_step up (norm_segs up segs) s"
  by (simp add: norm_segs_def)

lemma norm_segs_Nil [simp]: "norm_segs up [] = []"
  by (simp add: norm_segs_def)

text \<open>Normalised segments are plain names, after some \<open>..\<close> when the path may climb above its start.\<close>

definition plain :: "string \<Rightarrow> bool" where
  "plain s \<longleftrightarrow> s \<notin> {[], ''.'', ''..''} \<and> slash \<notin> set s"

lemma norm_segs_shape:
  assumes "\<forall>s \<in> set segs. slash \<notin> set s"
  shows "\<exists>n ps. norm_segs up segs = replicate n ''..'' @ ps \<and> list_all plain ps \<and> (n = 0 \<or> up)"
  using assms
proof (induction segs rule: rev_induct)
  case Nil
  show ?case by (intro exI [of _ 0] exI [of _ "[]"]) simp
next
  case (snoc s segs)
  then obtain n ps where n: "norm_segs up segs = replicate n ''..'' @ ps" "list_all plain ps" "n = 0 \<or> up" by auto
  show ?case
  proof (cases "s \<in> {[], ''.'', ''..''}")
    case False
    with snoc.prems have "plain s" by (simp add: plain_def)
    with n False show ?thesis
      by (intro exI [of _ n] exI [of _ "ps @ [s]"]) (simp add: norm_segs_snoc norm_step_plain)
  next
    case True
    show ?thesis
    proof (cases "s = ''..''")
      case False
      with True n show ?thesis
        by (intro exI [of _ n] exI [of _ ps]) (auto simp: norm_segs_snoc norm_step_def)
    next
      case dots: True
      show ?thesis
      proof (cases ps rule: rev_cases)
        case Nil
        have "norm_segs up (segs @ [s]) = (if up then replicate (Suc n) ''..'' else replicate n ''..'')"
          using n Nil dots by (auto simp: norm_segs_snoc norm_step_def replicate_append_same)
        with n(3) show ?thesis
          by (intro exI [of _ "if up then Suc n else n"] exI [of _ "[]"]) auto
      next
        case (snoc qs q)
        with n dots have "norm_segs up (segs @ [s]) = replicate n ''..'' @ qs"
          by (auto simp: norm_segs_snoc norm_step_def plain_def butlast_append)
        with n snoc show ?thesis by (intro exI [of _ n] exI [of _ qs]) auto
      qed
    qed
  qed
qed

section \<open>\<open>safeArchivePath\<close>\<close>

datatype path_error = INVALID_SITE_ARCHIVE_PATH | SITE_ARCHIVE_PATH_COLLISION

definition path_char :: "char \<Rightarrow> bool" where
  "path_char c \<longleftrightarrow> lower_alpha c \<or> upper_alpha c \<or> digit c \<or> c \<in> {CHR ''.'', CHR ''_'', CHR ''/'', CHR ''-''}"

definition safeArchivePath :: "string \<Rightarrow> path_error + string" where
  "safeArchivePath value =
     (let normalized = dropWhile (\<lambda>c. c = slash)
            (posix_normalize (map (\<lambda>c. if c = CHR 0x5C then slash else c) value))
      in if normalized = [] \<or> normalized = ''.'' \<or> starts_with ''../'' normalized \<or> contains_text ''/../'' normalized
         then Inl INVALID_SITE_ARCHIVE_PATH
         else if \<not> list_all path_char normalized then Inl INVALID_SITE_ARCHIVE_PATH
         else Inr (take 512 normalized))"

text \<open>A path climbs when following it leaves the directory it starts in.\<close>

definition climbs :: "string \<Rightarrow> bool" where
  "climbs p \<longleftrightarrow> ''..'' \<in> set (norm_segs True (split_on slash p))"

lemma split_on_Cons: "split_on c s = takeWhile (\<lambda>x. x \<noteq> c) s # (case dropWhile (\<lambda>x. x \<noteq> c) s of [] \<Rightarrow> [] | _ # t \<Rightarrow> split_on c t)"
proof (induction s)
  case (Cons x s)
  then show ?case by (auto split: list.splits)
qed simp

lemma split_on_append: "split_on c (a @ c # b) = split_on c a @ split_on c b"
  by (induction a) (auto split: list.splits)

lemma list_all_plainD: "list_all plain ps \<Longrightarrow> s \<in> set ps \<Longrightarrow> s \<noteq> [] \<and> s \<noteq> ''.'' \<and> s \<noteq> ''..'' \<and> slash \<notin> set s"
  by (auto simp: list_all_iff plain_def)

lemma norm_segs_plain: "list_all plain ps \<Longrightarrow> foldl (norm_step up) acc ps = acc @ ps"
  by (induction ps arbitrary: acc) (auto simp: plain_def norm_step_plain)

text \<open>A prefix of a normal path does not climb.\<close>

lemma plain_prefix_safe:
  assumes "list_all plain ps" "ps \<noteq> []" "slash \<notin> set s"
  shows "''..'' \<notin> set (norm_segs True (ps @ [s]))"
proof -
  have n: "norm_segs True ps = ps" using norm_segs_plain [OF assms(1), of True "[]"] by (simp add: norm_segs_def)
  have nd: "''..'' \<notin> set ps" using assms(1) by (auto simp: list_all_iff plain_def)
  have "set (butlast ps) \<subseteq> set ps" by (auto dest: in_set_butlastD)
  moreover have "last ps \<noteq> ''..''" using nd assms(2) last_in_set [OF assms(2)] by metis
  ultimately show ?thesis using nd assms(2) unfolding norm_segs_snoc n by (auto simp: norm_step_def)
qed

lemma split_join_plain: "list_all plain ps \<Longrightarrow> ps \<noteq> [] \<Longrightarrow> split_on slash (join_with slash ps) = ps"
  by (rule split_join) (auto simp: list_all_iff plain_def)

text \<open>The segments of a prefix of a joined path: some whole segments and a part of the next one.\<close>

lemma split_take:
  "\<exists>k u. split_on c (take n s) = take k (split_on c s) @ [u] \<and> (\<exists>v. k < length (split_on c s) \<and> split_on c s ! k = u @ v)"
proof (induction s arbitrary: n)
  case Nil
  show ?case by (intro exI [of _ 0] exI [of _ "[]"]) simp
next
  case (Cons x s)
  show ?case
  proof (cases n)
    case 0
    then show ?thesis by (intro exI [of _ 0] exI [of _ "[]"]) (simp split: list.splits)
  next
    case (Suc m)
    from Cons.IH [of m] obtain k u v where k: "split_on c (take m s) = take k (split_on c s) @ [u]"
      "k < length (split_on c s)" "split_on c s ! k = u @ v" by blast
    show ?thesis
    proof (cases "x = c")
      case True
      with k Suc show ?thesis by (intro exI [of _ "Suc k"] exI [of _ u] conjI exI [of _ v]) simp_all
    next
      case False
      obtain y ys where y: "split_on c s = y # ys" by (cases "split_on c s") auto
      show ?thesis
      proof (cases k)
        case 0
        with k y False Suc show ?thesis by (intro exI [of _ 0] exI [of _ "x # u"] conjI exI [of _ v]) simp_all
      next
        case (Suc j)
        with k y False \<open>n = Suc m\<close> show ?thesis
          by (intro exI [of _ "Suc j"] exI [of _ u] conjI exI [of _ v]) simp_all
      qed
    qed
  qed
qed

lemma take_plain:
  assumes "list_all plain ps" "ps \<noteq> []"
  shows "take n (join_with slash ps) = ''..'' \<or> \<not> climbs (take n (join_with slash ps))"
proof -
  from split_take [of slash n "join_with slash ps"] obtain k u v where
    k: "split_on slash (take n (join_with slash ps)) = take k ps @ [u]" "k < length ps" "ps ! k = u @ v"
    unfolding split_join_plain [OF assms] by blast
  from k(2,3) assms(1) have "slash \<notin> set u" by (metis Un_iff list_all_plainD nth_mem set_append)
  show ?thesis
  proof (cases k)
    case 0
    with k(1) have "take n (join_with slash ps) = u" by (metis append_Nil join_split join_with.simps(2) take0)
    with k(1) 0 show ?thesis by (auto simp: climbs_def norm_segs_def norm_step_def)
  next
    case (Suc j)
    have "list_all plain (take k ps)" using assms(1) by (auto simp: list_all_iff dest: in_set_takeD)
    moreover have "take k ps \<noteq> []" using Suc assms(2) by simp
    ultimately show ?thesis unfolding climbs_def k(1) using plain_prefix_safe [OF _ _ \<open>slash \<notin> set u\<close>] by blast
  qed
qed

text \<open>What \<open>safeArchivePath\<close> cuts to 512 characters: plain segments, or a path that starts with \<open>..\<close>.\<close>

lemma join_head: "list_all plain ps \<Longrightarrow> ps \<noteq> [] \<Longrightarrow> join_with slash ps \<noteq> [] \<and> hd (join_with slash ps) \<noteq> slash"
  by (cases ps; cases "tl ps") (auto simp: plain_def neq_Nil_conv)

lemma dropWhile_head: "p \<noteq> [] \<Longrightarrow> hd p \<noteq> slash \<Longrightarrow> dropWhile (\<lambda>c. c = slash) (p @ q) = p @ q"
  by (cases p) simp_all

lemma dots_head:
  assumes "join_with slash (''..'' # ps) @ t = p" "t = [] \<or> t = [slash]" "p \<noteq> ''..''"
  shows "starts_with ''../'' p"
  using assms by (cases ps) (auto simp: starts_with_def)

lemma normalized_shape:
  assumes "p \<noteq> []" and "posix_normalize p = q" and "r = dropWhile (\<lambda>c. c = slash) q"
    and ok: "r \<noteq> []" "r \<noteq> ''.''" "\<not> starts_with ''../'' r"
  shows "r = ''..'' \<or> r = ''./'' \<or> (\<exists>ps t. list_all plain ps \<and> ps \<noteq> [] \<and> (t = [] \<or> t = [slash]) \<and> r = join_with slash ps @ t)"
proof -
  let ?segs = "norm_segs (hd p \<noteq> slash) (split_on slash p)"
  let ?t = "if last p = slash then [slash] else []"
  have "\<forall>s \<in> set (split_on slash p). slash \<notin> set s" by (auto dest: split_on_free)
  from norm_segs_shape [OF this] obtain n ps where
    n: "?segs = replicate n ''..'' @ ps" "list_all plain ps" "n = 0 \<or> hd p \<noteq> slash" by blast
  show ?thesis
  proof (cases "?segs = []")
    case True
    with assms have "q = ''/'' \<or> q = ''./'' \<or> q = ''.''" by (auto simp: posix_normalize_def Let_def split: if_splits)
    with assms show ?thesis by auto
  next
    case False
    have ne: "join_with slash ?segs \<noteq> []"
    proof (cases n)
      case 0
      with n False join_head show ?thesis by auto
    next
      case (Suc m)
      with n show ?thesis by (cases "replicate m ''..'' @ ps") auto
    qed
    have q: "q = (if hd p = slash then [slash] else []) @ join_with slash ?segs @ ?t"
      using assms(1,2) ne unfolding posix_normalize_def by (simp add: Let_def split: if_splits)
    show ?thesis
    proof (cases n)
      case 0
      with n False have ps: "?segs = ps" "ps \<noteq> []" by auto
      from join_head [OF n(2) ps(2)] have "dropWhile (\<lambda>c. c = slash) (join_with slash ps @ ?t) = join_with slash ps @ ?t"
        by (intro dropWhile_head) blast+
      then have "r = join_with slash ps @ ?t" unfolding assms(3) q ps(1) by (cases "hd p = slash") simp_all
      with n(2) ps(2) show ?thesis by (intro disjI2 exI [of _ ps] exI [of _ ?t]) simp
    next
      case (Suc m)
      with n have rel: "hd p \<noteq> slash" and segs: "?segs = ''..'' # (replicate m ''..'' @ ps)" by auto
      have q2: "q = join_with slash (''..'' # (replicate m ''..'' @ ps)) @ ?t"
        using q rel unfolding segs by simp
      have "hd q \<noteq> slash \<and> q \<noteq> []" unfolding q2 by (cases "replicate m ''..'' @ ps") auto
      with dropWhile_head [of q "[]"] assms(3) have "r = q" by simp
      have "?t = [] \<or> ?t = [slash]" by simp
      from dots_head [OF q2 [symmetric] this] ok(3) \<open>r = q\<close> show ?thesis by blast
    qed
  qed
qed

text \<open>
  Which paths leave the archive: \<open>..\<close> itself, which neither guard of the code matches, and nothing else.
\<close>

lemma safeArchivePath_climbs:
  assumes "safeArchivePath value = Inr r"
  shows "length r \<le> 512 \<and> list_all path_char r \<and> r \<noteq> [] \<and> hd r \<noteq> slash \<and> (climbs r \<longleftrightarrow> r = ''..'')"
proof -
  let ?p = "map (\<lambda>c. if c = CHR 0x5C then slash else c) value"
  let ?q = "dropWhile (\<lambda>c. c = slash) (posix_normalize ?p)"
  from assms have ok: "?q \<noteq> []" "?q \<noteq> ''.''" "\<not> starts_with ''../'' ?q" "list_all path_char ?q" and r: "r = take 512 ?q"
    by (auto simp: safeArchivePath_def Let_def split: if_splits)
  have "hd ?q \<noteq> slash" using ok(1) hd_dropWhile [of "\<lambda>c. c = slash"] by blast
  then have "r \<noteq> []" "hd r \<noteq> slash" using ok(1) by (simp_all add: r hd_take)
  moreover have "list_all path_char r" using ok(4) by (auto simp: r list_all_iff dest: in_set_takeD)
  moreover have "climbs r \<longleftrightarrow> r = ''..''"
  proof
    show "r = ''..'' \<Longrightarrow> climbs r" by (simp add: climbs_def norm_segs_def norm_step_def)
    assume c: "climbs r"
    have "?p \<noteq> []" using ok(2) by (auto simp: posix_normalize_def)
    from normalized_shape [OF this refl refl ok(1-3)] show "r = ''..''"
    proof (elim disjE)
      assume "?q = ''..''"
      then show ?thesis by (simp add: r)
    next
      assume "?q = ''./''"
      then have "r = ''./''" by (simp add: r)
      with c show ?thesis by (simp add: climbs_def norm_segs_def norm_step_def)
    next
      assume "\<exists>ps t. list_all plain ps \<and> ps \<noteq> [] \<and> (t = [] \<or> t = [slash]) \<and> ?q = join_with slash ps @ t"
      then obtain ps t where ps: "list_all plain ps" "ps \<noteq> []" and q: "?q = join_with slash ps @ t" and t: "t = [] \<or> t = [slash]"
        by blast
      show ?thesis
      proof (cases "t = [slash] \<and> length (join_with slash ps) < 512")
        case True
        then have "length (join_with slash ps @ t) \<le> 512" by simp
        then have "r = join_with slash ps @ slash # []" using True unfolding r q by (simp only: take_all)
        with split_on_append [of slash "join_with slash ps" "[]"] split_join_plain [OF ps]
        have "split_on slash r = ps @ [[]]" by simp
        with c plain_prefix_safe [OF ps, of "[]"] show ?thesis by (simp add: climbs_def)
      next
        case False
        with t have "r = take 512 (join_with slash ps)" by (auto simp: r q)
        with take_plain [OF ps, of 512] c show ?thesis by auto
      qed
    qed
  qed
  ultimately show ?thesis by (simp add: r)
qed

section \<open>Names of the files of a static clone\<close>

fun decimal :: "nat \<Rightarrow> string" where
  "decimal n = (if n < 10 then [] else decimal (n div 10)) @ [char_of (48 + n mod 10)]"

declare decimal.simps [simp del]

lemma decimal_value: "foldl (\<lambda>v c. 10 * v + (of_char c - 48)) 0 (decimal n) = n"
proof (induction n rule: decimal.induct)
  case (1 n)
  have c: "of_char (char_of (48 + n mod 10)) - 48 = n mod 10" by (simp add: of_char_of)
  show ?case
  proof (cases "n < 10")
    case True
    with c show ?thesis by (subst decimal.simps) simp
  next
    case False
    with 1 c show ?thesis by (subst decimal.simps) simp
  qed
qed

lemma decimal_inj: "decimal m = decimal n \<longleftrightarrow> m = n"
  by (metis decimal_value)

lemma decimal_digits: "list_all digit (decimal n)"
proof (induction n rule: decimal.induct)
  case (1 n)
  have "n mod 10 < 10" by simp
  then have "digit (char_of (48 + n mod 10))"
    by (simp add: digit_def between_def less_eq_char_def of_char_of)
  with 1 show ?case by (subst decimal.simps) simp
qed

lemma lower_digit: "digit c \<Longrightarrow> lower_char c = c"
  by (auto simp: digit_def lower_char_def between_def less_eq_char_def)

lemma lower_decimal [simp]: "toLowerCase (decimal n) = decimal n"
proof -
  have "map lower_char s = s" if "list_all digit s" for s
    using that by (induction s) (simp_all add: lower_digit)
  then show ?thesis using decimal_digits by (simp add: toLowerCase_def)
qed

text \<open>The \<open>n\<close>-th candidate of \<open>deduplicatePath\<close>.\<close>

definition numbered :: "string \<Rightarrow> nat \<Rightarrow> string" where
  "numbered path n = (let ext = posix_extname path in
     posix_join [posix_dirname path, posix_basename_without path ext @ ''_'' @ decimal n @ ext])"

lemma split_last_free: "slash \<notin> set (last (split_on slash s))"
  by (rule split_on_free [OF last_in_set]) simp

lemma basename_free: "slash \<notin> set (posix_basename p)"
  by (simp add: posix_basename_def split_last_free)

lemma basename_without_free: "slash \<notin> set (posix_basename_without p ext)"
  using basename_free [of p] by (auto simp: posix_basename_without_def Let_def dest: in_set_takeD)

lemma extname_free: "slash \<notin> set (posix_extname p)"
  using basename_free [of p] by (auto simp: posix_extname_def Let_def split: option.splits if_splits dest: in_set_dropD)

lemma decimal_free: "slash \<notin> set (decimal n)"
proof
  assume "slash \<in> set (decimal n)"
  with decimal_digits [of n] have "digit slash" by (auto simp: list_all_iff)
  then show False by (simp add: digit_def between_def less_eq_char_def)
qed

lemma dirname_not_Nil: "posix_dirname p \<noteq> []"
proof -
  obtain s ss where s: "split_on slash p = s # ss" by (cases "split_on slash p") auto
  show ?thesis
  proof (cases ss rule: rev_cases)
    case Nil
    with s show ?thesis by (simp add: posix_dirname_def)
  next
    case (snoc us u)
    with s show ?thesis by (cases us) (auto simp: posix_dirname_def Let_def)
  qed
qed

text \<open>Joining a directory and a plain name appends the name to the normalised directory.\<close>

lemma join_plain:
  assumes "plain s" "d \<noteq> []"
  shows "posix_join [d, s] = (if hd d = slash then [slash] else []) @ join_with slash (norm_segs (hd d \<noteq> slash) (split_on slash d) @ [s])"
proof -
  from assms(1) have s: "s \<noteq> []" "slash \<notin> set s" "last s \<noteq> slash" by (auto simp: plain_def dest: last_in_set)
  have "split_on slash (d @ slash # s) = split_on slash d @ [s]"
    using s(2) by (simp add: split_on_append split_on_single)
  then have seg: "norm_segs up (split_on slash (d @ slash # s)) = norm_segs up (split_on slash d) @ [s]" for up
    using assms(1) by (simp add: norm_segs_snoc norm_step_def plain_def)
  have "join_with slash (ps @ [s]) \<noteq> []" for ps
    using s(1) by (induction ps rule: join_with.induct [of _ slash]) auto
  then show ?thesis using assms(2) s by (simp add: posix_join_def posix_normalize_def Let_def seg)
qed

lemma join_snoc: "join_with c (ps @ [s]) = (if ps = [] then s else join_with c ps @ c # s)"
  by (induction ps rule: join_with.induct [of _ c]) auto

lemma toLowerCase_append [simp]: "toLowerCase (a @ b) = toLowerCase a @ toLowerCase b"
  by (simp add: toLowerCase_def)

lemma toLowerCase_Cons [simp]: "toLowerCase (a # b) = lower_char a # toLowerCase b"
  by (simp add: toLowerCase_def)

lemma numbered_inj:
  assumes "toLowerCase (numbered p m) = toLowerCase (numbered p n)"
  shows "m = n"
proof -
  let ?ext = "posix_extname p"
  let ?name = "\<lambda>k. posix_basename_without p ?ext @ ''_'' @ decimal k @ ?ext"
  have pl: "plain (?name k)" for k
    using basename_without_free [of p ?ext] extname_free [of p] decimal_free [of k]
    by (auto simp: plain_def Cons_eq_append_conv append_eq_Cons_conv)
  have "toLowerCase (?name m) = toLowerCase (?name n)"
    using assms unfolding numbered_def Let_def join_plain [OF pl dirname_not_Nil] join_snoc by (auto split: if_splits)
  then have "decimal m = decimal n" by simp
  then show ?thesis by (simp add: decimal_inj)
qed

text \<open>
  The loop of \<open>deduplicatePath\<close>. It ends because the candidates differ and only finitely many names are
  in use.
\<close>

function dedup_from :: "string \<Rightarrow> string list \<Rightarrow> nat \<Rightarrow> string" where
  "dedup_from path used n =
     (if toLowerCase (numbered path n) \<in> set used then dedup_from path used (n + 1) else numbered path n)"
  by auto
termination
proof (relation "measure (\<lambda>(path, used, n). card (set used - (\<lambda>k. toLowerCase (numbered path k)) ` {..<n}))")
  fix path used n assume used: "toLowerCase (numbered path n) \<in> set used"
  let ?f = "\<lambda>k. toLowerCase (numbered path k)"
  have "?f n \<notin> ?f ` {..<n}" by (auto dest: numbered_inj)
  with used have "set used - ?f ` {..<n + 1} \<subset> set used - ?f ` {..<n}" by (auto simp: less_Suc_eq)
  then show "((path, used, n + 1), path, used, n) \<in> measure (\<lambda>(path, used, n). card (set used - (\<lambda>k. toLowerCase (numbered path k)) ` {..<n}))"
    by (simp add: psubset_card_mono)
qed simp

declare dedup_from.simps [simp del]

definition deduplicatePath :: "string \<Rightarrow> string list \<Rightarrow> string \<times> string list" where
  "deduplicatePath path used =
     (let candidate = (if toLowerCase path \<in> set used then dedup_from path used 1 else path)
      in (candidate, toLowerCase candidate # used))"

lemma dedup_from_free: "toLowerCase (dedup_from path used n) \<notin> set used"
  by (induction path used n rule: dedup_from.induct) (subst dedup_from.simps, simp)

lemma dedup_from_first:
  "\<exists>k \<ge> n. dedup_from path used n = numbered path k \<and> (\<forall>i. n \<le> i \<and> i < k \<longrightarrow> toLowerCase (numbered path i) \<in> set used)"
proof (induction path used n rule: dedup_from.induct)
  case (1 path used n)
  show ?case
  proof (cases "toLowerCase (numbered path n) \<in> set used")
    case True
    with 1 obtain k where k: "n + 1 \<le> k" "dedup_from path used (n + 1) = numbered path k"
      "\<forall>i. n + 1 \<le> i \<and> i < k \<longrightarrow> toLowerCase (numbered path i) \<in> set used" by blast
    have "toLowerCase (numbered path i) \<in> set used" if "n \<le> i" "i < k" for i
      using k(3) True that by (cases "i = n") auto
    with True k(1,2) show ?thesis by (subst dedup_from.simps) (auto intro!: exI [of _ k])
  next
    case False
    then show ?thesis by (subst dedup_from.simps) (auto intro!: exI [of _ n])
  qed
qed

text \<open>\<open>inferExtension\<close> and its table.\<close>

definition mime_extensions :: "(string \<times> string) list" where
  "mime_extensions =
    [(''text/html'', ''.html''), (''text/css'', ''.css''), (''text/javascript'', ''.js''),
     (''application/javascript'', ''.js''), (''application/x-javascript'', ''.js''),
     (''image/png'', ''.png''), (''image/jpeg'', ''.jpg''), (''image/gif'', ''.gif''),
     (''image/svg+xml'', ''.svg''), (''image/webp'', ''.webp''), (''image/avif'', ''.avif''),
     (''image/x-icon'', ''.ico''), (''image/vnd.microsoft.icon'', ''.ico''),
     (''font/woff'', ''.woff''), (''font/woff2'', ''.woff2''), (''font/ttf'', ''.ttf''),
     (''font/otf'', ''.otf''), (''application/font-woff'', ''.woff''),
     (''application/font-woff2'', ''.woff2''), (''application/x-font-woff'', ''.woff''),
     (''application/x-font-ttf'', ''.ttf''), (''application/vnd.ms-fontobject'', ''.eot'')]"

text \<open>\<open>value.split(';')[0].trim().toLowerCase()\<close>.\<close>

definition space :: "char \<Rightarrow> bool" where
  "space c \<longleftrightarrow> c \<in> {CHR 0x20, CHR 0x09, CHR 0x0A, CHR 0x0B, CHR 0x0C, CHR 0x0D, CHR 0xA0}"

definition trim :: "string \<Rightarrow> string" where
  "trim s = rev (dropWhile space (rev (dropWhile space s)))"

definition mime_of :: "string \<Rightarrow> string" where
  "mime_of contentType = toLowerCase (trim (hd (split_on (CHR '';'') contentType)))"

definition inferExtension :: "string \<Rightarrow> string \<Rightarrow> string" where
  "inferExtension path contentType =
     (if CHR ''.'' \<in> set (posix_basename path) then path
      else path @ (case map_of mime_extensions (mime_of contentType) of None \<Rightarrow> [] | Some ext \<Rightarrow> ext))"

text \<open>\<open>sanitizePathComponent\<close>.\<close>

definition component_char :: "char \<Rightarrow> bool" where
  "component_char c \<longleftrightarrow> lower_alpha c \<or> upper_alpha c \<or> digit c \<or> c \<in> {CHR ''.'', CHR ''_'', CHR ''-''}"

definition forbidden_char :: "char \<Rightarrow> bool" where
  "forbidden_char c \<longleftrightarrow> c \<in> set ''<>:|?*/'' \<or> c = CHR 0x22 \<or> c = CHR 0x5C \<or> (of_char c :: nat) \<le> 31"

definition reserved_name :: "string \<Rightarrow> bool" where
  "reserved_name b \<longleftrightarrow> b \<in> {''CON'', ''PRN'', ''AUX'', ''NUL''}
     \<or> (length b = 4 \<and> take 3 b \<in> {''COM'', ''LPT''} \<and> between (CHR ''1'') (CHR ''9'') (b ! 3))"

definition cut_component :: "string \<Rightarrow> string" where
  "cut_component s =
     (if 100 < length s
      then (let ext = (case last_dot s of None \<Rightarrow> [] | Some i \<Rightarrow> if 0 < i then take 21 (drop i s) else [])
            in take (max 1 (100 - length ext)) s @ ext)
      else s)"

definition sanitizePathComponent :: "string \<Rightarrow> string" where
  "sanitizePathComponent value =
     (let s1 = replace_class (\<lambda>c. \<not> component_char c) (CHR ''_'') (replace_class forbidden_char (CHR ''_'') value);
          s2 = rev (dropWhile (\<lambda>c. c = CHR ''.'' \<or> c = CHR 0x20) (rev s1));
          s3 = (if s2 = [] \<or> s2 = ''.'' \<or> s2 = ''..'' then ''_'' else s2);
          base = toUpperCase (hd (split_on (CHR ''.'') s3));
          s4 = (if reserved_name base then CHR ''_'' # s3 else s3)
      in cut_component s4)"

lemma component_replaced: "list_all component_char (replace_class (\<lambda>c. \<not> component_char c) (CHR ''_'') s)"
  by (auto simp: list_all_iff replace_class_def component_char_def)

lemma cut_component_ok:
  assumes "list_all component_char s" "s \<noteq> []"
  shows "list_all component_char (cut_component s) \<and> cut_component s \<noteq> [] \<and> length (cut_component s) \<le> 100"
proof -
  have sub: "set (take n (drop m s)) \<subseteq> set s" "set (take n s) \<subseteq> set s" for n m
    by (auto dest: in_set_takeD in_set_dropD)
  with assms show ?thesis
    by (auto simp: cut_component_def Let_def list_all_iff subset_iff split: option.splits) 
qed

lemma cut_component_dots: "s \<noteq> ''.'' \<Longrightarrow> s \<noteq> ''..'' \<Longrightarrow> cut_component s \<noteq> ''.'' \<and> cut_component s \<noteq> ''..''"
proof -
  assume dots: "s \<noteq> ''.''" "s \<noteq> ''..''"
  have "79 \<le> length (cut_component s)" if "100 < length s"
    using that by (auto simp: cut_component_def Let_def split: option.splits)
  with dots show ?thesis by (cases "100 < length s") (auto simp: cut_component_def)
qed

lemma sanitized_component:
  "plain (sanitizePathComponent v) \<and> length (sanitizePathComponent v) \<le> 100 \<and> list_all component_char (sanitizePathComponent v)"
proof -
  define s1 where "s1 = replace_class (\<lambda>c. \<not> component_char c) (CHR ''_'') (replace_class forbidden_char (CHR ''_'') v)"
  define s2 where "s2 = rev (dropWhile (\<lambda>c. c = CHR ''.'' \<or> c = CHR 0x20) (rev s1))"
  define s3 where "s3 = (if s2 = [] \<or> s2 = ''.'' \<or> s2 = ''..'' then ''_'' else s2)"
  define s4 where "s4 = (if reserved_name (toUpperCase (hd (split_on (CHR ''.'') s3))) then CHR ''_'' # s3 else s3)"
  have v: "sanitizePathComponent v = cut_component s4"
    unfolding sanitizePathComponent_def Let_def s1_def s2_def s3_def s4_def by (rule refl)
  have u: "component_char (CHR ''_'')" by (simp add: component_char_def)
  have "list_all component_char s1" by (simp add: s1_def component_replaced)
  then have "list_all component_char s2" unfolding s2_def list_all_iff by (auto dest: set_dropWhileD)
  with u have c3: "list_all component_char s3" by (simp add: s3_def)
  have d3: "s3 \<noteq> []" "s3 \<noteq> ''.''" "s3 \<noteq> ''..''" by (auto simp: s3_def)
  from c3 u have c4: "list_all component_char s4" by (simp add: s4_def)
  from d3 have d4: "s4 \<noteq> []" "s4 \<noteq> ''.''" "s4 \<noteq> ''..''" by (auto simp: s4_def)
  have "slash \<notin> set s" if "list_all component_char s" for s
    using that by (auto simp: list_all_iff component_char_def lower_alpha_def upper_alpha_def digit_def between_def less_eq_char_def)
  with cut_component_ok [OF c4 d4(1)] cut_component_dots [OF d4(2,3)] show ?thesis
    unfolding v plain_def by blast
qed

section \<open>References between files\<close>

definition relativeArchivePath :: "string list \<Rightarrow> string \<Rightarrow> string \<Rightarrow> string" where
  "relativeArchivePath cwd from to' =
     (let value = posix_relative cwd (posix_dirname from) to'
      in if value = [] then posix_basename to' else value)"

lemma common_prefix_le: "common_prefix xs ys \<le> length xs" "common_prefix xs ys \<le> length ys"
  by (induction xs ys rule: common_prefix.induct) auto

lemma common_prefix_take: "take (common_prefix xs ys) xs = take (common_prefix xs ys) ys"
  by (induction xs ys rule: common_prefix.induct) auto

lemma common_prefix_append: "common_prefix (zs @ xs) (zs @ ys) = length zs + common_prefix xs ys"
  by (induction zs) auto

lemma norm_segs_append: "norm_segs up (a @ b) = foldl (norm_step up) (norm_segs up a) b"
  by (simp add: norm_segs_def)

lemma norm_segs_of_plain: "list_all plain ps \<Longrightarrow> norm_segs up ps = ps"
  using norm_segs_plain [of ps up "[]"] by (simp add: norm_segs_def)

lemma foldl_dots: "list_all plain ps \<Longrightarrow> n \<le> length ps \<Longrightarrow> foldl (norm_step True) ps (replicate n ''..'') = take (length ps - n) ps"
proof (induction n arbitrary: ps)
  case (Suc n)
  then have ne: "ps \<noteq> []" by auto
  with Suc.prems(1) have "last ps \<noteq> ''..''" by (auto simp: list_all_iff plain_def)
  with ne have "norm_step True ps ''..'' = butlast ps" by (simp add: norm_step_def)
  moreover have "list_all plain (butlast ps)" using Suc.prems(1) by (auto simp: list_all_iff dest: in_set_butlastD)
  ultimately show ?case using Suc by (simp add: take_butlast)
qed simp

definition archive_path :: "string \<Rightarrow> bool" where
  "archive_path p \<longleftrightarrow> list_all plain (split_on slash p)"

lemma archive_path_segs: "archive_path p \<Longrightarrow> p \<noteq> [] \<and> hd p \<noteq> slash \<and> last p \<noteq> slash"
proof -
  assume a: "archive_path p"
  then have j: "list_all plain (split_on slash p)" by (simp add: archive_path_def)
  from join_head [OF j] have h: "p \<noteq> []" "hd p \<noteq> slash" by simp_all
  have "last p \<noteq> slash"
  proof
    assume "last p = slash"
    with h(1) obtain q where "p = q @ [slash]" by (metis append_butlast_last_id)
    then have "split_on slash p = split_on slash q @ [[]]" using split_on_append [of slash q "[]"] by simp
    with j show False by (simp add: plain_def)
  qed
  with h show ?thesis by simp
qed

lemma archive_dirname:
  assumes "archive_path p"
  shows "norm_segs up (split_on slash (posix_dirname p)) = butlast (split_on slash p)"
proof -
  let ?ps = "split_on slash p"
  from assms have ps: "list_all plain ?ps" by (simp add: archive_path_def)
  then have b: "list_all plain (butlast ?ps)" by (auto simp: list_all_iff dest: in_set_butlastD)
  show ?thesis
  proof (cases "butlast ?ps = []")
    case True
    then have "length ?ps \<le> 1" by (cases ?ps; cases "tl ?ps") auto
    then have "posix_dirname p = ''.''" by (simp add: posix_dirname_def Let_def)
    with True show ?thesis by (simp add: norm_segs_def norm_step_def)
  next
    case False
    then have l: "\<not> length ?ps \<le> 1" by (cases ?ps; cases "tl ?ps") auto
    have "hd ?ps \<noteq> []" using ps by (cases ?ps) (auto simp: plain_def)
    with l have "posix_dirname p = join_with slash (butlast ?ps)" by (auto simp: posix_dirname_def Let_def)
    with split_join_plain [OF b False] norm_segs_of_plain [OF b] show ?thesis by simp
  qed
qed

lemma norm_segs_up: "list_all plain ps \<Longrightarrow> norm_segs False ps = ps"
  by (rule norm_segs_of_plain)

lemma posix_normalize_relative:
  assumes "p \<noteq> []" "hd p \<noteq> slash" "last p \<noteq> slash" "join_with slash (norm_segs True (split_on slash p)) = q" "q \<noteq> []"
  shows "posix_normalize p = q"
  using assms by (simp add: posix_normalize_def Let_def)

text \<open>
  Following the reference from one file of an archive to another gives the other file, unless the
  other is the directory of the first.
\<close>

lemma relative_resolves:
  assumes cwd: "list_all plain cwd" and src: "archive_path from" and to': "archive_path to'"
    and nodir: "split_on slash to' \<noteq> butlast (split_on slash from)"
  shows "posix_join [posix_dirname from, relativeArchivePath cwd from to'] = to'"
proof -
  let ?fs = "butlast (split_on slash from)" let ?ts = "split_on slash to'"
  let ?k = "common_prefix ?fs ?ts"
  let ?rel = "replicate (length ?fs - ?k) ''..'' @ drop ?k ?ts"
  from src have fs: "list_all plain ?fs" by (auto simp: archive_path_def list_all_iff dest: in_set_butlastD)
  from to' have ts: "list_all plain ?ts" by (simp add: archive_path_def)
  have dn: "\<forall>s \<in> set (split_on slash (posix_dirname from)). slash \<notin> set s" by (auto dest: split_on_free)
  have f: "norm_segs False (cwd @ split_on slash (posix_dirname from)) = cwd @ ?fs"
  proof -
    have "foldl (norm_step False) cwd (split_on slash (posix_dirname from)) = cwd @ ?fs"
    proof (cases "?fs = []")
      case True
      then have "length (split_on slash from) \<le> 1" by (cases "split_on slash from"; cases "tl (split_on slash from)") auto
      then have "posix_dirname from = ''.''" by (simp add: posix_dirname_def Let_def)
      with True show ?thesis by (simp add: norm_step_def)
    next
      case False
      then have l: "\<not> length (split_on slash from) \<le> 1" by (cases "split_on slash from"; cases "tl (split_on slash from)") auto
      have "hd (split_on slash from) \<noteq> []" using src by (cases "split_on slash from") (auto simp: archive_path_def plain_def)
      with l have "posix_dirname from = join_with slash ?fs" by (auto simp: posix_dirname_def Let_def)
      with split_join_plain [OF fs False] norm_segs_plain [OF fs] show ?thesis by simp
    qed
    then show ?thesis by (simp add: norm_segs_append norm_segs_of_plain [OF cwd])
  qed
  have t: "norm_segs False (cwd @ ?ts) = cwd @ ?ts"
    using cwd ts by (simp add: norm_segs_append norm_segs_of_plain norm_segs_plain)
  have rel: "posix_relative cwd (posix_dirname from) to' = join_with slash ?rel"
    unfolding posix_relative_def f t Let_def by (simp add: common_prefix_append)
  have ne: "?rel \<noteq> []"
  proof
    assume "?rel = []"
    then have "length ?fs \<le> ?k" "length ?ts \<le> ?k" by auto
    with common_prefix_le [of ?fs ?ts] common_prefix_take [of ?fs ?ts] nodir show False by simp
  qed
  have relfree: "\<forall>s \<in> set ?rel. slash \<notin> set s \<and> s \<noteq> []"
  proof
    fix s assume "s \<in> set ?rel"
    then consider "s = ''..''" | "s \<in> set ?ts" using in_set_dropD [of s] by (fastforce simp: in_set_replicate)
    then show "slash \<notin> set s \<and> s \<noteq> []"
    proof cases
      case 2
      from list_all_plainD [OF ts this] show ?thesis by blast
    qed simp
  qed
  then have seg: "split_on slash (join_with slash ?rel) = ?rel" by (intro split_join ne) blast
  have rne: "join_with slash ?rel \<noteq> []"
    using ne relfree by (cases ?rel; cases "tl ?rel") auto
  with rel have r: "relativeArchivePath cwd from to' = join_with slash ?rel" by (simp add: relativeArchivePath_def)
  have join: "posix_join [posix_dirname from, join_with slash ?rel] = posix_normalize (posix_dirname from @ slash # join_with slash ?rel)"
    using dirname_not_Nil rne by (simp add: posix_join_def)
  have segs: "norm_segs True (split_on slash (posix_dirname from @ slash # join_with slash ?rel)) = ?ts"
  proof -
    have "norm_segs True (split_on slash (posix_dirname from @ slash # join_with slash ?rel))
        = foldl (norm_step True) ?fs ?rel"
      unfolding split_on_append seg norm_segs_append archive_dirname [OF src] by (rule refl)
    also have "\<dots> = take ?k ?fs @ drop ?k ?ts"
    proof -
      have "list_all plain (drop ?k ?ts)" using ts by (auto simp: list_all_iff dest: in_set_dropD)
      from norm_segs_plain [OF this] have ap: "foldl (norm_step True) acc (drop ?k ?ts) = acc @ drop ?k ?ts" for acc .
      have "length ?fs - (length ?fs - ?k) = ?k" using common_prefix_le(1) [of ?fs ?ts] by linarith
      with foldl_dots [OF fs, of "length ?fs - ?k"]
      have "foldl (norm_step True) ?fs (replicate (length ?fs - ?k) ''..'') = take ?k ?fs" by simp
      then show ?thesis unfolding foldl_append by (simp only: ap)
    qed
    also have "\<dots> = ?ts" unfolding common_prefix_take by (rule append_take_drop_id)
    finally show ?thesis .
  qed
  have hdd: "hd (posix_dirname from) \<noteq> slash"
  proof (cases "?fs = []")
    case True
    then have "length (split_on slash from) \<le> 1" by (cases "split_on slash from"; cases "tl (split_on slash from)") auto
    then show ?thesis by (simp add: posix_dirname_def Let_def)
  next
    case False
    then have l: "\<not> length (split_on slash from) \<le> 1" by (cases "split_on slash from"; cases "tl (split_on slash from)") auto
    have "hd (split_on slash from) \<noteq> []" using src by (cases "split_on slash from") (auto simp: archive_path_def plain_def)
    with l join_head [OF fs False] show ?thesis by (auto simp: posix_dirname_def Let_def)
  qed
  have lst: "last (join_with slash ?rel) \<noteq> slash"
  proof
    assume "last (join_with slash ?rel) = slash"
    with rne obtain q where "join_with slash ?rel = q @ [slash]" by (metis append_butlast_last_id)
    then have "last (split_on slash (join_with slash ?rel)) = []" using split_on_append [of slash q "[]"] by simp
    with seg ne relfree last_in_set [OF ne] show False by metis
  qed
  let ?p = "posix_dirname from @ slash # join_with slash ?rel"
  have "?p \<noteq> []" by simp
  moreover have "hd ?p \<noteq> slash" using hdd dirname_not_Nil by simp
  moreover have "last ?p \<noteq> slash" using lst rne by (simp only: last_append last.simps if_False list.distinct) simp
  moreover have "join_with slash (norm_segs True (split_on slash ?p)) = to'" unfolding segs by (rule join_split)
  ultimately have "posix_normalize ?p = to'"
    using archive_path_segs [OF to'] by (intro posix_normalize_relative) blast+
  then show ?thesis unfolding r join .
qed

end
