(* ===== verification/Css_References.thy ===== *)
theory Css_References
  imports Archive_Paths
begin

text \<open>
  The replacement of references in style sheets that \<open>static-clone.ts\<close> and \<open>site-archive.ts\<close> share:
  \<open>css.replace(/url\(\s*(['"]?)(.*?)\1\s*\)/giu, ...)\<close> and \<open>css.replace(/@import\s+(['"])(.*?)\1/giu, ...)\<close>.
  The matches are found from left to right; the contents of a match are the shortest that fit.
\<close>

definition css_space :: "char \<Rightarrow> bool" where
  "css_space c \<longleftrightarrow> c \<in> {CHR 0x20, CHR 0x09, CHR 0x0A, CHR 0x0B, CHR 0x0C, CHR 0x0D}"

definition line_break :: "char \<Rightarrow> bool" where
  "line_break c \<longleftrightarrow> c = CHR 0x0A \<or> c = CHR 0x0D"

definition quote_char :: "char \<Rightarrow> bool" where
  "quote_char c \<longleftrightarrow> c = CHR 0x27 \<or> c = CHR 0x22"

text \<open>\<open>(.*?)\<close> up to a closing pattern, which gives the text after it.\<close>

fun lazily :: "(string \<Rightarrow> string option) \<Rightarrow> string \<Rightarrow> (string \<times> string) option" where
  "lazily close s = (case close s of
      Some rest \<Rightarrow> Some ([], rest)
    | None \<Rightarrow> (case s of [] \<Rightarrow> None
        | c # t \<Rightarrow> if line_break c then None else map_option (\<lambda>(raw, rest). (c # raw, rest)) (lazily close t)))"

declare lazily.simps [simp del]

text \<open>\<open>\1\s*\)\<close> for the quote found, which may be empty.\<close>

definition url_close :: "string \<Rightarrow> string \<Rightarrow> string option" where
  "url_close quote s =
     (if starts_with quote s
      then (case dropWhile css_space (drop (length quote) s) of
              c # rest \<Rightarrow> if c = CHR '')'' then Some rest else None | [] \<Rightarrow> None)
      else None)"

text \<open>The match of \<open>url(...)\<close> after its parenthesis: the quote, the contents, the text after it.\<close>

definition url_match :: "string \<Rightarrow> (string \<times> string \<times> string) option" where
  "url_match s =
     (let t = dropWhile css_space s;
          bare = map_option (Pair []) (lazily (url_close []) t)
      in case t of
           c # u \<Rightarrow> if quote_char c
             then (case lazily (url_close [c]) u of Some (raw, rest) \<Rightarrow> Some ([c], raw, rest) | None \<Rightarrow> bare)
             else bare
         | [] \<Rightarrow> bare)"

lemma lazily_shorter:
  assumes "\<And>s rest. close s = Some rest \<Longrightarrow> length rest < length s"
  shows "lazily close s = Some (raw, rest) \<Longrightarrow> length rest < length s"
proof (induction s arbitrary: raw)
  case Nil
  then have "close [] = Some rest" by (subst (asm) lazily.simps) (auto split: option.splits)
  then show ?case by (rule assms)
next
  case (Cons c t)
  show ?case
  proof (cases "close (c # t)")
    case (Some r)
    with Cons.prems have "r = rest" by (subst (asm) lazily.simps) simp
    with Some assms show ?thesis by blast
  next
    case None
    with Cons.prems obtain raw' where "lazily close t = Some (raw', rest)"
      by (subst (asm) lazily.simps) (auto split: if_splits)
    from Cons.IH [OF this] show ?thesis by simp
  qed
qed

lemma url_close_shorter: "url_close quote s = Some rest \<Longrightarrow> length rest < length s"
proof -
  assume "url_close quote s = Some rest"
  then have "dropWhile css_space (drop (length quote) s) = CHR '')'' # rest"
    by (auto simp: url_close_def split: if_splits list.splits)
  with length_dropWhile_le [of css_space "drop (length quote) s"] show ?thesis by simp
qed

lemma lazily_url_shorter: "lazily (url_close q) s = Some (raw, rest) \<Longrightarrow> length rest < length s"
  by (rule lazily_shorter [where close = "url_close q"]) (rule url_close_shorter)

lemma url_match_shorter: "url_match s = Some (quote, raw, rest) \<Longrightarrow> length rest < length s"
proof -
  assume m: "url_match s = Some (quote, raw, rest)"
  let ?t = "dropWhile css_space s"
  have "length rest < length ?t"
    using m lazily_url_shorter
    by (fastforce simp: url_match_def Let_def split: list.splits if_splits option.splits)
  also have "\<dots> \<le> length s" by (rule length_dropWhile_le)
  finally show ?thesis .
qed

function replace_urls :: "(string \<Rightarrow> string) \<Rightarrow> string \<Rightarrow> string" where
  "replace_urls f s =
     (case s of [] \<Rightarrow> []
      | c # t \<Rightarrow>
          if starts_with ''url('' (toLowerCase s)
          then (case url_match (drop 4 s) of
                  Some (quote, raw, rest) \<Rightarrow> ''url('' @ quote @ f raw @ quote @ '')'' @ replace_urls f rest
                | None \<Rightarrow> c # replace_urls f t)
          else c # replace_urls f t)"
  by auto
termination
proof (relation "measure (length \<circ> snd)", goal_cases)
  case (3 f s c t x quote y raw rest)
  then show ?case using url_match_shorter [of "drop 4 s" quote raw rest] by simp
qed simp_all

declare replace_urls.simps [simp del]

text \<open>\<open>@import\<close> followed by a quoted reference.\<close>

definition import_match :: "string \<Rightarrow> (char \<times> string \<times> string) option" where
  "import_match s =
     (case s of
        w # _ \<Rightarrow> if css_space w
          then (case dropWhile css_space s of
                  c # u \<Rightarrow> if quote_char c
                    then map_option (Pair c) (lazily (\<lambda>v. if starts_with [c] v then Some (tl v) else None) u)
                    else None
                | [] \<Rightarrow> None)
          else None
      | [] \<Rightarrow> None)"

lemma import_match_shorter: "import_match s = Some (c, raw, rest) \<Longrightarrow> length rest < length s"
proof -
  assume m: "import_match s = Some (c, raw, rest)"
  then obtain u where u: "dropWhile css_space s = c # u"
    "lazily (\<lambda>v. if starts_with [c] v then Some (tl v) else None) u = Some (raw, rest)"
    by (auto simp: import_match_def split: list.splits if_splits)
  have "length r < length v" if "(if starts_with [c] v then Some (tl v) else None) = Some r" for v r
    using that by (cases v) (auto simp: starts_with_def split: if_splits)
  from lazily_shorter [OF this u(2)] have "length rest < length u" by simp
  with u(1) length_dropWhile_le [of css_space s] show ?thesis by simp
qed

function replace_imports :: "(string \<Rightarrow> string) \<Rightarrow> string \<Rightarrow> string" where
  "replace_imports f s =
     (case s of [] \<Rightarrow> []
      | c # t \<Rightarrow>
          if starts_with ''@import'' (toLowerCase s)
          then (case import_match (drop 7 s) of
                  Some (quote, raw, rest) \<Rightarrow> ''@import '' @ [quote] @ f raw @ [quote] @ replace_imports f rest
                | None \<Rightarrow> c # replace_imports f t)
          else c # replace_imports f t)"
  by auto
termination
proof (relation "measure (length \<circ> snd)", goal_cases)
  case (3 f s c t x quote y raw rest)
  then show ?case using import_match_shorter [of "drop 7 s" quote raw rest] by simp
qed simp_all

declare replace_imports.simps [simp del]

definition rewrite_references :: "(string \<Rightarrow> string) \<Rightarrow> (string \<Rightarrow> string) \<Rightarrow> string \<Rightarrow> string" where
  "rewrite_references in_url in_import css = replace_imports in_import (replace_urls in_url css)"

end
