(* ===== verification/Web_Urls.thy ===== *)
theory Web_Urls
  imports Js_Text "HOL-Library.List_Lexorder"
begin

text \<open>
  URLs as the sources use them: the parts of a parsed \<open>URL\<close>, the redactions applied before a URL is
  stored, reported or packaged, and the normal forms by which URLs are compared. Parsing, printing and the
  form encoding of queries are those of the platform's \<open>URL\<close> and are parameters.
\<close>

section \<open>Parsed URLs\<close>

record url =
  u_protocol :: string
  u_username :: string
  u_password :: string
  u_host :: string
  u_hostname :: string
  u_port :: string
  u_pathname :: string
  u_search :: string
  u_hash :: string

type_synonym query = "(string \<times> string) list"

text \<open>\<open>new URL(raw)\<close>, \<open>new URL(raw, base)\<close>, \<open>toString()\<close>, \<open>origin\<close>, and \<open>searchParams\<close> read and written.\<close>

record web =
  parse_url :: "string \<Rightarrow> url option"
  resolve_url :: "string \<Rightarrow> string \<Rightarrow> url option"
  href :: "url \<Rightarrow> string"
  origin :: "url \<Rightarrow> string"
  query_of :: "string \<Rightarrow> query"
  query_text :: "query \<Rightarrow> string"

definition keys :: "query \<Rightarrow> string list" where
  "keys q = map fst q"

definition delete_param :: "string \<Rightarrow> query \<Rightarrow> query" where
  "delete_param k q = filter (\<lambda>p. fst p \<noteq> k) q"

fun set_param :: "string \<Rightarrow> string \<Rightarrow> query \<Rightarrow> query" where
  "set_param k v [] = [(k, v)]"
| "set_param k v (p # q) = (if fst p = k then (k, v) # delete_param k q else p # set_param k v q)"

definition without_secrets :: "url \<Rightarrow> url" where
  "without_secrets u = u\<lparr>u_username := [], u_password := [], u_hash := []\<rparr>"

definition with_query :: "web \<Rightarrow> (query \<Rightarrow> query) \<Rightarrow> url \<Rightarrow> url" where
  "with_query W f u = (let q = query_of W (u_search u) in if q = [] then u else u\<lparr>u_search := query_text W (f q)\<rparr>)"

section \<open>Redaction\<close>

definition redacted :: string where "redacted = ''[REDACTED]''"

text \<open>\<open>static-clone.ts\<close>: every key is deleted and appended again.\<close>

definition reappend_keys :: "query \<Rightarrow> query" where
  "reappend_keys q = fold (\<lambda>k q. delete_param k q @ [(k, redacted)]) (keys q) q"

text \<open>\<open>capture.ts\<close> over the set of keys, \<open>design-clone.ts\<close> over their list.\<close>

definition overwrite_keys :: "query \<Rightarrow> query" where
  "overwrite_keys q = fold (\<lambda>k q. set_param k redacted q) (keys q) q"

definition overwrite_distinct_keys :: "query \<Rightarrow> query" where
  "overwrite_distinct_keys q = fold (\<lambda>k q. set_param k redacted q) (rev (remdups (rev (keys q)))) q"

definition redact_parts :: "web \<Rightarrow> (query \<Rightarrow> query) \<Rightarrow> url \<Rightarrow> url" where
  "redact_parts W f u = with_query W f (without_secrets u)"

definition cloneRedactUrl :: "web \<Rightarrow> string \<Rightarrow> string" where
  "cloneRedactUrl W raw = (case parse_url W raw of
     None \<Rightarrow> []
   | Some u \<Rightarrow> if u_protocol u \<noteq> ''http:'' \<and> u_protocol u \<noteq> ''https:'' then u_protocol u @ ''[OMITTED]''
       else take 8192 (href W (redact_parts W reappend_keys u)))"

text \<open>\<open>String.trim\<close> and \<open>capText\<close> on ASCII text, where a character is a byte.\<close>

definition blank_char :: "char \<Rightarrow> bool" where
  "blank_char c \<longleftrightarrow> c \<in> {CHR 0x20, CHR 0x09, CHR 0x0A, CHR 0x0B, CHR 0x0C, CHR 0x0D}"

definition trimmed :: "string \<Rightarrow> string" where
  "trimmed s = rev (dropWhile blank_char (rev (dropWhile blank_char s)))"

definition capText :: "string option \<Rightarrow> nat \<Rightarrow> string" where
  "capText value bytes = take bytes (trimmed (coalesce value []))"

definition sanitizeUrl :: "web \<Rightarrow> string \<Rightarrow> string" where
  "sanitizeUrl W raw = (case parse_url W raw of
     None \<Rightarrow> []
   | Some u \<Rightarrow> capText (Some (href W (redact_parts W overwrite_distinct_keys u))) 8192)"

definition designRedactUrl :: "web \<Rightarrow> string \<Rightarrow> string" where
  "designRedactUrl W raw = (case parse_url W raw of
     None \<Rightarrow> [] | Some u \<Rightarrow> href W (redact_parts W overwrite_keys u))"

text \<open>\<open>browser-session.ts\<close> and \<open>site-worker.ts\<close> drop the query altogether.\<close>

definition publicUrl :: "web \<Rightarrow> string \<Rightarrow> string" where
  "publicUrl W raw = (case parse_url W raw of
     None \<Rightarrow> [] | Some u \<Rightarrow> take 8192 (href W ((without_secrets u)\<lparr>u_search := []\<rparr>)))"

definition sanitizeForDatabase :: "web \<Rightarrow> string \<Rightarrow> string option" where
  "sanitizeForDatabase W raw = map_option (\<lambda>u. take 8192 (href W ((without_secrets u)\<lparr>u_search := []\<rparr>))) (parse_url W raw)"

section \<open>Normal forms\<close>

definition set_pathname :: "string \<Rightarrow> url \<Rightarrow> url" where
  "set_pathname p u = u\<lparr>u_pathname := (if p = [] then ''/'' else p)\<rparr>"

definition without_trailing_slashes :: "url \<Rightarrow> url" where
  "without_trailing_slashes u =
     (if 1 < length (u_pathname u) then set_pathname (rev (dropWhile (\<lambda>c. c = CHR ''/'') (rev (u_pathname u)))) u else u)"

definition normalizeRawUrl :: "web \<Rightarrow> string \<Rightarrow> string option" where
  "normalizeRawUrl W raw = map_option (\<lambda>u. href W (without_trailing_slashes (without_secrets u))) (parse_url W raw)"

definition normalizeResourceUrl :: "web \<Rightarrow> string \<Rightarrow> string option" where
  "normalizeResourceUrl W raw = map_option (\<lambda>u. href W (u\<lparr>u_hash := []\<rparr>)) (parse_url W raw)"

definition normalizeSourceUrl :: "web \<Rightarrow> string \<Rightarrow> string" where
  "normalizeSourceUrl W raw = coalesce (normalizeResourceUrl W raw) raw"

definition isSameOrigin :: "web \<Rightarrow> string \<Rightarrow> string \<Rightarrow> bool" where
  "isSameOrigin W left right = (case (parse_url W left, parse_url W right) of
     (Some u, Some v) \<Rightarrow> origin W u = origin W v | _ \<Rightarrow> False)"

text \<open>\<open>/^(?:utm_.+|ref|from|gclid|fbclid)$/iu\<close>; a dot does not match a line break.\<close>

definition tracking_key :: "string \<Rightarrow> bool" where
  "tracking_key k \<longleftrightarrow> toLowerCase k \<in> {''ref'', ''from'', ''gclid'', ''fbclid''}
     \<or> (starts_with ''utm_'' (toLowerCase k) \<and> 4 < length k \<and> list_all (\<lambda>c. c \<noteq> CHR 0x0A \<and> c \<noteq> CHR 0x0D) k)"

definition normalizeDesignUrl :: "web \<Rightarrow> string \<Rightarrow> string option" where
  "normalizeDesignUrl W raw = map_option (\<lambda>u.
     let v = without_secrets u;
         q = filter (\<lambda>p. \<not> tracking_key (fst p)) (query_of W (u_search v));
         sorted = sort_key fst q
     in href W (without_trailing_slashes (v\<lparr>u_search := query_text W sorted\<rparr>))) (parse_url W raw)"

definition stripQuery :: "web \<Rightarrow> string \<Rightarrow> string option" where
  "stripQuery W raw = map_option (\<lambda>u. href W (u\<lparr>u_search := []\<rparr>)) (parse_url W raw)"

definition safeNormalize :: "web \<Rightarrow> string \<Rightarrow> string" where
  "safeNormalize W raw = coalesce (normalizeDesignUrl W raw) []"

section \<open>What a redaction hides\<close>

lemma keys_delete [simp]: "set (keys (delete_param k q)) = set (keys q) - {k}"
  by (auto simp: keys_def delete_param_def)

lemma set_param_keys: "set (keys (set_param k v q)) = insert k (set (keys q))"
  by (induction q) (auto simp: keys_def delete_param_def)

lemma set_param_in: "p \<in> set (set_param k v q) \<Longrightarrow> p = (k, v) \<or> (p \<in> set q \<and> fst p \<noteq> k)"
  by (induction q) (auto simp: delete_param_def split: if_splits)

lemma redact_fold:
  assumes "\<And>k q. set (keys (f k q)) = insert k (set (keys q))"
    and "\<And>k q p. p \<in> set (f k q) \<Longrightarrow> p = (k, redacted) \<or> (p \<in> set q \<and> fst p \<noteq> k)"
  shows "set (keys (fold f ks q)) = set ks \<union> set (keys q)"
    and "p \<in> set (fold f ks q) \<Longrightarrow> snd p = redacted \<or> (p \<in> set q \<and> fst p \<notin> set ks)"
proof -
  show "set (keys (fold f ks q)) = set ks \<union> set (keys q)"
    by (induction ks arbitrary: q) (auto simp: assms(1))
  show "p \<in> set (fold f ks q) \<Longrightarrow> snd p = redacted \<or> (p \<in> set q \<and> fst p \<notin> set ks)"
  proof (induction ks arbitrary: q)
    case (Cons k ks)
    then have "snd p = redacted \<or> (p \<in> set (f k q) \<and> fst p \<notin> set ks)" by simp
    with assms(2) show ?case by fastforce
  qed simp
qed

definition redacts :: "(query \<Rightarrow> query) \<Rightarrow> bool" where
  "redacts f \<longleftrightarrow> (\<forall>q. set (keys (f q)) = set (keys q) \<and> (\<forall>p \<in> set (f q). snd p = redacted))"

lemma redacts_fold:
  assumes "\<And>k q. set (keys (g k q)) = insert k (set (keys q))"
    and "\<And>k q p. p \<in> set (g k q) \<Longrightarrow> p = (k, redacted) \<or> (p \<in> set q \<and> fst p \<noteq> k)"
    and "\<And>q. set (ks q) = set (keys q)"
  shows "redacts (\<lambda>q. fold g (ks q) q)"
  unfolding redacts_def
proof (intro allI conjI ballI)
  fix q
  show "set (keys (fold g (ks q) q)) = set (keys q)" using redact_fold(1) [where f = g, OF assms(1,2)] assms(3) by simp
  fix p assume "p \<in> set (fold g (ks q) q)"
  from redact_fold(2) [where f = g, OF assms(1) assms(2) this]
  have "snd p = redacted \<or> (p \<in> set q \<and> fst p \<notin> set (ks q))" by blast
  then show "snd p = redacted" using assms(3) by (auto simp: keys_def)
qed

lemma redactions: "redacts reappend_keys" "redacts overwrite_keys" "redacts overwrite_distinct_keys"
proof -
  have re: "set (keys (delete_param k q @ [(k, redacted)])) = insert k (set (keys q))"
    "p \<in> set (delete_param k q @ [(k, redacted)]) \<Longrightarrow> p = (k, redacted) \<or> (p \<in> set q \<and> fst p \<noteq> k)" for k q p
    by (auto simp: keys_def delete_param_def)
  show "redacts reappend_keys"
    using redacts_fold [of "\<lambda>k q. delete_param k q @ [(k, redacted)]" keys, OF re refl] by (simp add: reappend_keys_def [abs_def])
  show "redacts overwrite_keys"
    using redacts_fold [of "\<lambda>k. set_param k redacted" keys, OF set_param_keys set_param_in refl]
    by (simp add: overwrite_keys_def [abs_def])
  show "redacts overwrite_distinct_keys"
    using redacts_fold [of "\<lambda>k. set_param k redacted" "\<lambda>q. rev (remdups (rev (keys q)))", OF set_param_keys set_param_in]
    by (simp add: overwrite_distinct_keys_def [abs_def])
qed

definition hides :: "web \<Rightarrow> url \<Rightarrow> url \<Rightarrow> bool" where
  "hides W u r \<longleftrightarrow> u_username r = [] \<and> u_password r = [] \<and> u_hash r = []
     \<and> (u_protocol r, u_host r, u_pathname r) = (u_protocol u, u_host u, u_pathname u)
     \<and> (query_of W (u_search u) = [] \<or> (\<exists>q. u_search r = query_text W q \<and> set (keys q) = set (keys (query_of W (u_search u)))
          \<and> (\<forall>p \<in> set q. snd p = redacted)))"

lemma redact_parts_hides: "redacts f \<Longrightarrow> hides W u (redact_parts W f u)"
  by (auto simp: hides_def redact_parts_def with_query_def without_secrets_def redacts_def Let_def)

end
