(* ===== verification/Static_Clone.thy ===== *)
theory Static_Clone
  imports Css_References Web_Urls Capture_Schema
begin

text \<open>
  The archive of one captured page (\<open>capture-worker/src/static-clone.ts\<close>): \<open>planStaticClone\<close> gives every
  captured resource a path or a reason to skip it, \<open>buildStaticClone\<close> packages what fits the budgets.
  Digests, the decoding of percent escapes and the size of the written ZIP are parameters.
\<close>

section \<open>Inputs, plans and builds\<close>

record clone_input =
  ci_sequence :: nat
  ci_source_url :: string
  ci_public_url :: string
  ci_resource_type :: string
  ci_mime_type :: string
  ci_body :: "string option"
  ci_was_truncated :: bool
  ci_skip_reason :: "string option"

record planned_resource = clone_input +
  pr_local_path :: "string option"

record clone_plan =
  pn_final_url :: string
  pn_main_path :: string
  pn_resources :: "planned_resource list"
  pn_replacements :: "(string \<times> string) list"
  pn_external :: bool

record clone_options =
  op_main_path :: "string option"
  op_content_addressed :: bool
  op_external :: bool

datatype file_kind = DOCUMENT | RESOURCE

record manifest_file =
  mf_kind :: file_kind
  mf_source_url :: string
  mf_source_url_sha :: string
  mf_local_path :: "string option"
  mf_resource_type :: string
  mf_mime_type :: string
  mf_packaged :: bool
  mf_bytes :: nat
  mf_sha :: "string option"
  mf_truncated :: bool
  mf_reason :: "string option"

record bundle_file =
  bf_kind :: file_kind
  bf_local_path :: string
  bf_source_url :: string
  bf_content_type :: string
  bf_body :: string

record resource_gap =
  rg_source_url :: string
  rg_resource_type :: string
  rg_reason :: string

record clone_bundle =
  cb_source_final_url :: string
  cb_public_final_url :: string
  cb_main_path :: string
  cb_resource_gaps :: "resource_gap list"
  cb_files :: "bundle_file list"

text \<open>A \<open>ReconstructionBuild\<close> with the files the columns of \<open>Capture_Schema\<close> leave out.\<close>

record clone_build =
  bl_build :: reconstruction_build
  bl_manifest :: "manifest_file list option"
  bl_bundle :: "clone_bundle option"

record clone_env =
  ce_web :: web
  ce_sha :: "string \<Rightarrow> string"
  ce_decode :: "string \<Rightarrow> string option"
  ce_cwd :: "string list"
  ce_zip :: "(string \<times> string) list \<Rightarrow> manifest_file list \<Rightarrow> nat option"

section \<open>Budgets\<close>

definition clone_engine_version :: string where
  "clone_engine_version = ''weblens-1/pagesource-0.1.2@f59ed61''"

definition clone_max_files :: nat where "clone_max_files = 100"
definition clone_max_input :: nat where "clone_max_input = 52428800"
definition clone_max_archive :: nat where "clone_max_archive = 67108864"

lemmas clone_limits = clone_max_files_def clone_max_input_def clone_max_archive_def

section \<open>Paths of resources\<close>

text \<open>\<open>!reason\<close>: neither null nor empty.\<close>

definition truthy :: "string option \<Rightarrow> bool" where
  "truthy x \<longleftrightarrow> (case x of None \<Rightarrow> False | Some s \<Rightarrow> s \<noteq> [])"

definition safeDecode :: "clone_env \<Rightarrow> string \<Rightarrow> string" where
  "safeDecode E s = coalesce (ce_decode E s) s"

definition local_segments :: "clone_env \<Rightarrow> url \<Rightarrow> string list" where
  "local_segments E u =
     (let parts = map (\<lambda>p. sanitizePathComponent (safeDecode E p)) (filter (\<lambda>p. p \<noteq> []) (split_on slash (u_pathname u)))
      in sanitizePathComponent (replace_class (\<lambda>c. c = CHR '':'') (CHR ''_'') (u_host u))
         # parts @ (if parts = [] \<or> ends_with ''/'' (u_pathname u) then [''index.html''] else []))"

definition urlToLocalPath :: "clone_env \<Rightarrow> string \<Rightarrow> string option" where
  "urlToLocalPath E raw = map_option (\<lambda>u. posix_join (local_segments E u)) (parse_url (ce_web E) raw)"

definition image_types :: "string list" where
  "image_types = map (\<lambda>t. ''image/'' @ t) [''avif'', ''bmp'', ''gif'', ''jpeg'', ''png'', ''svg+xml'', ''webp'', ''x-icon'',
     ''vnd.microsoft.icon'']"

definition font_types :: "string list" where
  "font_types = [''font/woff'', ''font/woff2'', ''font/ttf'', ''font/otf'', ''font/collection'', ''application/font-woff'',
     ''application/x-font-ttf'', ''application/x-font-opentype'', ''application/vnd.ms-fontobject'']"

definition isExternalVisualResource :: "clone_env \<Rightarrow> 'a clone_input_scheme \<Rightarrow> bool" where
  "isExternalVisualResource E r =
     (case parse_url (ce_web E) (ci_source_url r) of
        None \<Rightarrow> False
      | Some u \<Rightarrow> u_protocol u = ''https:'' \<and> u_username u = [] \<and> u_password u = []
          \<and> (let mime = mime_of (ci_mime_type r)
             in (ci_resource_type r = ''stylesheet'' \<and> mime = ''text/css'')
              \<or> (ci_resource_type r = ''image'' \<and> mime \<in> set image_types)
              \<or> (ci_resource_type r = ''font'' \<and> mime \<in> set font_types)))"

section \<open>\<open>planStaticClone\<close>\<close>

record plan_state =
  ps_used :: "string list"
  ps_content :: "(string \<times> string) list"
  ps_replacements :: "(string \<times> string) list"
  ps_files :: nat
  ps_bytes :: nat

definition planned :: "clone_input \<Rightarrow> string option \<Rightarrow> string option \<Rightarrow> planned_resource" where
  "planned r path reason = clone_input.extend (r\<lparr>ci_skip_reason := reason\<rparr>) \<lparr>pr_local_path = path\<rparr>"

definition content_key :: "clone_env \<Rightarrow> clone_input \<Rightarrow> string \<Rightarrow> string" where
  "content_key E r desired = (if ci_resource_type r = ''stylesheet''
     then desired @ [CHR 0x0A] @ coalesce (normalizeResourceUrl (ce_web E) (ci_source_url r)) [] else desired)"

definition desired_path :: "clone_env \<Rightarrow> clone_options \<Rightarrow> clone_input \<Rightarrow> string \<Rightarrow> string" where
  "desired_path E opt r body = inferExtension
     (if op_content_addressed opt then posix_join [''assets'', ce_sha E body]
      else coalesce (urlToLocalPath E (ci_source_url r)) []) (ci_mime_type r)"

definition admitted :: "clone_env \<Rightarrow> clone_options \<Rightarrow> string \<Rightarrow> clone_input \<Rightarrow> bool" where
  "admitted E opt finalUrl r \<longleftrightarrow> isSameOrigin (ce_web E) (ci_source_url r) finalUrl
     \<or> (op_external opt \<and> isExternalVisualResource E r)"

definition replace_reference :: "clone_env \<Rightarrow> string \<Rightarrow> clone_input \<Rightarrow> string \<Rightarrow> plan_state \<Rightarrow> plan_state" where
  "replace_reference E main r path st = st\<lparr>ps_replacements :=
     (coalesce (normalizeResourceUrl (ce_web E) (ci_source_url r)) [], relativeArchivePath (ce_cwd E) main path) # ps_replacements st\<rparr>"

definition plan_resource ::
  "clone_env \<Rightarrow> clone_options \<Rightarrow> string \<Rightarrow> string \<Rightarrow> clone_input \<Rightarrow> plan_state \<Rightarrow> planned_resource \<times> plan_state" where
  "plan_resource E opt finalUrl main r st =
     (case ci_body r of
        None \<Rightarrow> (planned r None (ci_skip_reason r), st)
      | Some body \<Rightarrow>
          if truthy (ci_skip_reason r) then (planned r None (ci_skip_reason r), st)
          else if \<not> admitted E opt finalUrl r then (planned r None (Some ''EXTERNAL_ORIGIN''), st)
          else
            (let desired = desired_path E opt r body;
                 key = content_key E r desired
             in case (if op_content_addressed opt then map_of (ps_content st) key else None) of
                  Some path \<Rightarrow> (planned r (Some path) (ci_skip_reason r), replace_reference E main r path st)
                | None \<Rightarrow>
                    if clone_max_files \<le> ps_files st then (planned r None (Some ''FILE_COUNT_BUDGET_EXCEEDED''), st)
                    else if clone_max_input < ps_bytes st + length body
                    then (planned r None (Some ''CLONE_INPUT_BUDGET_EXCEEDED''), st)
                    else
                      (let (path, used) = deduplicatePath desired (ps_used st);
                           st1 = st\<lparr>ps_used := used, ps_files := ps_files st + 1, ps_bytes := ps_bytes st + length body,
                             ps_content := (if op_content_addressed opt then (key, path) # ps_content st else ps_content st)\<rparr>
                       in (planned r (Some path) (ci_skip_reason r), replace_reference E main r path st1))))"

fun plan_resources ::
  "clone_env \<Rightarrow> clone_options \<Rightarrow> string \<Rightarrow> string \<Rightarrow> clone_input list \<Rightarrow> plan_state \<Rightarrow> planned_resource list \<times> plan_state" where
  "plan_resources E opt finalUrl main [] st = ([], st)"
| "plan_resources E opt finalUrl main (r # rs) st =
     (let (p, st1) = plan_resource E opt finalUrl main r st;
          (ps, st2) = plan_resources E opt finalUrl main rs st1
      in (p # ps, st2))"

definition planStaticClone :: "clone_env \<Rightarrow> string \<Rightarrow> clone_input list \<Rightarrow> nat \<Rightarrow> clone_options \<Rightarrow> clone_plan option" where
  "planStaticClone E finalUrl resources htmlBytes opt =
     map_option (\<lambda>main.
       let (ps, st) = plan_resources E opt finalUrl main resources
             \<lparr> ps_used = [toLowerCase main], ps_content = [], ps_replacements = [], ps_files = 1, ps_bytes = htmlBytes \<rparr>
       in \<lparr> pn_final_url = finalUrl, pn_main_path = main, pn_resources = ps, pn_replacements = ps_replacements st,
            pn_external = op_external opt \<rparr>)
     (case op_main_path opt of Some p \<Rightarrow> Some p
      | None \<Rightarrow> map_option (\<lambda>p. inferExtension p ''text/html'') (urlToLocalPath E finalUrl))"

section \<open>References\<close>

definition opaque_reference :: "string list \<Rightarrow> string \<Rightarrow> bool" where
  "opaque_reference schemes raw \<longleftrightarrow> (\<exists>s \<in> set schemes. starts_with (s @ '':'') (toLowerCase raw))"

definition replacementForReference :: "clone_env \<Rightarrow> string \<Rightarrow> string \<Rightarrow> (string \<times> string) list \<Rightarrow> string" where
  "replacementForReference E raw baseUrl replacements =
     (if raw = [] \<or> opaque_reference [''data'', ''blob'', ''about'', ''javascript'', ''chrome'', ''chrome-extension''] raw then raw
      else case resolve_url (ce_web E) raw baseUrl of
             None \<Rightarrow> []
           | Some u \<Rightarrow>
               (let plain_url = href (ce_web E) (u\<lparr>u_hash := []\<rparr>);
                    found = Option.bind (normalizeResourceUrl (ce_web E) plain_url) (map_of replacements)
                in (if truthy found then the found else cloneRedactUrl (ce_web E) plain_url) @ u_hash u))"

definition css_reference :: "clone_env \<Rightarrow> planned_resource list \<Rightarrow> string \<Rightarrow> string \<Rightarrow> string \<Rightarrow> string" where
  "css_reference E resources sourceUrl sourcePath raw =
     (if raw = [] \<or> opaque_reference [''data'', ''blob'', ''about'', ''javascript''] raw then raw
      else case resolve_url (ce_web E) raw sourceUrl of
             None \<Rightarrow> []
           | Some u \<Rightarrow>
               (let plain_url = href (ce_web E) (u\<lparr>u_hash := []\<rparr>);
                    target = find (\<lambda>r. truthy (pr_local_path r)
                        \<and> normalizeResourceUrl (ce_web E) (ci_source_url r) = normalizeResourceUrl (ce_web E) plain_url) resources
                in (case target of
                      Some r \<Rightarrow> relativeArchivePath (ce_cwd E) sourcePath (the (pr_local_path r))
                    | None \<Rightarrow> cloneRedactUrl (ce_web E) plain_url) @ u_hash u))"

definition rewriteCss :: "clone_env \<Rightarrow> string \<Rightarrow> string \<Rightarrow> string \<Rightarrow> planned_resource list \<Rightarrow> string" where
  "rewriteCss E css sourceUrl sourcePath resources =
     rewrite_references (css_reference E resources sourceUrl sourcePath) (css_reference E resources sourceUrl sourcePath) css"

section \<open>\<open>buildStaticClone\<close>\<close>

record build_state =
  bs_resources :: "planned_resource list"
  bs_selected :: "(planned_resource \<times> string) list"
  bs_paths :: "string list"
  bs_input :: nat
  bs_count :: nat
  bs_limited :: bool

definition drop_resource :: "nat \<Rightarrow> string \<Rightarrow> build_state \<Rightarrow> build_state" where
  "drop_resource i reason st = st\<lparr>bs_resources := (bs_resources st)[i := (bs_resources st ! i)
     \<lparr>pr_local_path := None, ci_skip_reason := Some reason\<rparr>], bs_limited := True\<rparr>"

definition select_resource :: "clone_env \<Rightarrow> nat \<Rightarrow> build_state \<Rightarrow> build_state" where
  "select_resource E i st =
     (let r = bs_resources st ! i
      in case (ci_body r, pr_local_path r) of
           (Some raw, Some path) \<Rightarrow>
             if path = [] \<or> truthy (ci_skip_reason r) then st
             else if clone_max_files \<le> bs_count st then drop_resource i ''FILE_COUNT_BUDGET_EXCEEDED'' st
             else if clone_max_input < bs_input st + length raw then drop_resource i ''CLONE_INPUT_BUDGET_EXCEEDED'' st
             else
               (let body = (if ci_resource_type r = ''stylesheet''
                      then rewriteCss E raw (ci_source_url r) path (bs_resources st) else raw)
                in if toLowerCase path \<in> set (bs_paths st) then st
                   else if clone_max_input < bs_input st + length body then drop_resource i ''CLONE_INPUT_BUDGET_EXCEEDED'' st
                   else st\<lparr>bs_input := bs_input st + length body, bs_count := bs_count st + 1,
                          bs_paths := toLowerCase path # bs_paths st, bs_selected := bs_selected st @ [(r, body)]\<rparr>)
         | _ \<Rightarrow> st)"

definition selection :: "clone_env \<Rightarrow> clone_plan \<Rightarrow> nat \<Rightarrow> build_state" where
  "selection E plan htmlBytes = fold (select_resource E) [0..<length (pn_resources plan)]
     \<lparr> bs_resources = pn_resources plan, bs_selected = [], bs_paths = [], bs_input = htmlBytes, bs_count = 1, bs_limited = False \<rparr>"

definition manifest_of :: "clone_env \<Rightarrow> file_kind \<Rightarrow> string \<Rightarrow> string \<Rightarrow> string \<Rightarrow> string \<Rightarrow> string \<Rightarrow> bool \<Rightarrow> string option \<Rightarrow> manifest_file" where
  "manifest_of E kind sourceUrl path type mime body truncated reason =
    \<lparr> mf_kind = kind, mf_source_url = cloneRedactUrl (ce_web E) sourceUrl, mf_source_url_sha = ce_sha E sourceUrl,
      mf_local_path = Some path, mf_resource_type = type, mf_mime_type = mime, mf_packaged = True,
      mf_bytes = length body, mf_sha = Some (ce_sha E body), mf_truncated = truncated, mf_reason = reason \<rparr>"

definition selected_body :: "(planned_resource \<times> string) list \<Rightarrow> planned_resource \<Rightarrow> string option" where
  "selected_body selected r = map_option snd (find (\<lambda>x. pr_local_path (fst x) = pr_local_path r) selected)"

definition resource_entry :: "clone_env \<Rightarrow> (planned_resource \<times> string) list \<Rightarrow> planned_resource \<Rightarrow> manifest_file" where
  "resource_entry E selected r =
     (case (selected_body selected r, pr_local_path r) of
        (Some body, Some path) \<Rightarrow>
          manifest_of E RESOURCE (ci_source_url r) path (ci_resource_type r) (ci_mime_type r) body (ci_was_truncated r) None
      | _ \<Rightarrow>
          (let source = (if ci_source_url r = [] then ci_public_url r else ci_source_url r)
           in \<lparr> mf_kind = RESOURCE, mf_source_url = cloneRedactUrl (ce_web E) source, mf_source_url_sha = ce_sha E source,
                mf_local_path = None, mf_resource_type = ci_resource_type r, mf_mime_type = ci_mime_type r, mf_packaged = False,
                mf_bytes = length (coalesce (ci_body r) []), mf_sha = map_option (ce_sha E) (ci_body r),
                mf_truncated = ci_was_truncated r, mf_reason = Some (coalesce (ci_skip_reason r) ''BODY_UNAVAILABLE'') \<rparr>))"

definition completeness_code :: "nat \<Rightarrow> bool \<Rightarrow> bool \<Rightarrow> string" where
  "completeness_code skipped truncated limited =
     (if 0 < skipped \<or> truncated
      then (if limited then ''BUDGET_LIMITED'' else if truncated then ''TRUNCATED_RESOURCE'' else ''RESOURCE_GAPS'')
      else ''COMPLETE'')"

definition failed_build :: "nat \<Rightarrow> string \<Rightarrow> clone_build" where
  "failed_build discovered code =
    \<lparr> bl_build = \<lparr> bd_status = BUILD_FAILED, bd_engine_version = clone_engine_version, bd_discovered = discovered,
        bd_packaged = 0, bd_skipped = discovered - 1, bd_input_bytes = 0, bd_archive_bytes = None,
        bd_completeness_code = None, bd_failure_code = Some code \<rparr>,
      bl_manifest = None, bl_bundle = None \<rparr>"

definition gap_of :: "manifest_file \<Rightarrow> resource_gap" where
  "gap_of f = \<lparr> rg_source_url = mf_source_url f, rg_resource_type = mf_resource_type f,
     rg_reason = coalesce (mf_reason f) ''TRUNCATED_RESOURCE'' \<rparr>"

definition bundle_of :: "clone_env \<Rightarrow> clone_plan \<Rightarrow> string \<Rightarrow> manifest_file list \<Rightarrow> (planned_resource \<times> string) list \<Rightarrow> clone_bundle" where
  "bundle_of E plan html files selected =
    \<lparr> cb_source_final_url = pn_final_url plan, cb_public_final_url = cloneRedactUrl (ce_web E) (pn_final_url plan),
      cb_main_path = pn_main_path plan,
      cb_resource_gaps = map gap_of (take clone_max_files
        (filter (\<lambda>f. mf_kind f = RESOURCE \<and> (\<not> mf_packaged f \<or> mf_truncated f)) files)),
      cb_files = \<lparr> bf_kind = DOCUMENT, bf_local_path = pn_main_path plan, bf_source_url = pn_final_url plan,
          bf_content_type = ''text/html; charset=utf-8'', bf_body = html \<rparr>
        # map (\<lambda>(r, body). \<lparr> bf_kind = RESOURCE, bf_local_path = the (pr_local_path r), bf_source_url = ci_source_url r,
            bf_content_type = (if ci_mime_type r = [] then ''application/octet-stream'' else ci_mime_type r),
            bf_body = (if ci_resource_type r = ''stylesheet'' then the (ci_body r) else body) \<rparr>) selected \<rparr>"

definition buildStaticClone :: "clone_env \<Rightarrow> clone_plan \<Rightarrow> string \<Rightarrow> bool \<Rightarrow> clone_build" where
  "buildStaticClone E plan html bundleOnly =
     (let discovered = 1 + length (pn_resources plan)
      in if clone_max_input < length html then failed_build discovered ''CLONE_INPUT_BUDGET_EXCEEDED''
         else
           (let st = selection E plan (length html);
                selected = bs_selected st;
                files = manifest_of E DOCUMENT (pn_final_url plan) (pn_main_path plan) ''document'' ''text/html'' html False None
                  # map (resource_entry E selected) (bs_resources st);
                skipped = length (filter (\<lambda>f. \<not> mf_packaged f) files);
                code = completeness_code skipped (list_ex mf_truncated files) (bs_limited st);
                result = \<lparr> bl_build = \<lparr> bd_status = (if code = ''COMPLETE'' then BUILD_PUBLISHED else BUILD_PARTIAL),
                    bd_engine_version = clone_engine_version, bd_discovered = discovered, bd_packaged = bs_count st,
                    bd_skipped = skipped, bd_input_bytes = bs_input st, bd_archive_bytes = None,
                    bd_completeness_code = Some code, bd_failure_code = None \<rparr>,
                  bl_manifest = Some files, bl_bundle = Some (bundle_of E plan html files selected) \<rparr>
            in if bundleOnly then result
               else case ce_zip E ((pn_main_path plan, html) # map (\<lambda>(r, body). (the (pr_local_path r), body)) selected) files of
                      None \<Rightarrow> failed_build discovered ''CLONE_ARCHIVE_WRITE_FAILED''
                    | Some n \<Rightarrow> if n = 0 \<or> clone_max_archive < n then failed_build discovered ''CLONE_ARCHIVE_BUDGET_EXCEEDED''
                        else result\<lparr>bl_build := (bl_build result)\<lparr>bd_archive_bytes := Some n\<rparr>\<rparr>))"

end
