(* ===== verification/Clone_Properties.thy ===== *)
theory Clone_Properties
  imports Static_Clone Capture_Results
begin

text \<open>
  What the archive of a page guarantees: its paths stay inside the archive and apart from each other, its
  references resolve, what it reports of URLs hides their secrets, and its counts fit the store.
\<close>

section \<open>Paths\<close>



text \<open>
  C28. The path of a captured URL stays inside the archive whatever the URL is: all its segments are names of
  at most 100 letters, digits, dots, dashes and underscores, none of them empty, \<open>.\<close> or \<open>..\<close>.
\<close>

lemma local_segments_plain: "list_all plain (local_segments E u) \<and> list_all (\<lambda>s. length s \<le> 100) (local_segments E u)
    \<and> list_all (list_all component_char) (local_segments E u)"
proof -
  have "plain ''index.html''" by (simp add: plain_def)
  moreover have "list_all component_char ''index.html''"
    by (simp add: component_char_def lower_alpha_def between_def less_eq_char_def)
  ultimately show ?thesis using sanitized_component
    by (auto simp: local_segments_def Let_def list_all_iff)
qed

lemma posix_join_plain:
  assumes "list_all plain ps" "ps \<noteq> []"
  shows "posix_join ps = join_with slash ps"
proof -
  have "filter (\<lambda>p. p \<noteq> []) ps = ps" using assms(1) by (auto simp: list_all_iff plain_def filter_id_conv)
  have j: "split_on slash (join_with slash ps) = ps" using assms by (rule split_join_plain)
  then have a: "archive_path (join_with slash ps)" using assms(1) by (simp add: archive_path_def)
  have "posix_normalize (join_with slash ps) = join_with slash ps"
    using archive_path_segs [OF a] norm_segs_of_plain [OF assms(1), of True] j
    by (intro posix_normalize_relative) simp_all
  with \<open>filter (\<lambda>p. p \<noteq> []) ps = ps\<close> show ?thesis using assms(2) by (simp add: posix_join_def Let_def)
qed

theorem local_paths_confined:
  assumes "urlToLocalPath E raw = Some p"
  shows "list_all (\<lambda>s. s \<notin> {[], ''.'', ''..''} \<and> length s \<le> 100 \<and> list_all component_char s) (split_on slash p) \<and> \<not> climbs p"
proof -
  from assms obtain u where p: "p = posix_join (local_segments E u)" by (auto simp: urlToLocalPath_def)
  let ?s = "local_segments E u"
  have ne: "?s \<noteq> []" by (simp add: local_segments_def Let_def)
  note s = local_segments_plain [of E u]
  with ne have seg: "split_on slash p = ?s" by (simp add: p posix_join_plain split_join_plain)
  have "norm_segs True ?s = ?s" using s by (simp add: norm_segs_of_plain)
  with s have "\<not> climbs p" unfolding climbs_def seg by (auto simp: list_all_iff plain_def)
  with s show ?thesis unfolding seg by (auto simp: list_all_iff plain_def)
qed

definition demo_url :: url where
  "demo_url = \<lparr> u_protocol = ''http:'', u_username = ''me'', u_password = ''pw'', u_host = ''a.b:80'', u_hostname = ''a.b'',
     u_port = ''80'', u_pathname = ''/../x y/'', u_search = ''?k=v'', u_hash = ''#f'' \<rparr>"

definition demo_web :: web where
  "demo_web = \<lparr> parse_url = (\<lambda>s. if s = [] then None else Some demo_url), resolve_url = (\<lambda>s b. if s = [] then None else Some demo_url),
     href = (\<lambda>u. u_host u @ u_pathname u @ u_search u), origin = u_host,
     query_of = (\<lambda>s. if s = [] then [] else [(''k'', ''v'')]), query_text = (\<lambda>q. concat (map (\<lambda>(k, v). k @ ''='' @ v) q)) \<rparr>"

definition demo_clone_env :: clone_env where
  "demo_clone_env = \<lparr> ce_web = demo_web, ce_sha = (\<lambda>s. ''d''), ce_decode = Some, ce_cwd = [], ce_zip = (\<lambda>_ _. Some 500) \<rparr>"

lemmas demo_clone_defs = demo_url_def demo_web_def demo_clone_env_def

theorem local_paths_confined_witness:
  "urlToLocalPath demo_clone_env ''u'' = Some ''a.b_80/_/x_y/index.html'' \<and> \<not> climbs ''a.b_80/_/x_y/index.html''"
proof -
  have "urlToLocalPath demo_clone_env ''u'' = Some ''a.b_80/_/x_y/index.html''"
    by (simp add: urlToLocalPath_def demo_clone_defs local_segments_def Let_def)
      code_simp
  with local_paths_confined [OF this] show ?thesis by simp
qed

text \<open>
  C29. What \<open>safeArchivePath\<close> accepts is a relative path of at most 512 permitted characters that does not
  leave the archive, with one exception: \<open>..\<close> itself. It contains neither \<open>../\<close> at its start nor \<open>/../\<close>,
  so every path that normalises to \<open>..\<close> is accepted as \<open>..\<close>.
\<close>

theorem safeArchivePath_confines:
  assumes "safeArchivePath value = Inr r"
  shows "1 \<le> length r \<and> length r \<le> 512 \<and> list_all path_char r \<and> hd r \<noteq> slash \<and> (climbs r \<longleftrightarrow> r = ''..'')"
  using safeArchivePath_climbs [OF assms] by (simp add: Suc_le_eq)

theorem safeArchivePath_confines_witness:
  "safeArchivePath ''a/../..'' = Inr ''..'' \<and> climbs ''..''
    \<and> safeArchivePath ''/p/../assets//x.css'' = Inr ''assets/x.css'' \<and> \<not> climbs ''assets/x.css''"
proof -
  have "safeArchivePath ''a/../..'' = Inr ''..''" "safeArchivePath ''/p/../assets//x.css'' = Inr ''assets/x.css''"
    by code_simp+
  with safeArchivePath_confines [of "''a/../..''"] safeArchivePath_confines [of "''/p/../assets//x.css''"]
  show ?thesis by simp
qed

text \<open>
  C30. The relative reference written from one file of an archive to another leads back to that file when it
  is followed from the directory of the first, whatever the working directory of the worker.
\<close>

theorem relative_references_resolve:
  assumes "list_all plain cwd" "archive_path from" "archive_path to'"
    and "split_on slash to' \<noteq> butlast (split_on slash from)"
  shows "posix_join [posix_dirname from, relativeArchivePath cwd from to'] = to'"
  using assms by (rule relative_resolves)

theorem relative_references_resolve_witness:
  "relativeArchivePath [''srv''] ''pages/a/b.html'' ''assets/x.css'' = ''../../assets/x.css''
    \<and> posix_join [posix_dirname ''pages/a/b.html'', ''../../assets/x.css''] = ''assets/x.css''"
proof -
  have "relativeArchivePath [''srv''] ''pages/a/b.html'' ''assets/x.css'' = ''../../assets/x.css''" by code_simp
  moreover have "list_all plain [''srv'']" "archive_path ''pages/a/b.html''" "archive_path ''assets/x.css''"
    "split_on slash ''assets/x.css'' \<noteq> butlast (split_on slash ''pages/a/b.html'')" by code_simp+
  ultimately show ?thesis using relative_references_resolve by metis
qed

section \<open>Redaction\<close>

text \<open>
  C31. A URL that is stored, reported or packaged has lost its user, its password and its fragment; its
  protocol, host and path stay, and of its query only the keys: every value is \<open>[REDACTED]\<close>.
\<close>

theorem redaction_hides_secrets:
  assumes "parse_url W raw = Some u"
  shows "\<exists>r s t. hides W u r \<and> hides W u s \<and> hides W u t
    \<and> sanitizeUrl W raw = capText (Some (href W r)) 8192 \<and> designRedactUrl W raw = href W s
    \<and> cloneRedactUrl W raw = (if u_protocol u \<in> {''http:'', ''https:''} then take 8192 (href W t) else u_protocol u @ ''[OMITTED]'')"
  using redactions [THEN redact_parts_hides, of W u] assms
  by (intro exI [of _ "redact_parts W overwrite_distinct_keys u"] exI [of _ "redact_parts W overwrite_keys u"]
      exI [of _ "redact_parts W reappend_keys u"]) (simp add: sanitizeUrl_def designRedactUrl_def cloneRedactUrl_def)

theorem redaction_hides_secrets_witness:
  "cloneRedactUrl demo_web ''u'' = ''a.b:80/../x y/k=[REDACTED]'' \<and> (\<exists>r. hides demo_web demo_url r)"
proof -
  have "parse_url demo_web ''u'' = Some demo_url" by (simp add: demo_web_def)
  from redaction_hides_secrets [OF this] have "\<exists>r. hides demo_web demo_url r" by blast
  then show ?thesis
    by (simp add: cloneRedactUrl_def demo_clone_defs redact_parts_def with_query_def without_secrets_def reappend_keys_def
        keys_def delete_param_def redacted_def)
qed

section \<open>The plan\<close>



lemma planned_simps [simp]:
  "pr_local_path (planned r path reason) = path" "ci_body (planned r path reason) = ci_body r"
  by (simp_all add: planned_def clone_input.extend_def)


lemma replace_reference_simps [simp]:
  "ps_used (replace_reference E main r path st) = ps_used st" "ps_files (replace_reference E main r path st) = ps_files st"
  "ps_content (replace_reference E main r path st) = ps_content st" "ps_bytes (replace_reference E main r path st) = ps_bytes st"
  by (simp_all add: replace_reference_def)





definition demo_input :: "string \<Rightarrow> clone_input" where
  "demo_input body = \<lparr> ci_sequence = 1, ci_source_url = ''r'', ci_public_url = ''r'', ci_resource_type = ''image'',
     ci_mime_type = ''image/png'', ci_body = Some body, ci_was_truncated = False, ci_skip_reason = None \<rparr>"



section \<open>The build\<close>

definition selection_ok :: "nat \<Rightarrow> nat \<Rightarrow> build_state \<Rightarrow> bool" where
  "selection_ok n i st \<longleftrightarrow> length (bs_resources st) = n \<and> bs_count st = 1 + length (bs_selected st)
     \<and> bs_count st \<le> clone_max_files \<and> bs_input st \<le> clone_max_input
     \<and> (\<exists>js. distinct js \<and> set js \<subseteq> {..<i}
         \<and> map (\<lambda>j. pr_local_path (bs_resources st ! j)) js = map (\<lambda>x. pr_local_path (fst x)) (bs_selected st)
         \<and> (\<forall>j \<in> set js. pr_local_path (bs_resources st ! j) \<noteq> None))"

lemma selection_ok_mono: "selection_ok n i st \<Longrightarrow> selection_ok n (Suc i) st"
proof -
  assume ok: "selection_ok n i st"
  then obtain js where js: "distinct js" "set js \<subseteq> {..<i}"
    "map (\<lambda>j. pr_local_path (bs_resources st ! j)) js = map (\<lambda>x. pr_local_path (fst x)) (bs_selected st)"
    "\<forall>j \<in> set js. pr_local_path (bs_resources st ! j) \<noteq> None" by (auto simp: selection_ok_def)
  moreover have "set js \<subseteq> {..<Suc i}" using js(2) by auto
  ultimately show ?thesis using ok unfolding selection_ok_def by blast
qed

lemma drop_resource_ok: "selection_ok n i st \<Longrightarrow> selection_ok n (Suc i) (drop_resource i reason st)"
proof -
  assume ok: "selection_ok n i st"
  then obtain js where js: "distinct js" "set js \<subseteq> {..<i}"
    "map (\<lambda>j. pr_local_path (bs_resources st ! j)) js = map (\<lambda>x. pr_local_path (fst x)) (bs_selected st)"
    "\<forall>j \<in> set js. pr_local_path (bs_resources st ! j) \<noteq> None" by (auto simp: selection_ok_def)
  have same: "bs_resources (drop_resource i reason st) ! j = bs_resources st ! j" if "j \<in> set js" for j
    using that js(2) by (auto simp: drop_resource_def)
  have "map (\<lambda>j. pr_local_path (bs_resources (drop_resource i reason st) ! j)) js = map (\<lambda>j. pr_local_path (bs_resources st ! j)) js"
    using same by simp
  with js same ok show ?thesis unfolding selection_ok_def
    by (intro conjI exI [of _ js]) (auto simp: drop_resource_def)
qed

lemma select_resource_ok:
  assumes ok: "selection_ok n i st" and i: "i < n"
  shows "selection_ok n (Suc i) (select_resource E i st)"
proof -
  let ?r = "bs_resources st ! i"
  define body where "body = (if ci_resource_type ?r = ''stylesheet''
     then rewriteCss E (the (ci_body ?r)) (ci_source_url ?r) (the (pr_local_path ?r)) (bs_resources st) else the (ci_body ?r))"
  let ?new = "st\<lparr>bs_input := bs_input st + length body, bs_count := bs_count st + 1,
     bs_paths := toLowerCase (the (pr_local_path ?r)) # bs_paths st, bs_selected := bs_selected st @ [(?r, body)]\<rparr>"
  have "select_resource E i st = st \<or> (\<exists>reason. select_resource E i st = drop_resource i reason st)
      \<or> (select_resource E i st = ?new \<and> pr_local_path ?r \<noteq> None \<and> bs_count st < clone_max_files
         \<and> bs_input st + length body \<le> clone_max_input)"
    unfolding select_resource_def body_def by (auto simp: Let_def split: option.splits if_splits)
  then consider "select_resource E i st = st" | reason where "select_resource E i st = drop_resource i reason st"
    | "select_resource E i st = ?new" "pr_local_path ?r \<noteq> None" "bs_count st < clone_max_files"
      "bs_input st + length body \<le> clone_max_input" by blast
  then show ?thesis
  proof cases
    case 1
    with ok show ?thesis by (simp add: selection_ok_mono)
  next
    case 2
    with ok show ?thesis by (simp add: drop_resource_ok)
  next
    case 3
    from ok obtain js where js: "distinct js" "set js \<subseteq> {..<i}"
      "map (\<lambda>j. pr_local_path (bs_resources st ! j)) js = map (\<lambda>x. pr_local_path (fst x)) (bs_selected st)"
      "\<forall>j \<in> set js. pr_local_path (bs_resources st ! j) \<noteq> None" by (auto simp: selection_ok_def)
    have "distinct (js @ [i])" using js(1,2) by auto
    moreover have "set (js @ [i]) \<subseteq> {..<Suc i}" using js(2) by auto
    ultimately show ?thesis using ok 3 js(3,4) unfolding selection_ok_def 3(1)
      by (intro conjI exI [of _ "js @ [i]"]) auto
  qed
qed

lemma selection_ok_fold:
  assumes "length (pn_resources plan) = n" "htmlBytes \<le> clone_max_input" "i \<le> n"
  shows "selection_ok n i (fold (select_resource E) [0..<i]
     \<lparr> bs_resources = pn_resources plan, bs_selected = [], bs_paths = [], bs_input = htmlBytes, bs_count = 1, bs_limited = False \<rparr>)"
  using assms(3)
proof (induction i)
  case 0
  show ?case using assms(1,2) by (simp add: selection_ok_def clone_limits)
next
  case (Suc i)
  then show ?case by (simp add: select_resource_ok)
qed

lemma resource_entry_packaged:
  "mf_packaged (resource_entry E selected r) \<longleftrightarrow> pr_local_path r \<noteq> None \<and> pr_local_path r \<in> pr_local_path ` fst ` set selected"
proof -
  have some: "(selected_body selected r \<noteq> None) = (\<exists>x \<in> set selected. pr_local_path (fst x) = pr_local_path r)"
    unfolding selected_body_def by (simp add: find_None_iff Bex_def)
  show ?thesis
  proof (cases "selected_body selected r")
    case None
    with some have "pr_local_path r \<notin> pr_local_path ` fst ` set selected" by (metis imageE)
    with None show ?thesis by (simp add: resource_entry_def manifest_of_def Let_def)
  next
    case (Some b)
    with some have "pr_local_path r \<in> pr_local_path ` fst ` set selected" by (metis imageI option.distinct(1))
    with Some show ?thesis by (cases "pr_local_path r") (simp_all add: resource_entry_def manifest_of_def Let_def)
  qed
qed

lemma skipped_bound:
  assumes "selection_ok n n st"
  shows "bs_count st + length (filter (\<lambda>f. \<not> mf_packaged f) (map (resource_entry E (bs_selected st)) (bs_resources st))) \<le> 1 + n"
proof -
  from assms obtain js where js: "distinct js" "set js \<subseteq> {..<n}"
    "map (\<lambda>j. pr_local_path (bs_resources st ! j)) js = map (\<lambda>x. pr_local_path (fst x)) (bs_selected st)"
    "\<forall>j \<in> set js. pr_local_path (bs_resources st ! j) \<noteq> None" and n: "length (bs_resources st) = n"
    and c: "bs_count st = 1 + length (bs_selected st)" by (auto simp: selection_ok_def)
  let ?P = "\<lambda>r. mf_packaged (resource_entry E (bs_selected st) r)"
  have "?P (bs_resources st ! j)" if "j \<in> set js" for j
  proof -
    have "pr_local_path (bs_resources st ! j) \<in> set (map (\<lambda>j. pr_local_path (bs_resources st ! j)) js)"
      using that by simp
    then show ?thesis unfolding js(3) resource_entry_packaged using js(4) that by (simp add: image_image)
  qed
  then have "set js \<subseteq> {j. j < length (bs_resources st) \<and> ?P (bs_resources st ! j)}" using js(2) n by auto
  then have "card (set js) \<le> length (filter ?P (bs_resources st))"
    unfolding length_filter_conv_card by (intro card_mono) simp_all
  moreover have "card (set js) = length (bs_selected st)"
    using distinct_card [OF js(1)] js(3) by (metis length_map)
  moreover have "length (filter ?P (bs_resources st)) + length (filter (\<lambda>r. \<not> ?P r) (bs_resources st)) = n"
    unfolding n [symmetric] by (rule sum_length_filter_compl)
  ultimately show ?thesis using c by (simp add: filter_map o_def)
qed

lemma completeness_code_length: "1 \<le> length (completeness_code k t l) \<and> length (completeness_code k t l) \<le> 64"
  by (simp add: completeness_code_def)

definition fits :: "reconstruction_build \<Rightarrow> bool" where
  "fits b \<longleftrightarrow> bd_packaged b \<le> 100 \<and> bd_packaged b + bd_skipped b \<le> bd_discovered b \<and> bd_input_bytes b \<le> 52428800
     \<and> all_opt (\<lambda>n. 1 \<le> n \<and> n \<le> 67108864) (bd_archive_bytes b)
     \<and> all_opt (\<lambda>c. 1 \<le> length c \<and> length c \<le> 64) (bd_completeness_code b)
     \<and> all_opt (\<lambda>c. 1 \<le> length c \<and> length c \<le> 64) (bd_failure_code b)"

lemma failed_build_fits: "1 \<le> discovered \<Longrightarrow> 1 \<le> length code \<Longrightarrow> length code \<le> 64 \<Longrightarrow> fits (bl_build (failed_build discovered code))"
  by (simp add: failed_build_def fits_def)

lemma build_fits: "fits (bl_build (buildStaticClone E plan html bundleOnly))"
proof (cases "clone_max_input < length html")
  case True
  then show ?thesis by (simp add: buildStaticClone_def failed_build_fits)
next
  case False
  let ?n = "length (pn_resources plan)"
  let ?st = "selection E plan (length html)"
  from False selection_ok_fold [of plan ?n "length html" ?n E] have ok: "selection_ok ?n ?n ?st"
    by (simp add: selection_def)
  have doc: "mf_packaged (manifest_of E DOCUMENT u p ty m html False None)" for u p ty m by (simp add: manifest_of_def)
  let ?skip = "length (filter (\<lambda>f. \<not> mf_packaged f) (map (resource_entry E (bs_selected ?st)) (bs_resources ?st)))"
  have s: "bs_count ?st + ?skip \<le> 1 + ?n" "bs_count ?st \<le> 100" "bs_input ?st \<le> 52428800"
    using skipped_bound [OF ok] ok by (simp_all add: selection_ok_def clone_limits)
  have result: "fits \<lparr> bd_status = x, bd_engine_version = v, bd_discovered = Suc ?n, bd_packaged = bs_count ?st,
      bd_skipped = k, bd_input_bytes = bs_input ?st, bd_archive_bytes = a,
      bd_completeness_code = Some (completeness_code k t l), bd_failure_code = None \<rparr>"
    if "k = ?skip" "all_opt (\<lambda>n. Suc 0 \<le> n \<and> n \<le> 67108864) a" for x v a k t l
    using s that completeness_code_length [of k t l] by (simp add: fits_def)
  show ?thesis
  proof (cases bundleOnly)
    case True
    with False show ?thesis by (simp add: buildStaticClone_def Let_def doc result)
  next
    case sent: False
    show ?thesis
    proof (cases "ce_zip E ((pn_main_path plan, html) # map (\<lambda>(r, body). (the (pr_local_path r), body)) (bs_selected ?st))
        (manifest_of E DOCUMENT (pn_final_url plan) (pn_main_path plan) ''document'' ''text/html'' html False None
          # map (resource_entry E (bs_selected ?st)) (bs_resources ?st))")
      case None
      with False sent show ?thesis by (simp add: buildStaticClone_def Let_def failed_build_fits)
    next
      case (Some n)
      with False sent show ?thesis
        by (simp add: buildStaticClone_def Let_def failed_build_fits doc result clone_limits)
    qed
  qed
qed

text \<open>
  C33. A build always fits the row it is stored in: whatever was captured, at most 100 files are packaged,
  packaged and skipped files do not exceed the discovered ones, input and archive stay within their
  budgets and the codes within their columns; so the counts that \<open>stageResult\<close> writes for a job of
  \<open>acceptCommand\<close> satisfy the constraints of the table.
\<close>

theorem build_satisfies_constraints:
  fixes E plan html bundleOnly
  defines "b \<equiv> bl_build (buildStaticClone E plan html bundleOnly)"
  assumes "\<And>xs. objs = Some xs \<Longrightarrow> bd_archive_bytes b = Some (so_bytes (ro_archive xs))"
  shows "recon_counts_check (finish_recon e (terminal_status published b) b objs (new_recon_row e0 c))"
proof -
  have "fits b" unfolding b_def by (rule build_fits)
  moreover have "all_opt (\<lambda>n. 1 \<le> n \<and> n \<le> 67108864) (map_option (\<lambda>x. so_bytes (ro_archive x)) objs)"
    using \<open>fits b\<close> assms(2) by (cases objs) (auto simp: fits_def)
  moreover have "all_opt (\<lambda>c. 1 \<le> length c \<and> length c \<le> 64) (failure_code (terminal_status published b) b objs)"
    using \<open>fits b\<close> by (cases "bd_failure_code b") (auto simp: fits_def failure_code_def)
  ultimately show ?thesis
    by (auto simp: recon_counts_check_def finish_recon_def new_recon_row_def fits_def)
qed

definition demo_plan :: clone_plan where
  "demo_plan = \<lparr> pn_final_url = ''u'', pn_main_path = ''index.html'', pn_resources = [planned (demo_input ''x'') (Some ''x.png'') None],
     pn_replacements = [], pn_external = False \<rparr>"

definition demo_stored :: reconstruction_objects where
  "demo_stored = (let o1 = \<lparr> so_bucket = ''b'', so_key = ''k'', so_bytes = 500, so_sha = ''d'', so_content_type = ''z'' \<rparr>
     in \<lparr> ro_archive = o1, ro_manifest = o1 \<rparr>)"

theorem build_satisfies_constraints_witness:
  "bd_packaged (bl_build (buildStaticClone demo_clone_env demo_plan ''h'' False)) = 2
   \<and> (\<forall>published e e0 c. recon_counts_check (finish_recon e
        (terminal_status published (bl_build (buildStaticClone demo_clone_env demo_plan ''h'' False)))
        (bl_build (buildStaticClone demo_clone_env demo_plan ''h'' False)) (Some demo_stored) (new_recon_row e0 c)))"
proof -
  have "bd_packaged (bl_build (buildStaticClone demo_clone_env demo_plan ''h'' False)) = 2"
    and a: "bd_archive_bytes (bl_build (buildStaticClone demo_clone_env demo_plan ''h'' False)) = Some 500"
    by (simp_all add: buildStaticClone_def Let_def demo_plan_def selection_def select_resource_def planned_def
        demo_input_def demo_clone_env_def clone_limits clone_input.defs truthy_def)
  moreover have "recon_counts_check (finish_recon e
        (terminal_status published (bl_build (buildStaticClone demo_clone_env demo_plan ''h'' False)))
        (bl_build (buildStaticClone demo_clone_env demo_plan ''h'' False)) (Some demo_stored) (new_recon_row e0 c))"
    for published e e0 c
    by (rule build_satisfies_constraints) (simp add: a demo_stored_def Let_def)
  ultimately show ?thesis by blast
qed

end
