(* ===== verification/Design_Pages.thy ===== *)
theory Design_Pages
  imports Archive_Paths Web_Urls "HOL-Library.Multiset"
begin

text \<open>
  The selection of representative pages of a site (\<open>capture-worker/src/design-clone.ts\<close>): locales, semantic
  roles, route templates, and the two rounds in which pages of one identity and of one layout compete.
  Parsing of URLs and HTML, the collation of \<open>localeCompare\<close> and the table of language names are parameters;
  an exception of \<open>new URL\<close> outside a \<open>try\<close> is the result \<open>None\<close>. Headings are ASCII text.
\<close>

section \<open>Pages\<close>

datatype semantic_role = HOME | MARKETING_LANDING | PRODUCT_LIST | PRODUCT_DETAIL | PRICING | CONTACT | DOWNLOAD
  | PARTNER | AFFILIATE | AUTH_LOGIN | AUTH_REGISTER | AUTH_FORGOT_PASSWORD | AUTH_VERIFY_OR_STATUS | BLOG_INDEX
  | BLOG_DETAIL | USE_CASE_INDEX | USE_CASE_DETAIL | COMPARISON_DETAIL | LEGAL_TEXT | ERROR_4XX | ERROR_5XX | UNKNOWN_ROLE

datatype design_reason = ALTERNATE_LOCALE | TRACKING_OR_QUERY_VARIANT | CANONICAL_DUPLICATE
  | SEMANTIC_TEMPLATE_DUPLICATE | LAYOUT_DUPLICATE | NON_HTML | EXTERNAL_ORIGIN | ROBOTS_OR_POLICY_BLOCKED
  | HTTP_FAILURE | BUDGET_LIMITED

datatype crawl_outcome = CRAWL_SUCCESS | CRAWL_WARNING | CRAWL_FAILED

record hreflang_entry =
  hl_language :: string
  hl_url :: string

record design_page =
  dp_id :: string
  dp_url :: string
  dp_final_url :: "string option"
  dp_outcome :: crawl_outcome
  dp_status :: int
  dp_content_type :: string
  dp_canonical :: string
  dp_html_lang :: string
  dp_hreflang :: "hreflang_entry list"
  dp_h1 :: "string list"
  dp_h2 :: "string list"
  dp_schema_types :: "string list"
  dp_scripts :: int
  dp_stylesheets :: int

record design_candidate =
  dc_page :: design_page
  dc_url :: string
  dc_locale :: string
  dc_role :: semantic_role
  dc_template :: string

record design_contender = design_candidate +
  dx_identity :: string
  dx_hint :: string
  dx_had_query :: bool
  dx_self_reference :: bool

record design_rejection =
  dr_page :: design_page
  dr_url :: string
  dr_reason :: design_reason

record design_selection =
  sel_locale :: string
  sel_discovered :: nat
  sel_selected :: "design_candidate list"
  sel_rejected :: "design_rejection list"

datatype html_node =
  Html_Node (hn_tag: string) (hn_attrs: "(string \<times> string) list") (hn_value: "string option") (hn_children: "html_node list")

record design_env =
  de_web :: web
  de_collate :: "string \<Rightarrow> string \<Rightarrow> int"
  de_language :: "string \<Rightarrow> bool"
  de_html :: "string \<Rightarrow> html_node option"
  de_sha :: "string \<Rightarrow> string"

definition raw_page_url :: "design_page \<Rightarrow> string" where
  "raw_page_url p = (case dp_final_url p of None \<Rightarrow> dp_url p | Some u \<Rightarrow> if u = [] then dp_url p else u)"

section \<open>Locales\<close>

definition alpha :: "char \<Rightarrow> bool" where
  "alpha c \<longleftrightarrow> lower_alpha c \<or> upper_alpha c"

text \<open>\<open>a || b\<close> of two nullable strings, where neither is empty.\<close>

definition or_else :: "'a option \<Rightarrow> 'a option \<Rightarrow> 'a option" where
  "or_else a b = (case a of None \<Rightarrow> b | Some x \<Rightarrow> Some x)"

definition isLocale :: "design_env \<Rightarrow> string \<Rightarrow> bool" where
  "isLocale E value \<longleftrightarrow>
     (case split_on (CHR ''-'') value of
        [l] \<Rightarrow> length l \<in> {2, 3} \<and> list_all alpha l
      | [l, r] \<Rightarrow> length l \<in> {2, 3} \<and> list_all alpha l
          \<and> ((length r = 2 \<and> list_all alpha r) \<or> (length r = 3 \<and> list_all digit r))
      | _ \<Rightarrow> False)
     \<and> de_language E (hd (split_on (CHR ''-'') (toLowerCase value)))"

definition normalizeLocale :: "design_env \<Rightarrow> string option \<Rightarrow> string option" where
  "normalizeLocale E value =
     (case value of None \<Rightarrow> None
      | Some v \<Rightarrow> (let n = toLowerCase (replace_class (\<lambda>c. c = CHR ''_'') (CHR ''-'') (trim v))
                   in if n \<noteq> [] \<and> isLocale E n then Some n else None))"

definition path_segments :: "string \<Rightarrow> string list" where
  "path_segments pathname = filter (\<lambda>s. s \<noteq> []) (split_on slash pathname)"

definition localeFromPath :: "design_env \<Rightarrow> url \<Rightarrow> string option" where
  "localeFromPath E u = (case path_segments (u_pathname u) of
     [] \<Rightarrow> None | s # _ \<Rightarrow> if isLocale E s then normalizeLocale E (Some s) else None)"

definition localeFromCanonical :: "design_env \<Rightarrow> string option \<Rightarrow> string \<Rightarrow> string option" where
  "localeFromCanonical E canonical base =
     (case canonical of None \<Rightarrow> None
      | Some c \<Rightarrow> if trim c = [] then None
          else (case resolve_url (de_web E) c base of None \<Rightarrow> None
                | Some u \<Rightarrow> if origin (de_web E) u = base then localeFromPath E u else None))"

definition design_identity :: "design_env \<Rightarrow> string \<Rightarrow> string option" where
  "design_identity E raw = Option.bind (normalizeDesignUrl (de_web E) raw) (stripQuery (de_web E))"

definition names_page :: "design_env \<Rightarrow> url \<Rightarrow> string \<Rightarrow> hreflang_entry \<Rightarrow> bool" where
  "names_page E pageUrl pageIdentity entry =
     (case resolve_url (de_web E) (hl_url entry) (href (de_web E) pageUrl) of None \<Rightarrow> False
      | Some alternate \<Rightarrow> origin (de_web E) alternate = origin (de_web E) pageUrl
          \<and> design_identity E (href (de_web E) alternate) = Some pageIdentity)"

fun hreflang_locale :: "design_env \<Rightarrow> url \<Rightarrow> string \<Rightarrow> hreflang_entry list \<Rightarrow> string option" where
  "hreflang_locale E pageUrl pageIdentity [] = None"
| "hreflang_locale E pageUrl pageIdentity (entry # entries) =
     (case normalizeLocale E (Some (hl_language entry)) of
        Some language \<Rightarrow> if names_page E pageUrl pageIdentity entry then Some language
                          else hreflang_locale E pageUrl pageIdentity entries
      | None \<Rightarrow> hreflang_locale E pageUrl pageIdentity entries)"

definition localeFromHreflang :: "design_env \<Rightarrow> url \<Rightarrow> hreflang_entry list \<Rightarrow> string option option" where
  "localeFromHreflang E pageUrl entries =
     map_option (\<lambda>identity. hreflang_locale E pageUrl identity entries) (design_identity E (href (de_web E) pageUrl))"

definition inferPageLocale :: "design_env \<Rightarrow> url \<Rightarrow> design_page \<Rightarrow> string option" where
  "inferPageLocale E u page =
     (case or_else (localeFromPath E u) (or_else (normalizeLocale E (Some (dp_html_lang page)))
        (localeFromCanonical E (Some (dp_canonical page)) (origin (de_web E) u))) of
        Some locale \<Rightarrow> Some locale
      | None \<Rightarrow> map_option (\<lambda>l. coalesce l ''und'') (localeFromHreflang E u (dp_hreflang page)))"

definition inferRootLocale :: "design_env \<Rightarrow> string \<Rightarrow> design_page option \<Rightarrow> string option" where
  "inferRootLocale E rootUrl rootPage =
     Option.bind (parse_url (de_web E) rootUrl) (\<lambda>u.
       case or_else (localeFromPath E u) (or_else (normalizeLocale E (map_option dp_html_lang rootPage))
          (localeFromCanonical E (map_option dp_canonical rootPage) (origin (de_web E) u))) of
         Some locale \<Rightarrow> Some locale
       | None \<Rightarrow> map_option (\<lambda>l. coalesce l ''und'')
           (localeFromHreflang E u (case rootPage of None \<Rightarrow> [] | Some p \<Rightarrow> dp_hreflang p)))"

section \<open>Roles and templates\<close>

definition names_segment :: "string list \<Rightarrow> string list \<Rightarrow> bool" where
  "names_segment names segments \<longleftrightarrow> list_ex (\<lambda>s. s \<in> set names) segments"

fun indexWithin :: "string list \<Rightarrow> string list \<Rightarrow> nat option" where
  "indexWithin [] values = None"
| "indexWithin (s # segments) values = (if s \<in> set values then Some 0 else map_option Suc (indexWithin segments values))"

definition word_char :: "char \<Rightarrow> bool" where
  "word_char c \<longleftrightarrow> alpha c \<or> digit c \<or> c = CHR ''_''"

text \<open>\<open>/\b(?:phrase)\b/\<close> on text whose previous character is a word character or not.\<close>

fun contains_phrase :: "string \<Rightarrow> bool \<Rightarrow> string \<Rightarrow> bool" where
  "contains_phrase phrase inside [] \<longleftrightarrow> False"
| "contains_phrase phrase inside (c # s) \<longleftrightarrow>
     (\<not> inside \<and> starts_with phrase (c # s)
        \<and> (case drop (length phrase) (c # s) of [] \<Rightarrow> True | d # _ \<Rightarrow> \<not> word_char d))
     \<or> contains_phrase phrase (word_char c) s"

text \<open>
  The expressions \<open>/\/(?:a|b)(?:\/|$)/\<close> on the path \<open>/s1/s2/...\<close> ask whether some segment is a or b, the one of
  comparisons, which ends with a slash, whether a segment other than the last is.
\<close>

definition role_of_path :: "design_env \<Rightarrow> string list \<Rightarrow> string \<Rightarrow> semantic_role" where
  "role_of_path E segments text =
     (if segments = [] \<or> (length segments = 1 \<and> isLocale E (hd segments)) then HOME
      else if names_segment [''login'', ''log-in'', ''sign-in'', ''signin'', ''dang-nhap''] segments then AUTH_LOGIN
      else if names_segment [''register'', ''sign-up'', ''signup'', ''create-account'', ''dang-ky''] segments then AUTH_REGISTER
      else if names_segment [''forgot'', ''forgot-password'', ''reset-password'', ''recover'', ''quen-mat-khau''] segments
      then AUTH_FORGOT_PASSWORD
      else if names_segment [''verify'', ''verify-email'', ''verification'', ''email-verification'', ''activate'',
          ''confirm-email'', ''auth-status'', ''account-status''] segments then AUTH_VERIFY_OR_STATUS
      else if names_segment [''pricing'', ''plans'', ''bang-gia''] segments then PRICING
      else if names_segment [''contact'', ''contact-us'', ''lien-he''] segments then CONTACT
      else if names_segment [''download'', ''downloads'', ''tai-ve''] segments then DOWNLOAD
      else if names_segment [''partner'', ''partners'', ''doi-tac''] segments then PARTNER
      else if names_segment [''affiliate'', ''affiliates''] segments then AFFILIATE
      else if names_segment [''privacy'', ''terms'', ''legal'', ''cookie'', ''cookies'', ''policy'', ''dieu-khoan''] segments then LEGAL_TEXT
      else if names_segment [''vs'', ''compare'', ''comparison''] (butlast segments) then COMPARISON_DETAIL
      else (case indexWithin segments [''blog'', ''blogs'', ''news'', ''articles'', ''tin-tuc''] of
              Some i \<Rightarrow> if length segments = i + 1 then BLOG_INDEX else BLOG_DETAIL
      | None \<Rightarrow> case indexWithin segments [''use-case'', ''use-cases'', ''case-study'', ''case-studies''] of
              Some i \<Rightarrow> if length segments = i + 1 then USE_CASE_INDEX else USE_CASE_DETAIL
      | None \<Rightarrow> case indexWithin segments [''product'', ''products'', ''san-pham''] of
              Some i \<Rightarrow> if length segments = i + 1 then PRODUCT_LIST else PRODUCT_DETAIL
      | None \<Rightarrow> if contains_phrase ''sign in'' False text \<or> contains_phrase ''log in'' False text then AUTH_LOGIN
                 else if contains_phrase ''sign up'' False text \<or> contains_phrase ''register'' False text then AUTH_REGISTER
                 else if length segments \<le> (if isLocale E (hd segments) then 2 else 1) then MARKETING_LANDING
                 else UNKNOWN_ROLE))"

definition classifySemanticRole :: "design_env \<Rightarrow> string \<Rightarrow> int \<Rightarrow> string list \<Rightarrow> semantic_role option" where
  "classifySemanticRole E raw status headings =
     (if 500 \<le> status \<and> status < 600 then Some ERROR_5XX
      else if 400 \<le> status \<and> status < 500 then Some ERROR_4XX
      else map_option (\<lambda>u. role_of_path E (path_segments (toLowerCase (u_pathname u))) (toLowerCase (join_with (CHR '' '') headings)))
             (parse_url (de_web E) raw))"

definition hex_char :: "char \<Rightarrow> bool" where
  "hex_char c \<longleftrightarrow> digit c \<or> between (CHR ''a'') (CHR ''f'') (lower_char c)"

definition identifier_segment :: "string \<Rightarrow> bool" where
  "identifier_segment s \<longleftrightarrow> (s \<noteq> [] \<and> list_all digit s) \<or> (16 \<le> length s \<and> list_all hex_char s)
     \<or> (map length (split_on (CHR ''-'') s) = [8, 4, 4, 4, 12] \<and> list_all (list_all hex_char) (split_on (CHR ''-'') s))"

definition detail_role :: "semantic_role \<Rightarrow> bool" where
  "detail_role r \<longleftrightarrow> r \<in> {PRODUCT_DETAIL, BLOG_DETAIL, USE_CASE_DETAIL, COMPARISON_DETAIL}"

definition template_segment :: "semantic_role \<Rightarrow> nat \<Rightarrow> nat \<Rightarrow> nat \<Rightarrow> string \<Rightarrow> string" where
  "template_segment role start n index segment =
     (if identifier_segment segment then ''{id}''
      else if detail_role role \<and> index + 1 = n \<and> start \<le> index then ''{slug}''
      else toLowerCase segment)"

definition inferRouteTemplate :: "design_env \<Rightarrow> string \<Rightarrow> semantic_role \<Rightarrow> string \<Rightarrow> string option" where
  "inferRouteTemplate E raw role locale =
     (if role = ERROR_4XX then Some ''/{error-4xx}''
      else if role = ERROR_5XX then Some ''/{error-5xx}''
      else map_option (\<lambda>u.
        let segments = path_segments (u_pathname u);
            start = (if locale \<noteq> ''und'' \<and> segments \<noteq> [] \<and> toLowerCase (hd segments) = locale then 1 else 0);
            n = length segments
        in slash # join_with slash (map (\<lambda>(i, s). template_segment role start n i s) (enumerate 0 segments)))
        (parse_url (de_web E) raw))"

section \<open>Layout fingerprints\<close>

fun words_of :: "string \<Rightarrow> string list" where
  "words_of [] = [[]]"
| "words_of (c # s) = (if space c then [] # words_of s
     else (case words_of s of [] \<Rightarrow> [[c]] | w # ws \<Rightarrow> (c # w) # ws))"

definition attribute :: "string \<Rightarrow> (string \<times> string) list \<Rightarrow> string" where
  "attribute name attrs = (case find (\<lambda>a. toLowerCase (fst a) = name) attrs of None \<Rightarrow> [] | Some a \<Rightarrow> snd a)"

definition open_token :: "string \<Rightarrow> (string \<times> string) list \<Rightarrow> string" where
  "open_token tag attrs =
     (let classes = join_with (CHR ''.'') (take 32 (sort (filter (\<lambda>w. w \<noteq> []) (words_of (attribute ''class'' attrs)))));
          role = toLowerCase (trim (attribute ''role'' attrs))
      in ''<'' @ toLowerCase tag @ (if classes = [] then [] else CHR ''.'' # classes)
           @ (if role = [] then [] else ''[role='' @ role @ '']'') @ ''>'')"

fun walk :: "html_node \<Rightarrow> string list \<times> nat \<Rightarrow> string list \<times> nat" where
  "walk (Html_Node tag attrs text children) (tokens, visited) =
     (if 50000 \<le> visited then (tokens, visited)
      else if tag = [] then fold walk children (tokens, visited)
      else (case fold walk children (tokens @ [open_token tag attrs], visited + 1) of
              (tokens', visited') \<Rightarrow> (tokens' @ [''</'' @ toLowerCase tag @ ''>''], visited')))"

definition layoutFingerprint :: "design_env \<Rightarrow> string \<Rightarrow> string option" where
  "layoutFingerprint E html = Option.bind (de_html E html) (\<lambda>document.
     case walk document ([], 0) of (tokens, visited) \<Rightarrow>
       if visited = 0 then None else Some (de_sha E (concat tokens)))"

section \<open>Orders\<close>

text \<open>
  \<open>[...xs].sort(cmp)\<close> is stable: with a consistent comparator it is the insertion sort by it.
\<close>

fun insert_by :: "('a \<Rightarrow> 'a \<Rightarrow> int) \<Rightarrow> 'a \<Rightarrow> 'a list \<Rightarrow> 'a list" where
  "insert_by cmp x [] = [x]"
| "insert_by cmp x (y # ys) = (if cmp x y \<le> 0 then x # y # ys else y # insert_by cmp x ys)"

definition js_sort :: "('a \<Rightarrow> 'a \<Rightarrow> int) \<Rightarrow> 'a list \<Rightarrow> 'a list" where
  "js_sort cmp xs = foldr (insert_by cmp) xs []"

lemma mset_insert_by [simp]: "mset (insert_by cmp x ys) = add_mset x (mset ys)"
  by (induction ys) auto

lemma mset_js_sort [simp]: "mset (js_sort cmp xs) = mset xs"
  by (induction xs) (simp_all add: js_sort_def)

lemma set_js_sort [simp]: "set (js_sort cmp xs) = set xs"
  by (metis mset_js_sort set_mset_mset)

lemma length_js_sort [simp]: "length (js_sort cmp xs) = length xs"
  by (metis mset_js_sort size_mset)

lemma js_sort_sorted:
  assumes total: "\<And>x y. cmp x y \<le> 0 \<or> cmp y x \<le> 0"
    and trans: "\<And>x y z. cmp x y \<le> 0 \<Longrightarrow> cmp y z \<le> 0 \<Longrightarrow> cmp x z \<le> 0"
  shows "sorted_wrt (\<lambda>x y. cmp x y \<le> 0) (js_sort cmp xs)"
proof -
  have "sorted_wrt (\<lambda>x y. cmp x y \<le> 0) ys \<Longrightarrow> sorted_wrt (\<lambda>x y. cmp x y \<le> 0) (insert_by cmp x ys)" for x ys
  proof (induction ys)
    case (Cons y ys)
    have "set (insert_by cmp x ys) = insert x (set ys)" by (metis mset_insert_by set_mset_add_mset_insert set_mset_mset)
    with Cons total [of x y] trans show ?case by auto
  qed simp
  then show ?thesis by (induction xs) (simp_all add: js_sort_def)
qed

fun first_nonzero :: "int list \<Rightarrow> int" where
  "first_nonzero [] = 0"
| "first_nonzero (x # xs) = (if x \<noteq> 0 then x else first_nonzero xs)"

definition statusRank :: "int \<Rightarrow> int" where
  "statusRank status =
     (if 200 \<le> status \<and> status < 300 then 0 else if 300 \<le> status \<and> status < 400 then 1
      else if 400 \<le> status \<and> status < 500 then 2 else if 500 \<le> status \<and> status < 600 then 3 else 4)"

definition pageOrder :: "design_env \<Rightarrow> design_page \<Rightarrow> design_page \<Rightarrow> int" where
  "pageOrder E l r = first_nonzero
     [de_collate E (raw_page_url l) (raw_page_url r), de_collate E (dp_id l) (dp_id r)]"

definition candidateOrder :: "design_env \<Rightarrow> design_contender \<Rightarrow> design_contender \<Rightarrow> int" where
  "candidateOrder E l r = first_nonzero
     [of_bool (dx_had_query l) - of_bool (dx_had_query r),
      of_bool (dx_self_reference r) - of_bool (dx_self_reference l),
      statusRank (dp_status (dc_page l)) - statusRank (dp_status (dc_page r)),
      int (length (dc_url l)) - int (length (dc_url r)),
      de_collate E (dc_url l) (dc_url r),
      de_collate E (dp_id (dc_page l)) (dp_id (dc_page r))]"

section \<open>The guards of a page\<close>

definition download_extensions :: "string list" where
  "download_extensions = [''7z'', ''avi'', ''csv'', ''doc'', ''docx'', ''exe'', ''gz'', ''mp3'', ''mp4'', ''mov'', ''pdf'',
     ''rar'', ''tar'', ''webm'', ''xls'', ''xlsx'', ''zip'']"

definition static_extensions :: "string list" where
  "static_extensions = [''avif'', ''bmp'', ''css'', ''gif'', ''ico'', ''jpg'', ''jpeg'', ''js'', ''json'', ''map'', ''png'',
     ''svg'', ''webp'', ''woff'', ''woff2'', ''xml'']"

definition has_extension :: "string list \<Rightarrow> string \<Rightarrow> bool" where
  "has_extension exts pathname \<longleftrightarrow> list_ex (\<lambda>x. ends_with (CHR ''.'' # x) (toLowerCase pathname)) exts"

definition isHtmlPage :: "design_page \<Rightarrow> url \<Rightarrow> bool" where
  "isHtmlPage page u \<longleftrightarrow> mime_of (dp_content_type page) \<in> {[], ''text/html'', ''application/xhtml+xml''}
     \<and> \<not> has_extension download_extensions (u_pathname u) \<and> \<not> has_extension static_extensions (u_pathname u)"

definition isPolicyBlocked :: "url \<Rightarrow> bool" where
  "isPolicyBlocked u \<longleftrightarrow> list_ex (\<lambda>s. list_ex (\<lambda>n. toLowerCase s = n \<or> starts_with (n @ ''.'') (toLowerCase s))
       [''api'', ''feed'', ''feeds'', ''robots.txt'', ''sitemap'', ''sitemaps''])
     (tl (split_on slash (u_pathname u)))"

definition int_text :: "int \<Rightarrow> string" where
  "int_text i = (if i < 0 then CHR ''-'' # decimal (nat (- i)) else decimal (nat i))"

definition staticLayoutHint :: "design_page \<Rightarrow> string" where
  "staticLayoutHint page = join_with (CHR ''|'')
     [int_text (sgn (dp_status page) * (\<bar>dp_status page\<bar> div 100)), decimal (length (dp_h1 page)), decimal (length (dp_h2 page)),
      int_text (dp_scripts page), int_text (dp_stylesheets page),
      join_with (CHR '','') (sort (map toLowerCase (dp_schema_types page)))]"

definition sameOriginCanonical :: "design_env \<Rightarrow> string \<Rightarrow> string \<Rightarrow> string option" where
  "sameOriginCanonical E canonical base =
     (if trim canonical = [] then None
      else Option.bind (resolve_url (de_web E) canonical base) (\<lambda>u.
        if origin (de_web E) u = base then normalizeDesignUrl (de_web E) (href (de_web E) u) else None))"

definition rejection :: "design_page \<Rightarrow> string \<Rightarrow> design_reason \<Rightarrow> design_rejection" where
  "rejection page normalizedUrl reason = \<lparr> dr_page = page, dr_url = normalizedUrl, dr_reason = reason \<rparr>"

section \<open>Selection\<close>

text \<open>The first loop: a page is rejected (left) or becomes a contender (right); \<open>None\<close> when it throws.\<close>

definition contender_of :: "design_env \<Rightarrow> string \<Rightarrow> string \<Rightarrow> design_page \<Rightarrow> url \<Rightarrow> string \<Rightarrow> string \<Rightarrow> design_contender option" where
  "contender_of E rootOrigin locale page u normalizedUrl pageLocale =
     Option.bind (classifySemanticRole E normalizedUrl (dp_status page) (dp_h1 page)) (\<lambda>role.
     Option.bind (inferRouteTemplate E normalizedUrl role locale) (\<lambda>template.
     let canonical = sameOriginCanonical E (dp_canonical page) rootOrigin
     in Option.bind (stripQuery (de_web E) (coalesce canonical normalizedUrl)) (\<lambda>identity.
        Option.bind (stripQuery (de_web E) normalizedUrl) (\<lambda>self.
          Some \<lparr> dc_page = page, dc_url = normalizedUrl, dc_locale = (if pageLocale = ''und'' then locale else pageLocale),
            dc_role = role, dc_template = template, dx_identity = identity, dx_hint = staticLayoutHint page,
            dx_had_query = (u_search u \<noteq> []), dx_self_reference = (canonical \<noteq> None \<and> identity = self) \<rparr>))))"

definition consider_page :: "design_env \<Rightarrow> string \<Rightarrow> string \<Rightarrow> design_page \<Rightarrow> (design_rejection + design_contender) option" where
  "consider_page E rootOrigin locale page =
     (let raw = raw_page_url page
      in case parse_url (de_web E) raw of
           None \<Rightarrow> Some (Inl (rejection page [] HTTP_FAILURE))
         | Some u \<Rightarrow>
             if u_protocol u \<notin> {''http:'', ''https:''} \<or> origin (de_web E) u \<noteq> rootOrigin
             then Some (Inl (rejection page (designRedactUrl (de_web E) raw) EXTERNAL_ORIGIN))
             else Option.bind (normalizeDesignUrl (de_web E) raw) (\<lambda>normalizedUrl.
               if \<not> isHtmlPage page u then Some (Inl (rejection page normalizedUrl NON_HTML))
               else if dp_outcome page = CRAWL_WARNING then Some (Inl (rejection page normalizedUrl ROBOTS_OR_POLICY_BLOCKED))
               else if (dp_outcome page = CRAWL_FAILED \<or> dp_status page = 0) \<and> \<not> (400 \<le> dp_status page \<and> dp_status page < 600)
               then Some (Inl (rejection page normalizedUrl HTTP_FAILURE))
               else if isPolicyBlocked u then Some (Inl (rejection page normalizedUrl ROBOTS_OR_POLICY_BLOCKED))
               else Option.bind (inferPageLocale E u page) (\<lambda>pageLocale.
                 if locale \<noteq> ''und'' \<and> pageLocale \<noteq> ''und'' \<and> pageLocale \<noteq> locale
                 then Some (Inl (rejection page normalizedUrl ALTERNATE_LOCALE))
                 else map_option Inr (contender_of E rootOrigin locale page u normalizedUrl pageLocale))))"

fun consider_pages :: "design_env \<Rightarrow> string \<Rightarrow> string \<Rightarrow> design_page list \<Rightarrow> (design_rejection list \<times> design_contender list) option" where
  "consider_pages E rootOrigin locale [] = Some ([], [])"
| "consider_pages E rootOrigin locale (p # ps) =
     Option.bind (consider_page E rootOrigin locale p) (\<lambda>r.
     Option.bind (consider_pages E rootOrigin locale ps) (\<lambda>(rejected, candidates).
       Some (case r of Inl x \<Rightarrow> (x # rejected, candidates) | Inr c \<Rightarrow> (rejected, c # candidates))))"

text \<open>A loop over a \<open>Map\<close> that keeps the first candidate of every key: the winners in order, and the losers.\<close>

definition compete :: "('a \<Rightarrow> 'k) \<Rightarrow> 'a \<Rightarrow> 'a list \<times> 'a list \<Rightarrow> 'a list \<times> 'a list" where
  "compete key x = (\<lambda>(winners, losers).
     if key x \<in> key ` set winners then (winners, losers @ [x]) else (winners @ [x], losers))"

definition competition :: "('a \<Rightarrow> 'k) \<Rightarrow> 'a list \<Rightarrow> 'a list \<times> 'a list" where
  "competition key xs = fold (compete key) xs ([], [])"

definition role_text :: "semantic_role \<Rightarrow> string" where
  "role_text r = (case r of HOME \<Rightarrow> ''HOME'' | MARKETING_LANDING \<Rightarrow> ''MARKETING_LANDING'' | PRODUCT_LIST \<Rightarrow> ''PRODUCT_LIST''
     | PRODUCT_DETAIL \<Rightarrow> ''PRODUCT_DETAIL'' | PRICING \<Rightarrow> ''PRICING'' | CONTACT \<Rightarrow> ''CONTACT'' | DOWNLOAD \<Rightarrow> ''DOWNLOAD''
     | PARTNER \<Rightarrow> ''PARTNER'' | AFFILIATE \<Rightarrow> ''AFFILIATE'' | AUTH_LOGIN \<Rightarrow> ''AUTH_LOGIN'' | AUTH_REGISTER \<Rightarrow> ''AUTH_REGISTER''
     | AUTH_FORGOT_PASSWORD \<Rightarrow> ''AUTH_FORGOT_PASSWORD'' | AUTH_VERIFY_OR_STATUS \<Rightarrow> ''AUTH_VERIFY_OR_STATUS''
     | BLOG_INDEX \<Rightarrow> ''BLOG_INDEX'' | BLOG_DETAIL \<Rightarrow> ''BLOG_DETAIL'' | USE_CASE_INDEX \<Rightarrow> ''USE_CASE_INDEX''
     | USE_CASE_DETAIL \<Rightarrow> ''USE_CASE_DETAIL'' | COMPARISON_DETAIL \<Rightarrow> ''COMPARISON_DETAIL'' | LEGAL_TEXT \<Rightarrow> ''LEGAL_TEXT''
     | ERROR_4XX \<Rightarrow> ''ERROR_4XX'' | ERROR_5XX \<Rightarrow> ''ERROR_5XX'' | UNKNOWN_ROLE \<Rightarrow> ''UNKNOWN'')"

definition group_key :: "semantic_role \<Rightarrow> string \<Rightarrow> string \<Rightarrow> string" where
  "group_key role template hint = role_text role @ [CHR 0x0A] @ template @ [CHR 0x0A] @ hint"

definition contender_key :: "design_contender \<Rightarrow> string" where
  "contender_key c = group_key (dc_role c) (dc_template c) (dx_hint c)"

definition canonical_loss :: "design_env \<Rightarrow> string \<Rightarrow> design_contender \<Rightarrow> design_rejection" where
  "canonical_loss E rootOrigin c = rejection (dc_page c) (dc_url c)
     (if sameOriginCanonical E (dp_canonical (dc_page c)) rootOrigin \<noteq> None then CANONICAL_DUPLICATE else TRACKING_OR_QUERY_VARIANT)"

definition template_loss :: "design_contender \<Rightarrow> design_rejection" where
  "template_loss c = rejection (dc_page c) (dc_url c) SEMANTIC_TEMPLATE_DUPLICATE"

fun remove_first :: "('a \<Rightarrow> bool) \<Rightarrow> 'a list \<Rightarrow> 'a list" where
  "remove_first P [] = []"
| "remove_first P (x # xs) = (if P x then xs else x # remove_first P xs)"

definition bound_selection :: "design_env \<Rightarrow> design_page list \<Rightarrow> design_candidate list \<times> design_rejection list
    \<Rightarrow> design_candidate list \<times> design_rejection list" where
  "bound_selection E ordered = (\<lambda>(selected, rejected).
     let bounded = last ordered
     in (remove_first (\<lambda>c. dp_id (dc_page c) = dp_id bounded) selected,
         remove_first (\<lambda>r. dp_id (dr_page r) = dp_id bounded) rejected
           @ [rejection bounded (safeNormalize (de_web E) (raw_page_url bounded)) BUDGET_LIMITED]))"

definition choose_pages :: "design_env \<Rightarrow> string \<Rightarrow> design_contender list \<Rightarrow> design_rejection list
    \<Rightarrow> design_candidate list \<times> design_rejection list" where
  "choose_pages E rootOrigin candidates rejected =
     (let (canonical_winners, canonical_losers) = competition dx_identity (js_sort (candidateOrder E) candidates);
          (group_winners, group_losers) = competition contender_key (js_sort (candidateOrder E) canonical_winners)
      in (map design_candidate.truncate (js_sort (\<lambda>l r. pageOrder E (dc_page l) (dc_page r)) group_winners),
          rejected @ map (canonical_loss E rootOrigin) canonical_losers @ map template_loss group_losers))"

definition selectDesignPages :: "design_env \<Rightarrow> string \<Rightarrow> design_page list \<Rightarrow> bool \<Rightarrow> design_selection option" where
  "selectDesignPages E rootUrl pages budgetLimited =
     Option.bind (normalizeDesignUrl (de_web E) rootUrl) (\<lambda>normalizedRoot.
     Option.bind (map_option (origin (de_web E)) (parse_url (de_web E) normalizedRoot)) (\<lambda>rootOrigin.
     let ordered = js_sort (pageOrder E) pages;
         rootPage = find (\<lambda>p. safeNormalize (de_web E) (raw_page_url p) = normalizedRoot) ordered
     in Option.bind (inferRootLocale E normalizedRoot rootPage) (\<lambda>locale.
        Option.bind (consider_pages E rootOrigin locale ordered) (\<lambda>(rejected, candidates).
          let chosen = choose_pages E rootOrigin candidates rejected;
              (selected, refused) = (if budgetLimited \<and> 1 < length ordered then bound_selection E ordered chosen else chosen)
          in Some \<lparr> sel_locale = locale, sel_discovered = length pages, sel_selected = selected,
               sel_rejected = js_sort (\<lambda>l r. pageOrder E (dr_page l) (dr_page r)) refused \<rparr>))))"

definition describeDesignPage :: "design_env \<Rightarrow> string \<Rightarrow> design_page \<Rightarrow> design_candidate option" where
  "describeDesignPage E rootUrl page =
     Option.bind (normalizeDesignUrl (de_web E) (raw_page_url page)) (\<lambda>normalizedUrl.
     Option.bind (Option.bind (normalizeDesignUrl (de_web E) rootUrl) (parse_url (de_web E))) (\<lambda>root.
     let rootLocale = coalesce (or_else (localeFromPath E root) (normalizeLocale E (Some (dp_html_lang page)))) ''und''
     in Option.bind (Option.bind (parse_url (de_web E) normalizedUrl) (\<lambda>u. inferPageLocale E u page)) (\<lambda>locale.
        Option.bind (classifySemanticRole E normalizedUrl (dp_status page) (dp_h1 page)) (\<lambda>role.
          map_option (\<lambda>template. \<lparr> dc_page = page, dc_url = normalizedUrl,
              dc_locale = (if locale = ''und'' then rootLocale else locale), dc_role = role, dc_template = template \<rparr>)
            (inferRouteTemplate E normalizedUrl role rootLocale)))))"

end
