(* ===== verification/Design_Properties.thy ===== *)
theory Design_Properties
  imports Design_Pages
begin

text \<open>
  What the selection of representative pages guarantees: it is a partition of the crawled pages, and no
  two selected pages share a semantic role, a route template and a layout hint.
\<close>

section \<open>Definedness\<close>

definition printed :: "web \<Rightarrow> string \<Rightarrow> bool" where
  "printed W s \<longleftrightarrow> (\<exists>u. s = href W u)"

definition reparses :: "web \<Rightarrow> bool" where
  "reparses W \<longleftrightarrow> (\<forall>u. parse_url W (href W u) \<noteq> None)"

lemma normalizeDesignUrl_printed: "normalizeDesignUrl W raw = Some s \<Longrightarrow> printed W s"
  by (auto simp: normalizeDesignUrl_def printed_def Let_def)

lemma normalizeDesignUrl_defined: "parse_url W raw \<noteq> None \<Longrightarrow> normalizeDesignUrl W raw \<noteq> None"
  by (simp add: normalizeDesignUrl_def)

lemma printed_parses: "reparses W \<Longrightarrow> printed W s \<Longrightarrow> parse_url W s \<noteq> None"
  by (auto simp: reparses_def printed_def)

lemma printed_strips: "reparses W \<Longrightarrow> printed W s \<Longrightarrow> stripQuery W s \<noteq> None"
  using printed_parses [of W s] by (simp add: stripQuery_def)

lemma bind_defined: "m \<noteq> None \<Longrightarrow> (\<And>x. m = Some x \<Longrightarrow> f x \<noteq> None) \<Longrightarrow> Option.bind m f \<noteq> None"
  by (cases m) auto

lemma design_identity_defined:
  assumes "reparses (de_web E)" "printed (de_web E) s"
  shows "design_identity E s \<noteq> None"
  unfolding design_identity_def
  by (rule bind_defined [OF normalizeDesignUrl_defined [OF printed_parses [OF assms]]])
     (rule printed_strips [OF assms(1) normalizeDesignUrl_printed])

lemma localeFromHreflang_defined: "reparses (de_web E) \<Longrightarrow> localeFromHreflang E u hs \<noteq> None"
  using design_identity_defined [of E "href (de_web E) u"] by (auto simp: localeFromHreflang_def printed_def)

lemma inferPageLocale_defined: "reparses (de_web E) \<Longrightarrow> inferPageLocale E u page \<noteq> None"
  using localeFromHreflang_defined [of E u "dp_hreflang page"] by (auto simp: inferPageLocale_def split: option.split)

lemma inferRootLocale_defined:
  assumes "reparses (de_web E)" "printed (de_web E) s"
  shows "inferRootLocale E s page \<noteq> None"
  unfolding inferRootLocale_def
proof (rule bind_defined [OF printed_parses [OF assms]])
  show "(case or_else (localeFromPath E u) (or_else (normalizeLocale E (map_option dp_html_lang page))
          (localeFromCanonical E (map_option dp_canonical page) (origin (de_web E) u))) of
         Some loc \<Rightarrow> Some loc
       | None \<Rightarrow> map_option (\<lambda>l. coalesce l ''und'')
           (localeFromHreflang E u (case page of None \<Rightarrow> [] | Some p \<Rightarrow> dp_hreflang p))) \<noteq> None" for u
    using localeFromHreflang_defined [OF assms(1), of u] by (auto split: option.split)
qed

lemma contender_defined:
  assumes r: "reparses (de_web E)" and n: "printed (de_web E) normalizedUrl"
  shows "contender_of E ro loc page u normalizedUrl pageLocale \<noteq> None"
proof -
  note parsed = printed_parses [OF r n]
  have role: "classifySemanticRole E normalizedUrl (dp_status page) (dp_h1 page) \<noteq> None"
    using parsed by (simp add: classifySemanticRole_def)
  have template: "inferRouteTemplate E normalizedUrl x loc \<noteq> None" for x
    using parsed by (simp add: inferRouteTemplate_def)
  have "printed (de_web E) (coalesce (sameOriginCanonical E (dp_canonical page) ro) normalizedUrl)"
  proof (cases "sameOriginCanonical E (dp_canonical page) ro")
    case None
    with n show ?thesis by simp
  next
    case (Some c)
    then have "printed (de_web E) c"
      by (auto simp: sameOriginCanonical_def bind_eq_Some_conv intro: normalizeDesignUrl_printed split: if_splits)
    with Some show ?thesis by simp
  qed
  from printed_strips [OF r this] printed_strips [OF r n] show ?thesis
    unfolding contender_of_def Let_def by (intro bind_defined role template) auto
qed

lemma consider_page_defined: "reparses (de_web E) \<Longrightarrow> consider_page E ro loc page \<noteq> None"
proof -
  assume r: "reparses (de_web E)"
  show ?thesis
  proof (cases "parse_url (de_web E) (raw_page_url page)")
    case None
    then show ?thesis by (simp add: consider_page_def)
  next
    case (Some u)
    from Some obtain n where n: "normalizeDesignUrl (de_web E) (raw_page_url page) = Some n"
      using normalizeDesignUrl_defined [of "de_web E" "raw_page_url page"] by auto
    obtain l where l: "inferPageLocale E u page = Some l" using inferPageLocale_defined [OF r, of u page] by auto
    obtain c where c: "contender_of E ro loc page u n l = Some c"
      using contender_defined [OF r normalizeDesignUrl_printed [OF n]] by blast
    show ?thesis by (simp add: consider_page_def Let_def Some n l c)
  qed
qed

lemma consider_pages_defined: "reparses (de_web E) \<Longrightarrow> consider_pages E ro loc ps \<noteq> None"
proof (induction ps)
  case (Cons p ps)
  then show ?case using consider_page_defined [OF Cons.prems, of ro loc p] by auto
qed simp

section \<open>A partition of the pages\<close>

lemma contender_fields:
  assumes "contender_of E ro loc page u n l = Some c"
  shows "dc_page c = page \<and> dx_hint c = staticLayoutHint page"
  using assms by (auto simp: contender_of_def Let_def bind_eq_Some_conv)

definition accounted :: "design_page \<Rightarrow> design_rejection + design_contender \<Rightarrow> bool" where
  "accounted page r = (case r of Inl x \<Rightarrow> dr_page x = page | Inr c \<Rightarrow> dc_page c = page \<and> dx_hint c = staticLayoutHint page)"

lemma consider_page_fields: "consider_page E ro loc page = Some r \<Longrightarrow> accounted page r"
  by (auto simp: consider_page_def Let_def bind_eq_Some_conv rejection_def accounted_def dest: contender_fields
      split: option.splits if_splits)

lemma consider_pages_partition:
  assumes "consider_pages E ro loc ps = Some (rs, cs)"
  shows "mset (map dr_page rs) + mset (map dc_page cs) = mset ps \<and> (\<forall>c \<in> set cs. dx_hint c = staticLayoutHint (dc_page c))"
  using assms
proof (induction ps arbitrary: rs cs)
  case (Cons p ps)
  then obtain r rs' cs' where r: "consider_page E ro loc p = Some r" and rest: "consider_pages E ro loc ps = Some (rs', cs')"
    and split: "(rs, cs) = (case r of Inl x \<Rightarrow> (x # rs', cs') | Inr c \<Rightarrow> (rs', c # cs'))"
    by (auto simp: bind_eq_Some_conv)
  from Cons.IH [OF rest] split consider_page_fields [OF r] show ?case by (cases r) (auto simp: accounted_def)
qed simp

lemma compete_fold:
  assumes "fold (compete key) xs (w, l) = (w', l')" "distinct (map key w)"
  shows "mset w' + mset l' = mset w + mset l + mset xs \<and> distinct (map key w')"
  using assms
proof (induction xs arbitrary: w l)
  case (Cons x xs)
  show ?case
  proof (cases "key x \<in> key ` set w")
    case True
    with Cons.prems Cons.IH [of w "l @ [x]"] show ?thesis by (simp add: compete_def)
  next
    case False
    with Cons.prems Cons.IH [of "w @ [x]" l] show ?thesis by (simp add: compete_def)
  qed
qed simp

lemma competition_partition:
  assumes "competition key xs = (w, l)"
  shows "mset w + mset l = mset xs" "distinct (map key w)"
  using compete_fold [of key xs "[]" "[]" w l] assms by (simp_all add: competition_def)

lemma mset_image_partition: "mset w + mset l = mset xs \<Longrightarrow> mset (map f w) + mset (map f l) = mset (map f xs)"
  by (metis image_mset_union mset_map)

lemma truncate_fields [simp]:
  "dc_page (design_candidate.truncate c) = dc_page c" "dc_role (design_candidate.truncate c) = dc_role c"
  "dc_template (design_candidate.truncate c) = dc_template c"
  by (simp_all add: design_candidate.defs)

definition candidate_key :: "design_candidate \<Rightarrow> string" where
  "candidate_key c = group_key (dc_role c) (dc_template c) (staticLayoutHint (dc_page c))"

lemma choose_pages_partition:
  assumes hints: "\<forall>c \<in> set cs. dx_hint c = staticLayoutHint (dc_page c)"
    and chosen: "choose_pages E ro cs rs = (selected, refused)"
  shows "mset (map dc_page selected) + mset (map dr_page refused) = mset (map dr_page rs) + mset (map dc_page cs)"
    and "distinct (map candidate_key selected)"
proof -
  obtain cw cl where c: "competition dx_identity (js_sort (candidateOrder E) cs) = (cw, cl)" by fastforce
  obtain gw gl where g: "competition contender_key (js_sort (candidateOrder E) cw) = (gw, gl)" by fastforce
  from chosen c g have sel: "selected = map design_candidate.truncate (js_sort (\<lambda>l r. pageOrder E (dc_page l) (dc_page r)) gw)"
    and ref: "refused = rs @ map (canonical_loss E ro) cl @ map template_loss gl"
    by (simp_all add: choose_pages_def)
  note mc = competition_partition(1) [OF c, unfolded mset_js_sort] and mg = competition_partition(1) [OF g, unfolded mset_js_sort]
  have pages: "mset (map dc_page selected) = mset (map dc_page gw)"
  proof -
    have "map dc_page selected = map dc_page (js_sort (\<lambda>l r. pageOrder E (dc_page l) (dc_page r)) gw)" by (simp add: sel)
    then show ?thesis by simp
  qed
  have lost: "map dr_page refused = map dr_page rs @ map dc_page cl @ map dc_page gl"
    by (simp add: ref canonical_loss_def template_loss_def rejection_def)
  show "mset (map dc_page selected) + mset (map dr_page refused) = mset (map dr_page rs) + mset (map dc_page cs)"
    using mset_image_partition [OF mc, of dc_page] mset_image_partition [OF mg, of dc_page]
    unfolding pages lost by (simp add: ac_simps)
  have "set gw \<subseteq> set cs" using mc mg by (metis mset_subset_eq_add_left order.trans set_mset_mono set_mset_mset)
  with hints have keys: "candidate_key (design_candidate.truncate c) = contender_key c" if "c \<in> set gw" for c
    using that by (auto simp: candidate_key_def contender_key_def)
  let ?sorted = "js_sort (\<lambda>l r. pageOrder E (dc_page l) (dc_page r)) gw"
  have "map candidate_key selected = map contender_key ?sorted" using keys by (simp add: sel)
  moreover have "distinct (map contender_key ?sorted)"
    using competition_partition(2) [OF g] by (metis mset_eq_imp_distinct_iff mset_js_sort mset_map)
  ultimately show "distinct (map candidate_key selected)" by simp
qed

lemma map_remove_first:
  "(\<And>x. x \<in> set xs \<Longrightarrow> P x \<longleftrightarrow> f x = b) \<Longrightarrow> map f (remove_first P xs) = remove1 b (map f xs)"
  by (induction xs) auto

lemma distinct_remove_first: "distinct (map f xs) \<Longrightarrow> distinct (map f (remove_first P xs))"
proof (induction xs)
  case (Cons x xs)
  have "set (remove_first P xs) \<subseteq> set xs" by (induction xs) auto
  with Cons show ?case by auto
qed simp

lemma bound_selection_partition:
  assumes ids: "distinct (map dp_id ordered)" and ne: "ordered \<noteq> []"
    and parts: "mset (map dc_page selected) + mset (map dr_page refused) = mset ordered"
    and bounded: "bound_selection E ordered (selected, refused) = (selected', refused')"
  shows "mset (map dc_page selected') + mset (map dr_page refused') = mset ordered"
proof -
  let ?b = "last ordered"
  have mem: "set (map dc_page selected) \<subseteq> set ordered" "set (map dr_page refused) \<subseteq> set ordered"
    using arg_cong [OF parts, of set_mset] by auto
  have b: "?b \<in> set ordered" using ne by simp
  have id: "dp_id p = dp_id ?b \<longleftrightarrow> p = ?b" if "p \<in> set ordered" for p
    using ids b that by (auto simp: distinct_map inj_on_def)
  have s: "map dc_page selected' = remove1 ?b (map dc_page selected)"
    and r: "map dr_page refused' = remove1 ?b (map dr_page refused) @ [?b]"
    using bounded mem id unfolding bound_selection_def Let_def rejection_def
    by (fastforce intro!: map_remove_first)+
  have "distinct ordered" using ids by (simp add: distinct_map)
  with b have one: "count (mset ordered) ?b = 1" by (simp add: distinct_count_atmost_1)
  show ?thesis
  proof (rule multiset_eqI)
    fix p
    have "count (mset ordered) p = count (mset (map dc_page selected)) p + count (mset (map dr_page refused)) p"
      using parts by (metis count_union)
    with one show "count (mset (map dc_page selected') + mset (map dr_page refused')) p = count (mset ordered) p"
      unfolding s r by auto
  qed
qed

text \<open>
  C34. For every list of crawled pages with distinct identifiers and a root URL that parses, the selection
  is defined and is a partition: every page is either selected or rejected with a reason, never both, also
  when the page budget was hit; and no two selected pages have the same role, route template and layout
  hint. The hypothesis on the platform is that a printed URL can be parsed again.
\<close>

theorem selection_partitions:
  assumes "reparses (de_web E)" "parse_url (de_web E) rootUrl \<noteq> None" "distinct (map dp_id pages)"
  shows "\<exists>s. selectDesignPages E rootUrl pages budgetLimited = Some s \<and> sel_discovered s = length pages
    \<and> mset (map dc_page (sel_selected s)) + mset (map dr_page (sel_rejected s)) = mset pages
    \<and> distinct (map candidate_key (sel_selected s))"
proof -
  let ?W = "de_web E"
  obtain root where root: "normalizeDesignUrl ?W rootUrl = Some root"
    using normalizeDesignUrl_defined [OF assms(2)] by auto
  note p = normalizeDesignUrl_printed [OF root]
  obtain u where u: "parse_url ?W root = Some u" using printed_parses [OF assms(1) p] by auto
  define ordered where "ordered = js_sort (pageOrder E) pages"
  define rootPage where "rootPage = find (\<lambda>p. safeNormalize ?W (raw_page_url p) = root) ordered"
  obtain loc where l: "inferRootLocale E root rootPage = Some loc"
    using inferRootLocale_defined [OF assms(1) p, of rootPage] by auto
  obtain rs cs where c: "consider_pages E (origin ?W u) loc ordered = Some (rs, cs)"
    using consider_pages_defined [OF assms(1), of "origin ?W u" loc ordered] by auto
  obtain selected refused where ch: "choose_pages E (origin ?W u) cs rs = (selected, refused)" by fastforce
  define final where "final = (if budgetLimited \<and> 1 < length ordered then bound_selection E ordered (selected, refused) else (selected, refused))"
  obtain selected' refused' where f: "final = (selected', refused')" by fastforce
  note part = consider_pages_partition [OF c]
  note choice = choose_pages_partition [OF conjunct2 [OF part] ch]
  have parts: "mset (map dc_page selected) + mset (map dr_page refused) = mset ordered" using choice(1) part by simp
  have ids: "distinct (map dp_id ordered)"
    unfolding ordered_def using assms(3) by (metis mset_eq_imp_distinct_iff mset_js_sort mset_map)
  have all: "mset (map dc_page selected') + mset (map dr_page refused') = mset ordered"
  proof (cases "budgetLimited \<and> 1 < length ordered")
    case True
    with f have "bound_selection E ordered (selected, refused) = (selected', refused')" by (simp add: final_def)
    moreover from True have "ordered \<noteq> []" by auto
    ultimately show ?thesis by (rule bound_selection_partition [OF ids _ parts, rotated])
  next
    case False
    with f have "selected' = selected" "refused' = refused" unfolding final_def by (metis prod.inject)+
    with parts show ?thesis by simp
  qed
  have keys: "distinct (map candidate_key selected')"
    using f choice(2) distinct_remove_first [OF choice(2)]
    by (auto simp: final_def bound_selection_def Let_def split: if_splits)
  have "selectDesignPages E rootUrl pages budgetLimited = Some \<lparr> sel_locale = loc, sel_discovered = length pages,
      sel_selected = selected', sel_rejected = js_sort (\<lambda>l r. pageOrder E (dr_page l) (dr_page r)) refused' \<rparr>"
    using root u l c ch f unfolding selectDesignPages_def final_def ordered_def rootPage_def by (auto simp: Let_def split: if_splits)
  moreover have "mset (map dr_page (js_sort (\<lambda>l r. pageOrder E (dr_page l) (dr_page r)) refused')) = mset (map dr_page refused')"
    by simp
  ultimately show ?thesis using all keys by (simp add: ordered_def)
qed

definition design_web :: web where
  "design_web = (let page = (\<lambda>s. \<lparr> u_protocol = ''https:'', u_username = [], u_password = [], u_host = ''a'', u_hostname = ''a'',
       u_port = [], u_pathname = s, u_search = [], u_hash = [] \<rparr>)
     in \<lparr> parse_url = (\<lambda>s. Some (page s)), resolve_url = (\<lambda>s b. Some (page s)), href = u_pathname, origin = u_host,
          query_of = (\<lambda>s. []), query_text = (\<lambda>q. []) \<rparr>)"

definition demo_design :: design_env where
  "demo_design = \<lparr> de_web = design_web, de_collate = (\<lambda>a b. int (length a) - int (length b)), de_language = (\<lambda>l. True),
     de_html = (\<lambda>s. None), de_sha = (\<lambda>s. s) \<rparr>"

definition demo_page :: "string \<Rightarrow> string \<Rightarrow> design_page" where
  "demo_page i u = \<lparr> dp_id = i, dp_url = u, dp_final_url = None, dp_outcome = CRAWL_SUCCESS, dp_status = 200,
     dp_content_type = ''text/html'', dp_canonical = [], dp_html_lang = [], dp_hreflang = [], dp_h1 = [], dp_h2 = [],
     dp_schema_types = [], dp_scripts = 0, dp_stylesheets = 0 \<rparr>"

definition demo_pages :: "design_page list" where
  "demo_pages = [demo_page ''1'' ''/'', demo_page ''2'' ''/blog/first'', demo_page ''3'' ''/blog/other'', demo_page ''4'' ''/x.pdf'']"

theorem selection_partitions_witness:
  "\<exists>s. selectDesignPages demo_design ''/'' demo_pages True = Some s \<and> sel_discovered s = 4
    \<and> mset (map dc_page (sel_selected s)) + mset (map dr_page (sel_rejected s)) = mset demo_pages
    \<and> distinct (map candidate_key (sel_selected s))"
proof -
  have "reparses (de_web demo_design)" "parse_url (de_web demo_design) ''/'' \<noteq> None" "distinct (map dp_id demo_pages)"
    and n: "length demo_pages = 4"
    by (simp_all add: reparses_def demo_design_def design_web_def Let_def demo_pages_def demo_page_def)
  from selection_partitions [OF this(1-3), of True] n show ?thesis by simp
qed

lemma demo_selection:
  "map_option (\<lambda>s. (map (dp_id \<circ> dc_page) (sel_selected s), map (dp_id \<circ> dr_page) (sel_rejected s)))
     (selectDesignPages demo_design ''/'' demo_pages False) = Some ([''1'', ''2''], [''4'', ''3''])"
  by code_simp

end
