(* ===== verification/Site_Bundles.thy ===== *)
theory Site_Bundles
  imports Archive_Paths Web_Urls
begin

text \<open>
  The bundle of a rendered page as it is stored between rendering and assembly
  (\<open>capture-worker/src/site-archive.ts\<close>, \<open>encodeSiteBundle\<close> and \<open>decodeSiteBundle\<close>): a JSON document with the
  bodies in base64. The text of a JSON value is a parameter; base64 is that of \<open>Buffer\<close>, bytes are characters.
\<close>

section \<open>Base64\<close>

definition b64_alphabet :: string where
  "b64_alphabet = ''ABCDEFGHIJKLMNOPQRSTUVWXYZabcdefghijklmnopqrstuvwxyz0123456789+/''"

definition b64_char :: "nat \<Rightarrow> char" where
  "b64_char n = b64_alphabet ! n"

text \<open>The decoder also takes the two characters of the URL alphabet.\<close>

definition b64_value :: "char \<Rightarrow> nat option" where
  "b64_value c = (if c = CHR ''-'' then Some 62 else if c = CHR ''_'' then Some 63
     else map_option fst (find (\<lambda>p. snd p = c) (enumerate 0 b64_alphabet)))"

fun sextets :: "nat list \<Rightarrow> nat list" where
  "sextets (a # b # c # bs) = [a div 4, a mod 4 * 16 + b div 16, b mod 16 * 4 + c div 64, c mod 64] @ sextets bs"
| "sextets [a, b] = [a div 4, a mod 4 * 16 + b div 16, b mod 16 * 4]"
| "sextets [a] = [a div 4, a mod 4 * 16]"
| "sextets [] = []"

definition b64_padding :: "nat \<Rightarrow> string" where
  "b64_padding n = (if n mod 3 = 1 then ''=='' else if n mod 3 = 2 then ''='' else [])"

definition b64_encode :: "string \<Rightarrow> string" where
  "b64_encode s = map b64_char (sextets (map of_char s)) @ b64_padding (length s)"

fun octets :: "nat list \<Rightarrow> nat list" where
  "octets (a # b # c # d # ns) = [a * 4 + b div 16, b mod 16 * 16 + c div 4, c mod 4 * 64 + d] @ octets ns"
| "octets [a, b, c] = [a * 4 + b div 16, b mod 16 * 16 + c div 4]"
| "octets [a, b] = [a * 4 + b div 16]"
| "octets _ = []"

text \<open>The text ends at a padding character; characters outside the alphabets are skipped.\<close>

definition b64_decode :: "string \<Rightarrow> string" where
  "b64_decode t = map char_of (octets (List.map_filter b64_value (takeWhile (\<lambda>c. c \<noteq> CHR ''='') t)))"

lemma b64_values: "list_all (\<lambda>n. b64_value (b64_char n) = Some n \<and> b64_char n \<noteq> CHR ''='') [0..<64]"
  by code_simp

lemma b64_value_char [simp]: "n < 64 \<Longrightarrow> b64_value (b64_char n) = Some n"
  and b64_char_no_padding: "n < 64 \<Longrightarrow> b64_char n \<noteq> CHR ''=''"
  using b64_values by (simp_all add: list_all_iff)

lemma sextets_bounded: "\<forall>b \<in> set bs. b < 256 \<Longrightarrow> \<forall>n \<in> set (sextets bs). n < 64"
  by (induction bs rule: sextets.induct) auto

lemma joined: "y < m \<Longrightarrow> (x * m + y) div m = (x :: nat)" "y < m \<Longrightarrow> (x * m + y) mod m = y"
  by simp_all

lemma octets_sextets: "\<forall>b \<in> set bs. b < 256 \<Longrightarrow> octets (sextets bs) = bs"
proof (induction bs rule: sextets.induct)
  case (1 a b c bs)
  then have "b div 16 < 16" "c div 64 < 4" by auto
  with 1 show ?case by (simp add: joined)
next
  case (2 a b)
  then have "b div 16 < 16" by auto
  then show ?case by (simp add: joined)
qed simp_all

lemma map_filter_values: "\<forall>n \<in> set ns. n < 64 \<Longrightarrow> List.map_filter b64_value (map b64_char ns) = ns"
  by (induction ns) (simp_all add: List.map_filter_simps)

theorem b64_roundtrip: "b64_decode (b64_encode s) = s"
proof -
  have bytes: "\<forall>b \<in> set (map of_char s). b < (256 :: nat)"
    by (metis (no_types, lifting) imageE list.set_map mod_less_divisor of_char_mod_256 zero_less_numeral)
  note sx = sextets_bounded [OF bytes]
  then have free: "\<forall>c \<in> set (map b64_char (sextets (map of_char s))). c \<noteq> CHR ''=''"
    by (auto simp: b64_char_no_padding)
  have "takeWhile (\<lambda>c. c \<noteq> CHR ''='') (b64_padding n) = []" for n by (simp add: b64_padding_def)
  with free have "takeWhile (\<lambda>c. c \<noteq> CHR ''='') (b64_encode s) = map b64_char (sextets (map of_char s))"
    by (auto simp: b64_encode_def takeWhile_append2 simp del: set_map)
  then show ?thesis
    by (simp add: b64_decode_def map_filter_values [OF sx] octets_sextets [OF bytes] o_def del: map_map) (simp add: o_def)
qed

section \<open>JSON documents\<close>

text \<open>Numbers that are not integers are kept by their text.\<close>

datatype json = JNull | JBool bool | JInt int | JFraction string | JStr string | JArr "json list" | JObj "(string \<times> json) list"

record json_codec =
  json_text :: "json \<Rightarrow> string"
  json_parse :: "string \<Rightarrow> json option"

datatype bundle_error = SYNTAX_ERROR | TYPE_ERROR | INVALID_SITE_PAGE_BUNDLE | INVALID_SITE_PAGE_RESOURCE_GAPS
  | INVALID_SITE_PAGE_DESIGN_METADATA | BUNDLE_PATH path_error

text \<open>A property of a value: \<open>undefined\<close> is \<open>None\<close>, and reading one of \<open>null\<close> is a \<open>TypeError\<close>.\<close>

definition prop_of :: "string \<Rightarrow> json \<Rightarrow> json option" where
  "prop_of k j = (case j of JObj entries \<Rightarrow> map_of entries k | _ \<Rightarrow> None)"

definition string_of :: "json option \<Rightarrow> string option" where
  "string_of j = (case j of Some (JStr s) \<Rightarrow> Some s | _ \<Rightarrow> None)"

definition need_string :: "'e \<Rightarrow> string \<Rightarrow> json \<Rightarrow> 'e + string" where
  "need_string e k j = (case string_of (prop_of k j) of None \<Rightarrow> Inl e | Some s \<Rightarrow> Inr s)"

definition bounded_string :: "'e \<Rightarrow> nat \<Rightarrow> string \<Rightarrow> json \<Rightarrow> 'e + string" where
  "bounded_string e n k j = rbind (need_string e k j) (\<lambda>s. if length s \<le> n then Inr s else Inl e)"

section \<open>Bundles\<close>

datatype bundle_kind = KIND_DOCUMENT | KIND_RESOURCE

record page_file =
  pf_kind :: bundle_kind
  pf_local_path :: string
  pf_source_url :: string
  pf_content_type :: string
  pf_body :: string

record page_gap =
  pg_source_url :: string
  pg_resource_type :: string
  pg_reason :: string

record page_design =
  pd_locale :: string
  pd_role :: string
  pd_template :: string
  pd_fingerprint :: "string option"
  pd_version :: string

record site_page_bundle =
  sx_page_id :: string
  sx_source_final_url :: string
  sx_public_final_url :: string
  sx_main_path :: string
  sx_captured_at :: string
  sx_gaps :: "page_gap list option"
  sx_design :: "page_design option"
  sx_files :: "page_file list"

definition layout_fingerprint_version :: string where
  "layout_fingerprint_version = ''dom-structure-v1''"

section \<open>\<open>encodeSiteBundle\<close>\<close>

definition kind_text :: "bundle_kind \<Rightarrow> string" where
  "kind_text k = (case k of KIND_DOCUMENT \<Rightarrow> ''DOCUMENT'' | KIND_RESOURCE \<Rightarrow> ''RESOURCE'')"

definition file_json :: "page_file \<Rightarrow> json" where
  "file_json f = JObj
     [(''kind'', JStr (kind_text (pf_kind f))), (''localPath'', JStr (pf_local_path f)), (''sourceUrl'', JStr (pf_source_url f)),
      (''contentType'', JStr (pf_content_type f)), (''bodyBase64'', JStr (b64_encode (pf_body f)))]"

definition gap_json :: "page_gap \<Rightarrow> json" where
  "gap_json g = JObj [(''sourceUrl'', JStr (pg_source_url g)), (''resourceType'', JStr (pg_resource_type g)), (''reason'', JStr (pg_reason g))]"

definition design_json :: "page_design \<Rightarrow> json" where
  "design_json d = JObj
     [(''locale'', JStr (pd_locale d)), (''semanticRole'', JStr (pd_role d)), (''routeTemplate'', JStr (pd_template d)),
      (''layoutFingerprint'', case pd_fingerprint d of None \<Rightarrow> JNull | Some h \<Rightarrow> JStr h),
      (''layoutFingerprintVersion'', JStr (pd_version d))]"

definition optional_field :: "string \<Rightarrow> json option \<Rightarrow> (string \<times> json) list" where
  "optional_field k v = (case v of None \<Rightarrow> [] | Some j \<Rightarrow> [(k, j)])"

definition bundle_json :: "site_page_bundle \<Rightarrow> json" where
  "bundle_json b = JObj
     ([(''schemaVersion'', JInt 1), (''pageId'', JStr (sx_page_id b)), (''sourceFinalUrl'', JStr (sx_source_final_url b)),
       (''publicFinalUrl'', JStr (sx_public_final_url b)), (''mainPath'', JStr (sx_main_path b)), (''capturedAt'', JStr (sx_captured_at b))]
      @ optional_field ''resourceGaps'' (map_option (\<lambda>gs. JArr (map gap_json gs)) (sx_gaps b))
      @ optional_field ''design'' (map_option design_json (sx_design b))
      @ [(''files'', JArr (map file_json (sx_files b)))])"

definition encodeSiteBundle :: "json_codec \<Rightarrow> site_page_bundle \<Rightarrow> string" where
  "encodeSiteBundle C b = json_text C (bundle_json b)"

section \<open>\<open>decodeSiteBundle\<close>\<close>

fun traverse :: "('a \<Rightarrow> 'e + 'b) \<Rightarrow> 'a list \<Rightarrow> 'e + 'b list" where
  "traverse f [] = Inr []"
| "traverse f (x # xs) = rbind (f x) (\<lambda>y. rbind (traverse f xs) (\<lambda>ys. Inr (y # ys)))"

definition safe_path :: "string \<Rightarrow> bundle_error + string" where
  "safe_path p = (case safeArchivePath p of Inl e \<Rightarrow> Inl (BUNDLE_PATH e) | Inr q \<Rightarrow> Inr q)"

definition decode_kind :: "json option \<Rightarrow> bundle_error + bundle_kind" where
  "decode_kind j = (if j = Some (JStr ''DOCUMENT'') then Inr KIND_DOCUMENT
     else if j = Some (JStr ''RESOURCE'') then Inr KIND_RESOURCE else Inl INVALID_SITE_PAGE_BUNDLE)"

definition decode_file :: "json \<Rightarrow> bundle_error + page_file" where
  "decode_file j = (if j = JNull then Inl TYPE_ERROR else
     rbind (decode_kind (prop_of ''kind'' j)) (\<lambda>kind.
     rbind (need_string INVALID_SITE_PAGE_BUNDLE ''localPath'' j) (\<lambda>path.
     rbind (need_string INVALID_SITE_PAGE_BUNDLE ''sourceUrl'' j) (\<lambda>source.
     rbind (need_string INVALID_SITE_PAGE_BUNDLE ''contentType'' j) (\<lambda>type.
     rbind (need_string INVALID_SITE_PAGE_BUNDLE ''bodyBase64'' j) (\<lambda>text.
       let body = b64_decode text
       in if body = [] \<or> 52428800 < length body then Inl INVALID_SITE_PAGE_BUNDLE
          else rbind (safe_path path) (\<lambda>safe. Inr \<lparr> pf_kind = kind, pf_local_path = safe, pf_source_url = source,
                 pf_content_type = type, pf_body = body \<rparr>)))))))"

text \<open>\<open>/^[A-Z][A-Z0-9_]{0,63}$/u\<close> and \<open>/^[0-9a-f]{64}$/u\<close>.\<close>

definition symbolic_code :: "string \<Rightarrow> bool" where
  "symbolic_code s \<longleftrightarrow> (case s of [] \<Rightarrow> False | c # cs \<Rightarrow> upper_alpha c \<and> list_all code_char cs \<and> length cs \<le> 63)"

definition hex_digest :: "string \<Rightarrow> bool" where
  "hex_digest s \<longleftrightarrow> length s = 64 \<and> list_all (\<lambda>c. digit c \<or> between (CHR ''a'') (CHR ''f'') c) s"

definition decode_gap :: "web \<Rightarrow> json \<Rightarrow> bundle_error + page_gap" where
  "decode_gap W j =
     rbind (bounded_string INVALID_SITE_PAGE_RESOURCE_GAPS 8192 ''sourceUrl'' j) (\<lambda>source.
     rbind (bounded_string INVALID_SITE_PAGE_RESOURCE_GAPS 32 ''resourceType'' j) (\<lambda>type.
     rbind (need_string INVALID_SITE_PAGE_RESOURCE_GAPS ''reason'' j) (\<lambda>reason.
       if symbolic_code reason
       then Inr \<lparr> pg_source_url = sanitizeUrl W source, pg_resource_type = type, pg_reason = reason \<rparr>
       else Inl INVALID_SITE_PAGE_RESOURCE_GAPS)))"

definition decodeResourceGaps :: "web \<Rightarrow> json option \<Rightarrow> bundle_error + page_gap list option" where
  "decodeResourceGaps W value =
     (case value of None \<Rightarrow> Inr None
      | Some (JArr js) \<Rightarrow> if 100 < length js then Inl INVALID_SITE_PAGE_RESOURCE_GAPS
          else rbind (traverse (decode_gap W) js) (\<lambda>gs. Inr (Some gs))
      | Some _ \<Rightarrow> Inl INVALID_SITE_PAGE_RESOURCE_GAPS)"

text \<open>
  The expression is tested on the value as text: a string, or an array of one element by that element; the
  text of any other value has no 64 hexadecimal digits.
\<close>

fun hex_text :: "json \<Rightarrow> string" where
  "hex_text (JStr s) = s"
| "hex_text (JArr [j]) = hex_text j"
| "hex_text _ = []"

definition decode_fingerprint :: "json option \<Rightarrow> bundle_error + string option" where
  "decode_fingerprint j =
     (case j of Some JNull \<Rightarrow> Inr None
      | Some v \<Rightarrow> if hex_digest (hex_text v) then Inr (Some (hex_text v)) else Inl INVALID_SITE_PAGE_DESIGN_METADATA
      | None \<Rightarrow> Inl INVALID_SITE_PAGE_DESIGN_METADATA)"

definition decodeDesignMetadata :: "json option \<Rightarrow> bundle_error + page_design option" where
  "decodeDesignMetadata value =
     (case value of None \<Rightarrow> Inr None
      | Some j \<Rightarrow>
          rbind (bounded_string INVALID_SITE_PAGE_DESIGN_METADATA 35 ''locale'' j) (\<lambda>loc.
          rbind (bounded_string INVALID_SITE_PAGE_DESIGN_METADATA 64 ''semanticRole'' j) (\<lambda>role.
          rbind (bounded_string INVALID_SITE_PAGE_DESIGN_METADATA 512 ''routeTemplate'' j) (\<lambda>template.
          rbind (decode_fingerprint (prop_of ''layoutFingerprint'' j)) (\<lambda>fingerprint.
            if prop_of ''layoutFingerprintVersion'' j = Some (JStr layout_fingerprint_version)
            then Inr (Some \<lparr> pd_locale = loc, pd_role = role, pd_template = template, pd_fingerprint = fingerprint,
                   pd_version = layout_fingerprint_version \<rparr>)
            else Inl INVALID_SITE_PAGE_DESIGN_METADATA)))))"

definition decode_files :: "json option \<Rightarrow> bundle_error + page_file list" where
  "decode_files value =
     (case value of Some (JArr js) \<Rightarrow> if js = [] \<or> 101 < length js then Inl INVALID_SITE_PAGE_BUNDLE else traverse decode_file js
      | _ \<Rightarrow> Inl INVALID_SITE_PAGE_BUNDLE)"

definition decode_bundle :: "web \<Rightarrow> json \<Rightarrow> string \<Rightarrow> bundle_error + site_page_bundle" where
  "decode_bundle W j expectedPageId =
     (if j = JNull then Inl TYPE_ERROR
      else if prop_of ''schemaVersion'' j \<noteq> Some (JInt 1) \<or> prop_of ''pageId'' j \<noteq> Some (JStr expectedPageId)
      then Inl INVALID_SITE_PAGE_BUNDLE
      else
        rbind (need_string INVALID_SITE_PAGE_BUNDLE ''sourceFinalUrl'' j) (\<lambda>source.
        rbind (need_string INVALID_SITE_PAGE_BUNDLE ''publicFinalUrl'' j) (\<lambda>public'.
        rbind (need_string INVALID_SITE_PAGE_BUNDLE ''mainPath'' j) (\<lambda>main.
        rbind (need_string INVALID_SITE_PAGE_BUNDLE ''capturedAt'' j) (\<lambda>at.
        rbind (decode_files (prop_of ''files'' j)) (\<lambda>files.
        rbind (decodeDesignMetadata (prop_of ''design'' j)) (\<lambda>design.
        rbind (decodeResourceGaps W (prop_of ''resourceGaps'' j)) (\<lambda>gaps.
        rbind (safe_path main) (\<lambda>path.
          Inr \<lparr> sx_page_id = expectedPageId, sx_source_final_url = source, sx_public_final_url = public', sx_main_path = path,
            sx_captured_at = at, sx_gaps = gaps, sx_design = design, sx_files = files \<rparr>)))))))))"

definition decodeSiteBundle :: "json_codec \<Rightarrow> web \<Rightarrow> string \<Rightarrow> string \<Rightarrow> bundle_error + site_page_bundle" where
  "decodeSiteBundle C W encoded expectedPageId =
     (case json_parse C encoded of None \<Rightarrow> Inl SYNTAX_ERROR | Some j \<Rightarrow> decode_bundle W j expectedPageId)"

section \<open>Every bundle the decoder accepts was safe to store\<close>

definition file_ok :: "page_file \<Rightarrow> bool" where
  "file_ok f \<longleftrightarrow> safeArchivePath (pf_local_path f) = Inr (pf_local_path f) \<and> pf_body f \<noteq> [] \<and> length (pf_body f) \<le> 52428800"

definition gap_ok :: "page_gap \<Rightarrow> bool" where
  "gap_ok g \<longleftrightarrow> length (pg_source_url g) \<le> 8192 \<and> length (pg_resource_type g) \<le> 32 \<and> symbolic_code (pg_reason g)"

definition design_ok :: "page_design \<Rightarrow> bool" where
  "design_ok d \<longleftrightarrow> length (pd_locale d) \<le> 35 \<and> length (pd_role d) \<le> 64 \<and> length (pd_template d) \<le> 512
     \<and> all_opt hex_digest (pd_fingerprint d) \<and> pd_version d = layout_fingerprint_version"

definition bundle_ok :: "site_page_bundle \<Rightarrow> bool" where
  "bundle_ok b \<longleftrightarrow> safeArchivePath (sx_main_path b) = Inr (sx_main_path b) \<and> sx_files b \<noteq> [] \<and> length (sx_files b) \<le> 101
     \<and> list_all file_ok (sx_files b) \<and> all_opt (\<lambda>gs. length gs \<le> 100 \<and> list_all gap_ok gs) (sx_gaps b) \<and> all_opt design_ok (sx_design b)"

definition sanitized_gap :: "web \<Rightarrow> page_gap \<Rightarrow> page_gap" where
  "sanitized_gap W g = g\<lparr>pg_source_url := sanitizeUrl W (pg_source_url g)\<rparr>"

lemma traverse_map: "(\<And>x. x \<in> set xs \<Longrightarrow> f (g x) = Inr (h x)) \<Longrightarrow> traverse f (map g xs) = Inr (map h xs)"
  by (induction xs) auto

lemma decode_file_json: "file_ok f \<Longrightarrow> decode_file (file_json f) = Inr f"
  by (cases "pf_kind f")
     (auto simp: file_ok_def decode_file_def file_json_def kind_text_def decode_kind_def prop_of_def need_string_def string_of_def
       b64_roundtrip Let_def safe_path_def)

lemma decode_gap_json: "gap_ok g \<Longrightarrow> decode_gap W (gap_json g) = Inr (sanitized_gap W g)"
  by (auto simp: gap_ok_def decode_gap_def gap_json_def prop_of_def bounded_string_def need_string_def string_of_def sanitized_gap_def)

lemma decode_design_json: "design_ok d \<Longrightarrow> decodeDesignMetadata (Some (design_json d)) = Inr (Some d)"
  by (cases "pd_fingerprint d")
     (auto simp: design_ok_def decodeDesignMetadata_def design_json_def prop_of_def bounded_string_def need_string_def string_of_def
       decode_fingerprint_def)

lemma decode_bundle_json:
  assumes "bundle_ok b"
  shows "decode_bundle W (bundle_json b) (sx_page_id b) = Inr (b\<lparr>sx_gaps := map_option (map (sanitized_gap W)) (sx_gaps b)\<rparr>)"
proof -
  let ?j = "bundle_json b"
  have fields: "prop_of ''schemaVersion'' ?j = Some (JInt 1)" "prop_of ''pageId'' ?j = Some (JStr (sx_page_id b))"
    "prop_of ''sourceFinalUrl'' ?j = Some (JStr (sx_source_final_url b))" "prop_of ''publicFinalUrl'' ?j = Some (JStr (sx_public_final_url b))"
    "prop_of ''mainPath'' ?j = Some (JStr (sx_main_path b))" "prop_of ''capturedAt'' ?j = Some (JStr (sx_captured_at b))"
    "prop_of ''files'' ?j = Some (JArr (map file_json (sx_files b)))" "prop_of ''design'' ?j = map_option design_json (sx_design b)"
    "prop_of ''resourceGaps'' ?j = map_option (\<lambda>gs. JArr (map gap_json gs)) (sx_gaps b)"
    by (simp_all add: bundle_json_def prop_of_def optional_field_def split: option.splits)
  from assms have files: "decode_files (prop_of ''files'' ?j) = Inr (sx_files b)"
    unfolding fields using traverse_map [of "sx_files b" decode_file file_json id]
    by (auto simp: bundle_ok_def decode_files_def list_all_iff decode_file_json)
  from assms have design: "decodeDesignMetadata (prop_of ''design'' ?j) = Inr (sx_design b)"
    unfolding fields by (cases "sx_design b") (simp_all add: bundle_ok_def decode_design_json decodeDesignMetadata_def [of None])
  from assms have gaps: "decodeResourceGaps W (prop_of ''resourceGaps'' ?j) = Inr (map_option (map (sanitized_gap W)) (sx_gaps b))"
    unfolding fields
    by (cases "sx_gaps b") (simp_all add: bundle_ok_def decodeResourceGaps_def list_all_iff traverse_map decode_gap_json)
  have "safe_path (sx_main_path b) = Inr (sx_main_path b)" using assms by (simp add: bundle_ok_def safe_path_def)
  moreover have "?j \<noteq> JNull" by (simp add: bundle_json_def)
  ultimately show ?thesis
    unfolding decode_bundle_def files design gaps
    by (simp add: fields(1-6) need_string_def string_of_def)
qed

end
