(* ===== verification/Site_Documents.thy ===== *)
theory Site_Documents
  imports Site_Bundles Css_References Design_Pages
begin

text \<open>
  How the documents and style sheets of a site are rewritten for its archive (\<open>site-archive.ts\<close>): references
  are redirected to the archive's files, and everything that could run is made inert. Parsing and
  serialising HTML is third-party code; these definitions work on the parsed tree. \<open>template\<close> contents are
  not children of a node in that tree, for the code as here.
\<close>

section \<open>Aliases\<close>

type_synonym aliases = "(string \<times> string) list"

function resolve_alias :: "aliases \<Rightarrow> string list \<Rightarrow> string \<Rightarrow> path_error + string" where
  "resolve_alias aliases seen path =
     (case map_of aliases (toLowerCase path) of
        None \<Rightarrow> Inr path
      | Some target \<Rightarrow> if toLowerCase path \<in> set seen then Inl SITE_ARCHIVE_PATH_COLLISION
          else resolve_alias aliases (toLowerCase path # seen) target)"
  by pat_completeness auto

termination
proof (relation "measure (\<lambda>(aliases, seen, path). card (fst ` set aliases - set seen))", simp)
  fix al :: aliases and seen path target
  assume a: "map_of al (toLowerCase path) = Some target" "toLowerCase path \<notin> set seen"
  then have "toLowerCase path \<in> fst ` set al - set seen" by (force dest: map_of_SomeD)
  then have "fst ` set al - set (toLowerCase path # seen) \<subset> fst ` set al - set seen" by auto
  then have "card (fst ` set al - set (toLowerCase path # seen)) < card (fst ` set al - set seen)"
    by (intro psubset_card_mono) auto
  then show "((al, toLowerCase path # seen, target), al, seen, path)
      \<in> measure (\<lambda>(aliases, seen, path). card (fst ` set aliases - set seen))" by simp
qed

definition resolveResourceAlias :: "aliases \<Rightarrow> string \<Rightarrow> path_error + string" where
  "resolveResourceAlias aliases path = resolve_alias aliases [] path"

lemma resolve_alias_final: "resolve_alias aliases seen path = Inr p \<Longrightarrow> map_of aliases (toLowerCase p) = None"
  by (induction aliases seen path rule: resolve_alias.induct) (auto split: option.splits if_splits)

section \<open>References\<close>

definition ref_head :: "string \<Rightarrow> string" where
  "ref_head raw = takeWhile (\<lambda>c. c \<noteq> CHR ''?'' \<and> c \<noteq> CHR ''#'') raw"

definition ref_tail :: "string \<Rightarrow> string" where
  "ref_tail raw = dropWhile (\<lambda>c. c \<noteq> CHR ''?'' \<and> c \<noteq> CHR ''#'') raw"

definition scheme_char :: "char \<Rightarrow> bool" where
  "scheme_char c \<longleftrightarrow> alpha c \<or> digit c \<or> c \<in> {CHR ''+'', CHR ''.'', CHR ''-''}"

text \<open>\<open>/^(?:[a-z][a-z0-9+.-]*:|\/\/)/iu\<close>.\<close>

definition absolute_reference :: "string \<Rightarrow> bool" where
  "absolute_reference raw \<longleftrightarrow> starts_with ''//'' raw
     \<or> (raw \<noteq> [] \<and> alpha (hd raw) \<and> starts_with '':'' (dropWhile scheme_char (tl raw)))"

definition archive_target :: "aliases \<Rightarrow> aliases \<Rightarrow> string \<Rightarrow> path_error + string option" where
  "archive_target aliases pageAliases resolved =
     (case map_of pageAliases (toLowerCase resolved) of
        Some contextual \<Rightarrow> rbind (resolveResourceAlias aliases contextual) (\<lambda>p. Inr (Some p))
      | None \<Rightarrow> if map_of aliases (toLowerCase resolved) \<noteq> None
          then rbind (resolveResourceAlias aliases resolved) (\<lambda>p. Inr (Some p)) else Inr None)"

definition rewriteArchiveReference :: "string list \<Rightarrow> string \<Rightarrow> aliases \<Rightarrow> aliases \<Rightarrow> string \<Rightarrow> string" where
  "rewriteArchiveReference cwd sourcePath aliases pageAliases raw =
     (if raw = [] \<or> starts_with ''#'' raw \<or> absolute_reference raw then raw
      else if ref_head raw = [] \<or> list_ex line_break (ref_tail raw) then raw
      else (case rbind (safeArchivePath (if starts_with [slash] (ref_head raw) then ref_head raw
                     else posix_join [posix_dirname sourcePath, ref_head raw]))
                   (archive_target aliases pageAliases) of
              Inr (Some canonical) \<Rightarrow> relativeArchivePath cwd sourcePath canonical @ ref_tail raw
            | _ \<Rightarrow> raw))"

definition rewriteCssText :: "string list \<Rightarrow> string \<Rightarrow> aliases \<Rightarrow> aliases \<Rightarrow> string \<Rightarrow> string" where
  "rewriteCssText cwd sourcePath aliases pageAliases =
     rewrite_references (rewriteArchiveReference cwd sourcePath aliases pageAliases) (rewriteArchiveReference cwd sourcePath aliases pageAliases)"

definition css_path :: "string \<Rightarrow> bool" where
  "css_path path \<longleftrightarrow> ends_with ''.css'' (toLowerCase path)"

definition rewriteCssResourceAliases :: "string list \<Rightarrow> string \<Rightarrow> string \<Rightarrow> string \<Rightarrow> aliases \<Rightarrow> string" where
  "rewriteCssResourceAliases cwd body contentType sourcePath aliases =
     (if mime_of contentType \<noteq> ''text/css'' \<and> \<not> css_path sourcePath then body
      else rewriteCssText cwd sourcePath aliases [] body)"

text \<open>References of a style sheet by the URLs of the sources, \<open>rewriteCssWithSourceUrls\<close>.\<close>

definition opaque_css_reference :: "string \<Rightarrow> bool" where
  "opaque_css_reference raw \<longleftrightarrow> list_ex (\<lambda>s. starts_with s (toLowerCase raw)) [''data:'', ''blob:'', ''about:'', ''javascript:'']"

definition source_reference :: "web \<Rightarrow> string list \<Rightarrow> string \<Rightarrow> string \<Rightarrow> (string \<times> string) list \<Rightarrow> aliases \<Rightarrow> string \<Rightarrow> string" where
  "source_reference W cwd cssSourceUrl cssLocalPath sourceUrls aliases raw =
     (if raw = [] \<or> starts_with ''#'' raw \<or> opaque_css_reference raw then raw
      else (case resolve_url W raw cssSourceUrl of
              None \<Rightarrow> raw
            | Some u \<Rightarrow>
                (let resolved = href W (u\<lparr>u_hash := []\<rparr>)
                 in case map_of sourceUrls (normalizeSourceUrl W resolved) of
                      None \<Rightarrow> sanitizeUrl W resolved @ u_hash u
                    | Some localPath \<Rightarrow>
                        relativeArchivePath cwd cssLocalPath (coalesce (map_of aliases (toLowerCase localPath)) localPath) @ u_hash u)))"

definition rewriteCssWithSourceUrls :: "web \<Rightarrow> string list \<Rightarrow> string \<Rightarrow> string \<Rightarrow> string \<Rightarrow> string
    \<Rightarrow> (string \<times> string) list \<Rightarrow> aliases \<Rightarrow> string" where
  "rewriteCssWithSourceUrls W cwd body contentType cssSourceUrl cssLocalPath sourceUrls aliases =
     (if mime_of contentType \<noteq> ''text/css'' \<and> \<not> css_path cssLocalPath then body
      else rewrite_references (source_reference W cwd cssSourceUrl cssLocalPath sourceUrls aliases)
             (source_reference W cwd cssSourceUrl cssLocalPath sourceUrls aliases) body)"

section \<open>Documents\<close>

type_synonym attributes = "(string \<times> string) list"

definition attr_value :: "string \<Rightarrow> attributes \<Rightarrow> string option" where
  "attr_value name attrs = map_of attrs name"

fun set_first :: "string \<Rightarrow> string \<Rightarrow> attributes \<Rightarrow> attributes" where
  "set_first name v [] = []"
| "set_first name v (a # as) = (if fst a = name then (name, v) # as else a # set_first name v as)"

definition inert_type :: string where
  "inert_type = ''application/x-weblens-inert''"

definition data_type :: "string \<Rightarrow> bool" where
  "data_type value \<longleftrightarrow> toLowerCase (trim value) \<in> {''application/json'', ''application/ld+json''}"

definition disarm_script :: "string \<Rightarrow> attributes \<Rightarrow> attributes" where
  "disarm_script tag attrs =
     (if tag = ''script'' \<and> \<not> data_type (coalesce (attr_value ''type'' attrs) [])
      then (case attr_value ''type'' attrs of
              Some v \<Rightarrow> set_first ''type'' inert_type (attrs @ [(''data-weblens-original-type'', v)])
            | None \<Rightarrow> attrs @ [(''type'', inert_type)])
      else attrs)"

definition handler_name :: "string \<Rightarrow> bool" where
  "handler_name name \<longleftrightarrow> starts_with ''on'' (toLowerCase name)"

definition lower_attr :: "string \<Rightarrow> html_node \<Rightarrow> string option" where
  "lower_attr name node = map_option toLowerCase (attr_value name (hn_attrs node))"

definition refreshing :: "html_node \<Rightarrow> bool" where
  "refreshing node \<longleftrightarrow> hn_tag node = ''meta'' \<and> lower_attr ''http-equiv'' node = Some ''refresh''"

definition preloads_script :: "html_node \<Rightarrow> bool" where
  "preloads_script node \<longleftrightarrow> hn_tag node = ''link''
     \<and> (let relations = (case lower_attr ''rel'' node of None \<Rightarrow> [] | Some v \<Rightarrow> words_of v)
        in ''modulepreload'' \<in> set relations
           \<or> (''preload'' \<in> set relations \<and> lower_attr ''as'' node = Some ''script''))"

definition kept_child :: "html_node \<Rightarrow> bool" where
  "kept_child node \<longleftrightarrow> \<not> refreshing node \<and> \<not> preloads_script node"

fun join_text :: "string \<Rightarrow> string list \<Rightarrow> string" where
  "join_text sep [] = []"
| "join_text sep [s] = s"
| "join_text sep (s # t # ss) = s @ sep @ join_text sep (t # ss)"

definition rewrite_candidate :: "(string \<Rightarrow> string) \<Rightarrow> string \<Rightarrow> string" where
  "rewrite_candidate f candidate =
     (case filter (\<lambda>w. w \<noteq> []) (words_of (trim candidate)) of [] \<Rightarrow> []
      | raw # descriptor \<Rightarrow> join_text '' '' (f raw # descriptor))"

definition rewrite_srcset :: "(string \<Rightarrow> string) \<Rightarrow> string \<Rightarrow> string" where
  "rewrite_srcset f v = join_text '', '' (filter (\<lambda>s. s \<noteq> []) (map (rewrite_candidate f) (split_on (CHR '','') v)))"

definition rewrite_attribute :: "(string \<Rightarrow> string) \<Rightarrow> (string \<Rightarrow> string) \<Rightarrow> string \<Rightarrow> string \<times> string \<Rightarrow> string \<times> string" where
  "rewrite_attribute f css tag = (\<lambda>(name, v).
     let n = toLowerCase name
     in if n \<in> {''src'', ''poster''} \<or> (n = ''href'' \<and> tag \<noteq> ''a'' \<and> tag \<noteq> ''area'') then (name, f v)
        else if n \<in> {''srcset'', ''imagesrcset''} then (name, rewrite_srcset f v)
        else if n = ''style'' then (name, css v)
        else (name, v))"

fun style_text :: "(string \<Rightarrow> string) \<Rightarrow> string \<Rightarrow> html_node \<Rightarrow> html_node" where
  "style_text css parent (Html_Node tag attrs text children) =
     (if parent = ''style'' then Html_Node tag attrs (map_option css text) children else Html_Node tag attrs text children)"

text \<open>The first visit of \<open>rewriteDesignDocument\<close>; a node's own text is rewritten by its parent.\<close>

definition design_attrs :: "(string \<Rightarrow> string) \<Rightarrow> (string \<Rightarrow> string) \<Rightarrow> string \<Rightarrow> attributes \<Rightarrow> attributes" where
  "design_attrs f css tag attrs =
     map (rewrite_attribute f css tag) (filter (\<lambda>a. \<not> handler_name (fst a)) (disarm_script tag attrs))"

fun design_visit :: "(string \<Rightarrow> string) \<Rightarrow> (string \<Rightarrow> string) \<Rightarrow> html_node \<Rightarrow> html_node" where
  "design_visit f css (Html_Node tag attrs text children) =
     Html_Node tag (design_attrs f css tag attrs) text
       (map (\<lambda>c. style_text css tag (design_visit f css c)) (filter kept_child children))"

definition policy_node :: html_node where
  "policy_node = Html_Node ''meta''
     [(''http-equiv'', ''Content-Security-Policy''),
      (''content'', [CHR ''s''] @ ''cript-src '' @ [CHR 0x27] @ ''none'' @ [CHR 0x27] @ ''; object-src '' @ [CHR 0x27] @ ''none'' @ [CHR 0x27]
         @ ''; form-action '' @ [CHR 0x27] @ ''none'' @ [CHR 0x27])] None []"

fun add_policy :: "html_node \<Rightarrow> html_node" where
  "add_policy (Html_Node tag attrs text children) =
     Html_Node tag attrs text ((if tag = ''head'' then [policy_node] else []) @ map add_policy children)"

definition rewriteDesignDocument :: "string list \<Rightarrow> string \<Rightarrow> aliases \<Rightarrow> aliases \<Rightarrow> html_node \<Rightarrow> html_node" where
  "rewriteDesignDocument cwd sourcePath aliases pageAliases document =
     add_policy (design_visit (rewriteArchiveReference cwd sourcePath aliases pageAliases)
       (rewriteCssText cwd sourcePath aliases pageAliases) document)"

section \<open>Navigation\<close>

definition opaque_navigation :: "string \<Rightarrow> bool" where
  "opaque_navigation raw \<longleftrightarrow> list_ex (\<lambda>s. starts_with s (toLowerCase raw))
     [''data:'', ''blob:'', ''about:'', ''javascript:'', ''mailto:'', ''tel:'']"

definition rawUrlHash :: "web \<Rightarrow> (string \<Rightarrow> 'h) \<Rightarrow> string \<Rightarrow> 'h option" where
  "rawUrlHash W sha raw = map_option sha (normalizeRawUrl W raw)"

definition navigation_target :: "web \<Rightarrow> string list \<Rightarrow> (string \<Rightarrow> 'h) \<Rightarrow> string \<Rightarrow> string \<Rightarrow> ('h \<times> string) list \<Rightarrow> string \<Rightarrow> string" where
  "navigation_target W cwd sha sourceUrl sourcePath routes v =
     (if v = [] \<or> opaque_navigation v then v
      else (case resolve_url W v sourceUrl of
              None \<Rightarrow> []
            | Some u \<Rightarrow>
                (let target = href W (u\<lparr>u_hash := []\<rparr>)
                 in case rawUrlHash W sha target of
                      None \<Rightarrow> []
                    | Some h \<Rightarrow> (case map_of routes h of
                          Some route \<Rightarrow> relativeArchivePath cwd sourcePath route @ u_hash u
                        | None \<Rightarrow> sanitizeUrl W target @ u_hash u))))"

fun set_href :: "(string \<Rightarrow> string) \<Rightarrow> attributes \<Rightarrow> attributes" where
  "set_href f [] = []"
| "set_href f (a # as) = (if toLowerCase (fst a) = ''href'' then (fst a, f (snd a)) # as else a # set_href f as)"

fun navigation_visit :: "(string \<Rightarrow> string) \<Rightarrow> html_node \<Rightarrow> html_node" where
  "navigation_visit f (Html_Node tag attrs text children) =
     Html_Node tag (if tag = ''a'' \<or> tag = ''area'' then set_href f attrs else attrs) text (map (navigation_visit f) children)"

definition rewriteSiteNavigation :: "web \<Rightarrow> string list \<Rightarrow> (string \<Rightarrow> 'h) \<Rightarrow> string \<Rightarrow> string \<Rightarrow> ('h \<times> string) list \<Rightarrow> html_node \<Rightarrow> html_node" where
  "rewriteSiteNavigation W cwd sha sourceUrl sourcePath routes = navigation_visit (navigation_target W cwd sha sourceUrl sourcePath routes)"

section \<open>Inert documents\<close>

text \<open>
  Nothing in the tree runs: every script is data or carries the inert type, no attribute is an event
  handler, and no child refreshes the page or preloads a script.
\<close>

definition inert_attrs :: "string \<Rightarrow> attributes \<Rightarrow> bool" where
  "inert_attrs tag attrs \<longleftrightarrow> list_all (\<lambda>a. \<not> handler_name (fst a)) attrs
     \<and> (tag = ''script'' \<longrightarrow> (case attr_value ''type'' attrs of None \<Rightarrow> False | Some v \<Rightarrow> v = inert_type \<or> data_type v))"

fun inert :: "html_node \<Rightarrow> bool" where
  "inert (Html_Node tag attrs text children) \<longleftrightarrow>
     inert_attrs tag attrs \<and> list_all (\<lambda>c. \<not> refreshing c) children \<and> list_all inert children"

lemma map_of_set_first: "map_of as name = Some w \<Longrightarrow> map_of (set_first name v as) name = Some v"
  by (induction as) auto

lemma map_of_filter_key: "P name \<Longrightarrow> map_of (filter (\<lambda>a. P (fst a)) as) name = map_of as name"
  by (induction as) auto

lemma map_of_rewrite:
  "(\<And>v. g (name, v) = (name, v)) \<Longrightarrow> (\<And>a. fst (g a) = fst a) \<Longrightarrow> map_of (map g as) name = map_of as name"
proof (induction as)
  case (Cons a as)
  obtain k v where a: "a = (k, v)" by (cases a)
  have "fst (g a) = k" using Cons.prems(2) [of a] a by simp
  moreover have "k = name \<Longrightarrow> g a = (name, v)" using Cons.prems(1) a by simp
  ultimately show ?case using Cons a by (cases "g a"; cases "k = name") auto
qed simp

lemma rewrite_attribute_fst [simp]: "fst (rewrite_attribute f css tag a) = fst a"
  by (cases a) (simp add: rewrite_attribute_def Let_def)

lemma lower_type: "toLowerCase ''type'' = ''type''" and lower_equiv: "toLowerCase ''http-equiv'' = ''http-equiv''"
  by code_simp+

lemma rewrite_attribute_type [simp]:
  "rewrite_attribute f css tag (''type'', v) = (''type'', v)" "rewrite_attribute f css tag (''http-equiv'', v) = (''http-equiv'', v)"
  by (simp_all add: rewrite_attribute_def lower_type lower_equiv Let_def del: toLowerCase_Cons)

lemma handler_names [simp]: "\<not> handler_name ''type''" "\<not> handler_name ''http-equiv''" "\<not> handler_name ''data-weblens-original-type''"
  "\<not> handler_name ''content''"
  by code_simp+

lemma design_attrs_value:
  assumes "\<And>v. rewrite_attribute f css tag (name, v) = (name, v)" "\<not> handler_name name"
  shows "attr_value name (design_attrs f css tag attrs) = attr_value name (disarm_script tag attrs)"
  using assms unfolding attr_value_def design_attrs_def
  by (simp add: map_of_rewrite map_of_filter_key [of "\<lambda>n. \<not> handler_name n"])

lemma disarmed: "tag = ''script'' \<Longrightarrow> \<exists>v. attr_value ''type'' (disarm_script tag attrs) = Some v \<and> (v = inert_type \<or> data_type v)"
proof (cases "attr_value ''type'' attrs")
  case None
  assume "tag = ''script''"
  moreover have "\<not> data_type []" by code_simp
  ultimately show ?thesis using None by (simp add: disarm_script_def attr_value_def map_add_def)
next
  case (Some v)
  assume tag: "tag = ''script''"
  have "map_of (attrs @ [(''data-weblens-original-type'', v)]) ''type'' = Some v"
    using Some by (simp add: attr_value_def map_add_Some_iff)
  from map_of_set_first [OF this, of inert_type] tag Some show ?thesis
    by (auto simp: disarm_script_def attr_value_def)
qed

lemma design_attrs_inert: "inert_attrs tag (design_attrs f css tag attrs)"
proof -
  have "list_all (\<lambda>a. \<not> handler_name (fst a)) (design_attrs f css tag attrs)"
    by (auto simp: design_attrs_def list_all_iff)
  with disarmed [of tag attrs] show ?thesis
    by (auto simp: inert_attrs_def design_attrs_value)
qed

lemma refreshing_style [simp]: "refreshing (style_text css tag c) = refreshing c"
  by (cases c) (simp add: refreshing_def lower_attr_def)

lemma inert_style [simp]: "inert (style_text css tag c) = inert c"
  by (cases c) simp

lemma disarm_other [simp]: "tag \<noteq> ''script'' \<Longrightarrow> disarm_script tag attrs = attrs"
  by (simp add: disarm_script_def)

lemma refreshing_design [simp]: "refreshing (design_visit f css c) = refreshing c"
  by (cases c) (auto simp: refreshing_def lower_attr_def design_attrs_value)

lemma design_visit_inert: "inert (design_visit f css node)"
proof (induction node)
  case (Html_Node tag attrs val children)
  then show ?case by (auto simp: design_attrs_inert list_all_iff kept_child_def)
qed

lemma policy_inert: "inert policy_node" "\<not> refreshing policy_node"
  by code_simp+

lemma refreshing_policy [simp]: "refreshing (add_policy c) = refreshing c"
  by (cases c) (simp add: refreshing_def lower_attr_def)

lemma add_policy_inert: "inert node \<Longrightarrow> inert (add_policy node)"
proof (induction node)
  case (Html_Node tag attrs val children)
  then show ?case by (auto simp: list_all_iff policy_inert)
qed

lemma set_href_names: "map fst (set_href f attrs) = map fst attrs"
  by (induction attrs) auto

lemma set_href_type: "toLowerCase name \<noteq> ''href'' \<Longrightarrow> attr_value name (set_href f attrs) = attr_value name attrs"
  by (induction attrs) (auto simp: attr_value_def)

lemma inert_attrs_href: "tag \<noteq> ''script'' \<Longrightarrow> inert_attrs tag (set_href f attrs) = inert_attrs tag attrs"
proof -
  assume t: "tag \<noteq> ''script''"
  have names: "list_all (\<lambda>a. \<not> handler_name (fst a)) as = list_all (\<lambda>n. \<not> handler_name n) (map fst as)" for as :: attributes
    by (simp add: list_all_iff)
  have "list_all (\<lambda>a. \<not> handler_name (fst a)) (set_href f attrs) = list_all (\<lambda>a. \<not> handler_name (fst a)) attrs"
    unfolding names set_href_names ..
  with t show ?thesis by (simp add: inert_attrs_def)
qed

lemma refreshing_navigation [simp]: "refreshing (navigation_visit f c) = refreshing c"
  by (cases c) (auto simp: refreshing_def lower_attr_def)

lemma navigation_inert: "inert node \<Longrightarrow> inert (navigation_visit f node)"
proof (induction node)
  case (Html_Node tag attrs val children)
  then show ?case by (auto simp: list_all_iff inert_attrs_href)
qed

lemma rewriteDesignDocument_inert: "inert (rewriteDesignDocument cwd path aliases pageAliases document)"
  unfolding rewriteDesignDocument_def by (intro add_policy_inert design_visit_inert)

end
