(* ===== verification/Site_Archives.thy ===== *)
theory Site_Archives
  imports Site_Documents Site_Events
begin

text \<open>
  The assembly of a site archive (\<open>site-archive.ts\<close>, \<open>buildSiteArchives\<close>): the bundles of the rendered pages are
  read back, one page of every layout is kept, equal resources are merged, style sheets and documents are
  rewritten, and the files are spread over ZIP shards within the budgets. Files on disk are the bodies of the
  records here; the ZIP writer is the parameter that gives a shard's size and digest. Aborting through the
  signal ends in the same clean-up as any error and is not distinguished.
\<close>

section \<open>Pages, shards and errors\<close>

record archive_file =
  ar_kind :: bundle_kind
  ar_path :: string
  ar_source :: string
  ar_type :: string
  ar_body :: string
  ar_hash :: string

record archive_page =
  ag_ref :: page_bundle
  ag_source_final :: string
  ag_public_final :: string
  ag_design :: "page_design option"
  ag_gaps :: "page_gap list"
  ag_files :: "archive_file list"
  ag_aliases :: aliases

record archive_entry =
  en_path :: string
  en_body :: string
  en_compress :: bool

record open_shard =
  os_number :: nat
  os_input :: nat
  os_entries :: "archive_entry list"

record archive_part =
  pt_number :: nat
  pt_filename :: string
  pt_bytes :: nat
  pt_sha :: string
  pt_entries :: "archive_entry list"

datatype archive_error = BUNDLE_NOT_LOADED | BUNDLE_REFUSED bundle_error | SITE_INPUT_BUDGET_EXCEEDED | UNPARSABLE_URL
  | ARCHIVE_PATH path_error | SITE_ARCHIVE_BUDGET_EXCEEDED | SITE_FILE_EXCEEDS_SHARD_BUDGET | SITE_SHARD_SIZE_OUT_OF_BOUNDS
  | SITE_ARCHIVE_EMPTY

record archive_env =
  ae_design :: design_env
  ae_codec :: json_codec
  ae_sha :: "string \<Rightarrow> string"
  ae_url_sha :: "string \<Rightarrow> digest"
  ae_parse :: "string \<Rightarrow> html_node"
  ae_serialize :: "html_node \<Rightarrow> string"
  ae_cwd :: "string list"
  ae_zip :: "archive_entry list \<Rightarrow> nat \<times> string"
  ae_label :: string
  ae_load :: "page_bundle \<Rightarrow> string option"
  ae_page_id :: "uuid \<Rightarrow> string"

record archive_budgets =
  ab_max_pages :: nat
  ab_max_input :: nat

abbreviation ae_web :: "archive_env \<Rightarrow> web" where
  "ae_web E \<equiv> de_web (ae_design E)"

definition lift_error :: "('e \<Rightarrow> 'f) \<Rightarrow> 'e + 'a \<Rightarrow> 'f + 'a" where
  "lift_error g r = (case r of Inl e \<Rightarrow> Inl (g e) | Inr x \<Rightarrow> Inr x)"

definition need :: "'e \<Rightarrow> 'a option \<Rightarrow> 'e + 'a" where
  "need e x = (case x of None \<Rightarrow> Inl e | Some v \<Rightarrow> Inr v)"

lemma lift_error_Inr [simp]: "lift_error g r = Inr x \<longleftrightarrow> r = Inr x"
  by (cases r) (simp_all add: lift_error_def)

lemma need_Inr [simp]: "need e r = Inr x \<longleftrightarrow> r = Some x"
  by (cases r) (simp_all add: need_def)

section \<open>Reading the bundles\<close>

definition cache_file :: "archive_budgets option \<Rightarrow> page_file \<Rightarrow> nat \<Rightarrow> archive_error + nat" where
  "cache_file budgets f cached =
     (let n = cached + length (pf_body f)
      in if (case budgets of None \<Rightarrow> False | Some b \<Rightarrow> ab_max_input b < n) then Inl SITE_INPUT_BUDGET_EXCEEDED else Inr n)"

definition cached_file :: "archive_env \<Rightarrow> page_file \<Rightarrow> archive_file" where
  "cached_file E f = \<lparr> ar_kind = pf_kind f, ar_path = pf_local_path f, ar_source = pf_source_url f, ar_type = pf_content_type f,
     ar_body = pf_body f, ar_hash = ae_sha E (pf_body f) \<rparr>"

definition indexed_page :: "archive_env \<Rightarrow> page_bundle \<Rightarrow> site_page_bundle \<Rightarrow> archive_page" where
  "indexed_page E r b = \<lparr> ag_ref = r, ag_source_final = sx_source_final_url b, ag_public_final = sx_public_final_url b,
     ag_design = sx_design b, ag_gaps = coalesce (sx_gaps b) [], ag_files = map (cached_file E) (sx_files b), ag_aliases = [] \<rparr>"

definition index_bundle :: "archive_env \<Rightarrow> archive_budgets option \<Rightarrow> page_bundle \<Rightarrow> archive_page list \<times> nat
    \<Rightarrow> archive_error + archive_page list \<times> nat" where
  "index_bundle E budgets r = (\<lambda>(indexed, cached).
     rbind (need BUNDLE_NOT_LOADED (ae_load E r)) (\<lambda>encoded.
     rbind (lift_error BUNDLE_REFUSED (decodeSiteBundle (ae_codec E) (ae_web E) encoded (ae_page_id E (pb_page r)))) (\<lambda>b.
     rbind (rfold (cache_file budgets) (sx_files b) cached) (\<lambda>n. Inr (indexed @ [indexed_page E r b], n)))))"

section \<open>Representatives\<close>

definition reference_order :: "archive_env \<Rightarrow> archive_page \<Rightarrow> archive_page \<Rightarrow> int" where
  "reference_order E l r = first_nonzero
     [int (pb_ordinal (ag_ref l)) - int (pb_ordinal (ag_ref r)),
      de_collate (ae_design E) (ae_page_id E (pb_page (ag_ref l))) (ae_page_id E (pb_page (ag_ref r)))]"

definition layout_key :: "archive_env \<Rightarrow> archive_page \<Rightarrow> string" where
  "layout_key E p = (case ag_design p of
     Some d \<Rightarrow> pd_role d @ [CHR 0x0A] @ pd_template d @ [CHR 0x0A] @ coalesce (pd_fingerprint d) ''FINGERPRINT_UNAVAILABLE''
   | None \<Rightarrow> ''LEGACY'' @ [CHR 0x0A] @ ae_page_id E (pb_page (ag_ref p)))"

text \<open>The representatives, in order, and the pages rejected as \<open>LAYOUT_DUPLICATE\<close>.\<close>

definition selectRepresentatives :: "archive_env \<Rightarrow> archive_page list \<Rightarrow> archive_page list \<times> archive_page list" where
  "selectRepresentatives E indexed = competition (layout_key E) (js_sort (reference_order E) indexed)"

section \<open>Loops over the files of all pages\<close>

fun thread :: "('a \<Rightarrow> 's \<Rightarrow> 'a \<times> 's) \<Rightarrow> 'a list \<Rightarrow> 's \<Rightarrow> 'a list \<times> 's" where
  "thread f [] s = ([], s)"
| "thread f (x # xs) s = (let (y, s1) = f x s; (ys, s2) = thread f xs s1 in (y # ys, s2))"

definition thread_files :: "(archive_file \<Rightarrow> 's \<Rightarrow> archive_file \<times> 's) \<Rightarrow> archive_page \<Rightarrow> 's \<Rightarrow> archive_page \<times> 's" where
  "thread_files f p s = (let (fs, s') = thread f (ag_files p) s in (p\<lparr>ag_files := fs\<rparr>, s'))"

definition isStylesheet :: "archive_file \<Rightarrow> bool" where
  "isStylesheet f \<longleftrightarrow> mime_of (ar_type f) = ''text/css'' \<or> css_path (ar_path f)"

section \<open>Resources\<close>

record resource_index =
  ix_canonical :: "(string \<times> string) list"
  ix_aliases :: aliases
  ix_sources :: "(string \<times> string) list"

definition representation :: "archive_file \<Rightarrow> string" where
  "representation f =
     (let ext = toLowerCase (posix_extname (ar_path f)); mime = mime_of (ar_type f)
      in if ext \<noteq> [] then ext else if mime \<noteq> [] then mime else ''application/octet-stream'')"

definition contextual_path :: "archive_env \<Rightarrow> archive_file \<Rightarrow> string" where
  "contextual_path E f = ''assets/'' @ ae_sha E (ar_hash f @ [CHR 0x0A] @ normalizeSourceUrl (ae_web E) (ar_source f)) @ ''.css''"

definition index_source :: "archive_env \<Rightarrow> archive_file \<Rightarrow> string \<Rightarrow> resource_index \<Rightarrow> resource_index" where
  "index_source E f effectivePath ix =
     (let u = normalizeSourceUrl (ae_web E) (ar_source f)
      in if map_of (ix_sources ix) u \<noteq> None then ix else ix\<lparr>ix_sources := (u, effectivePath) # ix_sources ix\<rparr>)"

definition index_resource :: "archive_env \<Rightarrow> archive_file \<Rightarrow> aliases \<times> resource_index \<Rightarrow> archive_file \<times> aliases \<times> resource_index" where
  "index_resource E f = (\<lambda>(pageAliases, ix).
     if ar_kind f \<noteq> KIND_RESOURCE then (f, pageAliases, ix)
     else if isStylesheet f
     then (let path = contextual_path E f
           in (f\<lparr>ar_path := path\<rparr>, (toLowerCase (ar_path f), path) # pageAliases, index_source E f path ix))
     else
       (let path = ar_path f; key = ar_hash f @ [CHR 0x0A] @ representation f
        in case map_of (ix_canonical ix) key of
             Some canonical \<Rightarrow>
               if canonical \<noteq> [] \<and> toLowerCase canonical \<noteq> toLowerCase path
               then (f, pageAliases, index_source E f canonical (ix\<lparr>ix_aliases := (toLowerCase path, canonical) # ix_aliases ix\<rparr>))
               else (f, pageAliases, index_source E f path (ix\<lparr>ix_canonical := (key, path) # ix_canonical ix\<rparr>))
           | None \<Rightarrow> (f, pageAliases, index_source E f path (ix\<lparr>ix_canonical := (key, path) # ix_canonical ix\<rparr>))))"

definition index_page :: "archive_env \<Rightarrow> archive_page \<Rightarrow> resource_index \<Rightarrow> archive_page \<times> resource_index" where
  "index_page E p ix =
     (let (fs, pageAliases, ix') = thread (index_resource E) (ag_files p) (ag_aliases p, ix)
      in (p\<lparr>ag_files := fs, ag_aliases := pageAliases\<rparr>, ix'))"

section \<open>Style sheets\<close>

definition with_body :: "archive_env \<Rightarrow> string \<Rightarrow> archive_file \<Rightarrow> archive_file" where
  "with_body E body f = f\<lparr>ar_body := body, ar_hash := ae_sha E body\<rparr>"

definition resolve_css :: "archive_env \<Rightarrow> resource_index \<Rightarrow> archive_file \<Rightarrow> archive_file" where
  "resolve_css E ix f =
     (if ar_kind f \<noteq> KIND_RESOURCE \<or> \<not> isStylesheet f then f
      else with_body E (rewriteCssWithSourceUrls (ae_web E) (ae_cwd E) (ar_body f) (ar_type f) (ar_source f) (ar_path f)
             (ix_sources ix) (ix_aliases ix)) f)"

text \<open>One file of one round: the aliases, the style sheets seen in this round, whether an alias was added.\<close>

definition open_css :: "aliases \<Rightarrow> archive_file \<Rightarrow> bool" where
  "open_css aliases f \<longleftrightarrow> ar_kind f = KIND_RESOURCE \<and> isStylesheet f \<and> map_of aliases (toLowerCase (ar_path f)) = None"

definition merge_css :: "archive_env \<Rightarrow> archive_file \<Rightarrow> aliases \<times> (string \<times> string) list \<times> bool
    \<Rightarrow> archive_file \<times> aliases \<times> (string \<times> string) list \<times> bool" where
  "merge_css E f = (\<lambda>(aliases, seen, changed).
     if \<not> open_css aliases f then (f, aliases, seen, changed)
     else
       (let f' = with_body E (rewriteCssResourceAliases (ae_cwd E) (ar_body f) (ar_type f) (ar_path f) aliases) f
        in case map_of seen (ar_hash f') of
             Some canonical \<Rightarrow>
               if canonical \<noteq> [] \<and> canonical \<noteq> ar_path f
               then (f', (toLowerCase (ar_path f), canonical) # aliases, seen, True)
               else (f', aliases, (ar_hash f', ar_path f) # seen, changed)
           | None \<Rightarrow> (f', aliases, (ar_hash f', ar_path f) # seen, changed)))"

definition css_round :: "archive_env \<Rightarrow> archive_page list \<Rightarrow> aliases \<Rightarrow> archive_page list \<times> aliases \<times> (string \<times> string) list \<times> bool" where
  "css_round E ps aliases = thread (thread_files (merge_css E)) ps (aliases, [], False)"

text \<open>What a round never changes of a file, and what it does to the aliases.\<close>

definition css_mark :: "archive_file \<Rightarrow> bundle_kind \<times> string \<times> string" where
  "css_mark f = (ar_kind f, ar_path f, ar_type f)"

definition files_of :: "archive_page list \<Rightarrow> archive_file list" where
  "files_of ps = concat (map ag_files ps)"

definition merged :: "archive_file list \<Rightarrow> aliases \<times> 'x \<times> bool \<Rightarrow> archive_file list \<Rightarrow> aliases \<times> 'x \<times> bool \<Rightarrow> bool" where
  "merged fs s fs' s' \<longleftrightarrow> map css_mark fs' = map css_mark fs \<and> fst ` set (fst s) \<subseteq> fst ` set (fst s')
     \<and> (snd (snd s') \<longrightarrow> snd (snd s) \<or> (\<exists>f \<in> set fs. open_css (fst s) f \<and> \<not> open_css (fst s') f))"

lemma open_css_mono: "open_css al' f \<Longrightarrow> fst ` set al \<subseteq> fst ` set al' \<Longrightarrow> open_css al f"
  by (auto simp: open_css_def map_of_eq_None_iff)

lemma merged_Nil [simp]: "merged [] s [] s"
  by (simp add: merged_def)

lemma merged_append: "merged fs s fs' s1 \<Longrightarrow> merged gs s1 gs' s2 \<Longrightarrow> merged (fs @ gs) s (fs' @ gs') s2"
proof -
  assume m: "merged fs s fs' s1" "merged gs s1 gs' s2"
  then have dom: "fst ` set (fst s) \<subseteq> fst ` set (fst s1)" "fst ` set (fst s1) \<subseteq> fst ` set (fst s2)"
    by (simp_all add: merged_def)
  have "snd (snd s) \<or> (\<exists>f \<in> set (fs @ gs). open_css (fst s) f \<and> \<not> open_css (fst s2) f)" if c: "snd (snd s2)"
  proof -
    from c m(2) consider "snd (snd s1)" | f where "f \<in> set gs" "open_css (fst s1) f" "\<not> open_css (fst s2) f"
      by (auto simp: merged_def)
    then show ?thesis
    proof cases
      case 1
      with m(1) consider "snd (snd s)" | f where "f \<in> set fs" "open_css (fst s) f" "\<not> open_css (fst s1) f"
        by (auto simp: merged_def)
      then show ?thesis by cases (auto dest: open_css_mono [OF _ dom(2)])
    next
      case 2
      then show ?thesis by (auto dest: open_css_mono [OF _ dom(1)])
    qed
  qed
  with m dom show ?thesis by (auto simp: merged_def)
qed

lemma with_body_mark [simp]: "css_mark (with_body E b f) = css_mark f" "ar_path (with_body E b f) = ar_path f"
  by (simp_all add: css_mark_def with_body_def)

lemma merge_css_merged: "merge_css E f s = (f', s') \<Longrightarrow> merged [f] s [f'] s'"
  by (cases s) (auto simp: merge_css_def merged_def Let_def open_css_def map_of_eq_None_iff split: if_splits option.splits)

lemma thread_merged: "thread (merge_css E) fs s = (fs', s') \<Longrightarrow> merged fs s fs' s'"
proof (induction fs arbitrary: s fs' s')
  case (Cons f fs)
  obtain g s1 where g: "merge_css E f s = (g, s1)" by (meson surj_pair)
  obtain gs s2 where gs: "thread (merge_css E) fs s1 = (gs, s2)" by (meson surj_pair)
  from Cons.prems g gs have "fs' = [g] @ gs" "s' = s2" by simp_all
  with merged_append [OF merge_css_merged [OF g] Cons.IH [OF gs]] show ?case by simp
qed simp

lemma thread_pages_merged:
  "thread (thread_files (merge_css E)) ps s = (ps', s') \<Longrightarrow> merged (files_of ps) s (files_of ps') s'"
proof (induction ps arbitrary: s ps' s')
  case (Cons p ps)
  obtain fs s1 where fs: "thread (merge_css E) (ag_files p) s = (fs, s1)" by (meson surj_pair)
  obtain qs s2 where qs: "thread (thread_files (merge_css E)) ps s1 = (qs, s2)" by (meson surj_pair)
  have "thread_files (merge_css E) p s = (p\<lparr>ag_files := fs\<rparr>, s1)" by (simp add: thread_files_def fs)
  with Cons.prems qs have "ps' = p\<lparr>ag_files := fs\<rparr> # qs" "s' = s2" by simp_all
  with merged_append [OF thread_merged [OF fs] Cons.IH [OF qs]] show ?case by (simp add: files_of_def)
qed (simp add: files_of_def)

lemma open_css_mark: "css_mark f = css_mark g \<Longrightarrow> open_css al f = open_css al g"
  by (simp add: css_mark_def open_css_def isStylesheet_def)

lemma open_count:
  assumes "merged fs s fs' s'" "\<not> snd (snd s)" "snd (snd s')"
  shows "length (filter (open_css (fst s')) fs') < length (filter (open_css (fst s)) fs)"
proof -
  from assms(1) have marks: "map css_mark fs' = map css_mark fs" and dom: "fst ` set (fst s) \<subseteq> fst ` set (fst s')"
    by (auto simp: merged_def)
  have "length (filter (open_css al) fs') = length (filter (open_css al) fs)" for al
    using marks
  proof (induction fs' arbitrary: fs)
    case (Cons g gs)
    then obtain f fs1 where "fs = f # fs1" "css_mark g = css_mark f" "map css_mark gs = map css_mark fs1" by auto
    with Cons.IH [of fs1] open_css_mark [of g f] show ?case by simp
  qed simp
  moreover from assms obtain f where f: "f \<in> set fs" "open_css (fst s) f" "\<not> open_css (fst s') f" by (auto simp: merged_def)
  have "length (filter (open_css (fst s')) fs) < length (filter (open_css (fst s)) fs)"
    using f(1)
  proof (induction fs)
    case (Cons g gs)
    have le: "length (filter (open_css (fst s')) gs) \<le> length (filter (open_css (fst s)) gs)"
      by (induction gs) (auto dest: open_css_mono [OF _ dom])
    show ?case
    proof (cases "g = f")
      case True
      with f le show ?thesis by simp
    next
      case False
      with Cons open_css_mono [OF _ dom, of g] show ?thesis by auto
    qed
  qed simp
  ultimately show ?thesis by simp
qed

text \<open>Rounds until no alias is added.\<close>

function merge_rounds :: "archive_env \<Rightarrow> archive_page list \<Rightarrow> aliases \<Rightarrow> archive_page list \<times> aliases" where
  "merge_rounds E ps aliases =
     (let (qs, aliases', seen, changed) = css_round E ps aliases
      in if changed then merge_rounds E qs aliases' else (qs, aliases'))"
  by pat_completeness auto

termination
proof (relation "measure (\<lambda>(E, ps, aliases). length (filter (open_css aliases) (files_of ps)))", simp)
  fix E ps aliases z qs y aliases' x seen changed
  assume a: "z = css_round E ps aliases" "(qs, y) = z" "(aliases', x) = y" "(seen, changed) = x" changed
  then have "thread (thread_files (merge_css E)) ps (aliases, [], False) = (qs, aliases', seen, changed)"
    by (auto simp: css_round_def)
  from open_count [OF thread_pages_merged [OF this]] a
  show "((E, qs, aliases'), E, ps, aliases) \<in> measure (\<lambda>(E, ps, aliases). length (filter (open_css aliases) (files_of ps)))"
    by simp
qed

declare merge_rounds.simps [simp del]

section \<open>Routes\<close>

definition route_entries :: "archive_env \<Rightarrow> archive_page \<Rightarrow> (digest \<times> string) list \<Rightarrow> archive_error + (digest \<times> string) list" where
  "route_entries E p m =
     rbind (need UNPARSABLE_URL (rawUrlHash (ae_web E) (ae_url_sha E) (ag_source_final p))) (\<lambda>h1.
     rbind (need UNPARSABLE_URL (rawUrlHash (ae_web E) (ae_url_sha E) (ag_public_final p))) (\<lambda>h2.
       Inr ((h2, pb_local_path (ag_ref p)) # (h1, pb_local_path (ag_ref p)) # m)))"

text \<open>Later entries of a \<open>Map\<close> win, so they come first here.\<close>

definition route_map :: "archive_env \<Rightarrow> archive_page list \<Rightarrow> site_route list \<Rightarrow> archive_error + (digest \<times> string) list" where
  "route_map E selected routes =
     (let kept = map (\<lambda>p. pb_local_path (ag_ref p)) selected
      in rfold (route_entries E) selected
           (rev (map (\<lambda>r. (sr_url_sha r, sr_local_path r)) (filter (\<lambda>r. sr_local_path r \<in> set kept) routes))))"

section \<open>Shards\<close>

definition shouldCompress :: "string \<Rightarrow> string \<Rightarrow> bool" where
  "shouldCompress contentType path \<longleftrightarrow>
     starts_with ''text/'' (mime_of contentType)
     \<or> mime_of contentType \<in> {''application/javascript'', ''application/json'', ''application/xml'', ''image/svg+xml''}
     \<or> list_ex (\<lambda>x. ends_with x (toLowerCase path)) [''.css'', ''.htm'', ''.html'', ''.js'', ''.json'', ''.svg'', ''.xml'']"

definition zipEntryOverhead :: "string \<Rightarrow> nat" where
  "zipEntryOverhead path = 256 + 2 * length path"

record write_state =
  ws_written :: "(string \<times> string) list"
  ws_total :: nat
  ws_parts :: "archive_part list"
  ws_current :: "open_shard option"

definition padded :: "nat \<Rightarrow> string" where
  "padded n = (let s = decimal n in replicate (4 - length s) (CHR ''0'') @ s)"

definition openShard :: "nat \<Rightarrow> open_shard" where
  "openShard n = \<lparr> os_number = n, os_input = 0, os_entries = [] \<rparr>"

definition closeShard :: "archive_env \<Rightarrow> nat \<Rightarrow> open_shard \<Rightarrow> archive_error + archive_part" where
  "closeShard E maxShard c =
     (case ae_zip E (os_entries c) of (bytes, sha) \<Rightarrow>
        if bytes = 0 \<or> maxShard < bytes then Inl SITE_SHARD_SIZE_OUT_OF_BOUNDS
        else Inr \<lparr> pt_number = os_number c,
               pt_filename = ''weblens-site-clone-'' @ ae_label E @ ''.part-'' @ padded (os_number c) @ ''.zip'',
               pt_bytes = bytes, pt_sha = sha, pt_entries = os_entries c \<rparr>)"

definition full_shard :: "nat \<Rightarrow> nat \<Rightarrow> open_shard \<Rightarrow> bool" where
  "full_shard maxShard nextBytes c \<longleftrightarrow> 0 < os_input c \<and> maxShard < os_input c + nextBytes"

definition ensureShard :: "archive_env \<Rightarrow> nat \<Rightarrow> nat \<Rightarrow> write_state \<Rightarrow> archive_error + open_shard \<times> write_state" where
  "ensureShard E maxShard nextBytes st =
     (if maxShard < nextBytes then Inl SITE_FILE_EXCEEDS_SHARD_BUDGET
      else case ws_current st of
             None \<Rightarrow> Inr (openShard (length (ws_parts st) + 1), st)
           | Some c \<Rightarrow>
               if full_shard maxShard nextBytes c
               then rbind (closeShard E maxShard c) (\<lambda>part.
                      Inr (openShard (length (ws_parts st) + 2), st\<lparr>ws_parts := ws_parts st @ [part], ws_current := None\<rparr>))
               else Inr (c, st))"

definition final_body :: "archive_env \<Rightarrow> aliases \<Rightarrow> (digest \<times> string) list \<Rightarrow> archive_page \<Rightarrow> string \<Rightarrow> archive_file \<Rightarrow> string" where
  "final_body E aliases routes p path f =
     (if ar_kind f = KIND_DOCUMENT
      then (let designed = ae_serialize E (rewriteDesignDocument (ae_cwd E) path aliases (ag_aliases p) (ae_parse E (ar_body f)))
            in ae_serialize E (rewriteSiteNavigation (ae_web E) (ae_cwd E) (ae_url_sha E) (ag_source_final p) path routes (ae_parse E designed)))
      else if isStylesheet f then rewriteCssResourceAliases (ae_cwd E) (ar_body f) (ar_type f) path aliases
      else ar_body f)"

definition final_hash :: "archive_env \<Rightarrow> string \<Rightarrow> archive_file \<Rightarrow> string" where
  "final_hash E body f = (if ar_kind f = KIND_DOCUMENT \<or> isStylesheet f then ae_sha E body else ar_hash f)"

definition add_entry :: "archive_env \<Rightarrow> nat \<Rightarrow> nat \<Rightarrow> string \<Rightarrow> string \<Rightarrow> string \<Rightarrow> string \<Rightarrow> write_state \<Rightarrow> archive_error + write_state" where
  "add_entry E maxShard maxArchive path body hash contentType st =
     (let total = ws_total st + length body; estimated = length body + zipEntryOverhead path
      in if maxArchive < total then Inl SITE_ARCHIVE_BUDGET_EXCEEDED
         else rbind (ensureShard E maxShard estimated st) (\<lambda>(shard, st1).
           Inr (st1\<lparr>ws_written := (toLowerCase path, hash) # ws_written st1, ws_total := total,
             ws_current := Some (shard\<lparr>os_input := os_input shard + estimated,
               os_entries := os_entries shard @ [\<lparr> en_path = path, en_body = body, en_compress = shouldCompress contentType path \<rparr>]\<rparr>)\<rparr>)))"

definition write_file :: "archive_env \<Rightarrow> nat \<Rightarrow> nat \<Rightarrow> aliases \<Rightarrow> (digest \<times> string) list \<Rightarrow> archive_page \<Rightarrow> archive_file
    \<Rightarrow> write_state \<Rightarrow> archive_error + write_state" where
  "write_file E maxShard maxArchive aliases routes p f st =
     rbind (lift_error ARCHIVE_PATH (safeArchivePath (if ar_kind f = KIND_DOCUMENT then pb_local_path (ag_ref p) else ar_path f))) (\<lambda>path.
       if ar_kind f = KIND_RESOURCE \<and> map_of aliases (toLowerCase path) \<noteq> None then Inr st
       else
         (let body = final_body E aliases routes p path f; hash = final_hash E body f
          in case map_of (ws_written st) (toLowerCase path) of
               Some existing \<Rightarrow> if existing \<noteq> hash then Inl (ARCHIVE_PATH SITE_ARCHIVE_PATH_COLLISION) else Inr st
             | None \<Rightarrow> add_entry E maxShard maxArchive path body hash (ar_type f) st))"

definition write_page :: "archive_env \<Rightarrow> nat \<Rightarrow> nat \<Rightarrow> aliases \<Rightarrow> (digest \<times> string) list \<Rightarrow> archive_page
    \<Rightarrow> write_state \<Rightarrow> archive_error + write_state" where
  "write_page E maxShard maxArchive aliases routes p =
     rfold (write_file E maxShard maxArchive aliases routes p) (ag_files p)"

definition write_shards :: "archive_env \<Rightarrow> nat \<Rightarrow> nat \<Rightarrow> aliases \<Rightarrow> (digest \<times> string) list \<Rightarrow> archive_page list \<Rightarrow> archive_error + archive_part list" where
  "write_shards E maxShard maxArchive aliases routes selected =
     rbind (rfold (write_page E maxShard maxArchive aliases routes) selected
              \<lparr> ws_written = [], ws_total = 0, ws_parts = [], ws_current = None \<rparr>) (\<lambda>st.
     rbind (case ws_current st of None \<Rightarrow> Inr (ws_parts st)
            | Some c \<Rightarrow> rbind (closeShard E maxShard c) (\<lambda>part. Inr (ws_parts st @ [part]))) (\<lambda>parts.
       if parts = [] then Inl SITE_ARCHIVE_EMPTY else Inr parts))"

section \<open>The manifest\<close>

datatype manifest_status = REJECTED | OUTCOME page_status

record manifest_page =
  mp_page :: uuid
  mp_source_url :: string
  mp_local_path :: "string option"
  mp_status :: manifest_status
  mp_reason :: "string option"
  mp_design :: "page_design option"
  mp_gaps :: "page_gap list"

record manifest_representative =
  mr_role :: string
  mr_template :: string
  mr_url :: string
  mr_local_path :: string
  mr_fingerprint :: "string option"

record site_manifest =
  mn_root_url :: string
  mn_max_pages :: nat
  mn_max_input :: "nat option"
  mn_max_shard :: nat
  mn_max_archive :: nat
  mn_locale :: string
  mn_discovered :: nat
  mn_rejected :: nat
  mn_grouped :: nat
  mn_rendered :: nat
  mn_packaged :: nat
  mn_completeness :: string
  mn_gap_count :: nat
  mn_gap_reasons :: "(string \<times> nat) list"
  mn_representatives :: "manifest_representative list"
  mn_reasons :: "(string \<times> nat) list"
  mn_listed :: "manifest_page list"
  mn_omitted :: nat
  mn_parts :: "(nat \<times> string \<times> nat \<times> string) list"
  mn_pages :: "manifest_page list"

fun count_reason :: "string \<Rightarrow> (string \<times> nat) list \<Rightarrow> (string \<times> nat) list" where
  "count_reason r [] = [(r, 1)]"
| "count_reason r ((k, n) # cs) = (if k = r then (k, n + 1) # cs else (k, n) # count_reason r cs)"

definition given_reason :: "string option \<Rightarrow> bool" where
  "given_reason r \<longleftrightarrow> (case r of None \<Rightarrow> False | Some s \<Rightarrow> s \<noteq> [])"

definition countReasons :: "(string \<Rightarrow> string \<Rightarrow> int) \<Rightarrow> string option list \<Rightarrow> (string \<times> nat) list" where
  "countReasons collate reasons =
     js_sort (\<lambda>l r. collate (fst l) (fst r))
       (fold (\<lambda>r counts. if given_reason r then count_reason (the r) counts else counts) reasons [])"

definition manifest_page_of :: "archive_env \<Rightarrow> archive_page list \<Rightarrow> archive_page list \<Rightarrow> page_outcome \<Rightarrow> manifest_page" where
  "manifest_page_of E selected losers o' =
     (let duplicate = po_page o' \<in> (\<lambda>p. pb_page (ag_ref p)) ` set losers;
          chosen = find (\<lambda>p. pb_page (ag_ref p) = po_page o') (rev selected)
      in \<lparr> mp_page = po_page o', mp_source_url = sanitizeUrl (ae_web E) (po_public_url o'),
           mp_local_path = (case chosen of None \<Rightarrow> None | Some p \<Rightarrow> Some (po_local_path o')),
           mp_status = (if duplicate then REJECTED else OUTCOME (po_status o')),
           mp_reason = (if duplicate then Some ''LAYOUT_DUPLICATE'' else po_failure_code o'),
           mp_design = Option.bind chosen ag_design,
           mp_gaps = (case chosen of None \<Rightarrow> [] | Some p \<Rightarrow> ag_gaps p) \<rparr>)"

definition group_text :: "archive_page \<Rightarrow> string" where
  "group_text p = (case ag_design p of None \<Rightarrow> ''UNKNOWN'' | Some d \<Rightarrow> pd_role d) @ [CHR 0x0A]
     @ (case ag_design p of None \<Rightarrow> pb_local_path (ag_ref p) | Some d \<Rightarrow> pd_template d)"

definition representative_entry :: "archive_env \<Rightarrow> archive_page \<Rightarrow> manifest_representative" where
  "representative_entry E p =
     \<lparr> mr_role = (case ag_design p of None \<Rightarrow> ''UNKNOWN'' | Some d \<Rightarrow> pd_role d),
       mr_template = (case ag_design p of None \<Rightarrow> pb_local_path (ag_ref p) | Some d \<Rightarrow> pd_template d),
       mr_url = sanitizeUrl (ae_web E) (ag_public_final p), mr_local_path = pb_local_path (ag_ref p),
       mr_fingerprint = Option.bind (ag_design p) pd_fingerprint \<rparr>"

definition completeness_of :: "manifest_page list \<Rightarrow> nat \<Rightarrow> string" where
  "completeness_of mps gaps =
     (if list_ex (\<lambda>p. mp_status p = OUTCOME P_FAILED) mps then ''PARTIAL_RENDER_FAILURE''
      else if list_ex (\<lambda>p. mp_reason p = Some ''CANCELLED'') mps then ''PARTIAL_CANCELLED''
      else if 0 < gaps then ''PARTIAL_RESOURCE_GAPS'' else ''REPRESENTATIVE_COMPLETE'')"

definition site_manifest_of :: "archive_env \<Rightarrow> string \<Rightarrow> archive_budgets option \<Rightarrow> nat \<Rightarrow> nat \<Rightarrow> nat \<Rightarrow> archive_page list \<Rightarrow> archive_page list
    \<Rightarrow> page_outcome list \<Rightarrow> archive_part list \<Rightarrow> site_manifest" where
  "site_manifest_of E rootUrl budgets maxShard maxArchive rendered selected losers outcomes parts =
     (let mps = map (manifest_page_of E selected losers) outcomes;
          refused = filter (\<lambda>p. given_reason (mp_reason p)) mps;
          listed = take 1000 refused;
          gaps = concat (map ag_gaps selected);
          collate = de_collate (ae_design E)
      in \<lparr> mn_root_url = sanitizeUrl (ae_web E) rootUrl,
           mn_max_pages = (case budgets of None \<Rightarrow> length outcomes | Some b \<Rightarrow> ab_max_pages b),
           mn_max_input = map_option ab_max_input budgets, mn_max_shard = maxShard, mn_max_archive = maxArchive,
           mn_locale = (case find (\<lambda>p. ag_design p \<noteq> None) selected of None \<Rightarrow> ''und''
              | Some p \<Rightarrow> pd_locale (the (ag_design p))),
           mn_discovered = length outcomes, mn_rejected = length refused,
           mn_grouped = card (group_text ` set selected), mn_rendered = rendered, mn_packaged = length selected,
           mn_completeness = completeness_of mps (length gaps), mn_gap_count = length gaps,
           mn_gap_reasons = countReasons collate (map (\<lambda>g. Some (pg_reason g)) gaps),
           mn_representatives = map (representative_entry E) selected,
           mn_reasons = countReasons collate (map mp_reason mps), mn_listed = listed,
           mn_omitted = length refused - length listed,
           mn_parts = map (\<lambda>p. (pt_number p, pt_filename p, pt_bytes p, pt_sha p)) parts, mn_pages = mps \<rparr>)"

section \<open>\<open>buildSiteArchives\<close>\<close>

text \<open>From the representatives to the files that are written: the indexed pages, their aliases.\<close>

definition prepare_pages :: "archive_env \<Rightarrow> archive_page list \<Rightarrow> archive_page list \<times> aliases" where
  "prepare_pages E selected =
     (let (indexed, ix) = thread (index_page E) selected \<lparr> ix_canonical = [], ix_aliases = [], ix_sources = [] \<rparr>;
          resolved = map (\<lambda>p. p\<lparr>ag_files := map (resolve_css E ix) (ag_files p)\<rparr>) indexed
      in merge_rounds E resolved (ix_aliases ix))"

record site_archive =
  sa_parts :: "archive_part list"
  sa_manifest :: site_manifest

definition buildSiteArchives :: "archive_env \<Rightarrow> string \<Rightarrow> page_bundle list \<Rightarrow> page_outcome list \<Rightarrow> site_route list \<Rightarrow> nat \<Rightarrow> nat
    \<Rightarrow> archive_budgets option \<Rightarrow> archive_error + site_archive" where
  "buildSiteArchives E rootUrl bundles outcomes routes maxShard maxArchive budgets =
     rbind (rfold (index_bundle E budgets) bundles ([], 0)) (\<lambda>(indexed, cached).
       let (selected, losers) = selectRepresentatives E indexed;
           (prepared, aliases) = prepare_pages E selected
       in rbind (route_map E prepared routes) (\<lambda>routeMap.
          rbind (write_shards E maxShard maxArchive aliases routeMap prepared) (\<lambda>parts.
            Inr \<lparr> sa_parts = parts,
              sa_manifest = site_manifest_of E rootUrl budgets maxShard maxArchive (length bundles) prepared losers outcomes parts \<rparr>)))"

end
