(* ===== verification/Archive_Properties.thy ===== *)
theory Archive_Properties
  imports Site_Archives Design_Properties
begin

text \<open>
  What holds of the bundles that pass between rendering and assembly and of the documents of a site archive.
\<close>

text \<open>
  C35. A bundle within the limits of the decoder comes back from its encoding unchanged, bodies included,
  except that the URLs of its resource gaps are redacted once more; read for another page it is refused.
  The hypothesis on JSON is that the text of this document parses to it.
\<close>

theorem site_bundle_roundtrip:
  assumes "bundle_ok b" "json_parse C (json_text C (bundle_json b)) = Some (bundle_json b)"
  shows "decodeSiteBundle C W (encodeSiteBundle C b) (sx_page_id b) = Inr (b\<lparr>sx_gaps := map_option (map (sanitized_gap W)) (sx_gaps b)\<rparr>)
    \<and> (\<forall>i. i \<noteq> sx_page_id b \<longrightarrow> decodeSiteBundle C W (encodeSiteBundle C b) i = Inl INVALID_SITE_PAGE_BUNDLE)"
proof -
  have "decode_bundle W (bundle_json b) i = Inl INVALID_SITE_PAGE_BUNDLE" if "i \<noteq> sx_page_id b" for i
    using that by (simp add: decode_bundle_def bundle_json_def prop_of_def)
  then show ?thesis
    by (simp add: decodeSiteBundle_def encodeSiteBundle_def assms(2) decode_bundle_json [OF assms(1)])
qed

definition demo_page_bundle :: site_page_bundle where
  "demo_page_bundle = \<lparr> sx_page_id = ''7'', sx_source_final_url = ''s'', sx_public_final_url = ''p'', sx_main_path = ''index.html'',
     sx_captured_at = ''t'', sx_gaps = None, sx_design = None,
     sx_files = [\<lparr> pf_kind = KIND_DOCUMENT, pf_local_path = ''index.html'', pf_source_url = ''s'', pf_content_type = ''text/html'', pf_body = ''<p>'' \<rparr>] \<rparr>"

definition demo_codec :: json_codec where
  "demo_codec = \<lparr> json_text = (\<lambda>j. ''t''), json_parse = (\<lambda>s. Some (bundle_json demo_page_bundle)) \<rparr>"

theorem site_bundle_roundtrip_witness:
  "\<forall>W. decodeSiteBundle demo_codec W (encodeSiteBundle demo_codec demo_page_bundle) ''7'' = Inr demo_page_bundle"
proof -
  have "safeArchivePath ''index.html'' = Inr ''index.html''" by code_simp
  then have ok: "bundle_ok demo_page_bundle" by (simp add: bundle_ok_def demo_page_bundle_def file_ok_def)
  have "json_parse demo_codec (json_text demo_codec (bundle_json demo_page_bundle)) = Some (bundle_json demo_page_bundle)"
    by (simp add: demo_codec_def)
  from site_bundle_roundtrip [OF ok this] show ?thesis by (simp add: demo_page_bundle_def)
qed


section \<open>The shards of a site archive\<close>





























end
