(* ===== verification/Object_Store.thy ===== *)
theory Object_Store
  imports Js_Text Site_Schema
begin

text \<open>
  The client of the object store (\<open>capture-worker/src/storage.ts\<close>): the checks around each request and the
  bounded download. The answers of the store are parameters, digests come from a parameter \<open>sha256\<close>
  (the bytes of a digest) and \<open>hex\<close> (its text).
\<close>

section \<open>Answers of the store\<close>

text \<open>A rejected request has the name of its error and perhaps an HTTP status.\<close>

datatype 'a answer = Answer 'a | Rejected string "nat option"

datatype storage_error = ARTIFACT_SIZE_OUT_OF_BOUNDS | INVALID_STORAGE_BUCKET | ARTIFACT_OBJECT_INTEGRITY_FAILED
  | ARTIFACT_SIZE_MISMATCH | ARTIFACT_OBJECT_MISSING | STORE_ERROR string

record digests =
  sha256 :: "string \<Rightarrow> digest"
  hex :: "digest \<Rightarrow> string"

fun accepted :: "'a answer \<Rightarrow> storage_error + 'a" where
  "accepted (Answer a) = Inr a"
| "accepted (Rejected name status) = Inl (STORE_ERROR name)"

section \<open>Writing\<close>

definition ensureBucket :: "unit answer \<Rightarrow> unit answer \<Rightarrow> storage_error + unit" where
  "ensureBucket head create = (case head of Answer _ \<Rightarrow> Inr () | Rejected _ _ \<Rightarrow> accepted create)"

definition stored_as :: "digests \<Rightarrow> string \<Rightarrow> string \<Rightarrow> string \<Rightarrow> string \<Rightarrow> stored_object" where
  "stored_as D bucket key body contentType = \<lparr> so_bucket = bucket, so_key = key, so_bytes = length body,
     so_sha = sha256 D body, so_content_type = contentType \<rparr>"

definition putObject :: "digests \<Rightarrow> string \<Rightarrow> unit answer \<Rightarrow> string \<Rightarrow> string \<Rightarrow> string \<Rightarrow> storage_error + stored_object" where
  "putObject D bucket sent key body contentType =
     rbind (accepted sent) (\<lambda>_. Inr (stored_as D bucket key body contentType))"

definition putFile :: "digests \<Rightarrow> string \<Rightarrow> unit answer \<Rightarrow> string \<Rightarrow> string \<Rightarrow> string \<Rightarrow> nat \<Rightarrow> storage_error + stored_object" where
  "putFile D bucket sent key file contentType maxBytes =
     (if length file \<le> 0 \<or> maxBytes < length file then Inl ARTIFACT_SIZE_OUT_OF_BOUNDS
      else rbind (accepted sent) (\<lambda>_. Inr (stored_as D bucket key file contentType)))"

definition deleteObject :: "string \<Rightarrow> unit answer \<Rightarrow> stored_object \<Rightarrow> storage_error + unit" where
  "deleteObject bucket sent x = (if so_bucket x \<noteq> bucket then Inl INVALID_STORAGE_BUCKET else accepted sent)"

text \<open>\<open>encodeURIComponent\<close> of a segment is a parameter.\<close>

definition copy_source :: "(string \<Rightarrow> string) \<Rightarrow> stored_object \<Rightarrow> string" where
  "copy_source encode x = so_bucket x @ ''/'' @ join_with (CHR ''/'') (map encode (split_on (CHR ''/'') (so_key x)))"

definition copyObject :: "string \<Rightarrow> unit answer \<Rightarrow> stored_object \<Rightarrow> string \<Rightarrow> storage_error + stored_object" where
  "copyObject bucket sent x key = (if so_bucket x \<noteq> bucket then Inl INVALID_STORAGE_BUCKET
     else rbind (accepted sent) (\<lambda>_. Inr (x\<lparr>so_key := key\<rparr>)))"

text \<open>The answer to \<open>HeadObject\<close>: the length and the digest in the metadata, if any.\<close>

definition verifyObject :: "digests \<Rightarrow> string \<Rightarrow> (nat option \<times> string option) answer \<Rightarrow> stored_object \<Rightarrow> storage_error + unit" where
  "verifyObject D bucket head x = (if so_bucket x \<noteq> bucket then Inl INVALID_STORAGE_BUCKET
     else rbind (accepted head) (\<lambda>(size, sha).
       if size \<noteq> Some (so_bytes x) \<or> sha \<noteq> Some (hex D (so_sha x)) then Inl ARTIFACT_OBJECT_INTEGRITY_FAILED else Inr ()))"

section \<open>Reading\<close>

text \<open>The answer to \<open>GetObject\<close>: the declared length and the chunks of the body.\<close>

record object_content =
  oc_length :: "nat option"
  oc_body :: "string list option"

fun read_chunks :: "nat \<Rightarrow> nat \<Rightarrow> string list \<Rightarrow> storage_error + nat" where
  "read_chunks limit bytes [] = Inr bytes"
| "read_chunks limit bytes (c # cs) =
     (if limit < bytes + length c then Inl ARTIFACT_SIZE_MISMATCH else read_chunks limit (bytes + length c) cs)"

definition read_object :: "nat \<Rightarrow> object_content \<Rightarrow> storage_error + string" where
  "read_object limit x = (case oc_body x of
     None \<Rightarrow> Inl ARTIFACT_OBJECT_MISSING
   | Some chunks \<Rightarrow> if gt_opt (oc_length x) limit then Inl ARTIFACT_SIZE_MISMATCH
       else rbind (read_chunks limit 0 chunks) (\<lambda>_. Inr (concat chunks)))"

text \<open>\<open>downloadFile\<close> knows an absent object by \<open>NoSuchKey\<close> or status 404, \<open>get\<close> also by \<open>NotFound\<close>.\<close>

fun answered :: "string list \<Rightarrow> (object_content \<Rightarrow> storage_error + 'b) \<Rightarrow> object_content answer \<Rightarrow> storage_error + 'b" where
  "answered absent f (Answer x) = f x"
| "answered absent f (Rejected name status) =
     Inl (if name \<in> set absent \<or> status = Some 404 then ARTIFACT_OBJECT_MISSING else STORE_ERROR name)"

record spooled =
  dl_content :: string
  dl_bytes :: nat
  dl_sha_hex :: string

definition download_limit :: nat where "download_limit = 256 * 1024 * 1024"

definition downloadFile :: "digests \<Rightarrow> string \<Rightarrow> object_content answer \<Rightarrow> string \<Rightarrow> nat \<Rightarrow> storage_error + spooled" where
  "downloadFile D own answer bucket maximumBytes =
     (if bucket \<noteq> own then Inl INVALID_STORAGE_BUCKET
      else if maximumBytes \<le> 0 \<or> download_limit < maximumBytes then Inl ARTIFACT_SIZE_MISMATCH
      else rbind (answered [''NoSuchKey''] (read_object maximumBytes) answer) (\<lambda>body.
        Inr \<lparr> dl_content = body, dl_bytes = length body, dl_sha_hex = hex D (sha256 D body) \<rparr>))"

definition getObject :: "string \<Rightarrow> object_content answer \<Rightarrow> string \<Rightarrow> nat \<Rightarrow> storage_error + string" where
  "getObject own answer bucket maximumBytes =
     (if bucket \<noteq> own then Inl INVALID_STORAGE_BUCKET
      else answered [''NoSuchKey'', ''NotFound''] (read_object maximumBytes) answer)"

section \<open>What is read stays within the limit\<close>

lemma read_chunks_total:
  "read_chunks limit bytes chunks = (if chunks = [] \<or> bytes + length (concat chunks) \<le> limit
     then Inr (bytes + length (concat chunks)) else Inl ARTIFACT_SIZE_MISMATCH)"
  by (induction chunks arbitrary: bytes) auto

lemma read_object_bounded:
  "read_object limit x = Inr body \<Longrightarrow> length body \<le> limit \<and> (\<exists>chunks. oc_body x = Some chunks \<and> body = concat chunks)"
  by (auto simp: read_object_def read_chunks_total rbind_def split: option.splits if_splits)

lemma download_bounded:
  assumes "downloadFile D own answer bucket n = Inr f"
  shows "dl_bytes f = length (dl_content f)" "dl_bytes f \<le> n" "0 < n" "n \<le> download_limit" "bucket = own"
    "dl_sha_hex f = hex D (sha256 D (dl_content f))"
proof -
  from assms obtain x body where x: "answer = Answer x" "read_object n x = Inr body"
      "f = \<lparr> dl_content = body, dl_bytes = length body, dl_sha_hex = hex D (sha256 D body) \<rparr>"
    and c: "0 < n" "n \<le> download_limit" "bucket = own"
    by (cases answer) (auto simp: downloadFile_def rbind_def split: if_splits sum.splits)
  then show "dl_bytes f = length (dl_content f)" "dl_bytes f \<le> n" "0 < n" "n \<le> download_limit" "bucket = own"
      "dl_sha_hex f = hex D (sha256 D (dl_content f))"
    using read_object_bounded [OF x(2)] by simp_all
qed

lemma large_download_refused:
  "download_limit < n \<Longrightarrow> downloadFile D own answer own n = Inl ARTIFACT_SIZE_MISMATCH"
  by (simp add: downloadFile_def)

text \<open>An object that was written verifies against an answer with its own length and digest only.\<close>

lemma verify_put:
  assumes "putFile D bucket sent key file contentType maxBytes = Inr x"
  shows "verifyObject D bucket (Answer (len, sha)) x = Inr () \<longleftrightarrow> len = Some (length file) \<and> sha = Some (hex D (sha256 D file))"
  using assms by (auto simp: putFile_def verifyObject_def stored_as_def rbind_def split: if_splits sum.splits)

end
