(* ===== verification/Command_Parsing.thy ===== *)
theory Command_Parsing
  imports Site_Bundles Site_Commands Capture_Jobs
begin

text \<open>
  The requests of the control plane as the capture worker reads them (\<open>capture-worker/src/server.ts\<close>):
  the body of a request, and the checks on the two kinds of command envelopes and on the bodies of browser
  session requests. Numbers are converted and compared as JavaScript does it.
\<close>

section \<open>JavaScript values\<close>

datatype js_num = NaN | Finite rat | Infinite bool

text \<open>\<open>Number\<close> of a text and the text of an array are parameters.\<close>

record js_text =
  text_number :: "string \<Rightarrow> js_num"
  array_text :: "json list \<Rightarrow> string"

text \<open>\<open>Number(value)\<close>; \<open>undefined\<close> is \<open>None\<close>.\<close>

fun number_of_json :: "js_text \<Rightarrow> json \<Rightarrow> js_num" where
  "number_of_json N JNull = Finite 0"
| "number_of_json N (JBool b) = Finite (if b then 1 else 0)"
| "number_of_json N (JInt i) = Finite (of_int i)"
| "number_of_json N (JFraction t) = text_number N t"
| "number_of_json N (JStr t) = text_number N t"
| "number_of_json N (JArr js) = text_number N (array_text N js)"
| "number_of_json N (JObj es) = NaN"

definition js_number :: "js_text \<Rightarrow> json option \<Rightarrow> js_num" where
  "js_number N v = (case v of None \<Rightarrow> NaN | Some j \<Rightarrow> number_of_json N j)"

text \<open>\<open><\<close> and \<open>></\<close> against a number: false for \<open>NaN\<close>.\<close>

fun js_less :: "js_num \<Rightarrow> rat \<Rightarrow> bool" where
  "js_less NaN c = False"
| "js_less (Finite q) c = (q < c)"
| "js_less (Infinite positive) c = (\<not> positive)"

fun js_greater :: "js_num \<Rightarrow> rat \<Rightarrow> bool" where
  "js_greater NaN c = False"
| "js_greater (Finite q) c = (c < q)"
| "js_greater (Infinite positive) c = positive"

fun truthy_json :: "json \<Rightarrow> bool" where
  "truthy_json JNull = False"
| "truthy_json (JBool b) = b"
| "truthy_json (JInt i) = (i \<noteq> 0)"
| "truthy_json (JStr s) = (s \<noteq> [])"
| "truthy_json _ = True"

fun is_object :: "json \<Rightarrow> bool" where
  "is_object (JArr js) = True"
| "is_object (JObj es) = True"
| "is_object _ = False"

text \<open>\<open>===\<close> on values read from one text: two objects are never the same.\<close>

fun same_value :: "json option \<Rightarrow> json option \<Rightarrow> bool" where
  "same_value None None = True"
| "same_value (Some x) (Some y) = (x = y \<and> \<not> is_object x)"
| "same_value _ _ = False"

definition is_string :: "json option \<Rightarrow> bool" where
  "is_string v \<longleftrightarrow> string_of v \<noteq> None"

fun is_integer :: "json option \<Rightarrow> bool" where
  "is_integer (Some (JInt i)) = True"
| "is_integer _ = False"

fun is_safe_integer :: "json option \<Rightarrow> bool" where
  "is_safe_integer (Some (JInt i)) = (\<bar>i\<bar> \<le> 9007199254740991)"
| "is_safe_integer _ = False"

section \<open>Bodies\<close>

datatype request_error = INVALID_COMMAND | INVALID_COMMAND_TOO_LARGE | INVALID_BROWSER_SESSION

definition max_command_bytes :: nat where "max_command_bytes = 64 * 1024"

fun collect_body :: "nat \<Rightarrow> string list \<Rightarrow> request_error + string" where
  "collect_body bytes [] = Inr []"
| "collect_body bytes (c # cs) = (if max_command_bytes < bytes + length c then Inl INVALID_COMMAND_TOO_LARGE
     else rbind (collect_body (bytes + length c) cs) (\<lambda>s. Inr (c @ s)))"

definition readBody :: "json_codec \<Rightarrow> string list \<Rightarrow> request_error + json" where
  "readBody C chunks = rbind (collect_body 0 chunks) (\<lambda>s. case json_parse C s of
     None \<Rightarrow> Inl INVALID_COMMAND | Some j \<Rightarrow> Inr j)"

definition uuid_char :: "char \<Rightarrow> bool" where
  "uuid_char c \<longleftrightarrow> digit c \<or> between (CHR ''a'') (CHR ''f'') c \<or> between (CHR ''A'') (CHR ''F'') c"

text \<open>\<open>/^[0-9a-f]{8}-(?:[0-9a-f]{4}-){3}[0-9a-f]{12}$/iu\<close>\<close>

definition uuid_text :: "string \<Rightarrow> bool" where
  "uuid_text s \<longleftrightarrow> map length (split_on (CHR ''-'') s) = [8, 4, 4, 4, 12]
     \<and> list_all (list_all uuid_char) (split_on (CHR ''-'') s)"

definition parseOwnedBody :: "json \<Rightarrow> request_error + string \<times> json" where
  "parseOwnedBody value =
     (if \<not> is_object value then Inl INVALID_BROWSER_SESSION
      else case string_of (prop_of ''ownerId'' value) of
        None \<Rightarrow> Inl INVALID_BROWSER_SESSION
      | Some ownerId \<Rightarrow> if uuid_text ownerId then Inr (ownerId, value) else Inl INVALID_BROWSER_SESSION)"

definition parseBrowserSessionStart :: "json \<Rightarrow> request_error + string \<times> string" where
  "parseBrowserSessionStart value = rbind (parseOwnedBody value) (\<lambda>(ownerId, input).
     case string_of (prop_of ''targetUrl'' input) of
       None \<Rightarrow> Inl INVALID_BROWSER_SESSION
     | Some targetUrl \<Rightarrow> if length targetUrl < 1 \<or> 8192 < length targetUrl then Inl INVALID_BROWSER_SESSION
         else Inr (ownerId, targetUrl))"

section \<open>Envelopes\<close>

text \<open>\<open>payload && typeof payload\<close>: a property of a payload that is no object is \<open>undefined\<close>.\<close>

definition outside :: "js_text \<Rightarrow> rat \<Rightarrow> rat \<Rightarrow> json option \<Rightarrow> bool" where
  "outside N lo hi v \<longleftrightarrow> js_less (js_number N v) lo \<or> js_greater (js_number N v) hi"

definition parseEnvelope :: "js_text \<Rightarrow> json \<Rightarrow> request_error + json" where
  "parseEnvelope N value =
     (if \<not> is_object value then Inl INVALID_COMMAND
      else case prop_of ''payload'' value of
        None \<Rightarrow> Inl INVALID_COMMAND
      | Some payload \<Rightarrow>
          if prop_of ''aggregateType'' value \<noteq> Some (JStr ''CAPTURE'') \<or> prop_of ''messageType'' value \<noteq> Some (JStr ''CAPTURE_REQUESTED'')
           \<or> prop_of ''contractVersion'' value \<noteq> Some (JInt 1) \<or> \<not> truthy_json payload
           \<or> \<not> same_value (prop_of ''aggregateId'' value) (prop_of ''captureRequestId'' payload)
           \<or> \<not> is_string (prop_of ''messageId'' value) \<or> \<not> is_string (prop_of ''correlationId'' value)
           \<or> \<not> is_string (prop_of ''targetUrl'' payload) \<or> prop_of ''measurementProfile'' payload \<noteq> Some (JStr ''desktop-lab-v1'')
           \<or> prop_of ''viewportWidth'' payload \<noteq> Some (JInt 1365) \<or> prop_of ''viewportHeight'' payload \<noteq> Some (JInt 768)
           \<or> prop_of ''timeoutSeconds'' payload \<noteq> Some (JInt 30)
           \<or> outside N 1 500 (prop_of ''maxNetworkRequests'' payload)
           \<or> outside N 0 100 (prop_of ''maxResourceBodies'' payload)
           \<or> outside N 1 52428800 (prop_of ''maxTotalBytes'' payload)
           \<or> outside N 1 10485760 (prop_of ''maxResourceBytes'' payload)
          then Inl INVALID_COMMAND else Inr value)"

text \<open>\<open>!Number.isInteger(v) || Number(v) < lo || Number(v) > hi\<close>, and the same with \<open>isSafeInteger\<close>.\<close>

definition integer_within :: "int \<Rightarrow> int \<Rightarrow> json option \<Rightarrow> bool" where
  "integer_within lo hi v \<longleftrightarrow> is_integer v \<and> (case v of Some (JInt i) \<Rightarrow> lo \<le> i \<and> i \<le> hi | _ \<Rightarrow> False)"

definition safe_integer_within :: "int \<Rightarrow> int \<Rightarrow> json option \<Rightarrow> bool" where
  "safe_integer_within lo hi v \<longleftrightarrow> is_safe_integer v \<and> (case v of Some (JInt i) \<Rightarrow> lo \<le> i \<and> i \<le> hi | _ \<Rightarrow> False)"

definition integer_value :: "json option \<Rightarrow> int" where
  "integer_value v = (case v of Some (JInt i) \<Rightarrow> i | _ \<Rightarrow> 0)"

definition requested_payload :: "json \<Rightarrow> bool" where
  "requested_payload payload \<longleftrightarrow>
     is_string (prop_of ''scanId'' payload) \<and> is_string (prop_of ''rootUrl'' payload)
   \<and> integer_within 1 100000 (prop_of ''maxPages'' payload)
   \<and> safe_integer_within 1 214748364800 (prop_of ''maxInputBytes'' payload)
   \<and> safe_integer_within 1 53687091200 (prop_of ''maxArchiveBytes'' payload)
   \<and> safe_integer_within 1048576 2147483648 (prop_of ''maxShardBytes'' payload)
   \<and> integer_within 1 32 (prop_of ''pageConcurrency'' payload)
   \<and> integer_within 1 3 (prop_of ''maxRetriesPerPage'' payload)
   \<and> integer_within 60 604800 (prop_of ''maxDurationSeconds'' payload)
   \<and> integer_within 1 30 (prop_of ''archiveRetentionDays'' payload)
   \<and> integer_within (integer_value (prop_of ''archiveRetentionDays'' payload)) 365 (prop_of ''metadataRetentionDays'' payload)
   \<and> prop_of ''sameOriginOnly'' payload = Some (JBool True)"

definition parseSiteCloneEnvelope :: "json \<Rightarrow> request_error + json" where
  "parseSiteCloneEnvelope value =
     (if \<not> is_object value then Inl INVALID_COMMAND
      else case prop_of ''payload'' value of
        None \<Rightarrow> Inl INVALID_COMMAND
      | Some payload \<Rightarrow>
          if prop_of ''aggregateType'' value \<noteq> Some (JStr ''SITE_CLONE'') \<or> prop_of ''contractVersion'' value \<noteq> Some (JInt 1)
           \<or> \<not> is_string (prop_of ''messageId'' value) \<or> \<not> is_string (prop_of ''aggregateId'' value)
           \<or> \<not> is_string (prop_of ''correlationId'' value) \<or> \<not> truthy_json payload
           \<or> \<not> same_value (prop_of ''siteCloneRequestId'' payload) (prop_of ''aggregateId'' value)
           \<or> \<not> is_string (prop_of ''ownerId'' payload)
          then Inl INVALID_COMMAND
          else if prop_of ''messageType'' value = Some (JStr ''SITE_CLONE_REQUESTED'')
          then (if requested_payload payload then Inr value else Inl INVALID_COMMAND)
          else if prop_of ''messageType'' value \<noteq> Some (JStr ''SITE_CLONE_CANCEL_REQUESTED'')
             \<or> \<not> is_string (prop_of ''requestedAt'' payload)
          then Inl INVALID_COMMAND else Inr value)"

section \<open>Commands as the database stores them\<close>

definition read_nat :: "json option \<Rightarrow> nat option" where
  "read_nat v = (case v of Some (JInt i) \<Rightarrow> if 0 \<le> i then Some (nat i) else None | _ \<Rightarrow> None)"

definition read_bool :: "json option \<Rightarrow> bool option" where
  "read_bool v = (case v of Some (JBool b) \<Rightarrow> Some b | _ \<Rightarrow> None)"

definition bind_opt :: "'a option \<Rightarrow> ('a \<Rightarrow> 'b option) \<Rightarrow> 'b option" where
  "bind_opt x f = (case x of None \<Rightarrow> None | Some v \<Rightarrow> f v)"

text \<open>The columns of the policy, as \<open>acceptRequested\<close> inserts them.\<close>

definition read_policy :: "json \<Rightarrow> job_policy option" where
  "read_policy p =
     bind_opt (read_nat (prop_of ''maxPages'' p)) (\<lambda>mp.
     bind_opt (read_nat (prop_of ''maxInputBytes'' p)) (\<lambda>mi.
     bind_opt (read_nat (prop_of ''maxArchiveBytes'' p)) (\<lambda>ma.
     bind_opt (read_nat (prop_of ''maxShardBytes'' p)) (\<lambda>ms.
     bind_opt (read_nat (prop_of ''pageConcurrency'' p)) (\<lambda>pc.
     bind_opt (read_nat (prop_of ''maxRetriesPerPage'' p)) (\<lambda>mr.
     bind_opt (read_nat (prop_of ''maxDurationSeconds'' p)) (\<lambda>md.
     bind_opt (read_nat (prop_of ''archiveRetentionDays'' p)) (\<lambda>ar.
     bind_opt (read_nat (prop_of ''metadataRetentionDays'' p)) (\<lambda>me.
     bind_opt (read_bool (prop_of ''sameOriginOnly'' p)) (\<lambda>so.
       Some \<lparr> maxPages = mp, maxInputBytes = mi, maxArchiveBytes = ma, maxShardBytes = ms, pageConcurrency = pc,
         maxRetriesPerPage = mr, maxDurationSeconds = md, archiveRetentionDays = ar, metadataRetentionDays = me,
         sameOriginOnly = so \<rparr>))))))))))"

text \<open>
  The columns of the other fields. Their texts become values of the column types or the insertion fails: the
  reading of a \<open>uuid\<close> is a parameter, \<open>aggregateVersion\<close> and \<open>occurredAt\<close> are fields of the envelope that
  the parser does not look at.
\<close>

definition read_uuid :: "(string \<Rightarrow> uuid option) \<Rightarrow> json option \<Rightarrow> uuid option" where
  "read_uuid U v = bind_opt (string_of v) U"

definition read_site_command :: "(string \<Rightarrow> uuid option) \<Rightarrow> json \<Rightarrow> site_command option" where
  "read_site_command U j =
     bind_opt (prop_of ''payload'' j) (\<lambda>p.
     bind_opt (read_uuid U (prop_of ''messageId'' j)) (\<lambda>m.
     bind_opt (read_uuid U (prop_of ''aggregateId'' j)) (\<lambda>a.
     bind_opt (read_uuid U (prop_of ''correlationId'' j)) (\<lambda>c.
     bind_opt (read_uuid U (prop_of ''ownerId'' p)) (\<lambda>owner.
     bind_opt (read_nat (prop_of ''aggregateVersion'' j)) (\<lambda>version.
     bind_opt (string_of (prop_of ''occurredAt'' j)) (\<lambda>occurred.
       if prop_of ''messageType'' j = Some (JStr ''SITE_CLONE_REQUESTED'') then
         bind_opt (read_uuid U (prop_of ''scanId'' p)) (\<lambda>scan.
         bind_opt (string_of (prop_of ''rootUrl'' p)) (\<lambda>root.
         bind_opt (read_policy p) (\<lambda>q.
           Some (Requested \<lparr> rq_message_id = m, rq_aggregate_version = version, rq_corr = c, rq_occurred_at = occurred,
             rq_site_clone_id = a, rq_owner = owner, rq_scan = scan, rq_root_url = root, rq_policy = q \<rparr>))))
       else
         bind_opt (string_of (prop_of ''requestedAt'' p)) (\<lambda>asked.
           Some (CancelRequested \<lparr> cn_message_id = m, cn_aggregate_id = a, cn_aggregate_version = version, cn_corr = c,
             cn_occurred_at = occurred, cn_owner = owner, cn_requested_at = asked \<rparr>)))))))))"

section \<open>Lemmas\<close>

lemma bind_opt_Some [simp]: "bind_opt x f = Some y \<longleftrightarrow> (\<exists>v. x = Some v \<and> f v = Some y)"
  by (cases x) (simp_all add: bind_opt_def)

lemma collect_body_bounded: "collect_body bytes cs = Inr s \<Longrightarrow> cs \<noteq> [] \<Longrightarrow> bytes + length s \<le> max_command_bytes \<and> s = concat cs"
  by (induction cs arbitrary: bytes s) (force simp: rbind_def split: if_splits sum.splits)+

lemma integer_within_nat:
  "0 \<le> lo \<Longrightarrow> integer_within lo hi v \<longleftrightarrow> (\<exists>n. read_nat v = Some n \<and> lo \<le> int n \<and> int n \<le> hi)"
  by (cases v; cases "the v") (auto simp: integer_within_def read_nat_def split: option.splits json.splits)

lemma safe_integer_within_nat:
  "0 \<le> lo \<Longrightarrow> hi \<le> 9007199254740991 \<Longrightarrow>
    safe_integer_within lo hi v \<longleftrightarrow> (\<exists>n. read_nat v = Some n \<and> lo \<le> int n \<and> int n \<le> hi)"
  by (cases v; cases "the v") (auto simp: safe_integer_within_def read_nat_def split: option.splits json.splits)

lemma read_nat_value: "read_nat v = Some n \<Longrightarrow> integer_value v = int n"
  by (auto simp: read_nat_def integer_value_def split: option.splits json.splits if_splits)

lemma same_string: "is_string (Some v) \<Longrightarrow> same_value x (Some v) \<longleftrightarrow> x = Some v"
  by (cases x; cases v) (auto simp: is_string_def string_of_def)

lemma parsed_unchanged:
  "parseEnvelope N j = Inr v \<Longrightarrow> v = j" "parseSiteCloneEnvelope j = Inr v \<Longrightarrow> v = j"
  by (auto simp: parseEnvelope_def parseSiteCloneEnvelope_def split: if_splits option.splits)

lemma read_policy_Some:
  "read_policy p = Some q \<longleftrightarrow>
     read_nat (prop_of ''maxPages'' p) = Some (maxPages q) \<and> read_nat (prop_of ''maxInputBytes'' p) = Some (maxInputBytes q)
   \<and> read_nat (prop_of ''maxArchiveBytes'' p) = Some (maxArchiveBytes q) \<and> read_nat (prop_of ''maxShardBytes'' p) = Some (maxShardBytes q)
   \<and> read_nat (prop_of ''pageConcurrency'' p) = Some (pageConcurrency q) \<and> read_nat (prop_of ''maxRetriesPerPage'' p) = Some (maxRetriesPerPage q)
   \<and> read_nat (prop_of ''maxDurationSeconds'' p) = Some (maxDurationSeconds q)
   \<and> read_nat (prop_of ''archiveRetentionDays'' p) = Some (archiveRetentionDays q)
   \<and> read_nat (prop_of ''metadataRetentionDays'' p) = Some (metadataRetentionDays q)
   \<and> prop_of ''sameOriginOnly'' p = Some (JBool (sameOriginOnly q))"
  by (cases q) (auto simp: read_policy_def read_bool_def split: option.splits json.splits)

text \<open>The server accepts a policy just when the CHECK constraints of the table do.\<close>

lemma requested_payload_checks:
  "requested_payload p \<longleftrightarrow> is_string (prop_of ''scanId'' p) \<and> is_string (prop_of ''rootUrl'' p)
     \<and> (\<exists>q. read_policy p = Some q \<and> policy_check q \<and> 60 \<le> maxDurationSeconds q \<and> maxDurationSeconds q \<le> 604800)"
  (is "?l \<longleftrightarrow> ?r")
proof
  assume l: ?l
  note w = l [unfolded requested_payload_def]
  obtain mp mi ma ms pc mr md ar where n: "read_nat (prop_of ''maxPages'' p) = Some mp" "read_nat (prop_of ''maxInputBytes'' p) = Some mi"
    "read_nat (prop_of ''maxArchiveBytes'' p) = Some ma" "read_nat (prop_of ''maxShardBytes'' p) = Some ms"
    "read_nat (prop_of ''pageConcurrency'' p) = Some pc" "read_nat (prop_of ''maxRetriesPerPage'' p) = Some mr"
    "read_nat (prop_of ''maxDurationSeconds'' p) = Some md" "read_nat (prop_of ''archiveRetentionDays'' p) = Some ar"
    using w by (auto simp: integer_within_nat safe_integer_within_nat)
  obtain me where me: "read_nat (prop_of ''metadataRetentionDays'' p) = Some me" "ar \<le> me" "me \<le> 365"
    using w n integer_within_nat [of "int ar"] read_nat_value [OF n(8)] by auto
  define q where "q = \<lparr> maxPages = mp, maxInputBytes = mi, maxArchiveBytes = ma, maxShardBytes = ms, pageConcurrency = pc,
         maxRetriesPerPage = mr, maxDurationSeconds = md, archiveRetentionDays = ar, metadataRetentionDays = me,
         sameOriginOnly = True \<rparr>"
  have "read_policy p = Some q" using n me w by (simp add: read_policy_Some q_def)
  moreover have "policy_check q \<and> 60 \<le> maxDurationSeconds q \<and> maxDurationSeconds q \<le> 604800"
    using w n me by (simp add: policy_check_def q_def integer_within_nat safe_integer_within_nat)
  ultimately show ?r using w by blast
next
  assume r: ?r
  then obtain q where q: "read_policy p = Some q" "policy_check q" "60 \<le> maxDurationSeconds q" "maxDurationSeconds q \<le> 604800"
    by blast
  have "integer_value (prop_of ''archiveRetentionDays'' p) = int (archiveRetentionDays q)"
    using q(1) read_nat_value by (simp add: read_policy_Some)
  with q r show ?l
    by (simp add: read_policy_Some requested_payload_def integer_within_nat safe_integer_within_nat policy_check_def)
qed

end
