(* ===== verification/Browser_Sessions.thy ===== *)
theory Browser_Sessions
  imports Command_Parsing Web_Urls "HOL-Library.AList"
begin

text \<open>
  The interactive browser sessions of the capture worker (\<open>capture-worker/src/browser-session.ts\<close>): the
  manager's maps and counter, its timers, and the operations of the server on it. Browsers, pages, timers and
  waiters are numbers; a start runs in three steps, before the browser is open, after it, and at its end, and
  any other event of the process may come between them. Times are milliseconds.
\<close>

section \<open>State\<close>

datatype session_status = AWAITING_USER | READY

datatype session_error = BROWSER_SESSION_NOT_FOUND | BROWSER_SESSION_CAPACITY_REACHED | BROWSER_SESSION_ALREADY_READY
  | BROWSER_SESSION_NAVIGATION_FAILED | BROWSER_SESSION_PAGE_CLOSED | INVALID_BROWSER_ACTION

record browser_page =
  bp_id :: nat
  bp_closed :: bool
  bp_url :: string

record session =
  bs_owner :: string
  bs_browser :: nat
  bs_connected :: bool
  bs_pages :: "browser_page list"
  bs_active :: nat
  bs_width :: int
  bs_height :: int
  bs_status :: session_status
  bs_expires :: nat
  bs_timer :: nat
  bs_waiters :: "nat list"

text \<open>The frame of a running \<open>startSession\<close>: its arguments and the browser it opened, if any.\<close>

record start_frame =
  sf_site :: string
  sf_owner :: string
  sf_browser :: "nat option"

text \<open>
  \<open>sessions\<close> and \<open>pendingStarts\<close> are the maps of the manager, \<open>frames\<close> the running starts that \<open>starting\<close>
  counts; \<open>timers\<close> are the timers set and neither fired nor cleared, with their due time and the identifier
  their callback closes; \<open>resolved\<close> the answers given to waiters; \<open>browsers\<close> the browsers that are open.
\<close>

record manager =
  sessions :: "(string \<times> session) list"
  pending_starts :: "(string \<times> string) list"
  frames :: "start_frame list"
  starting :: nat
  timers :: "(nat \<times> nat \<times> string) list"
  resolved :: "(nat \<times> nat option) list"
  browsers :: "nat list"

definition session_ttl :: nat where "session_ttl = 10 * 60 * 1000"

definition max_sessions :: nat where "max_sessions = 1"

definition new_manager :: manager where
  "new_manager = \<lparr> sessions = [], pending_starts = [], frames = [], starting = 0, timers = [], resolved = [], browsers = [] \<rparr>"

definition closeById :: "string \<Rightarrow> manager \<Rightarrow> manager" where
  "closeById site m = (case map_of (sessions m) site of
     None \<Rightarrow> m
   | Some s \<Rightarrow> m\<lparr> sessions := AList.delete site (sessions m),
       timers := filter (\<lambda>t. fst t \<noteq> bs_timer s) (timers m),
       resolved := resolved m @ map (\<lambda>w. (w, None)) (bs_waiters s),
       browsers := removeAll (bs_browser s) (browsers m) \<rparr>)"

definition page_open :: "session \<Rightarrow> bool" where
  "page_open s \<longleftrightarrow> list_ex (\<lambda>p. \<not> bp_closed p) (bs_pages s)"

text \<open>A session that is expired, disconnected or has no page left is closed by whoever looks for it.\<close>

definition gone :: "nat \<Rightarrow> session \<Rightarrow> bool" where
  "gone clk s \<longleftrightarrow> bs_expires s \<le> clk \<or> \<not> bs_connected s \<or> \<not> page_open s"

definition owned :: "nat \<Rightarrow> string \<Rightarrow> string \<Rightarrow> manager \<Rightarrow> session option \<times> manager" where
  "owned clk ownerId site m = (case map_of (sessions m) site of
     None \<Rightarrow> (None, m)
   | Some s \<Rightarrow> if bs_owner s \<noteq> ownerId then (None, m)
       else if gone clk s then (None, closeById site m) else (Some s, m))"

definition put_session :: "string \<Rightarrow> session \<Rightarrow> manager \<Rightarrow> manager" where
  "put_session site s m = m\<lparr> sessions := AList.update site s (sessions m) \<rparr>"

text \<open>The active page, or else the last one still open.\<close>

definition session_page :: "session \<Rightarrow> session_error + browser_page \<times> session" where
  "session_page s = (case find (\<lambda>p. bp_id p = bs_active s \<and> \<not> bp_closed p) (bs_pages s) of
     Some p \<Rightarrow> Inr (p, s)
   | None \<Rightarrow> (case filter (\<lambda>p. \<not> bp_closed p) (bs_pages s) of
       [] \<Rightarrow> Inl BROWSER_SESSION_PAGE_CLOSED
     | ps \<Rightarrow> Inr (last ps, s\<lparr>bs_active := bp_id (last ps)\<rparr>)))"

record session_view =
  sv_status :: session_status
  sv_current_url :: string
  sv_expires :: nat
  sv_width :: int
  sv_height :: int

definition toStatus :: "web \<Rightarrow> session \<Rightarrow> session_error + session_view \<times> session" where
  "toStatus W s = rbind (session_page s) (\<lambda>(p, s'). Inr (\<lparr> sv_status = bs_status s, sv_current_url = publicUrl W (bp_url p),
     sv_expires = bs_expires s, sv_width = bs_width s, sv_height = bs_height s \<rparr>, s'))"

definition show_session :: "web \<Rightarrow> string \<Rightarrow> session \<Rightarrow> manager \<Rightarrow> (session_error + session_view) \<times> manager" where
  "show_session W site s m = (case toStatus W s of Inl e \<Rightarrow> (Inl e, m) | Inr (v, s') \<Rightarrow> (Inr v, put_session site s' m))"

section \<open>Starting\<close>

text \<open>
  \<open>start\<close> up to its first \<open>await\<close>: it joins a running start, answers with the session of the caller, fails, or
  begins a frame.
\<close>

datatype start_outcome = Joined | Shown session_view | Refused session_error | Begun

definition start_session :: "web \<Rightarrow> nat \<Rightarrow> string \<Rightarrow> string \<Rightarrow> manager \<Rightarrow> start_outcome \<times> manager" where
  "start_session W clk ownerId site m = (case map_of (pending_starts m) site of
     Some other \<Rightarrow> (if other \<noteq> ownerId then Refused BROWSER_SESSION_NOT_FOUND else Joined, m)
   | None \<Rightarrow> (case owned clk ownerId site m of
       (Some s, m1) \<Rightarrow> (case show_session W site s m1 of (Inl e, m2) \<Rightarrow> (Refused e, m2) | (Inr v, m2) \<Rightarrow> (Shown v, m2))
     | (None, m1) \<Rightarrow>
         if map_of (sessions m1) site \<noteq> None then (Refused BROWSER_SESSION_NOT_FOUND, m1)
         else if max_sessions \<le> length (sessions m1) + starting m1 then (Refused BROWSER_SESSION_CAPACITY_REACHED, m1)
         else (Begun, m1\<lparr> starting := starting m1 + 1,
                 frames := frames m1 @ [\<lparr> sf_site = site, sf_owner = ownerId, sf_browser = None \<rparr>],
                 pending_starts := AList.update site ownerId (pending_starts m1) \<rparr>)))"

text \<open>The browser, its first page and the timer are there: the session is stored.\<close>

definition new_session :: "nat \<Rightarrow> string \<Rightarrow> nat \<Rightarrow> nat \<Rightarrow> nat \<Rightarrow> session" where
  "new_session clk ownerId browser page timer = \<lparr> bs_owner = ownerId, bs_browser = browser, bs_connected = True,
     bs_pages = [\<lparr> bp_id = page, bp_closed = False, bp_url = ''about:blank'' \<rparr>], bs_active = page, bs_width = 1365, bs_height = 768,
     bs_status = AWAITING_USER, bs_expires = clk + session_ttl, bs_timer = timer, bs_waiters = [] \<rparr>"

definition session_opened :: "nat \<Rightarrow> nat \<Rightarrow> nat \<Rightarrow> nat \<Rightarrow> start_frame \<Rightarrow> manager \<Rightarrow> manager" where
  "session_opened clk browser page timer f m =
     (put_session (sf_site f) (new_session clk (sf_owner f) browser page timer) m)
       \<lparr> timers := timers m @ [(timer, clk + session_ttl, sf_site f)],
         browsers := browsers m @ [browser],
         frames := map (\<lambda>g. if g = f then f\<lparr>sf_browser := Some browser\<rparr> else g) (frames m) \<rparr>"

definition leave_frame :: "start_frame \<Rightarrow> manager \<Rightarrow> manager" where
  "leave_frame f m = m\<lparr> starting := starting m - 1, frames := remove1 f (frames m),
     pending_starts := AList.delete (sf_site f) (pending_starts m) \<rparr>"

text \<open>The viewport the page reports, \<open>measuredViewport\<close>.\<close>

definition in_bounds :: "int \<Rightarrow> int \<Rightarrow> int \<Rightarrow> bool" where
  "in_bounds lo hi v \<longleftrightarrow> lo \<le> v \<and> v \<le> hi"

definition measuredViewport :: "(int \<times> int) option \<Rightarrow> int \<times> int" where
  "measuredViewport reported = (case reported of
     Some (w, h) \<Rightarrow> if in_bounds 320 4096 w \<and> in_bounds 200 4096 h then (w, h) else (1365, 768)
   | None \<Rightarrow> (1365, 768))"

text \<open>A start that came to its end; its session may have been closed in the meantime.\<close>

definition session_started :: "(int \<times> int) option \<Rightarrow> start_frame \<Rightarrow> manager \<Rightarrow> manager" where
  "session_started reported f m = leave_frame f
     (case map_of (sessions m) (sf_site f) of
        None \<Rightarrow> m
      | Some s \<Rightarrow> put_session (sf_site f) (s\<lparr>bs_width := fst (measuredViewport reported), bs_height := snd (measuredViewport reported)\<rparr>) m)"

text \<open>The \<open>disconnected\<close> event of a browser, which closing it raises as well.\<close>

definition disconnected :: "nat \<Rightarrow> string \<Rightarrow> manager \<Rightarrow> manager" where
  "disconnected browser site m = (case map_of (sessions m) site of
     Some s \<Rightarrow> if bs_browser s = browser then closeById site m else m
   | None \<Rightarrow> m)"

text \<open>The \<open>catch\<close> block: the browser is closed and the session forgotten.\<close>

definition start_failed :: "start_frame \<Rightarrow> manager \<Rightarrow> manager" where
  "start_failed f m = (let m1 = (case sf_browser f of
       None \<Rightarrow> m
     | Some b \<Rightarrow> (disconnected b (sf_site f) m)\<lparr>browsers := removeAll b (browsers (disconnected b (sf_site f) m))\<rparr>)
     in leave_frame f (m1\<lparr>sessions := AList.delete (sf_site f) (sessions m1)\<rparr>))"

section \<open>Operations\<close>

definition session_state :: "web \<Rightarrow> nat \<Rightarrow> string \<Rightarrow> string \<Rightarrow> manager \<Rightarrow> (session_error + session_view option) \<times> manager" where
  "session_state W clk ownerId site m = (case owned clk ownerId site m of
     (None, m1) \<Rightarrow> (Inr None, m1)
   | (Some s, m1) \<Rightarrow> (case show_session W site s m1 of (Inl e, m2) \<Rightarrow> (Inl e, m2) | (Inr v, m2) \<Rightarrow> (Inr (Some v), m2)))"

text \<open>\<open>screenshot\<close>: the page whose picture is taken.\<close>

definition session_screenshot :: "nat \<Rightarrow> string \<Rightarrow> string \<Rightarrow> manager \<Rightarrow> (session_error + nat option) \<times> manager" where
  "session_screenshot clk ownerId site m = (case owned clk ownerId site m of
     (None, m1) \<Rightarrow> (Inr None, m1)
   | (Some s, m1) \<Rightarrow> (case session_page s of Inl e \<Rightarrow> (Inl e, m1) | Inr (p, s') \<Rightarrow> (Inr (Some (bp_id p)), put_session site s' m1)))"

datatype action = Click int int | Type string | Key string | Scroll int

definition allowed_keys :: "string list" where
  "allowed_keys = [''Enter'', ''Tab'', ''Escape'', ''Backspace'', ''Delete'', ''ArrowUp'', ''ArrowDown'', ''ArrowLeft'',
     ''ArrowRight'', ''Home'', ''End'', ''PageUp'', ''PageDown'']"

definition integer_in :: "int \<Rightarrow> int \<Rightarrow> json option \<Rightarrow> bool" where
  "integer_in lo hi v \<longleftrightarrow> (case v of Some (JInt i) \<Rightarrow> in_bounds lo hi i | _ \<Rightarrow> False)"

definition validateBrowserSessionAction :: "json option \<Rightarrow> int \<times> int \<Rightarrow> session_error + action" where
  "validateBrowserSessionAction value viewport = (case value of
     None \<Rightarrow> Inl INVALID_BROWSER_ACTION
   | Some v \<Rightarrow>
       (let kind = prop_of ''type'' v; x = prop_of ''x'' v; y = prop_of ''y'' v; dy = prop_of ''deltaY'' v in
        if \<not> is_object v then Inl INVALID_BROWSER_ACTION
        else if kind = Some (JStr ''click'') \<and> integer_in 0 (fst viewport - 1) x \<and> integer_in 0 (snd viewport - 1) y
        then Inr (Click (integer_value x) (integer_value y))
        else case (if kind = Some (JStr ''type'') then string_of (prop_of ''text'' v) else None) of
          Some t \<Rightarrow> if 0 < length t \<and> length t \<le> 4096 then Inr (Type t) else Inl INVALID_BROWSER_ACTION
        | None \<Rightarrow> (case (if kind = Some (JStr ''key'') then string_of (prop_of ''key'' v) else None) of
            Some k \<Rightarrow> if k \<in> set allowed_keys then Inr (Key k) else Inl INVALID_BROWSER_ACTION
          | None \<Rightarrow> if kind = Some (JStr ''scroll'') \<and> integer_in (-2000) 2000 dy \<and> dy \<noteq> Some (JInt 0)
              then Inr (Scroll (integer_value dy)) else Inl INVALID_BROWSER_ACTION)))"

text \<open>\<open>act\<close>: the action that reaches a page, and the new status. What the page does with it comes as an event.\<close>

definition session_act :: "web \<Rightarrow> nat \<Rightarrow> string \<Rightarrow> string \<Rightarrow> json option \<Rightarrow> manager
    \<Rightarrow> (session_error + (session_view \<times> nat \<times> action) option) \<times> manager" where
  "session_act W clk ownerId site raw m = (case owned clk ownerId site m of
     (None, m1) \<Rightarrow> (Inr None, m1)
   | (Some s, m1) \<Rightarrow>
       if bs_status s \<noteq> AWAITING_USER then (Inl BROWSER_SESSION_ALREADY_READY, m1)
       else case validateBrowserSessionAction raw (bs_width s, bs_height s) of
         Inl e \<Rightarrow> (Inl e, m1)
       | Inr a \<Rightarrow> (case toStatus W s of
           Inl e \<Rightarrow> (Inl e, m1)
         | Inr (v, s') \<Rightarrow> (Inr (Some (v, bs_active s', a)), put_session site s' m1)))"

definition session_ready :: "web \<Rightarrow> nat \<Rightarrow> string \<Rightarrow> string \<Rightarrow> manager \<Rightarrow> (session_error + session_view option) \<times> manager" where
  "session_ready W clk ownerId site m = (case owned clk ownerId site m of
     (None, m1) \<Rightarrow> (Inr None, m1)
   | (Some s, m1) \<Rightarrow>
       (let s1 = s\<lparr>bs_status := READY, bs_waiters := []\<rparr>;
            m2 = put_session site s1 (m1\<lparr>resolved := resolved m1 @ map (\<lambda>w. (w, Some (bs_browser s))) (bs_waiters s)\<rparr>)
        in case show_session W site s1 m2 of (Inl e, m3) \<Rightarrow> (Inl e, m3) | (Inr v, m3) \<Rightarrow> (Inr (Some v), m3)))"

text \<open>\<open>waitForReady\<close> resolves at once, or registers a waiter whose timer resolves it with \<open>null\<close>.\<close>

datatype wait_outcome = Resolved "nat option" | Waiting nat

definition wait_millis :: "int \<Rightarrow> int \<Rightarrow> int" where
  "wait_millis timeout left = max 1 (min timeout left)"

definition waitForReady :: "nat \<Rightarrow> string \<Rightarrow> string \<Rightarrow> int \<Rightarrow> nat \<Rightarrow> manager \<Rightarrow> wait_outcome \<times> manager" where
  "waitForReady clk ownerId site timeoutMillis waiter m = (case owned clk ownerId site m of
     (None, m1) \<Rightarrow> (Resolved None, m1)
   | (Some s, m1) \<Rightarrow>
       if bs_status s = READY then (Resolved (Some (bs_browser s)), m1)
       else (Waiting (nat (wait_millis timeoutMillis (int (bs_expires s) - int clk))),
             put_session site (s\<lparr>bs_waiters := bs_waiters s @ [waiter]\<rparr>) m1))"

definition wait_timeout :: "string \<Rightarrow> nat \<Rightarrow> manager \<Rightarrow> manager" where
  "wait_timeout site waiter m = (case map_of (sessions m) site of
     None \<Rightarrow> m
   | Some s \<Rightarrow> if waiter \<in> set (bs_waiters s)
       then (put_session site (s\<lparr>bs_waiters := removeAll waiter (bs_waiters s)\<rparr>) m)\<lparr>resolved := resolved m @ [(waiter, None)]\<rparr>
       else m)"

definition session_close :: "nat \<Rightarrow> string \<Rightarrow> string \<Rightarrow> manager \<Rightarrow> bool \<times> manager" where
  "session_close clk ownerId site m = (case owned clk ownerId site m of
     (None, m1) \<Rightarrow> (False, m1) | (Some s, m1) \<Rightarrow> (True, closeById site m1))"

definition closeAll :: "manager \<Rightarrow> manager" where
  "closeAll m = fold closeById (map fst (sessions m)) m"

text \<open>The callback of a timer that is due, and the events of a browser.\<close>

definition timer_fires :: "nat \<times> nat \<times> string \<Rightarrow> manager \<Rightarrow> manager" where
  "timer_fires t m = closeById (snd (snd t)) (m\<lparr>timers := removeAll t (timers m)\<rparr>)"

definition page_opened :: "string \<Rightarrow> browser_page \<Rightarrow> manager \<Rightarrow> manager" where
  "page_opened site p m = (case map_of (sessions m) site of
     Some s \<Rightarrow> put_session site (s\<lparr>bs_pages := bs_pages s @ [p], bs_active := bp_id p\<rparr>) m
   | None \<Rightarrow> m)"

definition pages_changed :: "string \<Rightarrow> (browser_page \<Rightarrow> browser_page) \<Rightarrow> bool \<Rightarrow> manager \<Rightarrow> manager" where
  "pages_changed site f alive m = (case map_of (sessions m) site of
     Some s \<Rightarrow> put_session site (s\<lparr>bs_pages := map f (bs_pages s), bs_connected := alive\<rparr>) m
   | None \<Rightarrow> m)"

section \<open>The manager as a transition system\<close>

text \<open>New browsers, pages, timers and waiters have numbers not used before; a page never changes its number.\<close>

inductive manager_step :: "web \<Rightarrow> manager \<Rightarrow> manager \<Rightarrow> bool" for W where
  start: "manager_step W m (snd (start_session W clk ownerId site m))"
| opened: "f \<in> set (frames m) \<Longrightarrow> sf_browser f = None \<Longrightarrow> manager_step W m (session_opened clk browser page timer f m)"
| started: "f \<in> set (frames m) \<Longrightarrow> manager_step W m (session_started reported f m)"
| failed: "f \<in> set (frames m) \<Longrightarrow> manager_step W m (start_failed f m)"
| state: "manager_step W m (snd (session_state W clk ownerId site m))"
| screenshot: "manager_step W m (snd (session_screenshot clk ownerId site m))"
| act: "manager_step W m (snd (session_act W clk ownerId site raw m))"
| ready: "manager_step W m (snd (session_ready W clk ownerId site m))"
| wait: "waiter \<notin> fst ` set (resolved m) \<Longrightarrow> \<forall>x \<in> set (sessions m). waiter \<notin> set (bs_waiters (snd x)) \<Longrightarrow>
    manager_step W m (snd (waitForReady clk ownerId site timeout waiter m))"
| wait_over: "manager_step W m (wait_timeout site waiter m)"
| close: "manager_step W m (snd (session_close clk ownerId site m))"
| close_all: "manager_step W m (closeAll m)"
| timer: "t \<in> set (timers m) \<Longrightarrow> manager_step W m (timer_fires t m)"
| disconnect: "manager_step W m (disconnected browser site m)"
| page: "manager_step W m (page_opened site p m)"
| pages: "manager_step W m (pages_changed site g alive m)"

text \<open>
  At most one session lives, with its own timer and its own browser and nothing else open; at most one start
  runs, and beside a session only the start that made it.
\<close>

definition lone_session :: "manager \<Rightarrow> bool" where
  "lone_session m \<longleftrightarrow> (case sessions m of
     [] \<Rightarrow> timers m = [] \<and> browsers m = [] \<and> distinct (map fst (resolved m))
   | [(site, s)] \<Rightarrow> timers m = [(bs_timer s, bs_expires s, site)] \<and> browsers m = [bs_browser s]
       \<and> distinct (map fst (resolved m) @ bs_waiters s)
   | _ \<Rightarrow> False)"

definition lone_start :: "manager \<Rightarrow> bool" where
  "lone_start m \<longleftrightarrow> starting m = length (frames m) \<and> (case frames m of
     [] \<Rightarrow> pending_starts m = []
   | [f] \<Rightarrow> pending_starts m = [(sf_site f, sf_owner f)]
       \<and> list_all (\<lambda>(site, s). site = sf_site f \<and> bs_owner s = sf_owner f \<and> sf_browser f = Some (bs_browser s)) (sessions m)
   | _ \<Rightarrow> False)"

definition manager_ok :: "manager \<Rightarrow> bool" where
  "manager_ok m \<longleftrightarrow> lone_session m \<and> lone_start m"

lemma manager_ok_cases:
  assumes "manager_ok m"
  obtains "sessions m = []" | site s where "sessions m = [(site, s)]"
  using assms by (cases "sessions m"; cases "tl (sessions m)") (auto simp: manager_ok_def lone_session_def)

lemmas manager_defs = manager_ok_def lone_session_def lone_start_def

lemma closeById_ok:
  assumes m: "manager_ok m"
  shows "manager_ok (closeById site m)"
  by (rule manager_ok_cases [OF m])
    (use m in \<open>auto simp: manager_defs closeById_def distinct_map inj_on_def comp_def split: list.splits\<close>)

text \<open>A change of a session that keeps its owner, browser, timer and waiters.\<close>

definition same_session :: "session \<Rightarrow> session \<Rightarrow> bool" where
  "same_session s s' \<longleftrightarrow> bs_owner s' = bs_owner s \<and> bs_browser s' = bs_browser s \<and> bs_timer s' = bs_timer s
     \<and> bs_expires s' = bs_expires s \<and> bs_waiters s' = bs_waiters s"

lemma put_same_ok:
  assumes m: "manager_ok m" and "map_of (sessions m) site = Some s" "same_session s s'"
  shows "manager_ok (put_session site s' m)"
  by (rule manager_ok_cases [OF m])
    (use assms in \<open>auto simp: manager_defs put_session_def same_session_def split: list.splits if_splits\<close>)

lemma owned_ok:
  assumes "manager_ok m" "owned clk ownerId site m = (x, m1)"
  shows "manager_ok m1" "x = Some s \<Longrightarrow> map_of (sessions m1) site = Some s \<and> bs_owner s = ownerId \<and> \<not> gone clk s \<and> m1 = m"
  using assms closeById_ok by (auto simp: owned_def split: option.splits if_splits)

lemma session_page_same: "session_page s = Inr (p, s') \<Longrightarrow> same_session s s' \<and> bs_status s' = bs_status s"
  by (auto simp: session_page_def same_session_def split: option.splits list.splits)

lemma toStatus_same: "toStatus W s = Inr (v, s') \<Longrightarrow> same_session s s' \<and> bs_status s' = bs_status s"
  by (auto simp: toStatus_def rbind_def split: sum.splits dest: session_page_same)

lemma show_session_ok:
  "manager_ok m \<Longrightarrow> map_of (sessions m) site = Some s \<Longrightarrow> manager_ok (snd (show_session W site s m))"
  by (auto simp: show_session_def split: sum.splits prod.splits dest: toStatus_same intro: put_same_ok)

lemma start_ok: "manager_ok m \<Longrightarrow> manager_ok (snd (start_session W clk ownerId site m))"
proof -
  assume m: "manager_ok m"
  obtain x m1 where o: "owned clk ownerId site m = (x, m1)" by (meson surj_pair)
  note ok = owned_ok [OF m o]
  show ?thesis
  proof (cases "map_of (pending_starts m) site")
    case (Some other)
    with m show ?thesis by (simp add: start_session_def)
  next
    case None
    show ?thesis
    proof (cases x)
      case (Some s)
      with ok have "manager_ok (snd (show_session W site s m1))" by (metis show_session_ok)
      with None Some o show ?thesis by (auto simp: start_session_def split: sum.splits prod.splits)
    next
      case n: None
      have "manager_ok (m1\<lparr> starting := starting m1 + 1,
          frames := frames m1 @ [\<lparr> sf_site = site, sf_owner = ownerId, sf_browser = None \<rparr>],
          pending_starts := AList.update site ownerId (pending_starts m1) \<rparr>)"
        if "length (sessions m1) + starting m1 < max_sessions"
        using ok(1) that by (auto simp: manager_ok_def lone_session_def lone_start_def max_sessions_def split: list.splits)
      with None n o ok(1) show ?thesis by (auto simp: start_session_def not_le)
    qed
  qed
qed

lemma lone_frame:
  assumes "manager_ok m" "f \<in> set (frames m)"
  shows "frames m = [f]" "starting m = 1" "pending_starts m = [(sf_site f, sf_owner f)]"
    "sf_browser f = None \<Longrightarrow> sessions m = []"
    "(site, s) \<in> set (sessions m) \<Longrightarrow> site = sf_site f \<and> sf_browser f = Some (bs_browser s)"
proof -
  show fr: "frames m = [f]"
    using assms by (cases "frames m"; cases "tl (frames m)") (auto simp: manager_ok_def lone_start_def)
  show "starting m = 1" "pending_starts m = [(sf_site f, sf_owner f)]"
    and on: "(site, s) \<in> set (sessions m) \<Longrightarrow> site = sf_site f \<and> sf_browser f = Some (bs_browser s)" for site s
    using assms(1) fr by (auto simp: manager_ok_def lone_start_def list_all_iff)
  show "sessions m = []" if "sf_browser f = None"
    using on that by (cases "sessions m") force+
qed

lemma opened_ok:
  assumes "manager_ok m" "f \<in> set (frames m)" "sf_browser f = None"
  shows "manager_ok (session_opened clk browser page timer f m)"
  using lone_frame(1-3) [OF assms(1,2)] lone_frame(4) [OF assms] assms(1)
  by (auto simp: manager_defs session_opened_def put_session_def new_session_def)

lemma leave_ok:
  assumes m: "manager_ok m" and f: "f \<in> set (frames m)"
  shows "manager_ok (leave_frame f m)"
proof -
  have "lone_session (leave_frame f m) = lone_session m" by (simp add: leave_frame_def lone_session_def split: list.split)
  moreover have "lone_start (leave_frame f m)"
    using lone_frame(1-3) [OF m f] by (simp add: lone_start_def leave_frame_def)
  ultimately show ?thesis using m by (simp add: manager_ok_def)
qed

lemma frames_put [simp]: "frames (put_session site s m) = frames m" "frames (closeById site m) = frames m"
    "frames (disconnected b site m) = frames m"
  by (simp_all add: put_session_def closeById_def disconnected_def split: option.splits)

lemma started_ok:
  assumes "manager_ok m" "f \<in> set (frames m)"
  shows "manager_ok (session_started reported f m)"
proof (cases "map_of (sessions m) (sf_site f)")
  case None
  with assms show ?thesis by (simp add: session_started_def leave_ok)
next
  case (Some s)
  have "manager_ok (put_session (sf_site f) (s\<lparr>bs_width := w, bs_height := h\<rparr>) m)" for w h
    by (rule put_same_ok [OF assms(1) Some]) (simp add: same_session_def)
  with assms Some show ?thesis by (simp add: session_started_def leave_ok)
qed

lemma disconnected_ok: "manager_ok m \<Longrightarrow> manager_ok (disconnected b site m)"
  by (auto simp: disconnected_def closeById_ok split: option.splits)

lemma failed_ok:
  assumes m: "manager_ok m" and f: "f \<in> set (frames m)"
  shows "manager_ok (start_failed f m)"
proof (cases "sf_browser f")
  case None
  with lone_frame(4) [OF m f] have "m\<lparr>sessions := AList.delete (sf_site f) (sessions m)\<rparr> = m" by simp
  with None m f show ?thesis by (simp add: start_failed_def leave_ok)
next
  case (Some b)
  let ?m = "disconnected b (sf_site f) m"
  have gone: "sessions ?m = []"
    using manager_ok_cases [OF m] lone_frame(5) [OF m f] Some
    by (fastforce simp: disconnected_def closeById_def)
  then have "browsers ?m = []" using disconnected_ok [OF m, of b "sf_site f"] by (simp add: manager_defs)
  with gone have "?m\<lparr>browsers := removeAll b (browsers ?m), sessions := AList.delete (sf_site f) (sessions ?m)\<rparr> = ?m"
    by simp
  with Some m f gone show ?thesis by (simp add: start_failed_def leave_ok disconnected_ok)
qed

lemma changed_ok:
  assumes m: "manager_ok m" and s: "map_of (sessions m) site = Some s"
    and c: "bs_owner s' = bs_owner s" "bs_browser s' = bs_browser s" "bs_timer s' = bs_timer s" "bs_expires s' = bs_expires s"
    and w: "distinct (map fst (resolved m @ answers) @ bs_waiters s')"
  shows "manager_ok (put_session site s' (m\<lparr>resolved := resolved m @ answers\<rparr>))"
  by (rule manager_ok_cases [OF m])
    (use assms in \<open>auto simp: manager_defs put_session_def split: list.splits if_splits\<close>)

lemma waiters_distinct:
  assumes m: "manager_ok m" and "map_of (sessions m) site = Some s"
  shows "distinct (map fst (resolved m) @ bs_waiters s)"
  by (rule manager_ok_cases [OF m]) (use assms in \<open>auto simp: manager_defs split: if_splits\<close>)

lemma ready_ok:
  assumes m: "manager_ok m"
  shows "manager_ok (snd (session_ready W clk ownerId site m))"
proof -
  obtain x m1 where o: "owned clk ownerId site m = (x, m1)" by (meson surj_pair)
  note ok = owned_ok [OF m o]
  show ?thesis
  proof (cases x)
    case None
    with o ok show ?thesis by (simp add: session_ready_def)
  next
    case (Some s)
    let ?s = "s\<lparr>bs_status := READY, bs_waiters := []\<rparr>"
    let ?m = "put_session site ?s (m\<lparr>resolved := resolved m @ map (\<lambda>w. (w, Some (bs_browser s))) (bs_waiters s)\<rparr>)"
    have s: "map_of (sessions m) site = Some s" "m1 = m" using ok(2) [OF Some] by auto
    have "manager_ok ?m"
      using waiters_distinct [OF m s(1)] by (intro changed_ok [OF m s(1)]) (auto simp: comp_def)
    then have "manager_ok (snd (show_session W site ?s ?m))"
      by (rule show_session_ok) (simp add: put_session_def update_conv)
    with Some o s(2) show ?thesis by (auto simp: session_ready_def Let_def split: sum.splits prod.splits)
  qed
qed

lemma waiting_ok:
  assumes m: "manager_ok m" and f: "waiter \<notin> fst ` set (resolved m)" "\<forall>x \<in> set (sessions m). waiter \<notin> set (bs_waiters (snd x))"
  shows "manager_ok (snd (waitForReady clk ownerId site timeout waiter m))"
proof -
  obtain x m1 where o: "owned clk ownerId site m = (x, m1)" by (meson surj_pair)
  note ok = owned_ok [OF m o]
  show ?thesis
  proof (cases x)
    case None
    with o ok show ?thesis by (simp add: waitForReady_def)
  next
    case (Some s)
    then have s: "map_of (sessions m) site = Some s" "m1 = m" using ok(2) [OF Some] by auto
    then have "waiter \<notin> set (bs_waiters s)" using f(2) by (auto dest!: map_of_SomeD)
    then have "manager_ok (put_session site (s\<lparr>bs_waiters := bs_waiters s @ [waiter]\<rparr>) (m\<lparr>resolved := resolved m @ []\<rparr>))"
      using waiters_distinct [OF m s(1)] f(1) by (intro changed_ok [OF m s(1)]) auto
    with Some o s ok(1) show ?thesis by (simp add: waitForReady_def)
  qed
qed

lemma wait_timeout_ok:
  assumes m: "manager_ok m"
  shows "manager_ok (wait_timeout site waiter m)"
proof (cases "map_of (sessions m) site")
  case None
  with m show ?thesis by (simp add: wait_timeout_def)
next
  case (Some s)
  have "manager_ok (put_session site (s\<lparr>bs_waiters := removeAll waiter (bs_waiters s)\<rparr>) (m\<lparr>resolved := resolved m @ [(waiter, None)]\<rparr>))"
    if "waiter \<in> set (bs_waiters s)"
    using waiters_distinct [OF m Some] that by (intro changed_ok [OF m Some]) (auto simp: distinct_removeAll)
  moreover have "(put_session site s' m)\<lparr>resolved := r\<rparr> = put_session site s' (m\<lparr>resolved := r\<rparr>)" for s' r
    by (simp add: put_session_def)
  ultimately show ?thesis using m Some by (simp add: wait_timeout_def)
qed

lemma act_ok:
  assumes m: "manager_ok m"
  shows "manager_ok (snd (session_act W clk ownerId site raw m))"
proof -
  obtain x m1 where o: "owned clk ownerId site m = (x, m1)" by (meson surj_pair)
  note ok = owned_ok [OF m o]
  have "manager_ok (put_session site s' m1)" if "x = Some s" "toStatus W s = Inr (v, s')" for s s' v
    using put_same_ok [OF ok(1)] toStatus_same [OF that(2)] ok(2) [OF that(1)] by blast
  with o ok(1) show ?thesis by (auto simp: session_act_def split: option.splits sum.splits)
qed

lemma state_ok:
  assumes m: "manager_ok m"
  shows "manager_ok (snd (session_state W clk ownerId site m))" "manager_ok (snd (session_screenshot clk ownerId site m))"
proof -
  obtain x m1 where o: "owned clk ownerId site m = (x, m1)" by (meson surj_pair)
  note ok = owned_ok [OF m o]
  have "manager_ok (snd (show_session W site s m1))" if "x = Some s" for s
    using show_session_ok [OF ok(1)] ok(2) [OF that] by blast
  with o ok(1) show "manager_ok (snd (session_state W clk ownerId site m))"
    by (auto simp: session_state_def split: option.splits sum.splits prod.splits)
  have "manager_ok (put_session site s' m1)" if "x = Some s" "session_page s = Inr (p, s')" for s s' p
    using put_same_ok [OF ok(1)] session_page_same [OF that(2)] ok(2) [OF that(1)] by blast
  with o ok(1) show "manager_ok (snd (session_screenshot clk ownerId site m))"
    by (auto simp: session_screenshot_def split: option.splits sum.splits prod.splits)
qed

lemma pages_ok: "manager_ok m \<Longrightarrow> manager_ok (page_opened site p m)" "manager_ok m \<Longrightarrow> manager_ok (pages_changed site g up m)"
  by (auto simp: page_opened_def pages_changed_def same_session_def split: option.splits intro: put_same_ok)

lemma timer_ok:
  assumes m: "manager_ok m" and t: "t \<in> set (timers m)"
  shows "manager_ok (timer_fires t m)"
  by (rule manager_ok_cases [OF m])
    (use assms in \<open>auto simp: manager_defs timer_fires_def closeById_def distinct_map inj_on_def comp_def split: list.splits\<close>)

theorem manager_step_ok: "manager_step W m m' \<Longrightarrow> manager_ok m \<Longrightarrow> manager_ok m'"
proof (induction rule: manager_step.induct)
  case (close m clk ownerId site)
  then show ?case
    using owned_ok(1) [OF close] closeById_ok
    by (auto simp: session_close_def split: option.splits prod.splits)
next
  case (close_all m)
  have "manager_ok (fold closeById ks m)" if "manager_ok m" for ks and m :: manager
    using that by (induction ks arbitrary: m) (simp_all add: closeById_ok)
  with close_all show ?case by (simp add: closeAll_def)
qed (simp_all add: start_ok opened_ok started_ok failed_ok state_ok act_ok ready_ok waiting_ok wait_timeout_ok
  timer_ok disconnected_ok pages_ok)

lemma manager_runs_ok: "(manager_step W)\<^sup>*\<^sup>* new_manager m \<Longrightarrow> manager_ok m"
proof (induction rule: rtranclp_induct)
  case base
  show ?case by (simp add: manager_defs new_manager_def)
qed (rule manager_step_ok)

section \<open>What a caller can reach\<close>

fun action_within :: "int \<times> int \<Rightarrow> action \<Rightarrow> bool" where
  "action_within (w, h) (Click x y) \<longleftrightarrow> 0 \<le> x \<and> x < w \<and> 0 \<le> y \<and> y < h"
| "action_within v (Type t) \<longleftrightarrow> t \<noteq> [] \<and> length t \<le> 4096"
| "action_within v (Key k) \<longleftrightarrow> k \<in> set allowed_keys"
| "action_within v (Scroll d) \<longleftrightarrow> -2000 \<le> d \<and> d \<le> 2000 \<and> d \<noteq> 0"

lemma integer_in_value: "integer_in lo hi v \<Longrightarrow> lo \<le> integer_value v \<and> integer_value v \<le> hi"
  by (auto simp: integer_in_def in_bounds_def integer_value_def split: option.splits json.splits)

lemma integer_in_nonzero: "integer_in lo hi v \<Longrightarrow> v \<noteq> Some (JInt 0) \<Longrightarrow> integer_value v \<noteq> 0"
  by (auto simp: integer_in_def integer_value_def split: option.splits json.splits)

lemma validated_within:
  assumes "validateBrowserSessionAction raw (w, h) = Inr a"
  shows "action_within (w, h) a"
proof (cases a)
  case (Click x y)
  with assms obtain v where "integer_in 0 (w - 1) (prop_of ''x'' v)" "integer_in 0 (h - 1) (prop_of ''y'' v)"
      "x = integer_value (prop_of ''x'' v)" "y = integer_value (prop_of ''y'' v)"
    by (auto simp: validateBrowserSessionAction_def Let_def split: option.splits if_splits)
  with Click integer_in_value [of 0 "w - 1"] integer_in_value [of 0 "h - 1"] show ?thesis by fastforce
next
  case (Scroll d)
  with assms obtain v where "integer_in (-2000) 2000 v" "v \<noteq> Some (JInt 0)" "d = integer_value v"
    by (auto simp: validateBrowserSessionAction_def Let_def split: option.splits if_splits)
  with Scroll integer_in_value integer_in_nonzero show ?thesis by fastforce
qed (use assms in \<open>auto simp: validateBrowserSessionAction_def Let_def split: option.splits if_splits\<close>)

text \<open>An action reaches a page only for the owner of a live session that still awaits the user.\<close>

theorem act_guarded:
  assumes "session_act W clk ownerId site raw m = (Inr (Some (v, p, a)), m')"
  shows "\<exists>s. map_of (sessions m) site = Some s \<and> bs_owner s = ownerId \<and> \<not> gone clk s \<and> bs_status s = AWAITING_USER
     \<and> action_within (bs_width s, bs_height s) a"
proof -
  obtain x m1 where o: "owned clk ownerId site m = (x, m1)" by (meson surj_pair)
  with assms obtain s where s: "x = Some s" "bs_status s = AWAITING_USER"
      "validateBrowserSessionAction raw (bs_width s, bs_height s) = Inr a"
    by (auto simp: session_act_def split: option.splits if_splits sum.splits prod.splits)
  have "map_of (sessions m) site = Some s \<and> bs_owner s = ownerId \<and> \<not> gone clk s"
    using o s(1) by (auto simp: owned_def split: option.splits if_splits)
  with s validated_within [OF s(3)] show ?thesis by blast
qed

text \<open>One session at most, whatever happens, and each of its resources belongs to it.\<close>

theorem one_session:
  assumes "(manager_step W)\<^sup>*\<^sup>* new_manager m"
  shows "length (sessions m) \<le> max_sessions" "starting m \<le> 1"
    "map fst (map snd (timers m)) = map (bs_expires \<circ> snd) (sessions m)" "browsers m = map (bs_browser \<circ> snd) (sessions m)"
    "distinct (map fst (resolved m))"
proof -
  have ok: "manager_ok m" using assms by (rule manager_runs_ok)
  then have "lone_session m" by (simp add: manager_ok_def)
  then show "length (sessions m) \<le> max_sessions"
    "map fst (map snd (timers m)) = map (bs_expires \<circ> snd) (sessions m)" "browsers m = map (bs_browser \<circ> snd) (sessions m)"
    "distinct (map fst (resolved m))"
    by (cases "sessions m"; cases "tl (sessions m)"; force simp: lone_session_def max_sessions_def)+
  show "starting m \<le> 1" using ok by (auto simp: manager_ok_def lone_start_def split: list.splits)
qed

end
