(* ===== verification/Http_Server.thy ===== *)
theory Http_Server
  imports Object_Store Browser_Sessions
begin

text \<open>
  The HTTP interface of the capture worker (\<open>capture-worker/src/server.ts\<close>): authentication, routing, the
  delivery of stored files, the limit on downloads, and the answers. Databases and object store are the fields
  of a \<open>backend\<close>, as \<open>startServer\<close> takes them; their errors are the messages they are thrown with. A request is
  handled in one step; a file that is being sent holds its download slot until a later step.
\<close>

section \<open>Requests and answers\<close>

record request =
  hq_verb :: string
  hq_url :: "string option"
  hq_host :: "string option"
  hq_token :: "string option"
  hq_correlation :: "string option"
  hq_chunks :: "string list"

datatype content = Json json | Bytes string

record response =
  hr_status :: nat
  hr_headers :: "(string \<times> string) list"
  hr_content :: content

text \<open>The references to stored files; times are milliseconds.\<close>

record reference =
  rf_bucket :: string
  rf_key :: string
  rf_bytes :: nat
  rf_sha_hex :: string
  rf_expires :: nat

record stated_reference = reference +
  rf_state :: artifact_state

record site_reference = stated_reference +
  rf_id :: string
  rf_created :: time
  rf_kind :: artifact_kind
  rf_shard :: nat
  rf_filename :: string
  rf_content_type :: string

type_synonym message = string

record 's backend =
  be_ping :: "'s \<Rightarrow> bool"
  be_accept_capture :: "json \<Rightarrow> 's \<Rightarrow> message + bool \<times> 's"
  be_accept_site :: "json \<Rightarrow> 's \<Rightarrow> message + bool \<times> 's"
  be_site_artifact :: "string \<Rightarrow> string \<Rightarrow> string \<Rightarrow> 's \<Rightarrow> message + site_reference option"
  be_site_report :: "string \<Rightarrow> string \<Rightarrow> 's \<Rightarrow> message + json option"
  be_site_progress :: "string \<Rightarrow> string \<Rightarrow> js_num \<Rightarrow> js_num \<Rightarrow> string \<Rightarrow> string \<Rightarrow> 's \<Rightarrow> message + json option"
  be_screenshot :: "string \<Rightarrow> string \<Rightarrow> 's \<Rightarrow> message + reference option"
  be_resource :: "string \<Rightarrow> string \<Rightarrow> string \<Rightarrow> 's \<Rightarrow> message + reference option"
  be_archive :: "string \<Rightarrow> string \<Rightarrow> 's \<Rightarrow> message + stated_reference option"
  be_reconstruction :: "string \<Rightarrow> string \<Rightarrow> 's \<Rightarrow> message + json option"
  be_snapshot :: "string \<Rightarrow> string \<Rightarrow> 's \<Rightarrow> message + json option"
  be_resources :: "string \<Rightarrow> string \<Rightarrow> 's \<Rightarrow> message + json"
  be_download :: "string \<Rightarrow> string \<Rightarrow> nat \<Rightarrow> 's \<Rightarrow> message + spooled"

text \<open>
  What the handler takes from its surroundings: the clock in milliseconds, a fresh correlation identifier, the
  platform's text functions, the picture of a page, and the numbers of new pages, timers and browsers are with the session events.
\<close>

record surroundings =
  se_clock :: nat
  se_random :: string
  se_web :: web
  se_codec :: json_codec
  se_js :: js_text
  se_digests :: digests
  se_picture :: "nat \<Rightarrow> message + string"
  se_iso :: "time \<Rightarrow> string"
  se_view :: "session_view \<Rightarrow> json"

record config =
  cf_token :: string
  cf_sites :: bool
  cf_browsers :: bool

record 's server =
  hs_store :: 's
  hs_sessions :: manager
  hs_downloads :: nat

section \<open>Answers\<close>

definition set_header :: "string \<Rightarrow> string \<Rightarrow> (string \<times> string) list \<Rightarrow> (string \<times> string) list" where
  "set_header name v hs = AList.update name v hs"

definition correlation_char :: "char \<Rightarrow> bool" where
  "correlation_char c \<longleftrightarrow> lower_alpha c \<or> upper_alpha c \<or> digit c \<or> c \<in> {CHR ''.'', CHR ''_'', CHR ''-''}"

definition correlation_id :: "surroundings \<Rightarrow> request \<Rightarrow> string" where
  "correlation_id S q = (let supplied = coalesce (hq_correlation q) []
     in if 1 \<le> length supplied \<and> length supplied \<le> 64 \<and> list_all correlation_char supplied then supplied else se_random S)"

definition setHeaders :: "surroundings \<Rightarrow> request \<Rightarrow> (string \<times> string) list" where
  "setHeaders S q = [(''Content-Type'', ''application/json''), (''Cache-Control'', ''no-store''),
     (''X-Content-Type-Options'', ''nosniff''), (''X-Correlation-ID'', correlation_id S q)]"

definition json_reply :: "(string \<times> string) list \<Rightarrow> nat \<Rightarrow> json \<Rightarrow> response" where
  "json_reply hs status v = \<lparr> hr_status = status, hr_headers = hs, hr_content = Json v \<rparr>"

definition problemDetail :: "string \<Rightarrow> string" where
  "problemDetail code =
    (if code = ''SERVICE_AUTHENTICATION_REQUIRED'' then ''Valid service authentication is required.''
     else if ends_with ''_NOT_FOUND'' code \<or> code = ''NOT_FOUND'' then ''The requested resource does not exist.''
     else if starts_with ''INVALID_'' code then ''The request is invalid.''
     else if contains_text ''INTEGRITY'' code then ''The stored artifact failed its integrity check.''
     else if ends_with ''_GONE'' code then ''The requested artifact is no longer available.''
     else ''The request could not be completed.'')"

text \<open>\<open>STATUS_CODES\<close>, for the statuses the server answers with.\<close>

definition status_title :: "nat \<Rightarrow> string" where
  "status_title status = coalesce (map_of [(400, ''Bad Request''), (401, ''Unauthorized''), (404, ''Not Found''),
     (409, ''Conflict''), (410, ''Gone''), (503, ''Service Unavailable'')] status) ''Request failed''"

definition problem :: "surroundings \<Rightarrow> request \<Rightarrow> (string \<times> string) list \<Rightarrow> nat \<Rightarrow> string \<Rightarrow> response" where
  "problem S q hs status code = json_reply (set_header ''Content-Type'' ''application/problem+json'' hs) status (JObj
     [(''type'', JStr (''https://docs.weblens.dev/problems/'' @ replace_class (\<lambda>c. c = CHR ''_'') (CHR ''-'') (toLowerCase code))),
      (''title'', JStr (status_title status)), (''status'', JInt (int status)), (''detail'', JStr (problemDetail code)),
      (''instance'', JStr (takeWhile (\<lambda>c. c \<noteq> CHR ''?'') (coalesce (hq_url q) ''/''))), (''code'', JStr code),
      (''correlationId'', JStr (correlation_id S q))])"

text \<open>The \<open>catch\<close> block: status and code of an error that was thrown.\<close>

definition recovered :: "string \<Rightarrow> nat \<times> string" where
  "recovered code =
    (if code = ''MESSAGE_ID_COLLISION'' then (409, code)
     else if starts_with ''INVALID_'' code then (400, code)
     else if code = ''BROWSER_SESSION_NOT_FOUND'' then (404, code)
     else if code = ''BROWSER_SESSION_CAPACITY_REACHED'' \<or> code = ''BROWSER_SESSION_ALREADY_READY'' then (409, code)
     else if code = ''ARTIFACT_EXPIRED'' \<or> code = ''ARTIFACT_OBJECT_MISSING'' then (410, ''CAPTURE_ARTIFACT_GONE'')
     else if code = ''ARTIFACT_SIZE_MISMATCH'' \<or> code = ''ARTIFACT_HASH_MISMATCH'' then (503, ''CAPTURE_ARTIFACT_INTEGRITY_FAILED'')
     else (503, ''SERVICE_UNAVAILABLE''))"

definition authenticated :: "digests \<Rightarrow> string \<Rightarrow> request \<Rightarrow> bool" where
  "authenticated D expected q = (let supplied = coalesce (hq_token q) []
     in 0 < length supplied \<and> sha256 D supplied = sha256 D expected)"

fun request_message :: "request_error \<Rightarrow> message" where
  "request_message INVALID_COMMAND = ''INVALID_COMMAND''"
| "request_message INVALID_COMMAND_TOO_LARGE = ''INVALID_COMMAND_TOO_LARGE''"
| "request_message INVALID_BROWSER_SESSION = ''INVALID_BROWSER_SESSION''"

fun session_message :: "session_error \<Rightarrow> message" where
  "session_message BROWSER_SESSION_NOT_FOUND = ''BROWSER_SESSION_NOT_FOUND''"
| "session_message BROWSER_SESSION_CAPACITY_REACHED = ''BROWSER_SESSION_CAPACITY_REACHED''"
| "session_message BROWSER_SESSION_ALREADY_READY = ''BROWSER_SESSION_ALREADY_READY''"
| "session_message BROWSER_SESSION_NAVIGATION_FAILED = ''BROWSER_SESSION_NAVIGATION_FAILED''"
| "session_message BROWSER_SESSION_PAGE_CLOSED = ''BROWSER_SESSION_PAGE_CLOSED''"
| "session_message INVALID_BROWSER_ACTION = ''INVALID_BROWSER_ACTION''"

fun storage_message :: "storage_error \<Rightarrow> message" where
  "storage_message ARTIFACT_SIZE_OUT_OF_BOUNDS = ''ARTIFACT_SIZE_OUT_OF_BOUNDS''"
| "storage_message INVALID_STORAGE_BUCKET = ''INVALID_STORAGE_BUCKET''"
| "storage_message ARTIFACT_OBJECT_INTEGRITY_FAILED = ''ARTIFACT_OBJECT_INTEGRITY_FAILED''"
| "storage_message ARTIFACT_SIZE_MISMATCH = ''ARTIFACT_SIZE_MISMATCH''"
| "storage_message ARTIFACT_OBJECT_MISSING = ''ARTIFACT_OBJECT_MISSING''"
| "storage_message (STORE_ERROR name) = name"

definition lift_message :: "('e \<Rightarrow> message) \<Rightarrow> 'e + 'a \<Rightarrow> message + 'a" where
  "lift_message f r = (case r of Inl e \<Rightarrow> Inl (f e) | Inr x \<Rightarrow> Inr x)"

section \<open>Files\<close>

definition ensureNotExpired :: "nat \<Rightarrow> 'r reference_scheme \<Rightarrow> message + unit" where
  "ensureNotExpired millis r = (if rf_expires r \<le> millis then Inl ''ARTIFACT_EXPIRED'' else Inr ())"

definition file_headers :: "(string \<times> string) list \<Rightarrow> string \<Rightarrow> nat \<Rightarrow> string \<Rightarrow> string \<Rightarrow> (string \<times> string) list" where
  "file_headers hs contentType bytes disposition sha =
     set_header ''ETag'' ([CHR 0x22] @ ''sha256-'' @ sha @ [CHR 0x22]) (set_header ''X-Content-Type-Options'' ''nosniff''
       (set_header ''Cache-Control'' ''no-store'' (set_header ''Content-Disposition'' disposition
         (set_header ''Content-Length'' (decimal bytes) (set_header ''Content-Type'' contentType hs)))))"

definition artifact :: "'s backend \<Rightarrow> 's \<Rightarrow> (string \<times> string) list \<Rightarrow> 'r reference_scheme \<Rightarrow> string \<Rightarrow> string \<Rightarrow> message + response" where
  "artifact B s hs r contentType disposition =
     rbind (be_download B (rf_bucket r) (rf_key r) (rf_bytes r) s) (\<lambda>file.
       if dl_bytes file \<noteq> rf_bytes r then Inl ''ARTIFACT_SIZE_MISMATCH''
       else if dl_sha_hex file \<noteq> rf_sha_hex r then Inl ''ARTIFACT_HASH_MISMATCH''
       else Inr \<lparr> hr_status = 200, hr_headers = file_headers hs contentType (dl_bytes file) disposition (rf_sha_hex r),
                 hr_content = Bytes (dl_content file) \<rparr>)"

definition filename_char :: "char \<Rightarrow> bool" where
  "filename_char c \<longleftrightarrow> lower_alpha c \<or> upper_alpha c \<or> digit c \<or> c \<in> {CHR ''.'', CHR ''_'', CHR ''-''}"

definition safeFilename :: "string \<Rightarrow> string" where
  "safeFilename v = (let s = take 128 (replace_class (\<lambda>c. \<not> filename_char c) (CHR ''_'') v)
     in if s = [] then ''weblens-artifact.bin'' else s)"

text \<open>\<open>/^weblens-site-clone\.part-\d{4}\.zip$/u\<close>\<close>

definition shard_filename :: "string \<Rightarrow> bool" where
  "shard_filename s \<longleftrightarrow> length s = 32 \<and> take 24 s = ''weblens-site-clone.part-'' \<and> list_all digit (take 4 (drop 24 s)) \<and> drop 28 s = ''.zip''"

definition without :: "char \<Rightarrow> string \<Rightarrow> string" where
  "without c s = filter (\<lambda>x. x \<noteq> c) s"

definition without_first :: "char \<Rightarrow> string \<Rightarrow> string" where
  "without_first c s = remove1 c s"

definition padded4 :: "nat \<Rightarrow> string" where
  "padded4 n = (let s = decimal n in replicate (4 - length s) (CHR ''0'') @ s)"

definition siteArtifactFilename :: "(time \<Rightarrow> string) \<Rightarrow> site_reference \<Rightarrow> string" where
  "siteArtifactFilename show_time r =
    (if rf_kind r \<noteq> ARCHIVE_SHARD \<or> \<not> shard_filename (rf_filename r) then rf_filename r
     else (let timestamp = without_first (CHR ''.'') (without (CHR '':'') (without (CHR ''-'') (show_time (rf_created r))))
       in ''weblens-site-clone-'' @ timestamp @ ''-'' @ take 8 (without (CHR ''-'') (rf_id r)) @ ''.part-'' @ padded4 (rf_shard r) @ ''.zip''))"

section \<open>Reports\<close>

text \<open>\<open>JSON.stringify\<close> leaves out \<open>undefined\<close> fields and writes \<open>NaN\<close> as \<open>null\<close>; the text of a fraction is a parameter.\<close>

definition js_object :: "(string \<times> json option) list \<Rightarrow> json" where
  "js_object fs = JObj (List.map_filter (\<lambda>(k, v). map_option (\<lambda>j. (k, j)) v) fs)"

definition number_json :: "(rat \<Rightarrow> string) \<Rightarrow> js_num \<Rightarrow> json" where
  "number_json show_fraction n = (case n of
     Finite q \<Rightarrow> if of_int \<lfloor>q\<rfloor> = q then JInt \<lfloor>q\<rfloor> else JFraction (show_fraction q) | _ \<Rightarrow> JNull)"

text \<open>\<open>v ?? d\<close>, and \<open>Number(v ?? 0)\<close>.\<close>

definition nullish :: "json option \<Rightarrow> json option \<Rightarrow> json option" where
  "nullish v d = (if v = None \<or> v = Some JNull then d else v)"

record number_text =
  nt_js :: js_text
  nt_fraction :: "rat \<Rightarrow> string"

definition as_number :: "number_text \<Rightarrow> json option \<Rightarrow> json" where
  "as_number T v = number_json (nt_fraction T) (js_number (nt_js T) v)"

definition or_zero :: "number_text \<Rightarrow> json option \<Rightarrow> json" where
  "or_zero T v = as_number T (nullish v (Some (JInt 0)))"

definition is_truthy :: "json option \<Rightarrow> bool" where
  "is_truthy v = (case v of None \<Rightarrow> False | Some j \<Rightarrow> truthy_json j)"

definition reconstructionResponse :: "number_text \<Rightarrow> json \<Rightarrow> json" where
  "reconstructionResponse T source = (let get = (\<lambda>k. prop_of k source) in
     if \<not> is_truthy (get ''reconstruction_id'') then JNull
     else js_object
       [(''id'', get ''reconstruction_id''), (''status'', get ''reconstruction_status''), (''kind'', get ''reconstruction_kind''),
        (''engineVersion'', get ''engine_version''), (''packagedCount'', Some (or_zero T (get ''packaged_count''))),
        (''skippedCount'', Some (or_zero T (get ''skipped_count''))),
        (''archiveBytes'', Some (if get ''archive_bytes'' = Some JNull then JNull else as_number T (get ''archive_bytes''))),
        (''completenessCode'', get ''completeness_code''), (''failureCode'', get ''failure_code''),
        (''expiresAt'', get ''reconstruction_expires_at''),
        (''downloadAvailable'', Some (JBool (get ''reconstruction_download_available'' = Some (JBool True))))])"

text \<open>The numbers of the viewport are printed as \<open>width \<times> height\<close>; their texts are those of the JSON numbers.\<close>

definition snapshotResponse :: "number_text \<Rightarrow> (json \<Rightarrow> json \<Rightarrow> string) \<Rightarrow> json \<Rightarrow> json \<Rightarrow> json" where
  "snapshotResponse T viewport snapshot resources = (let get = (\<lambda>k. prop_of k snapshot);
       width = or_zero T (get ''viewport_width''); height = or_zero T (get ''viewport_height'') in
     js_object
       [(''id'', nullish (get ''snapshot_id'') (get ''capture_id'')), (''captureRequestId'', get ''capture_id''),
        (''scanId'', get ''scan_id''), (''scanPageId'', get ''page_id''), (''status'', get ''status''),
        (''createdAt'', get ''captured_at''), (''finalUrl'', get ''final_url''), (''viewport'', Some (JStr (viewport width height))),
        (''viewportWidth'', Some width), (''viewportHeight'', Some height), (''measurementProfile'', get ''measurement_profile''),
        (''browserVersion'', get ''browser_version''), (''resourceCount'', Some (or_zero T (get ''network_request_count''))),
        (''capturedResourceCount'', Some (or_zero T (get ''captured_resource_count''))),
        (''totalBytes'', Some (or_zero T (get ''total_transfer_bytes''))), (''rendered'', nullish (get ''rendered_metadata'') (Some JNull)),
        (''diff'', nullish (get ''diff_summary'') (Some JNull)), (''performance'', nullish (get ''performance_summary'') (Some JNull)),
        (''artifacts'', Some (if is_truthy (get ''snapshot_id'') then js_object
            [(''renderedHtmlBytes'', Some (or_zero T (get ''html_bytes''))), (''screenshotBytes'', Some (or_zero T (get ''screenshot_bytes'')))]
          else JNull)),
        (''reconstruction'', Some (reconstructionResponse T snapshot)), (''resources'', Some resources)])"

definition artifact_entry :: "number_text \<Rightarrow> json \<Rightarrow> json" where
  "artifact_entry T a = js_object
     [(''id'', prop_of ''id'' a), (''kind'', prop_of ''kind'' a), (''shardNumber'', Some (as_number T (prop_of ''shard_number'' a))),
      (''filename'', prop_of ''logical_filename'' a), (''byteSize'', Some (as_number T (prop_of ''byte_size'' a))),
      (''sha256'', prop_of ''sha256_hex'' a), (''expiresAt'', prop_of ''delete_after'' a)]"

definition siteCloneResponse :: "number_text \<Rightarrow> json \<Rightarrow> json" where
  "siteCloneResponse T source = (let get = (\<lambda>k. prop_of k source); num = (\<lambda>k. Some (as_number T (prop_of k source))) in
     js_object
       [(''id'', get ''id''), (''scanId'', get ''scan_id''), (''targetUrl'', get ''root_url''),
        (''status'', if get ''status'' = Some (JStr ''INGESTING'') then Some (JStr ''RUNNING'') else get ''status''),
        (''discoveredCount'', num ''discovered_count''), (''processedCount'', num ''processed_count''),
        (''succeededCount'', num ''succeeded_count''), (''failedCount'', num ''failed_count''),
        (''inputBytes'', num ''input_bytes''), (''archiveBytes'', num ''archive_bytes''), (''artifactCount'', num ''artifact_count''),
        (''terminalCode'', get ''terminal_code''), (''terminalMessage'', get ''terminal_message''), (''createdAt'', get ''created_at''),
        (''startedAt'', get ''started_at''), (''finishedAt'', get ''finished_at''),
        (''artifacts'', Some (JArr (case get ''artifacts'' of Some (JArr js) \<Rightarrow> map (artifact_entry T) js | _ \<Rightarrow> [])))])"

end
