(* ===== verification/Http_Routes.thy ===== *)
theory Http_Routes
  imports Http_Server
begin

text \<open>
  The request handler of the capture worker (\<open>startServer\<close> of \<open>capture-worker/src/server.ts\<close>): one definition
  per route, tried in the order of the source. A route that does not apply is \<open>None\<close>.
\<close>

section \<open>Paths\<close>

text \<open>\<open>([0-9a-f-]+)\<close>, one segment of the path.\<close>

definition id_segment :: "string \<Rightarrow> bool" where
  "id_segment s \<longleftrightarrow> s \<noteq> [] \<and> list_all (\<lambda>c. digit c \<or> between (CHR ''a'') (CHR ''f'') c \<or> c = CHR ''-'') s"

datatype seg = Lit string | Id

fun match_segs :: "seg list \<Rightarrow> string list \<Rightarrow> string list option" where
  "match_segs [] [] = Some []"
| "match_segs (Lit l # ps) (s # ss) = (if l = s then match_segs ps ss else None)"
| "match_segs (Id # ps) (s # ss) = (if id_segment s then map_option (Cons s) (match_segs ps ss) else None)"
| "match_segs _ _ = None"

definition match_path :: "seg list \<Rightarrow> url \<Rightarrow> string list option" where
  "match_path ps u = match_segs ([Lit [], Lit ''internal'', Lit ''v1''] @ ps) (split_on (CHR ''/'') (u_pathname u))"

definition capture_path :: "seg list \<Rightarrow> seg list" where
  "capture_path rest = [Lit ''reports'', Lit ''captures'', Id] @ rest"

definition site_path :: "seg list \<Rightarrow> seg list" where
  "site_path rest = [Lit ''reports'', Lit ''site-clones'', Id] @ rest"

definition session_path :: "url \<Rightarrow> (string \<times> string) option" where
  "session_path u = (let base = [Lit ''browser-sessions'', Lit ''site-clones'', Id] in
     case match_path base u of
       Some ids \<Rightarrow> Some (hd ids, [])
     | None \<Rightarrow> (case find (\<lambda>op. match_path (base @ [Lit op]) u \<noteq> None) [''screenshot'', ''actions'', ''ready''] of
         Some op \<Rightarrow> Some (hd (the (match_path (base @ [Lit op]) u)), op)
       | None \<Rightarrow> None))"

definition param :: "string \<Rightarrow> query \<Rightarrow> string" where
  "param k q = coalesce (map_of q k) []"

section \<open>Routes\<close>

text \<open>A start of a session answers when it has come to its end; every other request is answered at once.\<close>

datatype answer_of = Now "message + response" | AfterStart string

record handling =
  hd_config :: config
  hd_se :: surroundings
  hd_numbers :: number_text
  hd_viewport :: "json \<Rightarrow> json \<Rightarrow> string"
  hd_request :: request
  hd_headers :: "(string \<times> string) list"
  hd_url :: url
  hd_query :: query

type_synonym 's routed = "(answer_of \<times> 's server) option"

definition reply :: "handling \<Rightarrow> nat \<Rightarrow> json \<Rightarrow> answer_of" where
  "reply H status v = Now (Inr (json_reply (hd_headers H) status v))"

definition refuse :: "handling \<Rightarrow> nat \<Rightarrow> string \<Rightarrow> answer_of" where
  "refuse H status code = Now (Inr (problem (hd_se H) (hd_request H) (hd_headers H) status code))"

definition thrown :: "message \<Rightarrow> answer_of" where
  "thrown code = Now (Inl code)"

definition body_of :: "handling \<Rightarrow> message + json" where
  "body_of H = lift_message request_message (readBody (se_codec (hd_se H)) (hq_chunks (hd_request H)))"

definition is_get :: "handling \<Rightarrow> bool" where
  "is_get H \<longleftrightarrow> hq_verb (hd_request H) = ''GET''"

definition owner_of :: "handling \<Rightarrow> string" where
  "owner_of H = param ''ownerId'' (hd_query H)"

text \<open>The parsed envelope is handed to the database, whose answer tells a duplicate from a new command.\<close>

definition command_reply :: "handling \<Rightarrow> string \<Rightarrow> json \<Rightarrow> bool \<Rightarrow> answer_of" where
  "command_reply H idField envelope duplicate = reply H (if duplicate then 200 else 202)
     (js_object [(''accepted'', Some (JBool True)), (''duplicate'', Some (JBool duplicate)), (idField, prop_of ''aggregateId'' envelope)])"

definition command_route :: "string \<Rightarrow> (json \<Rightarrow> request_error + json) \<Rightarrow> (json \<Rightarrow> 's \<Rightarrow> message + bool \<times> 's)
    \<Rightarrow> handling \<Rightarrow> 's server \<Rightarrow> answer_of \<times> 's server" where
  "command_route idField parse accept H st =
     (case rbind (body_of H) (\<lambda>j. lift_message request_message (parse j)) of
        Inl e \<Rightarrow> (thrown e, st)
      | Inr envelope \<Rightarrow> (case accept envelope (hs_store st) of
          Inl e \<Rightarrow> (thrown e, st)
        | Inr (duplicate, s') \<Rightarrow> (command_reply H idField envelope duplicate, st\<lparr>hs_store := s'\<rparr>)))"

definition captures_route :: "'s backend \<Rightarrow> handling \<Rightarrow> 's server \<Rightarrow> 's routed" where
  "captures_route B H st = (if hq_verb (hd_request H) = ''POST'' \<and> u_pathname (hd_url H) = ''/internal/v1/commands/captures''
     then Some (command_route ''captureRequestId'' (parseEnvelope (se_js (hd_se H))) (be_accept_capture B) H st) else None)"

definition site_clones_route :: "'s backend \<Rightarrow> handling \<Rightarrow> 's server \<Rightarrow> 's routed" where
  "site_clones_route B H st = (if hq_verb (hd_request H) = ''POST'' \<and> u_pathname (hd_url H) = ''/internal/v1/commands/site-clones''
     then Some (if \<not> cf_sites (hd_config H) then (refuse H 503 ''SITE_CLONE_UNAVAILABLE'', st)
       else command_route ''siteCloneRequestId'' parseSiteCloneEnvelope (be_accept_site B) H st) else None)"

text \<open>Browser sessions. An absent session is a 404, and a request no branch takes falls through to the next route.\<close>

definition view_reply :: "handling \<Rightarrow> session_error + session_view option \<Rightarrow> answer_of" where
  "view_reply H r = (case r of
     Inl e \<Rightarrow> thrown (session_message e)
   | Inr None \<Rightarrow> refuse H 404 ''BROWSER_SESSION_NOT_FOUND''
   | Inr (Some v) \<Rightarrow> reply H 200 (se_view (hd_se H) v))"

definition picture_reply :: "handling \<Rightarrow> session_error + nat option \<Rightarrow> answer_of" where
  "picture_reply H r = (case r of
     Inl e \<Rightarrow> thrown (session_message e)
   | Inr None \<Rightarrow> refuse H 404 ''BROWSER_SESSION_NOT_FOUND''
   | Inr (Some page) \<Rightarrow> (case se_picture (hd_se H) page of
       Inl e \<Rightarrow> thrown e
     | Inr picture \<Rightarrow> Now (Inr \<lparr> hr_status = 200,
         hr_headers = file_headers (hd_headers H) ''image/jpeg'' (length picture) (''inline; filename='' @ [CHR 0x22] @ ''browser-session.jpg'' @ [CHR 0x22])
           (hex (se_digests (hd_se H)) (sha256 (se_digests (hd_se H)) picture)),
         hr_content = Bytes picture \<rparr>)))"

definition start_reply :: "handling \<Rightarrow> string \<Rightarrow> start_outcome \<Rightarrow> answer_of" where
  "start_reply H site out = (case out of
     Refused e \<Rightarrow> thrown (session_message e) | Shown v \<Rightarrow> reply H 201 (se_view (hd_se H) v) | _ \<Rightarrow> AfterStart site)"

definition on_sessions :: "'s server \<Rightarrow> ('a \<Rightarrow> answer_of) \<Rightarrow> 'a \<times> manager \<Rightarrow> answer_of \<times> 's server" where
  "on_sessions st f r = (f (fst r), st\<lparr>hs_sessions := snd r\<rparr>)"

definition with_owned_body :: "handling \<Rightarrow> 's server \<Rightarrow> (string \<Rightarrow> json \<Rightarrow> answer_of \<times> 's server) \<Rightarrow> answer_of \<times> 's server" where
  "with_owned_body H st f = (case rbind (body_of H) (\<lambda>j. lift_message request_message (parseOwnedBody j)) of
     Inl e \<Rightarrow> (thrown e, st) | Inr (ownerId, v) \<Rightarrow> f ownerId v)"

definition sessions_route :: "handling \<Rightarrow> 's server \<Rightarrow> 's routed" where
  "sessions_route H st = (case session_path (hd_url H) of
     None \<Rightarrow> None
   | Some (site, op) \<Rightarrow>
       let m = hs_sessions st; clk = se_clock (hd_se H); W = se_web (hd_se H); verb = hq_verb (hd_request H);
           owner = owner_of H; absent = (refuse H 404 ''BROWSER_SESSION_NOT_FOUND'', st) in
       if \<not> cf_browsers (hd_config H) then Some (refuse H 503 ''BROWSER_SESSION_UNAVAILABLE'', st)
       else if \<not> uuid_text site then Some (refuse H 400 ''INVALID_ID'', st)
       else if verb = ''POST'' \<and> op = [] then
         Some (case rbind (body_of H) (\<lambda>j. lift_message request_message (parseBrowserSessionStart j)) of
            Inl e \<Rightarrow> (thrown e, st)
          | Inr (ownerId, targetUrl) \<Rightarrow> on_sessions st (start_reply H site) (start_session W clk ownerId site m))
       else if verb = ''GET'' \<and> op = [] then
         Some (if uuid_text owner then on_sessions st (view_reply H) (session_state W clk owner site m) else absent)
       else if verb = ''GET'' \<and> op = ''screenshot'' then
         Some (if uuid_text owner then on_sessions st (picture_reply H) (session_screenshot clk owner site m) else absent)
       else if verb = ''POST'' \<and> op = ''actions'' then
         Some (with_owned_body H st (\<lambda>ownerId v. on_sessions st (\<lambda>r. view_reply H (case r of Inl e \<Rightarrow> Inl e | Inr x \<Rightarrow> Inr (map_option fst x)))
           (session_act W clk ownerId site (prop_of ''action'' v) m)))
       else if verb = ''POST'' \<and> op = ''ready'' then
         Some (with_owned_body H st (\<lambda>ownerId v. on_sessions st (view_reply H) (session_ready W clk ownerId site m)))
       else if verb = ''DELETE'' \<and> op = [] then
         Some (if uuid_text owner then
             on_sessions st (\<lambda>closed. if closed then reply H 200 (JObj [(''closed'', JBool True)]) else refuse H 404 ''BROWSER_SESSION_NOT_FOUND'')
               (session_close clk owner site m)
           else absent)
       else None)"

section \<open>Files and reports\<close>

text \<open>A stored file: looked up, perhaps published, not expired, and sent.\<close>

definition file_route :: "'s backend \<Rightarrow> handling \<Rightarrow> 's server \<Rightarrow> string \<Rightarrow> ('r reference_scheme \<Rightarrow> bool)
    \<Rightarrow> ('r reference_scheme \<Rightarrow> string) \<Rightarrow> ('r reference_scheme \<Rightarrow> string) \<Rightarrow> message + 'r reference_scheme option \<Rightarrow> answer_of \<times> 's server" where
  "file_route B H st missing published contentType disposition found = (case found of
     Inl e \<Rightarrow> (thrown e, st)
   | Inr None \<Rightarrow> (refuse H 404 missing, st)
   | Inr (Some r) \<Rightarrow> (if \<not> published r then thrown ''ARTIFACT_EXPIRED''
       else Now (rbind (ensureNotExpired (se_clock (hd_se H)) r) (\<lambda>_.
         artifact B (hs_store st) (hd_headers H) r (contentType r) (disposition r))), st))"

definition quoted :: "string \<Rightarrow> string" where
  "quoted s = [CHR 0x22] @ s @ [CHR 0x22]"

definition site_artifact_route :: "'s backend \<Rightarrow> handling \<Rightarrow> 's server \<Rightarrow> 's routed" where
  "site_artifact_route B H st = (case (if is_get H then match_path (site_path [Lit ''artifacts'', Id]) (hd_url H) else None) of
     Some [job, art] \<Rightarrow> Some (if \<not> cf_sites (hd_config H) then (refuse H 503 ''SITE_CLONE_UNAVAILABLE'', st)
       else file_route B H st ''SITE_CLONE_ARTIFACT_NOT_FOUND'' (\<lambda>r. rf_state r = A_PUBLISHED) rf_content_type
         (\<lambda>r. ''attachment; filename='' @ quoted (safeFilename (siteArtifactFilename (se_iso (hd_se H)) r)))
         (be_site_artifact B (owner_of H) job art (hs_store st)))
   | _ \<Rightarrow> None)"

definition json_route :: "handling \<Rightarrow> 's server \<Rightarrow> string \<Rightarrow> (json \<Rightarrow> json) \<Rightarrow> message + json option \<Rightarrow> answer_of \<times> 's server" where
  "json_route H st missing show found = (case found of
     Inl e \<Rightarrow> (thrown e, st) | Inr None \<Rightarrow> (refuse H 404 missing, st) | Inr (Some j) \<Rightarrow> (reply H 200 (show j), st))"

text \<open>\<open>Number(searchParams.get(k) ?? d)\<close>\<close>

definition number_param :: "handling \<Rightarrow> string \<Rightarrow> string \<Rightarrow> js_num" where
  "number_param H k d = text_number (se_js (hd_se H)) (coalesce (map_of (hd_query H) k) d)"

definition progress_route :: "'s backend \<Rightarrow> handling \<Rightarrow> 's server \<Rightarrow> 's routed" where
  "progress_route B H st = (case (if is_get H then match_path (site_path [Lit ''progress'']) (hd_url H) else None) of
     Some [job] \<Rightarrow> Some (if \<not> cf_sites (hd_config H) then (refuse H 503 ''SITE_CLONE_UNAVAILABLE'', st)
       else if \<not> uuid_text (owner_of H) \<or> \<not> uuid_text job then (refuse H 400 ''INVALID_ID'', st)
       else json_route (H\<lparr>hd_headers := set_header ''Cache-Control'' ''no-store'' (hd_headers H)\<rparr>) st ''SITE_CLONE_NOT_FOUND'' (\<lambda>j. j)
         (be_site_progress B (owner_of H) job (number_param H ''after'' ''-1'') (number_param H ''limit'' ''50'')
            (coalesce (map_of (hd_query H) ''status'') ''ALL'') (param ''q'' (hd_query H)) (hs_store st)))
   | _ \<Rightarrow> None)"

definition site_report_route :: "'s backend \<Rightarrow> handling \<Rightarrow> 's server \<Rightarrow> 's routed" where
  "site_report_route B H st = (case (if is_get H then match_path (site_path []) (hd_url H) else None) of
     Some [job] \<Rightarrow> Some (if \<not> cf_sites (hd_config H) then (refuse H 503 ''SITE_CLONE_UNAVAILABLE'', st)
       else json_route H st ''SITE_CLONE_NOT_FOUND'' (siteCloneResponse (hd_numbers H)) (be_site_report B (owner_of H) job (hs_store st)))
   | _ \<Rightarrow> None)"

definition screenshot_route :: "'s backend \<Rightarrow> handling \<Rightarrow> 's server \<Rightarrow> 's routed" where
  "screenshot_route B H st = (case (if is_get H then match_path (capture_path [Lit ''artifacts'', Lit ''screenshot'']) (hd_url H) else None) of
     Some [capture] \<Rightarrow> Some (file_route B H st ''CAPTURE_ARTIFACT_NOT_FOUND'' (\<lambda>r. True) (\<lambda>r. ''image/jpeg'')
       (\<lambda>r. ''inline; filename='' @ quoted ''capture.jpg'') (be_screenshot B (owner_of H) capture (hs_store st)))
   | _ \<Rightarrow> None)"

definition resource_route :: "'s backend \<Rightarrow> handling \<Rightarrow> 's server \<Rightarrow> 's routed" where
  "resource_route B H st = (case (if is_get H then match_path (capture_path [Lit ''resources'', Id, Lit ''content'']) (hd_url H) else None) of
     Some [capture, resource] \<Rightarrow> Some (file_route B H st ''CAPTURE_RESOURCE_NOT_FOUND'' (\<lambda>r. True) (\<lambda>r. ''application/octet-stream'')
       (\<lambda>r. ''attachment; filename='' @ quoted ''captured-resource.bin'') (be_resource B (owner_of H) capture resource (hs_store st)))
   | _ \<Rightarrow> None)"

definition reconstruction_route :: "'s backend \<Rightarrow> handling \<Rightarrow> 's server \<Rightarrow> 's routed" where
  "reconstruction_route B H st = (case (if is_get H then match_path (capture_path [Lit ''reconstruction'']) (hd_url H) else None) of
     Some [capture] \<Rightarrow> Some (json_route H st ''RECONSTRUCTION_NOT_FOUND'' (reconstructionResponse (hd_numbers H))
       (be_reconstruction B (owner_of H) capture (hs_store st)))
   | _ \<Rightarrow> None)"

definition archive_route :: "'s backend \<Rightarrow> handling \<Rightarrow> 's server \<Rightarrow> 's routed" where
  "archive_route B H st = (case (if is_get H then match_path [Lit ''reports'', Lit ''reconstructions'', Id, Lit ''artifacts'', Lit ''archive''] (hd_url H) else None) of
     Some [recon] \<Rightarrow> Some (file_route B H st ''RECONSTRUCTION_ARTIFACT_NOT_FOUND'' (\<lambda>r. rf_state r = A_PUBLISHED) (\<lambda>r. ''application/zip'')
       (\<lambda>r. ''attachment; filename='' @ quoted ''weblens-static-clone.zip'') (be_archive B (owner_of H) recon (hs_store st)))
   | _ \<Rightarrow> None)"

definition snapshot_route :: "'s backend \<Rightarrow> handling \<Rightarrow> 's server \<Rightarrow> 's routed" where
  "snapshot_route B H st = (case (if is_get H then match_path (capture_path []) (hd_url H) else None) of
     Some [capture] \<Rightarrow> Some (case be_snapshot B (owner_of H) capture (hs_store st) of
         Inl e \<Rightarrow> (thrown e, st)
       | Inr None \<Rightarrow> (refuse H 404 ''CAPTURE_NOT_FOUND'', st)
       | Inr (Some snapshot) \<Rightarrow> (case be_resources B (owner_of H) capture (hs_store st) of
           Inl e \<Rightarrow> (thrown e, st)
         | Inr resources \<Rightarrow> (reply H 200 (snapshotResponse (hd_numbers H) (hd_viewport H) snapshot resources), st)))
   | _ \<Rightarrow> None)"

section \<open>The handler\<close>

fun first_route :: "'a option list \<Rightarrow> 'a \<Rightarrow> 'a" where
  "first_route [] d = d"
| "first_route (Some x # rs) d = x"
| "first_route (None # rs) d = first_route rs d"

definition routes :: "'s backend \<Rightarrow> handling \<Rightarrow> 's server \<Rightarrow> 's routed list" where
  "routes B H st = [captures_route B H st, site_clones_route B H st, sessions_route H st, site_artifact_route B H st,
     progress_route B H st, site_report_route B H st, screenshot_route B H st, resource_route B H st,
     reconstruction_route B H st, archive_route B H st, snapshot_route B H st]"

text \<open>The last part of the handler: a thrown message becomes a problem.\<close>

fun final_answer :: "handling \<Rightarrow> answer_of \<Rightarrow> response option" where
  "final_answer H (Now (Inr r)) = Some r"
| "final_answer H (Now (Inl code)) = (let (status, shown) = recovered code
     in Some (problem (hd_se H) (hd_request H) (hd_headers H) status shown))"
| "final_answer H (AfterStart site) = None"

definition download_path :: "url \<Rightarrow> bool" where
  "download_path u \<longleftrightarrow> contains_text ''/artifacts/'' (u_pathname u) \<or> ends_with ''/content'' (u_pathname u)"

definition max_downloads :: nat where "max_downloads = 2"

text \<open>The result says whether the response holds a download slot, and is \<open>None\<close> while a start is running.\<close>

definition handle_url :: "'s backend \<Rightarrow> handling \<Rightarrow> 's server \<Rightarrow> (response option \<times> bool) \<times> 's server" where
  "handle_url B H st =
     (if is_get H \<and> u_pathname (hd_url H) = ''/health/live'' then ((final_answer H (reply H 200 (JObj [(''status'', JStr ''UP'')])), False), st)
      else if is_get H \<and> u_pathname (hd_url H) = ''/health/ready'' then
        ((final_answer H (if be_ping B (hs_store st) then reply H 200 (JObj [(''status'', JStr ''UP'')]) else thrown ''unreachable''), False), st)
      else if \<not> authenticated (se_digests (hd_se H)) (cf_token (hd_config H)) (hd_request H)
      then ((final_answer H (refuse H 401 ''SERVICE_AUTHENTICATION_REQUIRED''), False), st)
      else if is_get H \<and> download_path (hd_url H) \<and> max_downloads \<le> hs_downloads st
      then ((final_answer H (refuse (H\<lparr>hd_headers := set_header ''Retry-After'' ''2'' (hd_headers H)\<rparr>) 503 ''ARTIFACT_DOWNLOAD_CAPACITY''), False), st)
      else
        (let held = (is_get H \<and> download_path (hd_url H));
             st1 = (if held then st\<lparr>hs_downloads := hs_downloads st + 1\<rparr> else st);
             (a, st2) = first_route (routes B H st1) (refuse H 404 ''NOT_FOUND'', st1)
         in ((final_answer H a, held), st2)))"

definition handle :: "config \<Rightarrow> surroundings \<Rightarrow> number_text \<Rightarrow> (json \<Rightarrow> json \<Rightarrow> string) \<Rightarrow> 's backend \<Rightarrow> request \<Rightarrow> 's server
    \<Rightarrow> (response option \<times> bool) \<times> 's server" where
  "handle C S T V B q st = (let hs = setHeaders S q in
     case resolve_url (se_web S) (coalesce (hq_url q) ''/'') (''http://'' @ coalesce (hq_host q) ''localhost'') of
       None \<Rightarrow> ((Some (problem S q hs 503 ''SERVICE_UNAVAILABLE''), False), st)
     | Some u \<Rightarrow> handle_url B \<lparr> hd_config = C, hd_se = S, hd_numbers = T, hd_viewport = V, hd_request = q, hd_headers = hs,
         hd_url = u, hd_query = query_of (se_web S) (u_search u) \<rparr> st)"

text \<open>\<open>finish\<close> or \<open>close\<close> of a response that holds a slot, whichever comes first.\<close>

definition release :: "'s server \<Rightarrow> 's server" where
  "release st = st\<lparr>hs_downloads := hs_downloads st - 1\<rparr>"

end
