(* ===== verification/Server_Backend.thy ===== *)
theory Server_Backend
  imports Http_Routes Site_Gc Site_Events Capture_Reads
begin

text \<open>
  The backend of the HTTP server: \<open>SiteCloneDatabase\<close>, \<open>CaptureDatabase\<close> and \<open>ObjectStorage\<close> as the other
  theories model them, behind the texts and JSON values of requests. The texts of \<open>uuid\<close> values, the JSON of
  rows and the answers of the object store are parameters.
\<close>

record world =
  wd_sites :: site_db
  wd_captures :: cap_db

record links =
  wl_uuid :: "string \<Rightarrow> uuid option"
  wl_uuid_text :: "uuid \<Rightarrow> string"
  wl_digests :: digests
  wl_bucket :: string
  wl_objects :: "string \<Rightarrow> string \<Rightarrow> object_content answer"
  wl_site_env :: env
  wl_site_sha :: "site_command \<Rightarrow> digest"
  wl_cap_env :: cap_env
  wl_platform :: platform
  wl_read_capture :: "json \<Rightarrow> capture_command option"
  wl_redact :: "string \<Rightarrow> string option"
  wl_alive :: "world \<Rightarrow> bool"
  wl_show_report :: "job_row \<times> artifact_row list \<Rightarrow> json"
  wl_show_progress :: "site_progress \<Rightarrow> json"
  wl_show_recon :: "recon_view \<Rightarrow> json"
  wl_show_snapshot :: "capture_row \<times> snapshot_row option \<times> recon_view option \<Rightarrow> json"
  wl_resources :: "string \<Rightarrow> string \<Rightarrow> world \<Rightarrow> message + json"

text \<open>An error the handler does not know by its message is answered as unavailable, whatever it says.\<close>

definition site_message :: "site_error \<Rightarrow> message" where
  "site_message e = (if e = MESSAGE_ID_COLLISION then ''MESSAGE_ID_COLLISION''
     else if e = INVALID_SITE_PROGRESS_FILTER then ''INVALID_SITE_PROGRESS_FILTER''
     else if e = SITE_JOB_NOT_FOUND then ''SITE_JOB_NOT_FOUND'' else ''database error'')"

definition cap_message :: "cap_error \<Rightarrow> message" where
  "cap_message e = (if e = CAP_MESSAGE_ID_COLLISION then ''MESSAGE_ID_COLLISION'' else ''database error'')"

definition bad_uuid :: message where "bad_uuid = ''invalid input syntax for type uuid''"

text \<open>A query with two or three \<open>uuid\<close> parameters, which must be texts of such values.\<close>

definition with_uuids :: "links \<Rightarrow> string list \<Rightarrow> (uuid list \<Rightarrow> message + 'a) \<Rightarrow> message + 'a" where
  "with_uuids L ts f = (if list_all (\<lambda>t. wl_uuid L t \<noteq> None) ts then f (map (\<lambda>t. the (wl_uuid L t)) ts) else Inl bad_uuid)"

definition to_millis :: "time \<Rightarrow> nat" where
  "to_millis t = t div 1000"

definition site_reference_of :: "links \<Rightarrow> artifact_row \<Rightarrow> site_reference" where
  "site_reference_of L a = \<lparr> rf_bucket = a_bucket a, rf_key = a_key a, rf_bytes = a_bytes a, rf_sha_hex = hex (wl_digests L) (a_sha a),
     rf_expires = to_millis (a_delete_after a), rf_state = a_state a, rf_id = wl_uuid_text L (a_id a), rf_created = a_created a,
     rf_kind = a_kind a, rf_shard = a_shard a, rf_filename = a_filename a, rf_content_type = a_content_type a \<rparr>"

definition reference_of :: "links \<Rightarrow> 'x object_reference_scheme \<Rightarrow> reference" where
  "reference_of L r = \<lparr> rf_bucket = or_bucket r, rf_key = or_key r, rf_bytes = or_bytes r,
     rf_sha_hex = hex (wl_digests L) (or_sha r), rf_expires = to_millis (or_expires_at r) \<rparr>"

definition stated_reference_of :: "links \<Rightarrow> artifact_reference \<Rightarrow> stated_reference" where
  "stated_reference_of L r = \<lparr> rf_bucket = or_bucket r, rf_key = or_key r, rf_bytes = or_bytes r,
     rf_sha_hex = hex (wl_digests L) (or_sha r), rf_expires = to_millis (or_expires_at r), rf_state = or_state r \<rparr>"

text \<open>The arguments of \<open>getProgress\<close>: \<open>Number.isInteger\<close> and the list of statuses.\<close>

definition integer_num :: "js_num \<Rightarrow> int option" where
  "integer_num n = (case n of Finite q \<Rightarrow> if of_int \<lfloor>q\<rfloor> = q then Some \<lfloor>q\<rfloor> else None | _ \<Rightarrow> None)"

definition status_filter_of :: "string \<Rightarrow> status_filter option" where
  "status_filter_of s = map_of [(''ALL'', ALL_STATUSES), (''QUEUED'', ONLY P_QUEUED), (''RENDERING'', ONLY P_RENDERING),
     (''SUCCEEDED'', ONLY P_SUCCEEDED), (''FAILED'', ONLY P_FAILED), (''CANCELLED'', ONLY P_CANCELLED)] s"

definition progress_answer :: "links \<Rightarrow> string \<Rightarrow> string \<Rightarrow> js_num \<Rightarrow> js_num \<Rightarrow> string \<Rightarrow> string \<Rightarrow> world \<Rightarrow> message + json option" where
  "progress_answer L owner job after limit status q s = (case (integer_num after, integer_num limit, status_filter_of status) of
     (Some a, Some l, Some f) \<Rightarrow> with_uuids L [owner, job] (\<lambda>us.
       rbind (lift_message site_message (getProgress (wl_redact L) (wl_site_env L) (us ! 0) (us ! 1) a l f q (wd_sites s)))
         (\<lambda>r. Inr (map_option (wl_show_progress L) r)))
   | _ \<Rightarrow> Inl ''INVALID_SITE_PROGRESS_FILTER'')"

definition accept_site :: "links \<Rightarrow> json \<Rightarrow> world \<Rightarrow> message + bool \<times> world" where
  "accept_site L j s = (case read_site_command (wl_uuid L) j of
     None \<Rightarrow> Inl ''database error''
   | Some c \<Rightarrow> rbind (lift_message site_message (acceptCommand (wl_site_sha L) (wl_site_env L) c (wd_sites s)))
       (\<lambda>(duplicate, d). Inr (duplicate, s\<lparr>wd_sites := d\<rparr>)))"

definition accept_capture :: "links \<Rightarrow> json \<Rightarrow> world \<Rightarrow> message + bool \<times> world" where
  "accept_capture L j s = (case wl_read_capture L j of
     None \<Rightarrow> Inl ''database error''
   | Some c \<Rightarrow> rbind (lift_message cap_message (acceptCapture (wl_platform L) (wl_cap_env L) c (wd_captures s)))
       (\<lambda>(duplicate, d). Inr (duplicate, s\<lparr>wd_captures := d\<rparr>)))"

definition download :: "links \<Rightarrow> string \<Rightarrow> string \<Rightarrow> nat \<Rightarrow> message + spooled" where
  "download L bucket key bytes =
     lift_message storage_message (downloadFile (wl_digests L) (wl_bucket L) (wl_objects L bucket key) bucket bytes)"

definition weblens_backend :: "links \<Rightarrow> world backend" where
  "weblens_backend L =
    \<lparr> be_ping = wl_alive L,
      be_accept_capture = accept_capture L,
      be_accept_site = accept_site L,
      be_site_artifact = (\<lambda>owner job art s. with_uuids L [owner, job, art] (\<lambda>us.
        Inr (map_option (site_reference_of L) (getArtifact (us ! 0) (us ! 1) (us ! 2) (wd_sites s))))),
      be_site_report = (\<lambda>owner job s. with_uuids L [owner, job] (\<lambda>us.
        Inr (map_option (wl_show_report L) (getReport (wl_site_env L) (us ! 0) (us ! 1) (wd_sites s))))),
      be_site_progress = progress_answer L,
      be_screenshot = (\<lambda>owner capture s. with_uuids L [owner, capture] (\<lambda>us.
        Inr (map_option (reference_of L) (getScreenshotReference (us ! 0) (us ! 1) (wd_captures s))))),
      be_resource = (\<lambda>owner capture resource s. with_uuids L [owner, capture, resource] (\<lambda>us.
        Inr (map_option (reference_of L) (getResourceReference (us ! 0) (us ! 1) (us ! 2) (wd_captures s))))),
      be_archive = (\<lambda>owner recon s. with_uuids L [owner, recon] (\<lambda>us.
        Inr (map_option (stated_reference_of L) (getReconstructionArchiveReference (us ! 0) (us ! 1) (wd_captures s))))),
      be_reconstruction = (\<lambda>owner capture s. with_uuids L [owner, capture] (\<lambda>us.
        Inr (map_option (wl_show_recon L) (getReconstruction (wl_cap_env L) (us ! 0) (us ! 1) (wd_captures s))))),
      be_snapshot = (\<lambda>owner capture s. with_uuids L [owner, capture] (\<lambda>us.
        Inr (map_option (wl_show_snapshot L) (getSnapshot (wl_cap_env L) (us ! 0) (us ! 1) (wd_captures s))))),
      be_resources = wl_resources L,
      be_download = (\<lambda>bucket key bytes s. download L bucket key bytes) \<rparr>"

section \<open>Routes by their paths\<close>

lemma match_Nil: "match_segs [] ss = Some ids \<longleftrightarrow> ss = [] \<and> ids = []"
  by (cases ss) auto

lemma match_Lit: "match_segs (Lit l # ps) ss = Some ids \<longleftrightarrow> (\<exists>ss'. ss = l # ss' \<and> match_segs ps ss' = Some ids)"
  by (cases ss) auto

lemma match_Id: "match_segs (Id # ps) ss = Some ids
    \<longleftrightarrow> (\<exists>s ss' ids'. ss = s # ss' \<and> id_segment s \<and> ids = s # ids' \<and> match_segs ps ss' = Some ids')"
  by (cases ss) auto

lemmas match_simps = match_Nil match_Lit match_Id

lemma site_artifact_segments:
  assumes "match_path (site_path [Lit ''artifacts'', Id]) u = Some ids"
  obtains job art where "ids = [job, art]" "id_segment job" "id_segment art"
    "split_on (CHR ''/'') (u_pathname u) = [[], ''internal'', ''v1'', ''reports'', ''site-clones'', job, ''artifacts'', art]"
  using assms by (auto simp: match_path_def site_path_def match_simps)

lemma not_a_session_path:
  assumes "split_on (CHR ''/'') (u_pathname u) = [] # ''internal'' # ''v1'' # ''reports'' # rest"
  shows "session_path u = None"
proof -
  have "match_path (Lit ''browser-sessions'' # ps) u = None" for ps
    using assms by (simp add: match_path_def)
  then show ?thesis by (auto simp: session_path_def Let_def find_None_iff split: option.splits)
qed

section \<open>Files\<close>

lemma artifact_intact:
  assumes "artifact (weblens_backend L) s hs r contentType disposition = Inr p"
  shows "\<exists>body. hr_content p = Bytes body \<and> hr_status p = 200 \<and> length body = rf_bytes r
     \<and> hex (wl_digests L) (sha256 (wl_digests L) body) = rf_sha_hex r \<and> rf_bytes r \<le> download_limit"
proof -
  from assms obtain fl where f: "download L (rf_bucket r) (rf_key r) (rf_bytes r) = Inr fl"
      "dl_bytes fl = rf_bytes r" "dl_sha_hex fl = rf_sha_hex r" "hr_content p = Bytes (dl_content fl)" "hr_status p = 200"
    by (auto simp: artifact_def weblens_backend_def rbind_def split: sum.splits if_splits)
  from f(1) have "downloadFile (wl_digests L) (wl_bucket L) (wl_objects L (rf_bucket r) (rf_key r)) (rf_bucket r) (rf_bytes r) = Inr fl"
    by (auto simp: download_def lift_message_def split: sum.splits)
  from download_bounded [OF this] f show ?thesis by auto
qed

lemma file_route_intact:
  assumes "file_route (weblens_backend L) H st missing published contentType disposition found = (Now (Inr p), st')"
    "hr_content p = Bytes body"
  shows "\<exists>r. found = Inr (Some r) \<and> published r \<and> se_clock (hd_se H) < rf_expires r \<and> length body = rf_bytes r
     \<and> hex (wl_digests L) (sha256 (wl_digests L) body) = rf_sha_hex r"
proof -
  have "\<exists>r. found = Inr (Some r)"
    using assms by (auto simp: file_route_def thrown_def refuse_def problem_def json_reply_def split: sum.splits option.splits)
  then obtain r where r: "found = Inr (Some r)" by blast
  with assms(1) have "published r" "se_clock (hd_se H) < rf_expires r"
    "artifact (weblens_backend L) (hs_store st) (hd_headers H) r (contentType r) (disposition r) = Inr p"
    by (auto simp: file_route_def thrown_def ensureNotExpired_def rbind_def split: if_splits sum.splits)
  with artifact_intact [OF this(3)] assms(2) r show ?thesis by auto
qed

end
