(* ===== verification/Network_Guard.thy ===== *)
theory Network_Guard
  imports Archive_Paths Web_Urls "HOL-Library.Word"
begin

text \<open>
  The network policy of the capture worker (\<open>capture-worker/src/security.ts\<close>): the text forms of IP addresses
  as \<open>isIP\<close> of \<open>node:net\<close> accepts them, the block list as \<open>BlockList\<close> checks it, and the resolution of host
  names to public addresses only. Name resolution and \<open>new URL\<close> are parameters.
\<close>

section \<open>Addresses\<close>

datatype ip = V4 "32 word" | V6 "128 word"

text \<open>One octet in decimal, without leading zeros.\<close>

definition digits_value :: "string \<Rightarrow> nat option" where
  "digits_value s = (if s \<noteq> [] \<and> list_all digit s then Some (foldl (\<lambda>v c. 10 * v + (of_char c - 48)) 0 s) else None)"

definition octet :: "string \<Rightarrow> nat option" where
  "octet s = (if 3 < length s \<or> 1 < length s \<and> hd s = CHR ''0'' then None
     else (case digits_value s of None \<Rightarrow> None | Some n \<Rightarrow> if n < 256 then Some n else None))"

definition octets4 :: "string \<Rightarrow> nat list option" where
  "octets4 s = (let parts = map octet (split_on (CHR ''.'') s)
     in if length parts = 4 \<and> list_all (\<lambda>x. x \<noteq> None) parts then Some (map the parts) else None)"

definition number_of :: "nat \<Rightarrow> nat list \<Rightarrow> nat" where
  "number_of base ds = foldl (\<lambda>n d. n * base + d) 0 ds"

text \<open>A group of one to four hexadecimal digits; the last one may be an IPv4 address, which counts as two.\<close>

definition hex_value :: "char \<Rightarrow> nat option" where
  "hex_value c = (if digit c then Some (of_char c - 48)
     else if between (CHR ''a'') (CHR ''f'') c then Some (of_char c - 87)
     else if between (CHR ''A'') (CHR ''F'') c then Some (of_char c - 55) else None)"

definition hex_group :: "string \<Rightarrow> nat option" where
  "hex_group s = (let ds = map hex_value s
     in if s \<noteq> [] \<and> length s \<le> 4 \<and> list_all (\<lambda>x. x \<noteq> None) ds then Some (number_of 16 (map the ds)) else None)"

fun hex_groups :: "bool \<Rightarrow> string list \<Rightarrow> nat list option" where
  "hex_groups tail_ipv4 [] = Some []"
| "hex_groups tail_ipv4 (p # ps) = (case hex_group p of
     Some g \<Rightarrow> map_option (Cons g) (hex_groups tail_ipv4 ps)
   | None \<Rightarrow> if tail_ipv4 \<and> ps = [] then
         map_option (\<lambda>os. [os ! 0 * 256 + os ! 1, os ! 2 * 256 + os ! 3]) (octets4 p)
       else None)"

definition half :: "bool \<Rightarrow> string \<Rightarrow> nat list option" where
  "half tail_ipv4 s = (if s = [] then Some [] else hex_groups tail_ipv4 (split_on (CHR '':'') s))"

text \<open>The text before and after the first \<open>::\<close>.\<close>

fun split_gap :: "string \<Rightarrow> (string \<times> string) option" where
  "split_gap (a # b # s) = (if a = CHR '':'' \<and> b = CHR '':'' then Some ([], s)
     else map_option (\<lambda>(l, r). (a # l, r)) (split_gap (b # s)))"
| "split_gap _ = None"

definition groups6 :: "string \<Rightarrow> nat list option" where
  "groups6 s = (case split_gap s of
     None \<Rightarrow> (case half True s of Some gs \<Rightarrow> if length gs = 8 then Some gs else None | None \<Rightarrow> None)
   | Some (l, r) \<Rightarrow> (case (half False l, half True r) of
        (Some gs, Some hs) \<Rightarrow> if length gs + length hs \<le> 7
          then Some (gs @ replicate (8 - length gs - length hs) 0 @ hs) else None
      | _ \<Rightarrow> None))"

definition parse_ip :: "string \<Rightarrow> ip option" where
  "parse_ip s = (case octets4 s of
     Some os \<Rightarrow> Some (V4 (of_nat (number_of 256 os)))
   | None \<Rightarrow> map_option (\<lambda>gs. V6 (of_nat (number_of 65536 gs))) (groups6 s))"

definition zone_char :: "char \<Rightarrow> bool" where
  "zone_char c \<longleftrightarrow> digit c \<or> lower_alpha c \<or> upper_alpha c \<or> c \<in> {CHR ''-'', CHR ''.'', CHR '':''}"

text \<open>\<open>isIP\<close> also takes an IPv6 address with a zone.\<close>

definition isIP :: "string \<Rightarrow> nat" where
  "isIP s = (let address = takeWhile (\<lambda>c. c \<noteq> CHR ''%'') s; zone = drop (length address) s
     in case parse_ip address of
       None \<Rightarrow> 0
     | Some (V4 a) \<Rightarrow> if zone = [] then 4 else 0
     | Some (V6 w) \<Rightarrow> if zone = [] \<or> 1 < length zone \<and> list_all zone_char (tl zone) then 6 else 0)"

section \<open>The block list\<close>

definition blocked_ipv4 :: "(string \<times> nat) list" where
  "blocked_ipv4 =
    [(''0.0.0.0'', 8), (''10.0.0.0'', 8), (''100.64.0.0'', 10), (''127.0.0.0'', 8),
     (''169.254.0.0'', 16), (''172.16.0.0'', 12), (''192.0.0.0'', 24),
     (''192.0.2.0'', 24), (''192.168.0.0'', 16), (''198.18.0.0'', 15),
     (''198.51.100.0'', 24), (''203.0.113.0'', 24), (''224.0.0.0'', 4), (''240.0.0.0'', 4)]"

definition blocked_ipv6 :: "(string \<times> nat) list" where
  "blocked_ipv6 =
    [(''::'', 128), (''::1'', 128), (''fc00::'', 7), (''fe80::'', 10),
     (''ff00::'', 8), (''2001:db8::'', 32)]"

text \<open>
  An IPv4 address is compared with an IPv6 one through its mapped form \<open>::ffff:a.b.c.d\<close>, in either direction.
\<close>

fun wide :: "ip \<Rightarrow> 128 word" where
  "wide (V4 a) = 0xFFFF00000000 + ucast a"
| "wide (V6 w) = w"

fun wide_prefix :: "ip \<Rightarrow> nat \<Rightarrow> nat" where
  "wide_prefix (V4 a) p = 96 + p"
| "wide_prefix (V6 w) p = p"

definition in_subnet :: "ip \<Rightarrow> ip \<Rightarrow> nat \<Rightarrow> bool" where
  "in_subnet x n p \<longleftrightarrow> (let k = 128 - wide_prefix n p in drop_bit k (wide x) = drop_bit k (wide n))"

definition blocked :: "ip \<Rightarrow> bool" where
  "blocked x \<longleftrightarrow> list_ex (\<lambda>(t, p). case parse_ip t of Some n \<Rightarrow> in_subnet x n p | None \<Rightarrow> False)
     (blocked_ipv4 @ blocked_ipv6)"

definition isPrivateAddress :: "string \<Rightarrow> bool" where
  "isPrivateAddress address = (case parse_ip (takeWhile (\<lambda>c. c \<noteq> CHR ''%'') (toLowerCase address)) of
     None \<Rightarrow> True | Some x \<Rightarrow> blocked x)"

section \<open>Resolution\<close>

datatype guard_error = INVALID_URL | URL_POLICY_REJECTED | SSRF_BLOCKED | DNS_FAILED

type_synonym resolver = "string \<Rightarrow> string list option"

definition resolvePublicAddresses :: "resolver \<Rightarrow> string \<Rightarrow> guard_error + string list" where
  "resolvePublicAddresses lookup hostname =
    (let lower = toLowerCase hostname;
         normalized = (if starts_with ''['' lower \<and> ends_with '']'' lower then butlast (tl lower) else lower);
         addresses = (if isIP normalized \<noteq> 0 then [normalized] else coalesce (lookup normalized) [])
     in if addresses = [] then Inl DNS_FAILED
        else if list_ex isPrivateAddress addresses then Inl SSRF_BLOCKED else Inr addresses)"

definition assertPublicHttpUrl :: "web \<Rightarrow> resolver \<Rightarrow> string \<Rightarrow> guard_error + url" where
  "assertPublicHttpUrl W lookup rawUrl = (case parse_url W rawUrl of
     None \<Rightarrow> Inl INVALID_URL
   | Some u \<Rightarrow>
       if u_protocol u \<notin> {''http:'', ''https:''} \<or> u_username u \<noteq> [] \<or> u_password u \<noteq> [] then Inl URL_POLICY_REJECTED
       else (let hostname = toLowerCase (u_hostname u)
         in if hostname = ''localhost'' \<or> ends_with ''.localhost'' hostname then Inl SSRF_BLOCKED
            else case resolvePublicAddresses lookup hostname of Inl e \<Rightarrow> Inl e | Inr _ \<Rightarrow> Inr u))"

lemma resolved_public:
  assumes "resolvePublicAddresses lookup h = Inr as"
  shows "as \<noteq> []" "a \<in> set as \<Longrightarrow> \<not> isPrivateAddress a"
  using assms by (auto simp: resolvePublicAddresses_def Let_def list_ex_iff split: if_splits)

text \<open>
  What the proxy and the browser rely on: a host name resolves to addresses that are all permitted, or not at
  all. Each resolution may answer differently, so the promise is about each one by itself.
\<close>

locale address_guard =
  fixes permitted :: "string \<Rightarrow> bool"
    and resolve :: "resolver \<Rightarrow> string \<Rightarrow> guard_error + string list"
  assumes resolves_some: "resolve lookup h = Inr as \<Longrightarrow> as \<noteq> []"
    and resolves_permitted: "resolve lookup h = Inr as \<Longrightarrow> a \<in> set as \<Longrightarrow> permitted a"
begin

lemma first_permitted: "resolve lookup h = Inr as \<Longrightarrow> permitted (hd as)"
  using resolves_some [of lookup h as] resolves_permitted [of lookup h as "hd as"] by auto

lemma first_of_bind: "rbind (resolve lookup h) (\<lambda>as. Inr (f (hd as))) = Inr t \<Longrightarrow> \<exists>a. permitted a \<and> t = f a"
  using first_permitted [of lookup h] by (auto simp: rbind_def split: sum.splits)

end

interpretation guard: address_guard "\<lambda>a. \<not> isPrivateAddress a" resolvePublicAddresses
  by unfold_locales (simp_all add: resolved_public)

section \<open>The reference in octets\<close>

text \<open>Addresses that are not public, read off the octets (RFC 1122, 1918, 6598, 3927, 5737, 2544, 6890, 5771).\<close>

definition reserved_octets :: "nat \<Rightarrow> nat \<Rightarrow> nat \<Rightarrow> bool" where
  "reserved_octets a b c \<longleftrightarrow>
     a \<in> {0, 10, 127} \<or> 224 \<le> a
     \<or> a = 100 \<and> 64 \<le> b \<and> b \<le> 127
     \<or> a = 169 \<and> b = 254
     \<or> a = 172 \<and> 16 \<le> b \<and> b \<le> 31
     \<or> a = 192 \<and> (b = 168 \<or> b = 0 \<and> c \<in> {0, 2})
     \<or> a = 198 \<and> (b \<in> {18, 19} \<or> b = 51 \<and> c = 100)
     \<or> a = 203 \<and> b = 0 \<and> c = 113"

definition dotted :: "nat \<Rightarrow> nat \<Rightarrow> nat \<Rightarrow> nat \<Rightarrow> string" where
  "dotted a b c d = join_with (CHR ''.'') (map decimal [a, b, c, d])"

lemma decimal_without: "\<not> digit x \<Longrightarrow> x \<notin> set (decimal n)"
  using decimal_digits [of n] by (auto simp: list_all_iff)

lemma decimal_not_Nil: "decimal n \<noteq> []"
  by (subst decimal.simps) simp

lemma decimal_hd: "0 < n \<Longrightarrow> hd (decimal n) \<noteq> CHR ''0''"
proof (induction n rule: decimal.induct)
  case (1 n)
  show ?case
  proof (cases "n < 10")
    case True
    then have "of_char (char_of (48 + n mod 10)) \<noteq> (of_char (CHR ''0'') :: nat)"
      using 1(2) by (simp add: of_char_of)
    then have "char_of (48 + n mod 10) \<noteq> CHR ''0''" by metis
    with True show ?thesis by (subst decimal.simps) simp
  next
    case False
    then have "hd (decimal n) = hd (decimal (n div 10))"
      by (subst decimal.simps) (simp add: decimal_not_Nil)
    with 1 False show ?thesis by simp
  qed
qed

lemma decimal_length: "n < 10 \<Longrightarrow> length (decimal n) = 1" "n < 100 \<Longrightarrow> length (decimal n) \<le> 2"
    "n < 1000 \<Longrightarrow> length (decimal n) \<le> 3"
proof -
  show one: "length (decimal n) = 1" if "n < 10" for n using that by (subst decimal.simps) simp
  show two: "length (decimal n) \<le> 2" if "n < 100" for n
    using that one [of "n div 10"] by (subst decimal.simps) simp
  show "length (decimal n) \<le> 3" if "n < 1000"
    using that two [of "n div 10"] by (subst decimal.simps) simp
qed

lemma digits_decimal: "digits_value (decimal n) = Some n"
  by (simp add: digits_value_def decimal_not_Nil decimal_digits decimal_value)

lemma octet_decimal:
  assumes "n < 256"
  shows "octet (decimal n) = Some n"
proof -
  have "hd (decimal n) \<noteq> CHR ''0''" if "1 < length (decimal n)"
    using that decimal_hd [of n] decimal_length(1) [of n] by (cases "n = 0") auto
  moreover have "length (decimal n) \<le> 3" using assms decimal_length(3) [of n] by simp
  ultimately show ?thesis using assms by (auto simp: octet_def digits_decimal)
qed

lemma not_digit [simp]: "\<not> digit (CHR ''.'')" "\<not> digit (CHR '':'')" "\<not> digit (CHR ''%'')"
  by code_simp+

lemma octets4_dotted:
  assumes "a < 256" "b < 256" "c < 256" "d < 256"
  shows "octets4 (dotted a b c d) = Some [a, b, c, d]"
proof -
  have "CHR ''.'' \<notin> set p" if "p \<in> set (map decimal [a, b, c, d])" for p
    using that decimal_without not_digit(1) by auto
  then have "split_on (CHR ''.'') (dotted a b c d) = map decimal [a, b, c, d]"
    unfolding dotted_def by (intro split_join) auto
  with assms show ?thesis by (simp add: octets4_def octet_decimal)
qed

lemma dotted_chars: "x \<in> set (dotted a b c d) \<Longrightarrow> digit x \<or> x = CHR ''.''"
  using decimal_digits by (auto simp: dotted_def list_all_iff)

lemma dotted_lower: "toLowerCase (dotted a b c d) = dotted a b c d"
proof -
  have dot: "lower_char (CHR ''.'') = CHR ''.''" by code_simp
  have "map lower_char (decimal n) = decimal n" for n
    using lower_decimal [of n] by (simp add: toLowerCase_def)
  with dot show ?thesis by (simp add: dotted_def toLowerCase_def)
qed

lemma parse_dotted:
  assumes "a < 256" "b < 256" "c < 256" "d < 256"
  shows "parse_ip (dotted a b c d) = Some (V4 (of_nat (number_of 256 [a, b, c, d])))"
  using assms by (simp add: parse_ip_def octets4_dotted)

lemmas parse_defs = groups6_def half_def hex_group_def hex_value_def number_of_def digit_def between_def
  less_eq_char_def octets4_def octet_def digits_value_def parse_ip_def

lemma mapped_half:
  assumes "a < 256" "b < 256" "c < 256" "d < 256"
  shows "groups6 (''::ffff:'' @ dotted a b c d) = Some (replicate 5 0 @ [0xFFFF, a * 256 + b, c * 256 + d])"
proof -
  have free: "CHR '':'' \<notin> set (dotted a b c d)" using dotted_chars not_digit(2) by fastforce
  have app: "split_on c (u @ [c] @ v) = u # split_on c v" if "c \<notin> set u" for c u v
    using that by (induction u) auto
  have split: "split_on (CHR '':'') (''ffff:'' @ dotted a b c d) = [''ffff'', dotted a b c d]"
    using app [of "CHR '':''" "''ffff''" "dotted a b c d"] free by (simp add: split_on_single)
  have none: "hex_group (dotted a b c d) = None"
  proof -
    have "CHR ''.'' \<in> set (dotted a b c d)" by (simp add: dotted_def)
    moreover have "hex_value (CHR ''.'') = None" by code_simp
    ultimately have "\<not> list_all (\<lambda>x. x \<noteq> None) (map hex_value (dotted a b c d))"
      by (auto simp: list_all_iff)
    then show ?thesis unfolding hex_group_def Let_def by (intro if_not_P) blast
  qed
  have ffff: "hex_group ''ffff'' = Some 0xFFFF" by (simp add: parse_defs)
  have "half True (''ffff:'' @ dotted a b c d) = hex_groups True (split_on (CHR '':'') (''ffff:'' @ dotted a b c d))"
    unfolding half_def by simp
  also have "\<dots> = Some [0xFFFF, a * 256 + b, c * 256 + d]"
    unfolding split hex_groups.simps none ffff by (simp add: octets4_dotted [OF assms])
  finally have h: "half True (''ffff:'' @ dotted a b c d) = Some [0xFFFF, a * 256 + b, c * 256 + d]" .
  have gap: "split_gap (''::ffff:'' @ dotted a b c d) = Some ([], ''ffff:'' @ dotted a b c d)" by simp
  have nil: "half False [] = Some []" by (simp add: half_def)
  show ?thesis unfolding groups6_def gap option.case prod.case nil h by simp
qed

text \<open>The block list, parsed.\<close>

definition blocked_nets :: "(ip \<times> nat) list" where
  "blocked_nets = List.map_filter (\<lambda>(t, p). map_option (\<lambda>n. (n, p)) (parse_ip t)) (blocked_ipv4 @ blocked_ipv6)"

lemma blocked_parsed: "blocked x \<longleftrightarrow> list_ex (\<lambda>(n, p). in_subnet x n p) blocked_nets"
proof -
  have "list_ex (\<lambda>(t, p). case parse_ip t of Some n \<Rightarrow> in_subnet x n p | None \<Rightarrow> False) ts
      = list_ex (\<lambda>(n, p). in_subnet x n p) (List.map_filter (\<lambda>(t, p). map_option (\<lambda>n. (n, p)) (parse_ip t)) ts)" for ts
    by (induction ts) (auto simp: List.map_filter_simps split: option.splits)
  then show ?thesis unfolding blocked_def blocked_nets_def by blast
qed

lemma zeros: "replicate 8 (0 :: nat) = [0, 0, 0, 0, 0, 0, 0, 0]" "replicate 7 (0 :: nat) = [0, 0, 0, 0, 0, 0, 0]"
    "replicate 6 (0 :: nat) = [0, 0, 0, 0, 0, 0]"
  by (simp_all add: numeral_eq_Suc)

lemma nets_of: "blocked_nets =
   [(V4 0, 8), (V4 0x0A000000, 8), (V4 0x64400000, 10), (V4 0x7F000000, 8),
    (V4 0xA9FE0000, 16), (V4 0xAC100000, 12), (V4 0xC0000000, 24),
    (V4 0xC0000200, 24), (V4 0xC0A80000, 16), (V4 0xC6120000, 15),
    (V4 0xC6336400, 24), (V4 0xCB007100, 24), (V4 0xE0000000, 4), (V4 0xF0000000, 4),
    (V6 0, 128), (V6 1, 128), (V6 0xFC000000000000000000000000000000, 7), (V6 0xFE800000000000000000000000000000, 10),
    (V6 0xFF000000000000000000000000000000, 8), (V6 0x20010DB8000000000000000000000000, 32)]"
  by (simp add: blocked_nets_def blocked_ipv4_def blocked_ipv6_def List.map_filter_simps parse_defs zeros)

lemma in_subnet_div:
  "in_subnet x n p \<longleftrightarrow> (let k = 128 - wide_prefix n p in unat (wide x) div 2 ^ k = unat (wide n) div 2 ^ k)"
  unfolding in_subnet_def Let_def word_unat_eq_iff unat_drop_bit_eq by (simp only: drop_bit_eq_div)

lemma wide_of_nat: "n < 2 ^ 32 \<Longrightarrow> unat (wide (V4 (of_nat n))) = 0xFFFF00000000 + n"
proof -
  assume n: "n < 2 ^ 32"
  then have "ucast (of_nat n :: 32 word) = (of_nat n :: 128 word)"
    by (simp add: unsigned_of_nat take_bit_nat_eq_self)
  then have "wide (V4 (of_nat n)) = of_nat (0xFFFF00000000 + n)" by simp
  with n show ?thesis by (simp add: unat_of_nat del: of_nat_add)
qed

lemma wide_numeral:
  "unat (wide (V4 0)) = 0xFFFF00000000"
  "(numeral k :: nat) < 2 ^ 32 \<Longrightarrow> unat (wide (V4 (numeral k))) = 0xFFFF00000000 + numeral k"
  using wide_of_nat [of 0] wide_of_nat [of "numeral k"] by (simp_all del: wide.simps)

lemma div_range: "0 < k \<Longrightarrow> n div k = q \<longleftrightarrow> q * k \<le> n \<and> n < (q + 1) * (k :: nat)"
  by (metis add.commute div_nat_eqI dividend_less_div_times mult.commute mult_Suc_right plus_1_eq_Suc times_div_less_eq_dividend)

definition in_range :: "nat \<Rightarrow> nat \<Rightarrow> nat \<Rightarrow> bool" where
  "in_range n lo m \<longleftrightarrow> lo \<le> n \<and> n < lo + m"

lemma blocked_ranges:
  assumes "n < 2 ^ 32"
  shows "blocked (V4 (of_nat n)) \<longleftrightarrow> list_ex (\<lambda>(lo, m). in_range n lo m)
    [(0, 0x1000000), (0x0A000000, 0x1000000), (0x64400000, 0x400000), (0x7F000000, 0x1000000),
     (0xA9FE0000, 0x10000), (0xAC100000, 0x100000), (0xC0000000, 0x100), (0xC0000200, 0x100),
     (0xC0A80000, 0x10000), (0xC6120000, 0x20000), (0xC6336400, 0x100), (0xCB007100, 0x100),
     (0xE0000000, 0x10000000), (0xF0000000, 0x10000000)]"
proof -
  have w: "unat (wide (V4 (of_nat n))) = 0xFFFF00000000 + n" using assms by (rule wide_of_nat)
  show ?thesis
    unfolding blocked_parsed nets_of
    using assms by (simp add: in_subnet_div w wide_numeral div_range in_range_def del: wide.simps(1))
qed

lemma in_range_div: "0 < k \<Longrightarrow> in_range n (q * k) (m * k) \<longleftrightarrow> q \<le> n div k \<and> n div k < q + m"
  by (simp add: in_range_def less_eq_div_iff_mult_less_eq div_less_iff_less_mult add_mult_distrib)

lemma positional2:
  assumes "y < 256" "w < (256 :: nat)"
  shows "x * 256 + y = u * 256 + w \<longleftrightarrow> x = u \<and> y = w"
proof
  assume e: "x * 256 + y = u * 256 + w"
  have "(x * 256 + y) div 256 = x" "(u * 256 + w) div 256 = u" "(x * 256 + y) mod 256 = y" "(u * 256 + w) mod 256 = w"
    using assms by simp_all
  with e show "x = u \<and> y = w" by metis
qed simp

lemma positional:
  "\<lbrakk>b < 256; c < 256; v < 256; w < 256\<rbrakk> \<Longrightarrow> (a * 256 + b) * 256 + c = (u * 256 + v) * 256 + w \<longleftrightarrow> a = u \<and> b = v \<and> c = (w :: nat)"
  by (simp only: positional2 conj_assoc)

lemma range2:
  assumes "b < 256" "q + m \<le> (256 :: nat)"
  shows "u * 256 + q \<le> a * 256 + b \<and> a * 256 + b < u * 256 + q + m \<longleftrightarrow> a = u \<and> q \<le> b \<and> b < q + m"
proof -
  consider "a < u" | "a = u" | "u < a" by linarith
  then show ?thesis using assms by cases linarith+
qed

lemma octet_range:
  assumes "n div 0x10000 = a * 256 + b" "b < 256" "q + m \<le> 256"
  shows "in_range n ((u * 256 + q) * 0x10000) (m * 0x10000) \<longleftrightarrow> a = u \<and> q \<le> b \<and> b < q + m"
  using in_range_div [of "0x10000" n "u * 256 + q" m] range2 [OF assms(2,3), where u = u and a = a] assms(1) by simp

lemma octet_exact:
  assumes "n div 0x100 = (a * 256 + b) * 256 + c" "b < 256" "c < 256" "v < 256" "w < 256"
  shows "in_range n (((u * 256 + v) * 256 + w) * 0x100) (1 * 0x100) \<longleftrightarrow> a = u \<and> b = v \<and> c = w"
  using in_range_div [of "0x100" n "(u * 256 + v) * 256 + w" 1] positional [OF assms(2-5), where a = a and u = u] assms(1) by auto

lemma first_range:
  assumes "n div 0x1000000 = a"
  shows "in_range n (q * 0x1000000) (m * 0x1000000) \<longleftrightarrow> q \<le> a \<and> a < q + m"
  using in_range_div [of "0x1000000" n q m] assms by simp

lemma blocked_octets:
  assumes "a < 256" "b < 256" "c < 256" "d < 256"
  shows "blocked (V4 (of_nat (number_of 256 [a, b, c, d]))) \<longleftrightarrow> reserved_octets a b c"
proof -
  define n where "n = number_of 256 [a, b, c, d]"
  have n: "n = a * 0x1000000 + b * 0x10000 + c * 0x100 + d" by (simp add: n_def number_of_def)
  have le: "n < 2 ^ 32" using assms n by simp
  have q24: "n div 0x1000000 = a" using assms n by simp
  have q16: "n div 0x10000 = a * 256 + b" using assms n by simp
  have q8: "n div 0x100 = (a * 256 + b) * 256 + c" using assms n by simp
  have r0: "in_range n 0 0x1000000 \<longleftrightarrow> a = 0"
    using first_range [OF q24, where q = 0 and m = 1] assms(1) by auto
  have r1: "in_range n 0x0A000000 0x1000000 \<longleftrightarrow> a = 10"
    using first_range [OF q24, where q = 10 and m = 1] assms(1) by auto
  have r2: "in_range n 0x64400000 0x400000 \<longleftrightarrow> a = 100 \<and> 64 \<le> b \<and> b \<le> 127"
    using octet_range [OF q16 assms(2), where q = 64 and m = 64 and u = 100] by auto
  have r3: "in_range n 0x7F000000 0x1000000 \<longleftrightarrow> a = 127"
    using first_range [OF q24, where q = 127 and m = 1] assms(1) by auto
  have r4: "in_range n 0xA9FE0000 0x10000 \<longleftrightarrow> a = 169 \<and> b = 254"
    using octet_range [OF q16 assms(2), where q = 254 and m = 1 and u = 169] by auto
  have r5: "in_range n 0xAC100000 0x100000 \<longleftrightarrow> a = 172 \<and> 16 \<le> b \<and> b \<le> 31"
    using octet_range [OF q16 assms(2), where q = 16 and m = 16 and u = 172] by auto
  have r6: "in_range n 0xC0000000 0x100 \<longleftrightarrow> a = 192 \<and> b = 0 \<and> c = 0"
    using octet_exact [OF q8 assms(2,3), where v = 0 and w = 0 and u = 192] by auto
  have r7: "in_range n 0xC0000200 0x100 \<longleftrightarrow> a = 192 \<and> b = 0 \<and> c = 2"
    using octet_exact [OF q8 assms(2,3), where v = 0 and w = 2 and u = 192] by auto
  have r8: "in_range n 0xC0A80000 0x10000 \<longleftrightarrow> a = 192 \<and> b = 168"
    using octet_range [OF q16 assms(2), where q = 168 and m = 1 and u = 192] by auto
  have r9: "in_range n 0xC6120000 0x20000 \<longleftrightarrow> a = 198 \<and> (b = 18 \<or> b = 19)"
    using octet_range [OF q16 assms(2), where q = 18 and m = 2 and u = 198] by auto
  have r10: "in_range n 0xC6336400 0x100 \<longleftrightarrow> a = 198 \<and> b = 51 \<and> c = 100"
    using octet_exact [OF q8 assms(2,3), where v = 51 and w = 100 and u = 198] by auto
  have r11: "in_range n 0xCB007100 0x100 \<longleftrightarrow> a = 203 \<and> b = 0 \<and> c = 113"
    using octet_exact [OF q8 assms(2,3), where v = 0 and w = 113 and u = 203] by auto
  have r12: "in_range n 0xE0000000 0x10000000 \<longleftrightarrow> 224 \<le> a \<and> a < 240"
    using first_range [OF q24, where q = 224 and m = 16] assms(1) by auto
  have r13: "in_range n 0xF0000000 0x10000000 \<longleftrightarrow> 240 \<le> a"
    using first_range [OF q24, where q = 240 and m = 16] assms(1) by auto
  have high: "224 \<le> a \<longleftrightarrow> (224 \<le> a \<and> a < 240) \<or> 240 \<le> a" by linarith
  show ?thesis
    unfolding n_def [symmetric] blocked_ranges [OF le] reserved_octets_def list_ex_Cons_iff list_ex_Nil_iff prod.case insert_iff empty_iff
      r0 r1 r2 r3 r4 r5 r6 r7 r8 r9 r10 r11 r12 r13
    using high by argo
qed

lemma mapped_value:
  assumes "a < 256" "b < 256" "c < 256" "d < 256"
  shows "blocked (V6 (of_nat (number_of 65536 (replicate 5 0 @ [0xFFFF, a * 256 + b, c * 256 + d]))))
       \<longleftrightarrow> blocked (V4 (of_nat (number_of 256 [a, b, c, d])))"
proof -
  define n where "n = number_of 256 [a, b, c, d]"
  have le: "n < 2 ^ 32" using assms by (simp add: n_def number_of_def)
  have five: "replicate 5 (0 :: nat) = [0, 0, 0, 0, 0]" by (simp add: numeral_eq_Suc)
  have v: "number_of 65536 (replicate 5 0 @ [0xFFFF, a * 256 + b, c * 256 + d]) = 0xFFFF00000000 + n"
    unfolding five by (simp add: n_def number_of_def algebra_simps)
  have "unat (wide (V6 (of_nat (0xFFFF00000000 + n)))) = 0xFFFF00000000 + n"
    using le by (simp add: unat_of_nat del: of_nat_add)
  then show ?thesis
    unfolding v n_def [symmetric] blocked_parsed in_subnet_div using wide_of_nat [OF le] by simp
qed

lemma until_percent: "CHR ''%'' \<notin> set s \<Longrightarrow> takeWhile (\<lambda>c. c \<noteq> CHR ''%'') s = s"
  by (induction s) auto

lemma dotted_no_percent: "CHR ''%'' \<notin> set (dotted a b c d)"
  using dotted_chars not_digit(3) by fastforce

lemma private_dotted:
  assumes "a < 256" "b < 256" "c < 256" "d < 256"
  shows "isPrivateAddress (dotted a b c d) \<longleftrightarrow> reserved_octets a b c"
  by (simp add: isPrivateAddress_def dotted_lower until_percent dotted_no_percent parse_dotted [OF assms] blocked_octets [OF assms])

lemma mapped_not_octets: "octets4 (''::ffff:'' @ dotted a b c d) = None"
proof -
  have "split_on (CHR ''.'') (CHR '':'' # s) = (case split_on (CHR ''.'') s of [] \<Rightarrow> [] | y # ys \<Rightarrow> (CHR '':'' # y) # ys)" for s
    by (cases "split_on (CHR ''.'') s") auto
  then obtain y ys where y: "split_on (CHR ''.'') (''::ffff:'' @ dotted a b c d) = (CHR '':'' # y) # ys"
    by (cases "split_on (CHR ''.'') (tl (''::ffff:'' @ dotted a b c d))") auto
  have "octet (CHR '':'' # y) = None"
    using not_digit(2) by (simp add: octet_def digits_value_def)
  then show ?thesis by (simp only: octets4_def y) (simp add: Let_def)
qed

lemma private_mapped:
  assumes "a < 256" "b < 256" "c < 256" "d < 256"
  shows "isPrivateAddress (''::ffff:'' @ dotted a b c d) \<longleftrightarrow> reserved_octets a b c"
proof -
  have low: "toLowerCase (''::ffff:'' @ dotted a b c d) = ''::ffff:'' @ dotted a b c d"
    using dotted_lower by (simp add: toLowerCase_def lower_char_def between_def less_eq_char_def)
  have pct: "CHR ''%'' \<notin> set (''::ffff:'' @ dotted a b c d)" using dotted_no_percent by simp
  show ?thesis
    unfolding isPrivateAddress_def low until_percent [OF pct] parse_ip_def mapped_not_octets mapped_half [OF assms]
    using mapped_value [OF assms] blocked_octets [OF assms] by simp
qed

section \<open>The block list is the octet rules\<close>

text \<open>
  C40. For every IPv4 address, in dotted decimal or mapped into IPv6, the guard refuses exactly the addresses
  the octet rules call reserved: the word masks of the block list, the parser and the mapped comparison
  together compute the reference.
\<close>

theorem guard_matches_octets:
  assumes "a < 256" "b < 256" "c < 256" "d < 256"
  shows "(isPrivateAddress (dotted a b c d) \<longleftrightarrow> reserved_octets a b c)
       \<and> (isPrivateAddress (''::ffff:'' @ dotted a b c d) \<longleftrightarrow> reserved_octets a b c)"
  using private_dotted [OF assms] private_mapped [OF assms] by simp

lemma guard_matches_octets_witness:
  "isPrivateAddress (dotted 172 31 255 1) \<and> \<not> isPrivateAddress (''::ffff:'' @ dotted 172 32 0 1)"
  using guard_matches_octets [of 172 31 255 1] guard_matches_octets [of 172 32 0 1]
  by (simp add: reserved_octets_def)

text \<open>
  The IPv6 list has no entry for the translation prefixes: an address of \<open>64:ff9b::/96\<close> or \<open>2002::/16\<close> that
  carries 127.0.0.1 passes the guard.
\<close>

lemma translated_loopback_passes:
  "\<not> isPrivateAddress ''64:ff9b::7f00:1''" "\<not> isPrivateAddress ''2002:7f00:1::''"
proof -
  have low: "toLowerCase ''64:ff9b::7f00:1'' = ''64:ff9b::7f00:1''" "toLowerCase ''2002:7f00:1::'' = ''2002:7f00:1::''"
    by (simp_all add: toLowerCase_def lower_char_def between_def less_eq_char_def)
  have four: "replicate 4 (0 :: nat) = [0, 0, 0, 0]" "replicate 5 (0 :: nat) = [0, 0, 0, 0, 0]" by (simp_all add: numeral_eq_Suc)
  have p: "parse_ip ''64:ff9b::7f00:1'' = Some (V6 0x64ff9b00000000000000007f000001)"
    "parse_ip ''2002:7f00:1::'' = Some (V6 0x20027f00000100000000000000000000)"
    by (simp_all add: parse_defs four)
  show "\<not> isPrivateAddress ''64:ff9b::7f00:1''" "\<not> isPrivateAddress ''2002:7f00:1::''"
    unfolding isPrivateAddress_def low
    by (simp_all add: p blocked_parsed nets_of in_subnet_div wide_numeral del: wide.simps(1))
qed

end
