(* ===== verification/Safe_Proxy.thy ===== *)
theory Safe_Proxy
  imports Network_Guard
begin

text \<open>
  The proxy through which the browser reaches the network (\<open>capture-worker/src/safe-proxy.ts\<close>): where it
  connects to, what it forwards, and the byte budget that closes all its sockets. Sockets are numbers.
\<close>

section \<open>Targets\<close>

text \<open>\<open>parseAuthority\<close>: \<open>parsed.port\<close> is the decimal text of a port or empty; \<open>Number\<close> of other text is no integer.\<close>

definition parseAuthority :: "web \<Rightarrow> string \<Rightarrow> nat \<Rightarrow> guard_error + string \<times> nat" where
  "parseAuthority W authority defaultPort = (case parse_url W (''http://'' @ authority) of
     None \<Rightarrow> Inl INVALID_URL
   | Some u \<Rightarrow> (case (if u_port u \<noteq> [] then digits_value (u_port u) else Some defaultPort) of
        None \<Rightarrow> Inl URL_POLICY_REJECTED
      | Some port \<Rightarrow> if port < 1 \<or> 65535 < port then Inl URL_POLICY_REJECTED else Inr (u_hostname u, port)))"

text \<open>
  The address and port of the upstream connection. Each call of the resolver may answer differently, so the
  two calls of \<open>forwardHttp\<close> and \<open>forwardUpgrade\<close> take a resolver each; a port that is no number is \<open>None\<close>.
\<close>

definition connect_target :: "web \<Rightarrow> resolver \<Rightarrow> string \<Rightarrow> guard_error + string \<times> nat" where
  "connect_target W lookup authority =
    rbind (parseAuthority W authority 443) (\<lambda>(hostname, port).
    rbind (resolvePublicAddresses lookup hostname) (\<lambda>addresses. Inr (hd addresses, port)))"

definition port_or :: "nat \<Rightarrow> url \<Rightarrow> nat option" where
  "port_or n u = (if u_port u \<noteq> [] then digits_value (u_port u) else Some n)"

record forward =
  fw_address :: string
  fw_port :: "nat option"
  fw_url :: url

definition url_target :: "web \<Rightarrow> resolver \<Rightarrow> resolver \<Rightarrow> string \<Rightarrow> guard_error + forward" where
  "url_target W lookup1 lookup2 raw =
    rbind (assertPublicHttpUrl W lookup1 raw) (\<lambda>u.
    rbind (resolvePublicAddresses lookup2 (u_hostname u)) (\<lambda>addresses.
      Inr \<lparr>fw_address = hd addresses, fw_port = port_or 80 u, fw_url = u\<rparr>))"

text \<open>A header is a name and the list of its values; \<open>\<lparr>... host, 'proxy-connection': undefined\<rparr>\<close> drops or replaces.\<close>

type_synonym headers = "(string \<times> string list) list"

definition put_header :: "string \<Rightarrow> string list \<Rightarrow> headers \<Rightarrow> headers" where
  "put_header name v hs = (if name \<in> fst ` set hs then map (\<lambda>(n, w). if n = name then (n, v) else (n, w)) hs
     else hs @ [(name, v)])"

definition http_headers :: "url \<Rightarrow> headers \<Rightarrow> headers" where
  "http_headers u hs = filter (\<lambda>h. fst h \<noteq> ''proxy-connection'') (put_header ''host'' [u_host u] hs)"

definition http_path :: "url \<Rightarrow> string" where
  "http_path u = u_pathname u @ u_search u"

definition crlf :: string where "crlf = [CHR 0x0D, CHR 0x0A]"

fun join_comma :: "string list \<Rightarrow> string" where
  "join_comma [] = []"
| "join_comma [v] = v"
| "join_comma (v # w # vs) = v @ '', '' @ join_comma (w # vs)"

definition upgrade_text :: "string \<Rightarrow> string \<Rightarrow> url \<Rightarrow> headers \<Rightarrow> string" where
  "upgrade_text verb version u hs =
     verb @ '' '' @ u_pathname u @ u_search u @ '' HTTP/'' @ version @ crlf
     @ concat (map (\<lambda>(n, vs). n @ '': '' @ join_comma vs @ crlf)
         (filter (\<lambda>(n, vs). toLowerCase n \<noteq> ''proxy-connection'') hs))
     @ crlf"

section \<open>Sockets and the budget\<close>

record proxy =
  px_sockets :: "nat list"
  px_counted :: "nat list"
  px_destroyed :: "nat list"
  px_received :: nat
  px_exhausted :: bool
  px_closed :: bool
  px_port :: nat

definition new_proxy :: proxy where
  "new_proxy = \<lparr>px_sockets = [], px_counted = [], px_destroyed = [], px_received = 0, px_exhausted = False,
     px_closed = False, px_port = 0\<rparr>"

definition track :: "nat \<Rightarrow> bool \<Rightarrow> proxy \<Rightarrow> proxy" where
  "track s countBytes x = (if s \<in> set (px_sockets x) then x
     else x\<lparr>px_sockets := px_sockets x @ [s],
            px_counted := (if countBytes then px_counted x @ [s] else px_counted x),
            px_destroyed := (if px_exhausted x \<or> px_closed x then px_destroyed x @ [s] else px_destroyed x)\<rparr>)"

text \<open>The \<open>data\<close> listener of a counted socket.\<close>

definition on_data :: "nat \<Rightarrow> nat \<Rightarrow> proxy \<Rightarrow> proxy" where
  "on_data maxBytes n x = (let x' = x\<lparr>px_received := px_received x + n\<rparr>
     in if maxBytes < px_received x' then x'\<lparr>px_exhausted := True, px_destroyed := px_destroyed x' @ px_sockets x'\<rparr>
        else x')"

text \<open>The \<open>close\<close> listener, \<open>start\<close>, \<open>url\<close>, \<open>close\<close> and \<open>assertWithinBudget\<close>.\<close>

definition on_close :: "nat \<Rightarrow> proxy \<Rightarrow> proxy" where
  "on_close s x = x\<lparr>px_sockets := removeAll s (px_sockets x)\<rparr>"

definition start_proxy :: "nat option \<Rightarrow> proxy \<Rightarrow> proxy option" where
  "start_proxy bound x = map_option (\<lambda>port. x\<lparr>px_port := port\<rparr>) bound"

definition proxy_url :: "proxy \<Rightarrow> string option" where
  "proxy_url x = (if px_port x = 0 then None else Some (''http://127.0.0.1:'' @ decimal (px_port x)))"

definition close_proxy :: "proxy \<Rightarrow> proxy" where
  "close_proxy x = x\<lparr>px_closed := True, px_destroyed := px_destroyed x @ px_sockets x\<rparr>"

definition assertWithinBudget :: "proxy \<Rightarrow> string + unit" where
  "assertWithinBudget x = (if px_exhausted x then Inl ''CAPTURE_TRANSFER_BUDGET_EXCEEDED'' else Inr ())"

text \<open>
  The events of a proxy. A socket is tracked as an upstream one (counted) or an accepted one; data arrives in
  chunks of at most \<open>chunk\<close> bytes, and only on a counted socket that is not destroyed.
\<close>

inductive proxy_step :: "nat \<Rightarrow> nat \<Rightarrow> proxy \<Rightarrow> proxy \<Rightarrow> bool" for maxBytes chunk where
  open_socket: "s \<notin> set (px_sockets x) \<Longrightarrow> s \<notin> set (px_destroyed x) \<Longrightarrow> s \<notin> set (px_counted x) \<Longrightarrow>
     proxy_step maxBytes chunk x (track s countBytes x)"
| data: "s \<in> set (px_counted x) \<Longrightarrow> s \<notin> set (px_destroyed x) \<Longrightarrow> s \<in> set (px_sockets x) \<Longrightarrow> n \<le> chunk \<Longrightarrow>
     proxy_step maxBytes chunk x (on_data maxBytes n x)"
| closed: "proxy_step maxBytes chunk x (on_close s x)"
| closing: "proxy_step maxBytes chunk x (close_proxy x)"

text \<open>Nothing open is left once the budget is exhausted or the proxy is closed, and a budget is overrun by at most one chunk.\<close>

definition proxy_ok :: "nat \<Rightarrow> nat \<Rightarrow> proxy \<Rightarrow> bool" where
  "proxy_ok maxBytes chunk x \<longleftrightarrow>
     (px_exhausted x \<longleftrightarrow> maxBytes < px_received x)
     \<and> px_received x \<le> maxBytes + chunk
     \<and> (px_exhausted x \<or> px_closed x \<longrightarrow> set (px_sockets x) \<subseteq> set (px_destroyed x))"

lemma proxy_step_ok:
  assumes "proxy_step maxBytes chunk x y" "proxy_ok maxBytes chunk x"
  shows "proxy_ok maxBytes chunk y"
  using assms
proof cases
  case (data s n)
  have "\<not> px_exhausted x" using data assms(2) by (auto simp: proxy_ok_def)
  then have "px_received x \<le> maxBytes" using assms(2) by (auto simp: proxy_ok_def)
  with data assms(2) show ?thesis by (auto simp: proxy_ok_def on_data_def Let_def)
qed (auto simp: proxy_ok_def track_def on_close_def close_proxy_def)

lemma proxy_runs_ok: "(proxy_step maxBytes chunk)\<^sup>*\<^sup>* new_proxy x \<Longrightarrow> proxy_ok maxBytes chunk x"
proof (induction rule: rtranclp_induct)
  case base
  show ?case by (simp add: proxy_ok_def new_proxy_def)
qed (rule proxy_step_ok)

lemma budget_overrun_bounded:
  "(proxy_step maxBytes chunk)\<^sup>*\<^sup>* new_proxy x \<Longrightarrow> assertWithinBudget x = Inr () \<longleftrightarrow> px_received x \<le> maxBytes"
  using proxy_runs_ok by (auto simp: proxy_ok_def assertWithinBudget_def)

text \<open>Upstream connections lead to public addresses, whatever the resolver answers between two calls.\<close>

lemma connect_target_public:
  assumes "connect_target W lookup authority = Inr (address, port)"
  shows "\<not> isPrivateAddress address" "1 \<le> port" "port \<le> 65535"
proof -
  from assms obtain h where p: "parseAuthority W authority 443 = Inr (h, port)"
    and r: "rbind (resolvePublicAddresses lookup h) (\<lambda>as. Inr (hd as, port)) = Inr (address, port)"
    by (auto simp: connect_target_def rbind_def split: sum.splits)
  from guard.first_of_bind [where f = "\<lambda>a. (a, port)", OF r] show "\<not> isPrivateAddress address" by auto
  show "1 \<le> port" "port \<le> 65535"
    using p by (auto simp: parseAuthority_def split: option.splits if_splits)
qed

lemma url_target_public:
  assumes "url_target W lookup1 lookup2 raw = Inr t"
  shows "\<not> isPrivateAddress (fw_address t)" "u_protocol (fw_url t) \<in> {''http:'', ''https:''}"
    "u_username (fw_url t) = []" "u_password (fw_url t) = []"
proof -
  from assms obtain u where u: "assertPublicHttpUrl W lookup1 raw = Inr u" "fw_url t = u"
    and r: "rbind (resolvePublicAddresses lookup2 (u_hostname u)) (\<lambda>as. Inr \<lparr>fw_address = hd as, fw_port = port_or 80 u, fw_url = u\<rparr>) = Inr t"
    by (auto simp: url_target_def rbind_def split: sum.splits)
  from guard.first_of_bind [where f = "\<lambda>a. \<lparr>fw_address = a, fw_port = port_or 80 u, fw_url = u\<rparr>", OF r]
  show "\<not> isPrivateAddress (fw_address t)" by auto
  show "u_protocol (fw_url t) \<in> {''http:'', ''https:''}" "u_username (fw_url t) = []" "u_password (fw_url t) = []"
    using u by (auto simp: assertPublicHttpUrl_def Let_def split: option.splits if_splits sum.splits)
qed

lemma forwarded_headers:
  "(''proxy-connection'', v) \<notin> set (http_headers u hs)"
  "(''host'', v) \<in> set (http_headers u hs) \<Longrightarrow> v = [u_host u]"
  by (force simp: http_headers_def put_header_def split: if_splits prod.splits)+

end
