(* ===== verification/Server_Properties.thy ===== *)
theory Server_Properties
  imports Server_Backend Safe_Proxy Site_Scenario Capture_Scenario
begin

text \<open>The properties of the HTTP interface: what a command must look like to be accepted, and what a file must be to be sent.\<close>

section \<open>Accepted commands fit the table\<close>

definition command_heads :: "json \<Rightarrow> bool" where
  "command_heads j \<longleftrightarrow> prop_of ''aggregateType'' j = Some (JStr ''SITE_CLONE'') \<and> prop_of ''contractVersion'' j = Some (JInt 1)
     \<and> (\<exists>p. prop_of ''payload'' j = Some p \<and> prop_of ''siteCloneRequestId'' p = prop_of ''aggregateId'' j)"

lemma prop_is_object: "prop_of k j = Some v \<Longrightarrow> is_object j \<and> truthy_json j"
  by (cases j) (auto simp: prop_of_def)

lemma read_requested:
  assumes "read_site_command U j = Some (Requested r)"
  obtains p where "prop_of ''payload'' j = Some p" "is_object j" "truthy_json p"
    "is_string (prop_of ''messageId'' j)" "is_string (prop_of ''aggregateId'' j)" "is_string (prop_of ''correlationId'' j)"
    "is_string (prop_of ''ownerId'' p)" "is_string (prop_of ''scanId'' p)" "is_string (prop_of ''rootUrl'' p)"
    "prop_of ''messageType'' j = Some (JStr ''SITE_CLONE_REQUESTED'')" "read_policy p = Some (rq_policy r)"
proof -
  from assms obtain p where p: "prop_of ''payload'' j = Some p"
    "is_string (prop_of ''messageId'' j)" "is_string (prop_of ''aggregateId'' j)" "is_string (prop_of ''correlationId'' j)"
    "is_string (prop_of ''ownerId'' p)" "is_string (prop_of ''scanId'' p)" "is_string (prop_of ''rootUrl'' p)"
    "prop_of ''messageType'' j = Some (JStr ''SITE_CLONE_REQUESTED'')" "read_policy p = Some (rq_policy r)"
    by (auto simp: read_site_command_def is_string_def read_uuid_def split: if_splits)
  have "truthy_json p" using p(5) prop_is_object [of "''ownerId''" p] by (cases "prop_of ''ownerId'' p") (auto simp: is_string_def string_of_def)
  with p prop_is_object [OF p(1)] that show ?thesis by blast
qed

lemma new_job_check:
  assumes "length hash = 32"
  shows "job_check (new_job e hash r) \<longleftrightarrow> policy_check (rq_policy r)
    \<and> 60 \<le> maxDurationSeconds (rq_policy r) \<and> maxDurationSeconds (rq_policy r) \<le> 604800"
  using assms by (auto simp: job_check_defs new_job_def lifecycle_check_def job_time_check_def phase_attempt_check_def terminal_def)

text \<open>
  C38. A request for a site clone whose fields can be read as column values is accepted by the parser exactly
  when the row it becomes passes every CHECK constraint of the jobs table: the parser refuses no policy the
  table admits, and an accepted command never fails on one.
\<close>

theorem accepted_commands_fit_table:
  assumes "read_site_command U j = Some (Requested r)" "command_heads j" "length hash = 32"
  shows "parseSiteCloneEnvelope j = Inr j \<longleftrightarrow> job_check (new_job e hash r)"
proof -
  obtain p where p: "prop_of ''payload'' j = Some p" "is_object j" "truthy_json p"
    "is_string (prop_of ''messageId'' j)" "is_string (prop_of ''aggregateId'' j)" "is_string (prop_of ''correlationId'' j)"
    "is_string (prop_of ''ownerId'' p)" "is_string (prop_of ''scanId'' p)" "is_string (prop_of ''rootUrl'' p)"
    "prop_of ''messageType'' j = Some (JStr ''SITE_CLONE_REQUESTED'')" "read_policy p = Some (rq_policy r)"
    using assms(1) by (rule read_requested)
  have "same_value (prop_of ''siteCloneRequestId'' p) (prop_of ''aggregateId'' j)"
    using assms(2) p(1,5)
    by (auto simp: command_heads_def is_string_def string_of_def split: option.splits json.splits)
  then have "parseSiteCloneEnvelope j = Inr j \<longleftrightarrow> requested_payload p"
    using p assms(2) by (simp add: parseSiteCloneEnvelope_def command_heads_def)
  also have "\<dots> \<longleftrightarrow> job_check (new_job e hash r)"
    using p by (simp add: requested_payload_checks new_job_check [OF assms(3)])
  finally show ?thesis .
qed

definition example_payload :: "int \<Rightarrow> json" where
  "example_payload shard = JObj [(''siteCloneRequestId'', JStr ''7''), (''ownerId'', JStr ''1''), (''scanId'', JStr ''2''),
     (''rootUrl'', JStr ''https://a.example/''), (''maxPages'', JInt 100), (''maxInputBytes'', JInt 1000000),
     (''maxArchiveBytes'', JInt 2000000), (''maxShardBytes'', JInt shard), (''pageConcurrency'', JInt 2),
     (''maxRetriesPerPage'', JInt 3), (''maxDurationSeconds'', JInt 3600), (''archiveRetentionDays'', JInt 7),
     (''metadataRetentionDays'', JInt 30), (''sameOriginOnly'', JBool True)]"

definition example_command :: "int \<Rightarrow> json" where
  "example_command shard = JObj [(''messageId'', JStr ''5''), (''aggregateType'', JStr ''SITE_CLONE''), (''aggregateId'', JStr ''7''),
     (''aggregateVersion'', JInt 1), (''messageType'', JStr ''SITE_CLONE_REQUESTED''), (''contractVersion'', JInt 1),
     (''correlationId'', JStr ''6''), (''occurredAt'', JStr ''now''), (''payload'', example_payload shard)]"

definition example_policy :: "nat \<Rightarrow> job_policy" where
  "example_policy shard = \<lparr> maxPages = 100, maxInputBytes = 1000000, maxArchiveBytes = 2000000, maxShardBytes = shard, pageConcurrency = 2,
     maxRetriesPerPage = 3, maxDurationSeconds = 3600, archiveRetentionDays = 7, metadataRetentionDays = 30, sameOriginOnly = True \<rparr>"

definition example_requested :: "nat \<Rightarrow> site_requested" where
  "example_requested shard = \<lparr> rq_message_id = 5, rq_aggregate_version = 1, rq_corr = 6, rq_occurred_at = ''now'', rq_site_clone_id = 7,
     rq_owner = 1, rq_scan = 2, rq_root_url = ''https://a.example/'', rq_policy = example_policy shard \<rparr>"

lemma example_read:
  "0 \<le> shard \<Longrightarrow> read_site_command digits_value (example_command shard) = Some (Requested (example_requested (nat shard)))"
  by (simp add: read_site_command_def example_command_def example_payload_def read_uuid_def prop_of_def string_of_def read_nat_def
    read_policy_def read_bool_def bind_opt_def digits_value_def digit_def between_def less_eq_char_def example_requested_def example_policy_def)

lemma example_heads: "command_heads (example_command shard)"
  by (simp add: command_heads_def example_command_def example_payload_def prop_of_def)

lemma accepted_commands_fit_table_witness:
  "parseSiteCloneEnvelope (example_command 2000000) = Inr (example_command 2000000)
   \<and> parseSiteCloneEnvelope (example_command 1000000) \<noteq> Inr (example_command 1000000)"
proof -
  have h: "length (replicate 32 (CHR ''x'')) = 32" by simp
  have q: "policy_check (example_policy 2000000)" "\<not> policy_check (example_policy 1000000)"
    by (simp_all add: policy_check_def example_policy_def)
  then show ?thesis
    using accepted_commands_fit_table [OF example_read example_heads h, of 2000000]
      accepted_commands_fit_table [OF example_read example_heads h, of 1000000]
    by (simp add: new_job_check [OF h] example_requested_def) (simp add: example_policy_def)
qed

section \<open>Served files are published, unexpired and intact\<close>

lemma get_is_no_command:
  "hq_verb (hd_request H) = ''GET'' \<Longrightarrow> captures_route B H st = None" "hq_verb (hd_request H) = ''GET'' \<Longrightarrow> site_clones_route B H st = None"
  by (simp_all add: captures_route_def site_clones_route_def)

lemma routed_site_artifact:
  assumes "hq_verb (hd_request H) = ''GET''" "match_path (site_path [Lit ''artifacts'', Id]) (hd_url H) = Some [job, art]"
  shows "first_route (routes B H st) d = the (site_artifact_route B H st)" "site_artifact_route B H st \<noteq> None"
proof -
  obtain job' art' where "split_on (CHR ''/'') (u_pathname (hd_url H)) = [[], ''internal'', ''v1'', ''reports'', ''site-clones'', job', ''artifacts'', art']"
    using assms(2) by (rule site_artifact_segments)
  then have "session_path (hd_url H) = None" by (rule not_a_session_path)
  then have none: "sessions_route H st = None" by (simp add: sessions_route_def)
  show some: "site_artifact_route B H st \<noteq> None"
    using assms by (simp add: site_artifact_route_def is_get_def)
  then obtain x where "site_artifact_route B H st = Some x" by blast
  with none show "first_route (routes B H st) d = the (site_artifact_route B H st)"
    by (simp add: routes_def get_is_no_command [OF assms(1)])
qed

lemma refused_is_json: "final_answer H (refuse H' status code) = Some p \<Longrightarrow> hr_content p \<noteq> Bytes body"
  "final_answer H (thrown code) = Some p \<Longrightarrow> hr_content p \<noteq> Bytes body"
  by (auto simp: refuse_def thrown_def problem_def json_reply_def split: prod.splits)

lemma served_from_route:
  assumes "handle_url B H st = ((Some p, held), st')" "hq_verb (hd_request H) = ''GET''" "hr_content p = Bytes body"
    "match_path (site_path [Lit ''artifacts'', Id]) (hd_url H) = Some [job, art]"
  shows "authenticated (se_digests (hd_se H)) (cf_token (hd_config H)) (hd_request H)"
    "\<exists>st1 a st2. hs_store st1 = hs_store st \<and> site_artifact_route B H st1 = Some (a, st2) \<and> final_answer H a = Some p"
proof -
  have live: "u_pathname (hd_url H) \<noteq> ''/health/live'' \<and> u_pathname (hd_url H) \<noteq> ''/health/ready''"
  proof -
    obtain j a where s: "split_on (CHR ''/'') (u_pathname (hd_url H)) = [[], ''internal'', ''v1'', ''reports'', ''site-clones'', j, ''artifacts'', a]"
      using assms(4) by (rule site_artifact_segments)
    show ?thesis
      by (rule ccontr) (use s in auto)
  qed
  show auth: "authenticated (se_digests (hd_se H)) (cf_token (hd_config H)) (hd_request H)"
    using assms(1,3) live refused_is_json(1)
    by (auto simp: handle_url_def split: if_splits)
  have room: "\<not> (is_get H \<and> download_path (hd_url H) \<and> max_downloads \<le> hs_downloads st)"
    using assms(1,3) live auth refused_is_json(1) by (auto simp: handle_url_def split: if_splits)
  define st1 where "st1 = (if is_get H \<and> download_path (hd_url H) then st\<lparr>hs_downloads := hs_downloads st + 1\<rparr> else st)"
  obtain a st2 where r: "site_artifact_route B H st1 = Some (a, st2)"
    using routed_site_artifact(2) [OF assms(2,4)] by (metis not_None_eq surj_pair)
  then have "first_route (routes B H st1) (refuse H 404 ''NOT_FOUND'', st1) = (a, st2)"
    by (simp only: routed_site_artifact(1) [OF assms(2,4)] option.sel)
  then have "final_answer H a = Some p"
    using assms(1) live auth room by (auto simp: handle_url_def st1_def [symmetric] Let_def)
  moreover have "hs_store st1 = hs_store st" by (simp add: st1_def)
  ultimately show "\<exists>st1 a st2. hs_store st1 = hs_store st \<and> site_artifact_route B H st1 = Some (a, st2) \<and> final_answer H a = Some p"
    using r by blast
qed

text \<open>
  C39. Whatever state the stores are in, when the server answers a request for an artifact of a site with a
  file, the request carried the service token and the file is an artifact of the requested job and of the named
  owner that is published and not expired, and the bytes sent have the size and the digest of its row.
\<close>

theorem served_files_are_published:
  assumes "handle C S T V (weblens_backend L) q st = ((Some p, held), st')"
    "resolve_url (se_web S) (coalesce (hq_url q) ''/'') (''http://'' @ coalesce (hq_host q) ''localhost'') = Some u"
    "hq_verb q = ''GET''" "match_path (site_path [Lit ''artifacts'', Id]) u = Some [job, art]" "hr_content p = Bytes body"
  shows "authenticated (se_digests S) (cf_token C) q
    \<and> (\<exists>a. a \<in> set (artifacts (wd_sites (hs_store st))) \<and> wl_uuid L art = Some (a_id a) \<and> wl_uuid L job = Some (a_job a)
         \<and> wl_uuid L (param ''ownerId'' (query_of (se_web S) (u_search u))) = Some (a_owner a)
         \<and> a_state a = A_PUBLISHED \<and> se_clock S < to_millis (a_delete_after a) \<and> length body = a_bytes a
         \<and> hex (wl_digests L) (sha256 (wl_digests L) body) = hex (wl_digests L) (a_sha a))"
proof -
  define H where "H = \<lparr> hd_config = C, hd_se = S, hd_numbers = T, hd_viewport = V, hd_request = q, hd_headers = setHeaders S q,
         hd_url = u, hd_query = query_of (se_web S) (u_search u) \<rparr>"
  have h: "handle_url (weblens_backend L) H st = ((Some p, held), st')"
    using assms(1,2) by (simp add: handle_def H_def Let_def)
  have g: "hq_verb (hd_request H) = ''GET''" "match_path (site_path [Lit ''artifacts'', Id]) (hd_url H) = Some [job, art]"
    using assms(3,4) by (simp_all add: H_def)
  note served = served_from_route [OF h g(1) assms(5) g(2)]
  obtain st1 a st2 where r: "hs_store st1 = hs_store st" "site_artifact_route (weblens_backend L) H st1 = Some (a, st2)" "final_answer H a = Some p"
    using served(2) by blast
  have now: "a = Now (Inr p)"
  proof (cases a)
    case (Now x)
    with r(3) assms(5) refused_is_json(2) [of H] show ?thesis by (cases x) (auto simp: thrown_def)
  next
    case (AfterStart site)
    with r(3) show ?thesis by simp
  qed
  let ?found = "be_site_artifact (weblens_backend L) (owner_of H) job art (hs_store st)"
  have "cf_sites C"
    using r(2) g now assms(5) refused_is_json(1) [of H H]
    by (auto simp: site_artifact_route_def is_get_def H_def refuse_def problem_def json_reply_def split: if_splits)
  then have "file_route (weblens_backend L) H st1 ''SITE_CLONE_ARTIFACT_NOT_FOUND'' (\<lambda>r. rf_state r = A_PUBLISHED) rf_content_type
      (\<lambda>r. ''attachment; filename='' @ quoted (safeFilename (siteArtifactFilename (se_iso (hd_se H)) r))) ?found = (Now (Inr p), st2)"
    using r(1,2) g now by (simp add: site_artifact_route_def is_get_def H_def)
  from file_route_intact [OF this assms(5)] obtain f where f: "?found = Inr (Some f)" "rf_state f = A_PUBLISHED"
      "se_clock (hd_se H) < rf_expires f" "length body = rf_bytes f" "hex (wl_digests L) (sha256 (wl_digests L) body) = rf_sha_hex f"
    by blast
  from f(1) obtain row where row: "list_all (\<lambda>t. wl_uuid L t \<noteq> None) [owner_of H, job, art]"
      "getArtifact (the (wl_uuid L (owner_of H))) (the (wl_uuid L job)) (the (wl_uuid L art)) (wd_sites (hs_store st)) = Some row"
      "f = site_reference_of L row"
    by (auto simp: weblens_backend_def with_uuids_def split: if_splits)
  have "row \<in> set (artifacts (wd_sites (hs_store st)))" "a_id row = the (wl_uuid L art)" "a_job row = the (wl_uuid L job)"
      "a_owner row = the (wl_uuid L (owner_of H))"
    using row(2) by (auto simp: getArtifact_def find_Some_iff)
  with row f served(1) show ?thesis
    by (auto simp: site_reference_of_def H_def owner_of_def)
qed

text \<open>A store with one published archive of five bytes, and a request for it.\<close>

definition demo_artifact :: "nat \<Rightarrow> artifact_row" where
  "demo_artifact bytes = \<lparr> a_id = 8, a_owner = 1, a_job = 7, a_kind = ARCHIVE_SHARD, a_generation = 1, a_shard = 1,
     a_filename = ''s.zip'', a_bucket = ''b'', a_key = ''k'', a_content_type = ''application/zip'', a_bytes = bytes,
     a_sha = ''hello'', a_state = A_PUBLISHED, a_created = 0, a_published = Some 0, a_delete_after = 5000, a_deleted = None \<rparr>"

definition demo_world :: "nat \<Rightarrow> world server" where
  "demo_world bytes = \<lparr> hs_store = \<lparr> wd_sites = \<lparr> jobs = [], pages = [], artifacts = [demo_artifact bytes], inbox = [], outbox = [] \<rparr>,
       wd_captures = empty_cap_db \<rparr>, hs_sessions = new_manager, hs_downloads = 0 \<rparr>"

definition demo_digests :: digests where
  "demo_digests = \<lparr> sha256 = (\<lambda>s. s), hex = (\<lambda>d. d) \<rparr>"

definition demo_url :: url where
  "demo_url = \<lparr> u_protocol = ''http:'', u_username = [], u_password = [], u_host = ''h'', u_hostname = ''h'', u_port = [],
     u_pathname = ''/internal/v1/reports/site-clones/7/artifacts/8'', u_search = ''?ownerId=1'', u_hash = [] \<rparr>"

definition demo_web :: web where
  "demo_web = \<lparr> parse_url = (\<lambda>_. Some demo_url), resolve_url = (\<lambda>_ _. Some demo_url), href = u_pathname, origin = u_host,
     query_of = (\<lambda>_. [(''ownerId'', ''1'')]), query_text = (\<lambda>_. []) \<rparr>"

definition demo_js :: js_text where
  "demo_js = \<lparr> text_number = (\<lambda>_. NaN), array_text = (\<lambda>_. []) \<rparr>"

definition demo_surroundings :: surroundings where
  "demo_surroundings = \<lparr> se_clock = 0, se_random = ''r'', se_web = demo_web, se_codec = \<lparr> json_text = (\<lambda>_. []), json_parse = (\<lambda>_. None) \<rparr>,
     se_js = demo_js, se_digests = demo_digests, se_picture = (\<lambda>_. Inl []), se_iso = (\<lambda>_. []), se_view = (\<lambda>_. JNull) \<rparr>"

definition demo_links :: links where
  "demo_links = \<lparr> wl_uuid = digits_value, wl_uuid_text = decimal, wl_digests = demo_digests, wl_bucket = ''b'',
     wl_objects = (\<lambda>_ _. Answer \<lparr> oc_length = Some 5, oc_body = Some [''hel'', ''lo''] \<rparr>), wl_site_env = env_at 0, wl_site_sha = sha0,
     wl_cap_env = cap_env_at 0, wl_platform = platform0, wl_read_capture = (\<lambda>_. None), wl_redact = Some, wl_alive = (\<lambda>_. True),
     wl_show_report = (\<lambda>_. JNull), wl_show_progress = (\<lambda>_. JNull), wl_show_recon = (\<lambda>_. JNull), wl_show_snapshot = (\<lambda>_. JNull),
     wl_resources = (\<lambda>_ _ _. Inr (JArr [])) \<rparr>"

definition demo_http :: request where
  "demo_http = \<lparr> hq_verb = ''GET'', hq_url = Some ''/x'', hq_host = None, hq_token = Some ''t'', hq_correlation = None, hq_chunks = [] \<rparr>"

definition demo_config :: config where
  "demo_config = \<lparr> cf_token = ''t'', cf_sites = True, cf_browsers = False \<rparr>"

definition demo_numbers :: number_text where
  "demo_numbers = \<lparr> nt_js = demo_js, nt_fraction = (\<lambda>_. []) \<rparr>"

definition demo_answer :: "nat \<Rightarrow> (response option \<times> bool) \<times> world server" where
  "demo_answer bytes = handle demo_config demo_surroundings demo_numbers (\<lambda>_ _. []) (weblens_backend demo_links) demo_http (demo_world bytes)"

lemmas demo_records = demo_artifact_def demo_world_def demo_digests_def demo_web_def demo_js_def demo_surroundings_def
  demo_links_def demo_http_def demo_config_def demo_numbers_def demo_url_def

lemma demo_path: "split_on (CHR ''/'') (u_pathname demo_url)
    = [[], ''internal'', ''v1'', ''reports'', ''site-clones'', ''7'', ''artifacts'', ''8'']"
  by (simp add: demo_url_def)

lemma demo_match: "match_path (site_path [Lit ''artifacts'', Id]) demo_url = Some [''7'', ''8'']"
  by (simp add: match_path_def site_path_def demo_path id_segment_def digit_def between_def less_eq_char_def)

lemma demo_uuids: "digits_value ''1'' = Some 1" "digits_value ''7'' = Some 7" "digits_value ''8'' = Some 8"
  by (simp_all add: digits_value_def digit_def between_def less_eq_char_def)

definition demo_handling :: handling where
  "demo_handling = \<lparr> hd_config = demo_config, hd_se = demo_surroundings, hd_numbers = demo_numbers, hd_viewport = (\<lambda>_ _. []),
     hd_request = demo_http, hd_headers = setHeaders demo_surroundings demo_http, hd_url = demo_url, hd_query = [(''ownerId'', ''1'')] \<rparr>"

lemma demo_found:
  "be_site_artifact (weblens_backend demo_links) (owner_of demo_handling) ''7'' ''8'' (hs_store (demo_world bytes))
    = Inr (Some (site_reference_of demo_links (demo_artifact bytes)))"
  by (simp add: weblens_backend_def with_uuids_def owner_of_def demo_handling_def param_def demo_uuids demo_world_def
    getArtifact_def demo_artifact_def demo_links_def)

lemma demo_download:
  "downloadFile demo_digests ''b'' (Answer \<lparr> oc_length = Some 5, oc_body = Some [''hel'', ''lo''] \<rparr>) ''b'' 5
    = Inr \<lparr> dl_content = ''hello'', dl_bytes = 5, dl_sha_hex = ''hello'' \<rparr>"
  by (simp add: downloadFile_def read_object_def rbind_def demo_digests_def download_limit_def gt_opt_def)

lemma demo_route:
  "site_artifact_route (weblens_backend demo_links) demo_handling st = Some (file_route (weblens_backend demo_links) demo_handling st
      ''SITE_CLONE_ARTIFACT_NOT_FOUND'' (\<lambda>r. rf_state r = A_PUBLISHED) rf_content_type
      (\<lambda>r. ''attachment; filename='' @ quoted (safeFilename (siteArtifactFilename (se_iso (hd_se demo_handling)) r)))
      (be_site_artifact (weblens_backend demo_links) (owner_of demo_handling) ''7'' ''8'' (hs_store st)))"
  using demo_match by (simp add: site_artifact_route_def is_get_def demo_handling_def demo_http_def demo_config_def)

lemma demo_handled:
  "demo_answer bytes =
    (let st1 = (demo_world bytes)\<lparr>hs_downloads := 1\<rparr>; (a, st2) = the (site_artifact_route (weblens_backend demo_links) demo_handling st1)
     in ((final_answer demo_handling a, True), st2))"
proof -
  have g: "hq_verb (hd_request demo_handling) = ''GET''" "match_path (site_path [Lit ''artifacts'', Id]) (hd_url demo_handling) = Some [''7'', ''8'']"
    using demo_match by (simp_all add: demo_handling_def demo_http_def)
  have auth: "authenticated (se_digests (hd_se demo_handling)) (cf_token (hd_config demo_handling)) (hd_request demo_handling)"
    by (simp add: authenticated_def demo_handling_def demo_records)
  have path: "u_pathname (hd_url demo_handling) \<noteq> ''/health/live''" "u_pathname (hd_url demo_handling) \<noteq> ''/health/ready''"
    by (simp_all add: demo_handling_def demo_url_def)
  have down: "download_path (hd_url demo_handling)" "is_get demo_handling"
    by (simp_all add: download_path_def demo_handling_def demo_url_def starts_with_def is_get_def demo_http_def)
  have room: "hs_downloads (demo_world bytes) = 0" by (simp add: demo_world_def)
  have "demo_answer bytes = handle_url (weblens_backend demo_links) demo_handling (demo_world bytes)"
    by (simp add: demo_answer_def handle_def demo_handling_def demo_surroundings_def demo_web_def Let_def)
  then show ?thesis
    by (simp add: handle_url_def path auth down room max_downloads_def Let_def routed_site_artifact(1) [OF g])
qed

lemma demo_served: "\<exists>p st'. demo_answer 5 = ((Some p, True), st') \<and> hr_content p = Bytes ''hello''"
proof -
  define r where "r = site_reference_of demo_links (demo_artifact 5)"
  have found: "be_site_artifact (weblens_backend demo_links) (owner_of demo_handling) ''7'' ''8'' (hs_store (demo_world 5)) = Inr (Some r)"
    by (simp only: demo_found r_def)
  have "artifact (weblens_backend demo_links) w hs r t d
      = Inr \<lparr> hr_status = 200, hr_headers = file_headers hs t 5 d ''hello'', hr_content = Bytes ''hello'' \<rparr>" for w hs t d
    using demo_download
    by (simp add: artifact_def weblens_backend_def download_def demo_links_def site_reference_of_def demo_artifact_def
      lift_message_def rbind_def demo_digests_def r_def)
  moreover have "rf_state r = A_PUBLISHED" "ensureNotExpired (se_clock (hd_se demo_handling)) r = Inr ()"
    by (simp_all add: r_def site_reference_of_def demo_artifact_def ensureNotExpired_def to_millis_def demo_handling_def demo_surroundings_def)
  ultimately show ?thesis
    unfolding demo_handled demo_route Let_def option.sel
    by (simp add: file_route_def found rbind_def)
qed

lemma served_files_are_published_witness:
  "digits_value ''8'' = Some 8 \<and> (\<exists>a. a \<in> set (artifacts (wd_sites (hs_store (demo_world 5)))) \<and> a_id a = 8 \<and> a_state a = A_PUBLISHED \<and> a_bytes a = 5)"
proof -
  obtain p st' where p: "demo_answer 5 = ((Some p, True), st')" "hr_content p = Bytes ''hello''" using demo_served by blast
  have u: "resolve_url (se_web demo_surroundings) (coalesce (hq_url demo_http) ''/'') (''http://'' @ coalesce (hq_host demo_http) ''localhost'') = Some demo_url"
    by (simp add: demo_surroundings_def demo_web_def)
  have g: "hq_verb demo_http = ''GET''" by (simp add: demo_http_def)
  show ?thesis
    using served_files_are_published [OF p(1) [unfolded demo_answer_def] u g demo_match p(2)]
    by (auto simp: demo_links_def demo_uuids)
qed

text \<open>
  The object store hands out at most 256 MiB at once, but a command may ask for shards of 2 GiB: such a shard
  is published, and every download of it is answered as an integrity failure.
\<close>

lemma large_shard_unavailable:
  assumes "download_limit < bytes"
  shows "\<exists>p st'. demo_answer bytes = ((Some p, True), st') \<and> hr_status p = 503"
    "policy_check (example_policy 2147483648)" "download_limit < maxShardBytes (example_policy 2147483648)"
proof -
  define r where "r = site_reference_of demo_links (demo_artifact bytes)"
  have found: "be_site_artifact (weblens_backend demo_links) (owner_of demo_handling) ''7'' ''8'' (hs_store (demo_world bytes)) = Inr (Some r)"
    by (simp only: demo_found r_def)
  have "artifact (weblens_backend demo_links) w hs r t d = Inl ''ARTIFACT_SIZE_MISMATCH''" for w hs t d
    using assms by (simp add: artifact_def weblens_backend_def download_def demo_links_def site_reference_of_def demo_artifact_def
      lift_message_def rbind_def r_def large_download_refused)
  moreover have "rf_state r = A_PUBLISHED" "ensureNotExpired (se_clock (hd_se demo_handling)) r = Inr ()"
    by (simp_all add: r_def site_reference_of_def demo_artifact_def ensureNotExpired_def to_millis_def demo_handling_def demo_surroundings_def)
  ultimately show "\<exists>p st'. demo_answer bytes = ((Some p, True), st') \<and> hr_status p = 503"
    unfolding demo_handled demo_route Let_def option.sel
    by (simp add: file_route_def found rbind_def recovered_def starts_with_def problem_def json_reply_def)
  show "policy_check (example_policy 2147483648)" "download_limit < maxShardBytes (example_policy 2147483648)"
    by (simp_all add: policy_check_def example_policy_def download_limit_def)
qed

section \<open>Unchecked budgets of captures\<close>

text \<open>\<open>undefined < 1\<close> and \<open>undefined > limit\<close> are both false: an envelope without any budget is accepted.\<close>

definition budgetless_payload :: json where
  "budgetless_payload = JObj [(''captureRequestId'', JStr ''7''), (''targetUrl'', JStr ''https://a.example/''),
     (''measurementProfile'', JStr ''desktop-lab-v1''), (''viewportWidth'', JInt 1365), (''viewportHeight'', JInt 768), (''timeoutSeconds'', JInt 30)]"

definition budgetless_command :: json where
  "budgetless_command = JObj [(''messageId'', JStr ''5''), (''aggregateType'', JStr ''CAPTURE''), (''aggregateId'', JStr ''7''),
     (''messageType'', JStr ''CAPTURE_REQUESTED''), (''contractVersion'', JInt 1), (''correlationId'', JStr ''6''), (''payload'', budgetless_payload)]"

lemma capture_budgets_unchecked: "parseEnvelope N budgetless_command = Inr budgetless_command"
  by (simp add: parseEnvelope_def budgetless_command_def budgetless_payload_def prop_of_def is_string_def string_of_def outside_def js_number_def)

section \<open>Download slots\<close>

lemma route_frames:
  "command_route f parse accept H st = (a, st') \<Longrightarrow> hs_downloads st' = hs_downloads st"
  "file_route B H st m pub ct dp found = (a, st') \<Longrightarrow> st' = st"
  "json_route H st m g found' = (a, st') \<Longrightarrow> st' = st"
  by (auto simp: command_route_def file_route_def json_route_def split: sum.splits option.splits prod.splits)

lemma routes_keep_slots:
  assumes "Some (a, st') \<in> set (routes B H st)"
  shows "hs_downloads st' = hs_downloads st"
proof -
  consider "captures_route B H st = Some (a, st')" | "site_clones_route B H st = Some (a, st')" | "sessions_route H st = Some (a, st')"
    | "site_artifact_route B H st = Some (a, st')" | "progress_route B H st = Some (a, st')" | "site_report_route B H st = Some (a, st')"
    | "screenshot_route B H st = Some (a, st')" | "resource_route B H st = Some (a, st')" | "reconstruction_route B H st = Some (a, st')"
    | "archive_route B H st = Some (a, st')" | "snapshot_route B H st = Some (a, st')"
    using assms by (auto simp: routes_def)
  then show ?thesis
  proof cases
    case 1
    then show ?thesis by (auto simp: captures_route_def split: if_splits dest: route_frames)
  next
    case 2
    then show ?thesis by (auto simp: site_clones_route_def split: if_splits dest: route_frames)
  next
    case 3
    then show ?thesis
      by (auto simp: sessions_route_def Let_def with_owned_body_def on_sessions_def split: option.splits if_splits sum.splits prod.splits)
  next
    case 4
    then show ?thesis by (auto simp: site_artifact_route_def split: list.splits option.splits if_splits dest: route_frames)
  next
    case 5
    then show ?thesis by (auto simp: progress_route_def split: list.splits option.splits if_splits dest: route_frames)
  next
    case 6
    then show ?thesis by (auto simp: site_report_route_def split: list.splits option.splits if_splits dest: route_frames)
  next
    case 7
    then show ?thesis by (auto simp: screenshot_route_def split: list.splits option.splits if_splits dest: route_frames)
  next
    case 8
    then show ?thesis by (auto simp: resource_route_def split: list.splits option.splits if_splits dest: route_frames)
  next
    case 9
    then show ?thesis by (auto simp: reconstruction_route_def split: list.splits option.splits if_splits dest: route_frames)
  next
    case 10
    then show ?thesis by (auto simp: archive_route_def split: list.splits option.splits if_splits dest: route_frames)
  next
    case 11
    then show ?thesis by (auto simp: snapshot_route_def split: list.splits option.splits if_splits sum.splits)
  qed
qed

lemma first_route_cases: "first_route rs d = d \<or> Some (first_route rs d) \<in> set rs"
  by (induction rs d rule: first_route.induct) auto

text \<open>A response takes a slot only when one is free, and no other request changes their number.\<close>

theorem slots_counted:
  assumes "handle C S T V B q st = ((r, held), st')"
  shows "hs_downloads st' = hs_downloads st + (if held then 1 else 0)" "held \<Longrightarrow> hs_downloads st < max_downloads"
proof -
  have "hs_downloads st' = hs_downloads st + (if held then 1 else 0) \<and> (held \<longrightarrow> hs_downloads st < max_downloads)"
    if h: "handle_url B H st = ((r, held), st')" for H
  proof -
    have keep: "hs_downloads (snd (first_route (routes B H s) (a, s))) = hs_downloads s" for s a
      using first_route_cases [of "routes B H s" "(a, s)"] routes_keep_slots [of "fst (first_route (routes B H s) (a, s))"]
      by (metis prod.collapse snd_conv)
    show ?thesis
      using h keep [of st] keep [of "st\<lparr>hs_downloads := hs_downloads st + 1\<rparr>"]
      by (auto simp: handle_url_def Let_def not_le split: if_splits prod.splits) (metis snd_conv)+
  qed
  with assms show "hs_downloads st' = hs_downloads st + (if held then 1 else 0)" "held \<Longrightarrow> hs_downloads st < max_downloads"
    by (auto simp: handle_def Let_def split: option.splits)
qed

end
