(* ===== verification/Worker_Loops.thy ===== *)
theory Worker_Loops
  imports Site_Bundles
begin

text \<open>
  What the loops of the worker have in common (\<open>capture-worker/src/index.ts\<close>, \<open>site-worker.ts\<close>): a statement
  is sent over a connection that may be lost before or after its commit; a round claims one piece of work,
  does it and settles the claim, or schedules a retry. The locale \<open>workers\<close> says when such a handler only does
  what the transition system of its store allows.
\<close>

section \<open>Calls to the store\<close>

datatype connection = SOUND | LOST_BEFORE | LOST_AFTER

record 'e db_call =
  dbl_env :: 'e
  dbl_connection :: connection

definition lost_message :: string where "lost_message = ''Connection terminated unexpectedly''"

text \<open>
  The outcome of a transaction as the caller sees it, and the store it leaves: an error rolls back, and an
  exception does not tell whether the commit took place.
\<close>

definition called :: "('x \<Rightarrow> string) \<Rightarrow> ('e \<Rightarrow> 'd \<Rightarrow> 'x + 'a \<times> 'd) \<Rightarrow> 'e db_call \<Rightarrow> 'd \<Rightarrow> (string + 'a) \<times> 'd" where
  "called text txn x d =
     (if dbl_connection x = LOST_BEFORE then (Inl lost_message, d)
      else case txn (dbl_env x) d of
             Inl e \<Rightarrow> (Inl (text e), d)
           | Inr (r, d1) \<Rightarrow> (if dbl_connection x = LOST_AFTER then Inl lost_message else Inr r, d1))"

definition and_then :: "(string + 'a) \<times> 'd \<Rightarrow> ('a \<Rightarrow> 'd \<Rightarrow> (string + 'b) \<times> 'd) \<Rightarrow> (string + 'b) \<times> 'd" where
  "and_then r f = (case r of (Inl m, d) \<Rightarrow> (Inl m, d) | (Inr x, d) \<Rightarrow> f x d)"

lemma called_cases:
  "called text txn x d = (r, d1) \<Longrightarrow> (\<exists>y. txn (dbl_env x) d = Inr (y, d1) \<and> (r = Inr y \<or> r = Inl lost_message)) \<or> (d1 = d \<and> (\<exists>m. r = Inl m))"
  by (auto simp: called_def split: if_splits sum.splits)

lemma called_Inr: "called text txn x d = (Inr y, d1) \<longleftrightarrow> dbl_connection x = SOUND \<and> txn (dbl_env x) d = Inr (y, d1)"
  by (cases "dbl_connection x") (auto simp: called_def split: sum.splits)

section \<open>Error codes\<close>

text \<open>\<open>boundedErrorCode\<close> of \<open>site-worker.ts\<close>: only a symbolic code is reported.\<close>

definition worker_code :: "string \<Rightarrow> string" where
  "worker_code raw = (if symbolic_code raw then raw else ''SITE_CLONE_OPERATION_FAILED'')"

lemma worker_code_symbolic: "symbolic_code (worker_code raw)"
  by (simp add: worker_code_def symbolic_code_def code_char_def upper_alpha_def between_def less_eq_char_def)

text \<open>A message that is no code never reaches the store.\<close>

lemma worker_code_hides: "c \<in> set (worker_code raw) \<Longrightarrow> code_char c"
  using worker_code_symbolic [of raw] by (cases "worker_code raw") (auto simp: symbolic_code_def list_all_iff code_char_def)

section \<open>Rounds\<close>

text \<open>
  One turn of a loop: no claim, or an error of the claim, only waits; an error of the work or of its settlement
  schedules a retry, whose own errors are dropped.
\<close>

definition work_round ::
  "('d \<Rightarrow> (string + 'c option) \<times> 'd) \<Rightarrow> ('c \<Rightarrow> string + unit) \<Rightarrow> ('c \<Rightarrow> 'd \<Rightarrow> (string + 'a) \<times> 'd) \<Rightarrow> ('c \<Rightarrow> 'd \<Rightarrow> (string + 'b) \<times> 'd) \<Rightarrow> 'd \<Rightarrow> 'd"
where
  "work_round claim work complete retry d =
     (case claim d of
        (Inr (Some c), d1) \<Rightarrow>
          (case work c of
             Inl m \<Rightarrow> snd (retry c d1)
           | Inr _ \<Rightarrow> (case complete c d1 of (Inl m, d2) \<Rightarrow> snd (retry c d2) | (Inr _, d2) \<Rightarrow> d2))
      | (_, d1) \<Rightarrow> d1)"

text \<open>A property of the store that only settling can change is kept by a round whose work failed.\<close>

lemma round_settles:
  assumes "\<And>d r d1. claim d = (r, d1) \<Longrightarrow> P d \<Longrightarrow> P d1" "\<And>c d. P d \<Longrightarrow> P (snd (retry c d))"
    "\<And>c d. P d \<Longrightarrow> work c = Inr () \<Longrightarrow> P (snd (complete c d))" "P d"
  shows "P (work_round claim work complete retry d)"
proof -
  obtain r d1 where c: "claim d = (r, d1)" by fastforce
  then have d1: "P d1" using assms by blast
  show ?thesis
  proof (cases "\<exists>x. r = Inr (Some x)")
    case True
    then obtain x where r: "r = Inr (Some x)" by blast
    show ?thesis
    proof (cases "work x")
      case (Inl m)
      then show ?thesis using c r assms(2) [OF d1] by (simp add: work_round_def)
    next
      case (Inr u)
      obtain q d2 where q: "complete x d1 = (q, d2)" by fastforce
      then have "P d2" using assms(3) [OF d1, of x] Inr by simp
      then show ?thesis using c r Inr q assms(2) by (cases q) (simp_all add: work_round_def)
    qed
  next
    case False
    then show ?thesis using c d1 by (auto simp: work_round_def split: sum.split option.split)
  qed
qed

section \<open>Workers of a store\<close>

text \<open>
  \<open>admits c s\<close>: the claims \<open>c\<close> were given out by the system \<open>s\<close>. A handler that holds \<open>c\<close> and takes the store from
  \<open>d\<close> to \<open>d1\<close> \<open>runs\<close> if the system can do the same in steps.
\<close>

locale workers =
  fixes step :: "'s \<Rightarrow> 's \<Rightarrow> bool"
    and db :: "'s \<Rightarrow> 'd"
    and admits :: "'c \<Rightarrow> 's \<Rightarrow> bool"
  assumes claim_persists: "step s s1 \<Longrightarrow> admits c s \<Longrightarrow> admits c s1"
begin

definition runs :: "'c \<Rightarrow> 'd \<Rightarrow> 'd \<Rightarrow> bool" where
  "runs c d d1 \<longleftrightarrow> (\<forall>s. db s = d \<longrightarrow> admits c s \<longrightarrow> (\<exists>s1. step\<^sup>*\<^sup>* s s1 \<and> db s1 = d1))"

definition grants :: "'c \<Rightarrow> 'd \<Rightarrow> 'd \<Rightarrow> bool" where
  "grants c d d1 \<longleftrightarrow> (\<forall>s. db s = d \<longrightarrow> (\<exists>s1. step\<^sup>*\<^sup>* s s1 \<and> db s1 = d1 \<and> admits c s1))"

lemma steps_keep: "step\<^sup>*\<^sup>* s s1 \<Longrightarrow> admits c s \<Longrightarrow> admits c s1"
  by (induction rule: rtranclp_induct) (auto intro: claim_persists)

lemma runs_refl [simp]: "runs c d d"
  by (auto simp: runs_def)

lemma runs_trans [trans]:
  assumes "runs c d d1" "runs c d1 d2"
  shows "runs c d d2"
  unfolding runs_def
proof (intro allI impI)
  fix s
  assume "db s = d" "admits c s"
  with assms(1) obtain s1 where 1: "step\<^sup>*\<^sup>* s s1" "db s1 = d1" unfolding runs_def by blast
  moreover have "admits c s1" using steps_keep 1(1) \<open>admits c s\<close> by blast
  ultimately obtain s2 where "step\<^sup>*\<^sup>* s1 s2" "db s2 = d2" using assms(2) unfolding runs_def by blast
  with 1(1) show "\<exists>s2. step\<^sup>*\<^sup>* s s2 \<and> db s2 = d2" by (blast intro: rtranclp_trans)
qed

lemma runs_steps: "runs c (db s) d1 \<Longrightarrow> admits c s \<Longrightarrow> \<exists>s1. step\<^sup>*\<^sup>* s s1 \<and> db s1 = d1"
  by (simp add: runs_def)

lemma runs_called:
  "(\<And>e r d1. txn e d = Inr (r, d1) \<Longrightarrow> runs c d d1) \<Longrightarrow> runs c d (snd (called text txn x d))"
  by (auto simp: called_def split: sum.split)

lemma runs_called_eq:
  "called text txn x d = (r, d1) \<Longrightarrow> (\<And>e r d1. txn e d = Inr (r, d1) \<Longrightarrow> runs c d d1) \<Longrightarrow> runs c d d1"
  by (auto dest: called_cases)

lemma runs_and_then: "runs c d (snd r) \<Longrightarrow> (\<And>x d1. r = (Inr x, d1) \<Longrightarrow> runs c d1 (snd (f x d1))) \<Longrightarrow> runs c d (snd (and_then r f))"
  by (cases r; cases "fst r") (auto simp: and_then_def intro: runs_trans)

lemma grants_runs:
  assumes "grants c d d1" "runs c d1 d2" "db s = d"
  shows "\<exists>s1. step\<^sup>*\<^sup>* s s1 \<and> db s1 = d2"
proof -
  from assms(1,3) obtain s1 where 1: "step\<^sup>*\<^sup>* s s1" "db s1 = d1" "admits c s1" unfolding grants_def by blast
  with assms(2) obtain s2 where "step\<^sup>*\<^sup>* s1 s2" "db s2 = d2" unfolding runs_def by blast
  with 1(1) show ?thesis by (blast intro: rtranclp_trans)
qed

text \<open>A round is a run of the system when its claim, its settlement and its retry are.\<close>

lemma round_steps:
  assumes claim: "\<And>r d1. claim d = (r, d1) \<Longrightarrow> \<exists>s1. step\<^sup>*\<^sup>* s s1 \<and> db s1 = d1"
    and claimed: "\<And>x d1. claim d = (Inr (Some x), d1) \<Longrightarrow> grants (tag x) d d1"
    and complete: "\<And>x d1. runs (tag x) d1 (snd (complete x d1))"
    and retry: "\<And>x d1. runs (tag x) d1 (snd (retry x d1))"
    and db: "db s = d"
  shows "\<exists>s1. step\<^sup>*\<^sup>* s s1 \<and> db s1 = work_round claim work complete retry d"
proof -
  obtain r d1 where c: "claim d = (r, d1)" by fastforce
  show ?thesis
  proof (cases "\<exists>x. r = Inr (Some x)")
    case True
    then obtain x where r: "r = Inr (Some x)" by blast
    note grant = claimed [OF c [unfolded r]]
    show ?thesis
    proof (cases "work x")
      case (Inl m)
      then show ?thesis using c r grants_runs [OF grant retry db] by (simp add: work_round_def)
    next
      case (Inr u)
      obtain q d2 where q: "complete x d1 = (q, d2)" by fastforce
      with complete [of x d1] have d2: "runs (tag x) d1 d2" by simp
      show ?thesis
      proof (cases q)
        case (Inl m)
        have "runs (tag x) d1 (snd (retry x d2))" using d2 retry by (rule runs_trans)
        then show ?thesis using c r Inr q Inl grants_runs [OF grant, OF _ db] by (simp add: work_round_def)
      next
        case (Inr u)
        then show ?thesis using c r \<open>work x = Inr _\<close> q grants_runs [OF grant d2 db] by (simp add: work_round_def)
      qed
    qed
  next
    case False
    then show ?thesis using c claim [OF c] by (auto simp: work_round_def split: sum.split option.split)
  qed
qed

end

end
