(* ===== verification/Site_Ingestion.thy ===== *)
theory Site_Ingestion
  imports Worker_Loops Site_Archives Clone_Properties Design_Properties
begin

text \<open>
  What the ingestion of a site stores (\<open>ingest\<close> in \<open>capture-worker/src/site-worker.ts\<close>): the pages read from the
  crawler, at most \<open>maxPages\<close>, and the targets the selection of pages becomes, with the paths of their
  documents. Identifiers of pages are texts here; the store reads them as \<open>uuid\<close>.
\<close>

section \<open>The pages of the crawl\<close>

definition take_pages :: "nat \<Rightarrow> design_page list \<Rightarrow> design_page list \<Rightarrow> design_page list \<times> bool" where
  "take_pages limit items discovered =
     (discovered @ take (limit - length discovered) items, limit < length discovered + length items)"

text \<open>The loop of the source, one page at a time.\<close>

fun push_pages :: "nat \<Rightarrow> design_page list \<Rightarrow> design_page list \<Rightarrow> design_page list \<times> bool" where
  "push_pages limit [] discovered = (discovered, False)"
| "push_pages limit (p # ps) discovered =
     (if limit \<le> length discovered then (discovered, True) else push_pages limit ps (discovered @ [p]))"

lemma push_pages_eq: "length discovered \<le> limit \<Longrightarrow> push_pages limit items discovered = take_pages limit items discovered"
proof (induction items arbitrary: discovered)
  case Nil
  then show ?case by (simp add: take_pages_def)
next
  case (Cons p ps)
  show ?case
  proof (cases "limit \<le> length discovered")
    case True
    with Cons.prems show ?thesis by (simp add: take_pages_def)
  next
    case False
    then obtain k where k: "limit = length discovered + Suc k" using less_iff_Suc_add [of "length discovered" limit] by auto
    with Cons.IH [of "discovered @ [p]"] show ?thesis by (simp add: take_pages_def)
  qed
qed

lemma take_pages_length: "length discovered \<le> limit \<Longrightarrow> length (fst (take_pages limit items discovered)) \<le> limit"
  by (simp add: take_pages_def)

section \<open>Targets\<close>

text \<open>\<open>sitePagePath\<close>; an exception of \<open>new URL\<close> is \<open>None\<close>.\<close>

definition sitePagePath :: "web \<Rightarrow> string \<Rightarrow> string \<Rightarrow> string \<Rightarrow> string option" where
  "sitePagePath W rootUrl targetUrl pageId =
     Option.bind (normalizeRawUrl W rootUrl) (\<lambda>r. Option.bind (normalizeRawUrl W targetUrl) (\<lambda>t.
       Some (if r = t then ''index.html'' else posix_join [''pages'', pageId @ ''.html''])))"

text \<open>\<open>SiteTargetInput\<close>; \<open>tg_cancelled\<close> is the status \<open>CANCELLED\<close>.\<close>

record planned_target =
  tg_page :: string
  tg_ordinal :: nat
  tg_public_url :: string
  tg_url_sha :: digest
  tg_local_path :: string
  tg_cancelled :: bool
  tg_failure :: "string option"

text \<open>An exception, or a loop that does not end.\<close>

datatype plan_stop = THROWS string | HANGS

definition invalid_url :: plan_stop where "invalid_url = THROWS ''Invalid URL''"

text \<open>
  \<open>while (seenPaths.has(path)) path = alternative\<close>: the alternative does not change, so the loop does not end if
  it is in use too.
\<close>

definition fresh_path :: "string list \<Rightarrow> string \<Rightarrow> string \<Rightarrow> plan_stop + string" where
  "fresh_path seen path alternative =
     (if toLowerCase path \<notin> set seen then Inr path
      else if toLowerCase alternative \<notin> set seen then Inr alternative else Inl HANGS)"

definition numbered_path :: "string \<Rightarrow> string \<Rightarrow> nat \<Rightarrow> string" where
  "numbered_path folder pageId n = folder @ ''/'' @ pageId @ ''-'' @ decimal n @ ''.html''"

definition plan_target :: "web \<Rightarrow> (string \<Rightarrow> digest) \<Rightarrow> string \<Rightarrow> design_candidate \<Rightarrow> nat \<Rightarrow> string list \<Rightarrow> plan_stop + planned_target" where
  "plan_target W sha rootUrl c n seen =
     (let ident = dp_id (dc_page c)
      in rbind (need invalid_url (sitePagePath W rootUrl (dc_url c) ident)) (\<lambda>path0.
         rbind (fresh_path seen path0 (numbered_path ''pages'' ident n)) (\<lambda>path.
         rbind (need invalid_url (sanitizeForDatabase W (dc_url c))) (\<lambda>url.
         rbind (need invalid_url (rawUrlHash W sha (dc_url c))) (\<lambda>h.
           Inr \<lparr> tg_page = ident, tg_ordinal = n, tg_public_url = url, tg_url_sha = h, tg_local_path = path,
                 tg_cancelled = False, tg_failure = None \<rparr>)))))"

definition reason_text :: "design_reason \<Rightarrow> string" where
  "reason_text r = (case r of ALTERNATE_LOCALE \<Rightarrow> ''ALTERNATE_LOCALE'' | TRACKING_OR_QUERY_VARIANT \<Rightarrow> ''TRACKING_OR_QUERY_VARIANT''
     | CANONICAL_DUPLICATE \<Rightarrow> ''CANONICAL_DUPLICATE'' | SEMANTIC_TEMPLATE_DUPLICATE \<Rightarrow> ''SEMANTIC_TEMPLATE_DUPLICATE''
     | LAYOUT_DUPLICATE \<Rightarrow> ''LAYOUT_DUPLICATE'' | NON_HTML \<Rightarrow> ''NON_HTML'' | EXTERNAL_ORIGIN \<Rightarrow> ''EXTERNAL_ORIGIN''
     | ROBOTS_OR_POLICY_BLOCKED \<Rightarrow> ''ROBOTS_OR_POLICY_BLOCKED'' | HTTP_FAILURE \<Rightarrow> ''HTTP_FAILURE'' | BUDGET_LIMITED \<Rightarrow> ''BUDGET_LIMITED'')"

definition rejected_url :: "design_rejection \<Rightarrow> string" where
  "rejected_url r = (if dr_url r \<noteq> [] then dr_url r else raw_page_url (dr_page r))"

definition plan_rejection :: "web \<Rightarrow> (string \<Rightarrow> digest) \<Rightarrow> design_rejection \<Rightarrow> nat \<Rightarrow> string list \<Rightarrow> plan_stop + planned_target" where
  "plan_rejection W sha r n seen =
     (let ident = dp_id (dr_page r); url0 = rejected_url r
      in rbind (fresh_path seen (''rejected/'' @ ident @ ''.html'') (numbered_path ''rejected'' ident n)) (\<lambda>path.
         rbind (need invalid_url (sanitizeForDatabase W url0)) (\<lambda>url.
           Inr \<lparr> tg_page = ident, tg_ordinal = n, tg_public_url = url, tg_url_sha = sha (url0 @ [CHR 0x0A] @ ident),
                 tg_local_path = path, tg_cancelled = True, tg_failure = Some (reason_text (dr_reason r)) \<rparr>)))"

text \<open>The two loops over the selection, with \<open>seenPaths\<close> and the ordinals.\<close>

fun plan_all :: "('a \<Rightarrow> nat \<Rightarrow> string list \<Rightarrow> plan_stop + planned_target) \<Rightarrow> 'a list \<Rightarrow> nat \<Rightarrow> string list \<Rightarrow> plan_stop + (planned_target list \<times> string list)" where
  "plan_all f [] n seen = Inr ([], seen)"
| "plan_all f (x # xs) n seen =
     rbind (f x n seen) (\<lambda>t. rbind (plan_all f xs (n + 1) (toLowerCase (tg_local_path t) # seen)) (\<lambda>(ts, seen1). Inr (t # ts, seen1)))"

definition fallback_target :: "web \<Rightarrow> (string \<Rightarrow> digest) \<Rightarrow> string \<Rightarrow> string \<Rightarrow> plan_stop + planned_target" where
  "fallback_target W sha rootUrl jobId =
     rbind (need invalid_url (sitePagePath W rootUrl rootUrl jobId)) (\<lambda>path.
     rbind (need invalid_url (sanitizeForDatabase W rootUrl)) (\<lambda>url.
     rbind (need invalid_url (rawUrlHash W sha rootUrl)) (\<lambda>h.
       Inr \<lparr> tg_page = jobId, tg_ordinal = 0, tg_public_url = url, tg_url_sha = h, tg_local_path = path,
             tg_cancelled = False, tg_failure = None \<rparr>)))"

definition plan_targets :: "web \<Rightarrow> (string \<Rightarrow> digest) \<Rightarrow> string \<Rightarrow> string \<Rightarrow> design_selection \<Rightarrow> plan_stop + planned_target list" where
  "plan_targets W sha rootUrl jobId s =
     (if sel_selected s = [] then rbind (fallback_target W sha rootUrl jobId) (\<lambda>t. Inr [t])
      else rbind (plan_all (plan_target W sha rootUrl) (sel_selected s) 0 []) (\<lambda>(ts, seen).
           rbind (plan_all (plan_rejection W sha) (sel_rejected s) (length ts) seen) (\<lambda>(rs, _). Inr (ts @ rs))))"

text \<open>The targets as the parameters of the statement: an identifier must be the text of a \<open>uuid\<close>.\<close>

definition read_target :: "(string \<Rightarrow> uuid option) \<Rightarrow> planned_target \<Rightarrow> site_target option" where
  "read_target uuid_of t = map_option (\<lambda>p. \<lparr> st_page = p, st_ordinal = tg_ordinal t, st_public_url = tg_public_url t,
     st_url_sha = tg_url_sha t, st_local_path = tg_local_path t,
     st_status = (if tg_cancelled t then Some T_CANCELLED else None), st_failure_code = tg_failure t \<rparr>) (uuid_of (tg_page t))"

section \<open>What a plan guarantees\<close>

text \<open>Ordinals count from 0 and paths differ, also in upper and lower case.\<close>

lemma plan_all_ordinals:
  assumes "\<And>x n seen t. f x n seen = Inr t \<Longrightarrow> tg_ordinal t = n"
  shows "plan_all f xs n seen = Inr (ts, seen1) \<Longrightarrow> map tg_ordinal ts = [n..<n + length xs]"
proof (induction xs arbitrary: n seen ts seen1)
  case (Cons x xs)
  then obtain t us where t: "f x n seen = Inr t" "ts = t # us"
    "plan_all f xs (n + 1) (toLowerCase (tg_local_path t) # seen) = Inr (us, seen1)" by auto
  with Cons.IH [OF t(3)] assms [OF t(1)] show ?case by (simp add: upt_conv_Cons del: upt_Suc)
qed simp

lemma plan_all_paths:
  assumes "\<And>x n seen t. f x n seen = Inr t \<Longrightarrow> toLowerCase (tg_local_path t) \<notin> set seen"
  shows "plan_all f xs n seen = Inr (ts, seen1) \<Longrightarrow> distinct (map (\<lambda>t. toLowerCase (tg_local_path t)) ts)
     \<and> (\<lambda>t. toLowerCase (tg_local_path t)) ` set ts \<inter> set seen = {}
     \<and> set seen1 = (\<lambda>t. toLowerCase (tg_local_path t)) ` set ts \<union> set seen"
proof (induction xs arbitrary: n seen ts seen1)
  case (Cons x xs)
  then obtain t us where t: "f x n seen = Inr t" "ts = t # us"
    "plan_all f xs (n + 1) (toLowerCase (tg_local_path t) # seen) = Inr (us, seen1)" by auto
  with Cons.IH [OF t(3)] assms [OF t(1)] show ?case by auto
qed simp

lemma plan_all_pages:
  assumes "\<And>x n seen t. f x n seen = Inr t \<Longrightarrow> tg_page t = g x"
  shows "plan_all f xs n seen = Inr (ts, seen1) \<Longrightarrow> map tg_page ts = map g xs"
proof (induction xs arbitrary: n seen ts seen1)
  case (Cons x xs)
  then obtain t us where t: "f x n seen = Inr t" "ts = t # us"
    "plan_all f xs (n + 1) (toLowerCase (tg_local_path t) # seen) = Inr (us, seen1)" by auto
  with Cons.IH [OF t(3)] assms [OF t(1)] show ?case by simp
qed simp

lemma fresh_path_fresh: "fresh_path seen a b = Inr path \<Longrightarrow> toLowerCase path \<notin> set seen"
  by (auto simp: fresh_path_def split: if_splits)

lemma plan_target_fields:
  "plan_target W sha rootUrl c n seen = Inr t \<Longrightarrow> tg_ordinal t = n \<and> tg_page t = dp_id (dc_page c)
     \<and> toLowerCase (tg_local_path t) \<notin> set seen"
  "plan_rejection W sha r n seen = Inr t \<Longrightarrow> tg_ordinal t = n \<and> tg_page t = dp_id (dr_page r)
     \<and> toLowerCase (tg_local_path t) \<notin> set seen"
  by (auto simp: plan_target_def plan_rejection_def Let_def dest: fresh_path_fresh)

lemma plan_targets_ok:
  assumes "plan_targets W sha rootUrl jobId s = Inr ts"
  shows "map tg_ordinal ts = [0..<length ts]" "distinct (map (\<lambda>t. toLowerCase (tg_local_path t)) ts)"
    "map tg_page ts = (if sel_selected s = [] then [jobId]
       else map (\<lambda>c. dp_id (dc_page c)) (sel_selected s) @ map (\<lambda>r. dp_id (dr_page r)) (sel_rejected s))"
proof -
  have "map tg_ordinal ts = [0..<length ts] \<and> distinct (map (\<lambda>t. toLowerCase (tg_local_path t)) ts)
    \<and> map tg_page ts = (if sel_selected s = [] then [jobId]
       else map (\<lambda>c. dp_id (dc_page c)) (sel_selected s) @ map (\<lambda>r. dp_id (dr_page r)) (sel_rejected s))"
  proof (cases "sel_selected s = []")
    case True
    with assms show ?thesis by (auto simp: plan_targets_def fallback_target_def)
  next
    case False
    with assms obtain us seen rs seen1 where *: "plan_all (plan_target W sha rootUrl) (sel_selected s) 0 [] = Inr (us, seen)"
      "plan_all (plan_rejection W sha) (sel_rejected s) (length us) seen = Inr (rs, seen1)" "ts = us @ rs"
      by (auto simp: plan_targets_def)
    note f = plan_target_fields(1) [of W sha rootUrl] and g = plan_target_fields(2) [of W sha]
    have ord: "map tg_ordinal us = [0..<0 + length (sel_selected s)]" "map tg_ordinal rs = [length us..<length us + length (sel_rejected s)]"
      using f g by (blast intro: plan_all_ordinals [OF _ *(1)] plan_all_ordinals [OF _ *(2)])+
    have pages: "map tg_page us = map (\<lambda>c. dp_id (dc_page c)) (sel_selected s)" "map tg_page rs = map (\<lambda>r. dp_id (dr_page r)) (sel_rejected s)"
      using f g by (blast intro: plan_all_pages [OF _ *(1)] plan_all_pages [OF _ *(2)])+
    have len: "length us = length (sel_selected s)" "length rs = length (sel_rejected s)"
      using pages by (metis length_map)+
    have "distinct (map (\<lambda>t. toLowerCase (tg_local_path t)) us) \<and> (\<lambda>t. toLowerCase (tg_local_path t)) ` set us \<inter> set [] = {}
        \<and> set seen = (\<lambda>t. toLowerCase (tg_local_path t)) ` set us \<union> set []"
      by (rule plan_all_paths [OF _ *(1)]) (use f in blast)
    moreover have "distinct (map (\<lambda>t. toLowerCase (tg_local_path t)) rs) \<and> (\<lambda>t. toLowerCase (tg_local_path t)) ` set rs \<inter> set seen = {}
        \<and> set seen1 = (\<lambda>t. toLowerCase (tg_local_path t)) ` set rs \<union> set seen"
      by (rule plan_all_paths [OF _ *(2)]) (use g in blast)
    ultimately have "distinct (map (\<lambda>t. toLowerCase (tg_local_path t)) ts)" by (auto simp: *(3))
    moreover have "[0..<length us] @ [length us..<length us + length rs] = [0..<length us + length rs]"
      by (rule upt_add_eq_append [OF le0, symmetric])
    ultimately show ?thesis using ord pages len False by (simp add: *(3))
  qed
  then show "map tg_ordinal ts = [0..<length ts]" "distinct (map (\<lambda>t. toLowerCase (tg_local_path t)) ts)"
    "map tg_page ts = (if sel_selected s = [] then [jobId]
       else map (\<lambda>c. dp_id (dc_page c)) (sel_selected s) @ map (\<lambda>r. dp_id (dr_page r)) (sel_rejected s))"
    by blast+
qed

section \<open>The loops over paths end\<close>

text \<open>
  Identifiers of one length, as those of the crawler are, keep the alternatives apart: \<open>avoids folder l n path\<close>
  says that \<open>path\<close> is no alternative with an ordinal of at least \<open>n\<close>.
\<close>

definition avoids :: "string \<Rightarrow> nat \<Rightarrow> nat \<Rightarrow> string \<Rightarrow> bool" where
  "avoids folder l n path \<longleftrightarrow> (\<forall>i k. length i = l \<longrightarrow> n \<le> k \<longrightarrow> path \<noteq> numbered_path folder i k)"

lemma lower_numbered: "toLowerCase (numbered_path folder i k) = numbered_path (toLowerCase folder) (toLowerCase i) k"
proof -
  have "lower_char (CHR ''/'') = CHR ''/''" "lower_char (CHR ''-'') = CHR ''-''" "toLowerCase ''.html'' = ''.html''"
    by (simp_all add: toLowerCase_def lower_char_def between_def less_eq_char_def)
  moreover have "map lower_char (decimal k) = decimal k" using lower_decimal [of k] by (simp add: toLowerCase_def)
  ultimately show ?thesis by (simp add: numbered_path_def toLowerCase_def)
qed

lemma lower_folders [simp]: "toLowerCase ''pages'' = ''pages''" "toLowerCase ''rejected'' = ''rejected''" "toLowerCase ''index.html'' = ''index.html''"
  by (simp_all add: toLowerCase_def lower_char_def between_def less_eq_char_def)

lemma lower_page: "toLowerCase (folder @ ''/'' @ i @ ''.html'') = toLowerCase folder @ ''/'' @ toLowerCase i @ ''.html''"
  by (simp add: toLowerCase_def lower_char_def between_def less_eq_char_def)

lemma numbered_eq: "length i = length j \<Longrightarrow> numbered_path folder i k = numbered_path folder j m \<longleftrightarrow> i = j \<and> k = m"
  by (auto simp: numbered_path_def decimal_inj)

lemma avoids_plain: "length i = l \<Longrightarrow> avoids folder l n (folder @ ''/'' @ i @ ''.html'')"
  by (auto simp: avoids_def numbered_path_def)

lemma avoids_numbered: "length i = l \<Longrightarrow> avoids folder l (Suc n) (numbered_path folder i n)"
  unfolding avoids_def
proof (intro allI impI notI)
  fix j k
  assume "length i = l" "length j = l" "Suc n \<le> k" "numbered_path folder i n = numbered_path folder j k"
  then show False using numbered_eq [of i j folder n k] by simp
qed

lemma avoids_others: "avoids ''pages'' l n ''index.html''" "avoids ''rejected'' l n ''index.html''"
  "avoids ''rejected'' l n (''pages/'' @ x)"
  by (simp_all add: avoids_def numbered_path_def)

lemma avoids_mono: "avoids folder l n path \<Longrightarrow> n \<le> m \<Longrightarrow> avoids folder l m path"
  by (simp add: avoids_def)

lemma fresh_path_ends:
  assumes "\<forall>x \<in> set seen. avoids folder (length i) n x" "toLowerCase folder = folder"
  shows "fresh_path seen path (numbered_path folder i n) \<noteq> Inl HANGS"
proof -
  have "numbered_path folder (toLowerCase i) n \<notin> set seen"
    using assms(1) unfolding avoids_def by (metis le_refl length_case(2))
  then have "toLowerCase (numbered_path folder i n) \<notin> set seen"
    unfolding lower_numbered assms(2) .
  then show ?thesis by (simp add: fresh_path_def)
qed

lemma plan_all_ends:
  assumes "\<And>x n seen. x \<in> X \<Longrightarrow> \<forall>y \<in> set seen. P n y \<Longrightarrow> f x n seen \<noteq> Inl HANGS"
    "\<And>x n seen t. x \<in> X \<Longrightarrow> f x n seen = Inr t \<Longrightarrow> P (Suc n) (toLowerCase (tg_local_path t))"
    "\<And>n y. P n y \<Longrightarrow> P (Suc n) y"
  shows "set xs \<subseteq> X \<Longrightarrow> \<forall>y \<in> set seen. P n y \<Longrightarrow> plan_all f xs n seen \<noteq> Inl HANGS"
proof (induction xs arbitrary: n seen)
  case (Cons x xs)
  show ?case
  proof (cases "f x n seen")
    case (Inl e)
    then show ?thesis using Cons.prems assms(1) [of x seen n] by auto
  next
    case (Inr t)
    have "\<forall>y \<in> set (toLowerCase (tg_local_path t) # seen). P (Suc n) y"
      using Cons.prems assms(2) [OF _ Inr] assms(3) by auto
    with Cons.IH [of "toLowerCase (tg_local_path t) # seen" "Suc n"] Cons.prems Inr show ?thesis
      by (auto simp: rbind_def split: sum.splits)
  qed
qed simp

lemma sitePagePath_cases:
  assumes "sitePagePath W rootUrl url i = Some path" "slash \<notin> set i"
  shows "path = ''index.html'' \<or> path = ''pages/'' @ i @ ''.html''"
proof -
  have "plain (i @ ''.html'')" "plain ''pages''" using assms(2) by (auto simp: plain_def append_eq_Cons_conv)
  then have "posix_join [''pages'', i @ ''.html''] = ''pages'' @ ''/'' @ i @ ''.html''"
    by (subst posix_join_plain) simp_all
  with assms(1) show ?thesis by (auto simp: sitePagePath_def bind_eq_Some_conv split: if_splits)
qed

text \<open>The identifiers of the pages of a selection.\<close>

definition selection_ids :: "design_selection \<Rightarrow> string set" where
  "selection_ids s = (\<lambda>c. dp_id (dc_page c)) ` set (sel_selected s) \<union> (\<lambda>r. dp_id (dr_page r)) ` set (sel_rejected s)"

definition selection_urls :: "design_selection \<Rightarrow> string set" where
  "selection_urls s = dc_url ` set (sel_selected s) \<union> rejected_url ` set (sel_rejected s)"

lemma plan_target_ends:
  assumes "length (dp_id (dc_page c)) = l" "slash \<notin> set (dp_id (dc_page c))"
  shows "\<forall>y \<in> set seen. avoids ''pages'' l n y \<Longrightarrow> plan_target W sha rootUrl c n seen \<noteq> Inl HANGS"
    "plan_target W sha rootUrl c n seen = Inr t \<Longrightarrow> avoids ''pages'' l (Suc n) (toLowerCase (tg_local_path t))"
    "plan_target W sha rootUrl c n seen = Inr t \<Longrightarrow> avoids ''rejected'' l' m (toLowerCase (tg_local_path t))"
proof -
  let ?i = "dp_id (dc_page c)"
  show "plan_target W sha rootUrl c n seen \<noteq> Inl HANGS" if "\<forall>y \<in> set seen. avoids ''pages'' l n y"
  proof
    assume h: "plan_target W sha rootUrl c n seen = Inl HANGS"
    have "fresh_path seen path (numbered_path ''pages'' ?i n) \<noteq> Inl HANGS" for path
      by (rule fresh_path_ends [OF _ lower_folders(1)]) (use that assms(1) in blast)
    with h show False
      by (auto simp: plan_target_def Let_def rbind_def need_def invalid_url_def split: sum.splits option.splits)
  qed
  assume "plan_target W sha rootUrl c n seen = Inr t"
  then obtain path0 where p: "sitePagePath W rootUrl (dc_url c) ?i = Some path0"
    "tg_local_path t = path0 \<or> tg_local_path t = numbered_path ''pages'' ?i n"
    by (auto simp: plan_target_def Let_def fresh_path_def split: if_splits)
  then have "tg_local_path t = ''index.html'' \<or> tg_local_path t = ''pages'' @ ''/'' @ ?i @ ''.html'' \<or> tg_local_path t = numbered_path ''pages'' ?i n"
    using sitePagePath_cases [OF p(1) assms(2)] by auto
  then have cases: "toLowerCase (tg_local_path t) = ''index.html''
      \<or> toLowerCase (tg_local_path t) = ''pages'' @ ''/'' @ toLowerCase ?i @ ''.html''
      \<or> toLowerCase (tg_local_path t) = numbered_path ''pages'' (toLowerCase ?i) n"
    by (metis lower_folders(1,3) lower_numbered lower_page)
  have l: "length (toLowerCase ?i) = l" using assms(1) by simp
  show "avoids ''pages'' l (Suc n) (toLowerCase (tg_local_path t))"
    using cases avoids_plain [OF l, of "''pages''" "Suc n"] avoids_numbered [OF l, of "''pages''" n] avoids_others(1) by metis
  have "numbered_path ''pages'' i n = ''pages/'' @ i @ ''-'' @ decimal n @ ''.html''" for i by (simp add: numbered_path_def)
  moreover have "''pages'' @ ''/'' @ x = ''pages/'' @ x" for x by simp
  ultimately show "avoids ''rejected'' l' m (toLowerCase (tg_local_path t))"
    using cases avoids_others(2,3) by metis
qed

lemma plan_rejection_ends:
  assumes "length (dp_id (dr_page r)) = l"
  shows "\<forall>y \<in> set seen. avoids ''rejected'' l n y \<Longrightarrow> plan_rejection W sha r n seen \<noteq> Inl HANGS"
    "plan_rejection W sha r n seen = Inr t \<Longrightarrow> avoids ''rejected'' l (Suc n) (toLowerCase (tg_local_path t))"
proof -
  let ?i = "dp_id (dr_page r)"
  show "plan_rejection W sha r n seen \<noteq> Inl HANGS" if "\<forall>y \<in> set seen. avoids ''rejected'' l n y"
  proof
    assume h: "plan_rejection W sha r n seen = Inl HANGS"
    have "fresh_path seen path (numbered_path ''rejected'' ?i n) \<noteq> Inl HANGS" for path
      by (rule fresh_path_ends [OF _ lower_folders(2)]) (use that assms(1) in blast)
    with h show False
      by (auto simp: plan_rejection_def Let_def rbind_def need_def invalid_url_def split: sum.splits option.splits)
  qed
  assume "plan_rejection W sha r n seen = Inr t"
  then have "tg_local_path t = ''rejected'' @ ''/'' @ ?i @ ''.html'' \<or> tg_local_path t = numbered_path ''rejected'' ?i n"
    by (auto simp: plan_rejection_def Let_def fresh_path_def split: if_splits)
  then have cases: "toLowerCase (tg_local_path t) = ''rejected'' @ ''/'' @ toLowerCase ?i @ ''.html''
      \<or> toLowerCase (tg_local_path t) = numbered_path ''rejected'' (toLowerCase ?i) n"
    by (metis lower_folders(2) lower_numbered lower_page)
  have l: "length (toLowerCase ?i) = l" using assms by simp
  show "avoids ''rejected'' l (Suc n) (toLowerCase (tg_local_path t))"
    using cases avoids_plain [OF l, of "''rejected''" "Suc n"] avoids_numbered [OF l, of "''rejected''" n] by metis
qed

lemma plan_targets_ends:
  assumes ids: "\<forall>i \<in> selection_ids s. length i = l \<and> slash \<notin> set i"
  shows "plan_targets W sha rootUrl jobId s \<noteq> Inl HANGS"
proof (cases "sel_selected s = []")
  case True
  then show ?thesis
    by (auto simp: plan_targets_def fallback_target_def rbind_def need_def invalid_url_def split: sum.splits option.splits)
next
  case False
  let ?X = "{c. length (dp_id (dc_page c)) = l \<and> slash \<notin> set (dp_id (dc_page c))}"
  let ?Y = "{r. length (dp_id (dr_page r)) = l}"
  have sel: "set (sel_selected s) \<subseteq> ?X" "set (sel_rejected s) \<subseteq> ?Y" using ids by (auto simp: selection_ids_def)
  have "plan_all (plan_target W sha rootUrl) (sel_selected s) 0 [] \<noteq> Inl HANGS"
    by (rule plan_all_ends [where P = "avoids ''pages'' l" and X = ?X])
      (use sel(1) plan_target_ends(1,2) avoids_mono in \<open>auto intro: avoids_mono\<close>)
  moreover have "plan_all (plan_rejection W sha) (sel_rejected s) (length ts) seen \<noteq> Inl HANGS"
    if p: "plan_all (plan_target W sha rootUrl) (sel_selected s) 0 [] = Inr (ts, seen)" for ts seen
  proof -
    have "\<forall>y \<in> set seen'. avoids ''rejected'' l m y" if "plan_all (plan_target W sha rootUrl) cs n seen0 = Inr (ts', seen')"
      "\<forall>y \<in> set seen0. avoids ''rejected'' l m y" "set cs \<subseteq> ?X" for cs n seen0 ts' seen' m
      using that
    proof (induction cs arbitrary: n seen0 ts' seen')
      case (Cons c cs)
      then obtain t us where t: "plan_target W sha rootUrl c n seen0 = Inr t"
        "plan_all (plan_target W sha rootUrl) cs (n + 1) (toLowerCase (tg_local_path t) # seen0) = Inr (us, seen')" by auto
      have "avoids ''rejected'' l m (toLowerCase (tg_local_path t))"
        using Cons.prems(3) plan_target_ends(3) [OF _ _ t(1)] by auto
      with Cons.IH [OF t(2)] Cons.prems show ?case by auto
    qed simp
    from this [OF p] sel(1) have "\<forall>y \<in> set seen. avoids ''rejected'' l (length ts) y" by simp
    then show ?thesis
      by (intro plan_all_ends [where P = "avoids ''rejected'' l" and X = ?Y])
        (use sel(2) plan_rejection_ends in \<open>auto intro: avoids_mono\<close>)
  qed
  ultimately show ?thesis using False
    by (auto simp: plan_targets_def rbind_def split: sum.splits)
qed

text \<open>With URLs that parse there is a plan.\<close>

lemma plan_all_defined:
  assumes "\<And>x n seen. x \<in> X \<Longrightarrow> f x n seen \<in> {Inl HANGS} \<union> range Inr"
  shows "set xs \<subseteq> X \<Longrightarrow> plan_all f xs n seen \<in> {Inl HANGS} \<union> range Inr"
proof (induction xs arbitrary: n seen)
  case (Cons x xs)
  have "f x n seen \<in> {Inl HANGS} \<union> range Inr" using assms Cons.prems by simp
  then show ?case
  proof (elim UnE rangeE)
    fix t
    assume "f x n seen = Inr t"
    moreover from Cons have "plan_all f xs (n + 1) (toLowerCase (tg_local_path t) # seen) \<in> {Inl HANGS} \<union> range Inr" by simp
    ultimately show ?thesis by auto
  qed auto
qed simp

lemma need_cases: "x \<noteq> None \<Longrightarrow> \<exists>v. need e x = Inr v"
  by (auto simp: need_def)

lemma fresh_path_cases: "fresh_path seen a b \<in> {Inl HANGS} \<union> range Inr"
  by (simp add: fresh_path_def)

lemma url_defined: "parse_url W u \<noteq> None \<Longrightarrow> sanitizeForDatabase W u \<noteq> None \<and> rawUrlHash W sha u \<noteq> None \<and> normalizeRawUrl W u \<noteq> None"
  by (auto simp: sanitizeForDatabase_def rawUrlHash_def normalizeRawUrl_def)

lemma page_path_defined: "parse_url W r \<noteq> None \<Longrightarrow> parse_url W u \<noteq> None \<Longrightarrow> sitePagePath W r u i \<noteq> None"
  by (auto simp: sitePagePath_def normalizeRawUrl_def)

lemma plan_target_defined:
  assumes "parse_url W rootUrl \<noteq> None" "parse_url W (dc_url c) \<noteq> None"
  shows "plan_target W sha rootUrl c n seen \<in> {Inl HANGS} \<union> range Inr"
proof -
  obtain p u h where *: "sitePagePath W rootUrl (dc_url c) (dp_id (dc_page c)) = Some p" "sanitizeForDatabase W (dc_url c) = Some u"
    "rawUrlHash W sha (dc_url c) = Some h"
    using page_path_defined [OF assms] url_defined [OF assms(2)] by fastforce
  then show ?thesis
    using fresh_path_cases [of seen p "numbered_path ''pages'' (dp_id (dc_page c)) n"]
    by (auto simp: plan_target_def Let_def need_def)
qed

lemma plan_rejection_defined:
  assumes "parse_url W (rejected_url r) \<noteq> None"
  shows "plan_rejection W sha r n seen \<in> {Inl HANGS} \<union> range Inr"
proof -
  obtain u where *: "sanitizeForDatabase W (rejected_url r) = Some u" using url_defined [OF assms] by fastforce
  then show ?thesis
    using fresh_path_cases [of seen "''rejected/'' @ dp_id (dr_page r) @ ''.html''" "numbered_path ''rejected'' (dp_id (dr_page r)) n"]
    by (auto simp: plan_rejection_def Let_def need_def)
qed

lemma plan_targets_defined:
  assumes "parse_url W rootUrl \<noteq> None" "\<forall>u \<in> selection_urls s. parse_url W u \<noteq> None"
    "\<forall>i \<in> selection_ids s. length i = l \<and> slash \<notin> set i"
  shows "\<exists>ts. plan_targets W sha rootUrl jobId s = Inr ts"
proof (cases "sel_selected s = []")
  case True
  obtain p u h where "sitePagePath W rootUrl rootUrl jobId = Some p" "sanitizeForDatabase W rootUrl = Some u" "rawUrlHash W sha rootUrl = Some h"
    using page_path_defined [OF assms(1,1)] url_defined [OF assms(1)] by fastforce
  with True show ?thesis by (simp add: plan_targets_def fallback_target_def need_def)
next
  case False
  have first: "plan_all (plan_target W sha rootUrl) (sel_selected s) 0 [] \<in> {Inl HANGS} \<union> range Inr"
    using assms(2) plan_target_defined [OF assms(1)]
    by (intro plan_all_defined [where X = "{c. parse_url W (dc_url c) \<noteq> None}"]) (auto simp: selection_urls_def)
  have second: "plan_all (plan_rejection W sha) (sel_rejected s) n seen \<in> {Inl HANGS} \<union> range Inr" for n seen
    using assms(2) plan_rejection_defined
    by (intro plan_all_defined [where X = "{r. parse_url W (rejected_url r) \<noteq> None}"]) (auto simp: selection_urls_def)
  have "plan_targets W sha rootUrl jobId s \<in> {Inl HANGS} \<union> range Inr"
  proof (cases "plan_all (plan_target W sha rootUrl) (sel_selected s) 0 []")
    case (Inl e)
    with first False show ?thesis by (auto simp: plan_targets_def)
  next
    case (Inr p)
    with second [of "length (fst p)" "snd p"] False show ?thesis
      by (cases p) (auto simp: plan_targets_def)
  qed
  then show ?thesis using plan_targets_ends [OF assms(3), of W sha rootUrl jobId] by auto
qed

text \<open>Without that hypothesis the loop may not end: three pages are enough.\<close>

lemma alternative_in_use: "fresh_path [''pages/a-2.html'', ''pages/a.html''] ''pages/a.html'' (numbered_path ''pages'' ''a'' 2) = Inl HANGS"
  by code_simp

end
