(* ===== verification/Rendered_Pages.thy ===== *)
theory Rendered_Pages
  imports Command_Parsing Capture_Schema Web_Urls "HOL-Library.Multiset"
begin

text \<open>
  What a capture reads off a rendered page (\<open>capture-worker/src/capture.ts\<close>): the metadata with the types of
  its structured data, the measured performance, the difference to the static observation of the crawler,
  and the labels of controls that may be clicked. The page itself is given by the values its selectors find.
\<close>

section \<open>Numbers and codes\<close>

text \<open>\<open>boundedNumber\<close>: a header as a positive safe integer, capped; \<open>undefined\<close> converts to \<open>NaN\<close>.\<close>

definition max_counted_bytes :: nat where "max_counted_bytes = 52428800"

definition boundedNumber :: "js_text \<Rightarrow> string option \<Rightarrow> nat" where
  "boundedNumber N v = (case v of
     None \<Rightarrow> 0
   | Some s \<Rightarrow> (case text_number N s of
        Finite q \<Rightarrow> if q = of_int \<lfloor>q\<rfloor> \<and> 0 < \<lfloor>q\<rfloor> \<and> \<lfloor>q\<rfloor> \<le> 9007199254740991 then min (nat \<lfloor>q\<rfloor>) max_counted_bytes else 0
      | _ \<Rightarrow> 0))"

lemma boundedNumber_le: "boundedNumber N v \<le> max_counted_bytes"
  by (auto simp: boundedNumber_def split: option.split js_num.split)

text \<open>\<open>safeFailureCode\<close>: the message of an \<open>Error\<close> that is a symbolic code; \<open>None\<close> is another thrown value.\<close>

definition safeFailureCode :: "string option \<Rightarrow> string \<Rightarrow> string" where
  "safeFailureCode message fallback = (let value = coalesce message [] in if symbolic_code value then value else fallback)"

lemma symbolic_code_bounds: "symbolic_code s \<Longrightarrow> 1 \<le> length s \<and> length s \<le> 64 \<and> list_all code_char s"
  by (cases s) (auto simp: symbolic_code_def code_char_def)

lemma safeFailureCode_symbolic: "symbolic_code fallback \<Longrightarrow> symbolic_code (safeFailureCode message fallback)"
  by (simp add: safeFailureCode_def Let_def)

definition isUnexpectedDocumentMime :: "string \<Rightarrow> string \<Rightarrow> bool" where
  "isUnexpectedDocumentMime resourceType mimeType \<longleftrightarrow> (let normalized = toLowerCase mimeType
     in resourceType \<noteq> ''document'' \<and> (normalized = ''text/html'' \<or> normalized = ''application/xhtml+xml''))"

section \<open>Labels of controls\<close>

text \<open>The labels of ASCII characters; the Vietnamese ones but \<open>mua\<close> are not.\<close>

definition expansion_labels :: "string list" where
  "expansion_labels = [''load more'', ''show more'', ''view more'', ''see more'', ''expand'']"

definition unsafe_action_labels :: "string list" where
  "unsafe_action_labels =
     [''delete'', ''remove'', ''logout'', ''sign out'', ''purchase'', ''buy'', ''checkout'', ''pay'', ''mua'']"

text \<open>\<open>replace(/\s+/gu, ' ')\<close>.\<close>

fun collapse_from :: "bool \<Rightarrow> string \<Rightarrow> string" where
  "collapse_from inside [] = []"
| "collapse_from inside (c # s) = (if blank_char c then (if inside then [] else '' '') @ collapse_from True s
     else c # collapse_from False s)"

definition collapse_blanks :: "string \<Rightarrow> string" where
  "collapse_blanks = collapse_from False"

text \<open>Afterwards every blank is a single space.\<close>

lemma collapse_blanks_set: "c \<in> set (collapse_blanks s) \<Longrightarrow> blank_char c \<Longrightarrow> c = CHR '' ''"
proof -
  have "c \<in> set (collapse_from b s) \<Longrightarrow> blank_char c \<Longrightarrow> c = CHR '' ''" for b
    by (induction s arbitrary: b) (auto split: if_splits)
  then show "c \<in> set (collapse_blanks s) \<Longrightarrow> blank_char c \<Longrightarrow> c = CHR '' ''"
    by (simp add: collapse_blanks_def)
qed

definition isSafeExpansionLabel :: "string \<Rightarrow> bool" where
  "isSafeExpansionLabel raw \<longleftrightarrow> (let label = collapse_blanks (toLowerCase (trimmed raw))
     in 0 < length label \<and> length label \<le> 80 \<and> list_ex (\<lambda>c. contains_text c label) expansion_labels
      \<and> \<not> list_ex (\<lambda>c. contains_text c label) unsafe_action_labels)"

section \<open>Structured data\<close>

text \<open>\<open>value.split(/[\\/#]/u).filter(Boolean).at(-1)\<close>; \<open>cap\<close> is \<open>capText\<close>.\<close>

definition type_name :: "string \<Rightarrow> string" where
  "type_name candidate =
     (let parts = filter (\<lambda>p. p \<noteq> []) (concat (map (split_on (CHR ''#'')) (split_on (CHR ''/'') candidate)))
      in capText (if parts = [] then None else Some (last parts)) 255)"

text \<open>The types found so far; \<open>seen\<close> holds their lower-case forms.\<close>

definition max_schema_types :: nat where "max_schema_types = 100"

definition add_text_type :: "string \<Rightarrow> string list \<Rightarrow> string list" where
  "add_text_type candidate types =
     (if max_schema_types \<le> length types then types
      else (let v = type_name candidate
            in if v \<noteq> [] \<and> toLowerCase v \<notin> toLowerCase ` set types then types @ [v] else types))"

definition addType :: "json option \<Rightarrow> string list \<Rightarrow> string list" where
  "addType candidate types = (case candidate of Some (JStr s) \<Rightarrow> add_text_type s types | _ \<Rightarrow> types)"

definition own_types :: "json option \<Rightarrow> string list \<Rightarrow> string list" where
  "own_types type types = (case type of
     Some (JArr js) \<Rightarrow> fold (\<lambda>j. addType (Some j)) js types | _ \<Rightarrow> addType type types)"

text \<open>\<open>visit\<close>, depth first in the order of arrays and of \<open>Object.entries\<close>.\<close>

fun visit_json :: "json \<Rightarrow> string list \<Rightarrow> string list"
  and visit_list :: "json list \<Rightarrow> string list \<Rightarrow> string list"
  and visit_entries :: "(string \<times> json) list \<Rightarrow> string list \<Rightarrow> string list" where
  "visit_json (JArr js) types = visit_list js types"
| "visit_json (JObj es) types = visit_entries es (own_types (map_of es ''@type'') types)"
| "visit_json (JStr s) types = types"
| "visit_json (JInt i) types = types"
| "visit_json (JFraction t) types = types"
| "visit_json (JBool b) types = types"
| "visit_json JNull types = types"
| "visit_list [] types = types"
| "visit_list (j # js) types = visit_list js (visit_json j types)"
| "visit_entries [] types = types"
| "visit_entries ((k, j) # es) types = visit_entries es (if k = ''@type'' then types else visit_json j types)"

text \<open>The blocks: at most 20, until their texts exceed 1 MiB together; a block that is no JSON is passed over.\<close>

fun visit_blocks :: "(string \<Rightarrow> json option) \<Rightarrow> nat \<Rightarrow> string list \<Rightarrow> string list \<Rightarrow> string list" where
  "visit_blocks parse read [] types = types"
| "visit_blocks parse read (raw # blocks) types =
     (if 1048576 < read + length raw then types
      else visit_blocks parse (read + length raw) blocks (case parse raw of None \<Rightarrow> types | Some j \<Rightarrow> visit_json j types))"

text \<open>The attribute \<open>itemtype\<close>, split at blanks; empty pieces have no name.\<close>

definition item_types :: "string list \<Rightarrow> string list \<Rightarrow> string list" where
  "item_types attributes types =
     fold (\<lambda>a types. fold add_text_type (split_on (CHR '' '') (collapse_blanks a)) types) attributes types"

definition types_ok :: "string list \<Rightarrow> bool" where
  "types_ok types \<longleftrightarrow> length types \<le> max_schema_types \<and> distinct (map toLowerCase types)
     \<and> (\<forall>t \<in> set types. t \<noteq> [] \<and> length t \<le> 255)"

lemma type_name_length: "length (type_name s) \<le> 255"
  by (simp add: type_name_def capText_def Let_def)

lemma add_text_type_ok [intro]: "types_ok types \<Longrightarrow> types_ok (add_text_type s types)"
  using type_name_length [of s] by (auto simp: types_ok_def add_text_type_def Let_def)

lemma addType_ok [intro]: "types_ok types \<Longrightarrow> types_ok (addType c types)"
  by (auto simp: addType_def split: option.split json.split)

lemma fold_types_ok: "(\<And>x types. types_ok types \<Longrightarrow> types_ok (f x types)) \<Longrightarrow> types_ok types \<Longrightarrow> types_ok (fold f xs types)"
  by (induction xs arbitrary: types) auto

lemma own_types_ok [intro]: "types_ok types \<Longrightarrow> types_ok (own_types type types)"
  by (auto simp: own_types_def intro!: fold_types_ok split: option.split json.split)

lemma visit_ok:
  "types_ok types \<Longrightarrow> types_ok (visit_json j types)"
  "types_ok types \<Longrightarrow> types_ok (visit_list js types)"
  "types_ok types \<Longrightarrow> types_ok (visit_entries es types)"
  by (induction j types and js types and es types rule: visit_json_visit_list_visit_entries.induct) auto

lemma visit_blocks_ok: "types_ok types \<Longrightarrow> types_ok (visit_blocks parse read blocks types)"
  by (induction parse read blocks types rule: visit_blocks.induct) (auto simp: visit_ok(1) split: option.splits)

lemma item_types_ok: "types_ok types \<Longrightarrow> types_ok (item_types attributes types)"
  unfolding item_types_def by (intro fold_types_ok) (auto intro: fold_types_ok)

section \<open>Metadata\<close>

text \<open>What the selectors of \<open>extractRenderedMetadata\<close> find; a missing element is \<open>None\<close>.\<close>

record document_view =
  dv_title :: string
  dv_description :: "string option"
  dv_canonical :: "string option"
  dv_robots :: "string option"
  dv_h1 :: "string option list"
  dv_words :: nat
  dv_links :: nat
  dv_images :: nat
  dv_og_title :: "string option"
  dv_og_description :: "string option"
  dv_og_image :: "string option"
  dv_blocks :: "string list"
  dv_item_types :: "string list"

definition extractRenderedMetadata :: "(string \<Rightarrow> json option) \<Rightarrow> document_view \<Rightarrow> rendered_metadata" where
  "extractRenderedMetadata parse v =
    \<lparr> rm_title = capText (Some (dv_title v)) 2048, rm_description = capText (dv_description v) 4096,
      rm_canonical_url = capText (dv_canonical v) 8192, rm_meta_robots = capText (dv_robots v) 512,
      rm_h1 = filter (\<lambda>h. h \<noteq> []) (map (\<lambda>h. capText h 2048) (take 50 (dv_h1 v))),
      rm_word_count = dv_words v, rm_link_count = dv_links v, rm_image_count = dv_images v,
      rm_open_graph = \<lparr> og_title = capText (dv_og_title v) 2048, og_description = capText (dv_og_description v) 4096,
        og_image_url = capText (dv_og_image v) 8192 \<rparr>,
      rm_schema_org_types = item_types (dv_item_types v) (visit_blocks parse 0 (take 20 (dv_blocks v)) []) \<rparr>"

definition sanitizeRenderedMetadata :: "web \<Rightarrow> rendered_metadata \<Rightarrow> rendered_metadata" where
  "sanitizeRenderedMetadata W v = v\<lparr>
     rm_canonical_url := (if rm_canonical_url v = [] then [] else sanitizeUrl W (rm_canonical_url v)),
     rm_open_graph := (rm_open_graph v)\<lparr>og_image_url :=
       (if og_image_url (rm_open_graph v) = [] then [] else sanitizeUrl W (og_image_url (rm_open_graph v)))\<rparr>\<rparr>"

definition metadata_bounded :: "rendered_metadata \<Rightarrow> bool" where
  "metadata_bounded m \<longleftrightarrow> length (rm_title m) \<le> 2048 \<and> length (rm_description m) \<le> 4096
     \<and> length (rm_canonical_url m) \<le> 8192 \<and> length (rm_meta_robots m) \<le> 512
     \<and> length (rm_h1 m) \<le> 50 \<and> (\<forall>h \<in> set (rm_h1 m). h \<noteq> [] \<and> length h \<le> 2048)
     \<and> length (og_title (rm_open_graph m)) \<le> 2048 \<and> length (og_description (rm_open_graph m)) \<le> 4096
     \<and> length (og_image_url (rm_open_graph m)) \<le> 8192 \<and> types_ok (rm_schema_org_types m)"

lemma capText_length [simp]: "length (capText v n) \<le> n"
  by (simp add: capText_def)

lemma sanitizeUrl_length [simp]: "length (sanitizeUrl W raw) \<le> 8192"
  by (auto simp: sanitizeUrl_def split: option.split)

lemma extracted_bounded: "metadata_bounded (extractRenderedMetadata parse v)"
proof -
  have "length (filter P (map f (take 50 (xs :: string option list)))) \<le> 50" for P and f :: "string option \<Rightarrow> string" and xs
    by (rule order.trans [OF length_filter_le]) simp
  moreover have "types_ok (item_types is (visit_blocks parse 0 bs []))" for "is" bs
    by (intro item_types_ok visit_blocks_ok) (simp add: types_ok_def)
  ultimately show ?thesis by (auto simp: metadata_bounded_def extractRenderedMetadata_def)
qed

lemma sanitized_bounded: "metadata_bounded m \<Longrightarrow> metadata_bounded (sanitizeRenderedMetadata W m)"
  by (simp add: metadata_bounded_def sanitizeRenderedMetadata_def)

section \<open>Performance\<close>

record metric_state =
  mt_lcp :: "rat option"
  mt_cls :: rat
  mt_lcp_observed :: bool
  mt_cls_observed :: bool

record navigation_timing =
  nv_request_start :: rat
  nv_response_start :: rat

definition measured :: "string \<Rightarrow> rat option \<Rightarrow> measurement_unit \<Rightarrow> string \<Rightarrow> measurement" where
  "measured profile v unit reason =
    \<lparr> me_status = (if v = None then UNAVAILABLE else AVAILABLE), me_value = v, me_unit = unit,
      me_profile_version = profile, me_unavailable_reason = (if v = None then Some reason else None) \<rparr>"

definition performanceSummary :: "string \<Rightarrow> metric_state \<Rightarrow> navigation_timing option \<Rightarrow> performance_summary" where
  "performanceSummary profile m navigation =
     (let ttfb = (case navigation of None \<Rightarrow> None
            | Some n \<Rightarrow> if nv_request_start n \<le> nv_response_start n then Some (nv_response_start n - nv_request_start n) else None)
      in \<lparr> pf_lcp = measured profile (if mt_lcp_observed m then mt_lcp m else None) MS ''NO_LCP_ENTRY'',
           pf_cls = measured profile (if mt_cls_observed m then Some (mt_cls m) else None) SCORE ''NO_LAYOUT_SHIFT_ENTRY'',
           pf_ttfb = measured profile ttfb MS ''NO_NAVIGATION_TIMING'' \<rparr>)"

definition measurement_ok :: "measurement \<Rightarrow> bool" where
  "measurement_ok m \<longleftrightarrow> (me_status m = AVAILABLE \<longleftrightarrow> me_value m \<noteq> None) \<and> (me_value m = None \<longleftrightarrow> me_unavailable_reason m \<noteq> None)"

lemma performance_ok:
  "measurement_ok (pf_lcp (performanceSummary p m n))" "measurement_ok (pf_cls (performanceSummary p m n))"
  "measurement_ok (pf_ttfb (performanceSummary p m n))" "all_opt ((\<le>) 0) (me_value (pf_ttfb (performanceSummary p m n)))"
  by (auto simp: performanceSummary_def measured_def measurement_ok_def all_opt_def split: option.split)

section \<open>The difference to the static page\<close>

definition normalized_types :: "string list \<Rightarrow> string" where
  "normalized_types values = join_with (CHR 0x0A) (sort (map toLowerCase values))"

definition page_diff :: "static_observation \<Rightarrow> rendered_metadata \<Rightarrow> string \<Rightarrow> diff_summary" where
  "page_diff s r observed =
     (let titleChanged = coalesce (so_title s) [] \<noteq> rm_title r;
          descriptionChanged = coalesce (so_description s) [] \<noteq> rm_description r;
          h1Changed = coalesce (so_h1 s) [] \<noteq> (case rm_h1 r of [] \<Rightarrow> [] | h # _ \<Rightarrow> h);
          links = int (rm_link_count r) - so_links s;
          images = int (rm_image_count r) - so_images s
      in \<lparr> df_static_observed_at = so_observed_at s, df_rendered_observed_at = observed, df_title_changed = titleChanged,
           df_description_changed = descriptionChanged,
           df_canonical_changed = (coalesce (so_canonical_url s) [] \<noteq> rm_canonical_url r), df_h1_changed = h1Changed,
           df_content_changed = (titleChanged \<or> descriptionChanged \<or> h1Changed \<or> links \<noteq> 0 \<or> images \<noteq> 0),
           df_link_count_delta = links, df_image_count_delta = images,
           df_schema_types_changed = (normalized_types (so_schema_org_types s) \<noteq> normalized_types (rm_schema_org_types r)) \<rparr>)"

text \<open>
  The order and the case of the types do not matter; an observation that agrees with the rendered page has no
  difference observed all, and the content counts as changed exactly when one of its parts is.
\<close>

lemma normalized_types_mset: "image_mset toLowerCase (mset xs) = image_mset toLowerCase (mset ys) \<Longrightarrow> normalized_types xs = normalized_types ys"
  unfolding normalized_types_def
  by (metis mset_map properties_for_sort sorted_sort mset_sort)

lemma diff_unchanged:
  assumes "coalesce (so_title s) [] = rm_title r" "coalesce (so_description s) [] = rm_description r"
    "coalesce (so_canonical_url s) [] = rm_canonical_url r" "coalesce (so_h1 s) [] = (case rm_h1 r of [] \<Rightarrow> [] | h # _ \<Rightarrow> h)"
    "so_links s = int (rm_link_count r)" "so_images s = int (rm_image_count r)"
    "image_mset toLowerCase (mset (so_schema_org_types s)) = image_mset toLowerCase (mset (rm_schema_org_types r))"
  shows "\<not> df_content_changed (page_diff s r observed)" "\<not> df_canonical_changed (page_diff s r observed)"
    "\<not> df_schema_types_changed (page_diff s r observed)"
  using assms normalized_types_mset [OF assms(7)] by (simp_all add: page_diff_def Let_def split: list.splits)

lemma diff_content:
  "df_content_changed (page_diff s r observed) \<longleftrightarrow> df_title_changed (page_diff s r observed) \<or> df_description_changed (page_diff s r observed)
     \<or> df_h1_changed (page_diff s r observed) \<or> df_link_count_delta (page_diff s r observed) \<noteq> 0 \<or> df_image_count_delta (page_diff s r observed) \<noteq> 0"
  by (simp add: page_diff_def Let_def)

end
