(* ===== verification/Capture_Browser.thy ===== *)
theory Capture_Browser
  imports Rendered_Pages Clone_Properties Safe_Proxy "HOL-Library.AList"
begin

text \<open>
  A capture as the worker sees it (\<open>capturePage\<close> in \<open>capture-worker/src/capture.ts\<close>): the requests and responses
  the browser reports, with their budgets, as a transition system; the bodies read afterwards under a byte
  budget and deadlines; and the result put together from them. What Playwright returns, and when, is a
  parameter; an object of Playwright is known by its number.
\<close>

section \<open>Requests and responses\<close>

record page_request =
  wr_id :: nat
  wr_url :: string
  wr_method :: string
  wr_type :: string

record page_response =
  wp_request :: page_request
  wp_url :: string
  wp_status :: nat
  wp_length :: "string option"
  wp_type :: "string option"

text \<open>\<open>ResponseCandidate\<close>; \<open>cd_failed\<close> says that its promise \<open>failed\<close> is resolved.\<close>

record candidate =
  cd_sequence :: nat
  cd_source_url :: string
  cd_public_url :: string
  cd_type :: string
  cd_mime :: string
  cd_capture :: bool
  cd_skip :: "string option"
  cd_failed :: bool

text \<open>
  The variables of \<open>capturePage\<close>. \<open>requestStarted\<close> is a map in insertion order to the start and the sequence
  number; \<open>candidatesByRequest\<close> shares its objects with \<open>candidates\<close>, so it maps to positions there.
\<close>

record tracking =
  tk_started :: "(page_request \<times> nat \<times> nat) list"
  tk_network :: "network_record list"
  tk_candidates :: "candidate list"
  tk_by_request :: "(page_request \<times> nat) list"
  tk_failed :: "clone_input list"
  tk_pending :: "page_request list"
  tk_last :: nat
  tk_bodies :: nat
  tk_sequence :: nat
  tk_transfer :: nat
  tk_admitted :: nat
  tk_over :: bool

definition no_traffic :: "nat \<Rightarrow> tracking" where
  "no_traffic clk = \<lparr> tk_started = [], tk_network = [], tk_candidates = [], tk_by_request = [], tk_failed = [],
     tk_pending = [], tk_last = clk, tk_bodies = 0, tk_sequence = 0, tk_transfer = 0, tk_admitted = 0, tk_over = False \<rparr>"

record traffic_env =
  te_web :: web
  te_numbers :: js_text
  te_lookup :: resolver

definition body_resource_types :: "string list" where
  "body_resource_types = [''stylesheet'', ''script'', ''image'', ''font'']"

text \<open>The handler of \<open>page.route\<close>: whether the request is continued.\<close>

definition route_request :: "traffic_env \<Rightarrow> capture_payload \<Rightarrow> string \<Rightarrow> tracking \<Rightarrow> bool \<times> tracking" where
  "route_request E c target st =
     (let st1 = st\<lparr>tk_admitted := tk_admitted st + 1\<rparr>
      in if pl_max_network_requests c < tk_admitted st1 then (False, st1\<lparr>tk_over := True\<rparr>)
         else (starts_with ''data:'' target \<or> starts_with ''blob:'' target
               \<or> (case assertPublicHttpUrl (te_web E) (te_lookup E) target of Inl _ \<Rightarrow> False | Inr _ \<Rightarrow> True), st1))"

definition request_seen :: "capture_payload \<Rightarrow> nat \<Rightarrow> page_request \<Rightarrow> tracking \<Rightarrow> tracking" where
  "request_seen c clk r st =
     (if pl_max_network_requests c \<le> length (tk_started st) then st
      else st\<lparr>tk_pending := List.insert r (tk_pending st), tk_last := clk,
        tk_started := AList.update r (clk, tk_sequence st) (tk_started st), tk_sequence := tk_sequence st + 1\<rparr>)"

definition finishRequest :: "nat \<Rightarrow> page_request \<Rightarrow> tracking \<Rightarrow> tracking" where
  "finishRequest clk r st =
     (if r \<notin> set (tk_pending st) then st else st\<lparr>tk_pending := removeAll r (tk_pending st), tk_last := clk\<rparr>)"

definition network_entry :: "traffic_env \<Rightarrow> string \<Rightarrow> nat \<Rightarrow> nat \<Rightarrow> page_response \<Rightarrow> network_record" where
  "network_entry E ident sq millis p =
    \<lparr> nw_request_id = ident, nw_sequence = sq, nw_url = sanitizeUrl (te_web E) (wp_url p),
      nw_method = capText (Some (wr_method (wp_request p))) 16, nw_resource_type = capText (Some (wr_type (wp_request p))) 32,
      nw_status_code = wp_status p, nw_mime_type = capText (Some (takeWhile (\<lambda>c. c \<noteq> CHR '';'') (coalesce (wp_type p) []))) 255,
      nw_response_bytes = boundedNumber (te_numbers E) (wp_length p), nw_duration_ms = of_nat millis, nw_failure_code = [] \<rparr>"

definition skip_reason_of :: "nat \<Rightarrow> string \<Rightarrow> string \<Rightarrow> string option" where
  "skip_reason_of status type mime = (if 400 \<le> status then Some ''HTTP_FAILURE''
     else if isUnexpectedDocumentMime type mime then Some ''UNEXPECTED_DOCUMENT_BODY'' else None)"

definition candidate_of :: "traffic_env \<Rightarrow> capture_payload \<Rightarrow> network_record \<Rightarrow> page_response \<Rightarrow> tracking \<Rightarrow> candidate" where
  "candidate_of E c n p st =
     (let skip = skip_reason_of (wp_status p) (nw_resource_type n) (nw_mime_type n)
      in \<lparr> cd_sequence = nw_sequence n, cd_source_url = wp_url p, cd_public_url = sanitizeUrl (te_web E) (wp_url p),
           cd_type = nw_resource_type n, cd_mime = nw_mime_type n,
           cd_capture = (skip = None \<and> tk_bodies st < pl_max_resource_bodies c), cd_skip = skip, cd_failed = False \<rparr>)"

definition add_candidate :: "page_request \<Rightarrow> candidate \<Rightarrow> tracking \<Rightarrow> tracking" where
  "add_candidate r x st = st\<lparr>tk_bodies := (if cd_capture x then tk_bodies st + 1 else tk_bodies st),
     tk_by_request := AList.update r (length (tk_candidates st)) (tk_by_request st), tk_candidates := tk_candidates st @ [x]\<rparr>"

definition response_seen :: "traffic_env \<Rightarrow> capture_payload \<Rightarrow> nat \<Rightarrow> string \<Rightarrow> page_response \<Rightarrow> tracking \<Rightarrow> tracking" where
  "response_seen E c clk ident p st =
     (case map_of (tk_started st) (wp_request p) of
        None \<Rightarrow> st
      | Some (start, sq) \<Rightarrow>
          if pl_max_network_requests c \<le> length (tk_network st) then st
          else
            (let n = network_entry E ident sq (clk - start) p;
                 st1 = st\<lparr>tk_transfer := tk_transfer st + nw_response_bytes n, tk_network := tk_network st @ [n]\<rparr>
             in if nw_resource_type n \<in> set body_resource_types \<and> length (tk_candidates st) < pl_max_network_requests c
                then add_candidate (wp_request p) (candidate_of E c n p st) st1 else st1))"

fun update_first :: "('a \<Rightarrow> bool) \<Rightarrow> ('a \<Rightarrow> 'a) \<Rightarrow> 'a list \<Rightarrow> 'a list" where
  "update_first P f [] = []"
| "update_first P f (x # xs) = (if P x then f x # xs else x # update_first P f xs)"

definition fail_candidate :: "candidate \<Rightarrow> candidate" where
  "fail_candidate x = x\<lparr>cd_skip := Some ''REQUEST_FAILED'', cd_failed := True\<rparr>"

definition failed_entry :: "traffic_env \<Rightarrow> string \<Rightarrow> nat \<Rightarrow> nat \<Rightarrow> string \<Rightarrow> page_request \<Rightarrow> network_record" where
  "failed_entry E ident sq millis code r =
    \<lparr> nw_request_id = ident, nw_sequence = sq, nw_url = sanitizeUrl (te_web E) (wr_url r),
      nw_method = capText (Some (wr_method r)) 16, nw_resource_type = capText (Some (wr_type r)) 32, nw_status_code = 0,
      nw_mime_type = [], nw_response_bytes = 0, nw_duration_ms = of_nat millis, nw_failure_code = code \<rparr>"

definition missing_input :: "web \<Rightarrow> nat \<Rightarrow> string \<Rightarrow> string \<Rightarrow> page_request \<Rightarrow> clone_input" where
  "missing_input W sq type reason r =
    \<lparr> ci_sequence = sq, ci_source_url = wr_url r, ci_public_url = sanitizeUrl W (wr_url r), ci_resource_type = type,
      ci_mime_type = [], ci_body = None, ci_was_truncated = False, ci_skip_reason = Some reason \<rparr>"

text \<open>The record of a request that failed: the first with its number is changed, else one is added.\<close>

definition record_failure :: "traffic_env \<Rightarrow> capture_payload \<Rightarrow> string \<Rightarrow> nat \<Rightarrow> nat \<Rightarrow> string \<Rightarrow> page_request \<Rightarrow> tracking \<Rightarrow> tracking" where
  "record_failure E c ident sq millis code r st =
     (if list_ex (\<lambda>n. nw_sequence n = sq) (tk_network st)
      then st\<lparr>tk_network := update_first (\<lambda>n. nw_sequence n = sq)
             (\<lambda>n. n\<lparr>nw_failure_code := code, nw_duration_ms := of_nat millis\<rparr>) (tk_network st)\<rparr>
      else if length (tk_network st) < pl_max_network_requests c
      then st\<lparr>tk_network := tk_network st @ [failed_entry E ident sq millis code r]\<rparr> else st)"

definition request_failed :: "traffic_env \<Rightarrow> capture_payload \<Rightarrow> nat \<Rightarrow> string \<Rightarrow> string option \<Rightarrow> page_request \<Rightarrow> tracking \<Rightarrow> tracking" where
  "request_failed E c clk ident text r st =
     (let st0 = finishRequest clk r st
      in case map_of (tk_started st0) r of
           None \<Rightarrow> st0
         | Some (start, sq) \<Rightarrow>
             (let place = map_of (tk_by_request st0) r;
                  st1 = (case place of None \<Rightarrow> st0
                    | Some i \<Rightarrow> st0\<lparr>tk_candidates := (tk_candidates st0)[i := fail_candidate (tk_candidates st0 ! i)]\<rparr>);
                  st2 = record_failure E c ident sq (clk - start) (capText (Some (coalesce text ''REQUEST_FAILED'')) 64) r st1;
                  type = capText (Some (wr_type r)) 32
              in if place = None \<and> type \<in> set body_resource_types \<and> length (tk_failed st2) < pl_max_network_requests c
                 then st2\<lparr>tk_failed := tk_failed st2 @ [missing_input (te_web E) sq type ''REQUEST_FAILED'' r]\<rparr> else st2))"

section \<open>The budgets of the traffic\<close>

text \<open>Whatever events the browser reports, in any order and any number.\<close>

inductive traffic_step :: "traffic_env \<Rightarrow> capture_payload \<Rightarrow> tracking \<Rightarrow> tracking \<Rightarrow> bool" for E c where
  route: "traffic_step E c st (snd (route_request E c target st))"
| request: "traffic_step E c st (request_seen c clk r st)"
| finished: "traffic_step E c st (finishRequest clk r st)"
| response: "traffic_step E c st (response_seen E c clk ident p st)"
| failed: "traffic_step E c st (request_failed E c clk ident text r st)"

definition candidate_ok :: "nat \<Rightarrow> candidate \<Rightarrow> bool" where
  "candidate_ok bound x \<longleftrightarrow> cd_sequence x < bound \<and> (cd_capture x \<and> \<not> cd_failed x \<longrightarrow> cd_skip x = None)
     \<and> (cd_failed x \<longrightarrow> cd_skip x = Some ''REQUEST_FAILED'') \<and> cd_type x \<in> set body_resource_types"

definition network_ok :: "nat \<Rightarrow> network_record \<Rightarrow> bool" where
  "network_ok bound n \<longleftrightarrow> nw_sequence n < bound \<and> length (nw_url n) \<le> 8192 \<and> length (nw_method n) \<le> 16
     \<and> length (nw_resource_type n) \<le> 32 \<and> length (nw_mime_type n) \<le> 255 \<and> length (nw_failure_code n) \<le> 64
     \<and> nw_response_bytes n \<le> max_counted_bytes \<and> 0 \<le> nw_duration_ms n"

definition traffic_ok :: "capture_payload \<Rightarrow> tracking \<Rightarrow> bool" where
  "traffic_ok c st \<longleftrightarrow>
     length (tk_started st) \<le> pl_max_network_requests c \<and> length (tk_network st) \<le> pl_max_network_requests c
   \<and> length (tk_candidates st) \<le> pl_max_network_requests c \<and> length (tk_failed st) \<le> pl_max_network_requests c
   \<and> tk_bodies st = count_where cd_capture (tk_candidates st) \<and> tk_bodies st \<le> pl_max_resource_bodies c
   \<and> distinct (map (snd \<circ> snd) (tk_started st)) \<and> (\<forall>x \<in> set (tk_started st). snd (snd x) < tk_sequence st)
   \<and> list_all (network_ok (tk_sequence st)) (tk_network st) \<and> list_all (candidate_ok (tk_sequence st)) (tk_candidates st)
   \<and> list_all (\<lambda>i. ci_sequence i < tk_sequence st \<and> ci_body i = None) (tk_failed st)
   \<and> (\<forall>x \<in> set (tk_by_request st). snd x < length (tk_candidates st))
   \<and> set (tk_pending st) \<subseteq> fst ` set (tk_started st)
   \<and> tk_transfer st = sum_list (map nw_response_bytes (tk_network st))"

lemma network_ok_mono: "network_ok m n \<Longrightarrow> m \<le> m' \<Longrightarrow> network_ok m' n"
  by (auto simp: network_ok_def)

lemma candidate_ok_mono: "candidate_ok m x \<Longrightarrow> m \<le> m' \<Longrightarrow> candidate_ok m' x"
  by (auto simp: candidate_ok_def)

lemma length_update_first [simp]: "length (update_first P f xs) = length xs"
  by (induction xs) auto

lemma update_first_all: "list_all Q xs \<Longrightarrow> (\<And>x. Q x \<Longrightarrow> Q (f x)) \<Longrightarrow> list_all Q (update_first P f xs)"
  by (induction xs) auto

lemma update_first_map: "(\<And>x. g (f x) = g x) \<Longrightarrow> map g (update_first P f xs) = map g xs"
  by (induction xs) auto

lemma alist_update_in: "x \<in> set (AList.update k v al) \<Longrightarrow> x = (k, v) \<or> x \<in> set al"
  by (induction al) (auto split: if_splits)

lemma alist_update_length: "length (AList.update k v al) \<le> Suc (length al)"
  by (induction al) auto

lemma alist_update_keys: "fst ` set (AList.update k v al) = insert k (fst ` set al)"
  by (induction al) auto

lemma alist_update_fresh:
  fixes n :: nat
  shows "distinct (map (snd \<circ> snd) al) \<Longrightarrow> (\<forall>x \<in> set al. snd (snd x) < n) \<Longrightarrow> distinct (map (snd \<circ> snd) (AList.update k (t, n) al))"
proof (induction al)
  case (Cons x al)
  have "snd (snd x) \<notin> (snd \<circ> snd) ` set (AList.update k (t, n) al)"
    using Cons.prems by (auto dest!: alist_update_in)
  then show ?case using Cons by (auto simp: image_iff)
qed simp

lemma capped [simp]: "length (takeWhile P (s :: string)) \<le> length s"
  by (rule length_takeWhile_le)

lemma entry_ok: "sq < m \<Longrightarrow> network_ok m (network_entry E ident sq millis p)"
  by (simp add: network_ok_def network_entry_def boundedNumber_le)

lemma failed_entry_ok: "sq < m \<Longrightarrow> length code \<le> 64 \<Longrightarrow> network_ok m (failed_entry E ident sq millis code r)"
  by (simp add: network_ok_def failed_entry_def)

lemma started_bound: "traffic_ok c st \<Longrightarrow> map_of (tk_started st) r = Some (start, sq) \<Longrightarrow> sq < tk_sequence st"
  by (auto simp: traffic_ok_def dest!: map_of_SomeD)

lemma no_traffic_ok: "traffic_ok c (no_traffic clk)"
  by (simp add: traffic_ok_def no_traffic_def count_where_def)

lemma route_request_ok: "traffic_ok c st \<Longrightarrow> traffic_ok c (snd (route_request E c target st))"
  by (simp add: route_request_def Let_def traffic_ok_def)

lemma request_seen_ok:
  assumes "traffic_ok c st"
  shows "traffic_ok c (request_seen c clk r st)"
proof (cases "pl_max_network_requests c \<le> length (tk_started st)")
  case False
  let ?al = "AList.update r (clk, tk_sequence st) (tk_started st)"
  have "length ?al \<le> pl_max_network_requests c"
    using False alist_update_length [of r "(clk, tk_sequence st)" "tk_started st"] by simp
  moreover have "distinct (map (snd \<circ> snd) ?al)"
    using assms by (intro alist_update_fresh) (auto simp: traffic_ok_def)
  moreover have "\<forall>x \<in> set ?al. snd (snd x) < Suc (tk_sequence st)"
    using assms by (auto simp: traffic_ok_def less_Suc_eq dest!: alist_update_in)
  moreover have "list_all (network_ok (Suc (tk_sequence st))) (tk_network st)" "list_all (candidate_ok (Suc (tk_sequence st))) (tk_candidates st)"
    using assms by (auto simp: traffic_ok_def list_all_iff intro: network_ok_mono candidate_ok_mono)
  moreover have "list_all (\<lambda>i. ci_sequence i < Suc (tk_sequence st) \<and> ci_body i = None) (tk_failed st)"
    using assms by (auto simp: traffic_ok_def list_all_iff)
  ultimately show ?thesis
    using False assms by (auto simp: request_seen_def traffic_ok_def alist_update_keys)
qed (use assms in \<open>simp add: request_seen_def\<close>)

lemma finishRequest_ok: "traffic_ok c st \<Longrightarrow> traffic_ok c (finishRequest clk r st)"
  by (auto simp: finishRequest_def traffic_ok_def)

lemma add_candidate_ok:
  assumes "traffic_ok c st" "candidate_ok (tk_sequence st) x" "length (tk_candidates st) < pl_max_network_requests c"
    "cd_capture x \<Longrightarrow> tk_bodies st < pl_max_resource_bodies c"
  shows "traffic_ok c (add_candidate r x st)"
  using assms by (auto simp: traffic_ok_def add_candidate_def count_where_def dest!: alist_update_in)

lemma response_seen_ok:
  assumes "traffic_ok c st"
  shows "traffic_ok c (response_seen E c clk ident p st)"
proof (cases "map_of (tk_started st) (wp_request p)")
  case (Some t)
  obtain start sq where t: "t = (start, sq)" by fastforce
  let ?n = "network_entry E ident sq (clk - start) p"
  let ?st1 = "st\<lparr>tk_transfer := tk_transfer st + nw_response_bytes ?n, tk_network := tk_network st @ [?n]\<rparr>"
  have sq: "sq < tk_sequence st" using started_bound [OF assms] Some t by simp
  show ?thesis
  proof (cases "pl_max_network_requests c \<le> length (tk_network st)")
    case False
    have ok: "traffic_ok c ?st1" using assms sq False by (auto simp: traffic_ok_def entry_ok)
    have "candidate_ok (tk_sequence st) (candidate_of E c ?n p st)" if "nw_resource_type ?n \<in> set body_resource_types"
      using sq that by (simp add: candidate_ok_def candidate_of_def Let_def network_entry_def)
    then show ?thesis using Some t False ok
      by (auto simp: response_seen_def Let_def candidate_of_def intro!: add_candidate_ok)
  qed (use assms Some t in \<open>simp add: response_seen_def\<close>)
qed (use assms in \<open>simp add: response_seen_def\<close>)

lemma record_failure_ok:
  assumes "traffic_ok c st" "sq < tk_sequence st" "length code \<le> 64"
  shows "traffic_ok c (record_failure E c ident sq millis code r st)"
proof -
  let ?f = "\<lambda>n. n\<lparr>nw_failure_code := code, nw_duration_ms := of_nat millis\<rparr>"
  have "list_all (network_ok (tk_sequence st)) (update_first P ?f (tk_network st))" for P
    using assms by (intro update_first_all) (auto simp: traffic_ok_def network_ok_def)
  moreover have "map nw_response_bytes (update_first P ?f (tk_network st)) = map nw_response_bytes (tk_network st)" for P
    by (rule update_first_map) simp
  moreover have "nw_response_bytes (failed_entry E ident sq millis code r) = 0" by (simp add: failed_entry_def)
  ultimately show ?thesis using assms by (auto simp: record_failure_def traffic_ok_def failed_entry_ok)
qed

lemma fail_candidate_ok: "candidate_ok m x \<Longrightarrow> candidate_ok m (fail_candidate x)"
  by (simp add: candidate_ok_def fail_candidate_def)

lemma count_where_map: "count_where f xs = length (filter id (map f xs))"
  by (simp add: count_where_def filter_map o_def id_def)

lemma fail_at_ok:
  assumes "traffic_ok c st" "i < length (tk_candidates st)"
  shows "traffic_ok c (st\<lparr>tk_candidates := (tk_candidates st)[i := fail_candidate (tk_candidates st ! i)]\<rparr>)"
proof -
  let ?xs = "(tk_candidates st)[i := fail_candidate (tk_candidates st ! i)]"
  have "map cd_capture ?xs = map cd_capture (tk_candidates st)"
    using assms(2) by (intro nth_equalityI) (auto simp: nth_list_update fail_candidate_def)
  then have "count_where cd_capture ?xs = count_where cd_capture (tk_candidates st)"
    by (simp only: count_where_map)
  moreover have "list_all (candidate_ok (tk_sequence st)) ?xs"
    using assms fail_candidate_ok by (auto simp: traffic_ok_def list_all_length nth_list_update)
  ultimately show ?thesis using assms by (auto simp: traffic_ok_def)
qed

lemma failed_input_ok:
  assumes "traffic_ok c st" "sq < tk_sequence st" "length (tk_failed st) < pl_max_network_requests c"
  shows "traffic_ok c (st\<lparr>tk_failed := tk_failed st @ [missing_input W sq type reason r]\<rparr>)"
  using assms by (auto simp: traffic_ok_def missing_input_def)

lemma request_failed_ok:
  assumes "traffic_ok c st"
  shows "traffic_ok c (request_failed E c clk ident text r st)"
proof -
  let ?st0 = "finishRequest clk r st"
  have ok0: "traffic_ok c ?st0" by (rule finishRequest_ok [OF assms])
  show ?thesis
  proof (cases "map_of (tk_started ?st0) r")
    case None
    then show ?thesis using ok0 by (simp add: request_failed_def)
  next
    case (Some t)
    obtain start sq where t: "t = (start, sq)" by fastforce
    have sq: "sq < tk_sequence ?st0" using started_bound [OF ok0] Some t by simp
    let ?place = "map_of (tk_by_request ?st0) r"
    define st1 where "st1 = (case ?place of None \<Rightarrow> ?st0
      | Some i \<Rightarrow> ?st0\<lparr>tk_candidates := (tk_candidates ?st0)[i := fail_candidate (tk_candidates ?st0 ! i)]\<rparr>)"
    define st2 where "st2 = record_failure E c ident sq (clk - start) (capText (Some (coalesce text ''REQUEST_FAILED'')) 64) r st1"
    have "i < length (tk_candidates ?st0)" if "?place = Some i" for i
      using ok0 that by (auto simp: traffic_ok_def dest!: map_of_SomeD)
    then have ok1: "traffic_ok c st1" "tk_sequence st1 = tk_sequence ?st0"
      using ok0 by (auto simp: st1_def fail_at_ok split: option.split)
    then have ok2: "traffic_ok c st2" "tk_sequence st2 = tk_sequence ?st0"
      using sq by (auto simp: st2_def record_failure_ok) (simp add: record_failure_def)
    have result: "request_failed E c clk ident text r st = (if ?place = None \<and> capText (Some (wr_type r)) 32 \<in> set body_resource_types
          \<and> length (tk_failed st2) < pl_max_network_requests c
        then st2\<lparr>tk_failed := tk_failed st2 @ [missing_input (te_web E) sq (capText (Some (wr_type r)) 32) ''REQUEST_FAILED'' r]\<rparr> else st2)"
      unfolding request_failed_def Let_def Some t st2_def st1_def by simp
    from sq ok2(2) have "sq < tk_sequence st2" by simp
    then show ?thesis unfolding result
      by (intro if_split [where P = "traffic_ok c", THEN iffD2]) (blast intro: ok2(1) failed_input_ok)
  qed
qed

text \<open>\<open>traffic_ok\<close> is an invariant of the events.\<close>

lemma traffic_step_ok: "traffic_step E c st st' \<Longrightarrow> traffic_ok c st \<Longrightarrow> traffic_ok c st'"
  by (induction rule: traffic_step.induct)
    (simp_all add: route_request_ok request_seen_ok finishRequest_ok response_seen_ok request_failed_ok)

lemma traffic_runs_ok: "(traffic_step E c)\<^sup>*\<^sup>* (no_traffic clk) st \<Longrightarrow> traffic_ok c st"
  by (induction rule: rtranclp_induct) (auto intro: no_traffic_ok traffic_step_ok)

text \<open>
  As long as the request budget is kept, a continued request leads to a public address or carries its data;
  and once it is exceeded, it stays exceeded.
\<close>

lemma route_request_public:
  assumes "route_request E c target st = (True, st')"
  shows "starts_with ''data:'' target \<or> starts_with ''blob:'' target
     \<or> (\<exists>u. assertPublicHttpUrl (te_web E) (te_lookup E) target = Inr u)" "tk_admitted st' \<le> pl_max_network_requests c"
  using assms by (auto simp: route_request_def Let_def split: if_splits sum.splits)

lemma over_kept: "traffic_step E c st st' \<Longrightarrow> tk_over st \<Longrightarrow> tk_over st'"
  by (induction rule: traffic_step.induct)
    (auto simp: route_request_def Let_def request_seen_def finishRequest_def response_seen_def add_candidate_def request_failed_def
       record_failure_def split: option.split)

end
