(* ===== verification/Page_Capture.thy ===== *)
theory Page_Capture
  imports Capture_Browser
begin

text \<open>
  The second half of \<open>capturePage\<close> (\<open>capture-worker/src/capture.ts\<close>): the bodies of the candidates are read one
  by one under deadlines and a byte budget, requests without a body leave a gap, the document is packaged, and
  the result is put together if every budget was kept.
\<close>

section \<open>Deadlines\<close>

definition remainingMillis :: "nat \<Rightarrow> nat \<Rightarrow> nat" where
  "remainingMillis deadline clk = deadline - clk"

definition operationTimeoutMillis :: "nat \<Rightarrow> nat \<Rightarrow> nat" where
  "operationTimeoutMillis deadline clk = max 1 (remainingMillis deadline clk)"

text \<open>What an exception carries: the message of an \<open>Error\<close>, or nothing.\<close>

type_synonym thrown_text = "string option"

text \<open>\<open>race\<close> is who came first: the operation, its failure or the timer.\<close>

definition withinDeadline :: "nat \<Rightarrow> nat \<Rightarrow> thrown_text + 'a \<Rightarrow> thrown_text + 'a" where
  "withinDeadline deadline clk race = (if remainingMillis deadline clk = 0 then Inl (Some ''CAPTURE_TIMEOUT'') else race)"

datatype 'a resource_wait = WAIT_DONE 'a | WAIT_FAILED | WAIT_TIMEOUT | WAIT_THROWN

definition waitForResource :: "nat \<Rightarrow> nat \<Rightarrow> 'a resource_wait \<Rightarrow> 'a resource_wait" where
  "waitForResource deadline clk race = (if remainingMillis deadline clk = 0 then WAIT_TIMEOUT else race)"

definition resourceWaitReason :: "'a resource_wait \<Rightarrow> string option \<Rightarrow> string" where
  "resourceWaitReason w skip = (case w of WAIT_FAILED \<Rightarrow> coalesce skip ''REQUEST_FAILED'' | _ \<Rightarrow> ''RESOURCE_TIMEOUT'')"

section \<open>Bodies\<close>

definition cloneInput :: "candidate \<Rightarrow> string option \<Rightarrow> bool \<Rightarrow> string option \<Rightarrow> clone_input" where
  "cloneInput x body truncated reason =
    \<lparr> ci_sequence = cd_sequence x, ci_source_url = cd_source_url x, ci_public_url = cd_public_url x,
      ci_resource_type = cd_type x, ci_mime_type = cd_mime x, ci_body = body, ci_was_truncated = truncated,
      ci_skip_reason = reason \<rparr>"

text \<open>
  What the reading of one candidate meets: whether its request failed before its turn, the clock, whether
  \<open>finished()\<close> ended with an error, the body, and the skip reason after a wait.
\<close>

record resource_fetch =
  rx_late :: bool
  rx_clock :: nat
  rx_finished_clock :: nat
  rx_finished :: "bool resource_wait"
  rx_body_clock :: nat
  rx_body :: "string resource_wait"
  rx_skip :: "string option"
  rx_id :: uuid

definition resource_body_timeout :: nat where "resource_body_timeout = 5000"
definition reconstruction_reserve :: nat where "reconstruction_reserve = 5000"

definition at_turn :: "candidate \<Rightarrow> resource_fetch \<Rightarrow> candidate" where
  "at_turn x f = (if rx_late f then fail_candidate x else x)"

definition fetched_body :: "nat \<Rightarrow> resource_fetch \<Rightarrow> string + string" where
  "fetched_body deadline f =
     (let limit = min deadline (rx_clock f + resource_body_timeout);
          finished = waitForResource limit (rx_finished_clock f) (rx_finished f);
          body = waitForResource limit (rx_body_clock f) (rx_body f)
      in case finished of
           WAIT_DONE failed \<Rightarrow>
             if failed then Inl ''BODY_UNAVAILABLE''
             else (case body of
                 WAIT_DONE raw \<Rightarrow> if raw = [] then Inl ''EMPTY_BODY'' else Inr raw
               | WAIT_THROWN \<Rightarrow> Inl ''BODY_UNAVAILABLE''
               | _ \<Rightarrow> Inl (resourceWaitReason body (rx_skip f)))
         | WAIT_THROWN \<Rightarrow> Inl ''BODY_UNAVAILABLE''
         | _ \<Rightarrow> Inl (resourceWaitReason finished (rx_skip f)))"

definition admitted_body :: "nat \<Rightarrow> nat \<Rightarrow> candidate \<Rightarrow> resource_fetch \<Rightarrow> string + string" where
  "admitted_body deadline remaining x f =
     (if truthy (cd_skip x) then Inl (the (cd_skip x))
      else if \<not> cd_capture x then Inl ''RESOURCE_BODY_COUNT_LIMIT''
      else if remaining \<le> 0 then Inl ''CAPTURE_BYTE_BUDGET_EXCEEDED''
      else fetched_body deadline f)"

fun collect_bodies :: "nat \<Rightarrow> nat \<Rightarrow> nat \<Rightarrow> (candidate \<times> resource_fetch) list \<Rightarrow> resource_body list \<times> clone_input list" where
  "collect_bodies maxBytes deadline remaining [] = ([], [])"
| "collect_bodies maxBytes deadline remaining ((x, f) # xs) =
     (case admitted_body deadline remaining x f of
        Inl reason \<Rightarrow> (let (bodies, inputs) = collect_bodies maxBytes deadline remaining xs
          in (bodies, cloneInput x None False (Some reason) # inputs))
      | Inr raw \<Rightarrow>
          (let body = take (min maxBytes remaining) raw;
               truncated = length body < length raw;
               (bodies, inputs) = collect_bodies maxBytes deadline (remaining - length body) xs
           in (\<lparr> rb_resource_id = rx_id f, rb_sequence = cd_sequence x, rb_url = cd_public_url x, rb_resource_type = cd_type x,
                 rb_mime_type = cd_mime x, rb_body = body, rb_was_truncated = truncated \<rparr> # bodies,
               cloneInput x (Some body) truncated None # inputs)))"

definition collectResourceBodies :: "candidate list \<Rightarrow> (nat \<Rightarrow> resource_fetch) \<Rightarrow> nat \<Rightarrow> nat \<Rightarrow> nat \<Rightarrow> resource_body list \<times> clone_input list" where
  "collectResourceBodies candidates fetch maxBytes budget deadline =
     collect_bodies maxBytes deadline budget (map (\<lambda>(i, x). (at_turn x (fetch i), fetch i)) (enumerate 0 candidates))"

text \<open>
  Every candidate gives exactly one input, in order, with a body or a reason but not both; the bodies are those
  of the inputs, none is longer than allowed, all together keep the budget, and only candidates marked for
  capture have one.
\<close>

lemma collected_sequences: "map ci_sequence (snd (collect_bodies m d k xs)) = map (cd_sequence \<circ> fst) xs"
  by (induction xs arbitrary: k)
    (auto simp: split_paired_all Let_def case_prod_beta cloneInput_def split: sum.split)

lemma collected_reasons: "i \<in> set (snd (collect_bodies m d k xs)) \<Longrightarrow> ci_body i = None \<longleftrightarrow> ci_skip_reason i \<noteq> None"
  by (induction xs arbitrary: k)
    (auto simp: split_paired_all Let_def case_prod_beta cloneInput_def split: sum.splits)

lemma collected_bodies: "map rb_body (fst (collect_bodies m d k xs)) = List.map_filter ci_body (snd (collect_bodies m d k xs))"
  by (induction xs arbitrary: k)
    (auto simp: split_paired_all Let_def case_prod_beta cloneInput_def List.map_filter_simps split: sum.split)

lemma collected_budget: "sum_list (map (length \<circ> rb_body) (fst (collect_bodies m d k xs))) \<le> k"
proof (induction xs arbitrary: k)
  case (Cons a xs)
  obtain x f where a: "a = (x, f)" by fastforce
  show ?case
  proof (cases "admitted_body d k x f")
    case (Inr raw)
    let ?body = "take (min m k) raw"
    have "length ?body \<le> k" by simp
    with Cons [of "k - length ?body"]
    have "length ?body + sum_list (map (length \<circ> rb_body) (fst (collect_bodies m d (k - length ?body) xs))) \<le> k"
      by linarith
    with Inr a show ?thesis by (simp add: Let_def case_prod_beta o_def)
  qed (use Cons a in \<open>simp add: Let_def case_prod_beta\<close>)
qed simp

lemma collected_lengths: "b \<in> set (fst (collect_bodies m d k xs)) \<Longrightarrow> length (rb_body b) \<le> m"
  by (induction xs arbitrary: k) (auto simp: split_paired_all Let_def case_prod_beta split: sum.splits)

lemma collected_count: "length (fst (collect_bodies m d k xs)) \<le> count_where (cd_capture \<circ> fst) xs"
proof (induction xs arbitrary: k)
  case (Cons a xs)
  obtain x f where a: "a = (x, f)" by fastforce
  have "cd_capture x" if "admitted_body d k x f = Inr raw" for raw
    using that by (auto simp: admitted_body_def split: if_splits)
  moreover have "length (fst (collect_bodies m d j xs)) \<le> length (filter (\<lambda>a. cd_capture (fst a)) xs)" for j
    using Cons [of j] by (simp add: count_where_def o_def)
  ultimately show ?case
    using a by (auto simp: Let_def case_prod_beta count_where_def le_SucI split: sum.splits)
qed simp

lemma turns_capture:
  "count_where (cd_capture \<circ> fst) (map (\<lambda>(i, x). (at_turn x (fetch i), fetch i)) (enumerate n xs)) = count_where cd_capture xs"
  "map (cd_sequence \<circ> fst) (map (\<lambda>(i, x). (at_turn x (fetch i), fetch i)) (enumerate n xs)) = map cd_sequence xs"
  by (induction xs arbitrary: n) (auto simp: count_where_def at_turn_def fail_candidate_def)

lemmas collected = collected_sequences collected_reasons collected_bodies collected_budget collected_lengths collected_count

section \<open>Gaps\<close>

definition gap_inputs :: "web \<Rightarrow> tracking \<Rightarrow> clone_input list \<Rightarrow> clone_input list" where
  "gap_inputs W st inputs =
     map (\<lambda>(r, start, sq). missing_input W sq (wr_type r)
            (if r \<in> set (tk_pending st) then ''RESOURCE_TIMEOUT'' else ''BODY_UNAVAILABLE'') r)
       (filter (\<lambda>(r, start, sq). sq \<notin> ci_sequence ` set inputs \<and> wr_type r \<in> set body_resource_types) (tk_started st))"

definition clone_inputs :: "web \<Rightarrow> tracking \<Rightarrow> clone_input list \<Rightarrow> clone_input list" where
  "clone_inputs W st collected_inputs =
     (let inputs = collected_inputs @ tk_failed st in sort_key ci_sequence (inputs @ gap_inputs W st inputs))"

text \<open>No tracked request for a resource is lost, and the inputs are in the order of the requests.\<close>

lemma requests_have_inputs:
  assumes "(r, start, sq) \<in> set (tk_started st)" "wr_type r \<in> set body_resource_types"
  shows "sq \<in> ci_sequence ` set (clone_inputs W st inputs)"
proof (cases "sq \<in> ci_sequence ` set (inputs @ tk_failed st)")
  case True
  then show ?thesis by (auto simp: clone_inputs_def Let_def)
next
  case False
  with assms have "(r, start, sq) \<in> set (filter (\<lambda>(r, start, sq). sq \<notin> ci_sequence ` set (inputs @ tk_failed st)
      \<and> wr_type r \<in> set body_resource_types) (tk_started st))" by auto
  then have "\<exists>i \<in> set (gap_inputs W st (inputs @ tk_failed st)). ci_sequence i = sq"
    unfolding gap_inputs_def by (force simp: missing_input_def)
  then show ?thesis by (auto simp: clone_inputs_def Let_def)
qed

lemma clone_inputs_sorted: "sorted (map ci_sequence (clone_inputs W st inputs))"
  by (simp add: clone_inputs_def Let_def)

section \<open>The reconstruction\<close>

text \<open>\<open>CapturePageOptions\<close>; \<open>po_session\<close> says that a browser context is given.\<close>

record page_options =
  pgo_main_path :: "string option"
  pgo_content_addressed :: bool
  pgo_bundle :: bool
  pgo_preserve :: bool
  pgo_screenshot :: bool
  pgo_session :: bool
  pgo_version :: "string option"

definition plan_options :: "page_options \<Rightarrow> clone_options" where
  "plan_options opt = \<lparr> op_main_path = pgo_main_path opt, op_content_addressed = pgo_content_addressed opt,
     op_external = pgo_bundle opt \<rparr>"

text \<open>\<open>rewrite\<close> stands for \<open>rewriteRenderedHtml\<close>, which runs in the page.\<close>

definition createReconstruction ::
  "clone_env \<Rightarrow> page_options \<Rightarrow> nat \<Rightarrow> nat \<Rightarrow> nat \<Rightarrow> (clone_plan \<Rightarrow> bool \<Rightarrow> thrown_text + string) \<Rightarrow> string \<Rightarrow> string \<Rightarrow> clone_input list \<Rightarrow> clone_build"
where
  "createReconstruction E opt deadline clk clk1 rewrite finalUrl html resources =
     (let failed = (\<lambda>e. failed_build (1 + length resources) (safeFailureCode e ''CLONE_BUILD_FAILED''))
      in if remainingMillis deadline clk = 0 then failed (Some ''CAPTURE_TIMEOUT'')
         else case planStaticClone E finalUrl resources (length html) (plan_options opt) of
                None \<Rightarrow> failed (Some ''Invalid URL'')
              | Some plan \<Rightarrow> (case withinDeadline deadline clk1 (rewrite plan (pgo_preserve opt)) of
                    Inl e \<Rightarrow> failed e
                  | Inr cloneHtml \<Rightarrow> buildStaticClone E plan cloneHtml (pgo_bundle opt)))"

lemma clone_build_failed_symbolic: "symbolic_code ''CLONE_BUILD_FAILED''"
  by (simp add: symbolic_code_def code_char_def upper_alpha_def between_def less_eq_char_def)

lemma reconstruction_fits: "fits (bl_build (createReconstruction E opt deadline clk clk1 rewrite finalUrl html resources))"
proof -
  have "fits (bl_build (failed_build (1 + length resources) (safeFailureCode e ''CLONE_BUILD_FAILED'')))" for e
    using symbolic_code_bounds [OF safeFailureCode_symbolic [OF clone_build_failed_symbolic]]
    by (intro failed_build_fits) auto
  then show ?thesis
    by (auto simp: createReconstruction_def Let_def build_fits split: option.split sum.split)
qed

section \<open>The result\<close>

text \<open>What the browser answered, all in time, and the clock of the later steps.\<close>

record browsed_page =
  rp_view :: document_view
  rp_metrics :: metric_state
  rp_navigation :: "navigation_timing option"
  rp_html :: string
  rp_screenshot :: string
  rp_fetch :: "nat \<Rightarrow> resource_fetch"
  rp_url :: string
  rp_rewrite :: "clone_plan \<Rightarrow> bool \<Rightarrow> thrown_text + string"
  rp_browser :: "string option"
  rp_observed :: time
  rp_deadline :: nat
  rp_clock :: nat
  rp_plan_clock :: nat
  rp_rewrite_clock :: nat

record page_env =
  pe_clone :: clone_env
  pe_parse :: "string \<Rightarrow> json option"
  pe_lookup :: resolver
  pe_time :: "time \<Rightarrow> string"

abbreviation page_web :: "page_env \<Rightarrow> web" where "page_web E \<equiv> ce_web (pe_clone E)"

definition guard_text :: "guard_error \<Rightarrow> string" where
  "guard_text e = (case e of INVALID_URL \<Rightarrow> ''Invalid URL'' | URL_POLICY_REJECTED \<Rightarrow> ''URL_POLICY_REJECTED''
     | SSRF_BLOCKED \<Rightarrow> ''SSRF_BLOCKED'' | DNS_FAILED \<Rightarrow> ''DNS_FAILED'')"

definition shot :: "page_options \<Rightarrow> browsed_page \<Rightarrow> string" where
  "shot opt p = (if pgo_screenshot opt then rp_screenshot p else [])"

definition transferred :: "capture_payload \<Rightarrow> tracking \<Rightarrow> resource_body list \<Rightarrow> nat" where
  "transferred c st bodies = min (tk_transfer st + sum_list (map (length \<circ> rb_body) bodies)) (pl_max_total_bytes c)"

definition capture_result_of ::
  "page_env \<Rightarrow> capture_payload \<Rightarrow> page_options \<Rightarrow> browsed_page \<Rightarrow> tracking \<Rightarrow> string \<Rightarrow> resource_body list \<Rightarrow> reconstruction_build \<Rightarrow> capture_result"
where
  "capture_result_of E c opt p st finalUrl bodies build =
     (let rendered = sanitizeRenderedMetadata (page_web E) (extractRenderedMetadata (pe_parse E) (rp_view p))
      in \<lparr> cr_final_url = sanitizeUrl (page_web E) finalUrl, cr_html = rp_html p, cr_screenshot = shot opt p, cr_rendered = rendered,
           cr_diff = page_diff (pl_static_observation c) rendered (pe_time E (rp_observed p)),
           cr_performance = performanceSummary (pl_measurement_profile c) (rp_metrics p) (rp_navigation p),
           cr_network = sort_key nw_sequence (tk_network st), cr_resource_bodies = bodies,
           cr_browser_version = capText (Some (coalesce (pgo_version opt) (coalesce (rp_browser p) ''unknown''))) 64,
           cr_observed_at = rp_observed p, cr_total_transfer_bytes = transferred c st bodies, cr_reconstruction = build \<rparr>)"

text \<open>
  \<open>st\<close> is the traffic when the bodies are read, \<open>st1\<close> that at the end; a capture in a session of a user has no
  proxy. The left side is the message of the exception.
\<close>

definition finish_capture ::
  "page_env \<Rightarrow> capture_payload \<Rightarrow> page_options \<Rightarrow> proxy option \<Rightarrow> browsed_page \<Rightarrow> tracking \<Rightarrow> tracking \<Rightarrow> string + (capture_result \<times> clone_build)"
where
  "finish_capture E c opt px p st st1 =
     (let used = length (rp_html p) + length (shot opt p);
          (bodies, inputs) = collectResourceBodies (tk_candidates st) (rp_fetch p) (pl_max_resource_bytes c)
             (pl_max_total_bytes c - used) (max (rp_clock p) (rp_deadline p - reconstruction_reserve))
      in if pl_max_total_bytes c < used then Inl ''CAPTURE_BYTE_BUDGET_EXCEEDED''
         else rbind (case px of None \<Rightarrow> Inr () | Some x \<Rightarrow> assertWithinBudget x) (\<lambda>_.
           if tk_over st1 then Inl ''CAPTURE_REQUEST_BUDGET_EXCEEDED''
           else if pl_max_total_bytes c < tk_transfer st1 then Inl ''CAPTURE_TRANSFER_BUDGET_EXCEEDED''
           else case assertPublicHttpUrl (page_web E) (pe_lookup E) (rp_url p) of
                  Inl e \<Rightarrow> Inl (guard_text e)
                | Inr u \<Rightarrow>
                    (let finalUrl = href (page_web E) u;
                         b = createReconstruction (pe_clone E) opt (rp_deadline p) (rp_plan_clock p) (rp_rewrite_clock p) (rp_rewrite p)
                               finalUrl (rp_html p) (clone_inputs (page_web E) st1 inputs);
                         build = (if pgo_bundle opt then b else b\<lparr>bl_bundle := None\<rparr>)
                     in Inr (capture_result_of E c opt p st1 finalUrl bodies (bl_build build), build))))"

text \<open>A result keeps the budgets of its command.\<close>

definition within_budgets :: "capture_payload \<Rightarrow> capture_result \<Rightarrow> bool" where
  "within_budgets c r \<longleftrightarrow>
     length (cr_html r) + length (cr_screenshot r) + sum_list (map (length \<circ> rb_body) (cr_resource_bodies r)) \<le> pl_max_total_bytes c
   \<and> length (cr_resource_bodies r) \<le> pl_max_resource_bodies c
   \<and> (\<forall>b \<in> set (cr_resource_bodies r). length (rb_body b) \<le> pl_max_resource_bytes c)
   \<and> length (cr_network r) \<le> pl_max_network_requests c
   \<and> sorted (map nw_sequence (cr_network r))
   \<and> sum_list (map nw_response_bytes (cr_network r)) \<le> pl_max_total_bytes c
   \<and> cr_total_transfer_bytes r \<le> pl_max_total_bytes c
   \<and> metadata_bounded (cr_rendered r) \<and> length (cr_browser_version r) \<le> 64 \<and> length (cr_final_url r) \<le> 8192
   \<and> fits (cr_reconstruction r)"

lemma finish_within_budgets:
  assumes "finish_capture E c opt px p st st1 = Inr (r, build)" "traffic_ok c st" "traffic_ok c st1"
  shows "within_budgets c r" "bl_build build = cr_reconstruction r" "\<not> tk_over st1"
proof -
  let ?used = "length (rp_html p) + length (shot opt p)"
  obtain bodies inputs where col: "collectResourceBodies (tk_candidates st) (rp_fetch p) (pl_max_resource_bytes c)
       (pl_max_total_bytes c - ?used) (max (rp_clock p) (rp_deadline p - reconstruction_reserve)) = (bodies, inputs)"
    by fastforce
  from assms(1) col obtain u b where *: "?used \<le> pl_max_total_bytes c" "\<not> tk_over st1" "tk_transfer st1 \<le> pl_max_total_bytes c"
    "b = createReconstruction (pe_clone E) opt (rp_deadline p) (rp_plan_clock p) (rp_rewrite_clock p) (rp_rewrite p)
        (href (page_web E) u) (rp_html p) (clone_inputs (page_web E) st1 inputs)"
    "build = (if pgo_bundle opt then b else b\<lparr>bl_bundle := None\<rparr>)"
    "r = capture_result_of E c opt p st1 (href (page_web E) u) bodies (bl_build build)"
    by (auto simp: finish_capture_def Let_def rbind_def not_less split: sum.splits if_splits option.splits)
  show "\<not> tk_over st1" by (rule *)
  show "bl_build build = cr_reconstruction r" by (simp add: * capture_result_of_def Let_def)
  have build: "fits (bl_build build)" by (simp add: * reconstruction_fits)
  let ?xs = "map (\<lambda>(i, x). (at_turn x (rp_fetch p i), rp_fetch p i)) (enumerate 0 (tk_candidates st))"
  have bodies: "bodies = fst (collect_bodies (pl_max_resource_bytes c) (max (rp_clock p) (rp_deadline p - reconstruction_reserve))
      (pl_max_total_bytes c - ?used) ?xs)"
    using col by (simp add: collectResourceBodies_def)
  have "sum_list (map (length \<circ> rb_body) bodies) \<le> pl_max_total_bytes c - ?used"
    unfolding bodies by (rule collected_budget)
  with *(1) have "?used + sum_list (map (length \<circ> rb_body) bodies) \<le> pl_max_total_bytes c" by linarith
  moreover have "length bodies \<le> pl_max_resource_bodies c"
    using assms(2) collected_count [of "pl_max_resource_bytes c" "max (rp_clock p) (rp_deadline p - reconstruction_reserve)"
        "pl_max_total_bytes c - ?used" ?xs]
    by (simp only: bodies turns_capture traffic_ok_def) linarith
  moreover have "\<forall>b \<in> set bodies. length (rb_body b) \<le> pl_max_resource_bytes c"
    using collected_lengths by (auto simp: bodies)
  moreover have "mset (map nw_response_bytes (sort_key nw_sequence (tk_network st1))) = mset (map nw_response_bytes (tk_network st1))"
    by simp
  then have "sum_list (map nw_response_bytes (sort_key nw_sequence (tk_network st1))) = tk_transfer st1"
    using assms(3) by (metis traffic_ok_def sum_mset_sum_list)
  ultimately show "within_budgets c r"
    using assms(3) *(1,3) build
    by (simp add: within_budgets_def * capture_result_of_def Let_def transferred_def traffic_ok_def
        sanitized_bounded extracted_bounded)
qed

end
