(* ===== verification/Site_Worker.thy ===== *)
theory Site_Worker
  imports Site_Ingestion Page_Capture Site_System Http_Server Site_Outcomes
begin

text \<open>
  The handlers of \<open>SiteCloneWorker\<close> (\<open>capture-worker/src/site-worker.ts\<close>): the ingestion of a site, the rendering
  of a page, the assembly of the archive, and the turns of the other loops, each with its \<open>catch\<close> block, over the
  operations of the store. What the crawler, the browser, the object store and the connection answer is given
  by a record per handler. Heartbeats extend leases meanwhile; they are steps of \<open>Site_System\<close> of their own.
\<close>

section \<open>Surroundings\<close>

record site_links =
  kw_uuid_text :: "uuid \<Rightarrow> string"
  kw_uuid_of :: "string \<Rightarrow> uuid option"
  kw_digests :: digests
  kw_bucket :: string
  kw_archive :: archive_env
  kw_manifest :: "site_manifest \<Rightarrow> string"
  kw_encode :: "string \<Rightarrow> string"

abbreviation kw_design :: "site_links \<Rightarrow> design_env" where "kw_design L \<equiv> ae_design (kw_archive L)"
abbreviation kw_web :: "site_links \<Rightarrow> web" where "kw_web L \<equiv> de_web (kw_design L)"

text \<open>The messages of the errors of the store; a violated constraint has one that is no code.\<close>

fun site_error_text :: "site_error \<Rightarrow> string" where
  "site_error_text MESSAGE_ID_COLLISION = ''MESSAGE_ID_COLLISION''"
| "site_error_text SITE_JOB_NOT_FOUND = ''SITE_JOB_NOT_FOUND''"
| "site_error_text STALE_SITE_INGESTION_LEASE = ''STALE_SITE_INGESTION_LEASE''"
| "site_error_text STALE_SITE_PAGE_LEASE = ''STALE_SITE_PAGE_LEASE''"
| "site_error_text STALE_SITE_ASSEMBLY_LEASE = ''STALE_SITE_ASSEMBLY_LEASE''"
| "site_error_text STALE_SITE_GC_CLAIM = ''STALE_SITE_GC_CLAIM''"
| "site_error_text SITE_PAGE_LIMIT_EXCEEDED = ''SITE_PAGE_LIMIT_EXCEEDED''"
| "site_error_text SITE_ARTIFACTS_EMPTY = ''SITE_ARTIFACTS_EMPTY''"
| "site_error_text site_error.SITE_ARCHIVE_BUDGET_EXCEEDED = ''SITE_ARCHIVE_BUDGET_EXCEEDED''"
| "site_error_text SITE_ARTIFACT_STAGE_MISMATCH = ''SITE_ARTIFACT_STAGE_MISMATCH''"
| "site_error_text INVALID_SITE_PROGRESS_FILTER = ''INVALID_SITE_PROGRESS_FILTER''"
| "site_error_text CONSTRAINT_VIOLATION = ''database error''"

definition site_call :: "(env \<Rightarrow> 'a txn) \<Rightarrow> env db_call \<Rightarrow> site_db \<Rightarrow> (string + 'a) \<times> site_db" where
  "site_call = called site_error_text"

section \<open>Ingestion\<close>

record crawl_batch =
  kb_items :: "design_page list"
  kb_cursor :: "string option"

text \<open>The pages of the crawl, over the answers seen so far: \<open>None\<close> when the loop still waits for one.\<close>

fun crawl_pages ::
  "claimed_phase \<Rightarrow> (env db_call \<times> (string + crawl_batch)) list \<Rightarrow> design_page list \<Rightarrow> site_db \<Rightarrow> (string + design_page list \<times> bool) option \<times> site_db"
where
  "crawl_pages t [] discovered d = (None, d)"
| "crawl_pages t ((x, answer) # rest) discovered d =
     (case site_call (\<lambda>e. extendPhaseLease e t) x d of
        (Inl m, d1) \<Rightarrow> (Some (Inl m), d1)
      | (Inr False, d1) \<Rightarrow> (Some (Inl ''STALE_SITE_INGESTION_LEASE''), d1)
      | (Inr True, d1) \<Rightarrow>
          (case answer of
             Inl m \<Rightarrow> (Some (Inl m), d1)
           | Inr b \<Rightarrow>
               (let (found, limited) = take_pages (maxPages (cj_policy t)) (kb_items b) discovered
                in if truthy (kb_cursor b) \<and> \<not> limited then crawl_pages t rest found d1
                   else (Some (Inr (found, limited)), d1))))"

text \<open>Batches of 250 targets.\<close>

function chunks :: "'a list \<Rightarrow> 'a list list" where
  "chunks [] = []"
| "chunks (x # xs) = take 250 (x # xs) # chunks (drop 250 (x # xs))"
  by pat_completeness auto
termination by (relation "measure length") simp_all

lemma concat_chunks [simp]: "concat (chunks xs) = xs"
  by (induction xs rule: chunks.induct) (simp_all del: take_Suc_Cons drop_Suc_Cons)

lemma chunks_bounded: "c \<in> set (chunks xs) \<Longrightarrow> c \<noteq> [] \<and> length c \<le> 250"
  by (induction xs rule: chunks.induct) auto

definition add_planned :: "site_links \<Rightarrow> claimed_phase \<Rightarrow> planned_target list \<Rightarrow> env \<Rightarrow> nat txn" where
  "add_planned L t ts e d = (case those (map (read_target (kw_uuid_of L)) ts) of
     None \<Rightarrow> Inl CONSTRAINT_VIOLATION | Some xs \<Rightarrow> addTargets e t xs d)"

fun add_batches ::
  "site_links \<Rightarrow> claimed_phase \<Rightarrow> (nat \<Rightarrow> env db_call \<times> env db_call) \<Rightarrow> planned_target list list \<Rightarrow> site_db \<Rightarrow> (string + unit) \<times> site_db"
where
  "add_batches L t calls [] d = (Inr (), d)"
| "add_batches L t calls (b # bs) d =
     and_then (site_call (\<lambda>e. extendPhaseLease e t) (fst (calls (length bs))) d) (\<lambda>held d1.
       if \<not> held then (Inl ''STALE_SITE_INGESTION_LEASE'', d1)
       else and_then (site_call (add_planned L t b) (snd (calls (length bs))) d1) (\<lambda>_ d2. add_batches L t calls bs d2))"

record ingestion_run =
  ir_crawl :: "(env db_call \<times> (string + crawl_batch)) list"
  ir_calls :: "nat \<Rightarrow> env db_call \<times> env db_call"
  ir_finish :: "env db_call"
  ir_retry :: "env db_call"

text \<open>\<open>None\<close>: the handler has not ended, because it still waits for the crawler or hangs in a loop over paths.\<close>

definition ingest :: "site_links \<Rightarrow> ingestion_run \<Rightarrow> claimed_phase \<Rightarrow> site_db \<Rightarrow> (string + unit) option \<times> site_db" where
  "ingest L r t d =
     (case crawl_pages t (ir_crawl r) [] d of
        (None, d1) \<Rightarrow> (None, d1)
      | (Some (Inl m), d1) \<Rightarrow> (Some (Inl m), d1)
      | (Some (Inr (found, limited)), d1) \<Rightarrow>
          (case selectDesignPages (kw_design L) (cj_root_url t) found limited of
             None \<Rightarrow> (Some (Inl ''Invalid URL''), d1)
           | Some s \<Rightarrow>
               (case plan_targets (kw_web L) (sha256 (kw_digests L)) (cj_root_url t) (kw_uuid_text L (cj_id t)) s of
                  Inl HANGS \<Rightarrow> (None, d1)
                | Inl (THROWS m) \<Rightarrow> (Some (Inl m), d1)
                | Inr ts \<Rightarrow>
                    (let (res, d2) = and_then (add_batches L t (ir_calls r) (chunks ts) d1)
                           (\<lambda>_ d2. site_call (\<lambda>e. finishIngestion e t) (ir_finish r) d2)
                     in (Some res, d2)))))"

text \<open>A turn of \<open>ingestionLoop\<close> with a claim.\<close>

definition ingestion_turn :: "site_links \<Rightarrow> ingestion_run \<Rightarrow> claimed_phase \<Rightarrow> site_db \<Rightarrow> site_db" where
  "ingestion_turn L r t d = (case ingest L r t d of
     (Some (Inl m), d1) \<Rightarrow> snd (site_call (\<lambda>e. retryIngestion e t (worker_code m)) (ir_retry r) d1)
   | (_, d1) \<Rightarrow> d1)"

section \<open>Rendering a page\<close>

definition captureCommand :: "uuid \<Rightarrow> claimed_page \<Rightarrow> string \<Rightarrow> capture_payload" where
  "captureCommand ident work targetUrl =
    \<lparr> pl_capture_request = ident, pl_owner = cp_owner work, pl_scan = cp_scan work, pl_page = cp_page work,
      pl_target_url = targetUrl, pl_viewport_width = 1365, pl_viewport_height = 768, pl_timeout_seconds = 60,
      pl_max_total_bytes = 52428800, pl_max_resource_bytes = 10485760, pl_max_network_requests = 500,
      pl_max_resource_bodies = 100, pl_measurement_profile = ''desktop-lab-v1'',
      pl_static_observation = \<lparr> so_title = None, so_description = None, so_canonical_url = None, so_h1 = None,
        so_links = 0, so_images = 0, so_schema_org_types = [], so_observed_at = None \<rparr> \<rparr>"

definition fallbackDesignPage :: "site_links \<Rightarrow> claimed_page \<Rightarrow> string \<Rightarrow> design_page" where
  "fallbackDesignPage L work targetUrl =
    \<lparr> dp_id = kw_uuid_text L (cp_page work), dp_url = targetUrl, dp_final_url = Some targetUrl, dp_outcome = CRAWL_SUCCESS,
      dp_status = 200, dp_content_type = ''text/html'', dp_canonical = [], dp_html_lang = [], dp_hreflang = [], dp_h1 = [],
      dp_h2 = [], dp_schema_types = [], dp_scripts = 0, dp_stylesheets = 0 \<rparr>"

text \<open>A session of a user is known by the version of its browser.\<close>

definition page_capture_options :: "claimed_page \<Rightarrow> string option \<Rightarrow> page_options" where
  "page_capture_options work session = \<lparr> pgo_main_path = Some (cp_local_path work), pgo_content_addressed = True, pgo_bundle = True,
     pgo_preserve = True, pgo_screenshot = False, pgo_session = (session \<noteq> None), pgo_version = session \<rparr>"

text \<open>A rendering: the document and the build with its bundle; \<open>capturedAt\<close> is set by the build.\<close>

record rendered_page =
  rnd_html :: string
  rnd_build :: clone_build
  rnd_captured_at :: string

record page_run =
  gr_crawled :: "string + design_page"
  gr_expected :: bool
  gr_session :: "string + string option"
  gr_capture :: uuid
  gr_render :: "capture_payload \<Rightarrow> page_options \<Rightarrow> string + rendered_page"
  gr_put :: "unit answer"
  gr_delete :: "unit answer"
  gr_complete :: "env db_call"
  gr_fail :: "env db_call"

definition target_of :: "site_links \<Rightarrow> page_run \<Rightarrow> claimed_page \<Rightarrow> string + design_page" where
  "target_of L r work = (if cp_page work = cp_job work then Inr (fallbackDesignPage L work (cp_public_url work)) else gr_crawled r)"

definition same_site :: "site_links \<Rightarrow> claimed_page \<Rightarrow> string \<Rightarrow> string + unit" where
  "same_site L work url =
     (if url = [] then Inl ''SITE_PAGE_ORIGIN_CHANGED''
      else case (parse_url (kw_web L) url, parse_url (kw_web L) (cp_root_url work)) of
             (Some u, Some base) \<Rightarrow> if origin (kw_web L) u \<noteq> origin (kw_web L) base then Inl ''SITE_PAGE_ORIGIN_CHANGED'' else Inr ()
           | _ \<Rightarrow> Inl ''Invalid URL'')"

definition file_of_bundle :: "bundle_file \<Rightarrow> page_file" where
  "file_of_bundle f = \<lparr> pf_kind = (case bf_kind f of DOCUMENT \<Rightarrow> KIND_DOCUMENT | RESOURCE \<Rightarrow> KIND_RESOURCE),
     pf_local_path = bf_local_path f, pf_source_url = bf_source_url f, pf_content_type = bf_content_type f, pf_body = bf_body f \<rparr>"

definition gap_of_bundle :: "resource_gap \<Rightarrow> page_gap" where
  "gap_of_bundle g = \<lparr> pg_source_url = rg_source_url g, pg_resource_type = rg_resource_type g, pg_reason = rg_reason g \<rparr>"

definition site_bundle_of :: "site_links \<Rightarrow> claimed_page \<Rightarrow> design_candidate \<Rightarrow> rendered_page \<Rightarrow> clone_bundle \<Rightarrow> site_page_bundle" where
  "site_bundle_of L work c x b =
    \<lparr> sx_page_id = kw_uuid_text L (cp_page work), sx_source_final_url = cb_source_final_url b,
      sx_public_final_url = cb_public_final_url b, sx_main_path = cb_main_path b, sx_captured_at = rnd_captured_at x,
      sx_gaps = Some (map gap_of_bundle (cb_resource_gaps b)),
      sx_design = Some \<lparr> pd_locale = dc_locale c, pd_role = role_text (dc_role c), pd_template = dc_template c,
        pd_fingerprint = layoutFingerprint (kw_design L) (rnd_html x), pd_version = layout_fingerprint_version \<rparr>,
      sx_files = map file_of_bundle (cb_files b) \<rparr>"

definition rendered_bundle :: "site_links \<Rightarrow> page_run \<Rightarrow> claimed_page \<Rightarrow> string + site_page_bundle" where
  "rendered_bundle L r work =
     rbind (target_of L r work) (\<lambda>target.
     let url = raw_page_url target
     in rbind (same_site L work url) (\<lambda>_.
        rbind (gr_session r) (\<lambda>session.
        if gr_expected r \<and> session = None then Inl ''BROWSER_SESSION_NOT_READY''
        else rbind (gr_render r (captureCommand (gr_capture r) work url) (page_capture_options work session)) (\<lambda>x.
          case bl_bundle (rnd_build x) of
            None \<Rightarrow> Inl (coalesce (bd_failure_code (bl_build (rnd_build x))) ''SITE_PAGE_BUNDLE_MISSING'')
          | Some b \<Rightarrow> (case describeDesignPage (kw_design L) (cp_root_url work) target of
                None \<Rightarrow> Inl ''Invalid URL''
              | Some c \<Rightarrow> Inr (site_bundle_of L work c x b))))))"

definition bundle_key :: "site_links \<Rightarrow> claimed_page \<Rightarrow> string" where
  "bundle_key L work = kw_uuid_text L (cp_owner work) @ ''/site-clones/'' @ kw_uuid_text L (cp_job work) @ ''/pages/''
     @ kw_uuid_text L (cp_page work) @ ''/'' @ decimal (cp_lease_gen work) @ ''.json''"

text \<open>The store and the objects a handler has written and deleted.\<close>

record page_end =
  pe_db :: site_db
  pe_written :: "stored_object list"
  pe_removed :: "stored_object list"

text \<open>
  \<open>processPage\<close>. Between the upload and the attempt to complete the page nothing can fail, so the branch that
  removes an object before completion was attempted is never taken; afterwards the outcome may be unknown,
  and the object stays.
\<close>

definition process_page :: "site_links \<Rightarrow> page_run \<Rightarrow> claimed_page \<Rightarrow> site_db \<Rightarrow> page_end" where
  "process_page L r work d =
     (let fail = (\<lambda>m d. snd (site_call (\<lambda>e. failPage e work (worker_code m)) (gr_fail r) d))
      in case rendered_bundle L r work of
           Inl m \<Rightarrow> \<lparr> pe_db = fail m d, pe_written = [], pe_removed = [] \<rparr>
         | Inr b \<Rightarrow>
             (case putObject (kw_digests L) (kw_bucket L) (gr_put r) (bundle_key L work)
                     (encodeSiteBundle (ae_codec (kw_archive L)) b) ''application/json'' of
                Inl e \<Rightarrow> \<lparr> pe_db = fail (storage_message e) d, pe_written = [], pe_removed = [] \<rparr>
              | Inr x \<Rightarrow>
                  (case site_call (\<lambda>e. completePage e work x (sum_list (map (length \<circ> pf_body) (sx_files b)))) (gr_complete r) d of
                     (Inl m, d1) \<Rightarrow> \<lparr> pe_db = fail m d1, pe_written = [x], pe_removed = [] \<rparr>
                   | (Inr True, d1) \<Rightarrow> \<lparr> pe_db = d1, pe_written = [x], pe_removed = [] \<rparr>
                   | (Inr False, d1) \<Rightarrow>
                       (case deleteObject (kw_bucket L) (gr_delete r) x of
                          Inl e \<Rightarrow> \<lparr> pe_db = fail (storage_message e) d1, pe_written = [x], pe_removed = [] \<rparr>
                        | Inr _ \<Rightarrow> \<lparr> pe_db = d1, pe_written = [x], pe_removed = [x] \<rparr>))))"

section \<open>Assembly\<close>

definition verifyBytes :: "digests \<Rightarrow> string \<Rightarrow> nat \<Rightarrow> string \<Rightarrow> bool" where
  "verifyBytes D body bytes shaHex \<longleftrightarrow> length body = bytes \<and> hex_digest shaHex \<and> hex D (sha256 D body) = shaHex"

record assembly_run =
  yr_read :: "string + unit"
  yr_load :: "page_bundle \<Rightarrow> object_content answer"
  yr_load_message :: string
  yr_file :: "archive_part \<Rightarrow> string"
  yr_put :: "nat \<Rightarrow> unit answer"
  yr_verify :: "nat \<Rightarrow> (nat option \<times> string option) answer"
  yr_stage :: "env db_call"
  yr_copy :: "nat \<Rightarrow> unit answer"
  yr_verify_final :: "nat \<Rightarrow> (nat option \<times> string option) answer"
  yr_restage :: "env db_call"
  yr_publish :: "env db_call"
  yr_close :: "string + unit"
  yr_delete :: "nat \<Rightarrow> unit answer"
  yr_retry :: "env db_call"

text \<open>The loader of bundles: \<open>storage.get\<close> and \<open>verifyBytes\<close>.\<close>

definition load_bundle :: "site_links \<Rightarrow> assembly_run \<Rightarrow> page_bundle \<Rightarrow> string option" where
  "load_bundle L r b = (case getObject (kw_bucket L) (yr_load r b) (pb_bucket b) (pb_bytes b) of
     Inl _ \<Rightarrow> None
   | Inr body \<Rightarrow> if verifyBytes (kw_digests L) body (pb_bytes b) (hex (kw_digests L) (pb_sha b)) then Some body else None)"

text \<open>Errors of the archive whose messages are codes; the others are reported as a failed operation.\<close>

fun archive_error_text :: "string \<Rightarrow> archive_error \<Rightarrow> string" where
  "archive_error_text loading BUNDLE_NOT_LOADED = loading"
| "archive_error_text loading (BUNDLE_REFUSED INVALID_SITE_PAGE_BUNDLE) = ''INVALID_SITE_PAGE_BUNDLE''"
| "archive_error_text loading (BUNDLE_REFUSED INVALID_SITE_PAGE_RESOURCE_GAPS) = ''INVALID_SITE_PAGE_RESOURCE_GAPS''"
| "archive_error_text loading (BUNDLE_REFUSED INVALID_SITE_PAGE_DESIGN_METADATA) = ''INVALID_SITE_PAGE_DESIGN_METADATA''"
| "archive_error_text loading (BUNDLE_REFUSED (BUNDLE_PATH INVALID_SITE_ARCHIVE_PATH)) = ''INVALID_SITE_ARCHIVE_PATH''"
| "archive_error_text loading (BUNDLE_REFUSED (BUNDLE_PATH SITE_ARCHIVE_PATH_COLLISION)) = ''SITE_ARCHIVE_PATH_COLLISION''"
| "archive_error_text loading (BUNDLE_REFUSED SYNTAX_ERROR) = ''Unexpected token''"
| "archive_error_text loading (BUNDLE_REFUSED TYPE_ERROR) = ''Cannot read properties''"
| "archive_error_text loading SITE_INPUT_BUDGET_EXCEEDED = ''SITE_INPUT_BUDGET_EXCEEDED''"
| "archive_error_text loading UNPARSABLE_URL = ''Invalid URL''"
| "archive_error_text loading (ARCHIVE_PATH INVALID_SITE_ARCHIVE_PATH) = ''INVALID_SITE_ARCHIVE_PATH''"
| "archive_error_text loading (ARCHIVE_PATH SITE_ARCHIVE_PATH_COLLISION) = ''SITE_ARCHIVE_PATH_COLLISION''"
| "archive_error_text loading archive_error.SITE_ARCHIVE_BUDGET_EXCEEDED = ''SITE_ARCHIVE_BUDGET_EXCEEDED''"
| "archive_error_text loading SITE_FILE_EXCEEDS_SHARD_BUDGET = ''SITE_FILE_EXCEEDS_SHARD_BUDGET''"
| "archive_error_text loading SITE_SHARD_SIZE_OUT_OF_BOUNDS = ''SITE_SHARD_SIZE_OUT_OF_BOUNDS''"
| "archive_error_text loading SITE_ARCHIVE_EMPTY = ''SITE_ARCHIVE_EMPTY''"

definition assembled :: "site_links \<Rightarrow> assembly_run \<Rightarrow> claimed_phase \<Rightarrow> site_db \<Rightarrow> string + site_archive" where
  "assembled L r t d = (let p = cj_policy t
     in rbind (yr_read r) (\<lambda>_. lift_message (archive_error_text (yr_load_message r))
       (buildSiteArchives ((kw_archive L)\<lparr>ae_load := load_bundle L r\<rparr>) (cj_root_url t) (listBundles t d)
         (listPageOutcomes (cj_id t) d) (listRoutes (cj_id t) d) (maxShardBytes p) (maxArchiveBytes p)
         (Some \<lparr> ab_max_pages = maxPages p, ab_max_input = maxInputBytes p \<rparr>))))"

definition staging_prefix :: "site_links \<Rightarrow> claimed_phase \<Rightarrow> string" where
  "staging_prefix L t = ''site-clone-staging/'' @ kw_uuid_text L (cj_owner t) @ ''/'' @ kw_uuid_text L (cj_id t) @ ''/''
     @ decimal (cj_lease_gen t) @ ''/''"

definition final_prefix :: "site_links \<Rightarrow> claimed_phase \<Rightarrow> string" where
  "final_prefix L t = kw_uuid_text L (cj_owner t) @ ''/site-clones/'' @ kw_uuid_text L (cj_id t) @ ''/artifacts/''
     @ decimal (cj_lease_gen t) @ ''/''"

text \<open>Uploads one after the other; the objects written before an error are known.\<close>

fun stage_parts :: "site_links \<Rightarrow> assembly_run \<Rightarrow> claimed_phase \<Rightarrow> nat \<Rightarrow> archive_part list \<Rightarrow> (string + unit) \<times> stored_object list" where
  "stage_parts L r t n [] = (Inr (), [])"
| "stage_parts L r t n (p # ps) =
     (case putFile (kw_digests L) (kw_bucket L) (yr_put r n) (staging_prefix L t @ pt_filename p) (yr_file r p) ''application/zip''
             (maxShardBytes (cj_policy t)) of
        Inl e \<Rightarrow> (Inl (storage_message e), [])
      | Inr x \<Rightarrow> (let (res, xs) = stage_parts L r t (n + 1) ps in (res, x # xs)))"

definition stage_archive :: "site_links \<Rightarrow> assembly_run \<Rightarrow> claimed_phase \<Rightarrow> site_archive \<Rightarrow> (string + unit) \<times> stored_object list" where
  "stage_archive L r t a =
     (case stage_parts L r t 0 (sa_parts a) of
        (Inl m, xs) \<Rightarrow> (Inl m, xs)
      | (Inr _, xs) \<Rightarrow>
          (case putObject (kw_digests L) (kw_bucket L) (yr_put r (length xs)) (staging_prefix L t @ ''manifest.json'')
                  (kw_manifest L (sa_manifest a)) ''application/json'' of
             Inl e \<Rightarrow> (Inl (storage_message e), xs)
           | Inr x \<Rightarrow> (Inr (), xs @ [x])))"

text \<open>\<open>Promise.all\<close> over \<open>verify\<close>; of several errors the first of the list stands for the first in time.\<close>

fun verify_all :: "site_links \<Rightarrow> (nat \<Rightarrow> (nat option \<times> string option) answer) \<Rightarrow> nat \<Rightarrow> stored_object list \<Rightarrow> string + unit" where
  "verify_all L answers n [] = Inr ()"
| "verify_all L answers n (x # xs) =
     rbind (lift_message storage_message (verifyObject (kw_digests L) (kw_bucket L) (answers n) x)) (\<lambda>_. verify_all L answers (n + 1) xs)"

definition artifact_input_of :: "site_links \<Rightarrow> claimed_phase \<Rightarrow> archive_part list \<Rightarrow> nat \<times> stored_object \<Rightarrow> artifact_input" where
  "artifact_input_of L t parts = (\<lambda>(i, x).
     if so_content_type x = ''application/json''
     then \<lparr> ai_kind = MANIFEST, ai_shard = 0, ai_filename = ''manifest.json'',
            ai_object = x\<lparr>so_key := final_prefix L t @ ''manifest.json''\<rparr> \<rparr>
     else \<lparr> ai_kind = ARCHIVE_SHARD, ai_shard = pt_number (parts ! i), ai_filename = pt_filename (parts ! i),
            ai_object = x\<lparr>so_key := final_prefix L t @ pt_filename (parts ! i)\<rparr> \<rparr>)"

fun copy_all :: "site_links \<Rightarrow> (nat \<Rightarrow> unit answer) \<Rightarrow> nat \<Rightarrow> (stored_object \<times> artifact_input) list \<Rightarrow> (string + unit) \<times> stored_object list" where
  "copy_all L answers n [] = (Inr (), [])"
| "copy_all L answers n ((x, a) # rest) =
     (case copyObject (kw_bucket L) (answers n) x (so_key (ai_object a)) of
        Inl e \<Rightarrow> (Inl (storage_message e), [])
      | Inr y \<Rightarrow> (let (res, ys) = copy_all L answers (n + 1) rest in (res, y # ys)))"

definition publish_call :: "assembly_run \<Rightarrow> claimed_phase \<Rightarrow> artifact_input list \<Rightarrow> site_db \<Rightarrow> (string + unit) \<times> site_db" where
  "publish_call r t xs d = and_then (site_call (\<lambda>e. stageArtifacts e t xs) (yr_restage r) d)
     (\<lambda>_ d1. site_call (\<lambda>e. publish_staged e t xs) (yr_publish r) d1)"

record assembly_end =
  ye_result :: "string + unit"
  ye_db :: site_db
  ye_staged :: "stored_object list"
  ye_final :: "stored_object list"
  ye_deleted :: "stored_object list"

text \<open>The \<open>try\<close> block, from the staged objects on.\<close>

definition publish_archive ::
  "site_links \<Rightarrow> assembly_run \<Rightarrow> claimed_phase \<Rightarrow> archive_part list \<Rightarrow> stored_object list \<Rightarrow> site_db \<Rightarrow> (string + unit) \<times> site_db \<times> stored_object list"
where
  "publish_archive L r t parts staged d =
     (let inputs = map (artifact_input_of L t parts) (enumerate 0 staged)
      in case verify_all L (yr_verify r) 0 staged of
           Inl m \<Rightarrow> (Inl m, d, [])
         | Inr _ \<Rightarrow>
             (case site_call (\<lambda>e. stageArtifacts e t inputs) (yr_stage r) d of
                (Inl m, d1) \<Rightarrow> (Inl m, d1, [])
              | (Inr _, d1) \<Rightarrow>
                  (case copy_all L (yr_copy r) 0 (zip staged inputs) of
                     (Inl m, final) \<Rightarrow> (Inl m, d1, final)
                   | (Inr _, final) \<Rightarrow>
                       (case verify_all L (yr_verify_final r) 0 final of
                          Inl m \<Rightarrow> (Inl m, d1, final)
                        | Inr _ \<Rightarrow>
                            (let (res, d2) = publish_call r t inputs d1
                             in (rbind res (\<lambda>_. yr_close r), d2, final))))))"

text \<open>The staged objects the store deleted; errors of their deletion are dropped.\<close>

definition deleted_of :: "site_links \<Rightarrow> assembly_run \<Rightarrow> stored_object list \<Rightarrow> stored_object list" where
  "deleted_of L r staged = map snd (filter (\<lambda>(i, x). deleteObject (kw_bucket L) (yr_delete r i) x = Inr ()) (enumerate 0 staged))"

definition assembly_failed :: "site_links \<Rightarrow> assembly_run \<Rightarrow> claimed_phase \<Rightarrow> string \<Rightarrow> stored_object list \<Rightarrow> stored_object list \<Rightarrow> site_db \<Rightarrow> assembly_end" where
  "assembly_failed L r t m staged final d =
    \<lparr> ye_result = Inl m, ye_db = snd (site_call (\<lambda>e. retryAssembly e t (worker_code m)) (yr_retry r) d),
      ye_staged = staged, ye_final = final, ye_deleted = deleted_of L r staged \<rparr>"

definition assemble :: "site_links \<Rightarrow> assembly_run \<Rightarrow> claimed_phase \<Rightarrow> site_db \<Rightarrow> assembly_end" where
  "assemble L r t d =
     (case assembled L r t d of
        Inl m \<Rightarrow> assembly_failed L r t m [] [] d
      | Inr a \<Rightarrow>
          (case stage_archive L r t a of
             (Inl m, staged) \<Rightarrow> assembly_failed L r t m staged [] d
           | (Inr _, staged) \<Rightarrow>
               (case publish_archive L r t (sa_parts a) staged d of
                  (Inl m, d1, final) \<Rightarrow> assembly_failed L r t m staged final d1
                | (Inr _, d1, final) \<Rightarrow> \<lparr> ye_result = Inr (), ye_db = d1, ye_staged = staged, ye_final = final,
                    ye_deleted = deleted_of L r staged \<rparr>)))"

section \<open>The other loops\<close>

text \<open>\<open>garbageCollectionLoop\<close>, \<open>eventLoop\<close> (\<open>response\<close> is the status, or an exception of \<open>fetch\<close>), \<open>cancellationLoop\<close>.\<close>

record collection_run =
  gx_claim :: "env db_call"
  gx_delete :: "claimed_deletion \<Rightarrow> unit answer"
  gx_complete :: "env db_call"
  gx_retry :: "env db_call"

definition collection_turn :: "site_links \<Rightarrow> collection_run \<Rightarrow> site_db \<Rightarrow> site_db" where
  "collection_turn L r = work_round (site_call claimObjectForDeletion (gx_claim r))
     (\<lambda>g. lift_message storage_message (deleteObject (kw_bucket L) (gx_delete r g) (del_stored g)))
     (\<lambda>g. site_call (\<lambda>e. completeObjectDeletion e g) (gx_complete r)) (\<lambda>g. site_call (\<lambda>e. retryObjectDeletion e g) (gx_retry r))"

definition delivered :: "string + nat \<Rightarrow> string + unit" where
  "delivered response = rbind response (\<lambda>status.
     if 200 \<le> status \<and> status < 300 then Inr () else Inl (''CONTROL_HTTP_'' @ decimal status))"

record delivery_run =
  ex_claim :: "env db_call"
  ex_response :: "claimed_event \<Rightarrow> string + nat"
  ex_complete :: "env db_call"
  ex_retry :: "env db_call"

definition delivery_turn :: "(uuid \<Rightarrow> int) \<Rightarrow> uuid \<Rightarrow> delivery_run \<Rightarrow> site_db \<Rightarrow> site_db" where
  "delivery_turn hash worker r = work_round (site_call (\<lambda>e. claimEvent e worker) (ex_claim r))
     (\<lambda>v. delivered (ex_response r v)) (\<lambda>v. site_call (\<lambda>e. completeEvent e v) (ex_complete r))
     (\<lambda>v. site_call (\<lambda>e. retryEvent hash e v ''CONTROL_DELIVERY_FAILED'') (ex_retry r))"

text \<open>The store and the sessions that are closed.\<close>

definition cancellation_turn :: "env db_call \<Rightarrow> site_db \<Rightarrow> (uuid \<times> uuid) list \<times> site_db" where
  "cancellation_turn x d = (case site_call reconcileCancellations x d of (Inl m, d1) \<Rightarrow> ([], d1) | (Inr js, d1) \<Rightarrow> (js, d1))"

end
