(* ===== verification/Site_Handlers.thy ===== *)
theory Site_Handlers
  imports Site_Worker
begin

text \<open>
  What the handlers of \<open>Site_Worker\<close> guarantee: whatever fails and wherever a connection is lost, they only take
  steps of \<open>Site_System\<close>, so that everything proved there holds while they run; and no object that the store
  refers to is deleted, none that the store does not know is left under a final name.
\<close>

section \<open>The handlers refine the system\<close>

datatype site_claim = PAGE_CLAIM claimed_page | PHASE_CLAIM claimed_phase | NO_CLAIM

fun site_admits :: "site_claim \<Rightarrow> site_sys \<Rightarrow> bool" where
  "site_admits (PAGE_CLAIM t) s = (t \<in> set (page_claims s))"
| "site_admits (PHASE_CLAIM t) s = (t \<in> set (phase_claims s))"
| "site_admits NO_CLAIM s = True"

lemma claims_grow:
  assumes "exec sha hash e op s = Inr s1"
  shows "set (page_claims s) \<subseteq> set (page_claims s1)" "set (phase_claims s) \<subseteq> set (phase_claims s1)"
  using assms by (cases op; auto simp: exec_Inr split: option.splits)+

interpretation site: workers "site_step sha hash" store site_admits for sha hash
proof
  fix s s1 c
  assume "site_step sha hash s s1" "site_admits c s"
  then show "site_admits c s1" by (elim site_stepE) (cases c; auto dest: claims_grow)
qed

abbreviation site_runs :: "(site_command \<Rightarrow> digest) \<Rightarrow> (uuid \<Rightarrow> int) \<Rightarrow> site_claim \<Rightarrow> site_db \<Rightarrow> site_db \<Rightarrow> bool" where
  "site_runs sha hash \<equiv> workers.runs (site_step sha hash) store site_admits"

lemma op_runs:
  assumes "\<And>s. site_admits c s \<Longrightarrow> holds_claims op s" "\<And>s. exec sha hash e op s = on_store s (txn e (store s))" "txn e d = Inr (r, d1)"
  shows "site_runs sha hash c d d1"
  unfolding site.runs_def
proof (intro allI impI)
  fix s
  assume s: "store s = d" "site_admits c s"
  then have "exec sha hash e op s = Inr (s\<lparr>store := d1\<rparr>)" using assms(2,3) by (simp add: on_store_def)
  then have "site_step sha hash s (s\<lparr>store := d1\<rparr>)" using assms(1) [OF s(2)] by (rule site_step.step [rotated])
  then show "\<exists>s1. site_steps sha hash s s1 \<and> store s1 = d1" by (intro exI [of _ "s\<lparr>store := d1\<rparr>"]) auto
qed

lemma site_call_runs:
  assumes "\<And>s. site_admits c s \<Longrightarrow> holds_claims op s" "\<And>e s. exec sha hash e op s = on_store s (txn e (store s))"
  shows "site_runs sha hash c d (snd (site_call txn x d))"
  unfolding site_call_def by (rule site.runs_called) (rule op_runs [OF assms])

text \<open>Every call of a handler that holds its claim.\<close>

lemma phase_calls_run:
  "site_runs sha hash (PHASE_CLAIM t) d (snd (site_call (\<lambda>e. extendPhaseLease e t) x d))"
  "site_runs sha hash (PHASE_CLAIM t) d (snd (site_call (\<lambda>e. finishIngestion e t) x d))"
  "site_runs sha hash (PHASE_CLAIM t) d (snd (site_call (\<lambda>e. retryIngestion e t m) x d))"
  "site_runs sha hash (PHASE_CLAIM t) d (snd (site_call (\<lambda>e. retryAssembly e t m) x d))"
  "site_runs sha hash (PHASE_CLAIM t) d (snd (site_call (\<lambda>e. stageArtifacts e t xs) x d))"
  "site_runs sha hash (PHASE_CLAIM t) d (snd (site_call (\<lambda>e. publish_staged e t xs) x d))"
proof -
  show "site_runs sha hash (PHASE_CLAIM t) d (snd (site_call (\<lambda>e. extendPhaseLease e t) x d))"
    by (rule site_call_runs [where op = "ExtendPhaseLease t"]) simp_all
  show "site_runs sha hash (PHASE_CLAIM t) d (snd (site_call (\<lambda>e. finishIngestion e t) x d))"
    by (rule site_call_runs [where op = "FinishIngestion t"]) simp_all
  show "site_runs sha hash (PHASE_CLAIM t) d (snd (site_call (\<lambda>e. retryIngestion e t m) x d))"
    by (rule site_call_runs [where op = "RetryIngestion t m"]) simp_all
  show "site_runs sha hash (PHASE_CLAIM t) d (snd (site_call (\<lambda>e. retryAssembly e t m) x d))"
    by (rule site_call_runs [where op = "RetryAssembly t m"]) simp_all
  show "site_runs sha hash (PHASE_CLAIM t) d (snd (site_call (\<lambda>e. stageArtifacts e t xs) x d))"
    by (rule site_call_runs [where op = "StageArtifacts t xs"]) simp_all
  show "site_runs sha hash (PHASE_CLAIM t) d (snd (site_call (\<lambda>e. publish_staged e t xs) x d))"
    by (rule site_call_runs [where op = "PublishStaged t xs"]) simp_all
qed

lemma add_planned_runs: "site_runs sha hash (PHASE_CLAIM t) d (snd (site_call (add_planned L t ts) x d))"
proof (cases "those (map (read_target (kw_uuid_of L)) ts)")
  case None
  then have "site_call (add_planned L t ts) x d = (fst (site_call (add_planned L t ts) x d), d)"
    by (auto simp: site_call_def called_def add_planned_def)
  then have "snd (site_call (add_planned L t ts) x d) = d" by (metis snd_conv)
  then show ?thesis by simp
next
  case (Some xs)
  then have "add_planned L t ts = (\<lambda>e. addTargets e t xs)" by (intro ext) (simp add: add_planned_def)
  moreover have "site_runs sha hash (PHASE_CLAIM t) d (snd (site_call (\<lambda>e. addTargets e t xs) x d))"
    by (rule site_call_runs [where op = "AddTargets t xs"]) simp_all
  ultimately show ?thesis by simp
qed

lemma page_calls_run:
  "site_runs sha hash (PAGE_CLAIM t) d (snd (site_call (\<lambda>e. completePage e t b n) x d))"
  "site_runs sha hash (PAGE_CLAIM t) d (snd (site_call (\<lambda>e. failPage e t m) x d))"
proof -
  show "site_runs sha hash (PAGE_CLAIM t) d (snd (site_call (\<lambda>e. completePage e t b n) x d))"
    by (rule site_call_runs [where op = "CompletePage t b n"]) simp_all
  show "site_runs sha hash (PAGE_CLAIM t) d (snd (site_call (\<lambda>e. failPage e t m) x d))"
    by (rule site_call_runs [where op = "FailPage t m"]) simp_all
qed

lemma crawl_pages_runs: "site_runs sha hash (PHASE_CLAIM t) d (snd (crawl_pages t answers discovered d))"
proof (induction answers arbitrary: discovered d)
  case (Cons a rest)
  obtain x answer where a: "a = (x, answer)" by fastforce
  obtain r d1 where c: "site_call (\<lambda>e. extendPhaseLease e t) x d = (r, d1)" by fastforce
  with phase_calls_run(1) [of sha hash t d x] have d1: "site_runs sha hash (PHASE_CLAIM t) d d1" by simp
  show ?case
  proof (cases "r = Inr True \<and> (\<exists>b. answer = Inr b)")
    case True
    then obtain b where b: "r = Inr True" "answer = Inr b" by blast
    show ?thesis
      using a c b d1 site.runs_trans [OF d1 Cons.IH] by (simp add: Let_def case_prod_beta)
  next
    case False
    then show ?thesis using a c d1 by (auto split: sum.splits bool.splits)
  qed
qed simp

lemma add_batches_runs: "site_runs sha hash (PHASE_CLAIM t) d (snd (add_batches L t calls bs d))"
proof (induction bs arbitrary: d)
  case (Cons b bs)
  show ?case
    by (simp, intro site.runs_and_then phase_calls_run)
      (auto intro: site.runs_and_then add_planned_runs Cons.IH)
qed simp

theorem ingestion_runs: "site_runs sha hash (PHASE_CLAIM t) d (ingestion_turn L r t d)"
proof -
  obtain o1 d1 where i: "ingest L r t d = (o1, d1)" by fastforce
  have "site_runs sha hash (PHASE_CLAIM t) d d1"
  proof -
    obtain c d2 where c: "crawl_pages t (ir_crawl r) [] d = (c, d2)" by fastforce
    with crawl_pages_runs [of sha hash t d "ir_crawl r" "[]"] have d2: "site_runs sha hash (PHASE_CLAIM t) d d2" by simp
    have rest: "site_runs sha hash (PHASE_CLAIM t) d2 (snd (and_then (add_batches L t (ir_calls r) bs d2)
        (\<lambda>_ d2. site_call (\<lambda>e. finishIngestion e t) (ir_finish r) d2)))" for bs
      by (intro site.runs_and_then add_batches_runs phase_calls_run)
    from i c have "d1 = d2 \<or> (\<exists>bs. d1 = snd (and_then (add_batches L t (ir_calls r) bs d2)
        (\<lambda>_ d2. site_call (\<lambda>e. finishIngestion e t) (ir_finish r) d2)))"
      unfolding ingest_def by (auto simp: case_prod_beta split: option.splits sum.splits plan_stop.splits)
    with d2 rest show ?thesis by (auto intro: site.runs_trans)
  qed
  moreover have "site_runs sha hash (PHASE_CLAIM t) d1 (snd (site_call (\<lambda>e. retryIngestion e t (worker_code m)) (ir_retry r) d1))" for m
    by (rule phase_calls_run)
  ultimately show ?thesis
    using i by (auto simp: ingestion_turn_def intro: site.runs_trans split: option.split sum.split)
qed

theorem page_runs: "site_runs sha hash (PAGE_CLAIM work) d (pe_db (process_page L r work d))"
proof -
  have fail: "site_runs sha hash (PAGE_CLAIM work) d1 (snd (site_call (\<lambda>e. failPage e work m) x d1))" for m x d1
    by (rule page_calls_run)
  have complete: "site_runs sha hash (PAGE_CLAIM work) d d1" if "site_call (\<lambda>e. completePage e work b n) x d = (y, d1)" for b n x y d1
    using page_calls_run(1) [of sha hash work d b n x] that by simp
  show ?thesis
    unfolding process_page_def Let_def
    by (auto split: sum.split prod.split bool.split simp: fail intro: complete site.runs_trans [OF complete fail])
qed

theorem assembly_runs: "site_runs sha hash (PHASE_CLAIM t) d (ye_db (assemble L r t d))"
proof -
  have retry: "site_runs sha hash (PHASE_CLAIM t) d1 (ye_db (assembly_failed L r t m st fi d1))" for m st fi d1
    by (simp add: assembly_failed_def phase_calls_run)
  have publish: "site_runs sha hash (PHASE_CLAIM t) d (fst (snd (publish_archive L r t parts staged d)))" for parts staged
  proof -
    let ?in = "map (artifact_input_of L t parts) (enumerate 0 staged)"
    obtain y d1 where s: "site_call (\<lambda>e. stageArtifacts e t ?in) (yr_stage r) d = (y, d1)" by fastforce
    with phase_calls_run(5) [of sha hash t d ?in "yr_stage r"] have d1: "site_runs sha hash (PHASE_CLAIM t) d d1" by simp
    have "site_runs sha hash (PHASE_CLAIM t) d1 (snd (publish_call r t ?in d1))"
      unfolding publish_call_def by (intro site.runs_and_then phase_calls_run)
    with d1 s show ?thesis
      unfolding publish_archive_def Let_def
      by (auto simp: case_prod_beta intro: site.runs_trans split: sum.split prod.split)
  qed
  show ?thesis
  proof (cases "assembled L r t d")
    case (Inl m)
    then show ?thesis by (simp add: assemble_def retry)
  next
    case (Inr a)
    obtain y staged where s: "stage_archive L r t a = (y, staged)" by fastforce
    obtain z d1 final where p: "publish_archive L r t (sa_parts a) staged d = (z, d1, final)" by (metis prod_cases3)
    with publish [of "sa_parts a" staged] have d1: "site_runs sha hash (PHASE_CLAIM t) d d1" by simp
    show ?thesis
      using Inr s p d1 site.runs_trans [OF d1 retry] by (cases y; cases z) (simp_all add: assemble_def retry)
  qed
qed

text \<open>A turn of the other loops.\<close>

lemma free_runs: "site_runs sha hash NO_CLAIM d d1 \<Longrightarrow> store s = d \<Longrightarrow> \<exists>s1. site_steps sha hash s s1 \<and> store s1 = d1"
  by (auto simp: site.runs_def)

lemma free_grants: "site_runs sha hash NO_CLAIM d d1 \<Longrightarrow> workers.grants (site_step sha hash) store site_admits NO_CLAIM d d1"
  by (auto simp: site.runs_def site.grants_def)

lemma free_calls_run:
  "site_runs sha hash NO_CLAIM d (snd (site_call claimObjectForDeletion x d))"
  "site_runs sha hash NO_CLAIM d (snd (site_call (\<lambda>e. completeObjectDeletion e g) x d))"
  "site_runs sha hash NO_CLAIM d (snd (site_call (\<lambda>e. retryObjectDeletion e g) x d))"
  "site_runs sha hash NO_CLAIM d (snd (site_call (\<lambda>e. claimEvent e w) x d))"
  "site_runs sha hash NO_CLAIM d (snd (site_call (\<lambda>e. completeEvent e v) x d))"
  "site_runs sha hash NO_CLAIM d (snd (site_call (\<lambda>e. retryEvent hash e v m) x d))"
  "site_runs sha hash NO_CLAIM d (snd (site_call reconcileCancellations x d))"
proof -
  show "site_runs sha hash NO_CLAIM d (snd (site_call claimObjectForDeletion x d))"
    by (rule site_call_runs [where op = ClaimObjectForDeletion]) simp_all
  show "site_runs sha hash NO_CLAIM d (snd (site_call (\<lambda>e. completeObjectDeletion e g) x d))"
    by (rule site_call_runs [where op = "CompleteObjectDeletion g"]) simp_all
  show "site_runs sha hash NO_CLAIM d (snd (site_call (\<lambda>e. retryObjectDeletion e g) x d))"
    by (rule site_call_runs [where op = "RetryObjectDeletion g"]) simp_all
  show "site_runs sha hash NO_CLAIM d (snd (site_call (\<lambda>e. claimEvent e w) x d))"
    by (rule site_call_runs [where op = "ClaimEvent w"]) simp_all
  show "site_runs sha hash NO_CLAIM d (snd (site_call (\<lambda>e. completeEvent e v) x d))"
    by (rule site_call_runs [where op = "CompleteEvent v"]) simp_all
  show "site_runs sha hash NO_CLAIM d (snd (site_call (\<lambda>e. retryEvent hash e v m) x d))"
    by (rule site_call_runs [where op = "RetryEvent v m"]) simp_all
  show "site_runs sha hash NO_CLAIM d (snd (site_call reconcileCancellations x d))"
    by (rule site_call_runs [where op = ReconcileCancellations]) simp_all
qed

lemma free_call_eq: "site_runs sha hash NO_CLAIM d (snd (site_call f x d)) \<Longrightarrow> site_call f x d = (r, d1) \<Longrightarrow> site_runs sha hash NO_CLAIM d d1"
  by simp

lemma collection_runs: "store s = d \<Longrightarrow> \<exists>s1. site_steps sha hash s s1 \<and> store s1 = collection_turn L r d"
  unfolding collection_turn_def
  by (rule site.round_steps [where tag = "\<lambda>_. NO_CLAIM"])
    (blast intro: free_calls_run free_grants free_runs dest: free_call_eq [OF free_calls_run(1)])+

lemma delivery_runs: "store s = d \<Longrightarrow> \<exists>s1. site_steps sha hash s s1 \<and> store s1 = delivery_turn hash w r d"
  unfolding delivery_turn_def
  by (rule site.round_steps [where tag = "\<lambda>_. NO_CLAIM"])
    (blast intro: free_calls_run free_grants free_runs dest: free_call_eq [OF free_calls_run(4)])+

lemma cancellation_runs: "site_runs sha hash NO_CLAIM d (snd (cancellation_turn x d))"
  using free_calls_run(7) [of sha hash d x] by (auto simp: cancellation_turn_def split: prod.split sum.split)

section \<open>No object in use is deleted\<close>

lemma incrementJob_pages: "incrementJob e i ok n d = Inr d1 \<Longrightarrow> pages d1 = pages d"
  by (auto simp: incrementJob_def Let_def split: if_splits option.splits dest: enqueueEvent_fields(1))

lemma unfinished_bundle:
  assumes "p \<in> set (pages (finishPageWithoutBundle e t st c d))"
  shows "\<exists>p0 \<in> set (pages d). page_key p0 = page_key p \<and> p_bundle_key p0 = p_bundle_key p"
  using assms by (force simp: finishPageWithoutBundle_def set_update_where)

lemma refused_bundle:
  assumes "completePage e t b n d = Inr (False, d1)" "p \<in> set (pages d1)"
  shows "\<exists>p0 \<in> set (pages d). page_key p0 = page_key p \<and> p_bundle_key p0 = p_bundle_key p"
proof -
  from assms(1) have "\<exists>st c. pages d1 = pages (finishPageWithoutBundle e t st c d)"
    by (auto simp: completePage_def split: if_splits option.splits dest!: incrementJob_pages)
  then obtain st c where "pages d1 = pages (finishPageWithoutBundle e t st c d)" by blast
  with assms(2) have "p \<in> set (pages (finishPageWithoutBundle e t st c d))" by simp
  from unfinished_bundle [OF this] show ?thesis by blast
qed

text \<open>
  \<open>processPage\<close> removes what it uploaded only if the store refused it, and then no page refers to it that did
  not before.
\<close>

lemma removed_bundle_unused:
  assumes x: "x \<in> set (pe_removed (process_page L r work d))"
    and p: "p \<in> set (pages (pe_db (process_page L r work d)))" "p_bundle_key p = Some (so_key x)"
  shows "\<exists>p0 \<in> set (pages d). page_key p0 = page_key p \<and> p_bundle_key p0 = Some (so_key x)"
proof -
  from x obtain b n where "site_call (\<lambda>e. completePage e work b n) (gr_complete r) d = (Inr False, pe_db (process_page L r work d))"
    unfolding process_page_def Let_def
    by (auto split: sum.splits prod.splits bool.splits)
  then have "completePage (dbl_env (gr_complete r)) work b n d = Inr (False, pe_db (process_page L r work d))"
    by (simp add: site_call_def called_Inr)
  from refused_bundle [OF this p(1)] p(2) show ?thesis by simp
qed

section \<open>No unknown object under a final name\<close>

lemma verify_all_Inr: "verify_all L f n xs = Inr () \<Longrightarrow> i < length xs \<Longrightarrow>
    verifyObject (kw_digests L) (kw_bucket L) (f (n + i)) (xs ! i) = Inr ()"
proof (induction xs arbitrary: n i)
  case (Cons x xs)
  from Cons.prems(1) have "verifyObject (kw_digests L) (kw_bucket L) (f n) x = Inr ()" "verify_all L f (n + 1) xs = Inr ()"
    by (auto simp: lift_message_def split: sum.splits)
  with Cons.IH [of "n + 1" "i - 1"] Cons.prems(2) show ?case by (cases i) auto
qed simp

lemma copied: "copy_all L f n ps = (res, ys) \<Longrightarrow> y \<in> set ys \<Longrightarrow> \<exists>(x, a) \<in> set ps. y = x\<lparr>so_key := so_key (ai_object a)\<rparr>"
proof (induction ps arbitrary: n res ys)
  case (Cons p ps)
  obtain x a where p: "p = (x, a)" by fastforce
  from Cons.prems p obtain z where z: "copyObject (kw_bucket L) (f n) x (so_key (ai_object a)) = Inr z"
    by (cases "copyObject (kw_bucket L) (f n) x (so_key (ai_object a))") auto
  obtain res1 ys1 where r: "copy_all L f (n + 1) ps = (res1, ys1)" by fastforce
  from z have "z = x\<lparr>so_key := so_key (ai_object a)\<rparr>" by (auto simp: copyObject_def split: if_splits)
  moreover have "ys = z # ys1" using Cons.prems(1) p z r by simp
  ultimately show ?case using Cons.IH [OF r] Cons.prems(2) p by auto
qed simp

lemma input_object: "(x :: stored_object)\<lparr>so_key := so_key (ai_object (artifact_input_of L t parts (i, x)))\<rparr> = ai_object (artifact_input_of L t parts (i, x))"
  by (simp add: artifact_input_of_def)

lemma final_inputs:
  assumes "copy_all L f n (zip staged (map (artifact_input_of L t parts) (enumerate m staged))) = (res, ys)" "y \<in> set ys"
  shows "\<exists>a \<in> set (map (artifact_input_of L t parts) (enumerate m staged)). y = ai_object a"
proof -
  from copied [OF assms] obtain x a where xa: "(x, a) \<in> set (zip staged (map (artifact_input_of L t parts) (enumerate m staged)))"
    "y = x\<lparr>so_key := so_key (ai_object a)\<rparr>" by auto
  then obtain i where i: "i < length staged" "x = staged ! i" "a = artifact_input_of L t parts (m + i, staged ! i)"
    by (auto simp: set_zip nth_enumerate_eq)
  with xa(2) input_object [of L t parts "m + i" "staged ! i"] have "y = ai_object a" by simp
  moreover from xa(1) have "a \<in> set (map (artifact_input_of L t parts) (enumerate m staged))" by (rule set_zip_rightD)
  ultimately show ?thesis by blast
qed

text \<open>Copies are made only after their names are committed to the store.\<close>

lemma publish_archive_final:
  assumes p: "publish_archive L r t parts staged d = (z, d2, final)" and y: "y \<in> set final"
  obtains d1 e xs where "stageArtifacts e t xs d = Inr ((), d1)" "y \<in> ai_object ` set xs" "site_runs sha hash (PHASE_CLAIM t) d d1"
    "site_runs sha hash (PHASE_CLAIM t) d1 d2"
proof -
  let ?in = "map (artifact_input_of L t parts) (enumerate 0 staged)"
  have "verify_all L (yr_verify r) 0 staged = Inr ()"
    using p y by (cases "verify_all L (yr_verify r) 0 staged") (auto simp: publish_archive_def Let_def)
  moreover obtain q d1 where q: "site_call (\<lambda>e. stageArtifacts e t ?in) (yr_stage r) d = (q, d1)" by fastforce
  moreover have "\<exists>u. q = Inr u" using p y q calculation(1) by (cases q) (auto simp: publish_archive_def Let_def)
  moreover obtain w ys where c: "copy_all L (yr_copy r) 0 (zip staged ?in) = (w, ys)" by fastforce
  ultimately have eq: "(z, d2, final) = (case w of Inl m \<Rightarrow> (Inl m, d1, ys) | Inr _ \<Rightarrow>
      (case verify_all L (yr_verify_final r) 0 ys of Inl m \<Rightarrow> (Inl m, d1, ys)
       | Inr _ \<Rightarrow> (let (res, d2) = publish_call r t ?in d1 in (rbind res (\<lambda>_. yr_close r), d2, ys))))"
    and s: "stageArtifacts (dbl_env (yr_stage r)) t ?in d = Inr ((), d1)"
    using p by (auto simp: publish_archive_def Let_def site_call_def called_Inr)
  have d1: "site_runs sha hash (PHASE_CLAIM t) d d1"
    using phase_calls_run(5) [of sha hash t d ?in "yr_stage r"] q by simp
  have "site_runs sha hash (PHASE_CLAIM t) d1 (snd (publish_call r t ?in d1))"
    unfolding publish_call_def by (intro site.runs_and_then phase_calls_run)
  then have d2: "site_runs sha hash (PHASE_CLAIM t) d1 d2" and "final = ys"
    using eq by (auto simp: case_prod_beta split: sum.splits)
  from final_inputs [OF c, of y] y this(2) have "y \<in> ai_object ` set ?in" by blast
  from that [OF s this d1 d2] show ?thesis .
qed

lemma assembled_objects_known:
  assumes reach: "reachable sha hash s" and t: "t \<in> set (phase_claims s)"
    and y: "y \<in> set (ye_final (assemble L r t (store s)))"
  shows "\<exists>a \<in> set (artifacts (ye_db (assemble L r t (store s)))). of_generation t a \<and> a_key a = so_key y
     \<and> a_bytes a = so_bytes y \<and> a_sha a = so_sha y"
proof -
  let ?d = "store s"
  obtain ar where ar: "assembled L r t ?d = Inr ar"
    using y by (cases "assembled L r t ?d") (auto simp: assemble_def assembly_failed_def)
  obtain q staged where q: "stage_archive L r t ar = (q, staged)" by fastforce
  obtain z d2 final where p: "publish_archive L r t (sa_parts ar) staged ?d = (z, d2, final)" by (metis prod_cases3)
  have "\<exists>u. q = Inr u" using y ar q by (cases q) (auto simp: assemble_def assembly_failed_def)
  then have fin: "ye_final (assemble L r t ?d) = final" "ye_db (assemble L r t ?d) = d2 \<or>
      (\<exists>m. ye_db (assemble L r t ?d) = snd (site_call (\<lambda>e. retryAssembly e t m) (yr_retry r) d2))"
    using ar q p by (cases z; auto simp: assemble_def assembly_failed_def)+
  from publish_archive_final [OF p, of y sha hash] y fin(1) obtain d1 e xs where st: "stageArtifacts e t xs ?d = Inr ((), d1)"
    "y \<in> ai_object ` set xs" "site_runs sha hash (PHASE_CLAIM t) ?d d1" "site_runs sha hash (PHASE_CLAIM t) d1 d2" by metis
  from fin(2) have "site_runs sha hash (PHASE_CLAIM t) d2 (ye_db (assemble L r t ?d))"
    using phase_calls_run(4) by (elim disjE exE) simp_all
  with st(4) have end_runs: "site_runs sha hash (PHASE_CLAIM t) d1 (ye_db (assemble L r t ?d))" by (rule site.runs_trans)
  from site.runs_steps [OF st(3)] t obtain s1 where s1: "site_steps sha hash s s1" "store s1 = d1" by auto
  have "site_admits (PHASE_CLAIM t) s1" using site.steps_keep [OF s1(1), of "PHASE_CLAIM t"] t by simp
  with end_runs s1(2) obtain s2 where s2: "site_steps sha hash s1 s2" "store s2 = ye_db (assemble L r t ?d)"
    unfolding site.runs_def by blast
  from st(2) obtain x where x: "x \<in> set xs" "y = ai_object x" by blast
  from stageArtifacts_stages(7) [OF st(1) x(1)] obtain a where a: "a \<in> set (artifacts d1)" "of_generation t a" "staged_match x a" by blast
  have "history d1 (ye_db (assemble L r t ?d))"
    using reachable_history [OF reachable_steps [OF reach s1(1)] s2(1)] s1(2) s2(2) by simp
  from history_artifact [OF this a(1)] obtain b where b: "b \<in> set (artifacts (ye_db (assemble L r t ?d)))" "artifact_evolves a b" .
  with a x(2) show ?thesis
    by (intro bexI [OF _ b(1)]) (auto simp: artifact_evolves_def of_generation_def staged_match_def)
qed

end
