(* ===== verification/Capture_Worker.thy ===== *)
theory Capture_Worker
  imports Worker_Loops Page_Capture Capture_System Http_Server
begin

text \<open>
  The loops of \<open>capture-worker/src/index.ts\<close> over the operations of \<open>CaptureDatabase\<close>: the handler of a claimed
  capture with its \<open>catch\<close> blocks, the collection of expired archives, the delivery of analytics and of events.
  What the browser, the object store and the connections answer is given by a record per handler. The handlers
  only take steps of \<open>Capture_System\<close>, and an archive that is removed after a failed upload has changed no row.
\<close>

section \<open>The handler of a capture\<close>

fun cap_error_text :: "cap_error \<Rightarrow> string" where
  "cap_error_text CAP_MESSAGE_ID_COLLISION = ''MESSAGE_ID_COLLISION''"
| "cap_error_text STALE_CAPTURE_LEASE = ''STALE_CAPTURE_LEASE''"
| "cap_error_text STALE_RECONSTRUCTION_LEASE = ''STALE_RECONSTRUCTION_LEASE''"
| "cap_error_text STALE_RECONSTRUCTION_GC_CLAIM = ''STALE_RECONSTRUCTION_GC_CLAIM''"
| "cap_error_text STALE_ANALYTICS_LEASE = ''STALE_ANALYTICS_LEASE''"
| "cap_error_text ANALYTICS_PAYLOAD_TOO_LARGE = ''ANALYTICS_PAYLOAD_TOO_LARGE''"
| "cap_error_text CAPTURE_JOB_NOT_PERSISTING = ''CAPTURE_JOB_NOT_PERSISTING''"
| "cap_error_text CAP_CONSTRAINT_VIOLATION = ''database error''"

definition cap_call :: "(cap_env \<Rightarrow> 'a cap_txn) \<Rightarrow> cap_env db_call \<Rightarrow> cap_db \<Rightarrow> (string + 'a) \<times> cap_db" where
  "cap_call = called cap_error_text"

record capture_links =
  cw_platform :: platform
  cw_uuid_text :: "uuid \<Rightarrow> string"
  cw_digests :: digests
  cw_bucket :: string
  cw_manifest :: "manifest_file list \<Rightarrow> string"

text \<open>A capture: its result, its build, and the file at \<open>archivePath\<close>, if there is one.\<close>

record captured =
  cp_result :: capture_result
  cp_build :: clone_build
  cp_archive :: "string option"

record job_run =
  jr_capture :: "capture_payload \<Rightarrow> string + captured"
  jr_lease_lost :: bool
  jr_extend :: "cap_env db_call"
  jr_put :: "nat \<Rightarrow> unit answer"
  jr_put_archive :: "unit answer"
  jr_put_manifest :: "unit answer"
  jr_stage_recon :: "cap_env db_call"
  jr_delete :: "unit answer"
  jr_stage :: "cap_env db_call"
  jr_fail :: "cap_env db_call"

definition job_prefix :: "capture_links \<Rightarrow> claimed_job \<Rightarrow> string" where
  "job_prefix L t = cw_uuid_text L (cl_owner t) @ ''/'' @ cw_uuid_text L (cl_id t) @ ''/'' @ decimal (cl_lease_gen t)"

definition recon_prefix :: "capture_links \<Rightarrow> claimed_job \<Rightarrow> string" where
  "recon_prefix L t = job_prefix L t @ ''/reconstruction/'' @ decimal (cl_lease_gen t)"

definition put_object :: "capture_links \<Rightarrow> unit answer \<Rightarrow> string \<Rightarrow> string \<Rightarrow> string \<Rightarrow> string + stored_object" where
  "put_object L sent key body contentType =
     lift_message storage_message (putObject (cw_digests L) (cw_bucket L) sent key body contentType)"

definition put_resource :: "capture_links \<Rightarrow> unit answer \<Rightarrow> claimed_job \<Rightarrow> resource_body \<Rightarrow> string + resource_body \<times> stored_object" where
  "put_resource L sent t b =
     rbind (put_object L sent (job_prefix L t @ ''/resources/'' @ decimal (rb_sequence b) @ ''-'' @ cw_uuid_text L (rb_resource_id b))
       (rb_body b) (if rb_mime_type b = [] then ''application/octet-stream'' else rb_mime_type b)) (\<lambda>x. Inr (b, x))"

fun put_resources :: "capture_links \<Rightarrow> (nat \<Rightarrow> unit answer) \<Rightarrow> claimed_job \<Rightarrow> nat \<Rightarrow> resource_body list \<Rightarrow> string + (resource_body \<times> stored_object) list" where
  "put_resources L sent t n [] = Inr []"
| "put_resources L sent t n (b # bs) =
     rbind (put_resource L (sent n) t b) (\<lambda>x. rbind (put_resources L sent t (n + 1) bs) (\<lambda>xs. Inr (x # xs)))"

text \<open>The build after an upload or a staging that failed.\<close>

definition build_failed :: "string \<Rightarrow> reconstruction_build \<Rightarrow> reconstruction_build" where
  "build_failed code b = b\<lparr>bd_status := BUILD_FAILED, bd_failure_code := Some code, bd_completeness_code := None, bd_archive_bytes := None\<rparr>"

text \<open>What the upload of the archive leaves: the build, the objects to be stored, those removed, and the store.\<close>

record archive_upload =
  au_build :: reconstruction_build
  au_objects :: "reconstruction_objects option"
  au_written :: "stored_object list"
  au_removed :: "stored_object list"
  au_db :: cap_db

definition removed_objects :: "capture_links \<Rightarrow> unit answer \<Rightarrow> stored_object list \<Rightarrow> stored_object list" where
  "removed_objects L answer xs = filter (\<lambda>x. deleteObject (cw_bucket L) answer x = Inr ()) xs"

definition uploadReconstruction :: "capture_links \<Rightarrow> job_run \<Rightarrow> claimed_job \<Rightarrow> reconstruction_build \<Rightarrow> clone_build \<Rightarrow> string option \<Rightarrow> cap_db \<Rightarrow> archive_upload" where
  "uploadReconstruction L r t build b archive d =
     (let skipped = \<lparr> au_build = build, au_objects = None, au_written = [], au_removed = [], au_db = d \<rparr>;
          upload_failed = build_failed ''CLONE_ARTIFACT_UPLOAD_FAILED'' build
      in case (archive, bl_manifest b) of
           (Some file, Some manifest) \<Rightarrow>
             if bd_status build = BUILD_FAILED then skipped
             else
               (case putFile (cw_digests L) (cw_bucket L) (jr_put_archive r) (recon_prefix L t @ ''/weblens-static-clone.zip'') file
                       ''application/zip'' clone_max_archive of
                  Inl _ \<Rightarrow> skipped\<lparr>au_build := upload_failed\<rparr>
                | Inr x \<Rightarrow>
                    (case putObject (cw_digests L) (cw_bucket L) (jr_put_manifest r) (recon_prefix L t @ ''/manifest.json'')
                            (cw_manifest L manifest) ''application/json'' of
                       Inl _ \<Rightarrow> skipped\<lparr>au_build := upload_failed, au_written := [x], au_removed := removed_objects L (jr_delete r) [x]\<rparr>
                     | Inr y \<Rightarrow>
                         (let objects = \<lparr> ro_archive = x, ro_manifest = y \<rparr>
                          in case cap_call (\<lambda>e. stageReconstructionArtifacts (cw_platform L) e t objects) (jr_stage_recon r) d of
                               (Inl _, d1) \<Rightarrow> \<lparr> au_build = build_failed ''CLONE_ARTIFACT_STAGING_FAILED'' build, au_objects = None,
                                  au_written = [x, y], au_removed = [], au_db = d1 \<rparr>
                             | (Inr _, d1) \<Rightarrow> \<lparr> au_build = build, au_objects = Some objects, au_written = [x, y],
                                  au_removed = [], au_db = d1 \<rparr>)))
         | _ \<Rightarrow> skipped)"

record uploads =
  up_html :: stored_object
  up_screenshot :: stored_object
  up_resources :: "(resource_body \<times> stored_object) list"

definition upload_capture :: "capture_links \<Rightarrow> job_run \<Rightarrow> claimed_job \<Rightarrow> capture_result \<Rightarrow> string + uploads" where
  "upload_capture L r t res =
     rbind (put_object L (jr_put r 0) (job_prefix L t @ ''/rendered.html'') (cr_html res) ''text/html; charset=utf-8'') (\<lambda>h.
     rbind (put_object L (jr_put r 1) (job_prefix L t @ ''/screenshot.jpg'') (cr_screenshot res) ''image/jpeg'') (\<lambda>s.
     rbind (put_resources L (jr_put r) t 2 (cr_resource_bodies res)) (\<lambda>xs.
       Inr \<lparr> up_html = h, up_screenshot = s, up_resources = xs \<rparr>)))"

definition capture_code :: "string \<Rightarrow> string" where
  "capture_code = bounded_code_or ''CAPTURE_FAILED''"

record job_end =
  je_result :: "string + unit"
  je_db :: cap_db
  je_removed :: "stored_object list"

text \<open>The \<open>try\<close> block of \<open>jobLoop\<close>, and its \<open>catch\<close>.\<close>

definition job_work :: "capture_links \<Rightarrow> job_run \<Rightarrow> claimed_job \<Rightarrow> cap_db \<Rightarrow> job_end" where
  "job_work L r t d =
     (case jr_capture r (cl_payload t) of
        Inl m \<Rightarrow> \<lparr> je_result = Inl m, je_db = d, je_removed = [] \<rparr>
      | Inr x \<Rightarrow>
          (let (held, d1) = (if jr_lease_lost r then (Inr False, d) else cap_call (\<lambda>e. extendLease (cw_platform L) e t) (jr_extend r) d)
           in case rbind held (\<lambda>ok. if ok then upload_capture L r t (cp_result x) else Inl ''STALE_CAPTURE_LEASE'') of
                Inl m \<Rightarrow> \<lparr> je_result = Inl m, je_db = d1, je_removed = [] \<rparr>
              | Inr u \<Rightarrow>
                  (let a = uploadReconstruction L r t (cr_reconstruction (cp_result x)) (cp_build x) (cp_archive x) d1;
                       res = (cp_result x)\<lparr>cr_reconstruction := au_build a\<rparr>;
                       (staged, d2) = cap_call (\<lambda>e. stageResult (cw_platform L) e t res (up_html u) (up_screenshot u) (up_resources u)
                         (au_objects a)) (jr_stage r) (au_db a)
                   in \<lparr> je_result = staged, je_db = d2, je_removed = au_removed a \<rparr>)))"

definition job_turn :: "capture_links \<Rightarrow> job_run \<Rightarrow> claimed_job \<Rightarrow> cap_db \<Rightarrow> job_end" where
  "job_turn L r t d = (let w = job_work L r t d
     in case je_result w of
          Inr _ \<Rightarrow> w
        | Inl m \<Rightarrow> w\<lparr>je_db := snd (cap_call (\<lambda>e. failJob (cw_platform L) e t (capture_code m)) (jr_fail r) (je_db w))\<rparr>)"

section \<open>The other loops\<close>

record archive_collection =
  ac_claim :: "cap_env db_call"
  ac_delete :: "claimed_recon_artifact \<Rightarrow> unit answer"
  ac_complete :: "cap_env db_call"
  ac_retry :: "cap_env db_call"

definition archive_collection_turn :: "capture_links \<Rightarrow> archive_collection \<Rightarrow> cap_db \<Rightarrow> cap_db" where
  "archive_collection_turn L r = (let K = cw_platform L in
     work_round (cap_call (claimReconArtifact K) (ac_claim r))
       (\<lambda>g. lift_message storage_message (deleteObject (cw_bucket L) (ac_delete r g) (cg_object g)))
       (\<lambda>g. cap_call (\<lambda>e. completeReconArtifact K e g) (ac_complete r)) (\<lambda>g. cap_call (\<lambda>e. retryReconArtifact K e g) (ac_retry r)))"

record analytics_run =
  aw_claim :: "cap_env db_call"
  aw_write :: "claimed_outbox \<Rightarrow> string + unit"
  aw_complete :: "cap_env db_call"
  aw_retry :: "cap_env db_call"

definition analytics_turn :: "capture_links \<Rightarrow> uuid \<Rightarrow> analytics_run \<Rightarrow> cap_db \<Rightarrow> cap_db" where
  "analytics_turn L worker r = (let K = cw_platform L in
     work_round (cap_call (\<lambda>e. claimAnalytics K e worker) (aw_claim r)) (aw_write r)
       (\<lambda>b. cap_call (\<lambda>e. completeAnalytics K e b) (aw_complete r))
       (\<lambda>b. cap_call (\<lambda>e. retryAnalytics K e b ''CLICKHOUSE_DELIVERY_FAILED'') (aw_retry r)))"

text \<open>\<open>fetch\<close> gives the status of the answer or an exception; \<open>response.ok\<close> is a status from 200 to 299.\<close>

definition control_accepted :: "string + nat \<Rightarrow> string + unit" where
  "control_accepted response = rbind response (\<lambda>status.
     if 200 \<le> status \<and> status < 300 then Inr () else Inl (''CONTROL_HTTP_'' @ decimal status))"

record event_run =
  vr_claim :: "cap_env db_call"
  vr_response :: "claimed_cap_event \<Rightarrow> string + nat"
  vr_complete :: "cap_env db_call"
  vr_retry :: "cap_env db_call"

definition event_turn :: "capture_links \<Rightarrow> uuid \<Rightarrow> event_run \<Rightarrow> cap_db \<Rightarrow> cap_db" where
  "event_turn L worker r = (let K = cw_platform L in
     work_round (cap_call (\<lambda>e. claimCaptureEvent K e worker) (vr_claim r)) (\<lambda>v. control_accepted (vr_response r v))
       (\<lambda>v. cap_call (\<lambda>e. completeCaptureEvent K e v) (vr_complete r))
       (\<lambda>v. cap_call (\<lambda>e. retryCaptureEvent K e v ''CONTROL_DELIVERY_FAILED'') (vr_retry r)))"

section \<open>The handlers refine the system\<close>

datatype cap_claim = JOB_CLAIM claimed_job | BATCH_CLAIM claimed_outbox | DELETION_CLAIM claimed_recon_artifact | NO_CAP_CLAIM

fun cap_admits :: "cap_claim \<Rightarrow> cap_sys \<Rightarrow> bool" where
  "cap_admits (JOB_CLAIM t) s = (t \<in> set (job_claims s))"
| "cap_admits (BATCH_CLAIM b) s = (b \<in> set (batch_claims s))"
| "cap_admits (DELETION_CLAIM g) s = (g \<in> set (deletion_claims s))"
| "cap_admits NO_CAP_CLAIM s = True"

lemma cap_claims_grow:
  assumes "cap_exec K e op s = Inr s1"
  shows "set (job_claims s) \<subseteq> set (job_claims s1)" "set (batch_claims s) \<subseteq> set (batch_claims s1)"
    "set (deletion_claims s) \<subseteq> set (deletion_claims s1)"
  using assms by (cases op; auto simp: cap_exec_Inr split: option.splits)+

interpretation cap: workers "cap_step K" cap_store cap_admits for K
proof
  fix s s1 c
  assume "cap_step K s s1" "cap_admits c s"
  then show "cap_admits c s1" by (elim cap_stepE) (cases c; auto dest: cap_claims_grow)
qed

abbreviation cap_runs :: "platform \<Rightarrow> cap_claim \<Rightarrow> cap_db \<Rightarrow> cap_db \<Rightarrow> bool" where
  "cap_runs K \<equiv> workers.runs (cap_step K) cap_store cap_admits"

lemma cap_op_runs:
  assumes "\<And>s. cap_admits c s \<Longrightarrow> holds_cap_claims op s"
    "\<And>s. cap_exec K e op s = silent (on_cap_store e s (txn e (cap_store s)))" "txn e d = Inr (r, d1)"
  shows "cap_runs K c d d1"
  unfolding cap.runs_def
proof (intro allI impI)
  fix s
  assume s: "cap_store s = d" "cap_admits c s"
  let ?s1 = "s\<lparr>cap_store := d1, horizon := max (horizon s) (t_now e)\<rparr>"
  have "cap_exec K e op s = Inr ?s1" using s(1) assms(2,3) by (simp add: silent_def on_cap_store_def)
  then have "cap_step K s ?s1" using assms(1) [OF s(2)] by (rule cap_step.step [rotated])
  then show "\<exists>s1. cap_steps K s s1 \<and> cap_store s1 = d1" by (intro exI [of _ ?s1]) auto
qed

lemma cap_call_runs:
  assumes "\<And>s. cap_admits c s \<Longrightarrow> holds_cap_claims op s"
    "\<And>e s. cap_exec K e op s = silent (on_cap_store e s (txn e (cap_store s)))"
  shows "cap_runs K c d (snd (cap_call txn x d))"
  unfolding cap_call_def by (rule cap.runs_called) (rule cap_op_runs [OF assms])

lemma cap_calls_run:
  "cap_runs K (JOB_CLAIM t) d (snd (cap_call (\<lambda>e. extendLease K e t) x d))"
  "cap_runs K (JOB_CLAIM t) d (snd (cap_call (\<lambda>e. stageReconstructionArtifacts K e t objs) x d))"
  "cap_runs K (JOB_CLAIM t) d (snd (cap_call (\<lambda>e. stageResult K e t res h s xs ro) x d))"
  "cap_runs K (JOB_CLAIM t) d (snd (cap_call (\<lambda>e. failJob K e t m) x d))"
  "cap_runs K (BATCH_CLAIM b) d (snd (cap_call (\<lambda>e. completeAnalytics K e b) x d))"
  "cap_runs K (BATCH_CLAIM b) d (snd (cap_call (\<lambda>e. retryAnalytics K e b m) x d))"
  "cap_runs K (DELETION_CLAIM g) d (snd (cap_call (\<lambda>e. completeReconArtifact K e g) x d))"
  "cap_runs K (DELETION_CLAIM g) d (snd (cap_call (\<lambda>e. retryReconArtifact K e g) x d))"
  "cap_runs K NO_CAP_CLAIM d (snd (cap_call (\<lambda>e. claimCaptureEvent K e w) x d))"
  "cap_runs K NO_CAP_CLAIM d (snd (cap_call (\<lambda>e. completeCaptureEvent K e v) x d))"
  "cap_runs K NO_CAP_CLAIM d (snd (cap_call (\<lambda>e. retryCaptureEvent K e v m) x d))"
proof -
  show "cap_runs K (JOB_CLAIM t) d (snd (cap_call (\<lambda>e. extendLease K e t) x d))"
    by (rule cap_call_runs [where op = "ExtendLease t"]) simp_all
  show "cap_runs K (JOB_CLAIM t) d (snd (cap_call (\<lambda>e. stageReconstructionArtifacts K e t objs) x d))"
    by (rule cap_call_runs [where op = "StageReconstruction t objs"]) simp_all
  show "cap_runs K (JOB_CLAIM t) d (snd (cap_call (\<lambda>e. stageResult K e t res h s xs ro) x d))"
    by (rule cap_call_runs [where op = "StageResult t res h s xs ro"]) simp_all
  show "cap_runs K (JOB_CLAIM t) d (snd (cap_call (\<lambda>e. failJob K e t m) x d))"
    by (rule cap_call_runs [where op = "FailJob t m"]) simp_all
  show "cap_runs K (BATCH_CLAIM b) d (snd (cap_call (\<lambda>e. completeAnalytics K e b) x d))"
    by (rule cap_call_runs [where op = "CompleteAnalytics b"]) simp_all
  show "cap_runs K (BATCH_CLAIM b) d (snd (cap_call (\<lambda>e. retryAnalytics K e b m) x d))"
    by (rule cap_call_runs [where op = "RetryAnalytics b m"]) simp_all
  show "cap_runs K (DELETION_CLAIM g) d (snd (cap_call (\<lambda>e. completeReconArtifact K e g) x d))"
    by (rule cap_call_runs [where op = "CompleteReconArtifact g"]) simp_all
  show "cap_runs K (DELETION_CLAIM g) d (snd (cap_call (\<lambda>e. retryReconArtifact K e g) x d))"
    by (rule cap_call_runs [where op = "RetryReconArtifact g"]) simp_all
  show "cap_runs K NO_CAP_CLAIM d (snd (cap_call (\<lambda>e. claimCaptureEvent K e w) x d))"
    by (rule cap_call_runs [where op = "ClaimCaptureEvent w"]) simp_all
  show "cap_runs K NO_CAP_CLAIM d (snd (cap_call (\<lambda>e. completeCaptureEvent K e v) x d))"
    by (rule cap_call_runs [where op = "CompleteCaptureEvent v"]) simp_all
  show "cap_runs K NO_CAP_CLAIM d (snd (cap_call (\<lambda>e. retryCaptureEvent K e v m) x d))"
    by (rule cap_call_runs [where op = "RetryCaptureEvent v m"]) simp_all
qed

lemma upload_runs: "cap_runs (cw_platform L) (JOB_CLAIM t) d (au_db (uploadReconstruction L r t build b archive d))"
proof -
  have "cap_runs (cw_platform L) (JOB_CLAIM t) d d1" if "cap_call (\<lambda>e. stageReconstructionArtifacts (cw_platform L) e t objs) x d = (y, d1)"
    for objs x y d1
    using cap_calls_run(2) [of "cw_platform L" t d objs x] that by simp
  then show ?thesis
    by (auto simp: uploadReconstruction_def Let_def split: option.split sum.split prod.split)
qed

lemma job_work_runs: "cap_runs (cw_platform L) (JOB_CLAIM t) d (je_db (job_work L r t d))"
proof (cases "jr_capture r (cl_payload t)")
  case (Inl m)
  then show ?thesis by (simp add: job_work_def)
next
  case (Inr x)
  obtain held d1 where h: "(if jr_lease_lost r then (Inr False, d) else cap_call (\<lambda>e. extendLease (cw_platform L) e t) (jr_extend r) d) = (held, d1)"
    by fastforce
  then have d1: "cap_runs (cw_platform L) (JOB_CLAIM t) d d1"
    using cap_calls_run(1) [of "cw_platform L" t d "jr_extend r"] by (auto split: if_splits)
  show ?thesis
  proof (cases "rbind held (\<lambda>ok. if ok then upload_capture L r t (cp_result x) else Inl ''STALE_CAPTURE_LEASE'')")
    case (Inl m)
    then show ?thesis using Inr h d1 by (simp add: job_work_def)
  next
    case (Inr u)
    let ?a = "uploadReconstruction L r t (cr_reconstruction (cp_result x)) (cp_build x) (cp_archive x) d1"
    have "cap_runs (cw_platform L) (JOB_CLAIM t) d (au_db ?a)" using d1 upload_runs by (rule cap.runs_trans)
    then show ?thesis
      using \<open>jr_capture r (cl_payload t) = Inr x\<close> h Inr cap_calls_run(3)
      by (auto simp: job_work_def Let_def case_prod_beta intro: cap.runs_trans)
  qed
qed

lemma job_runs: "cap_runs (cw_platform L) (JOB_CLAIM t) d (je_db (job_turn L r t d))"
  using cap.runs_trans [OF job_work_runs cap_calls_run(4)] job_work_runs
  by (auto simp: job_turn_def Let_def split: sum.split)

lemma free_cap_runs: "cap_runs K NO_CAP_CLAIM d d1 \<Longrightarrow> cap_store s = d \<Longrightarrow> \<exists>s1. cap_steps K s s1 \<and> cap_store s1 = d1"
  by (auto simp: cap.runs_def)

lemma free_cap_grants: "cap_runs K NO_CAP_CLAIM d d1 \<Longrightarrow> workers.grants (cap_step K) cap_store cap_admits NO_CAP_CLAIM d d1"
  by (auto simp: cap.runs_def cap.grants_def)

lemma event_turn_runs: "cap_store s = d \<Longrightarrow> \<exists>s1. cap_steps (cw_platform L) s s1 \<and> cap_store s1 = event_turn L w r d"
  unfolding event_turn_def Let_def
proof (rule cap.round_steps [where tag = "\<lambda>_. NO_CAP_CLAIM"])
  fix q d1
  assume "cap_call (\<lambda>e. claimCaptureEvent (cw_platform L) e w) (vr_claim r) d = (q, d1)"
  then have "cap_runs (cw_platform L) NO_CAP_CLAIM d d1"
    using cap_calls_run(9) [of "cw_platform L" d w "vr_claim r"] by simp
  then show "cap_store s = d \<Longrightarrow> \<exists>s1. cap_steps (cw_platform L) s s1 \<and> cap_store s1 = d1" by (rule free_cap_runs)
next
  fix v d1
  assume "cap_call (\<lambda>e. claimCaptureEvent (cw_platform L) e w) (vr_claim r) d = (Inr (Some v), d1)"
  then have "cap_runs (cw_platform L) NO_CAP_CLAIM d d1"
    using cap_calls_run(9) [of "cw_platform L" d w "vr_claim r"] by simp
  then show "workers.grants (cap_step (cw_platform L)) cap_store cap_admits NO_CAP_CLAIM d d1" by (rule free_cap_grants)
qed (rule cap_calls_run)+

text \<open>A claim of a batch or of an archive to delete is among the claims of the system.\<close>

lemma claimed_steps:
  assumes exec: "\<And>e s. cap_exec K e op s = keep_claim put (on_cap_store e s (txn e (cap_store s)))"
    and held: "\<And>s. holds_cap_claims op s" and put: "\<And>x s. cap_admits (tag x) (put x s) \<and> cap_store (put x s) = cap_store s"
    and call: "cap_call txn x d = (q, d1)" and db: "cap_store s = d"
  shows "\<exists>s1. cap_steps K s s1 \<and> cap_store s1 = d1 \<and> (\<forall>y. q = Inr (Some y) \<longrightarrow> cap_admits (tag y) s1)"
  using called_cases [OF call [unfolded cap_call_def]]
proof
  assume "\<exists>y. txn (dbl_env x) d = Inr (y, d1) \<and> (q = Inr y \<or> q = Inl lost_message)"
  then obtain y where y: "txn (dbl_env x) d = Inr (y, d1)" "q = Inr y \<or> q = Inl lost_message" by blast
  let ?s = "s\<lparr>cap_store := d1, horizon := max (horizon s) (t_now (dbl_env x))\<rparr>"
  let ?s1 = "case y of None \<Rightarrow> ?s | Some z \<Rightarrow> put z ?s"
  have "cap_exec K (dbl_env x) op s = Inr ?s1"
    using y(1) db by (simp add: exec keep_claim_def on_cap_store_def split: option.split)
  then have "cap_step K s ?s1" using held by (rule cap_step.step [rotated])
  moreover have "cap_store ?s1 = d1" using put by (simp split: option.split)
  moreover have "\<forall>z. q = Inr (Some z) \<longrightarrow> cap_admits (tag z) ?s1" using y(2) put by auto
  ultimately show ?thesis by blast
next
  assume "d1 = d \<and> (\<exists>m. q = Inl m)"
  then show ?thesis using db by auto
qed

lemma archive_collection_runs:
  assumes "cap_store s = d"
  shows "\<exists>s1. cap_steps (cw_platform L) s s1 \<and> cap_store s1 = archive_collection_turn L r d"
  unfolding archive_collection_turn_def Let_def
proof (rule cap.round_steps [where tag = DELETION_CLAIM])
  let ?K = "cw_platform L"
  have claim: "\<exists>s1. cap_steps ?K s s1 \<and> cap_store s1 = d1 \<and> (\<forall>y. q = Inr (Some y) \<longrightarrow> cap_admits (DELETION_CLAIM y) s1)"
    if "cap_call (claimReconArtifact ?K) (ac_claim r) d = (q, d1)" "cap_store s = d" for q d1 s
    using claimed_steps [where op = ClaimReconArtifact and tag = DELETION_CLAIM
        and put = "\<lambda>t s. s\<lparr>deletion_claims := t # deletion_claims s\<rparr>" and K = ?K, OF _ _ _ that] by simp
  show "\<exists>s1. cap_steps ?K s s1 \<and> cap_store s1 = d1" if "cap_call (claimReconArtifact ?K) (ac_claim r) d = (q, d1)" for q d1
    using claim [OF that assms] by blast
  show "workers.grants (cap_step ?K) cap_store cap_admits (DELETION_CLAIM g) d d1"
    if "cap_call (claimReconArtifact ?K) (ac_claim r) d = (Inr (Some g), d1)" for g d1
    using claim [OF that] unfolding cap.grants_def by blast
qed (rule cap_calls_run assms)+

lemma analytics_runs:
  assumes "cap_store s = d"
  shows "\<exists>s1. cap_steps (cw_platform L) s s1 \<and> cap_store s1 = analytics_turn L w r d"
  unfolding analytics_turn_def Let_def
proof (rule cap.round_steps [where tag = BATCH_CLAIM])
  let ?K = "cw_platform L"
  let ?claim = "\<lambda>e. claimAnalytics ?K e w"
  have claim: "\<exists>s1. cap_steps ?K s s1 \<and> cap_store s1 = d1 \<and> (\<forall>y. q = Inr (Some y) \<longrightarrow> cap_admits (BATCH_CLAIM y) s1)"
    if "cap_call ?claim (aw_claim r) d = (q, d1)" "cap_store s = d" for q d1 s
    using claimed_steps [where op = "ClaimAnalytics w" and tag = BATCH_CLAIM
        and put = "\<lambda>t s. s\<lparr>batch_claims := t # batch_claims s\<rparr>" and K = ?K, OF _ _ _ that] by simp
  show "\<exists>s1. cap_steps ?K s s1 \<and> cap_store s1 = d1" if "cap_call ?claim (aw_claim r) d = (q, d1)" for q d1
    using claim [OF that assms] by blast
  show "workers.grants (cap_step ?K) cap_store cap_admits (BATCH_CLAIM b) d d1"
    if "cap_call ?claim (aw_claim r) d = (Inr (Some b), d1)" for b d1
    using claim [OF that] unfolding cap.grants_def by blast
qed (rule cap_calls_run assms)+

section \<open>Objects removed after a failed upload\<close>

text \<open>An archive that was removed again has changed no row and is not named by the staged result.\<close>

lemma upload_removed:
  assumes "au_removed (uploadReconstruction L r t build b archive d) \<noteq> []"
  shows "au_objects (uploadReconstruction L r t build b archive d) = None"
    "au_db (uploadReconstruction L r t build b archive d) = d"
    "bd_status (au_build (uploadReconstruction L r t build b archive d)) = BUILD_FAILED"
  using assms
  by (auto simp: uploadReconstruction_def Let_def build_failed_def split: option.splits sum.splits prod.splits if_splits)

end
