(* ===== verification/Analytics_Rows.thy ===== *)
theory Analytics_Rows
  imports Worker_Loops Capture_Results "HOL-Library.Multiset"
begin

text \<open>
  The analytics store (\<open>capture-worker/src/analytics.ts\<close>): the four tables a delivery of a capture is written to,
  each by its own insertion that may fail, and the list of requests that is read back. The engine of the tables
  keeps every inserted row and a query with \<open>final\<close> sees the last row of the newest version per key. Deliveries that
  failed half-way and were repeated are not visible in what is read.
\<close>

section \<open>Tables\<close>

definition as_bit :: "bool \<Rightarrow> nat" where
  "as_bit b = (if b then 1 else 0)"

record measured_columns =
  mq_status :: measurement_status
  mq_value :: rat
  mq_reason :: string

definition measured_columns_of :: "measurement \<Rightarrow> measured_columns" where
  "measured_columns_of m = \<lparr> mq_status = me_status m, mq_value = coalesce (me_value m) 0, mq_reason = coalesce (me_unavailable_reason m) [] \<rparr>"

record metrics_row =
  mr_owner :: uuid
  mr_capture :: uuid
  mr_scan :: uuid
  mr_page :: uuid
  mr_version :: nat
  mr_final_url :: string
  mr_rendered :: rendered_metadata
  mr_changed :: "nat list"
  mr_link_delta :: int
  mr_image_delta :: int
  mr_lcp :: measured_columns
  mr_cls :: measured_columns
  mr_ttfb :: measured_columns
  mr_profile :: string
  mr_browser :: string
  mr_observed :: time
  mr_ingested :: time

record request_row =
  nr_owner :: uuid
  nr_capture :: uuid
  nr_version :: nat
  nr_entry :: network_record
  nr_observed :: time
  nr_ingested :: time

record body_row =
  br_owner :: uuid
  br_capture :: uuid
  br_version :: nat
  br_body :: analytics_body
  br_truncated :: nat
  br_observed :: time
  br_ingested :: time

record receipt_row =
  rc_owner :: uuid
  rc_capture :: uuid
  rc_batch :: uuid
  rc_sha :: digest
  rc_request_rows :: nat
  rc_body_rows :: nat
  rc_ingested :: time

record analytics_tables =
  at_metrics :: "metrics_row list"
  at_requests :: "request_row list"
  at_bodies :: "body_row list"
  at_receipts :: "receipt_row list"

definition metrics_row_of :: "time \<Rightarrow> analytics_payload \<Rightarrow> metrics_row" where
  "metrics_row_of now_time p = (let df = ap_diff p; pf = ap_performance p in
    \<lparr> mr_owner = ap_owner p, mr_capture = ap_capture_request p, mr_scan = ap_scan p, mr_page = ap_page p,
      mr_version = ap_record_version p, mr_final_url = ap_final_url p, mr_rendered = ap_rendered p,
      mr_changed = map as_bit [df_title_changed df, df_description_changed df, df_canonical_changed df, df_h1_changed df,
        df_content_changed df, df_schema_types_changed df],
      mr_link_delta = df_link_count_delta df, mr_image_delta = df_image_count_delta df,
      mr_lcp = measured_columns_of (pf_lcp pf), mr_cls = measured_columns_of (pf_cls pf),
      mr_ttfb = measured_columns_of (pf_ttfb pf), mr_profile = me_profile_version (pf_lcp pf),
      mr_browser = ap_browser_version p, mr_observed = ap_observed_at p, mr_ingested = now_time \<rparr>)"

definition request_row_of :: "time \<Rightarrow> analytics_payload \<Rightarrow> network_record \<Rightarrow> request_row" where
  "request_row_of now_time p x = \<lparr> nr_owner = ap_owner p, nr_capture = ap_capture_request p, nr_version = ap_record_version p,
     nr_entry = x, nr_observed = ap_observed_at p, nr_ingested = now_time \<rparr>"

definition body_row_of :: "time \<Rightarrow> analytics_payload \<Rightarrow> analytics_body \<Rightarrow> body_row" where
  "body_row_of now_time p x = \<lparr> br_owner = ap_owner p, br_capture = ap_capture_request p, br_version = ap_record_version p,
     br_body = x, br_truncated = as_bit (ab_was_truncated x), br_observed = ap_observed_at p, br_ingested = now_time \<rparr>"

definition receipt_row_of :: "time \<Rightarrow> analytics_payload \<Rightarrow> digest \<Rightarrow> receipt_row" where
  "receipt_row_of now_time p sha = \<lparr> rc_owner = ap_owner p, rc_capture = ap_capture_request p, rc_batch = ap_batch p, rc_sha = sha,
     rc_request_rows = length (ap_network p), rc_body_rows = length (ap_resource_bodies p), rc_ingested = now_time \<rparr>"

section \<open>Writing a delivery\<close>

text \<open>An insertion is applied as a whole or not at all; a lost connection does not tell which.\<close>

definition inserted :: "connection \<Rightarrow> ('t \<Rightarrow> 't) \<Rightarrow> 't \<Rightarrow> (string + unit) \<times> 't" where
  "inserted c f t = (case c of SOUND \<Rightarrow> (Inr (), f t) | LOST_BEFORE \<Rightarrow> (Inl lost_message, t) | LOST_AFTER \<Rightarrow> (Inl lost_message, f t))"

definition receipt_of :: "analytics_payload \<Rightarrow> receipt_row \<Rightarrow> bool" where
  "receipt_of p x \<longleftrightarrow> rc_owner x = ap_owner p \<and> rc_capture x = ap_capture_request p \<and> rc_batch x = ap_batch p"

record batch_run =
  dr_read :: "string option"
  dr_metrics :: connection
  dr_requests :: connection
  dr_bodies :: connection
  dr_receipt :: connection
  dr_now :: time

definition write_rows :: "batch_run \<Rightarrow> analytics_payload \<Rightarrow> digest \<Rightarrow> analytics_tables \<Rightarrow> (string + unit) \<times> analytics_tables" where
  "write_rows r p sha t =
     and_then (inserted (dr_metrics r) (\<lambda>t. t\<lparr>at_metrics := at_metrics t @ [metrics_row_of (dr_now r) p]\<rparr>) t) (\<lambda>_ t.
     and_then (if ap_network p = [] then (Inr (), t)
       else inserted (dr_requests r) (\<lambda>t. t\<lparr>at_requests := at_requests t @ map (request_row_of (dr_now r) p) (ap_network p)\<rparr>) t) (\<lambda>_ t.
     and_then (if ap_resource_bodies p = [] then (Inr (), t)
       else inserted (dr_bodies r) (\<lambda>t. t\<lparr>at_bodies := at_bodies t @ map (body_row_of (dr_now r) p) (ap_resource_bodies p)\<rparr>) t) (\<lambda>_ t.
     inserted (dr_receipt r) (\<lambda>t. t\<lparr>at_receipts := at_receipts t @ [receipt_row_of (dr_now r) p sha]\<rparr>) t)))"

text \<open>\<open>write\<close>: a batch with a receipt has been written before.\<close>

definition write_batch :: "batch_run \<Rightarrow> analytics_payload \<Rightarrow> digest \<Rightarrow> analytics_tables \<Rightarrow> (string + unit) \<times> analytics_tables" where
  "write_batch r p sha t =
     (case dr_read r of
        Some m \<Rightarrow> (Inl m, t)
      | None \<Rightarrow> if list_ex (receipt_of p) (at_receipts t) then (Inr (), t) else write_rows r p sha t)"

section \<open>Reading\<close>

text \<open>What \<open>final\<close> sees of rows with a key and a version, oldest insertion first.\<close>

definition superseded :: "('r \<Rightarrow> 'k) \<Rightarrow> ('r \<Rightarrow> nat) \<Rightarrow> 'r \<Rightarrow> 'r list \<Rightarrow> bool" where
  "superseded key ver x later \<longleftrightarrow> list_ex (\<lambda>y. key y = key x \<and> ver x \<le> ver y) later"

fun final_rows :: "('r \<Rightarrow> 'k) \<Rightarrow> ('r \<Rightarrow> nat) \<Rightarrow> 'r list \<Rightarrow> 'r list" where
  "final_rows key ver [] = []"
| "final_rows key ver (x # xs) =
     (if superseded key ver x xs then final_rows key ver xs
      else x # final_rows key ver (filter (\<lambda>y. key y \<noteq> key x) xs))"

definition request_key :: "request_row \<Rightarrow> (uuid \<times> uuid) \<times> nat \<times> string" where
  "request_key x = ((nr_owner x, nr_capture x), nw_sequence (nr_entry x), nw_request_id (nr_entry x))"

definition body_key :: "body_row \<Rightarrow> (uuid \<times> uuid) \<times> uuid" where
  "body_key x = ((br_owner x, br_capture x), ab_resource_id (br_body x))"

text \<open>The order of identifiers in the store is a parameter, a rank.\<close>

record id_order =
  request_rank :: "string \<Rightarrow> nat"
  resource_rank :: "uuid \<Rightarrow> nat"

definition select_requests :: "id_order \<Rightarrow> uuid \<Rightarrow> uuid \<Rightarrow> analytics_tables \<Rightarrow> network_record list" where
  "select_requests I owner capture t = take 500 (sort_key nw_sequence (sort_key (request_rank I \<circ> nw_request_id)
     (map nr_entry (filter (\<lambda>x. nr_owner x = owner \<and> nr_capture x = capture) (final_rows request_key nr_version (at_requests t))))))"

definition select_bodies :: "id_order \<Rightarrow> uuid \<Rightarrow> uuid \<Rightarrow> analytics_tables \<Rightarrow> analytics_body list" where
  "select_bodies I owner capture t = take 100 (sort_key ab_sequence (sort_key (resource_rank I \<circ> ab_resource_id)
     (map br_body (filter (\<lambda>x. br_owner x = owner \<and> br_capture x = capture) (final_rows body_key br_version (at_bodies t))))))"

record resource_record =
  rr_id :: string
  rr_url :: string
  rr_method :: string
  rr_status :: nat
  rr_type :: string
  rr_content_type :: string
  rr_size_bytes :: nat
  rr_duration_ms :: rat
  rr_body :: "analytics_body option"

text \<open>
  \<open>mergeResourceMetadata\<close> on rows with all columns: the first body of a sequence number wins. The fields
  \<open>bodyCaptured\<close> to \<open>bodyTruncated\<close> are those of \<open>rr_body\<close>.
\<close>

definition bodies_by_sequence :: "analytics_body list \<Rightarrow> nat \<rightharpoonup> analytics_body" where
  "bodies_by_sequence captured = foldl (\<lambda>m b. if m (ab_sequence b) = None then m(ab_sequence b \<mapsto> b) else m) Map.empty captured"

definition resource_record_of :: "(nat \<rightharpoonup> analytics_body) \<Rightarrow> network_record \<Rightarrow> resource_record" where
  "resource_record_of bodies x =
    \<lparr> rr_id = nw_request_id x, rr_url = nw_url x, rr_method = nw_method x, rr_status = nw_status_code x,
      rr_type = nw_resource_type x, rr_content_type = nw_mime_type x, rr_size_bytes = nw_response_bytes x,
      rr_duration_ms = nw_duration_ms x, rr_body = bodies (nw_sequence x) \<rparr>"

definition mergeResourceMetadata :: "network_record list \<Rightarrow> analytics_body list \<Rightarrow> resource_record list" where
  "mergeResourceMetadata network captured = map (resource_record_of (bodies_by_sequence captured)) network"

definition listResources :: "id_order \<Rightarrow> uuid \<Rightarrow> uuid \<Rightarrow> analytics_tables \<Rightarrow> resource_record list" where
  "listResources I owner capture t = mergeResourceMetadata (select_requests I owner capture t) (select_bodies I owner capture t)"

lemma bodies_by_sequence_find: "bodies_by_sequence xs n = find (\<lambda>b. ab_sequence b = n) xs"
proof -
  have "foldl (\<lambda>m b. if m (ab_sequence b) = None then m(ab_sequence b \<mapsto> b) else m) m0 xs n
     = (case m0 n of Some b \<Rightarrow> Some b | None \<Rightarrow> find (\<lambda>b. ab_sequence b = n) xs)" for m0
    by (induction xs arbitrary: m0) (auto split: option.split)
  then show ?thesis by (simp add: bodies_by_sequence_def)
qed

section \<open>Repeated deliveries are not visible\<close>

lemma final_rows_subset: "set (final_rows key ver xs) \<subseteq> set xs"
  by (induction key ver xs rule: final_rows.induct) (auto split: if_splits)

lemma final_rows_keys: "key ` set (final_rows key ver xs) = key ` set xs"
proof (induction key ver xs rule: final_rows.induct)
  case (2 key ver x xs)
  show ?case
  proof (cases "superseded key ver x xs")
    case True
    then obtain y where "y \<in> set xs" "key y = key x" by (auto simp: superseded_def list_ex_iff)
    then have "key x \<in> key ` set xs" by (metis imageI)
    then show ?thesis using True 2(1) by (simp add: insert_absorb)
  next
    case False
    have "insert (key x) (key ` {y \<in> set xs. key y \<noteq> key x}) = insert (key x) (key ` set xs)" by blast
    then show ?thesis using False 2(2) by simp
  qed
qed simp

lemma final_rows_distinct: "distinct (map key (final_rows key ver xs))"
proof (induction key ver xs rule: final_rows.induct)
  case (2 key ver x xs)
  then show ?case using final_rows_subset [of key ver "filter (\<lambda>y. key y \<noteq> key x) xs"] by (auto simp: image_iff)
qed simp

text \<open>The rows a table shows of a batch, however often it was inserted, are the batch's.\<close>

lemma final_rows_of_batch:
  assumes rows: "of_key ` set (filter P xs) = set ys" and keyed: "\<And>x. key x = (a x, k (of_key x))"
    and P: "\<And>x. P x \<longleftrightarrow> a x = c" and ys: "distinct (map k ys)"
  shows "mset (map of_key (filter P (final_rows key ver xs))) = mset ys"
proof -
  let ?f = "filter P (final_rows key ver xs)"
  have "distinct (map key ?f)" using final_rows_distinct [of key ver xs] by (rule distinct_map_filter)
  then have d: "distinct (map of_key ?f)"
    using P by (auto simp: distinct_map inj_on_def keyed)
  have "of_key ` set ?f = set ys"
  proof
    show "of_key ` set ?f \<subseteq> set ys" using rows final_rows_subset [of key ver xs] by auto
    show "set ys \<subseteq> of_key ` set ?f"
    proof
      fix y assume y: "y \<in> set ys"
      then have "y \<in> of_key ` set (filter P xs)" using rows by simp
      then obtain x where x: "x \<in> set xs" "P x" "of_key x = y" by auto
      then obtain z where z: "z \<in> set (final_rows key ver xs)" "key z = key x"
        using final_rows_keys [of key ver xs] by (metis (no_types, lifting) image_iff)
      then have zs: "z \<in> set xs" "P z" "k (of_key z) = k y" using final_rows_subset [of key ver xs] x P by (auto simp: keyed)
      then have "of_key z \<in> set ys" using rows by auto
      then have "of_key z = y" using zs(3) y ys by (auto simp: distinct_map inj_on_def)
      then show "y \<in> of_key ` set ?f" using z(1) zs(2) by auto
    qed
  qed
  moreover have "distinct ys" using ys by (simp add: distinct_map)
  ultimately show ?thesis using d set_eq_iff_mset_eq_distinct [of "map of_key ?f" ys] by simp
qed

definition entries :: "uuid \<Rightarrow> uuid \<Rightarrow> request_row list \<Rightarrow> network_record list" where
  "entries owner capture xs = map nr_entry (filter (\<lambda>x. nr_owner x = owner \<and> nr_capture x = capture) xs)"

definition bodies :: "uuid \<Rightarrow> uuid \<Rightarrow> body_row list \<Rightarrow> analytics_body list" where
  "bodies owner capture xs = map br_body (filter (\<lambda>x. br_owner x = owner \<and> br_capture x = capture) xs)"

lemma entries_append [simp]: "entries owner capture (xs @ ys) = entries owner capture xs @ entries owner capture ys"
  by (simp add: entries_def)

lemma bodies_append [simp]: "bodies owner capture (xs @ ys) = bodies owner capture xs @ bodies owner capture ys"
  by (simp add: bodies_def)

lemma entries_batch [simp]: "entries owner capture (map (request_row_of n p) xs)
    = (if ap_owner p = owner \<and> ap_capture_request p = capture then xs else [])"
  by (induction xs) (auto simp: entries_def request_row_of_def)

lemma bodies_batch [simp]: "bodies owner capture (map (body_row_of n p) xs)
    = (if ap_owner p = owner \<and> ap_capture_request p = capture then xs else [])"
  by (induction xs) (auto simp: bodies_def body_row_of_def)

definition shown_entries :: "analytics_payload \<Rightarrow> analytics_tables \<Rightarrow> network_record set" where
  "shown_entries p t = set (entries (ap_owner p) (ap_capture_request p) (at_requests t))"

definition shown_bodies :: "analytics_payload \<Rightarrow> analytics_tables \<Rightarrow> analytics_body set" where
  "shown_bodies p t = set (bodies (ap_owner p) (ap_capture_request p) (at_bodies t))"

definition rows_complete :: "analytics_payload \<Rightarrow> analytics_tables \<Rightarrow> bool" where
  "rows_complete p t \<longleftrightarrow> shown_entries p t = set (ap_network p) \<and> shown_bodies p t = set (ap_resource_bodies p)"

text \<open>The receipt comes last: with it the rows are all there.\<close>

definition batch_ok :: "analytics_payload \<Rightarrow> analytics_tables \<Rightarrow> bool" where
  "batch_ok p t \<longleftrightarrow> shown_entries p t \<subseteq> set (ap_network p) \<and> shown_bodies p t \<subseteq> set (ap_resource_bodies p)
     \<and> (list_ex (receipt_of p) (at_receipts t) \<longrightarrow> rows_complete p t)"

definition extended :: "'a list \<Rightarrow> 'a list \<Rightarrow> 'a list \<Rightarrow> bool" where
  "extended xs ys zs \<longleftrightarrow> zs = xs \<or> zs = xs @ ys"

lemma inserted_then:
  assumes "and_then (inserted c f t) g = (q, t1)"
  shows "q \<noteq> Inr () \<and> (t1 = t \<or> t1 = f t) \<or> g () (f t) = (q, t1)"
  using assms by (cases c) (auto simp: inserted_def and_then_def)

lemma rows_then:
  assumes "f t = t \<or> xs \<noteq> []" and "and_then (if xs = [] then (Inr (), t) else inserted c f t) g = (q, t1)"
  shows "q \<noteq> Inr () \<and> (t1 = t \<or> t1 = f t) \<or> g () (f t) = (q, t1)"
  using assms inserted_then [of c f t g q t1] by (cases "xs = []") (auto simp: and_then_def)

lemma write_rows_cases:
  assumes "write_rows r p sha t = (q, t1)"
  shows "extended (at_requests t) (map (request_row_of (dr_now r) p) (ap_network p)) (at_requests t1)
    \<and> extended (at_bodies t) (map (body_row_of (dr_now r) p) (ap_resource_bodies p)) (at_bodies t1)
    \<and> (at_receipts t1 = at_receipts t \<and> q \<noteq> Inr ()
       \<or> at_receipts t1 = at_receipts t @ [receipt_row_of (dr_now r) p sha]
         \<and> at_requests t1 = at_requests t @ map (request_row_of (dr_now r) p) (ap_network p)
         \<and> at_bodies t1 = at_bodies t @ map (body_row_of (dr_now r) p) (ap_resource_bodies p))"
    (is "?goal t1")
proof -
  let ?f1 = "\<lambda>t. t\<lparr>at_metrics := at_metrics t @ [metrics_row_of (dr_now r) p]\<rparr>"
  let ?f2 = "\<lambda>t. t\<lparr>at_requests := at_requests t @ map (request_row_of (dr_now r) p) (ap_network p)\<rparr>"
  let ?f3 = "\<lambda>t. t\<lparr>at_bodies := at_bodies t @ map (body_row_of (dr_now r) p) (ap_resource_bodies p)\<rparr>"
  let ?f4 = "\<lambda>t. t\<lparr>at_receipts := at_receipts t @ [receipt_row_of (dr_now r) p sha]\<rparr>"
  note d = extended_def
  have "?f2 (?f1 t) = ?f1 t \<or> ap_network p \<noteq> []" "?f3 (?f2 (?f1 t)) = ?f2 (?f1 t) \<or> ap_resource_bodies p \<noteq> []"
    by (cases t; cases "ap_network p"; cases "ap_resource_bodies p"; simp)+
  note empty = this
  have cut: ?thesis if "q \<noteq> Inr () \<and> (t1 = t \<or> t1 = ?f1 t) \<or> q \<noteq> Inr () \<and> (t1 = ?f1 t \<or> t1 = ?f2 (?f1 t))
      \<or> q \<noteq> Inr () \<and> (t1 = ?f2 (?f1 t) \<or> t1 = ?f3 (?f2 (?f1 t)))"
    using that by (elim disjE conjE) (simp_all add: d)
  from inserted_then [OF assms [unfolded write_rows_def]] show ?thesis
  proof (rule disjE)
    assume "q \<noteq> Inr () \<and> (t1 = t \<or> t1 = ?f1 t)" then show ?thesis by (intro cut disjI1)
  next
    assume step: "and_then (if ap_network p = [] then (Inr (), ?f1 t) else inserted (dr_requests r) ?f2 (?f1 t)) (\<lambda>_ t.
      and_then (if ap_resource_bodies p = [] then (Inr (), t) else inserted (dr_bodies r) ?f3 t) (\<lambda>_ t.
      inserted (dr_receipt r) ?f4 t)) = (q, t1)"
    from rows_then [OF empty(1) step] show ?thesis
    proof (rule disjE)
      assume "q \<noteq> Inr () \<and> (t1 = ?f1 t \<or> t1 = ?f2 (?f1 t))" then show ?thesis by (intro cut disjI2 disjI1)
    next
      assume step: "and_then (if ap_resource_bodies p = [] then (Inr (), ?f2 (?f1 t)) else inserted (dr_bodies r) ?f3 (?f2 (?f1 t))) (\<lambda>_ t.
        inserted (dr_receipt r) ?f4 t) = (q, t1)"
      from rows_then [OF empty(2) step] show ?thesis
      proof (rule disjE)
        assume "q \<noteq> Inr () \<and> (t1 = ?f2 (?f1 t) \<or> t1 = ?f3 (?f2 (?f1 t)))" then show ?thesis by (intro cut disjI2)
      next
        assume "inserted (dr_receipt r) ?f4 (?f3 (?f2 (?f1 t))) = (q, t1)"
        then show ?thesis by (cases "dr_receipt r") (auto simp: d inserted_def)
      qed
    qed
  qed
qed

lemma rows_ok:
  assumes "batch_ok p t" "write_rows r p sha t = (q, t1)"
  shows "batch_ok p t1" "q = Inr () \<Longrightarrow> rows_complete p t1"
  using assms(1) write_rows_cases [OF assms(2)]
  by (auto simp: batch_ok_def rows_complete_def extended_def shown_entries_def shown_bodies_def)

lemma other_rows:
  assumes "\<not> (ap_owner q = ap_owner p \<and> ap_capture_request q = ap_capture_request p)" "write_rows r q sha t = (x, t1)"
  shows "shown_entries p t1 = shown_entries p t" "shown_bodies p t1 = shown_bodies p t"
    "list_ex (receipt_of p) (at_receipts t1) = list_ex (receipt_of p) (at_receipts t)"
  using assms(1) write_rows_cases [OF assms(2)]
  by (auto simp: extended_def shown_entries_def shown_bodies_def receipt_of_def receipt_row_of_def)

lemma write_other:
  assumes "\<not> (ap_owner q = ap_owner p \<and> ap_capture_request q = ap_capture_request p)" "batch_ok p t"
  shows "batch_ok p (snd (write_batch r q sha t))"
  using assms other_rows [OF assms(1), of r sha t]
  by (cases "write_rows r q sha t") (auto simp: write_batch_def batch_ok_def rows_complete_def split: option.split)

lemma write_ok:
  assumes "batch_ok p t"
  shows "batch_ok p (snd (write_batch r p sha t))" "fst (write_batch r p sha t) = Inr () \<Longrightarrow> rows_complete p (snd (write_batch r p sha t))"
  using assms rows_ok [OF assms, of r sha]
  by (cases "write_rows r p sha t"; auto simp: write_batch_def batch_ok_def split: option.splits if_splits)+

text \<open>Deliveries in the order they are attempted.\<close>

fun write_all :: "(batch_run \<times> analytics_payload \<times> digest) list \<Rightarrow> analytics_tables \<Rightarrow> analytics_tables" where
  "write_all [] t = t"
| "write_all ((r, p, sha) # xs) t = write_all xs (snd (write_batch r p sha t))"

definition empty_tables :: analytics_tables where
  "empty_tables = \<lparr> at_metrics = [], at_requests = [], at_bodies = [], at_receipts = [] \<rparr>"

lemma write_all_ok:
  assumes "\<forall>(r, q, sha) \<in> set xs. q = p \<or> \<not> (ap_owner q = ap_owner p \<and> ap_capture_request q = ap_capture_request p)" "batch_ok p t"
  shows "batch_ok p (write_all xs t)"
  using assms
proof (induction xs t rule: write_all.induct)
  case (2 r q sha xs t)
  then show ?case using write_ok(1) [of p t r sha] write_other [of q p t r sha] by auto
qed simp

lemma sorted_rows:
  assumes "mset xs = mset ys" "distinct (map f ys)"
  shows "sort_key f (sort_key g xs) = sort_key f ys"
proof (rule sort_key_inj_key_eq)
  have "set xs = set ys" using assms(1) by (rule mset_eq_setD)
  then show "inj_on f (set (sort_key g xs))" using assms(2) by (simp add: distinct_map)
qed (use assms(1) in simp_all)

lemma selected_requests:
  assumes "rows_complete p t" "distinct (map nw_sequence (ap_network p))" "length (ap_network p) \<le> 500"
  shows "select_requests I (ap_owner p) (ap_capture_request p) t = sort_key nw_sequence (ap_network p)"
proof -
  have "distinct (map (\<lambda>x. (nw_sequence x, nw_request_id x)) (ap_network p))"
    using assms(2) by (auto simp: distinct_map inj_on_def)
  then have "mset (entries (ap_owner p) (ap_capture_request p) (final_rows request_key nr_version (at_requests t))) = mset (ap_network p)"
    using assms(1) unfolding entries_def
    by (intro final_rows_of_batch [where a = "\<lambda>x. (nr_owner x, nr_capture x)" and c = "(ap_owner p, ap_capture_request p)"])
      (auto simp: rows_complete_def shown_entries_def entries_def request_key_def)
  from sorted_rows [where g = "request_rank I \<circ> nw_request_id", OF this assms(2)] show ?thesis
    using assms(3) by (simp add: select_requests_def entries_def)
qed

lemma selected_bodies:
  assumes "rows_complete p t" "distinct (map ab_resource_id (ap_resource_bodies p))" "distinct (map ab_sequence (ap_resource_bodies p))"
    "length (ap_resource_bodies p) \<le> 100"
  shows "select_bodies I (ap_owner p) (ap_capture_request p) t = sort_key ab_sequence (ap_resource_bodies p)"
proof -
  have "mset (bodies (ap_owner p) (ap_capture_request p) (final_rows body_key br_version (at_bodies t))) = mset (ap_resource_bodies p)"
    using assms(1,2) unfolding bodies_def
    by (intro final_rows_of_batch [where a = "\<lambda>x. (br_owner x, br_capture x)" and c = "(ap_owner p, ap_capture_request p)"])
      (auto simp: rows_complete_def shown_bodies_def bodies_def body_key_def)
  from sorted_rows [where g = "resource_rank I \<circ> ab_resource_id", OF this assms(3)] show ?thesis
    using assms(4) by (simp add: select_bodies_def bodies_def)
qed

lemma listed_when_complete:
  assumes "rows_complete p t" "distinct (map nw_sequence (ap_network p))" "length (ap_network p) \<le> 500"
    "distinct (map ab_resource_id (ap_resource_bodies p))" "distinct (map ab_sequence (ap_resource_bodies p))"
    "length (ap_resource_bodies p) \<le> 100"
  shows "listResources I (ap_owner p) (ap_capture_request p) t
    = map (resource_record_of (map_of (map (\<lambda>b. (ab_sequence b, b)) (ap_resource_bodies p)))) (sort_key nw_sequence (ap_network p))"
proof -
  let ?bs = "ap_resource_bodies p"
  let ?pair = "\<lambda>b. (ab_sequence b, b)"
  have fst: "map fst (map ?pair xs) = map ab_sequence xs" for xs by simp
  have same_map: "map_of (map ?pair (sort_key ab_sequence ?bs)) = map_of (map ?pair ?bs)"
    by (subst map_of_inject_set) (use assms(5) in \<open>simp_all only: fst distinct_map set_map set_sort distinct_sort simp_thms\<close>)
  have "bodies_by_sequence (sort_key ab_sequence ?bs) = map_of (map (\<lambda>b. (ab_sequence b, b)) ?bs)"
  proof
    fix n
    have "map_of (map (\<lambda>b. (ab_sequence b, b)) xs) n = find (\<lambda>b. ab_sequence b = n) xs" for xs :: "analytics_body list"
      by (induction xs) auto
    then have "bodies_by_sequence (sort_key ab_sequence ?bs) n = map_of (map (\<lambda>b. (ab_sequence b, b)) (sort_key ab_sequence ?bs)) n"
      by (simp add: bodies_by_sequence_find)
    also have "\<dots> = map_of (map (\<lambda>b. (ab_sequence b, b)) ?bs) n"
      by (rule fun_cong) (rule same_map)
    finally show "bodies_by_sequence (sort_key ab_sequence ?bs) n = map_of (map (\<lambda>b. (ab_sequence b, b)) ?bs) n" .
  qed
  then show ?thesis
    using selected_requests [OF assms(1-3)] selected_bodies [OF assms(1,4-6)] by (simp add: listResources_def mergeResourceMetadata_def)
qed

lemma deliveries_listed_when_written:
  assumes others: "\<forall>(r, q, sha) \<in> set xs. q = p \<or> \<not> (ap_owner q = ap_owner p \<and> ap_capture_request q = ap_capture_request p)"
    and written: "write_batch r p sha (write_all xs empty_tables) = (Inr (), t)"
    and "distinct (map nw_sequence (ap_network p))" "length (ap_network p) \<le> 500"
    "distinct (map ab_resource_id (ap_resource_bodies p))" "distinct (map ab_sequence (ap_resource_bodies p))"
    "length (ap_resource_bodies p) \<le> 100"
  shows "listResources I (ap_owner p) (ap_capture_request p) t
    = map (resource_record_of (map_of (map (\<lambda>b. (ab_sequence b, b)) (ap_resource_bodies p)))) (sort_key nw_sequence (ap_network p))"
proof -
  have "batch_ok p empty_tables"
    by (simp add: batch_ok_def empty_tables_def shown_entries_def shown_bodies_def entries_def bodies_def)
  then have "batch_ok p (write_all xs empty_tables)" by (rule write_all_ok [OF others])
  then have "rows_complete p t" using write_ok(2) [of p _ r sha] written by fastforce
  then show ?thesis using assms(3-) by (rule listed_when_complete)
qed

end
