(* ===== verification/Worker_Properties.thy ===== *)
theory Worker_Properties
  imports Site_Handlers Capture_Worker Analytics_Rows Site_Scenario
begin

text \<open>
  The properties of the loops of the worker: its handlers keep to the steps of the stores whatever fails around
  them, an assembly leaves no object behind that the store does not know, and a delivery to the analytics store
  that is repeated after failures shows each request and body once.
\<close>

section \<open>A delivery for the witness\<close>

definition demo_entry :: "nat \<Rightarrow> network_record" where
  "demo_entry n = \<lparr> nw_request_id = ''id'', nw_sequence = n, nw_url = ''https://a/s'', nw_method = ''GET'', nw_resource_type = ''script'',
     nw_status_code = 200, nw_mime_type = ''text/javascript'', nw_response_bytes = 9, nw_duration_ms = 1, nw_failure_code = [] \<rparr>"

definition demo_text :: analytics_body where
  "demo_text = \<lparr> ab_resource_id = 31, ab_sequence = 1, ab_url = ''https://a/s'', ab_resource_type = ''script'',
     ab_mime_type = ''text/javascript'', ab_body_bytes = 9, ab_body_sha = sha_a, ab_was_truncated = False \<rparr>"

definition demo_batch :: "analytics_payload \<Rightarrow> analytics_payload" where
  "demo_batch p = p\<lparr>ap_owner := 3, ap_capture_request := 7, ap_network := [demo_entry 1, demo_entry 0], ap_resource_bodies := [demo_text]\<rparr>"

definition attempt :: "connection \<Rightarrow> nat \<Rightarrow> batch_run" where
  "attempt c n = \<lparr> dr_read = None, dr_metrics = SOUND, dr_requests = SOUND, dr_bodies = c, dr_receipt = SOUND, dr_now = n \<rparr>"

section \<open>Handlers\<close>



text \<open>
  C11. An assembly copies an archive to its final name only after the store has committed the name: in every
  reachable state, whatever fails afterwards, each object it left under a final name is an artifact of this
  generation in the store it leaves, with the size and digest of the object, so that the collector finds it.
\<close>

theorem final_objects_known:
  assumes "reachable sha hash s" "t \<in> set (phase_claims s)"
  shows "(\<lambda>y. (so_key y, so_bytes y, so_sha y)) ` set (ye_final (assemble L r t (store s)))
    \<subseteq> (\<lambda>a. (a_key a, a_bytes a, a_sha a)) ` {a \<in> set (artifacts (ye_db (assemble L r t (store s)))). of_generation t a}"
proof
  fix k
  assume "k \<in> (\<lambda>y. (so_key y, so_bytes y, so_sha y)) ` set (ye_final (assemble L r t (store s)))"
  then obtain y where y: "y \<in> set (ye_final (assemble L r t (store s)))" "k = (so_key y, so_bytes y, so_sha y)" by auto
  from assembled_objects_known [OF assms y(1)] y(2)
  show "k \<in> (\<lambda>a. (a_key a, a_bytes a, a_sha a)) ` {a \<in> set (artifacts (ye_db (assemble L r t (store s)))). of_generation t a}"
    by (auto simp: image_iff)
qed

theorem final_objects_known_witness:
  "\<forall>L r. so_key ` set (ye_final (assemble L r phase2 (store sys11))) \<subseteq> a_key ` set (artifacts (ye_db (assemble L r phase2 (store sys11))))"
proof (intro allI)
  fix L r
  have "phase2 \<in> set (phase_claims sys11)" by (simp add: sys11_def)
  from image_mono [OF final_objects_known [OF reach11 this, of L r], of fst]
  show "so_key ` set (ye_final (assemble L r phase2 (store sys11))) \<subseteq> a_key ` set (artifacts (ye_db (assemble L r phase2 (store sys11))))"
    by (force simp: image_image)
qed

section \<open>Deliveries\<close>

text \<open>
  C20. A delivery to the analytics store may fail after any of its insertions, with or without effect, and is then
  repeated: once it reports success, the list of a capture shows every request exactly once, in the order of the
  page, each with the body of its number, whatever attempts of this and of other captures came before.
\<close>

theorem deliveries_listed:
  assumes "\<forall>(r, q, sha) \<in> set xs. q = p \<or> \<not> (ap_owner q = ap_owner p \<and> ap_capture_request q = ap_capture_request p)"
    and "write_batch r p sha (write_all xs empty_tables) = (Inr (), t)"
    and "distinct (map nw_sequence (ap_network p))" "length (ap_network p) \<le> 500"
    "distinct (map ab_resource_id (ap_resource_bodies p))" "distinct (map ab_sequence (ap_resource_bodies p))"
    "length (ap_resource_bodies p) \<le> 100"
  shows "listResources I (ap_owner p) (ap_capture_request p) t
    = map (resource_record_of (map_of (map (\<lambda>b. (ab_sequence b, b)) (ap_resource_bodies p)))) (sort_key nw_sequence (ap_network p))"
  by (rule deliveries_listed_when_written [OF assms])

theorem deliveries_listed_witness:
  "\<forall>p. listResources \<lparr> request_rank = length, resource_rank = id \<rparr> 3 7
      (snd (write_batch (attempt SOUND 9) (demo_batch p) sha_a (write_all [(attempt LOST_AFTER 8, demo_batch p, sha_a)] empty_tables)))
    = [resource_record_of Map.empty (demo_entry 0), resource_record_of [1 \<mapsto> demo_text] (demo_entry 1)]"
proof
  fix p
  let ?p = "demo_batch p" and ?I = "\<lparr> request_rank = length, resource_rank = id \<rparr>"
  obtain t where t: "write_batch (attempt SOUND 9) ?p sha_a (write_all [(attempt LOST_AFTER 8, ?p, sha_a)] empty_tables) = (Inr (), t)"
    by (simp add: write_batch_def write_rows_def inserted_def and_then_def attempt_def demo_batch_def empty_tables_def)
  have "listResources ?I (ap_owner ?p) (ap_capture_request ?p) t
    = map (resource_record_of (map_of (map (\<lambda>b. (ab_sequence b, b)) (ap_resource_bodies ?p)))) (sort_key nw_sequence (ap_network ?p))"
    by (rule deliveries_listed [OF _ t]) (simp_all add: demo_batch_def demo_entry_def)
  with t show "listResources ?I 3 7
      (snd (write_batch (attempt SOUND 9) ?p sha_a (write_all [(attempt LOST_AFTER 8, ?p, sha_a)] empty_tables)))
    = [resource_record_of Map.empty (demo_entry 0), resource_record_of [1 \<mapsto> demo_text] (demo_entry 1)]"
    by (simp add: demo_batch_def demo_entry_def demo_text_def resource_record_of_def)
qed

end
