(* ===== verification/Worker_Config.thy ===== *)
theory Worker_Config
  imports Command_Parsing Archive_Paths
begin

text \<open>
  The settings of the worker (\<open>capture-worker/src/config.ts\<close>), read from the environment in the order of the
  record of \<open>loadConfig\<close>: the first setting that is missing or out of range stops the start.
\<close>

type_synonym environment = "string \<Rightarrow> string option"

definition required :: "environment \<Rightarrow> string \<Rightarrow> string + string" where
  "required env name = (case map_option trim (env name) of
     None \<Rightarrow> Inl (name @ '' is required'')
   | Some v \<Rightarrow> if v = [] then Inl (name @ '' is required'') else Inr v)"

definition optional :: "environment \<Rightarrow> string \<Rightarrow> string \<Rightarrow> string" where
  "optional env name fallback = (let v = coalesce (map_option trim (env name)) [] in if v = [] then fallback else v)"

definition integer_setting :: "js_text \<Rightarrow> environment \<Rightarrow> string \<Rightarrow> nat \<Rightarrow> nat \<Rightarrow> nat \<Rightarrow> string + nat" where
  "integer_setting N env name fallback lo hi =
     (let failed = Inl (name @ '' must be an integer between '' @ decimal lo @ '' and '' @ decimal hi)
      in case (case env name of None \<Rightarrow> Finite (of_nat fallback) | Some raw \<Rightarrow> text_number N raw) of
           Finite q \<Rightarrow> if of_int \<lfloor>q\<rfloor> = q \<and> of_nat lo \<le> q \<and> q \<le> of_nat hi then Inr (nat \<lfloor>q\<rfloor>) else failed
         | _ \<Rightarrow> failed)"

definition boolean_setting :: "environment \<Rightarrow> string \<Rightarrow> bool \<Rightarrow> string + bool" where
  "boolean_setting env name fallback = (let raw = coalesce (map_option trim (env name)) []
     in if raw = [] then Inr fallback
        else if raw = ''true'' then Inr True
        else if raw = ''false'' then Inr False
        else Inl (name @ '' must be true or false''))"

record worker_settings =
  ws_host :: string
  ws_port :: nat
  ws_service_token :: string
  ws_database_url :: string
  ws_clickhouse_url :: string
  ws_clickhouse_database :: string
  ws_clickhouse_username :: string
  ws_clickhouse_password :: string
  ws_s3_endpoint :: string
  ws_s3_region :: string
  ws_s3_access_key :: string
  ws_s3_secret_key :: string
  ws_s3_bucket :: string
  ws_control_event_url :: string
  ws_control_site_clone_event_url :: string
  ws_crawler_report_base_url :: string
  ws_concurrency :: nat
  ws_worker_poll :: nat
  ws_analytics_poll :: nat
  ws_event_poll :: nat
  ws_gc_poll :: nat
  ws_site_concurrency :: nat
  ws_site_poll :: nat
  ws_migrate :: bool

definition loadConfig :: "js_text \<Rightarrow> environment \<Rightarrow> string + worker_settings" where
  "loadConfig N env =
     rbind (required env ''WEBLENS_SERVICE_TOKEN'') (\<lambda>serviceToken.
     if length serviceToken < 32 \<or> 512 < length serviceToken then Inl ''WEBLENS_SERVICE_TOKEN must contain 32 to 512 characters''
     else
     rbind (integer_setting N env ''CAPTURE_PORT'' 8082 1 65535) (\<lambda>port.
     rbind (required env ''CAPTURE_DATABASE_URL'') (\<lambda>databaseUrl.
     rbind (required env ''CLICKHOUSE_URL'') (\<lambda>clickhouseUrl.
     rbind (required env ''CLICKHOUSE_USERNAME'') (\<lambda>clickhouseUsername.
     rbind (required env ''CLICKHOUSE_PASSWORD'') (\<lambda>clickhousePassword.
     rbind (required env ''S3_ENDPOINT'') (\<lambda>s3Endpoint.
     rbind (required env ''S3_ACCESS_KEY'') (\<lambda>s3AccessKey.
     rbind (required env ''S3_SECRET_KEY'') (\<lambda>s3SecretKey.
     rbind (required env ''WEBLENS_CONTROL_CAPTURE_EVENT_URL'') (\<lambda>controlEventUrl.
     rbind (required env ''WEBLENS_CONTROL_SITE_CLONE_EVENT_URL'') (\<lambda>controlSiteCloneEventUrl.
     rbind (required env ''WEBLENS_CRAWLER_REPORT_BASE_URL'') (\<lambda>crawlerReportBaseUrl.
     rbind (integer_setting N env ''CAPTURE_CONCURRENCY'' 2 1 10) (\<lambda>concurrency.
     rbind (integer_setting N env ''CAPTURE_WORKER_POLL_MS'' 500 100 60000) (\<lambda>workerPoll.
     rbind (integer_setting N env ''CAPTURE_ANALYTICS_POLL_MS'' 500 100 60000) (\<lambda>analyticsPoll.
     rbind (integer_setting N env ''CAPTURE_EVENT_POLL_MS'' 500 100 60000) (\<lambda>eventPoll.
     rbind (integer_setting N env ''CAPTURE_RECONSTRUCTION_GC_POLL_MS'' 30000 1000 300000) (\<lambda>gcPoll.
     rbind (integer_setting N env ''CAPTURE_SITE_CLONE_CONCURRENCY'' 2 1 32) (\<lambda>siteConcurrency.
     rbind (integer_setting N env ''CAPTURE_SITE_CLONE_POLL_MS'' 500 100 60000) (\<lambda>sitePoll.
     rbind (boolean_setting env ''CAPTURE_MIGRATE_CLICKHOUSE_ON_START'' True) (\<lambda>migrate.
       Inr \<lparr> ws_host = optional env ''CAPTURE_HOST'' ''0.0.0.0'', ws_port = port, ws_service_token = serviceToken,
         ws_database_url = databaseUrl, ws_clickhouse_url = clickhouseUrl,
         ws_clickhouse_database = optional env ''CLICKHOUSE_CAPTURE_DATABASE'' ''weblens_capture_analytics'',
         ws_clickhouse_username = clickhouseUsername, ws_clickhouse_password = clickhousePassword,
         ws_s3_endpoint = s3Endpoint, ws_s3_region = optional env ''S3_REGION'' ''us-east-1'',
         ws_s3_access_key = s3AccessKey, ws_s3_secret_key = s3SecretKey,
         ws_s3_bucket = optional env ''S3_CAPTURE_BUCKET'' ''weblens-captures'',
         ws_control_event_url = controlEventUrl, ws_control_site_clone_event_url = controlSiteCloneEventUrl,
         ws_crawler_report_base_url = crawlerReportBaseUrl, ws_concurrency = concurrency,
         ws_worker_poll = workerPoll, ws_analytics_poll = analyticsPoll, ws_event_poll = eventPoll, ws_gc_poll = gcPoll,
         ws_site_concurrency = siteConcurrency, ws_site_poll = sitePoll, ws_migrate = migrate \<rparr>))))))))))))))))))))"

lemma required_bounds: "required env name = Inr v \<Longrightarrow> v \<noteq> []"
  by (auto simp: required_def split: option.splits if_splits)

lemma integer_bounds:
  assumes "integer_setting N env name fallback lo hi = Inr v"
  shows "lo \<le> v \<and> v \<le> hi"
proof -
  obtain n :: int where n: "rat_of_nat lo \<le> of_int n" "of_int n \<le> rat_of_nat hi" "v = nat n"
    using assms by (auto simp: integer_setting_def Let_def split: js_num.splits if_splits option.splits)
  have "rat_of_int (int lo) \<le> of_int n" "rat_of_int n \<le> of_int (int hi)" using n(1,2) by simp_all
  then have "int lo \<le> n" "n \<le> int hi" unfolding of_int_le_iff .
  then show ?thesis using n(3) by linarith
qed

text \<open>With these settings the poll intervals are never busy loops, and every loop has a worker.\<close>

definition settings_ok :: "worker_settings \<Rightarrow> bool" where
  "settings_ok c \<longleftrightarrow> 32 \<le> length (ws_service_token c) \<and> length (ws_service_token c) \<le> 512 \<and> 1 \<le> ws_port c \<and> ws_port c \<le> 65535
     \<and> (1 \<le> ws_concurrency c \<and> ws_concurrency c \<le> 10) \<and> (1 \<le> ws_site_concurrency c \<and> ws_site_concurrency c \<le> 32)
     \<and> 100 \<le> ws_worker_poll c \<and> 100 \<le> ws_analytics_poll c \<and> 100 \<le> ws_event_poll c \<and> 1000 \<le> ws_gc_poll c \<and> 100 \<le> ws_site_poll c"

lemma rbind_InrE: "rbind m f = Inr y \<Longrightarrow> (\<And>x. m = Inr x \<Longrightarrow> f x = Inr y \<Longrightarrow> P) \<Longrightarrow> P"
  by auto

lemma guard_InrE: "(if b then Inl e else m) = Inr y \<Longrightarrow> (\<not> b \<Longrightarrow> m = Inr y \<Longrightarrow> P) \<Longrightarrow> P"
  by (simp split: if_splits)

lemma config_bounds:
  assumes "loadConfig N env = Inr c"
  shows "settings_ok c"
  using assms unfolding loadConfig_def
  by (elim rbind_InrE guard_InrE) ((drule integer_bounds)+, drule Inr_inject [THEN sym], simp add: settings_ok_def)

end
