(* ===== verification/Spec2Isabelle.thy ===== *)
theory Spec2Isabelle
  imports Site_Properties Site_Outcomes Capture_Properties Capture_Outcomes Clone_Properties
    Design_Properties Archive_Properties
    Server_Properties Worker_Properties Worker_Config
begin

text \<open>
  WebLens, the capture worker.

  \<^bold>\<open>The program.\<close> WebLens crawls web sites and reports on them. A Java backend
  (\<open>src/backend\<close>) owns users, scans and requests; a Go crawler (\<open>src/crawler\<close>) fetches pages; the
  capture worker (\<open>src/capture-worker/src\<close>, TypeScript) renders pages in a browser, stores what it saw, and
  packages single pages and whole sites as static archives; React pages (\<open>src/frontend\<close>) show the
  results. This development models the capture worker: it is the part in which several processes share a
  store, leases expire, and files of untrusted pages end up in archives that users open.

  Backend and worker exchange commands and events through HTTP and two outbox tables. A worker process
  runs loops that claim work from PostgreSQL with \<open>for update skip locked\<close>, each claim a lease with a
  generation; it uploads objects to a store, and a collector deletes expired ones.

  \<^bold>\<open>Site reconstructions\<close>, \<open>site-database.ts\<close> and the migrations 004 and 005. \<open>Site_Schema\<close> has the rows of
  the five tables as records, with their constraints as executable predicates, and a transaction as a
  function from the store to an error or a result with the new store, which \<open>commit\<close> refuses when a
  constraint is violated. \<open>Site_Commands\<close> accepts commands and enqueues events, \<open>Site_Pages\<close> ingests targets
  and leases pages, \<open>Site_Phases\<close> leases ingestion and assembly, publishes, and settles cancellations and
  deadlines, \<open>Site_Events\<close> delivers events and holds the reads, \<open>Site_Gc\<close> collects objects.
  \<open>Site_Invariant\<close> says what holds between transactions, the \<open>Site_Preserve\<close> theories that every operation
  keeps it and moves rows along their life cycles, \<open>Site_System\<close> makes the store and the claims of its
  workers a transition system. \<open>Site_Scenario\<close> is a concrete run for the witnesses, \<open>Site_Properties\<close>
  (C1 to C9) and \<open>Site_Outcomes\<close> (C10, C12 to C15) hold the properties.

  \<^bold>\<open>Page captures\<close>, \<open>database.ts\<close> and the migrations 001 and 002: the \<open>Capture_\<close> theories, in the same order
  (schema; jobs; results and outboxes; reads and collection; invariant; preservation; system; contracts;
  scenario), with the properties C17 to C19, C21 and C22 in \<open>Capture_Properties\<close> and C23 to C26 in \<open>Capture_Outcomes\<close>.

  \<^bold>\<open>Interfaces.\<close> \<open>Leases\<close> and \<open>Outbox\<close> state as locales what both stores promise: a generation fences off
  whoever lost a lease, and a delivered message stays delivered and excludes other workers while it is
  leased. \<open>Site_Contracts\<close> and \<open>Capture_Contracts\<close> interpret them on the pages, phases, events, captures
  and batches of the stores; the properties on stale claims and on delivery rest on these facts.

  \<^bold>\<open>Archives of pages\<close>, \<open>static-clone.ts\<close>. \<open>Archive_Paths\<close> has file names inside archives, with the
  operations of \<open>node:path\<close> they use, \<open>Web_Urls\<close> the redactions and normal forms of URLs of all modules,
  \<open>Css_References\<close> the replacement of references in style sheets, \<open>Static_Clone\<close> the plan and the build.
  \<open>Clone_Properties\<close> (C27 to C33): paths stay inside the archive and apart from each other, references
  resolve, redaction hides secrets, plans and builds keep the budgets of the tables.

  \<^bold>\<open>Archives of sites\<close>, \<open>design-clone.ts\<close> and \<open>site-archive.ts\<close>. \<open>Design_Pages\<close> selects representative
  pages, \<open>Design_Properties\<close> (C34) shows that this is a partition. \<open>Site_Bundles\<close> encodes and decodes the
  bundle of a rendered page, \<open>Site_Documents\<close> rewrites documents and style sheets, \<open>Site_Archives\<close> builds the
  shards and the manifest; \<open>Archive_Properties\<close> (C35 to C37) has the round trip, that documents are inert,
  and that shards keep their limit.

  \<^bold>\<open>The edges of the process.\<close> \<open>Network_Guard\<close> is the policy on addresses and URLs (\<open>security.ts\<close>, a locale with
  its interpretation, C40), \<open>Safe_Proxy\<close> the proxy of the browser with its byte budget (\<open>safe-proxy.ts\<close>),
  \<open>Object_Store\<close> the client of the object store (\<open>storage.ts\<close>), \<open>Command_Parsing\<close>, \<open>Http_Server\<close> and
  \<open>Http_Routes\<close> the HTTP server (\<open>server.ts\<close>) over a record of the operations it calls, \<open>Browser_Sessions\<close> the
  sessions of users (\<open>browser-session.ts\<close>) as a step relation with its invariant. \<open>Server_Backend\<close> fills the
  record with the models of the two databases and of the store, and \<open>Server_Properties\<close> (C38, C39) joins them:
  accepted commands fit the tables, and every file served was published and belongs to who asks.

  \<^bold>\<open>Rendering a page\<close>, \<open>capture.ts\<close>. \<open>Rendered_Pages\<close> reads the metadata of a document, the measurements and the
  differences to what the crawler saw; \<open>Capture_Browser\<close> keeps the requests and responses the browser reports, in
  any order, as a step relation whose invariant is the budgets of the command; \<open>Page_Capture\<close> reads the bodies
  under deadlines and a byte budget, and joins all with the static clone to the result of \<open>capturePage\<close>: a
  result always keeps the budgets of its command, and no request for a resource is lost from the clone.

  \<^bold>\<open>The loops.\<close> \<open>Worker_Loops\<close> has what the loops of \<open>index.ts\<close> and \<open>site-worker.ts\<close> share: a call whose connection
  may be lost before or after its commit, a round of claim, work and settlement, and the locale \<open>workers\<close>, in
  which a handler that holds a claim \<open>runs\<close> when the system of its store can do the same in steps.
  \<open>Site_Ingestion\<close> plans the targets of a site, \<open>Site_Worker\<close> has the handlers of \<open>SiteCloneWorker\<close> with their
  \<open>catch\<close> blocks over \<open>Site_Bundles\<close>, \<open>Site_Archives\<close>, \<open>Object_Store\<close> and the operations of the store, and
  \<open>Site_Handlers\<close> interprets the locale on \<open>Site_System\<close> and shows that they refine it. \<open>Capture_Worker\<close> does the
  same for the loops of \<open>index.ts\<close> on \<open>Capture_System\<close>. \<open>Analytics_Rows\<close> writes deliveries to the analytics store
  and reads them back (\<open>analytics.ts\<close>), \<open>Worker_Config\<close> reads the settings (\<open>config.ts\<close>). \<open>Worker_Properties\<close>
  (C11, C16, C20) has the properties: the handlers refine the system, a final object is always known to the
  store, and repeated deliveries are invisible.

  \<^bold>\<open>Conventions.\<close> Times are microseconds as natural numbers, taken from the environment of each transaction
  without any assumption on clocks, unless a property states one. Transactions are atomic and serial, as the
  row locks of the statements make them; \<open>skip locked\<close> is a predicate of the environment, so any set of
  rows may be locked by others. Digests, \<open>hashtext\<close>, the JSON text of a value, \<open>URL\<close>, parse5, yazl, Intl and
  \<open>localeCompare\<close> are parameters; a property that needs a law of one of them names it as a hypothesis.
  Text is ASCII and a byte string is a list of characters. An exception is the left side of a sum, or \<open>None\<close>
  where only its being thrown matters. No fuel is used: every loop is recursion over the rows or characters
  it reads, or comes with its termination proof (\<open>deduplicatePath\<close>, the CSS replacements, alias chains).

  \<^bold>\<open>Not modelled.\<close> The Java backend, the Go crawler, the React pages and the load tools: other programs.
  Of the worker: launching the browser (\<open>browser.ts\<close>) and what runs inside a page (settling, stability,
  \<open>rewriteRenderedHtml\<close>, whose result is a parameter), what Playwright does for a session, the bytes the proxy
  pipes, the migrations of the stores, the requests to the crawler, whose answers are inputs, temporary files,
  waiting between turns, start and shutdown, and log lines. A heartbeat is a step of the system of its own, so
  that it may fall between any two steps of a handler. The \<open>while\<close> loops of \<open>ingest\<close> that look for a free path try
  the same path again and again when it is in use; the model says \<open>HANGS\<close> there.
\<close>

end
